(* ===== verification/Prelude.thy ===== *)
theory Prelude
  imports Main "HOL-Library.Word"
begin

text \<open>
  Shared vocabulary of the development.

  \<^item> The machine integers of the code (\<^verbatim>\<open>std::uint8_t\<close> to \<^verbatim>\<open>std::uint64_t\<close>) as words, byte
    spans as lists of 8-bit words, \<^verbatim>\<open>char\<close> as HOL's 8-bit \<open>char\<close>.
  \<^item> \<^verbatim>\<open>ErrorCode\<close> and \<^verbatim>\<open>Result<T>\<close> of \<^verbatim>\<open>include/fgep/core/errors.hpp\<close>. A \<^verbatim>\<open>Result\<close> whose
    error is \<^verbatim>\<open>ok\<close> is \<open>Ok v\<close>; a failed one is \<open>Fail e\<close>. The code also leaves a default or
    partly filled value next to a failure; no caller reads it, and the model drops it.
  \<^item> The byte-buffer algebra used by every codec proof: a segment of a buffer (\<open>seg\<close>), and
    a block written into a buffer (\<open>put\<close>).
\<close>

unbundle bit_operations_syntax

type_synonym u8 = "8 word"
type_synonym u16 = "16 word"
type_synonym u32 = "32 word"
type_synonym u64 = "64 word"
type_synonym bytes = "u8 list"

named_theorems parse_error_intros \<open>decoding steps that fail with \<open>parse_error\<close> only\<close>


section \<open>Error codes and results\<close>

datatype error_code =
    EC_ok
  | EC_invalid_argument
  | EC_invalid_state
  | EC_not_found
  | EC_duplicate
  | EC_parse_error
  | EC_io_error
  | EC_timeout
  | EC_unsupported
  | EC_internal_error

definition is_ok :: "error_code \<Rightarrow> bool" where
  "is_ok e \<longleftrightarrow> e = EC_ok"

definition is_error :: "error_code \<Rightarrow> bool" where
  "is_error e \<longleftrightarrow> \<not> is_ok e"

datatype 'a result = Fail error_code | Ok 'a

text \<open>
  The early-return idiom \<^verbatim>\<open>if (r.failed()) return {r.error, ...};\<close> and its counterpart for
  functions that return a bare \<^verbatim>\<open>ErrorCode\<close>.
\<close>

fun result_bind :: "'a result \<Rightarrow> ('a \<Rightarrow> 'b result) \<Rightarrow> 'b result" where
  "result_bind (Fail e) f = Fail e"
| "result_bind (Ok v) f = f v"

definition require :: "error_code \<Rightarrow> 'b result \<Rightarrow> 'b result" where
  "require e r = (if e \<noteq> EC_ok then Fail e else r)"

lemma require_ok [simp]: "require EC_ok r = r"
  by (simp add: require_def)

lemma result_bind_eq_Ok: "result_bind r f = Ok y \<longleftrightarrow> (\<exists>x. r = Ok x \<and> f x = Ok y)"
  by (cases r) auto

lemma result_bind_FailE:
  assumes "result_bind r f = Fail e"
  obtains "r = Fail e" | v where "r = Ok v" "f v = Fail e"
  using assms by (cases r) auto

lemma require_eq_Ok: "require e r = Ok y \<longleftrightarrow> e = EC_ok \<and> r = Ok y"
  by (auto simp: require_def)

lemma if_OkE:
  assumes "(if b then Ok x else r) = Ok y"
  obtains "b" "x = y" | "r = Ok y"
  using assms by (cases b) auto

lemma if_FailE:
  assumes "(if b then Ok x else r) = Fail e"
  obtains "r = Fail e"
  using assms by (cases b) auto

lemma if_valid_eq_Ok: "(if b then Ok x else Fail e) = Ok y \<longleftrightarrow> b \<and> x = y"
  by simp

lemmas result_inversion = result_bind_eq_Ok require_eq_Ok

text \<open>A decoder that reports every failure as \<^verbatim>\<open>parse_error\<close>.\<close>

definition only_parse_errors :: "'a result \<Rightarrow> bool" where
  "only_parse_errors r \<longleftrightarrow> (\<forall>e. r = Fail e \<longrightarrow> e = EC_parse_error)"

lemma only_parse_errors_Ok [parse_error_intros]: "only_parse_errors (Ok v)"
  by (simp add: only_parse_errors_def)

lemma only_parse_errors_Fail [parse_error_intros]: "only_parse_errors (Fail EC_parse_error)"
  by (simp add: only_parse_errors_def)

lemma only_parse_errors_bind [parse_error_intros]:
  "only_parse_errors r \<Longrightarrow> (\<And>v. only_parse_errors (f v)) \<Longrightarrow> only_parse_errors (result_bind r f)"
  by (cases r) (auto simp: only_parse_errors_def)

lemma only_parse_errors_require [parse_error_intros]:
  "e \<in> {EC_ok, EC_parse_error} \<Longrightarrow> only_parse_errors r \<Longrightarrow> only_parse_errors (require e r)"
  by (auto simp: only_parse_errors_def require_def)

lemma only_parse_errors_if [parse_error_intros]:
  "only_parse_errors r \<Longrightarrow> only_parse_errors s \<Longrightarrow> only_parse_errors (if b then r else s)"
  by simp

lemma only_parse_errors_let [parse_error_intros]: "only_parse_errors (f v) \<Longrightarrow> only_parse_errors (Let v f)"
  by simp

lemma only_parse_errorsD: "only_parse_errors r \<Longrightarrow> r = Fail e \<Longrightarrow> e = EC_parse_error"
  by (simp add: only_parse_errors_def)

text \<open>
  A buffer-mutating routine takes the buffer and gives its error code together with the
  buffer as it is left, also when the routine stops half-way.
\<close>

type_synonym writer = "bytes \<Rightarrow> error_code \<times> bytes"

definition and_then :: "error_code \<times> bytes \<Rightarrow> writer \<Rightarrow> error_code \<times> bytes" where
  "and_then r w = (if fst r \<noteq> EC_ok then r else w (snd r))"

lemma and_then_ok [simp]: "and_then (EC_ok, bs) w = w bs"
  by (simp add: and_then_def)

lemma and_then_fst_ok:
  "fst (and_then r w) = EC_ok \<longleftrightarrow> fst r = EC_ok \<and> fst (w (snd r)) = EC_ok"
  by (simp add: and_then_def)


section \<open>Segments of a buffer\<close>

definition seg :: "'a list \<Rightarrow> nat \<Rightarrow> nat \<Rightarrow> 'a list" where
  "seg bs off n = take n (drop off bs)"

definition put :: "'a list \<Rightarrow> nat \<Rightarrow> 'a list \<Rightarrow> 'a list" where
  "put bs off xs = map (\<lambda>i. if off \<le> i \<and> i < off + length xs then xs ! (i - off) else bs ! i)
     [0..<length bs]"

lemma length_put [simp]: "length (put bs off xs) = length bs"
  by (simp add: put_def)

lemma nth_put:
  "i < length bs \<Longrightarrow>
   put bs off xs ! i = (if off \<le> i \<and> i < off + length xs then xs ! (i - off) else bs ! i)"
  by (simp add: put_def)

lemma length_seg: "length (seg bs off n) = min n (length bs - off)"
  by (simp add: seg_def)

lemma length_seg_in [simp]: "off + n \<le> length bs \<Longrightarrow> length (seg bs off n) = n"
  by (simp add: length_seg)

lemma nth_seg: "i < n \<Longrightarrow> off + n \<le> length bs \<Longrightarrow> seg bs off n ! i = bs ! (off + i)"
  by (simp add: seg_def)

lemma seg_eqI:
  assumes "off + n \<le> length bs" "off' + n \<le> length cs"
    and "\<And>i. i < n \<Longrightarrow> bs ! (off + i) = cs ! (off' + i)"
  shows "seg bs off n = seg cs off' n"
  using assms by (intro nth_equalityI) (auto simp: nth_seg)

lemma seg_put_same:
  "off + length xs \<le> length bs \<Longrightarrow> n = length xs \<Longrightarrow> seg (put bs off xs) off n = xs"
  by (intro nth_equalityI) (auto simp: nth_seg nth_put)

lemma seg_put_disjoint:
  assumes "p + n \<le> off \<or> off + length xs \<le> p"
  shows "seg (put bs off xs) p n = seg bs p n"
proof (rule nth_equalityI)
  show "length (seg (put bs off xs) p n) = length (seg bs p n)"
    by (simp add: length_seg)
next
  fix i assume "i < length (seg (put bs off xs) p n)"
  then have "i < n" "p + i < length bs" by (auto simp: length_seg)
  with assms show "seg (put bs off xs) p n ! i = seg bs p n ! i"
    by (auto simp: seg_def nth_put)
qed

lemma put_seg_same: "off + n \<le> length bs \<Longrightarrow> put bs off (seg bs off n) = bs"
  by (intro nth_equalityI) (auto simp: nth_put nth_seg)

lemma put_append:
  "put (put bs off xs) (off + length xs) ys = put bs off (xs @ ys)"
  by (intro nth_equalityI) (auto simp: nth_put nth_append)

lemma list_update_put: "off < length bs \<Longrightarrow> bs[off := b] = put bs off [b]"
  by (intro nth_equalityI) (auto simp: nth_put nth_list_update)

lemma seg_Suc: "off < length bs \<Longrightarrow> seg bs off (Suc n) = bs ! off # seg bs (Suc off) n"
  by (simp add: seg_def Cons_nth_drop_Suc [symmetric])

lemma seg_none: "seg bs off 0 = []"
  by (simp add: seg_def)

lemma put_Nil: "put bs off [] = bs"
  by (intro nth_equalityI) (auto simp: nth_put)

lemma put_Cons: "off < length bs \<Longrightarrow> put bs off (x # xs) = put (bs[off := x]) (Suc off) xs"
  by (intro nth_equalityI) (auto simp: nth_put nth_list_update nth_Cons')

lemma seg_join: "k = off + a \<Longrightarrow> seg bs off a @ seg bs k b = seg bs off (a + b)"
  by (simp add: seg_def take_add add.commute)

lemma seg_all: "n = length bs \<Longrightarrow> seg bs 0 n = bs"
  by (simp add: seg_def)

lemma put_put_append: "k = off + length xs \<Longrightarrow> put (put bs off xs) k ys = put bs off (xs @ ys)"
  by (simp add: put_append)

lemma put_all: "length xs = length bs \<Longrightarrow> put bs 0 xs = xs"
  by (intro nth_equalityI) (auto simp: nth_put)

lemma seg_append_take: "n = length xs \<Longrightarrow> seg (xs @ ys) 0 n = xs"
  by (simp add: seg_def)

lemma seg_append_skip: "length xs \<le> off \<Longrightarrow> seg (xs @ ys) off n = seg ys (off - length xs) n"
  by (simp add: seg_def)

section \<open>Characters and bytes\<close>

definition byte_of_char :: "char \<Rightarrow> u8" where
  "byte_of_char c = word_of_nat (of_char c)"

definition char_of_byte :: "u8 \<Rightarrow> char" where
  "char_of_byte b = char_of (unat b)"

lemma of_char_less_256: "(of_char c :: nat) < 256"
proof -
  have "(of_char c :: nat) mod 256 = of_char c" by simp
  then show ?thesis by (metis mod_less_divisor zero_less_numeral)
qed

lemma unat_byte_of_char [simp]: "unat (byte_of_char c) = of_char c"
  using of_char_less_256 [of c] by (simp add: byte_of_char_def unat_of_nat)

lemma char_of_byte_of_char [simp]: "char_of_byte (byte_of_char c) = c"
  by (simp add: char_of_byte_def)

lemma byte_of_char_of_byte [simp]: "byte_of_char (char_of_byte b) = b"
proof -
  have "unat b < 256" using unsigned_less [of b, where 'a = nat] by simp
  then show ?thesis by (simp add: char_of_byte_def byte_of_char_def)
qed

lemma byte_of_char_inj [simp]: "byte_of_char c = byte_of_char d \<longleftrightarrow> c = d"
  by (metis char_of_byte_of_char)

end
