(* ===== verification/Wire.thy ===== *)
theory Wire
  imports Prelude
begin

text \<open>
  The wire layer: \<^verbatim>\<open>include/fgep/wire/byte_io.hpp\<close> and \<^verbatim>\<open>include/fgep/wire/fixed_ascii.hpp\<close>.
  Offsets and lengths (\<^verbatim>\<open>std::size_t\<close>) are natural numbers: the only arithmetic on them is
  guarded by \<open>has_range\<close>, whose subtraction is itself guarded.
\<close>

section \<open>Range checks and big-endian readers\<close>

definition has_range :: "bytes \<Rightarrow> nat \<Rightarrow> nat \<Rightarrow> bool" where
  "has_range bytes offset len \<longleftrightarrow> offset \<le> length bytes \<and> len \<le> length bytes - offset"

definition read_u8 :: "bytes \<Rightarrow> nat \<Rightarrow> u8 result" where
  "read_u8 bytes offset =
     (if \<not> has_range bytes offset 1 then Fail EC_parse_error else Ok (bytes ! offset))"

definition read_u16_be :: "bytes \<Rightarrow> nat \<Rightarrow> u16 result" where
  "read_u16_be bytes offset =
     (if \<not> has_range bytes offset 2 then Fail EC_parse_error
      else let b0 = ucast (bytes ! offset); b1 = ucast (bytes ! (offset + 1))
        in Ok (push_bit 8 b0 OR b1))"

definition read_u32_be :: "bytes \<Rightarrow> nat \<Rightarrow> u32 result" where
  "read_u32_be bytes offset =
     (if \<not> has_range bytes offset 4 then Fail EC_parse_error
      else let b0 = ucast (bytes ! offset); b1 = ucast (bytes ! (offset + 1));
               b2 = ucast (bytes ! (offset + 2)); b3 = ucast (bytes ! (offset + 3))
        in Ok (push_bit 24 b0 OR push_bit 16 b1 OR push_bit 8 b2 OR b3))"

definition read_u48_be :: "bytes \<Rightarrow> nat \<Rightarrow> u64 result" where
  "read_u48_be bytes offset =
     (if \<not> has_range bytes offset 6 then Fail EC_parse_error
      else let b0 = ucast (bytes ! offset); b1 = ucast (bytes ! (offset + 1));
               b2 = ucast (bytes ! (offset + 2)); b3 = ucast (bytes ! (offset + 3));
               b4 = ucast (bytes ! (offset + 4)); b5 = ucast (bytes ! (offset + 5))
        in Ok (push_bit 40 b0 OR push_bit 32 b1 OR push_bit 24 b2 OR push_bit 16 b3
             OR push_bit 8 b4 OR b5))"

definition read_u64_be :: "bytes \<Rightarrow> nat \<Rightarrow> u64 result" where
  "read_u64_be bytes offset =
     (if \<not> has_range bytes offset 8 then Fail EC_parse_error
      else let b0 = ucast (bytes ! offset); b1 = ucast (bytes ! (offset + 1));
               b2 = ucast (bytes ! (offset + 2)); b3 = ucast (bytes ! (offset + 3));
               b4 = ucast (bytes ! (offset + 4)); b5 = ucast (bytes ! (offset + 5));
               b6 = ucast (bytes ! (offset + 6)); b7 = ucast (bytes ! (offset + 7))
        in Ok (push_bit 56 b0 OR push_bit 48 b1 OR push_bit 40 b2 OR push_bit 32 b3
             OR push_bit 24 b4 OR push_bit 16 b5 OR push_bit 8 b6 OR b7))"

section \<open>Big-endian writers\<close>

definition write_u8 :: "bytes \<Rightarrow> nat \<Rightarrow> u8 \<Rightarrow> error_code \<times> bytes" where
  "write_u8 bytes offset v =
     (if \<not> has_range bytes offset 1 then (EC_parse_error, bytes)
      else (EC_ok, bytes[offset := v]))"

definition write_u16_be :: "bytes \<Rightarrow> nat \<Rightarrow> u16 \<Rightarrow> error_code \<times> bytes" where
  "write_u16_be bytes offset v =
     (if \<not> has_range bytes offset 2 then (EC_parse_error, bytes)
      else (EC_ok, bytes[offset := ucast (drop_bit 8 v AND 0xFF),
                         offset + 1 := ucast (v AND 0xFF)]))"

definition write_u32_be :: "bytes \<Rightarrow> nat \<Rightarrow> u32 \<Rightarrow> error_code \<times> bytes" where
  "write_u32_be bytes offset v =
     (if \<not> has_range bytes offset 4 then (EC_parse_error, bytes)
      else (EC_ok, bytes[offset := ucast (drop_bit 24 v AND 0xFF),
                         offset + 1 := ucast (drop_bit 16 v AND 0xFF),
                         offset + 2 := ucast (drop_bit 8 v AND 0xFF),
                         offset + 3 := ucast (v AND 0xFF)]))"

definition write_u48_be :: "bytes \<Rightarrow> nat \<Rightarrow> u64 \<Rightarrow> error_code \<times> bytes" where
  "write_u48_be bytes offset v =
     (if \<not> has_range bytes offset 6 then (EC_parse_error, bytes)
      else if v > 0x0000FFFFFFFFFFFF then (EC_invalid_argument, bytes)
      else (EC_ok, bytes[offset := ucast (drop_bit 40 v AND 0xFF),
                         offset + 1 := ucast (drop_bit 32 v AND 0xFF),
                         offset + 2 := ucast (drop_bit 24 v AND 0xFF),
                         offset + 3 := ucast (drop_bit 16 v AND 0xFF),
                         offset + 4 := ucast (drop_bit 8 v AND 0xFF),
                         offset + 5 := ucast (v AND 0xFF)]))"

definition write_u64_be :: "bytes \<Rightarrow> nat \<Rightarrow> u64 \<Rightarrow> error_code \<times> bytes" where
  "write_u64_be bytes offset v =
     (if \<not> has_range bytes offset 8 then (EC_parse_error, bytes)
      else (EC_ok, bytes[offset := ucast (drop_bit 56 v AND 0xFF),
                         offset + 1 := ucast (drop_bit 48 v AND 0xFF),
                         offset + 2 := ucast (drop_bit 40 v AND 0xFF),
                         offset + 3 := ucast (drop_bit 32 v AND 0xFF),
                         offset + 4 := ucast (drop_bit 24 v AND 0xFF),
                         offset + 5 := ucast (drop_bit 16 v AND 0xFF),
                         offset + 6 := ucast (drop_bit 8 v AND 0xFF),
                         offset + 7 := ucast (v AND 0xFF)]))"

section \<open>Fixed-width ASCII\<close>

text \<open>A \<^verbatim>\<open>FixedAscii<N>\<close> is a \<open>string\<close>; the template argument is the first argument.\<close>

definition is_printable_ascii_or_space :: "char \<Rightarrow> bool" where
  "is_printable_ascii_or_space c \<longleftrightarrow> 0x20 \<le> byte_of_char c \<and> byte_of_char c \<le> 0x7E"

definition is_valid_fixed_ascii :: "string \<Rightarrow> bool" where
  "is_valid_fixed_ascii s \<longleftrightarrow> list_all is_printable_ascii_or_space s"

definition read_fixed_ascii :: "nat \<Rightarrow> bytes \<Rightarrow> nat \<Rightarrow> string result" where
  "read_fixed_ascii n bytes offset =
     (if \<not> has_range bytes offset n then Fail EC_parse_error
      else let s = map (\<lambda>index. char_of_byte (bytes ! (offset + index))) [0..<n]
        in if \<not> is_valid_fixed_ascii s then Fail EC_parse_error else Ok s)"

text \<open>The byte-copy loop of \<^verbatim>\<open>write_fixed_ascii\<close>: index \<open>i\<close> runs over \<^verbatim>\<open>0 .. N-1\<close>.\<close>

fun copy_ascii :: "bytes \<Rightarrow> nat \<Rightarrow> string \<Rightarrow> bytes" where
  "copy_ascii bytes k [] = bytes"
| "copy_ascii bytes k (c # s) = copy_ascii (bytes[k := byte_of_char c]) (Suc k) s"

definition write_fixed_ascii :: "nat \<Rightarrow> bytes \<Rightarrow> nat \<Rightarrow> string \<Rightarrow> error_code \<times> bytes" where
  "write_fixed_ascii n bytes offset s =
     (if \<not> has_range bytes offset n then (EC_parse_error, bytes)
      else if \<not> is_valid_fixed_ascii s then (EC_invalid_argument, bytes)
      else (EC_ok, copy_ascii bytes offset (take n s)))"

definition make_fixed_ascii :: "nat \<Rightarrow> string \<Rightarrow> string result" where
  "make_fixed_ascii n text =
     (if length text > n then Fail EC_invalid_argument
      else if \<not> list_all is_printable_ascii_or_space text then Fail EC_invalid_argument
      else Ok (text @ replicate (n - length text) (CHR '' '')))"

fun trim_from :: "string \<Rightarrow> nat \<Rightarrow> nat" where
  "trim_from s 0 = 0"
| "trim_from s (Suc len) = (if s ! len = CHR '' '' then trim_from s len else Suc len)"

definition trimmed_length :: "string \<Rightarrow> nat" where
  "trimmed_length s = trim_from s (length s)"

definition fixed_ascii_equals :: "string \<Rightarrow> string \<Rightarrow> bool" where
  "fixed_ascii_equals s text \<longleftrightarrow>
     length text = trimmed_length s \<and> list_all (\<lambda>i. s ! i = text ! i) [0..<length text]"

section \<open>Big-endian images\<close>

text \<open>
  The reference meaning of the wire integers: \<open>be_nat\<close> is the positional value of a byte
  string, \<open>be_bytes n v\<close> the low \<open>n\<close> bytes of a word, most significant first, and
  \<open>be_word\<close> the word a byte string denotes.
\<close>

primrec be_bytes :: "nat \<Rightarrow> 'a::len word \<Rightarrow> bytes" where
  "be_bytes 0 v = []"
| "be_bytes (Suc n) v = be_bytes n (drop_bit 8 v) @ [ucast v]"

definition be_word :: "bytes \<Rightarrow> 'a::len word" where
  "be_word xs = foldl (\<lambda>acc b. push_bit 8 acc OR ucast b) 0 xs"

definition be_nat :: "bytes \<Rightarrow> nat" where
  "be_nat xs = foldl (\<lambda>acc b. 256 * acc + unat b) 0 xs"

lemma length_be_bytes [simp]: "length (be_bytes n v) = n"
  by (induction n arbitrary: v) auto

lemma be_bytes_Suc_numeral: 
  "be_bytes (numeral k) v = be_bytes (pred_numeral k) (drop_bit 8 v) @ [ucast v]"
  by (simp add: numeral_eq_Suc)

lemma be_nat_snoc: "be_nat (xs @ [b]) = 256 * be_nat xs + unat b"
  by (simp add: be_nat_def)

lemma be_word_snoc: "be_word (xs @ [b]) = push_bit 8 (be_word xs) OR ucast b"
  by (simp add: be_word_def)

lemma be_word_Nil [simp]: "be_word [] = 0"
  by (simp add: be_word_def)

lemma be_nat_be_bytes: "be_nat (be_bytes n v) = unat v mod 256 ^ n"
proof (induction n arbitrary: v)
  case 0
  show ?case by (simp add: be_nat_def)
next
  case (Suc n)
  have "unat (drop_bit 8 v) = unat v div 256"
    by (subst unat_drop_bit_eq, subst drop_bit_eq_div) simp
  moreover have "unat (ucast v :: u8) = unat v mod 256"
    by (simp add: unsigned_ucast_eq take_bit_eq_mod)
  ultimately show ?case
    using Suc.IH [of "drop_bit 8 v"]
    by (simp add: be_nat_snoc mod_mult2_eq)
qed

lemma be_word_be_bytes: "be_word (be_bytes n v) = take_bit (8 * n) (v :: 'a::len word)"
proof (induction n arbitrary: v)
  case 0
  show ?case by simp
next
  case (Suc n)
  have "push_bit 8 (take_bit (8 * n) (drop_bit 8 v)) OR ucast (ucast v :: u8) = take_bit (8 * Suc n) v"
    by (rule bit_word_eqI) (auto simp: bit_simps dest: bit_imp_le_length)
  with Suc.IH [of "drop_bit 8 v"] show ?case by (simp add: be_word_snoc)
qed

lemma bit_be_word: "bit (be_word xs :: 'a::len word) k \<Longrightarrow> k < 8 * length xs"
proof (induction xs arbitrary: k rule: rev_induct)
  case Nil
  then show ?case by simp
next
  case (snoc b xs)
  show ?case
  proof (cases "k < 8")
    case False
    with snoc.prems have "bit (be_word xs :: 'a word) (k - 8)"
      by (auto simp: be_word_snoc bit_simps dest: bit_imp_le_length)
    then have "k - 8 < 8 * length xs" by (rule snoc.IH)
    then show ?thesis by simp
  qed simp
qed

lemma be_bytes_be_word:
  "8 * length xs \<le> LENGTH('a::len) \<Longrightarrow> be_bytes (length xs) (be_word xs :: 'a word) = xs"
proof (induction xs rule: rev_induct)
  case Nil
  then show ?case by simp
next
  case (snoc b xs)
  have "drop_bit 8 (push_bit 8 (be_word xs :: 'a word) OR ucast b) = be_word xs"
  proof (rule bit_word_eqI)
    fix k assume "k < LENGTH('a)"
    show "bit (drop_bit 8 (push_bit 8 (be_word xs :: 'a word) OR ucast b)) k = bit (be_word xs :: 'a word) k"
      using bit_be_word [of xs k, where 'a = 'a] snoc.prems
      by (auto simp: bit_simps dest: bit_imp_le_length)
  qed
  moreover have "ucast (push_bit 8 (be_word xs :: 'a word) OR ucast b) = b"
    using snoc.prems
    by (intro bit_word_eqI) (auto simp: bit_simps)
  ultimately show ?case using snoc by (simp add: be_word_snoc)
qed

lemma ucast_low_byte: "ucast ((w :: 'a::len word) AND 0xFF) = (ucast w :: u8)"
proof (rule bit_word_eqI)
  fix k assume "k < LENGTH(8)"
  have "(0xFF :: 'a word) = mask 8" by (simp add: mask_eq_exp_minus_1)
  then show "bit (ucast (w AND 0xFF) :: u8) k = bit (ucast w :: u8) k"
    using \<open>k < LENGTH(8)\<close> by (simp only: flip: take_bit_eq_mask) (auto simp: bit_simps dest: bit_imp_le_length)
qed

section \<open>The contract of a wire field\<close>

text \<open>
  Every field codec of the wire layer keeps the same contract: a value of the field's C++ type
  (\<open>typed\<close>) that is also in range (\<open>valid\<close>) is written as its \<open>image\<close> and nothing else of
  the buffer changes; a write that is out of range or invalid leaves the buffer as it was; a
  read gives exactly the valid value whose image is in the buffer.
\<close>

locale wire_field =
  fixes width :: nat
    and typed :: "'v \<Rightarrow> bool"
    and valid :: "'v \<Rightarrow> bool"
    and image :: "'v \<Rightarrow> bytes"
    and rd :: "bytes \<Rightarrow> nat \<Rightarrow> 'v result"
    and wr :: "bytes \<Rightarrow> nat \<Rightarrow> 'v \<Rightarrow> error_code \<times> bytes"
  assumes valid_typed: "valid v \<Longrightarrow> typed v"
    and length_image: "typed v \<Longrightarrow> length (image v) = width"
    and wr_out_of_range: "\<not> has_range bs off width \<Longrightarrow> wr bs off v = (EC_parse_error, bs)"
    and wr_invalid: "has_range bs off width \<Longrightarrow> typed v \<Longrightarrow> \<not> valid v \<Longrightarrow>
      wr bs off v = (EC_invalid_argument, bs)"
    and wr_valid: "has_range bs off width \<Longrightarrow> valid v \<Longrightarrow> wr bs off v = (EC_ok, put bs off (image v))"
    and rd_out_of_range: "\<not> has_range bs off width \<Longrightarrow> rd bs off = Fail EC_parse_error"
    and rd_in_range: "has_range bs off width \<Longrightarrow>
      rd bs off = Ok v \<longleftrightarrow> valid v \<and> image v = seg bs off width"
    and rd_error: "rd bs off = Fail e \<Longrightarrow> e = EC_parse_error"
begin

lemma rd_Ok_iff:
  "rd bs off = Ok v \<longleftrightarrow> has_range bs off width \<and> valid v \<and> image v = seg bs off width"
  by (cases "has_range bs off width") (auto simp: rd_out_of_range rd_in_range)

lemma rd_Fail_iff: "rd bs off = Fail e \<longleftrightarrow> e = EC_parse_error \<and> (\<forall>v. rd bs off \<noteq> Ok v)"
  using rd_error [of bs off] by (cases "rd bs off") auto

lemma rd_only_parse_errors: "only_parse_errors (rd bs off)"
  using rd_error by (auto simp: only_parse_errors_def)

lemma length_wr: "typed v \<Longrightarrow> length (snd (wr bs off v)) = length bs"
  by (cases "has_range bs off width"; cases "valid v")
     (auto simp: wr_out_of_range wr_invalid wr_valid)

lemma rd_cong:
  assumes "length bs = length cs" "seg bs off width = seg cs off width"
  shows "rd bs off = rd cs off"
proof -
  have "rd bs off = Ok v \<longleftrightarrow> rd cs off = Ok v" for v
    using assms by (auto simp: rd_Ok_iff has_range_def)
  then show ?thesis by (cases "rd bs off"; cases "rd cs off") (metis rd_error)+
qed

lemma rd_put_same:
  assumes "has_range bs off width" "valid v"
  shows "rd (put bs off (image v)) off = Ok v"
  using assms
  by (auto simp: rd_Ok_iff has_range_def valid_typed length_image seg_put_same)

lemma rd_put_disjoint:
  "off + width \<le> p \<or> p + length xs \<le> off \<Longrightarrow> rd (put bs p xs) off = rd bs off"
  by (rule rd_cong) (auto simp: seg_put_disjoint)

lemma rd_after_wr:
  "typed v \<Longrightarrow> wr bs off v = (EC_ok, bs') \<Longrightarrow> rd bs' off = Ok v"
  by (cases "has_range bs off width"; cases "valid v")
     (auto simp: wr_out_of_range wr_invalid wr_valid rd_put_same)

lemma wr_after_rd: "rd bs off = Ok v \<Longrightarrow> wr bs off v = (EC_ok, bs)"
  by (auto simp: rd_Ok_iff wr_valid has_range_def put_seg_same)

end

section \<open>The codecs keep the contract\<close>

lemma has_range_put [simp]: "has_range (put bs p xs) off n = has_range bs off n"
  by (simp add: has_range_def)

lemma has_range_length: "has_range bs off n \<longleftrightarrow> off + n \<le> length bs"
  by (auto simp: has_range_def)

lemma plus_Suc: 
  "(n::nat) + 3 = Suc (Suc (Suc n))"
  "n + 4 = Suc (Suc (Suc (Suc n)))"
  "n + 5 = Suc (Suc (Suc (Suc (Suc n))))"
  "n + 6 = Suc (Suc (Suc (Suc (Suc (Suc n)))))"
  "n + 7 = Suc (Suc (Suc (Suc (Suc (Suc (Suc n))))))"
  "n + 8 = Suc (Suc (Suc (Suc (Suc (Suc (Suc (Suc n)))))))"
  by simp_all

lemma be_bytes_unfold:
  "be_bytes 2 v = [ucast (drop_bit 8 v), ucast v]"
  "be_bytes 4 v = [ucast (drop_bit 24 v), ucast (drop_bit 16 v), ucast (drop_bit 8 v), ucast v]"
  "be_bytes 6 v = [ucast (drop_bit 40 v), ucast (drop_bit 32 v), ucast (drop_bit 24 v),
     ucast (drop_bit 16 v), ucast (drop_bit 8 v), ucast v]"
  "be_bytes 8 v = [ucast (drop_bit 56 v), ucast (drop_bit 48 v), ucast (drop_bit 40 v),
     ucast (drop_bit 32 v), ucast (drop_bit 24 v), ucast (drop_bit 16 v), ucast (drop_bit 8 v), ucast v]"
  by (simp_all add: be_bytes_Suc_numeral)

lemma seg_unfold:
  "off + 2 \<le> length bs \<Longrightarrow> seg bs off 2 = [bs ! off, bs ! (off + 1)]"
  "off + 4 \<le> length bs \<Longrightarrow> seg bs off 4 = [bs ! off, bs ! (off + 1), bs ! (off + 2), bs ! (off + 3)]"
  "off + 6 \<le> length bs \<Longrightarrow> seg bs off 6 = [bs ! off, bs ! (off + 1), bs ! (off + 2), bs ! (off + 3),
     bs ! (off + 4), bs ! (off + 5)]"
  "off + 8 \<le> length bs \<Longrightarrow> seg bs off 8 = [bs ! off, bs ! (off + 1), bs ! (off + 2), bs ! (off + 3),
     bs ! (off + 4), bs ! (off + 5), bs ! (off + 6), bs ! (off + 7)]"
  by (simp_all add: eval_nat_numeral seg_Suc seg_none)

lemmas read_alt_simps = has_range_length seg_unfold be_word_def Let_def push_bit_or or.assoc

lemma read_u16_be_alt:
  "read_u16_be bs off = (if has_range bs off 2 then Ok (be_word (seg bs off 2)) else Fail EC_parse_error)"
  by (simp add: read_u16_be_def read_alt_simps)

lemma read_u32_be_alt:
  "read_u32_be bs off = (if has_range bs off 4 then Ok (be_word (seg bs off 4)) else Fail EC_parse_error)"
  by (simp add: read_u32_be_def read_alt_simps)

lemma read_u48_be_alt:
  "read_u48_be bs off = (if has_range bs off 6 then Ok (be_word (seg bs off 6)) else Fail EC_parse_error)"
  by (simp add: read_u48_be_def read_alt_simps)

lemma read_u64_be_alt:
  "read_u64_be bs off = (if has_range bs off 8 then Ok (be_word (seg bs off 8)) else Fail EC_parse_error)"
  by (simp add: read_u64_be_def read_alt_simps)

lemmas write_alt_simps =
  has_range_length be_bytes_unfold put_Cons put_Nil plus_Suc ucast_low_byte

lemma write_u16_be_alt:
  "write_u16_be bs off v = (if has_range bs off 2 then (EC_ok, put bs off (be_bytes 2 v)) else (EC_parse_error, bs))"
  by (simp add: write_u16_be_def write_alt_simps)

lemma write_u32_be_alt:
  "write_u32_be bs off v = (if has_range bs off 4 then (EC_ok, put bs off (be_bytes 4 v)) else (EC_parse_error, bs))"
  by (simp add: write_u32_be_def write_alt_simps)

lemma write_u64_be_alt:
  "write_u64_be bs off v = (if has_range bs off 8 then (EC_ok, put bs off (be_bytes 8 v)) else (EC_parse_error, bs))"
  by (simp add: write_u64_be_def write_alt_simps)

lemma write_u48_be_alt:
  "write_u48_be bs off v =
     (if has_range bs off 6
      then if v \<le> 0xFFFFFFFFFFFF then (EC_ok, put bs off (be_bytes 6 v)) else (EC_invalid_argument, bs)
      else (EC_parse_error, bs))"
  by (auto simp: write_u48_be_def write_alt_simps)

lemma be_word_iff:
  assumes "off + n \<le> length bs" "8 * n \<le> LENGTH('a::len)"
  shows "be_word (seg bs off n) = (v :: 'a word) \<longleftrightarrow> take_bit (8 * n) v = v \<and> be_bytes n v = seg bs off n"
proof
  assume v: "be_word (seg bs off n) = v"
  have "be_bytes n v = seg bs off n"
    using be_bytes_be_word [of "seg bs off n", where 'a = 'a] assms by (simp flip: v)
  moreover from this have "take_bit (8 * n) v = v"
    using be_word_be_bytes [of n v] v by simp
  ultimately show "take_bit (8 * n) v = v \<and> be_bytes n v = seg bs off n" by simp
next
  assume "take_bit (8 * n) v = v \<and> be_bytes n v = seg bs off n"
  then show "be_word (seg bs off n) = v" using be_word_be_bytes [of n v] by simp
qed

lemma take_bit_48_iff: "take_bit 48 (v :: u64) = v \<longleftrightarrow> v \<le> 0xFFFFFFFFFFFF"
proof -
  have "take_bit 48 v = v \<longleftrightarrow> uint v < 2 ^ 48"
    by (simp only: take_bit_eq_mask mask_eq_iff)
  also have "\<dots> \<longleftrightarrow> v \<le> 0xFFFFFFFFFFFF"
    by (simp add: word_le_def flip: zle_diff1_eq)
  finally show ?thesis .
qed

lemma take_bit_full [simp]:
  "take_bit 16 (v16 :: u16) = v16" "take_bit 32 (v32 :: u32) = v32" "take_bit 64 (v64 :: u64) = v64"
  by (simp_all add: take_bit_word_eq_self)

lemma be_bytes_inject:
  "take_bit (8 * n) a = a \<Longrightarrow> take_bit (8 * n) b = b \<Longrightarrow> be_bytes n a = be_bytes n b \<longleftrightarrow> a = b"
  by (metis be_word_be_bytes)

lemma be_bytes_inj:
  "be_bytes 2 (a :: u16) = be_bytes 2 b \<longleftrightarrow> a = b"
  "be_bytes 4 (c :: u32) = be_bytes 4 d \<longleftrightarrow> c = d"
  "be_bytes 8 (e :: u64) = be_bytes 8 f \<longleftrightarrow> e = f"
  by (simp_all add: be_bytes_inject)

lemma map_byte_of_char_inj: "map byte_of_char s = map byte_of_char t \<longleftrightarrow> s = t"
  by (rule inj_map_eq_map) (simp add: inj_def)

interpretation u8_field: wire_field 1 "\<lambda>_. True" "\<lambda>_. True" "\<lambda>v. [v]" read_u8 write_u8
  by unfold_locales
     (auto simp: read_u8_def write_u8_def has_range_length list_update_put seg_Suc seg_none
       split: if_splits)

interpretation u16_field: wire_field 2 "\<lambda>_. True" "\<lambda>_. True" "be_bytes 2" read_u16_be write_u16_be
  by unfold_locales
     (auto simp: read_u16_be_alt write_u16_be_alt be_word_iff has_range_length split: if_splits)

interpretation u32_field: wire_field 4 "\<lambda>_. True" "\<lambda>_. True" "be_bytes 4" read_u32_be write_u32_be
  by unfold_locales
     (auto simp: read_u32_be_alt write_u32_be_alt be_word_iff has_range_length split: if_splits)

interpretation u64_field: wire_field 8 "\<lambda>_. True" "\<lambda>_. True" "be_bytes 8" read_u64_be write_u64_be
  by unfold_locales
     (auto simp: read_u64_be_alt write_u64_be_alt be_word_iff has_range_length split: if_splits)

interpretation u48_field:
  wire_field 6 "\<lambda>_. True" "\<lambda>v. v \<le> 0xFFFFFFFFFFFF" "be_bytes 6" read_u48_be write_u48_be
  by unfold_locales
     (auto simp: read_u48_be_alt write_u48_be_alt be_word_iff take_bit_48_iff has_range_length
       split: if_splits)

lemma copy_ascii_put:
  "k + length s \<le> length bs \<Longrightarrow> copy_ascii bs k s = put bs k (map byte_of_char s)"
  by (induction bs k s rule: copy_ascii.induct) (auto simp: put_Nil put_Cons)

lemma read_fixed_ascii_alt:
  "read_fixed_ascii n bs off =
     (if has_range bs off n \<and> is_valid_fixed_ascii (map char_of_byte (seg bs off n))
      then Ok (map char_of_byte (seg bs off n)) else Fail EC_parse_error)"
proof -
  have "map (\<lambda>i. char_of_byte (bs ! (off + i))) [0..<n] = map char_of_byte (seg bs off n)"
    if "has_range bs off n"
    using that by (intro nth_equalityI) (auto simp: has_range_length nth_seg)
  then show ?thesis by (auto simp: read_fixed_ascii_def Let_def)
qed

lemma map_char_of_byte_iff: "map char_of_byte xs = s \<longleftrightarrow> xs = map byte_of_char s"
  by (auto simp: map_idI)

interpretation ascii_field:
  wire_field n "\<lambda>s. length s = n" "\<lambda>s. length s = n \<and> is_valid_fixed_ascii s"
    "map byte_of_char" "read_fixed_ascii n" "write_fixed_ascii n" for n
proof unfold_locales
  fix bs off v
  assume r: "has_range bs off n"
  then have len: "length (seg bs off n) = n" by (simp add: has_range_length)
  show "read_fixed_ascii n bs off = Ok v \<longleftrightarrow>
     (length v = n \<and> is_valid_fixed_ascii v) \<and> map byte_of_char v = seg bs off n"
  proof (cases "seg bs off n = map byte_of_char v")
    case True
    with len have "length v = n" by simp
    moreover from True have "map char_of_byte (seg bs off n) = v"
      by (simp only: map_char_of_byte_iff)
    ultimately show ?thesis using True r by (simp add: read_fixed_ascii_alt)
  next
    case False
    with r show ?thesis by (auto simp: read_fixed_ascii_alt map_char_of_byte_iff split: if_splits)
  qed
qed (auto simp: read_fixed_ascii_alt write_fixed_ascii_def copy_ascii_put has_range_length split: if_splits)

lemmas wire_parse_errors [parse_error_intros] =
  u8_field.rd_only_parse_errors u16_field.rd_only_parse_errors u32_field.rd_only_parse_errors
  u48_field.rd_only_parse_errors u64_field.rd_only_parse_errors ascii_field.rd_only_parse_errors

end
