(* ===== verification/Itch_Types.thy ===== *)
theory Itch_Types
  imports Wire
begin

text \<open>
  The ITCH vocabulary: \<^verbatim>\<open>include/fgep/itch/itch_types.hpp\<close> (scalars, header, validators),
  \<^verbatim>\<open>itch_message_type.hpp\<close> (message types and lengths) and \<^verbatim>\<open>itch_wire_messages.hpp\<close> (field
  enums, offsets, message structs, validators). A field \<^verbatim>\<open>f\<close> of a message struct is the record
  field \<open>p_f\<close> with a two- or three-letter prefix of the message, so that every projection has its
  own name. Offsets and lengths are abbreviations of the source's constants.
\<close>

section \<open>Scalars and header\<close>

type_synonym stock_symbol = string
type_synonym mpid = string
type_synonym reason_code4 = string
type_synonym issue_sub_type_t = string

abbreviation (input) nanoseconds_per_second :: u64 where
  "nanoseconds_per_second \<equiv> 1000000000"

abbreviation (input) seconds_per_day :: u64 where
  "seconds_per_day \<equiv> 86400"

definition nanoseconds_per_day :: u64 where
  "nanoseconds_per_day = seconds_per_day * nanoseconds_per_second"

definition max_timestamp_ns_since_midnight :: u64 where
  "max_timestamp_ns_since_midnight = nanoseconds_per_day - 1"

abbreviation (input) offset_message_type :: nat where "offset_message_type \<equiv> 0"

abbreviation (input) offset_stock_locate :: nat where "offset_stock_locate \<equiv> 1"

abbreviation (input) offset_tracking_number :: nat where "offset_tracking_number \<equiv> 3"

abbreviation (input) offset_timestamp :: nat where "offset_timestamp \<equiv> 5"

abbreviation (input) size_common_header :: nat where "size_common_header \<equiv> 11"

abbreviation (input) length_stock_directory :: nat where "length_stock_directory \<equiv> 39"

abbreviation (input) length_stock_trading_action :: nat where "length_stock_trading_action \<equiv> 25"

abbreviation (input) length_system_event :: nat where "length_system_event \<equiv> 12"

abbreviation (input) length_add_order_no_mpid :: nat where "length_add_order_no_mpid \<equiv> 36"

abbreviation (input) length_add_order_with_mpid :: nat where "length_add_order_with_mpid \<equiv> 40"

abbreviation (input) length_order_executed :: nat where "length_order_executed \<equiv> 31"

abbreviation (input) length_order_executed_with_price :: nat where "length_order_executed_with_price \<equiv> 36"

abbreviation (input) length_order_cancel :: nat where "length_order_cancel \<equiv> 23"

abbreviation (input) length_order_delete :: nat where "length_order_delete \<equiv> 19"

abbreviation (input) length_order_replace :: nat where "length_order_replace \<equiv> 35"

abbreviation (input) length_trade_non_cross :: nat where "length_trade_non_cross \<equiv> 44"

abbreviation (input) length_cross_trade :: nat where "length_cross_trade \<equiv> 40"

abbreviation (input) length_broken_trade :: nat where "length_broken_trade \<equiv> 19"

record header =
  hdr_stock_locate :: u16
  hdr_tracking_number :: u16
  hdr_timestamp_ns :: u64

definition is_valid_stock_locate :: "u16 \<Rightarrow> bool" where
  "is_valid_stock_locate stock_locate \<longleftrightarrow> stock_locate > 0"

definition is_valid_or_zero_stock_locate :: "u16 \<Rightarrow> bool" where
  "is_valid_or_zero_stock_locate stock_locate \<longleftrightarrow> True"

definition is_valid_timestamp_ns :: "u64 \<Rightarrow> bool" where
  "is_valid_timestamp_ns timestamp_ns \<longleftrightarrow> timestamp_ns \<le> max_timestamp_ns_since_midnight"

definition is_valid_header_for_stock_message :: "header \<Rightarrow> bool" where
  "is_valid_header_for_stock_message h \<longleftrightarrow>
     is_valid_stock_locate (hdr_stock_locate h) \<and> is_valid_timestamp_ns (hdr_timestamp_ns h)"

definition is_valid_header_allowing_zero_stock_locate :: "header \<Rightarrow> bool" where
  "is_valid_header_allowing_zero_stock_locate h \<longleftrightarrow>
     is_valid_or_zero_stock_locate (hdr_stock_locate h) \<and> is_valid_timestamp_ns (hdr_timestamp_ns h)"

definition is_valid_order_reference_number :: "u64 \<Rightarrow> bool" where
  "is_valid_order_reference_number n \<longleftrightarrow> n > 0"

definition is_valid_match_number :: "u64 \<Rightarrow> bool" where
  "is_valid_match_number n \<longleftrightarrow> n > 0"

definition is_valid_shares :: "u32 \<Rightarrow> bool" where
  "is_valid_shares shares \<longleftrightarrow> shares > 0"

definition is_valid_cross_shares :: "u64 \<Rightarrow> bool" where
  "is_valid_cross_shares shares \<longleftrightarrow> shares > 0"

definition is_valid_price4 :: "u32 \<Rightarrow> bool" where
  "is_valid_price4 price \<longleftrightarrow> price > 0"

definition is_valid_price8 :: "u64 \<Rightarrow> bool" where
  "is_valid_price8 price \<longleftrightarrow> price > 0"


section \<open>Message types\<close>

datatype message_type =
    MT_system_event
  | MT_stock_directory
  | MT_stock_trading_action
  | MT_reg_sho_restriction
  | MT_market_participant_position
  | MT_mwcb_decline_level
  | MT_mwcb_status
  | MT_ipo_quoting_period_update
  | MT_luld_auction_collar
  | MT_operational_halt
  | MT_add_order_no_mpid
  | MT_add_order_with_mpid
  | MT_order_executed
  | MT_order_executed_with_price
  | MT_order_cancel
  | MT_order_delete
  | MT_order_replace
  | MT_trade_non_cross
  | MT_cross_trade
  | MT_broken_trade
  | MT_noii
  | MT_retail_price_improvement_indicator
  | MT_direct_listing_with_capital_raise

fun message_type_to_char :: "message_type \<Rightarrow> char" where
  "message_type_to_char MT_system_event = CHR ''S''"
| "message_type_to_char MT_stock_directory = CHR ''R''"
| "message_type_to_char MT_stock_trading_action = CHR ''H''"
| "message_type_to_char MT_reg_sho_restriction = CHR ''Y''"
| "message_type_to_char MT_market_participant_position = CHR ''L''"
| "message_type_to_char MT_mwcb_decline_level = CHR ''V''"
| "message_type_to_char MT_mwcb_status = CHR ''W''"
| "message_type_to_char MT_ipo_quoting_period_update = CHR ''K''"
| "message_type_to_char MT_luld_auction_collar = CHR ''J''"
| "message_type_to_char MT_operational_halt = CHR ''h''"
| "message_type_to_char MT_add_order_no_mpid = CHR ''A''"
| "message_type_to_char MT_add_order_with_mpid = CHR ''F''"
| "message_type_to_char MT_order_executed = CHR ''E''"
| "message_type_to_char MT_order_executed_with_price = CHR ''C''"
| "message_type_to_char MT_order_cancel = CHR ''X''"
| "message_type_to_char MT_order_delete = CHR ''D''"
| "message_type_to_char MT_order_replace = CHR ''U''"
| "message_type_to_char MT_trade_non_cross = CHR ''P''"
| "message_type_to_char MT_cross_trade = CHR ''Q''"
| "message_type_to_char MT_broken_trade = CHR ''B''"
| "message_type_to_char MT_noii = CHR ''I''"
| "message_type_to_char MT_retail_price_improvement_indicator = CHR ''N''"
| "message_type_to_char MT_direct_listing_with_capital_raise = CHR ''O''"

definition message_type_from_char :: "char \<Rightarrow> message_type result" where
  "message_type_from_char c =
     (if c = CHR ''S'' then Ok MT_system_event
      else if c = CHR ''R'' then Ok MT_stock_directory
      else if c = CHR ''H'' then Ok MT_stock_trading_action
      else if c = CHR ''Y'' then Ok MT_reg_sho_restriction
      else if c = CHR ''L'' then Ok MT_market_participant_position
      else if c = CHR ''V'' then Ok MT_mwcb_decline_level
      else if c = CHR ''W'' then Ok MT_mwcb_status
      else if c = CHR ''K'' then Ok MT_ipo_quoting_period_update
      else if c = CHR ''J'' then Ok MT_luld_auction_collar
      else if c = CHR ''h'' then Ok MT_operational_halt
      else if c = CHR ''A'' then Ok MT_add_order_no_mpid
      else if c = CHR ''F'' then Ok MT_add_order_with_mpid
      else if c = CHR ''E'' then Ok MT_order_executed
      else if c = CHR ''C'' then Ok MT_order_executed_with_price
      else if c = CHR ''X'' then Ok MT_order_cancel
      else if c = CHR ''D'' then Ok MT_order_delete
      else if c = CHR ''U'' then Ok MT_order_replace
      else if c = CHR ''P'' then Ok MT_trade_non_cross
      else if c = CHR ''Q'' then Ok MT_cross_trade
      else if c = CHR ''B'' then Ok MT_broken_trade
      else if c = CHR ''I'' then Ok MT_noii
      else if c = CHR ''N'' then Ok MT_retail_price_improvement_indicator
      else if c = CHR ''O'' then Ok MT_direct_listing_with_capital_raise
      else Fail EC_parse_error)"

definition is_known_message_type :: "char \<Rightarrow> bool" where
  "is_known_message_type c \<longleftrightarrow> (case message_type_from_char c of Ok _ \<Rightarrow> True | Fail _ \<Rightarrow> False)"

fun is_administrative_message :: "message_type \<Rightarrow> bool" where
  "is_administrative_message MT_system_event = True"
| "is_administrative_message MT_stock_directory = True"
| "is_administrative_message MT_stock_trading_action = True"
| "is_administrative_message MT_reg_sho_restriction = True"
| "is_administrative_message MT_market_participant_position = True"
| "is_administrative_message MT_mwcb_decline_level = True"
| "is_administrative_message MT_mwcb_status = True"
| "is_administrative_message MT_ipo_quoting_period_update = True"
| "is_administrative_message MT_luld_auction_collar = True"
| "is_administrative_message MT_operational_halt = True"
| "is_administrative_message MT_add_order_no_mpid = False"
| "is_administrative_message MT_add_order_with_mpid = False"
| "is_administrative_message MT_order_executed = False"
| "is_administrative_message MT_order_executed_with_price = False"
| "is_administrative_message MT_order_cancel = False"
| "is_administrative_message MT_order_delete = False"
| "is_administrative_message MT_order_replace = False"
| "is_administrative_message MT_trade_non_cross = False"
| "is_administrative_message MT_cross_trade = False"
| "is_administrative_message MT_broken_trade = False"
| "is_administrative_message MT_noii = True"
| "is_administrative_message MT_retail_price_improvement_indicator = True"
| "is_administrative_message MT_direct_listing_with_capital_raise = True"

definition is_add_order_message :: "message_type \<Rightarrow> bool" where
  "is_add_order_message t \<longleftrightarrow> t = MT_add_order_no_mpid \<or> t = MT_add_order_with_mpid"

definition is_order_book_modify_message :: "message_type \<Rightarrow> bool" where
  "is_order_book_modify_message t \<longleftrightarrow>
     t = MT_order_executed \<or> t = MT_order_executed_with_price \<or> t = MT_order_cancel
     \<or> t = MT_order_delete \<or> t = MT_order_replace"

definition is_visible_book_update_message :: "message_type \<Rightarrow> bool" where
  "is_visible_book_update_message t \<longleftrightarrow> is_add_order_message t \<or> is_order_book_modify_message t"

definition is_trade_message :: "message_type \<Rightarrow> bool" where
  "is_trade_message t \<longleftrightarrow> t = MT_trade_non_cross \<or> t = MT_cross_trade \<or> t = MT_broken_trade"

fun message_length :: "message_type \<Rightarrow> nat result" where
  "message_length MT_system_event = Ok length_system_event"
| "message_length MT_stock_directory = Ok length_stock_directory"
| "message_length MT_stock_trading_action = Ok length_stock_trading_action"
| "message_length MT_reg_sho_restriction = Fail EC_unsupported"
| "message_length MT_market_participant_position = Fail EC_unsupported"
| "message_length MT_mwcb_decline_level = Fail EC_unsupported"
| "message_length MT_mwcb_status = Fail EC_unsupported"
| "message_length MT_ipo_quoting_period_update = Fail EC_unsupported"
| "message_length MT_luld_auction_collar = Fail EC_unsupported"
| "message_length MT_operational_halt = Fail EC_unsupported"
| "message_length MT_add_order_no_mpid = Ok length_add_order_no_mpid"
| "message_length MT_add_order_with_mpid = Ok length_add_order_with_mpid"
| "message_length MT_order_executed = Ok length_order_executed"
| "message_length MT_order_executed_with_price = Ok length_order_executed_with_price"
| "message_length MT_order_cancel = Ok length_order_cancel"
| "message_length MT_order_delete = Ok length_order_delete"
| "message_length MT_order_replace = Ok length_order_replace"
| "message_length MT_trade_non_cross = Ok length_trade_non_cross"
| "message_length MT_cross_trade = Ok length_cross_trade"
| "message_length MT_broken_trade = Ok length_broken_trade"
| "message_length MT_noii = Fail EC_unsupported"
| "message_length MT_retail_price_improvement_indicator = Fail EC_unsupported"
| "message_length MT_direct_listing_with_capital_raise = Fail EC_unsupported"

definition has_supported_length :: "message_type \<Rightarrow> bool" where
  "has_supported_length t \<longleftrightarrow> (case message_length t of Ok _ \<Rightarrow> True | Fail _ \<Rightarrow> False)"

section \<open>Field enums\<close>

datatype system_event_code = SEC_start_of_messages | SEC_start_of_system_hours | SEC_start_of_market_hours | SEC_end_of_market_hours | SEC_end_of_system_hours | SEC_end_of_messages

fun system_event_code_to_char :: "system_event_code \<Rightarrow> char" where
  "system_event_code_to_char SEC_start_of_messages = CHR ''O''"
| "system_event_code_to_char SEC_start_of_system_hours = CHR ''S''"
| "system_event_code_to_char SEC_start_of_market_hours = CHR ''Q''"
| "system_event_code_to_char SEC_end_of_market_hours = CHR ''M''"
| "system_event_code_to_char SEC_end_of_system_hours = CHR ''E''"
| "system_event_code_to_char SEC_end_of_messages = CHR ''C''"

definition system_event_code_from_char :: "char \<Rightarrow> system_event_code result" where
  "system_event_code_from_char c =
     (if c = CHR ''O'' then Ok SEC_start_of_messages
      else if c = CHR ''S'' then Ok SEC_start_of_system_hours
      else if c = CHR ''Q'' then Ok SEC_start_of_market_hours
      else if c = CHR ''M'' then Ok SEC_end_of_market_hours
      else if c = CHR ''E'' then Ok SEC_end_of_system_hours
      else if c = CHR ''C'' then Ok SEC_end_of_messages
      else Fail EC_parse_error)"

datatype side = Buy | Sell

fun side_to_char :: "side \<Rightarrow> char" where
  "side_to_char Buy = CHR ''B''"
| "side_to_char Sell = CHR ''S''"

definition side_from_char :: "char \<Rightarrow> side result" where
  "side_from_char c =
     (if c = CHR ''B'' then Ok Buy
      else if c = CHR ''S'' then Ok Sell
      else Fail EC_parse_error)"

datatype printable = Non_printable | Printable

fun printable_to_char :: "printable \<Rightarrow> char" where
  "printable_to_char Non_printable = CHR ''N''"
| "printable_to_char Printable = CHR ''Y''"

definition printable_from_char :: "char \<Rightarrow> printable result" where
  "printable_from_char c =
     (if c = CHR ''N'' then Ok Non_printable
      else if c = CHR ''Y'' then Ok Printable
      else Fail EC_parse_error)"

datatype cross_type = CT_opening_cross | CT_closing_cross | CT_ipo_or_halted

fun cross_type_to_char :: "cross_type \<Rightarrow> char" where
  "cross_type_to_char CT_opening_cross = CHR ''O''"
| "cross_type_to_char CT_closing_cross = CHR ''C''"
| "cross_type_to_char CT_ipo_or_halted = CHR ''H''"

definition cross_type_from_char :: "char \<Rightarrow> cross_type result" where
  "cross_type_from_char c =
     (if c = CHR ''O'' then Ok CT_opening_cross
      else if c = CHR ''C'' then Ok CT_closing_cross
      else if c = CHR ''H'' then Ok CT_ipo_or_halted
      else Fail EC_parse_error)"

datatype trading_state = TS_halted | TS_paused | TS_quotation_only | TS_trading

fun trading_state_to_char :: "trading_state \<Rightarrow> char" where
  "trading_state_to_char TS_halted = CHR ''H''"
| "trading_state_to_char TS_paused = CHR ''P''"
| "trading_state_to_char TS_quotation_only = CHR ''Q''"
| "trading_state_to_char TS_trading = CHR ''T''"

definition trading_state_from_char :: "char \<Rightarrow> trading_state result" where
  "trading_state_from_char c =
     (if c = CHR ''H'' then Ok TS_halted
      else if c = CHR ''P'' then Ok TS_paused
      else if c = CHR ''Q'' then Ok TS_quotation_only
      else if c = CHR ''T'' then Ok TS_trading
      else Fail EC_parse_error)"

section \<open>Field offsets\<close>

abbreviation (input) system_event_offset_event_code :: nat where "system_event_offset_event_code \<equiv> 11"

abbreviation (input) stock_directory_offset_stock :: nat where "stock_directory_offset_stock \<equiv> 11"

abbreviation (input) stock_directory_offset_market_category :: nat where "stock_directory_offset_market_category \<equiv> 19"

abbreviation (input) stock_directory_offset_financial_status_indicator :: nat where "stock_directory_offset_financial_status_indicator \<equiv> 20"

abbreviation (input) stock_directory_offset_round_lot_size :: nat where "stock_directory_offset_round_lot_size \<equiv> 21"

abbreviation (input) stock_directory_offset_round_lots_only :: nat where "stock_directory_offset_round_lots_only \<equiv> 25"

abbreviation (input) stock_directory_offset_issue_classification :: nat where "stock_directory_offset_issue_classification \<equiv> 26"

abbreviation (input) stock_directory_offset_issue_sub_type :: nat where "stock_directory_offset_issue_sub_type \<equiv> 27"

abbreviation (input) stock_directory_offset_authenticity :: nat where "stock_directory_offset_authenticity \<equiv> 29"

abbreviation (input) stock_directory_offset_short_sale_threshold_indicator :: nat where "stock_directory_offset_short_sale_threshold_indicator \<equiv> 30"

abbreviation (input) stock_directory_offset_ipo_flag :: nat where "stock_directory_offset_ipo_flag \<equiv> 31"

abbreviation (input) stock_directory_offset_luld_reference_price_tier :: nat where "stock_directory_offset_luld_reference_price_tier \<equiv> 32"

abbreviation (input) stock_directory_offset_etp_flag :: nat where "stock_directory_offset_etp_flag \<equiv> 33"

abbreviation (input) stock_directory_offset_etp_leverage_factor :: nat where "stock_directory_offset_etp_leverage_factor \<equiv> 34"

abbreviation (input) stock_directory_offset_inverse_indicator :: nat where "stock_directory_offset_inverse_indicator \<equiv> 38"

abbreviation (input) stock_trading_action_offset_stock :: nat where "stock_trading_action_offset_stock \<equiv> 11"

abbreviation (input) stock_trading_action_offset_trading_state :: nat where "stock_trading_action_offset_trading_state \<equiv> 19"

abbreviation (input) stock_trading_action_offset_reserved :: nat where "stock_trading_action_offset_reserved \<equiv> 20"

abbreviation (input) stock_trading_action_offset_reason :: nat where "stock_trading_action_offset_reason \<equiv> 21"

abbreviation (input) add_order_offset_order_reference_number :: nat where "add_order_offset_order_reference_number \<equiv> 11"

abbreviation (input) add_order_offset_side :: nat where "add_order_offset_side \<equiv> 19"

abbreviation (input) add_order_offset_shares :: nat where "add_order_offset_shares \<equiv> 20"

abbreviation (input) add_order_offset_stock :: nat where "add_order_offset_stock \<equiv> 24"

abbreviation (input) add_order_offset_price :: nat where "add_order_offset_price \<equiv> 32"

abbreviation (input) add_order_with_mpid_offset_order_reference_number :: nat where "add_order_with_mpid_offset_order_reference_number \<equiv> 11"

abbreviation (input) add_order_with_mpid_offset_side :: nat where "add_order_with_mpid_offset_side \<equiv> 19"

abbreviation (input) add_order_with_mpid_offset_shares :: nat where "add_order_with_mpid_offset_shares \<equiv> 20"

abbreviation (input) add_order_with_mpid_offset_stock :: nat where "add_order_with_mpid_offset_stock \<equiv> 24"

abbreviation (input) add_order_with_mpid_offset_price :: nat where "add_order_with_mpid_offset_price \<equiv> 32"

abbreviation (input) add_order_with_mpid_offset_attribution :: nat where "add_order_with_mpid_offset_attribution \<equiv> 36"

abbreviation (input) order_executed_offset_order_reference_number :: nat where "order_executed_offset_order_reference_number \<equiv> 11"

abbreviation (input) order_executed_offset_executed_shares :: nat where "order_executed_offset_executed_shares \<equiv> 19"

abbreviation (input) order_executed_offset_match_number :: nat where "order_executed_offset_match_number \<equiv> 23"

abbreviation (input) order_executed_with_price_offset_order_reference_number :: nat where "order_executed_with_price_offset_order_reference_number \<equiv> 11"

abbreviation (input) order_executed_with_price_offset_executed_shares :: nat where "order_executed_with_price_offset_executed_shares \<equiv> 19"

abbreviation (input) order_executed_with_price_offset_match_number :: nat where "order_executed_with_price_offset_match_number \<equiv> 23"

abbreviation (input) order_executed_with_price_offset_printable :: nat where "order_executed_with_price_offset_printable \<equiv> 31"

abbreviation (input) order_executed_with_price_offset_execution_price :: nat where "order_executed_with_price_offset_execution_price \<equiv> 32"

abbreviation (input) order_cancel_offset_order_reference_number :: nat where "order_cancel_offset_order_reference_number \<equiv> 11"

abbreviation (input) order_cancel_offset_cancelled_shares :: nat where "order_cancel_offset_cancelled_shares \<equiv> 19"

abbreviation (input) order_delete_offset_order_reference_number :: nat where "order_delete_offset_order_reference_number \<equiv> 11"

abbreviation (input) order_replace_offset_original_order_reference_number :: nat where "order_replace_offset_original_order_reference_number \<equiv> 11"

abbreviation (input) order_replace_offset_new_order_reference_number :: nat where "order_replace_offset_new_order_reference_number \<equiv> 19"

abbreviation (input) order_replace_offset_shares :: nat where "order_replace_offset_shares \<equiv> 27"

abbreviation (input) order_replace_offset_price :: nat where "order_replace_offset_price \<equiv> 31"

abbreviation (input) trade_non_cross_offset_order_reference_number :: nat where "trade_non_cross_offset_order_reference_number \<equiv> 11"

abbreviation (input) trade_non_cross_offset_side :: nat where "trade_non_cross_offset_side \<equiv> 19"

abbreviation (input) trade_non_cross_offset_shares :: nat where "trade_non_cross_offset_shares \<equiv> 20"

abbreviation (input) trade_non_cross_offset_stock :: nat where "trade_non_cross_offset_stock \<equiv> 24"

abbreviation (input) trade_non_cross_offset_price :: nat where "trade_non_cross_offset_price \<equiv> 32"

abbreviation (input) trade_non_cross_offset_match_number :: nat where "trade_non_cross_offset_match_number \<equiv> 36"

abbreviation (input) cross_trade_offset_shares :: nat where "cross_trade_offset_shares \<equiv> 11"

abbreviation (input) cross_trade_offset_stock :: nat where "cross_trade_offset_stock \<equiv> 19"

abbreviation (input) cross_trade_offset_cross_price :: nat where "cross_trade_offset_cross_price \<equiv> 27"

abbreviation (input) cross_trade_offset_match_number :: nat where "cross_trade_offset_match_number \<equiv> 31"

abbreviation (input) cross_trade_offset_cross_type :: nat where "cross_trade_offset_cross_type \<equiv> 39"

abbreviation (input) broken_trade_offset_match_number :: nat where "broken_trade_offset_match_number \<equiv> 11"

section \<open>Message structs\<close>

record system_event_message =
  se_header :: header
  se_event_code :: system_event_code

record stock_directory_message =
  sd_header :: header
  sd_stock :: stock_symbol
  sd_market_category :: char
  sd_financial_status_indicator :: char
  sd_round_lot_size :: u32
  sd_round_lots_only :: char
  sd_issue_classification :: char
  sd_issue_sub_type :: issue_sub_type_t
  sd_authenticity :: char
  sd_short_sale_threshold_indicator :: char
  sd_ipo_flag :: char
  sd_luld_reference_price_tier :: char
  sd_etp_flag :: char
  sd_etp_leverage_factor :: u32
  sd_inverse_indicator :: char

record stock_trading_action_message =
  ta_header :: header
  ta_stock :: stock_symbol
  ta_trading_state :: trading_state
  ta_reserved :: char
  ta_reason :: reason_code4

record add_order_no_mpid_message =
  ao_header :: header
  ao_order_reference_number :: u64
  ao_side :: side
  ao_shares :: u32
  ao_stock :: stock_symbol
  ao_price :: u32

record add_order_with_mpid_message =
  am_header :: header
  am_order_reference_number :: u64
  am_side :: side
  am_shares :: u32
  am_stock :: stock_symbol
  am_price :: u32
  am_attribution :: mpid

record order_executed_message =
  oe_header :: header
  oe_order_reference_number :: u64
  oe_executed_shares :: u32
  oe_match_number :: u64

record order_executed_with_price_message =
  op_header :: header
  op_order_reference_number :: u64
  op_executed_shares :: u32
  op_match_number :: u64
  op_printable :: printable
  op_execution_price :: u32

record order_cancel_message =
  oc_header :: header
  oc_order_reference_number :: u64
  oc_cancelled_shares :: u32

record order_delete_message =
  od_header :: header
  od_order_reference_number :: u64

record order_replace_message =
  orp_header :: header
  orp_original_order_reference_number :: u64
  orp_new_order_reference_number :: u64
  orp_shares :: u32
  orp_price :: u32

record trade_non_cross_message =
  tn_header :: header
  tn_order_reference_number :: u64
  tn_side :: side
  tn_shares :: u32
  tn_stock :: stock_symbol
  tn_price :: u32
  tn_match_number :: u64

record cross_trade_message =
  ct_header :: header
  ct_shares :: u64
  ct_stock :: stock_symbol
  ct_cross_price :: u32
  ct_match_number :: u64
  ct_cross_type :: cross_type

record broken_trade_message =
  bt_header :: header
  bt_match_number :: u64

datatype message =
    SystemEvent system_event_message
  | StockDirectory stock_directory_message
  | StockTradingAction stock_trading_action_message
  | AddOrderNoMpid add_order_no_mpid_message
  | AddOrderWithMpid add_order_with_mpid_message
  | OrderExecuted order_executed_message
  | OrderExecutedWithPrice order_executed_with_price_message
  | OrderCancel order_cancel_message
  | OrderDelete order_delete_message
  | OrderReplace order_replace_message
  | TradeNonCross trade_non_cross_message
  | CrossTrade cross_trade_message
  | BrokenTrade broken_trade_message

fun message_type_of :: "message \<Rightarrow> message_type" where
  "message_type_of (SystemEvent _) = MT_system_event"
| "message_type_of (StockDirectory _) = MT_stock_directory"
| "message_type_of (StockTradingAction _) = MT_stock_trading_action"
| "message_type_of (AddOrderNoMpid _) = MT_add_order_no_mpid"
| "message_type_of (AddOrderWithMpid _) = MT_add_order_with_mpid"
| "message_type_of (OrderExecuted _) = MT_order_executed"
| "message_type_of (OrderExecutedWithPrice _) = MT_order_executed_with_price"
| "message_type_of (OrderCancel _) = MT_order_cancel"
| "message_type_of (OrderDelete _) = MT_order_delete"
| "message_type_of (OrderReplace _) = MT_order_replace"
| "message_type_of (TradeNonCross _) = MT_trade_non_cross"
| "message_type_of (CrossTrade _) = MT_cross_trade"
| "message_type_of (BrokenTrade _) = MT_broken_trade"

fun wire_length :: "message \<Rightarrow> nat" where
  "wire_length (SystemEvent _) = length_system_event"
| "wire_length (StockDirectory _) = length_stock_directory"
| "wire_length (StockTradingAction _) = length_stock_trading_action"
| "wire_length (AddOrderNoMpid _) = length_add_order_no_mpid"
| "wire_length (AddOrderWithMpid _) = length_add_order_with_mpid"
| "wire_length (OrderExecuted _) = length_order_executed"
| "wire_length (OrderExecutedWithPrice _) = length_order_executed_with_price"
| "wire_length (OrderCancel _) = length_order_cancel"
| "wire_length (OrderDelete _) = length_order_delete"
| "wire_length (OrderReplace _) = length_order_replace"
| "wire_length (TradeNonCross _) = length_trade_non_cross"
| "wire_length (CrossTrade _) = length_cross_trade"
| "wire_length (BrokenTrade _) = length_broken_trade"

section \<open>Message validators\<close>

definition is_valid_system_event_message :: "system_event_message \<Rightarrow> bool" where
  "is_valid_system_event_message m \<longleftrightarrow> is_valid_header_allowing_zero_stock_locate (se_header m)"

definition is_valid_add_order_no_mpid_message :: "add_order_no_mpid_message \<Rightarrow> bool" where
  "is_valid_add_order_no_mpid_message m \<longleftrightarrow>
     is_valid_header_for_stock_message (ao_header m)
     \<and> is_valid_order_reference_number (ao_order_reference_number m)
     \<and> is_valid_shares (ao_shares m)
     \<and> is_valid_price4 (ao_price m)
     \<and> is_valid_fixed_ascii (ao_stock m)"

definition is_valid_add_order_with_mpid_message :: "add_order_with_mpid_message \<Rightarrow> bool" where
  "is_valid_add_order_with_mpid_message m \<longleftrightarrow>
     is_valid_header_for_stock_message (am_header m)
     \<and> is_valid_order_reference_number (am_order_reference_number m)
     \<and> is_valid_shares (am_shares m)
     \<and> is_valid_price4 (am_price m)
     \<and> is_valid_fixed_ascii (am_stock m)
     \<and> is_valid_fixed_ascii (am_attribution m)"

definition is_valid_order_executed_message :: "order_executed_message \<Rightarrow> bool" where
  "is_valid_order_executed_message m \<longleftrightarrow>
     is_valid_header_for_stock_message (oe_header m)
     \<and> is_valid_order_reference_number (oe_order_reference_number m)
     \<and> is_valid_shares (oe_executed_shares m)
     \<and> is_valid_match_number (oe_match_number m)"

definition is_valid_order_executed_with_price_message :: "order_executed_with_price_message \<Rightarrow> bool" where
  "is_valid_order_executed_with_price_message m \<longleftrightarrow>
     is_valid_header_for_stock_message (op_header m)
     \<and> is_valid_order_reference_number (op_order_reference_number m)
     \<and> is_valid_shares (op_executed_shares m)
     \<and> is_valid_match_number (op_match_number m)
     \<and> is_valid_price4 (op_execution_price m)"

definition is_valid_order_cancel_message :: "order_cancel_message \<Rightarrow> bool" where
  "is_valid_order_cancel_message m \<longleftrightarrow>
     is_valid_header_for_stock_message (oc_header m)
     \<and> is_valid_order_reference_number (oc_order_reference_number m)
     \<and> is_valid_shares (oc_cancelled_shares m)"

definition is_valid_order_delete_message :: "order_delete_message \<Rightarrow> bool" where
  "is_valid_order_delete_message m \<longleftrightarrow>
     is_valid_header_for_stock_message (od_header m)
     \<and> is_valid_order_reference_number (od_order_reference_number m)"

definition is_valid_order_replace_message :: "order_replace_message \<Rightarrow> bool" where
  "is_valid_order_replace_message m \<longleftrightarrow>
     is_valid_header_for_stock_message (orp_header m)
     \<and> is_valid_order_reference_number (orp_original_order_reference_number m)
     \<and> is_valid_order_reference_number (orp_new_order_reference_number m)
     \<and> orp_original_order_reference_number m \<noteq> orp_new_order_reference_number m
     \<and> is_valid_shares (orp_shares m)
     \<and> is_valid_price4 (orp_price m)"

definition is_valid_trade_non_cross_message :: "trade_non_cross_message \<Rightarrow> bool" where
  "is_valid_trade_non_cross_message m \<longleftrightarrow>
     is_valid_header_for_stock_message (tn_header m)
     \<and> is_valid_shares (tn_shares m)
     \<and> is_valid_price4 (tn_price m)
     \<and> is_valid_match_number (tn_match_number m)
     \<and> is_valid_fixed_ascii (tn_stock m)"

definition is_valid_cross_trade_message :: "cross_trade_message \<Rightarrow> bool" where
  "is_valid_cross_trade_message m \<longleftrightarrow>
     is_valid_header_for_stock_message (ct_header m)
     \<and> is_valid_cross_shares (ct_shares m)
     \<and> is_valid_price4 (ct_cross_price m)
     \<and> is_valid_match_number (ct_match_number m)
     \<and> is_valid_fixed_ascii (ct_stock m)"

definition is_valid_broken_trade_message :: "broken_trade_message \<Rightarrow> bool" where
  "is_valid_broken_trade_message m \<longleftrightarrow>
     is_valid_header_for_stock_message (bt_header m)
     \<and> is_valid_match_number (bt_match_number m)"

definition is_valid_protocol_char_or_space :: "char \<Rightarrow> bool" where
  "is_valid_protocol_char_or_space c \<longleftrightarrow> is_printable_ascii_or_space c"

definition is_valid_stock_directory_message :: "stock_directory_message \<Rightarrow> bool" where
  "is_valid_stock_directory_message m \<longleftrightarrow>
     is_valid_header_for_stock_message (sd_header m)
     \<and> is_valid_fixed_ascii (sd_stock m)
     \<and> is_valid_protocol_char_or_space (sd_market_category m)
     \<and> is_valid_protocol_char_or_space (sd_financial_status_indicator m)
     \<and> is_valid_protocol_char_or_space (sd_round_lots_only m)
     \<and> is_valid_protocol_char_or_space (sd_issue_classification m)
     \<and> is_valid_fixed_ascii (sd_issue_sub_type m)
     \<and> is_valid_protocol_char_or_space (sd_authenticity m)
     \<and> is_valid_protocol_char_or_space (sd_short_sale_threshold_indicator m)
     \<and> is_valid_protocol_char_or_space (sd_ipo_flag m)
     \<and> is_valid_protocol_char_or_space (sd_luld_reference_price_tier m)
     \<and> is_valid_protocol_char_or_space (sd_etp_flag m)
     \<and> is_valid_protocol_char_or_space (sd_inverse_indicator m)"

definition is_valid_stock_trading_action_message :: "stock_trading_action_message \<Rightarrow> bool" where
  "is_valid_stock_trading_action_message m \<longleftrightarrow>
     is_valid_header_for_stock_message (ta_header m)
     \<and> is_valid_fixed_ascii (ta_stock m)
     \<and> is_valid_protocol_char_or_space (ta_reserved m)
     \<and> is_valid_fixed_ascii (ta_reason m)"

text \<open>
  The invariant of the C++ types: a \<^verbatim>\<open>std::array<char, N>\<close> holds exactly \<open>N\<close> characters.
\<close>

fun typed_message :: "message \<Rightarrow> bool" where
  "typed_message (SystemEvent _) \<longleftrightarrow> True"
| "typed_message (StockDirectory m) \<longleftrightarrow> length (sd_stock m) = 8 \<and> length (sd_issue_sub_type m) = 2"
| "typed_message (StockTradingAction m) \<longleftrightarrow> length (ta_stock m) = 8 \<and> length (ta_reason m) = 4"
| "typed_message (AddOrderNoMpid m) \<longleftrightarrow> length (ao_stock m) = 8"
| "typed_message (AddOrderWithMpid m) \<longleftrightarrow> length (am_stock m) = 8 \<and> length (am_attribution m) = 4"
| "typed_message (OrderExecuted _) \<longleftrightarrow> True"
| "typed_message (OrderExecutedWithPrice _) \<longleftrightarrow> True"
| "typed_message (OrderCancel _) \<longleftrightarrow> True"
| "typed_message (OrderDelete _) \<longleftrightarrow> True"
| "typed_message (OrderReplace _) \<longleftrightarrow> True"
| "typed_message (TradeNonCross m) \<longleftrightarrow> length (tn_stock m) = 8"
| "typed_message (CrossTrade m) \<longleftrightarrow> length (ct_stock m) = 8"
| "typed_message (BrokenTrade _) \<longleftrightarrow> True"

section \<open>Facts about the vocabulary\<close>

lemma max_timestamp_eval [simp]: "max_timestamp_ns_since_midnight = 86399999999999"
  by (simp add: max_timestamp_ns_since_midnight_def nanoseconds_per_day_def)

lemma valid_timestamp_48: "is_valid_timestamp_ns t \<Longrightarrow> t \<le> 0xFFFFFFFFFFFF"
  by (auto simp: is_valid_timestamp_ns_def intro: order_trans)

lemma message_type_from_to_char [simp]: "message_type_from_char (message_type_to_char t) = Ok t"
  by (cases t) (simp_all add: message_type_from_char_def)

lemma message_type_from_char_Ok: "message_type_from_char c = Ok t \<longleftrightarrow> c = message_type_to_char t"
proof
  assume "message_type_from_char c = Ok t"
  then show "c = message_type_to_char t"
    unfolding message_type_from_char_def by (elim if_OkE) auto
qed simp

lemma system_event_code_from_to_char [simp]: "system_event_code_from_char (system_event_code_to_char x) = Ok x"
  by (cases x) (simp_all add: system_event_code_from_char_def)

lemma system_event_code_from_char_Ok: "system_event_code_from_char c = Ok x \<longleftrightarrow> c = system_event_code_to_char x"
proof
  assume "system_event_code_from_char c = Ok x"
  then show "c = system_event_code_to_char x"
    unfolding system_event_code_from_char_def by (elim if_OkE) auto
qed simp

lemma side_from_to_char [simp]: "side_from_char (side_to_char x) = Ok x"
  by (cases x) (simp_all add: side_from_char_def)

lemma side_from_char_Ok: "side_from_char c = Ok x \<longleftrightarrow> c = side_to_char x"
proof
  assume "side_from_char c = Ok x"
  then show "c = side_to_char x"
    unfolding side_from_char_def by (elim if_OkE) auto
qed simp

lemma printable_from_to_char [simp]: "printable_from_char (printable_to_char x) = Ok x"
  by (cases x) (simp_all add: printable_from_char_def)

lemma printable_from_char_Ok: "printable_from_char c = Ok x \<longleftrightarrow> c = printable_to_char x"
proof
  assume "printable_from_char c = Ok x"
  then show "c = printable_to_char x"
    unfolding printable_from_char_def by (elim if_OkE) auto
qed simp

lemma cross_type_from_to_char [simp]: "cross_type_from_char (cross_type_to_char x) = Ok x"
  by (cases x) (simp_all add: cross_type_from_char_def)

lemma cross_type_from_char_Ok: "cross_type_from_char c = Ok x \<longleftrightarrow> c = cross_type_to_char x"
proof
  assume "cross_type_from_char c = Ok x"
  then show "c = cross_type_to_char x"
    unfolding cross_type_from_char_def by (elim if_OkE) auto
qed simp

lemma trading_state_from_to_char [simp]: "trading_state_from_char (trading_state_to_char x) = Ok x"
  by (cases x) (simp_all add: trading_state_from_char_def)

lemma trading_state_from_char_Ok: "trading_state_from_char c = Ok x \<longleftrightarrow> c = trading_state_to_char x"
proof
  assume "trading_state_from_char c = Ok x"
  then show "c = trading_state_to_char x"
    unfolding trading_state_from_char_def by (elim if_OkE) auto
qed simp

lemmas enum_from_char_Ok =
  system_event_code_from_char_Ok
  side_from_char_Ok
  printable_from_char_Ok
  cross_type_from_char_Ok
  trading_state_from_char_Ok

lemma message_length_wire_length: "message_length (message_type_of m) = Ok (wire_length m)"
  by (cases m) simp_all

lemmas message_valid_defs =
  is_valid_system_event_message_def
  is_valid_stock_directory_message_def
  is_valid_stock_trading_action_message_def
  is_valid_add_order_no_mpid_message_def
  is_valid_add_order_with_mpid_message_def
  is_valid_order_executed_message_def
  is_valid_order_executed_with_price_message_def
  is_valid_order_cancel_message_def
  is_valid_order_delete_message_def
  is_valid_order_replace_message_def
  is_valid_trade_non_cross_message_def
  is_valid_cross_trade_message_def
  is_valid_broken_trade_message_def

end
