(* ===== verification/Instrument.thy ===== *)
theory Instrument
  imports Itch_Types
begin

text \<open>
  Venues and instruments: \<^verbatim>\<open>include/fgep/venue/mic.hpp\<close>, \<^verbatim>\<open>venue.hpp\<close>,
  \<^verbatim>\<open>include/fgep/instrument/instrument_key.hpp\<close>, \<^verbatim>\<open>instrument_directory.hpp\<close> and
  \<^verbatim>\<open>src/instrument/instrument_directory.cpp\<close>. The two hash maps of the directory are partial
  maps; \<open>dir_inv\<close> says how they agree, and the locale \<open>instrument_source\<close> is what the books rely
  on.
\<close>

section \<open>Market identifier codes and venues\<close>

type_synonym venue_id = u16
type_synonym mic = string

definition is_valid_mic_char :: "char \<Rightarrow> bool" where
  "is_valid_mic_char c \<longleftrightarrow>
     (byte_of_char CHR ''A'' \<le> byte_of_char c \<and> byte_of_char c \<le> byte_of_char CHR ''Z'')
     \<or> (byte_of_char CHR ''0'' \<le> byte_of_char c \<and> byte_of_char c \<le> byte_of_char CHR ''9'')"

definition is_valid_mic :: "mic \<Rightarrow> bool" where
  "is_valid_mic m \<longleftrightarrow> list_all is_valid_mic_char m"

definition make_mic :: "string \<Rightarrow> mic result" where
  "make_mic text =
     (if length text \<noteq> 4 then Fail EC_invalid_argument
      else if \<not> list_all is_valid_mic_char text then Fail EC_invalid_argument
      else Ok text)"

definition mic_hash :: "mic \<Rightarrow> u64" where
  "mic_hash m = foldl (\<lambda>hash c. (hash * 131) XOR ucast (byte_of_char c)) 0 m"

definition invalid_venue_id :: venue_id where
  "invalid_venue_id = 0"

record venue =
  venue_ident :: venue_id
  venue_mic :: mic

definition is_valid_venue_id :: "venue_id \<Rightarrow> bool" where
  "is_valid_venue_id v \<longleftrightarrow> v \<noteq> invalid_venue_id"

definition is_valid_venue :: "venue \<Rightarrow> bool" where
  "is_valid_venue v \<longleftrightarrow> is_valid_venue_id (venue_ident v) \<and> is_valid_mic (venue_mic v)"

section \<open>Instrument keys\<close>

record instrument_key =
  ik_venue_id :: venue_id
  ik_stock_locate :: u16

record canonical_symbol =
  cs_stock :: stock_symbol

definition instrument_key_hash :: "instrument_key \<Rightarrow> u64" where
  "instrument_key_hash key = push_bit 16 (ucast (ik_venue_id key)) XOR ucast (ik_stock_locate key)"

definition canonical_symbol_hash :: "canonical_symbol \<Rightarrow> u64" where
  "canonical_symbol_hash symbol =
     foldl (\<lambda>hash c. (hash * 131) XOR ucast (byte_of_char c)) 0 (cs_stock symbol)"

definition is_valid_instrument_key :: "instrument_key \<Rightarrow> bool" where
  "is_valid_instrument_key key \<longleftrightarrow>
     is_valid_venue_id (ik_venue_id key) \<and> is_valid_stock_locate (ik_stock_locate key)"

section \<open>The instrument directory\<close>

datatype symbol_trading_status =
  STS_unknown | STS_halted | STS_paused | STS_quotation_only | STS_trading

record instrument_metadata =
  im_key :: instrument_key
  im_stock :: stock_symbol
  im_market_category :: char
  im_financial_status_indicator :: char
  im_round_lot_size :: u32
  im_round_lots_only :: char
  im_issue_classification :: char
  im_issue_sub_type :: issue_sub_type_t
  im_authenticity :: char
  im_short_sale_threshold_indicator :: char
  im_ipo_flag :: char
  im_luld_reference_price_tier :: char
  im_etp_flag :: char
  im_etp_leverage_factor :: u32
  im_inverse_indicator :: char
  im_trading_status :: symbol_trading_status
  im_last_trading_action_reason :: reason_code4

record instrument_directory =
  dir_instruments :: "instrument_key \<rightharpoonup> instrument_metadata"
  dir_symbol_index :: "canonical_symbol \<rightharpoonup> instrument_key list"

definition empty_directory :: instrument_directory where
  "empty_directory = \<lparr>dir_instruments = Map.empty, dir_symbol_index = Map.empty\<rparr>"

fun to_symbol_trading_status :: "trading_state \<Rightarrow> symbol_trading_status" where
  "to_symbol_trading_status TS_halted = STS_halted"
| "to_symbol_trading_status TS_paused = STS_paused"
| "to_symbol_trading_status TS_quotation_only = STS_quotation_only"
| "to_symbol_trading_status TS_trading = STS_trading"

definition canonical_symbol_from_stock :: "stock_symbol \<Rightarrow> canonical_symbol" where
  "canonical_symbol_from_stock stock = \<lparr>cs_stock = stock\<rparr>"

text \<open>
  The thirteen descriptive fields a directory message carries, written over the metadata of an
  instrument; key, stock, trading status and last reason are left alone.
\<close>

definition copy_descriptive_fields :: "stock_directory_message \<Rightarrow> instrument_metadata \<Rightarrow> instrument_metadata" where
  "copy_descriptive_fields message md = md\<lparr>
     im_market_category := sd_market_category message,
     im_financial_status_indicator := sd_financial_status_indicator message,
     im_round_lot_size := sd_round_lot_size message,
     im_round_lots_only := sd_round_lots_only message,
     im_issue_classification := sd_issue_classification message,
     im_issue_sub_type := sd_issue_sub_type message,
     im_authenticity := sd_authenticity message,
     im_short_sale_threshold_indicator := sd_short_sale_threshold_indicator message,
     im_ipo_flag := sd_ipo_flag message,
     im_luld_reference_price_tier := sd_luld_reference_price_tier message,
     im_etp_flag := sd_etp_flag message,
     im_etp_leverage_factor := sd_etp_leverage_factor message,
     im_inverse_indicator := sd_inverse_indicator message\<rparr>"

text \<open>A value-initialised \<^verbatim>\<open>InstrumentMetadata\<close>: spaces, zeros, and zero bytes in the arrays.\<close>

definition default_metadata :: instrument_metadata where
  "default_metadata = \<lparr>
     im_key = \<lparr>ik_venue_id = 0, ik_stock_locate = 0\<rparr>,
     im_stock = replicate 8 (char_of_byte 0),
     im_market_category = CHR '' '', im_financial_status_indicator = CHR '' '',
     im_round_lot_size = 0, im_round_lots_only = CHR ''N'', im_issue_classification = CHR '' '',
     im_issue_sub_type = replicate 2 (char_of_byte 0), im_authenticity = CHR '' '',
     im_short_sale_threshold_indicator = CHR '' '', im_ipo_flag = CHR '' '',
     im_luld_reference_price_tier = CHR '' '', im_etp_flag = CHR '' '',
     im_etp_leverage_factor = 0, im_inverse_indicator = CHR '' '',
     im_trading_status = STS_unknown, im_last_trading_action_reason = replicate 4 (char_of_byte 0)\<rparr>"

definition new_metadata :: "instrument_key \<Rightarrow> stock_directory_message \<Rightarrow> instrument_metadata" where
  "new_metadata key message =
     copy_descriptive_fields message (default_metadata\<lparr>im_key := key, im_stock := sd_stock message\<rparr>)"

definition apply_stock_directory ::
  "instrument_directory \<Rightarrow> venue_id \<Rightarrow> stock_directory_message \<Rightarrow> error_code \<times> instrument_directory" where
  "apply_stock_directory dir venue message =
     (if \<not> is_valid_venue_id venue then (EC_invalid_argument, dir)
      else if \<not> is_valid_stock_directory_message message then (EC_invalid_argument, dir)
      else
        let key = \<lparr>ik_venue_id = venue, ik_stock_locate = hdr_stock_locate (sd_header message)\<rparr>;
            symbol = canonical_symbol_from_stock (sd_stock message)
        in case dir_instruments dir key of
          Some md \<Rightarrow>
            if im_stock md \<noteq> sd_stock message then (EC_invalid_state, dir)
            else (EC_ok, dir\<lparr>dir_instruments :=
                    (dir_instruments dir)(key \<mapsto> copy_descriptive_fields message md)\<rparr>)
        | None \<Rightarrow>
            (EC_ok, dir\<lparr>
               dir_instruments := (dir_instruments dir)(key \<mapsto> new_metadata key message),
               dir_symbol_index := (dir_symbol_index dir)(symbol \<mapsto>
                 (case dir_symbol_index dir symbol of None \<Rightarrow> [] | Some keys \<Rightarrow> keys) @ [key])\<rparr>))"

definition apply_stock_trading_action ::
  "instrument_directory \<Rightarrow> venue_id \<Rightarrow> stock_trading_action_message \<Rightarrow> error_code \<times> instrument_directory" where
  "apply_stock_trading_action dir venue message =
     (if \<not> is_valid_venue_id venue then (EC_invalid_argument, dir)
      else if \<not> is_valid_stock_trading_action_message message then (EC_invalid_argument, dir)
      else
        let key = \<lparr>ik_venue_id = venue, ik_stock_locate = hdr_stock_locate (ta_header message)\<rparr>
        in case dir_instruments dir key of
          None \<Rightarrow> (EC_not_found, dir)
        | Some md \<Rightarrow>
            if im_stock md \<noteq> ta_stock message then (EC_invalid_state, dir)
            else (EC_ok, dir\<lparr>dir_instruments := (dir_instruments dir)(key \<mapsto>
                    md\<lparr>im_trading_status := to_symbol_trading_status (ta_trading_state message),
                       im_last_trading_action_reason := ta_reason message\<rparr>)\<rparr>))"

definition find_instrument :: "instrument_directory \<Rightarrow> instrument_key \<Rightarrow> instrument_metadata option" where
  "find_instrument dir key = dir_instruments dir key"

definition find_instrument_at ::
  "instrument_directory \<Rightarrow> venue_id \<Rightarrow> u16 \<Rightarrow> instrument_metadata option" where
  "find_instrument_at dir venue locate =
     find_instrument dir \<lparr>ik_venue_id = venue, ik_stock_locate = locate\<rparr>"

definition contains_instrument :: "instrument_directory \<Rightarrow> instrument_key \<Rightarrow> bool" where
  "contains_instrument dir key \<longleftrightarrow> find_instrument dir key \<noteq> None"

definition instruments_for_symbol :: "instrument_directory \<Rightarrow> canonical_symbol \<Rightarrow> instrument_key list" where
  "instruments_for_symbol dir symbol =
     (case dir_symbol_index dir symbol of None \<Rightarrow> [] | Some keys \<Rightarrow> keys)"

definition directory_size :: "instrument_directory \<Rightarrow> nat" where
  "directory_size dir = card (dom (dir_instruments dir))"

section \<open>The directory invariant\<close>

definition dir_inv :: "instrument_directory \<Rightarrow> bool" where
  "dir_inv dir \<longleftrightarrow>
     (\<forall>key md. dir_instruments dir key = Some md \<longrightarrow> im_key md = key \<and> is_valid_instrument_key key)
     \<and> (\<forall>symbol key. key \<in> set (instruments_for_symbol dir symbol) \<longleftrightarrow>
          (\<exists>md. dir_instruments dir key = Some md \<and> im_stock md = cs_stock symbol))
     \<and> (\<forall>symbol. distinct (instruments_for_symbol dir symbol))
     \<and> finite (dom (dir_instruments dir))"

lemma copy_descriptive_fields_frame [simp]:
  "im_key (copy_descriptive_fields message md) = im_key md"
  "im_stock (copy_descriptive_fields message md) = im_stock md"
  "im_trading_status (copy_descriptive_fields message md) = im_trading_status md"
  "im_last_trading_action_reason (copy_descriptive_fields message md) = im_last_trading_action_reason md"
  by (simp_all add: copy_descriptive_fields_def)

lemma new_metadata_simps [simp]:
  "im_key (new_metadata key message) = key"
  "im_stock (new_metadata key message) = sd_stock message"
  "im_trading_status (new_metadata key message) = STS_unknown"
  by (simp_all add: new_metadata_def default_metadata_def)

lemma dir_inv_empty: "dir_inv empty_directory"
  by (simp add: dir_inv_def empty_directory_def instruments_for_symbol_def)

text \<open>Writing over the metadata of a listed instrument keeps the invariant if key and stock stay.\<close>

lemma dir_inv_overwrite:
  assumes "dir_inv dir" "dir_instruments dir key = Some md" "im_key md' = im_key md" "im_stock md' = im_stock md"
  shows "dir_inv (dir\<lparr>dir_instruments := (dir_instruments dir)(key \<mapsto> md')\<rparr>)"
  using assms by (auto simp: dir_inv_def instruments_for_symbol_def insert_absorb split: option.splits)

lemma instruments_for_symbol_append:
  "instruments_for_symbol (dir\<lparr>dir_instruments := f, dir_symbol_index := (dir_symbol_index dir)(symbol \<mapsto>
     (case dir_symbol_index dir symbol of None \<Rightarrow> [] | Some keys \<Rightarrow> keys) @ [key])\<rparr>) symbol' =
   instruments_for_symbol dir symbol' @ (if symbol' = symbol then [key] else [])"
  by (simp add: instruments_for_symbol_def)

lemma dir_inv_insert:
  assumes inv: "dir_inv dir" and new: "dir_instruments dir key = None"
    and valid: "is_valid_instrument_key key" and md: "im_key md = key" "im_stock md = cs_stock symbol"
  shows "dir_inv (dir\<lparr>dir_instruments := (dir_instruments dir)(key \<mapsto> md),
     dir_symbol_index := (dir_symbol_index dir)(symbol \<mapsto>
       (case dir_symbol_index dir symbol of None \<Rightarrow> [] | Some keys \<Rightarrow> keys) @ [key])\<rparr>)"
proof -
  have "key \<notin> set (instruments_for_symbol dir s)" for s
    using inv new by (auto simp: dir_inv_def)
  with assms show ?thesis
    unfolding dir_inv_def instruments_for_symbol_append
    by (auto simp: canonical_symbol.equality)
qed

lemma dir_inv_apply_stock_directory:
  assumes inv: "dir_inv dir"
  shows "dir_inv (snd (apply_stock_directory dir venue message))"
proof (cases "is_valid_venue_id venue \<and> is_valid_stock_directory_message message")
  case False
  with inv show ?thesis by (auto simp: apply_stock_directory_def)
next
  case True
  let ?key = "\<lparr>ik_venue_id = venue, ik_stock_locate = hdr_stock_locate (sd_header message)\<rparr>"
  from True have valid: "is_valid_instrument_key ?key"
    by (simp add: is_valid_instrument_key_def is_valid_stock_directory_message_def
      is_valid_header_for_stock_message_def)
  show ?thesis
  proof (cases "dir_instruments dir ?key")
    case None
    with True inv valid show ?thesis
      unfolding apply_stock_directory_def Let_def canonical_symbol_from_stock_def
      by (simp add: dir_inv_insert)
  next
    case (Some md)
    with True inv show ?thesis by (simp add: apply_stock_directory_def Let_def dir_inv_overwrite)
  qed
qed

lemma dir_inv_apply_stock_trading_action:
  assumes "dir_inv dir"
  shows "dir_inv (snd (apply_stock_trading_action dir venue message))"
  using assms
  by (auto simp: apply_stock_trading_action_def Let_def intro!: dir_inv_overwrite split: option.splits)

section \<open>What the books rely on\<close>

locale instrument_source =
  fixes invar :: "'d \<Rightarrow> bool"
    and lookup :: "'d \<Rightarrow> instrument_key \<Rightarrow> instrument_metadata option"
    and listing :: "'d \<Rightarrow> canonical_symbol \<Rightarrow> instrument_key list"
  assumes lookup_key: "invar d \<Longrightarrow> lookup d key = Some md \<Longrightarrow> im_key md = key"
    and lookup_valid: "invar d \<Longrightarrow> lookup d key = Some md \<Longrightarrow> is_valid_instrument_key key"
    and listing_iff: "invar d \<Longrightarrow>
      key \<in> set (listing d symbol) \<longleftrightarrow> (\<exists>md. lookup d key = Some md \<and> im_stock md = cs_stock symbol)"
    and listing_distinct: "invar d \<Longrightarrow> distinct (listing d symbol)"
begin

lemma listed_once:
  "invar d \<Longrightarrow> lookup d key = Some md \<Longrightarrow> im_stock md = cs_stock symbol \<Longrightarrow>
   length (filter ((=) key) (listing d symbol)) = 1"
  using listing_distinct [of d symbol] listing_iff [of d key symbol]
  by (simp add: distinct_length_filter)

lemma listed_under_one_symbol:
  "invar d \<Longrightarrow> key \<in> set (listing d s) \<Longrightarrow> key \<in> set (listing d t) \<Longrightarrow> s = t"
  by (auto simp: listing_iff canonical_symbol.equality)

end

interpretation directory: instrument_source dir_inv find_instrument instruments_for_symbol
  by unfold_locales (auto simp: dir_inv_def find_instrument_def)

end
