(* ===== verification/Ordered_Map.thy ===== *)
theory Ordered_Map
  imports Prelude
begin

text \<open>
  \<^verbatim>\<open>std::map<K, V, Compare>\<close> as the order book uses it: an association list kept sorted by the
  comparator, so that \<^verbatim>\<open>begin()\<close> is its head. The comparator is the first argument of the
  operations that need it. The locale \<open>comparator\<close> is what \<^verbatim>\<open>std::map\<close> asks of the comparator;
  its lemmas hold for \<^verbatim>\<open>std::less\<close> and \<^verbatim>\<open>std::greater\<close> alike.
\<close>

type_synonym ('k, 'v) omap = "('k \<times> 'v) list"

definition om_find :: "('k, 'v) omap \<Rightarrow> 'k \<Rightarrow> 'v option" where
  "om_find xs k = map_of xs k"

fun om_set :: "('k \<Rightarrow> 'k \<Rightarrow> bool) \<Rightarrow> 'k \<Rightarrow> 'v \<Rightarrow> ('k, 'v) omap \<Rightarrow> ('k, 'v) omap" where
  "om_set before k v [] = [(k, v)]"
| "om_set before k v ((k', v') # xs) =
     (if before k k' then (k, v) # (k', v') # xs
      else if k = k' then (k, v) # xs
      else (k', v') # om_set before k v xs)"

definition om_erase :: "'k \<Rightarrow> ('k, 'v) omap \<Rightarrow> ('k, 'v) omap" where
  "om_erase k xs = filter (\<lambda>(k', _). k' \<noteq> k) xs"

definition om_begin :: "('k, 'v) omap \<Rightarrow> ('k \<times> 'v) option" where
  "om_begin xs = (case xs of [] \<Rightarrow> None | x # _ \<Rightarrow> Some x)"

definition om_sorted :: "('k \<Rightarrow> 'k \<Rightarrow> bool) \<Rightarrow> ('k, 'v) omap \<Rightarrow> bool" where
  "om_sorted before xs \<longleftrightarrow> sorted_wrt before (map fst xs)"

lemma om_find_erase: "om_find (om_erase k xs) j = (if j = k then None else om_find xs j)"
  by (induction xs) (auto simp: om_find_def om_erase_def)

lemma om_sorted_erase: "om_sorted before xs \<Longrightarrow> om_sorted before (om_erase k xs)"
  by (induction xs) (auto simp: om_sorted_def om_erase_def)

lemma om_begin_None: "om_begin xs = None \<longleftrightarrow> (\<forall>k. om_find xs k = None)"
  by (cases xs) (auto simp: om_begin_def om_find_def)

locale comparator =
  fixes before :: "'k \<Rightarrow> 'k \<Rightarrow> bool"
  assumes irrefl: "\<not> before k k"
    and trans: "before i j \<Longrightarrow> before j k \<Longrightarrow> before i k"
    and total: "i \<noteq> j \<Longrightarrow> before i j \<or> before j i"
begin

lemma om_find_set: "om_sorted before xs \<Longrightarrow> om_find (om_set before k v xs) j = (if j = k then Some v else om_find xs j)"
  by (induction xs) (auto simp: om_find_def om_sorted_def irrefl)

lemma keys_om_set: "fst ` set (om_set before k v xs) = insert k (fst ` set xs)"
  by (induction before k v xs rule: om_set.induct) (simp_all add: insert_commute)

lemma om_sorted_set: "om_sorted before xs \<Longrightarrow> om_sorted before (om_set before k v xs)"
proof (induction xs)
  case (Cons x xs)
  then show ?case
    using total trans keys_om_set [of k v xs]
    by (cases x) (auto simp: om_sorted_def image_iff dest: trans)
qed (simp add: om_sorted_def)

lemma om_begin_first:
  assumes "om_sorted before xs" "om_begin xs = Some (k, v)"
  shows "om_find xs k = Some v" and "om_find xs j \<noteq> None \<Longrightarrow> j \<noteq> k \<Longrightarrow> before k j"
  using assms by (cases xs; force simp: om_sorted_def om_begin_def om_find_def dest!: map_of_SomeD)+

end

interpretation less_order: comparator "(<) :: u32 \<Rightarrow> u32 \<Rightarrow> bool"
  by unfold_locales auto

interpretation greater_order: comparator "(>) :: u32 \<Rightarrow> u32 \<Rightarrow> bool"
  by unfold_locales auto

end
