(* ===== verification/Order_Book.thy ===== *)
theory Order_Book
  imports Instrument Ordered_Map
begin

text \<open>
  One instrument's order book: \<^verbatim>\<open>include/fgep/book/book_types.hpp\<close>,
  \<^verbatim>\<open>include/fgep/book/symbol_order_book.hpp\<close> and \<^verbatim>\<open>src/book/symbol_order_book.cpp\<close>. The hash map
  of resting orders is a partial map, the two price-level trees are ordered maps (bids from the
  highest price, asks from the lowest). Prices shown by the book (\<^verbatim>\<open>fgep::Price\<close>, a signed 64-bit
  integer) only ever hold a widened 32-bit price, so they are integers.

  \<open>book_inv\<close> ties the two views together: every price level is exactly the total of the resting
  orders at that price. The specification of the book is the map of orders alone, and
  \<open>spec_apply\<close> is what each message means for it.
\<close>

section \<open>Types\<close>

record level =
  lv_price :: int
  lv_quantity :: u64
  lv_order_count :: u64

definition is_empty :: "level \<Rightarrow> bool" where
  "is_empty lv \<longleftrightarrow> lv_quantity lv = 0 \<or> lv_order_count lv = 0"

record resting_order =
  ro_order_reference_number :: u64
  ro_side :: side
  ro_shares :: u32
  ro_price :: u32

record level_state =
  ls_quantity :: u64
  ls_order_count :: u64

type_synonym level_map = "(u32, level_state) omap"

record symbol_order_book =
  sob_key :: instrument_key
  sob_stock :: stock_symbol
  sob_orders :: "u64 \<rightharpoonup> resting_order"
  sob_bids :: level_map
  sob_asks :: level_map

definition new_symbol_order_book :: "instrument_key \<Rightarrow> stock_symbol \<Rightarrow> symbol_order_book" where
  "new_symbol_order_book key stock =
     \<lparr>sob_key = key, sob_stock = stock, sob_orders = Map.empty, sob_bids = [], sob_asks = []\<rparr>"

section \<open>Price levels\<close>

definition make_level :: "u32 \<Rightarrow> level_state \<Rightarrow> level" where
  "make_level price state =
     \<lparr>lv_price = uint price, lv_quantity = ls_quantity state, lv_order_count = ls_order_count state\<rparr>"

text \<open>\<^verbatim>\<open>levels[price]\<close> default-constructs a missing level; then quantity and count grow.\<close>

definition add_to_side :: "(u32 \<Rightarrow> u32 \<Rightarrow> bool) \<Rightarrow> resting_order \<Rightarrow> level_map \<Rightarrow> level_map" where
  "add_to_side before order levels =
     (let state = (case om_find levels (ro_price order) of
            None \<Rightarrow> \<lparr>ls_quantity = 0, ls_order_count = 0\<rparr> | Some st \<Rightarrow> st)
      in om_set before (ro_price order)
           \<lparr>ls_quantity = ls_quantity state + ucast (ro_shares order),
            ls_order_count = ls_order_count state + 1\<rparr> levels)"

definition add_to_level :: "symbol_order_book \<Rightarrow> resting_order \<Rightarrow> symbol_order_book" where
  "add_to_level book order =
     (if ro_side order = Buy then book\<lparr>sob_bids := add_to_side (>) order (sob_bids book)\<rparr>
      else book\<lparr>sob_asks := add_to_side (<) order (sob_asks book)\<rparr>)"

definition remove_from_state :: "resting_order \<Rightarrow> u32 \<Rightarrow> level_state \<Rightarrow> level_state" where
  "remove_from_state order shares state =
     (let quantity_to_remove = ucast shares;
          state1 = (if quantity_to_remove \<ge> ls_quantity state then state\<lparr>ls_quantity := 0\<rparr>
                    else state\<lparr>ls_quantity := ls_quantity state - quantity_to_remove\<rparr>)
      in if shares = ro_shares order \<and> ls_order_count state1 > 0
         then state1\<lparr>ls_order_count := ls_order_count state1 - 1\<rparr> else state1)"

definition remove_from_side ::
  "(u32 \<Rightarrow> u32 \<Rightarrow> bool) \<Rightarrow> resting_order \<Rightarrow> u32 \<Rightarrow> level_map \<Rightarrow> level_map" where
  "remove_from_side before order shares levels =
     (case om_find levels (ro_price order) of
        None \<Rightarrow> levels
      | Some state \<Rightarrow>
          let state' = remove_from_state order shares state
          in if is_empty (make_level (ro_price order) state') then om_erase (ro_price order) levels
             else om_set before (ro_price order) state' levels)"

definition remove_from_level :: "symbol_order_book \<Rightarrow> resting_order \<Rightarrow> u32 \<Rightarrow> symbol_order_book" where
  "remove_from_level book order shares =
     (if ro_side order = Buy then book\<lparr>sob_bids := remove_from_side (>) order shares (sob_bids book)\<rparr>
      else book\<lparr>sob_asks := remove_from_side (<) order shares (sob_asks book)\<rparr>)"

section \<open>Order operations\<close>

definition require_matching_header :: "symbol_order_book \<Rightarrow> header \<Rightarrow> error_code" where
  "require_matching_header book h =
     (if \<not> is_valid_instrument_key (sob_key book) then EC_invalid_state
      else if hdr_stock_locate h \<noteq> ik_stock_locate (sob_key book) then EC_invalid_argument
      else if \<not> is_valid_timestamp_ns (hdr_timestamp_ns h) then EC_invalid_argument
      else EC_ok)"

definition require_matching_stock :: "symbol_order_book \<Rightarrow> stock_symbol \<Rightarrow> error_code" where
  "require_matching_stock book stock =
     (if stock \<noteq> sob_stock book then EC_invalid_argument else EC_ok)"

definition contains_order :: "symbol_order_book \<Rightarrow> u64 \<Rightarrow> bool" where
  "contains_order book ref \<longleftrightarrow> sob_orders book ref \<noteq> None"

definition add_order ::
  "symbol_order_book \<Rightarrow> u64 \<Rightarrow> side \<Rightarrow> u32 \<Rightarrow> stock_symbol \<Rightarrow> u32 \<Rightarrow> error_code \<times> symbol_order_book" where
  "add_order book ref side shares stock price =
     (if \<not> is_valid_order_reference_number ref \<or> \<not> is_valid_shares shares \<or> \<not> is_valid_price4 price
      then (EC_invalid_argument, book)
      else if require_matching_stock book stock \<noteq> EC_ok then (require_matching_stock book stock, book)
      else if contains_order book ref then (EC_duplicate, book)
      else
        let order = \<lparr>ro_order_reference_number = ref, ro_side = side, ro_shares = shares, ro_price = price\<rparr>;
            book1 = add_to_level book order
        in (EC_ok, book1\<lparr>sob_orders := (sob_orders book1)(ref \<mapsto> order)\<rparr>))"

definition reduce_order :: "symbol_order_book \<Rightarrow> u64 \<Rightarrow> u32 \<Rightarrow> error_code \<times> symbol_order_book" where
  "reduce_order book ref shares_to_reduce =
     (if \<not> is_valid_shares shares_to_reduce then (EC_invalid_argument, book)
      else case sob_orders book ref of
        None \<Rightarrow> (EC_not_found, book)
      | Some existing \<Rightarrow>
          if shares_to_reduce > ro_shares existing then (EC_invalid_state, book)
          else
            let book1 = remove_from_level book existing shares_to_reduce;
                existing' = existing\<lparr>ro_shares := ro_shares existing - shares_to_reduce\<rparr>
            in if ro_shares existing' = 0
               then (EC_ok, book1\<lparr>sob_orders := (sob_orders book1)(ref := None)\<rparr>)
               else (EC_ok, book1\<lparr>sob_orders := (sob_orders book1)(ref \<mapsto> existing')\<rparr>))"

definition delete_order :: "symbol_order_book \<Rightarrow> u64 \<Rightarrow> error_code \<times> symbol_order_book" where
  "delete_order book ref =
     (case sob_orders book ref of
        None \<Rightarrow> (EC_not_found, book)
      | Some existing \<Rightarrow>
          let book1 = remove_from_level book existing (ro_shares existing)
          in (EC_ok, book1\<lparr>sob_orders := (sob_orders book1)(ref := None)\<rparr>))"

definition replace_order ::
  "symbol_order_book \<Rightarrow> order_replace_message \<Rightarrow> error_code \<times> symbol_order_book" where
  "replace_order book message =
     (case sob_orders book (orp_original_order_reference_number message) of
        None \<Rightarrow> (EC_not_found, book)
      | Some old_order \<Rightarrow>
          if \<not> is_valid_shares (orp_shares message) \<or> \<not> is_valid_price4 (orp_price message)
          then (EC_invalid_argument, book)
          else if contains_order book (orp_new_order_reference_number message) then (EC_duplicate, book)
          else
            let book1 = remove_from_level book old_order (ro_shares old_order);
                book2 = book1\<lparr>sob_orders :=
                  (sob_orders book1)(orp_original_order_reference_number message := None)\<rparr>
            in add_order book2 (orp_new_order_reference_number message) (ro_side old_order)
                 (orp_shares message) (sob_stock book) (orp_price message))"

section \<open>Applying messages\<close>

definition with_header ::
  "symbol_order_book \<Rightarrow> header \<Rightarrow> error_code \<times> symbol_order_book \<Rightarrow> error_code \<times> symbol_order_book" where
  "with_header book h r =
     (if require_matching_header book h \<noteq> EC_ok then (require_matching_header book h, book) else r)"

fun apply_message :: "symbol_order_book \<Rightarrow> message \<Rightarrow> error_code \<times> symbol_order_book" where
  "apply_message book (SystemEvent m) = (EC_ok, book)"
| "apply_message book (StockDirectory m) = (EC_ok, book)"
| "apply_message book (StockTradingAction m) = (EC_ok, book)"
| "apply_message book (AddOrderNoMpid m) = with_header book (ao_header m)
     (add_order book (ao_order_reference_number m) (ao_side m) (ao_shares m) (ao_stock m) (ao_price m))"
| "apply_message book (AddOrderWithMpid m) = with_header book (am_header m)
     (add_order book (am_order_reference_number m) (am_side m) (am_shares m) (am_stock m) (am_price m))"
| "apply_message book (OrderExecuted m) = with_header book (oe_header m)
     (reduce_order book (oe_order_reference_number m) (oe_executed_shares m))"
| "apply_message book (OrderExecutedWithPrice m) = with_header book (op_header m)
     (reduce_order book (op_order_reference_number m) (op_executed_shares m))"
| "apply_message book (OrderCancel m) = with_header book (oc_header m)
     (reduce_order book (oc_order_reference_number m) (oc_cancelled_shares m))"
| "apply_message book (OrderDelete m) = with_header book (od_header m)
     (delete_order book (od_order_reference_number m))"
| "apply_message book (OrderReplace m) = with_header book (orp_header m) (replace_order book m)"
| "apply_message book (TradeNonCross m) = (EC_ok, book)"
| "apply_message book (CrossTrade m) = (EC_ok, book)"
| "apply_message book (BrokenTrade m) = (EC_ok, book)"

section \<open>Queries\<close>

definition best_bid :: "symbol_order_book \<Rightarrow> level option" where
  "best_bid book = map_option (\<lambda>(price, state). make_level price state) (om_begin (sob_bids book))"

definition best_ask :: "symbol_order_book \<Rightarrow> level option" where
  "best_ask book = map_option (\<lambda>(price, state). make_level price state) (om_begin (sob_asks book))"

definition order_count :: "symbol_order_book \<Rightarrow> nat" where
  "order_count book = card (dom (sob_orders book))"

definition book_empty :: "symbol_order_book \<Rightarrow> bool" where
  "book_empty book \<longleftrightarrow> sob_orders book = Map.empty"

section \<open>The invariant\<close>

definition at_level :: "(u64 \<rightharpoonup> resting_order) \<Rightarrow> side \<Rightarrow> u32 \<Rightarrow> u64 set" where
  "at_level m s p = {r. \<exists>ord. m r = Some ord \<and> ro_side ord = s \<and> ro_price ord = p}"

definition shares_at :: "(u64 \<rightharpoonup> resting_order) \<Rightarrow> side \<Rightarrow> u32 \<Rightarrow> nat" where
  "shares_at m s p = (\<Sum>r \<in> at_level m s p. unat (ro_shares (the (m r))))"

definition level_ok :: "(u64 \<rightharpoonup> resting_order) \<Rightarrow> side \<Rightarrow> u32 \<Rightarrow> level_state option \<Rightarrow> bool" where
  "level_ok m s p entry \<longleftrightarrow>
     (case entry of
        None \<Rightarrow> at_level m s p = {}
      | Some st \<Rightarrow> at_level m s p \<noteq> {} \<and> unat (ls_quantity st) = shares_at m s p
          \<and> unat (ls_order_count st) = card (at_level m s p))"

definition orders_wf :: "(u64 \<rightharpoonup> resting_order) \<Rightarrow> bool" where
  "orders_wf m \<longleftrightarrow> finite (dom m) \<and>
     (\<forall>r ord. m r = Some ord \<longrightarrow>
        ro_order_reference_number ord = r \<and> 0 < r \<and> 0 < ro_shares ord \<and> 0 < ro_price ord)"

definition side_inv ::
  "(u32 \<Rightarrow> u32 \<Rightarrow> bool) \<Rightarrow> (u64 \<rightharpoonup> resting_order) \<Rightarrow> side \<Rightarrow> level_map \<Rightarrow> bool" where
  "side_inv before m s levels \<longleftrightarrow>
     om_sorted before levels \<and> (\<forall>p. level_ok m s p (om_find levels p))"

definition book_inv :: "symbol_order_book \<Rightarrow> bool" where
  "book_inv book \<longleftrightarrow>
     orders_wf (sob_orders book)
     \<and> side_inv (>) (sob_orders book) Buy (sob_bids book)
     \<and> side_inv (<) (sob_orders book) Sell (sob_asks book)"

text \<open>The specification-level effect of taking \<open>shares\<close> off an order.\<close>

definition take_shares :: "(u64 \<rightharpoonup> resting_order) \<Rightarrow> u64 \<Rightarrow> resting_order \<Rightarrow> u32 \<Rightarrow> (u64 \<rightharpoonup> resting_order)" where
  "take_shares m r ord shares =
     (if shares = ro_shares ord then m(r := None)
      else m(r \<mapsto> ord\<lparr>ro_shares := ro_shares ord - shares\<rparr>))"

subsection \<open>Levels of an updated order map\<close>

lemma finite_at_level: "finite (dom m) \<Longrightarrow> finite (at_level m s p)"
  by (rule finite_subset [of _ "dom m"]) (auto simp: at_level_def)

lemma at_level_insert:
  "m r = None \<Longrightarrow> at_level (m(r \<mapsto> ord)) s p =
     (if ro_side ord = s \<and> ro_price ord = p then insert r (at_level m s p) else at_level m s p)"
  by (auto simp: at_level_def)

lemma at_level_take_shares:
  "m r = Some ord \<Longrightarrow> at_level (take_shares m r ord shares) s p =
     (if shares = ro_shares ord then at_level m s p - {r} else at_level m s p)"
  by (auto simp: at_level_def take_shares_def)

lemma shares_at_insert:
  assumes "finite (dom m)" "m r = None"
  shows "shares_at (m(r \<mapsto> ord)) s p =
     shares_at m s p + (if ro_side ord = s \<and> ro_price ord = p then unat (ro_shares ord) else 0)"
proof -
  have "r \<notin> at_level m s p" using assms by (simp add: at_level_def)
  then have "(\<Sum>i\<in>at_level m s p. unat (ro_shares (the ((m(r \<mapsto> ord)) i)))) = shares_at m s p"
    unfolding shares_at_def by (intro sum.cong) auto
  with assms \<open>r \<notin> at_level m s p\<close> show ?thesis
    by (simp add: at_level_insert finite_at_level shares_at_def)
qed

lemma shares_at_member:
  assumes "finite (dom m)" "m r = Some ord"
  shows "shares_at m (ro_side ord) (ro_price ord) =
     unat (ro_shares ord) + (\<Sum>i \<in> at_level m (ro_side ord) (ro_price ord) - {r}. unat (ro_shares (the (m i))))"
proof -
  have "r \<in> at_level m (ro_side ord) (ro_price ord)" using assms by (simp add: at_level_def)
  with assms show ?thesis unfolding shares_at_def by (simp add: sum.remove finite_at_level)
qed

lemma shares_at_take_shares:
  assumes "finite (dom m)" "m r = Some ord" "shares \<le> ro_shares ord"
  shows "shares_at (take_shares m r ord shares) s p =
     shares_at m s p - (if ro_side ord = s \<and> ro_price ord = p then unat shares else 0)"
proof (cases "ro_side ord = s \<and> ro_price ord = p")
  case True
  let ?m = "take_shares m r ord shares"
  have rest: "(\<Sum>i\<in>at_level m s p - {r}. unat (ro_shares (the (?m i)))) =
      (\<Sum>i\<in>at_level m s p - {r}. unat (ro_shares (the (m i))))"
    by (intro sum.cong) (auto simp: take_shares_def)
  show ?thesis
  proof (cases "shares = ro_shares ord")
    case full: True
    then have "shares_at ?m s p = (\<Sum>i\<in>at_level m s p - {r}. unat (ro_shares (the (m i))))"
      using assms rest by (simp add: shares_at_def at_level_take_shares)
    with True full shares_at_member [OF assms(1,2)] show ?thesis by simp
  next
    case False
    have upd: "?m r = Some (ord\<lparr>ro_shares := ro_shares ord - shares\<rparr>)" "finite (dom ?m)"
      using False assms by (auto simp: take_shares_def)
    have "shares_at ?m s p = unat (ro_shares ord - shares) + (\<Sum>i\<in>at_level m s p - {r}. unat (ro_shares (the (m i))))"
      using shares_at_member [OF upd(2,1)] True False assms(2) rest
      by (simp add: at_level_take_shares)
    moreover have "unat (ro_shares ord - shares) = unat (ro_shares ord) - unat shares"
      using assms(3) by (simp add: unat_sub)
    moreover have "unat shares \<le> unat (ro_shares ord)"
      using assms(3) by (simp add: word_le_nat_alt)
    ultimately show ?thesis using True shares_at_member [OF assms(1,2)] by simp
  qed
next
  case False
  then have "r \<notin> at_level m s p" using assms(2) by (auto simp: at_level_def)
  moreover from this have "(\<Sum>i\<in>at_level m s p. unat (ro_shares (the (take_shares m r ord shares i)))) = shares_at m s p"
    unfolding shares_at_def by (intro sum.cong) (auto simp: take_shares_def)
  ultimately show ?thesis using False assms(2) by (auto simp: shares_at_def at_level_take_shares)
qed

lemma orders_wf_take_shares:
  "orders_wf m \<Longrightarrow> m r = Some ord \<Longrightarrow> shares \<le> ro_shares ord \<Longrightarrow> orders_wf (take_shares m r ord shares)"
  by (auto simp: orders_wf_def take_shares_def word_gt_0)

lemma shares_at_pos: "orders_wf m \<Longrightarrow> at_level m s p \<noteq> {} \<Longrightarrow> 0 < shares_at m s p"
  by (auto simp: shares_at_def orders_wf_def at_level_def sum_nonneg_eq_0_iff finite_at_level unat_gt_0 word_gt_0
     intro!: sum_pos2) 

lemma shares_at_0_iff: "orders_wf m \<Longrightarrow> shares_at m s p = 0 \<longleftrightarrow> at_level m s p = {}"
proof (cases "at_level m s p = {}")
  case False
  moreover assume "orders_wf m"
  ultimately show ?thesis using shares_at_pos [of m s p] by simp
qed (simp add: shares_at_def)

lemma level_ok_cong:
  "at_level m s p = at_level m' s p \<Longrightarrow> shares_at m s p = shares_at m' s p \<Longrightarrow>
   level_ok m s p entry = level_ok m' s p entry"
  by (cases entry) (simp_all add: level_ok_def)

lemma level_ok_insert_other:
  "m r = None \<Longrightarrow> finite (dom m) \<Longrightarrow> \<not> (ro_side ord = s \<and> ro_price ord = p) \<Longrightarrow>
   level_ok (m(r \<mapsto> ord)) s p entry = level_ok m s p entry"
  by (rule level_ok_cong) (auto simp: at_level_insert shares_at_insert)

lemma level_ok_take_other:
  assumes "m r = Some ord" "finite (dom m)" "shares \<le> ro_shares ord" "\<not> (ro_side ord = s \<and> ro_price ord = p)"
  shows "level_ok (take_shares m r ord shares) s p entry = level_ok m s p entry"
proof (rule level_ok_cong)
  from assms have "r \<notin> at_level m s p" by (auto simp: at_level_def)
  with assms show "at_level (take_shares m r ord shares) s p = at_level m s p"
    by (simp add: at_level_take_shares)
  from assms show "shares_at (take_shares m r ord shares) s p = shares_at m s p"
    by (auto simp: shares_at_take_shares)
qed

text \<open>No overflow: fewer than \<open>2^32\<close> resting orders of fewer than \<open>2^32\<close> shares each.\<close>

lemma shares_at_bound:
  assumes "finite (dom m)"
  shows "shares_at m s p \<le> card (dom m) * (2 ^ 32 - 1)"
proof -
  have "unat (ro_shares (the (m r))) \<le> 2 ^ 32 - 1" for r
    using unsigned_less [of "ro_shares (the (m r))", where 'a = nat] by simp
  then have "shares_at m s p \<le> card (at_level m s p) * (2 ^ 32 - 1)"
    unfolding shares_at_def by (intro sum_bounded_above [THEN order_trans]) auto
  also have "\<dots> \<le> card (dom m) * (2 ^ 32 - 1)"
    using assms by (intro mult_right_mono card_mono) (auto simp: at_level_def)
  finally show ?thesis .
qed


subsection \<open>Adding and removing on one side\<close>

locale price_order = comparator before for before :: "u32 \<Rightarrow> u32 \<Rightarrow> bool"
begin

lemma side_inv_other_side:
  "side_inv before m s levels \<Longrightarrow> m r = None \<Longrightarrow> ro_side ord \<noteq> s \<Longrightarrow> finite (dom m) \<Longrightarrow>
   side_inv before (m(r \<mapsto> ord)) s levels"
  by (simp add: side_inv_def level_ok_insert_other)

lemma side_inv_take_other_side:
  "side_inv before m s levels \<Longrightarrow> m r = Some ord \<Longrightarrow> ro_side ord \<noteq> s \<Longrightarrow> finite (dom m) \<Longrightarrow>
   shares \<le> ro_shares ord \<Longrightarrow> side_inv before (take_shares m r ord shares) s levels"
  by (simp add: side_inv_def level_ok_take_other)

lemma side_inv_add:
  assumes inv: "side_inv before m s levels" and new: "m r = None" and s: "ro_side ord = s"
    and wf: "orders_wf m" and room: "card (dom m) < 2 ^ 32"
  shows "side_inv before (m(r \<mapsto> ord)) s (add_to_side before ord levels)"
proof -
  let ?p = "ro_price ord"
  from wf have fin: "finite (dom m)" by (simp add: orders_wf_def)
  have notin: "r \<notin> at_level m s ?p" using new by (simp add: at_level_def)
  have "shares_at m s ?p \<le> (2 ^ 32 - 1) * (2 ^ 32 - 1)"
    using shares_at_bound [OF fin, of s ?p] room by (auto elim: order_trans intro: mult_right_mono)
  moreover have sh: "unat (ro_shares ord) < 2 ^ 32"
    using unsigned_less [of "ro_shares ord", where 'a = nat] by simp
  ultimately have qty: "shares_at m s ?p + unat (ro_shares ord) < 2 ^ 64" by simp
  have "card (at_level m s ?p) \<le> card (dom m)"
    using fin by (intro card_mono) (auto simp: at_level_def)
  with room have cnt: "card (at_level m s ?p) + 1 < 2 ^ 64" by simp
  define st where "st = (case om_find levels ?p of
      None \<Rightarrow> \<lparr>ls_quantity = 0, ls_order_count = 0\<rparr> | Some st \<Rightarrow> st)"
  have st: "unat (ls_quantity st) = shares_at m s ?p" "unat (ls_order_count st) = card (at_level m s ?p)"
    using inv by (auto simp: st_def side_inv_def level_ok_def shares_at_def split: option.splits
      dest!: spec [of _ ?p])
  have q: "unat (ls_quantity st + ucast (ro_shares ord)) = shares_at m s ?p + unat (ro_shares ord)"
    using qty sh st by (simp add: unat_word_ariths unsigned_ucast_eq take_bit_nat_eq_self)
  have c: "unat (ls_order_count st + 1) = card (at_level m s ?p) + 1"
    using cnt st by (simp add: unat_word_ariths)
  have "level_ok (m(r \<mapsto> ord)) s ?p (Some \<lparr>ls_quantity = ls_quantity st + ucast (ro_shares ord),
      ls_order_count = ls_order_count st + 1\<rparr>)"
    using new s fin notin q c
    by (simp add: level_ok_def at_level_insert shares_at_insert finite_at_level)
  with inv new fin show ?thesis
    by (simp add: side_inv_def add_to_side_def st_def [symmetric] Let_def om_find_set om_sorted_set
      level_ok_insert_other)
qed

lemma remove_from_state_exact:
  assumes st: "unat (ls_quantity st) = shares_at m s p" "unat (ls_order_count st) = card (at_level m s p)"
    and mem: "m r = Some ord" "ro_side ord = s" "ro_price ord = p"
    and fin: "finite (dom m)" and le: "shares \<le> ro_shares ord"
  shows "unat (ls_quantity (remove_from_state ord shares st)) = shares_at (take_shares m r ord shares) s p"
    and "unat (ls_order_count (remove_from_state ord shares st)) = card (at_level (take_shares m r ord shares) s p)"
proof -
  have r: "r \<in> at_level m s p" using mem by (simp add: at_level_def)
  have sh: "unat (ucast shares :: u64) = unat shares"
    using unsigned_less [of shares, where 'a = nat] by (simp add: unsigned_ucast_eq take_bit_nat_eq_self)
  have "unat shares \<le> unat (ls_quantity st)"
    using shares_at_member [OF fin mem(1)] le mem st by (simp add: word_le_nat_alt)
  then have "unat (if ucast shares \<ge> ls_quantity st then 0 else ls_quantity st - ucast shares) = unat (ls_quantity st) - unat shares"
    using sh by (auto simp: word_le_nat_alt unat_sub)
  then show "unat (ls_quantity (remove_from_state ord shares st)) = shares_at (take_shares m r ord shares) s p"
    using st mem fin le
    by (auto simp: remove_from_state_def Let_def shares_at_take_shares split: if_splits)
  have "card (at_level m s p) > 0" using r fin finite_at_level [of m s p] by (auto simp: card_gt_0_iff)
  then have "unat (ls_order_count st - 1) = card (at_level m s p - {r})"
    using st r fin finite_at_level [of m s p] by (simp add: unat_sub word_le_nat_alt Suc_le_eq)
  then show "unat (ls_order_count (remove_from_state ord shares st)) = card (at_level (take_shares m r ord shares) s p)"
    using st mem \<open>card (at_level m s p) > 0\<close>
    by (auto simp: remove_from_state_def Let_def at_level_take_shares word_gt_0 unat_eq_zero)
qed

lemma side_inv_remove:
  assumes inv: "side_inv before m s levels" and mem: "m r = Some ord" and s: "ro_side ord = s"
    and wf: "orders_wf m" and le: "shares \<le> ro_shares ord"
  shows "side_inv before (take_shares m r ord shares) s (remove_from_side before ord shares levels)"
proof -
  let ?p = "ro_price ord" and ?m = "take_shares m r ord shares"
  from wf have fin: "finite (dom m)" by (simp add: orders_wf_def)
  have r: "r \<in> at_level m s ?p" using mem s by (simp add: at_level_def)
  with inv obtain st where st: "om_find levels ?p = Some st"
      "unat (ls_quantity st) = shares_at m s ?p" "unat (ls_order_count st) = card (at_level m s ?p)"
    by (auto simp: side_inv_def level_ok_def split: option.splits dest!: spec [of _ ?p])
  note exact = remove_from_state_exact [OF st(2,3) mem s refl fin le]
  have wf': "orders_wf ?m" using wf mem le by (rule orders_wf_take_shares)
  have empty: "is_empty (make_level ?p (remove_from_state ord shares st)) \<longleftrightarrow> at_level ?m s ?p = {}"
    using exact shares_at_0_iff [OF wf', of s ?p] finite_at_level [of ?m s ?p] wf'
    by (auto simp: is_empty_def make_level_def unat_eq_zero [symmetric] orders_wf_def)
  have "level_ok ?m s ?p (if at_level ?m s ?p = {} then None else Some (remove_from_state ord shares st))"
    using exact by (simp add: level_ok_def)
  with inv st(1) empty mem fin le show ?thesis
    by (cases "at_level ?m s ?p = {}") (simp_all add: side_inv_def remove_from_side_def Let_def om_find_erase om_sorted_erase om_find_set
      om_sorted_set level_ok_take_other)
qed

end

interpretation bid_side: price_order "(>)"
  by unfold_locales

interpretation ask_side: price_order "(<)"
  by unfold_locales


section \<open>Every operation keeps the invariant\<close>

lemma book_inv_new: "book_inv (new_symbol_order_book key stock)"
  by (simp add: book_inv_def new_symbol_order_book_def orders_wf_def side_inv_def om_sorted_def om_find_def
    level_ok_def at_level_def)

lemma add_to_level_frame [simp]:
  "sob_key (add_to_level book ord) = sob_key book" "sob_stock (add_to_level book ord) = sob_stock book"
  "sob_orders (add_to_level book ord) = sob_orders book"
  by (simp_all add: add_to_level_def)

lemma remove_from_level_frame [simp]:
  "sob_key (remove_from_level book ord shares) = sob_key book"
  "sob_stock (remove_from_level book ord shares) = sob_stock book"
  "sob_orders (remove_from_level book ord shares) = sob_orders book"
  by (simp_all add: remove_from_level_def)

lemma side_cases: "s \<noteq> Buy \<longleftrightarrow> s = Sell"
  by (cases s) auto

lemma book_inv_add:
  assumes "book_inv book" "sob_orders book ref = None" "card (dom (sob_orders book)) < 2 ^ 32"
    "ro_order_reference_number ord = ref" "0 < ref" "0 < ro_shares ord" "0 < ro_price ord"
  shows "book_inv ((add_to_level book ord)\<lparr>sob_orders := (sob_orders book)(ref \<mapsto> ord)\<rparr>)"
proof -
  have "orders_wf ((sob_orders book)(ref \<mapsto> ord))" "finite (dom (sob_orders book))"
    using assms by (auto simp: book_inv_def orders_wf_def)
  with assms show ?thesis
    by (cases "ro_side ord")
       (auto simp: book_inv_def add_to_level_def bid_side.side_inv_add ask_side.side_inv_add
         bid_side.side_inv_other_side ask_side.side_inv_other_side)
qed

lemma book_inv_take:
  assumes "book_inv book" "sob_orders book ref = Some ord" "shares \<le> ro_shares ord"
  shows "book_inv ((remove_from_level book ord shares)\<lparr>sob_orders := take_shares (sob_orders book) ref ord shares\<rparr>)"
proof -
  have "orders_wf (sob_orders book)" "finite (dom (sob_orders book))"
    using assms by (auto simp: book_inv_def orders_wf_def)
  with assms show ?thesis
    by (cases "ro_side ord")
       (auto simp: book_inv_def remove_from_level_def orders_wf_take_shares bid_side.side_inv_remove
         ask_side.side_inv_remove bid_side.side_inv_take_other_side ask_side.side_inv_take_other_side)
qed

lemma take_all_shares: "m(ref := None) = take_shares m ref ord (ro_shares ord)"
  by (simp add: take_shares_def)

lemma reduce_order_take:
  assumes "sob_orders book ref = Some ord" "0 < shares" "shares \<le> ro_shares ord"
  shows "reduce_order book ref shares =
    (EC_ok, (remove_from_level book ord shares)\<lparr>sob_orders := take_shares (sob_orders book) ref ord shares\<rparr>)"
  using assms by (auto simp: reduce_order_def is_valid_shares_def take_shares_def Let_def not_less)

lemma delete_order_take:
  "sob_orders book ref = Some ord \<Longrightarrow> delete_order book ref =
    (EC_ok, (remove_from_level book ord (ro_shares ord))\<lparr>sob_orders := take_shares (sob_orders book) ref ord (ro_shares ord)\<rparr>)"
  by (simp add: delete_order_def take_shares_def Let_def)

lemma reduce_order_cases:
  obtains e where "reduce_order book ref shares = (e, book)" "e \<noteq> EC_ok"
  | ord where "sob_orders book ref = Some ord" "0 < shares" "shares \<le> ro_shares ord"
      "reduce_order book ref shares =
        (EC_ok, (remove_from_level book ord shares)\<lparr>sob_orders := take_shares (sob_orders book) ref ord shares\<rparr>)"
proof (cases "0 < shares \<and> (\<exists>ord. sob_orders book ref = Some ord \<and> shares \<le> ro_shares ord)")
  case True
  then show ?thesis using that reduce_order_take by blast
next
  case False
  then have "\<exists>e. reduce_order book ref shares = (e, book) \<and> e \<noteq> EC_ok"
    by (auto simp: reduce_order_def is_valid_shares_def not_le split: option.splits)
  then show ?thesis using that by blast
qed

lemma book_inv_add_order:
  "book_inv book \<Longrightarrow> card (dom (sob_orders book)) < 2 ^ 32 \<Longrightarrow>
   book_inv (snd (add_order book ref side shares stock price))"
  by (auto simp: add_order_def contains_order_def is_valid_order_reference_number_def is_valid_shares_def
    is_valid_price4_def Let_def intro!: book_inv_add)

lemma book_inv_reduce_order: "book_inv book \<Longrightarrow> book_inv (snd (reduce_order book ref shares))"
  by (rule reduce_order_cases [of book ref shares]) (auto intro: book_inv_take)

lemma book_inv_delete_order: "book_inv book \<Longrightarrow> book_inv (snd (delete_order book ref))"
  by (cases "sob_orders book ref") (auto simp: delete_order_take intro: book_inv_take, simp add: delete_order_def)

lemma book_inv_replace_order:
  assumes "book_inv book" "card (dom (sob_orders book)) < 2 ^ 32"
  shows "book_inv (snd (replace_order book message))"
proof (cases "sob_orders book (orp_original_order_reference_number message)")
  case None
  with assms show ?thesis by (simp add: replace_order_def)
next
  case (Some old)
  let ?book = "(remove_from_level book old (ro_shares old))\<lparr>sob_orders :=
     (sob_orders book)(orp_original_order_reference_number message := None)\<rparr>"
  have inv: "book_inv ?book"
    using book_inv_take [OF assms(1) Some, of "ro_shares old"] by (simp add: take_shares_def)
  have "card (dom (sob_orders ?book)) \<le> card (dom (sob_orders book))"
    using assms(1) by (intro card_mono) (auto simp: book_inv_def orders_wf_def split: if_splits)
  with assms(2) inv Some assms(1) show ?thesis
    by (auto simp: replace_order_def Let_def intro!: book_inv_add_order)
qed

lemma book_inv_apply_message:
  "book_inv book \<Longrightarrow> card (dom (sob_orders book)) < 2 ^ 32 \<Longrightarrow> book_inv (snd (apply_message book message))"
  by (cases message) (simp_all add: with_header_def book_inv_add_order book_inv_reduce_order
    book_inv_delete_order book_inv_replace_order)

section \<open>Reachable books\<close>

inductive reachable_book :: "instrument_key \<Rightarrow> stock_symbol \<Rightarrow> symbol_order_book \<Rightarrow> bool"
  for key :: instrument_key and stock :: stock_symbol
where
  reachable_new: "reachable_book key stock (new_symbol_order_book key stock)"
| reachable_apply: "reachable_book key stock book \<Longrightarrow> order_count book < 2 ^ 32 \<Longrightarrow>
    reachable_book key stock (snd (apply_message book message))"

lemma reachable_book_inv: "reachable_book key stock book \<Longrightarrow> book_inv book"
  by (induction rule: reachable_book.induct) (auto simp: book_inv_new book_inv_apply_message order_count_def)

lemma add_order_frame [simp]:
  "sob_key (snd (add_order book ref side shares stock price)) = sob_key book"
  "sob_stock (snd (add_order book ref side shares stock price)) = sob_stock book"
  by (simp_all add: add_order_def Let_def)

lemma reduce_order_frame [simp]:
  "sob_key (snd (reduce_order book ref shares)) = sob_key book"
  "sob_stock (snd (reduce_order book ref shares)) = sob_stock book"
  by (simp_all add: reduce_order_def Let_def split: option.splits)

lemma delete_order_frame [simp]:
  "sob_key (snd (delete_order book ref)) = sob_key book"
  "sob_stock (snd (delete_order book ref)) = sob_stock book"
  by (simp_all add: delete_order_def Let_def split: option.splits)

lemma replace_order_frame [simp]:
  "sob_key (snd (replace_order book message)) = sob_key book"
  "sob_stock (snd (replace_order book message)) = sob_stock book"
  by (simp_all add: replace_order_def Let_def split: option.splits)

lemma apply_message_frame [simp]:
  "sob_key (snd (apply_message book message)) = sob_key book"
  "sob_stock (snd (apply_message book message)) = sob_stock book"
  by (cases message; simp add: with_header_def)+

lemma reachable_book_identity:
  "reachable_book key stock book \<Longrightarrow> sob_key book = key \<and> sob_stock book = stock"
  by (induction rule: reachable_book.induct) (simp_all add: new_symbol_order_book_def)


section \<open>The specification: an order map\<close>

text \<open>
  What a message means for the map of live orders: the error code of the answer and the map afterwards. The map
  changes with every accepted message, and with one refused message, a replacement by reference number 0.\<close>

type_synonym order_map = "u64 \<rightharpoonup> resting_order"

definition header_for :: "instrument_key \<Rightarrow> header \<Rightarrow> bool" where
  "header_for key h \<longleftrightarrow> is_valid_instrument_key key \<and> hdr_stock_locate h = ik_stock_locate key
     \<and> is_valid_timestamp_ns (hdr_timestamp_ns h)"

definition spec_header :: "instrument_key \<Rightarrow> header \<Rightarrow> order_map \<Rightarrow> error_code \<times> order_map \<Rightarrow> error_code \<times> order_map" where
  "spec_header key h m answer =
     (if header_for key h then answer
      else (if is_valid_instrument_key key then EC_invalid_argument else EC_invalid_state, m))"

definition spec_add :: "u64 \<Rightarrow> side \<Rightarrow> u32 \<Rightarrow> u32 \<Rightarrow> bool \<Rightarrow> order_map \<Rightarrow> error_code \<times> order_map" where
  "spec_add ref side shares price own_stock m =
     (if ref = 0 \<or> shares = 0 \<or> price = 0 \<or> \<not> own_stock then (EC_invalid_argument, m)
      else if ref \<in> dom m then (EC_duplicate, m)
      else (EC_ok, m(ref \<mapsto> \<lparr>ro_order_reference_number = ref, ro_side = side, ro_shares = shares, ro_price = price\<rparr>)))"

definition spec_take :: "u64 \<Rightarrow> u32 \<Rightarrow> order_map \<Rightarrow> error_code \<times> order_map" where
  "spec_take ref shares m =
     (if shares = 0 then (EC_invalid_argument, m)
      else case m ref of
        None \<Rightarrow> (EC_not_found, m)
      | Some ord \<Rightarrow> if shares \<le> ro_shares ord then (EC_ok, take_shares m ref ord shares) else (EC_invalid_state, m))"

definition spec_delete :: "u64 \<Rightarrow> order_map \<Rightarrow> error_code \<times> order_map" where
  "spec_delete ref m = (if ref \<in> dom m then (EC_ok, m(ref := None)) else (EC_not_found, m))"

definition spec_replace :: "u64 \<Rightarrow> u64 \<Rightarrow> u32 \<Rightarrow> u32 \<Rightarrow> order_map \<Rightarrow> error_code \<times> order_map" where
  "spec_replace old_ref new_ref shares price m =
     (case m old_ref of
        None \<Rightarrow> (EC_not_found, m)
      | Some old \<Rightarrow>
          if shares = 0 \<or> price = 0 then (EC_invalid_argument, m)
          else if new_ref \<in> dom m then (EC_duplicate, m)
          else if new_ref = 0 then (EC_invalid_argument, m(old_ref := None))
          else (EC_ok, m(old_ref := None, new_ref \<mapsto>
            \<lparr>ro_order_reference_number = new_ref, ro_side = ro_side old, ro_shares = shares, ro_price = price\<rparr>)))"

fun spec_apply :: "instrument_key \<Rightarrow> stock_symbol \<Rightarrow> message \<Rightarrow> order_map \<Rightarrow> error_code \<times> order_map" where
  "spec_apply key stock (AddOrderNoMpid a) m = spec_header key (ao_header a) m
     (spec_add (ao_order_reference_number a) (ao_side a) (ao_shares a) (ao_price a) (ao_stock a = stock) m)"
| "spec_apply key stock (AddOrderWithMpid a) m = spec_header key (am_header a) m
     (spec_add (am_order_reference_number a) (am_side a) (am_shares a) (am_price a) (am_stock a = stock) m)"
| "spec_apply key stock (OrderExecuted a) m = spec_header key (oe_header a) m
     (spec_take (oe_order_reference_number a) (oe_executed_shares a) m)"
| "spec_apply key stock (OrderExecutedWithPrice a) m = spec_header key (op_header a) m
     (spec_take (op_order_reference_number a) (op_executed_shares a) m)"
| "spec_apply key stock (OrderCancel a) m = spec_header key (oc_header a) m
     (spec_take (oc_order_reference_number a) (oc_cancelled_shares a) m)"
| "spec_apply key stock (OrderDelete a) m = spec_header key (od_header a) m
     (spec_delete (od_order_reference_number a) m)"
| "spec_apply key stock (OrderReplace a) m = spec_header key (orp_header a) m
     (spec_replace (orp_original_order_reference_number a) (orp_new_order_reference_number a)
        (orp_shares a) (orp_price a) m)"
| "spec_apply key stock _ m = (EC_ok, m)"

text \<open>A handler refines a specification when it answers with the specified error code and order map, and
  hands back the very same book, ladders included, when it refuses and the specification keeps the orders.\<close>

definition refines :: "symbol_order_book \<Rightarrow> error_code \<times> symbol_order_book \<Rightarrow> error_code \<times> order_map \<Rightarrow> bool" where
  "refines book r spec \<longleftrightarrow> (fst r, sob_orders (snd r)) = spec
     \<and> (fst r \<noteq> EC_ok \<longrightarrow> sob_orders (snd r) = sob_orders book \<longrightarrow> snd r = book)"

lemma require_matching_header_ok: "require_matching_header book h = EC_ok \<longleftrightarrow> header_for (sob_key book) h"
  by (simp add: require_matching_header_def header_for_def)

lemma refines_with_header:
  "refines book r spec \<Longrightarrow> refines book (with_header book h r) (spec_header (sob_key book) h (sob_orders book) spec)"
  by (auto simp: with_header_def refines_def require_matching_header_def header_for_def spec_header_def)

lemmas order_field_defs = is_valid_order_reference_number_def is_valid_shares_def is_valid_price4_def

lemma refines_add_order:
  "refines book (add_order book ref side shares stock price)
     (spec_add ref side shares price (stock = sob_stock book) (sob_orders book))"
  by (auto simp: refines_def add_order_def spec_add_def require_matching_stock_def contains_order_def
    order_field_defs word_gt_0 Let_def)

lemma refines_reduce_order:
  "refines book (reduce_order book ref shares) (spec_take ref shares (sob_orders book))"
proof (cases "sob_orders book ref")
  case (Some ord)
  then show ?thesis
    by (cases "0 < shares \<and> shares \<le> ro_shares ord")
       (auto simp: refines_def spec_take_def reduce_order_take word_gt_0,
        auto simp: reduce_order_def is_valid_shares_def not_le word_gt_0 split: if_splits)
qed (simp add: refines_def spec_take_def reduce_order_def is_valid_shares_def word_gt_0)

lemma refines_delete_order: "refines book (delete_order book ref) (spec_delete ref (sob_orders book))"
  by (cases "sob_orders book ref") (auto simp: refines_def spec_delete_def delete_order_def Let_def)

lemma refines_replace_order:
  "refines book (replace_order book msg)
     (spec_replace (orp_original_order_reference_number msg) (orp_new_order_reference_number msg)
        (orp_shares msg) (orp_price msg) (sob_orders book))"
proof (cases "sob_orders book (orp_original_order_reference_number msg)")
  case (Some old)
  have changed: "(sob_orders book)(orp_original_order_reference_number msg := None) \<noteq> sob_orders book"
    using Some by (metis fun_upd_same option.distinct(1))
  from Some show ?thesis using changed
    by (auto simp: refines_def spec_replace_def replace_order_def add_order_def require_matching_stock_def
       contains_order_def order_field_defs word_gt_0 Let_def)
qed (simp add: refines_def spec_replace_def replace_order_def)

lemma refines_apply_message:
  "refines book (apply_message book message) (spec_apply (sob_key book) (sob_stock book) message (sob_orders book))"
  by (cases message)
     (simp_all add: refines_with_header refines_add_order refines_reduce_order refines_delete_order
       refines_replace_order, simp_all add: refines_def)

lemma spec_apply_refused:
  assumes "fst (spec_apply key stock message m) \<noteq> EC_ok"
    and "\<And>a. message = OrderReplace a \<Longrightarrow> orp_new_order_reference_number a \<noteq> 0"
  shows "snd (spec_apply key stock message m) = m"
  using assms by (cases message)
    (auto simp: spec_header_def spec_add_def spec_take_def spec_delete_def spec_replace_def split: option.splits if_splits)

section \<open>Best prices\<close>

context price_order
begin

lemma side_inv_best:
  assumes inv: "side_inv before m s levels" and le: "\<And>p q. p = q \<or> before p q \<Longrightarrow> le p q"
  shows "case map_option (\<lambda>(price, state). make_level price state) (om_begin levels) of
      None \<Rightarrow> \<forall>p. at_level m s p = {}
    | Some lv \<Rightarrow> \<exists>p. lv_price lv = uint p \<and> at_level m s p \<noteq> {}
        \<and> unat (lv_quantity lv) = shares_at m s p
        \<and> unat (lv_order_count lv) = card (at_level m s p)
        \<and> (\<forall>q. at_level m s q \<noteq> {} \<longrightarrow> le p q)"
proof (cases "om_begin levels")
  case None
  from inv have "at_level m s p = {}" for p
    using om_begin_None [THEN iffD1, OF None] by (simp add: side_inv_def level_ok_def)
  with None show ?thesis by simp
next
  case (Some e)
  obtain p st where e: "e = (p, st)" by (cases e)
  have lv: "level_ok m s q (om_find levels q)" for q using inv by (simp add: side_inv_def)
  have first: "om_find levels p = Some st" "\<And>q. om_find levels q \<noteq> None \<Longrightarrow> q \<noteq> p \<Longrightarrow> before p q"
    using om_begin_first [of levels p st] inv Some e by (auto simp: side_inv_def)
  have "om_find levels q \<noteq> None" if "at_level m s q \<noteq> {}" for q
    using lv [of q] that by (auto simp: level_ok_def)
  then have "\<forall>q. at_level m s q \<noteq> {} \<longrightarrow> le p q" using first(2) le by blast
  then show ?thesis using lv [of p] first(1) Some e
    by (auto simp: level_ok_def make_level_def intro!: exI [of _ p])
qed

end


section \<open>Properties\<close>

definition sample_key :: instrument_key where
  "sample_key = \<lparr>ik_venue_id = 1, ik_stock_locate = 12\<rparr>"

definition sample_book_add :: "u64 \<Rightarrow> side \<Rightarrow> u32 \<Rightarrow> u32 \<Rightarrow> message" where
  "sample_book_add ref s shares price = AddOrderNoMpid
     \<lparr>ao_header = \<lparr>hdr_stock_locate = 12, hdr_tracking_number = 1, hdr_timestamp_ns = 34200000000000\<rparr>,
      ao_order_reference_number = ref, ao_side = s, ao_shares = shares, ao_stock = ''AAPL    '', ao_price = price\<rparr>"

definition sample_book :: symbol_order_book where
  "sample_book = snd (apply_message (snd (apply_message (snd (apply_message
     (new_symbol_order_book sample_key ''AAPL    '') (sample_book_add 7 Buy 100 1500)))
     (sample_book_add 8 Buy 50 1500))) (sample_book_add 9 Buy 10 1400))"

definition sample_replace :: "u64 \<Rightarrow> order_replace_message" where
  "sample_replace ref =
     \<lparr>orp_header = \<lparr>hdr_stock_locate = 12, hdr_tracking_number = 1, hdr_timestamp_ns = 34200000000000\<rparr>,
      orp_original_order_reference_number = 7, orp_new_order_reference_number = ref,
      orp_shares = 30, orp_price = 1600\<rparr>"

lemmas sample_book_simps = sample_book_def sample_key_def sample_book_add_def sample_replace_def
  new_symbol_order_book_def with_header_def require_matching_header_def require_matching_stock_def
  is_valid_instrument_key_def is_valid_venue_id_def invalid_venue_id_def is_valid_stock_locate_def is_valid_timestamp_ns_def
  max_timestamp_ns_since_midnight_def order_field_defs add_order_def add_to_level_def add_to_side_def
  contains_order_def order_count_def om_find_def Let_def

lemma sample_book_orders:
  "sob_orders sample_book = [7 \<mapsto> \<lparr>ro_order_reference_number = 7, ro_side = Buy, ro_shares = 100, ro_price = 1500\<rparr>,
     8 \<mapsto> \<lparr>ro_order_reference_number = 8, ro_side = Buy, ro_shares = 50, ro_price = 1500\<rparr>,
     9 \<mapsto> \<lparr>ro_order_reference_number = 9, ro_side = Buy, ro_shares = 10, ro_price = 1400\<rparr>]"
  by (simp add: sample_book_simps)

lemma sample_replace_fields:
  "orp_original_order_reference_number (sample_replace ref) = 7"
  "orp_new_order_reference_number (sample_replace ref) = ref"
  "orp_shares (sample_replace ref) = 30" "orp_price (sample_replace ref) = 1600"
  by (simp_all add: sample_replace_def)

lemma sample_replace_header: "header_for (sob_key sample_book) (orp_header (sample_replace ref))"
  by (simp add: sample_book_simps header_for_def)

lemma sample_book_reachable: "reachable_book sample_key ''AAPL    '' sample_book"
  unfolding sample_book_def by (intro reachable_apply reachable_new) (simp_all add: sample_book_simps)

text \<open>
  C1: In every book reachable from an empty one by applying ITCH messages (while fewer than \<open>2^32\<close> orders
  rest), the price ladders are sorted and every level holds exactly the total shares and the number of the
  resting orders at its price and side, with no level for a price without orders.\<close>

theorem book_levels_exact:
  assumes "reachable_book key stock book"
  shows "om_sorted (>) (sob_bids book) \<and> om_sorted (<) (sob_asks book)
    \<and> (\<forall>p. level_ok (sob_orders book) Buy p (om_find (sob_bids book) p)
        \<and> level_ok (sob_orders book) Sell p (om_find (sob_asks book) p))"
  using reachable_book_inv [OF assms] by (simp add: book_inv_def side_inv_def)

theorem book_levels_exact_witness:
  "level_ok (sob_orders sample_book) Buy 1500 (om_find (sob_bids sample_book) 1500)
   \<and> level_ok (sob_orders sample_book) Sell 1500 (om_find (sob_asks sample_book) 1500)"
  using book_levels_exact [OF sample_book_reachable] by simp

text \<open>The best quote of a side: nothing when no order rests there, else the exact level at the best price.\<close>

definition best_exact :: "(u64 \<rightharpoonup> resting_order) \<Rightarrow> side \<Rightarrow> (u32 \<Rightarrow> u32 \<Rightarrow> bool) \<Rightarrow> level option \<Rightarrow> bool" where
  "best_exact orders s at_least_as_good best \<longleftrightarrow> (case best of
      None \<Rightarrow> \<forall>p. at_level orders s p = {}
    | Some lv \<Rightarrow> \<exists>p. lv_price lv = uint p \<and> at_level orders s p \<noteq> {}
        \<and> unat (lv_quantity lv) = shares_at orders s p
        \<and> unat (lv_order_count lv) = card (at_level orders s p)
        \<and> (\<forall>q. at_level orders s q \<noteq> {} \<longrightarrow> at_least_as_good p q))"

text \<open>
  C5: In a reachable book \<open>best_bid\<close> is empty exactly when no buy order rests; otherwise it shows the highest
  price of a resting buy order, with the exact total of shares and orders there. The same holds for \<open>best_ask\<close>,
  the sell orders and the lowest price.\<close>

theorem best_quotes_correct:
  assumes "reachable_book key stock book"
  shows "best_exact (sob_orders book) Buy (\<ge>) (best_bid book) \<and> best_exact (sob_orders book) Sell (\<le>) (best_ask book)"
proof -
  have inv: "book_inv book" by (rule reachable_book_inv [OF assms])
  have "best_exact (sob_orders book) Buy (\<ge>) (best_bid book)"
    unfolding best_exact_def best_bid_def using inv by (intro bid_side.side_inv_best) (auto simp: book_inv_def)
  moreover have "best_exact (sob_orders book) Sell (\<le>) (best_ask book)"
    unfolding best_exact_def best_ask_def using inv by (intro ask_side.side_inv_best) (auto simp: book_inv_def)
  ultimately show ?thesis by simp
qed

theorem best_quotes_correct_witness:
  "map_option lv_price (best_bid sample_book) = Some 1500 \<and> best_ask sample_book = None
   \<and> (case best_bid sample_book of None \<Rightarrow> False
      | Some lv \<Rightarrow> \<exists>p. lv_price lv = uint p \<and> unat (lv_quantity lv) = shares_at (sob_orders sample_book) Buy p)
   \<and> at_level (sob_orders sample_book) Sell 1500 = {}"
proof -
  have "map_option lv_price (best_bid sample_book) = Some 1500" "best_ask sample_book = None"
    by (simp_all add: sample_book_simps best_bid_def best_ask_def om_begin_def make_level_def)
  then show ?thesis
    using best_quotes_correct [OF sample_book_reachable] by (auto simp: best_exact_def split: option.splits)
qed

text \<open>
  C2: \<open>apply\<close> refines the order-map specification \<open>spec_apply\<close> on every book and every message: it answers with
  exactly the specified error code (\<open>invalid_state\<close> or \<open>invalid_argument\<close> for a header of another instrument or
  an invalid one, \<open>invalid_argument\<close>, \<open>not_found\<close>, \<open>duplicate\<close> and \<open>invalid_state\<close> for the refusals of the
  operations) and with exactly the specified live orders. A refused message hands back the same book, except a
  replacement by reference number 0, which the specification says removes the original order.\<close>

theorem book_refines_order_map:
  "(fst (apply_message book message), sob_orders (snd (apply_message book message)))
     = spec_apply (sob_key book) (sob_stock book) message (sob_orders book)
   \<and> (fst (apply_message book message) \<noteq> EC_ok
       \<longrightarrow> sob_orders (snd (apply_message book message)) = sob_orders book
       \<longrightarrow> snd (apply_message book message) = book)"
  using refines_apply_message [of book message] by (simp add: refines_def)

theorem book_refines_order_map_witness:
  "fst (apply_message sample_book (OrderReplace (sample_replace 11))) = EC_ok
   \<and> sob_orders (snd (apply_message sample_book (OrderReplace (sample_replace 11)))) 11
     = Some \<lparr>ro_order_reference_number = 11, ro_side = Buy, ro_shares = 30, ro_price = 1600\<rparr>
   \<and> fst (apply_message sample_book (OrderReplace (sample_replace 8))) = EC_duplicate
   \<and> snd (apply_message sample_book (OrderReplace (sample_replace 8))) = sample_book"
  using book_refines_order_map [of sample_book "OrderReplace (sample_replace 11)"]
    book_refines_order_map [of sample_book "OrderReplace (sample_replace 8)"]
  by (simp add: sample_replace_header sample_book_orders sample_replace_fields spec_header_def spec_replace_def)

text \<open>
  C35: A replacement that names reference number 0 as its new order is refused with \<open>invalid_argument\<close>, yet the
  original order has already left the book: the error path is not atomic.\<close>

theorem replace_by_zero_loses_order:
  assumes "header_for (sob_key book) (orp_header msg)" "orp_new_order_reference_number msg = 0"
    and "is_valid_shares (orp_shares msg)" "is_valid_price4 (orp_price msg)"
    and "sob_orders book (orp_original_order_reference_number msg) = Some old" "sob_orders book 0 = None"
  shows "fst (apply_message book (OrderReplace msg)) = EC_invalid_argument
    \<and> sob_orders (snd (apply_message book (OrderReplace msg)))
      = (sob_orders book)(orp_original_order_reference_number msg := None)"
  using assms
  by (simp add: with_header_def require_matching_header_ok replace_order_def contains_order_def Let_def
    add_order_def is_valid_order_reference_number_def)

theorem replace_by_zero_loses_order_witness:
  "fst (apply_message sample_book (OrderReplace (sample_replace 0))) = EC_invalid_argument
   \<and> sob_orders sample_book 7 \<noteq> None
   \<and> sob_orders (snd (apply_message sample_book (OrderReplace (sample_replace 0)))) 7 = None"
  using replace_by_zero_loses_order [OF sample_replace_header, of 0]
  by (simp add: sample_book_orders sample_replace_fields order_field_defs)

end
