(* ===== verification/Venue_Book.thy ===== *)
theory Venue_Book
  imports Order_Book
begin

text \<open>
  Books across venues and the normalised best bid and offer: \<^verbatim>\<open>src/book/venue_book.cpp\<close>,
  \<^verbatim>\<open>src/book/multi_venue_book.cpp\<close> and \<^verbatim>\<open>src/bbo/normalized_bbo.cpp\<close> with their headers.

  The books hold a pointer to an instrument directory that the feed handler keeps updating. The
  directory is therefore an argument of the operations, \<^const>\<open>None\<close> standing for the null pointer the
  code guards against. \<open>market_inv\<close> is the invariant of directory and books together.
\<close>

section \<open>Quotes\<close>

record quote =
  q_key :: instrument_key
  q_symbol :: canonical_symbol
  q_price :: int
  q_quantity :: u64
  q_order_count :: u64

record bbo =
  bbo_symbol :: canonical_symbol
  bbo_bid :: "quote option"
  bbo_ask :: "quote option"

section \<open>One venue\<close>

record venue_book =
  vb_venue_id :: venue_id
  vb_books :: "u16 \<rightharpoonup> symbol_order_book"

definition new_venue_book :: "venue_id \<Rightarrow> venue_book" where
  "new_venue_book venue = \<lparr>vb_venue_id = venue, vb_books = Map.empty\<rparr>"

fun affects_order_book :: "message \<Rightarrow> bool" where
  "affects_order_book (AddOrderNoMpid m) = True"
| "affects_order_book (AddOrderWithMpid m) = True"
| "affects_order_book (OrderExecuted m) = True"
| "affects_order_book (OrderExecutedWithPrice m) = True"
| "affects_order_book (OrderCancel m) = True"
| "affects_order_book (OrderDelete m) = True"
| "affects_order_book (OrderReplace m) = True"
| "affects_order_book _ = False"

fun message_header :: "message \<Rightarrow> header" where
  "message_header (SystemEvent m) = se_header m"
| "message_header (StockDirectory m) = sd_header m"
| "message_header (StockTradingAction m) = ta_header m"
| "message_header (AddOrderNoMpid m) = ao_header m"
| "message_header (AddOrderWithMpid m) = am_header m"
| "message_header (OrderExecuted m) = oe_header m"
| "message_header (OrderExecutedWithPrice m) = op_header m"
| "message_header (OrderCancel m) = oc_header m"
| "message_header (OrderDelete m) = od_header m"
| "message_header (OrderReplace m) = orp_header m"
| "message_header (TradeNonCross m) = tn_header m"
| "message_header (CrossTrade m) = ct_header m"
| "message_header (BrokenTrade m) = bt_header m"

definition stock_locate_from :: "message \<Rightarrow> u16" where
  "stock_locate_from message = hdr_stock_locate (message_header message)"

definition metadata_for :: "instrument_directory option \<Rightarrow> venue_book \<Rightarrow> u16 \<Rightarrow> instrument_metadata option" where
  "metadata_for dir vb locate =
     (case dir of None \<Rightarrow> None | Some d \<Rightarrow> find_instrument_at d (vb_venue_id vb) locate)"

text \<open>\<^verbatim>\<open>get_or_create_book\<close> returns the book and the venue with that book in place.\<close>

definition get_or_create_book :: "venue_book \<Rightarrow> instrument_metadata \<Rightarrow> symbol_order_book \<times> venue_book" where
  "get_or_create_book vb md =
     (let locate = ik_stock_locate (im_key md) in
      case vb_books vb locate of
        Some book \<Rightarrow> (book, vb)
      | None \<Rightarrow>
          let book = new_symbol_order_book (im_key md) (im_stock md)
          in (book, vb\<lparr>vb_books := (vb_books vb)(locate \<mapsto> book)\<rparr>))"

definition venue_apply ::
  "instrument_directory option \<Rightarrow> venue_book \<Rightarrow> message \<Rightarrow> error_code \<times> venue_book" where
  "venue_apply dir vb message =
     (if \<not> is_valid_venue_id (vb_venue_id vb) \<or> dir = None then (EC_invalid_state, vb)
      else if \<not> affects_order_book message then (EC_ok, vb)
      else case metadata_for dir vb (stock_locate_from message) of
        None \<Rightarrow> (EC_not_found, vb)
      | Some md \<Rightarrow>
          let (book, vb1) = get_or_create_book vb md;
              (error, book1) = apply_message book message
          in (error, vb1\<lparr>vb_books := (vb_books vb1)(ik_stock_locate (im_key md) \<mapsto> book1)\<rparr>))"

definition make_quote :: "instrument_metadata \<Rightarrow> level \<Rightarrow> quote" where
  "make_quote md lv =
     \<lparr>q_key = im_key md, q_symbol = \<lparr>cs_stock = im_stock md\<rparr>, q_price = lv_price lv,
      q_quantity = lv_quantity lv, q_order_count = lv_order_count lv\<rparr>"

definition venue_quote ::
  "(symbol_order_book \<Rightarrow> level option) \<Rightarrow> instrument_directory option \<Rightarrow> venue_book \<Rightarrow> instrument_key \<Rightarrow> quote option" where
  "venue_quote best dir vb key =
     (if ik_venue_id key \<noteq> vb_venue_id vb then None
      else case vb_books vb (ik_stock_locate key) of
        None \<Rightarrow> None
      | Some book \<Rightarrow>
          (case best book of
             None \<Rightarrow> None
           | Some lv \<Rightarrow>
               (case metadata_for dir vb (ik_stock_locate key) of
                  None \<Rightarrow> None
                | Some md \<Rightarrow> Some (make_quote md lv))))"

definition venue_best_bid :: "instrument_directory option \<Rightarrow> venue_book \<Rightarrow> instrument_key \<Rightarrow> quote option" where
  "venue_best_bid = venue_quote best_bid"

definition venue_best_ask :: "instrument_directory option \<Rightarrow> venue_book \<Rightarrow> instrument_key \<Rightarrow> quote option" where
  "venue_best_ask = venue_quote best_ask"

definition contains_symbol :: "venue_book \<Rightarrow> u16 \<Rightarrow> bool" where
  "contains_symbol vb locate \<longleftrightarrow> vb_books vb locate \<noteq> None"

definition symbol_count :: "venue_book \<Rightarrow> nat" where
  "symbol_count vb = card (dom (vb_books vb))"

section \<open>All venues\<close>

type_synonym multi_venue_book = "venue_id \<rightharpoonup> venue_book"

definition add_venue ::
  "instrument_directory option \<Rightarrow> multi_venue_book \<Rightarrow> venue_id \<Rightarrow> error_code \<times> multi_venue_book" where
  "add_venue dir mvb venue =
     (if \<not> is_valid_venue_id venue \<or> dir = None then (EC_invalid_argument, mvb)
      else if mvb venue \<noteq> None then (EC_duplicate, mvb)
      else (EC_ok, mvb(venue \<mapsto> new_venue_book venue)))"

definition multi_venue_apply ::
  "instrument_directory option \<Rightarrow> multi_venue_book \<Rightarrow> venue_id \<Rightarrow> message \<Rightarrow> error_code \<times> multi_venue_book" where
  "multi_venue_apply dir mvb venue message =
     (case mvb venue of
        None \<Rightarrow> (EC_not_found, mvb)
      | Some vb \<Rightarrow> let (error, vb1) = venue_apply dir vb message in (error, mvb(venue \<mapsto> vb1)))"

definition multi_venue_best_bid ::
  "instrument_directory option \<Rightarrow> multi_venue_book \<Rightarrow> instrument_key \<Rightarrow> quote option" where
  "multi_venue_best_bid dir mvb key =
     (case mvb (ik_venue_id key) of None \<Rightarrow> None | Some vb \<Rightarrow> venue_best_bid dir vb key)"

definition multi_venue_best_ask ::
  "instrument_directory option \<Rightarrow> multi_venue_book \<Rightarrow> instrument_key \<Rightarrow> quote option" where
  "multi_venue_best_ask dir mvb key =
     (case mvb (ik_venue_id key) of None \<Rightarrow> None | Some vb \<Rightarrow> venue_best_ask dir vb key)"

definition bids :: "instrument_directory option \<Rightarrow> multi_venue_book \<Rightarrow> canonical_symbol \<Rightarrow> quote list" where
  "bids dir mvb symbol =
     (case dir of None \<Rightarrow> []
      | Some d \<Rightarrow> List.map_filter (multi_venue_best_bid dir mvb) (instruments_for_symbol d symbol))"

definition asks :: "instrument_directory option \<Rightarrow> multi_venue_book \<Rightarrow> canonical_symbol \<Rightarrow> quote list" where
  "asks dir mvb symbol =
     (case dir of None \<Rightarrow> []
      | Some d \<Rightarrow> List.map_filter (multi_venue_best_ask dir mvb) (instruments_for_symbol d symbol))"

definition contains_venue :: "multi_venue_book \<Rightarrow> venue_id \<Rightarrow> bool" where
  "contains_venue mvb venue \<longleftrightarrow> mvb venue \<noteq> None"

definition venue_count :: "multi_venue_book \<Rightarrow> nat" where
  "venue_count mvb = card (dom mvb)"

section \<open>The normalised view\<close>

definition is_better_bid :: "quote \<Rightarrow> quote \<Rightarrow> bool" where
  "is_better_bid candidate current =
     (if q_price candidate \<noteq> q_price current then q_price candidate > q_price current
      else if q_quantity candidate \<noteq> q_quantity current then q_quantity candidate > q_quantity current
      else ik_venue_id (q_key candidate) < ik_venue_id (q_key current))"

definition is_better_ask :: "quote \<Rightarrow> quote \<Rightarrow> bool" where
  "is_better_ask candidate current =
     (if q_price candidate \<noteq> q_price current then q_price candidate < q_price current
      else if q_quantity candidate \<noteq> q_quantity current then q_quantity candidate > q_quantity current
      else ik_venue_id (q_key candidate) < ik_venue_id (q_key current))"

fun pick_best :: "(quote \<Rightarrow> quote \<Rightarrow> bool) \<Rightarrow> quote option \<Rightarrow> quote list \<Rightarrow> quote option" where
  "pick_best better best [] = best"
| "pick_best better best (q # qs) =
     pick_best better
       (case best of None \<Rightarrow> Some q | Some b \<Rightarrow> if better q b then Some q else Some b) qs"

text \<open>The view's pointer to the books is \<^const>\<open>None\<close> when null.\<close>

definition normalized_bbo ::
  "instrument_directory option \<Rightarrow> multi_venue_book option \<Rightarrow> canonical_symbol \<Rightarrow> bbo" where
  "normalized_bbo dir books symbol =
     (case books of
        None \<Rightarrow> \<lparr>bbo_symbol = symbol, bbo_bid = None, bbo_ask = None\<rparr>
      | Some mvb \<Rightarrow>
          \<lparr>bbo_symbol = symbol,
           bbo_bid = pick_best is_better_bid None (bids dir mvb symbol),
           bbo_ask = pick_best is_better_ask None (asks dir mvb symbol)\<rparr>)"

section \<open>Picking the best quote\<close>

locale quote_ranking =
  fixes better :: "quote \<Rightarrow> quote \<Rightarrow> bool"
  assumes asym: "better a b \<Longrightarrow> \<not> better b a"
    and neg_trans: "\<not> better a b \<Longrightarrow> \<not> better b c \<Longrightarrow> \<not> better a c"
begin

lemma pick_best_None: "pick_best better best qs = None \<longleftrightarrow> best = None \<and> qs = []"
  by (induction qs arbitrary: best) (auto split: option.splits)

lemma pick_best_Some:
  "pick_best better best qs = Some q \<Longrightarrow>
   (q \<in> set qs \<or> best = Some q) \<and> (\<forall>x \<in> set qs \<union> set_option best. \<not> better x q)"
proof (induction qs arbitrary: best)
  case Nil
  then show ?case using asym by auto
next
  case (Cons x xs)
  show ?case
  proof (cases best)
    case None
    with Cons show ?thesis by fastforce
  next
    case (Some b)
    with Cons.prems have "pick_best better (Some (if better x b then x else b)) xs = Some q"
      by (auto split: if_splits)
    from Cons.IH [OF this]
    have q: "q \<in> set xs \<or> q = (if better x b then x else b)" "\<forall>y \<in> set xs. \<not> better y q"
      "\<not> better (if better x b then x else b) q" by auto
    have "\<not> better x q \<and> \<not> better b q"
      using q(3) asym [of x b] neg_trans [of b x q] neg_trans [of x b q] by (cases "better x b") auto
    with q Some show ?thesis by (auto split: if_splits)
  qed
qed

end

interpretation bid_ranking: quote_ranking is_better_bid
  by unfold_locales (auto simp: is_better_bid_def split: if_splits)

interpretation ask_ranking: quote_ranking is_better_ask
  by unfold_locales (auto simp: is_better_ask_def split: if_splits)

section \<open>The invariant of directory and books\<close>

definition books_at :: "multi_venue_book \<Rightarrow> instrument_key \<rightharpoonup> symbol_order_book" where
  "books_at mvb key = Option.bind (mvb (ik_venue_id key)) (\<lambda>vb. vb_books vb (ik_stock_locate key))"

text \<open>At most \<open>k\<close> orders rest in any one book.\<close>

definition market_inv :: "nat \<Rightarrow> instrument_directory \<Rightarrow> multi_venue_book \<Rightarrow> bool" where
  "market_inv k dir mvb \<longleftrightarrow>
     dir_inv dir
     \<and> (\<forall>v vb. mvb v = Some vb \<longrightarrow> vb_venue_id vb = v)
     \<and> (\<forall>key book. books_at mvb key = Some book \<longrightarrow>
          book_inv book \<and> order_count book \<le> k \<and> sob_key book = key
          \<and> (\<exists>md. find_instrument dir key = Some md \<and> im_stock md = sob_stock book))"

lemma market_inv_empty: "dir_inv dir \<Longrightarrow> market_inv k dir Map.empty"
  by (simp add: market_inv_def books_at_def)

lemma market_inv_mono: "market_inv k dir mvb \<Longrightarrow> k \<le> k' \<Longrightarrow> market_inv k' dir mvb"
  unfolding market_inv_def by (meson le_trans)

lemma books_at_add_venue: "mvb v = None \<Longrightarrow> books_at (mvb(v \<mapsto> new_venue_book v)) = books_at mvb"
  by (auto simp: books_at_def new_venue_book_def fun_eq_iff)

lemma market_inv_add_venue:
  "market_inv k dir mvb \<Longrightarrow> market_inv k dir (snd (add_venue d mvb v))"
  by (auto simp: add_venue_def market_inv_def books_at_add_venue, simp add: new_venue_book_def)

text \<open>Directory updates never change the stock of a listed instrument.\<close>

lemma stock_stable_directory:
  assumes "find_instrument dir key = Some md"
  shows "\<exists>md'. find_instrument (snd (apply_stock_directory dir v m)) key = Some md' \<and> im_stock md' = im_stock md"
  using assms by (auto simp: apply_stock_directory_def find_instrument_def Let_def split: option.splits)

lemma stock_stable_trading_action:
  assumes "find_instrument dir key = Some md"
  shows "\<exists>md'. find_instrument (snd (apply_stock_trading_action dir v m)) key = Some md' \<and> im_stock md' = im_stock md"
  using assms by (auto simp: apply_stock_trading_action_def find_instrument_def Let_def split: option.splits)

lemma market_inv_directory:
  assumes "market_inv k dir mvb"
    and "dir_inv dir'" and stable: "\<And>key md. find_instrument dir key = Some md \<Longrightarrow>
      \<exists>md'. find_instrument dir' key = Some md' \<and> im_stock md' = im_stock md"
  shows "market_inv k dir' mvb"
  unfolding market_inv_def
proof (intro conjI allI impI)
  fix key book assume "books_at mvb key = Some book"
  with assms(1) obtain md where "find_instrument dir key = Some md" "im_stock md = sob_stock book"
    "book_inv book" "order_count book \<le> k" "sob_key book = key" unfolding market_inv_def by blast
  with stable [of key md] show "book_inv book" "order_count book \<le> k" "sob_key book = key"
    "\<exists>md. find_instrument dir' key = Some md \<and> im_stock md = sob_stock book" by auto
qed (use assms in \<open>auto simp: market_inv_def\<close>)

subsection \<open>One message grows a book by at most one order\<close>

lemma order_count_subset:
  assumes "finite (dom (sob_orders book))" "dom (sob_orders book') \<subseteq> insert r (dom (sob_orders book))"
  shows "order_count book' \<le> Suc (order_count book)"
proof -
  have "card (dom (sob_orders book')) \<le> card (insert r (dom (sob_orders book)))"
    using assms by (intro card_mono) auto
  also have "\<dots> \<le> Suc (card (dom (sob_orders book)))" by (rule card_insert_le_m1) auto
  finally show ?thesis by (simp add: order_count_def)
qed

lemma dom_add_order:
  "dom (sob_orders (snd (add_order book ref side shares stock price))) \<subseteq> insert ref (dom (sob_orders book))"
  by (auto simp: add_order_def Let_def split: if_splits)

lemma dom_reduce_order: "dom (sob_orders (snd (reduce_order book ref shares))) \<subseteq> dom (sob_orders book)"
  by (auto simp: reduce_order_def Let_def split: if_splits option.splits)

lemma dom_delete_order: "dom (sob_orders (snd (delete_order book ref))) \<subseteq> dom (sob_orders book)"
  by (auto simp: delete_order_def Let_def split: if_splits option.splits)

lemma dom_replace_order:
  "dom (sob_orders (snd (replace_order book m))) \<subseteq>
   insert (orp_new_order_reference_number m) (dom (sob_orders book))"
  by (auto simp: replace_order_def add_order_def Let_def split: if_splits option.splits)

lemma dom_with_header:
  "dom (sob_orders (snd r)) \<subseteq> insert x (dom (sob_orders book)) \<Longrightarrow>
   \<exists>x. dom (sob_orders (snd (with_header book h r))) \<subseteq> insert x (dom (sob_orders book))"
  by (auto simp: with_header_def)

lemma dom_apply_message:
  "\<exists>r. dom (sob_orders (snd (apply_message book m))) \<subseteq> insert r (dom (sob_orders book))"
  by (cases m; simp; (blast | rule dom_with_header, (rule dom_add_order dom_replace_order
    dom_reduce_order [THEN subset_insertI2] dom_delete_order [THEN subset_insertI2])))

lemma order_count_apply_message:
  "book_inv book \<Longrightarrow> order_count (snd (apply_message book m)) \<le> Suc (order_count book)"
  using dom_apply_message [of book m] order_count_subset
  by (auto simp: book_inv_def orders_wf_def)

subsection \<open>Applying a message\<close>

lemma venue_apply_cases:
  obtains e where "venue_apply (Some dir) vb m = (e, vb)"
  | md book e book' where
      "find_instrument dir \<lparr>ik_venue_id = vb_venue_id vb, ik_stock_locate = stock_locate_from m\<rparr> = Some md"
      "vb_books vb (ik_stock_locate (im_key md)) = Some book
        \<or> book = new_symbol_order_book (im_key md) (im_stock md)"
      "apply_message book m = (e, book')"
      "venue_apply (Some dir) vb m =
        (e, vb\<lparr>vb_books := (vb_books vb)(ik_stock_locate (im_key md) \<mapsto> book')\<rparr>)"
proof (cases "is_valid_venue_id (vb_venue_id vb) \<and> affects_order_book m
    \<and> metadata_for (Some dir) vb (stock_locate_from m) \<noteq> None")
  case False
  then have "\<exists>e. venue_apply (Some dir) vb m = (e, vb)" by (auto simp: venue_apply_def)
  then show ?thesis using that(1) by blast
next
  case True
  then obtain md where md: "metadata_for (Some dir) vb (stock_locate_from m) = Some md" by blast
  define book where "book = fst (get_or_create_book vb md)"
  obtain e book' where app: "apply_message book m = (e, book')" by (cases "apply_message book m")
  have "venue_apply (Some dir) vb m = (e, vb\<lparr>vb_books := (vb_books vb)(ik_stock_locate (im_key md) \<mapsto> book')\<rparr>)"
    using True md app by (auto simp: venue_apply_def book_def get_or_create_book_def Let_def split: option.splits)
  with md app show ?thesis
    by (intro that(2) [of md book e book'])
       (auto simp: metadata_for_def find_instrument_at_def book_def get_or_create_book_def Let_def split: option.splits)
qed

lemma market_inv_apply:
  assumes inv: "market_inv k dir mvb" and k: "k < 2 ^ 32"
  shows "market_inv (Suc k) dir (snd (multi_venue_apply (Some dir) mvb v m))"
proof (cases "mvb v")
  case None
  with inv show ?thesis by (auto simp: multi_venue_apply_def elim: market_inv_mono)
next
  case (Some vb)
  note vb = this
  from inv vb have v: "vb_venue_id vb = v" by (auto simp: market_inv_def)
  show ?thesis
  proof (cases rule: venue_apply_cases [of dir vb m])
    case (1 e)
    with vb inv show ?thesis by (auto simp: multi_venue_apply_def fun_upd_idem intro: market_inv_mono)
  next
    case (2 md book e book')
    let ?key = "\<lparr>ik_venue_id = v, ik_stock_locate = stock_locate_from m\<rparr>"
    have key: "im_key md = ?key" using directory.lookup_key [of dir ?key md] inv 2(1) v by (simp add: market_inv_def)
    have book: "book_inv book \<and> order_count book \<le> k \<and> sob_key book = ?key \<and> sob_stock book = im_stock md"
      using 2(2)
    proof
      assume "vb_books vb (ik_stock_locate (im_key md)) = Some book"
      then have "books_at mvb ?key = Some book" using vb key by (simp add: books_at_def)
      then show ?thesis using inv 2(1) v by (fastforce simp: market_inv_def)
    next
      assume "book = new_symbol_order_book (im_key md) (im_stock md)"
      then show ?thesis using key by (simp add: book_inv_new) (simp add: new_symbol_order_book_def order_count_def)
    qed
    have book': "book_inv book' \<and> order_count book' \<le> Suc k \<and> sob_key book' = ?key \<and> sob_stock book' = im_stock md"
      using book k 2(3) book_inv_apply_message [of book m] order_count_apply_message [of book m]
        apply_message_frame [of book m] by (simp add: order_count_def)
    have "books_at (snd (multi_venue_apply (Some dir) mvb v m)) = (books_at mvb)(?key \<mapsto> book')"
      using vb 2(4) key by (auto simp: multi_venue_apply_def books_at_def fun_eq_iff)
    moreover have "\<forall>w vb'. snd (multi_venue_apply (Some dir) mvb v m) w = Some vb' \<longrightarrow> vb_venue_id vb' = w"
      using inv vb v 2(4) by (auto simp: multi_venue_apply_def market_inv_def)
    ultimately show ?thesis
      using market_inv_mono [OF inv, of "Suc k"] book' 2(1) v by (auto simp: market_inv_def)
  qed
qed

subsection \<open>The orders of all venues\<close>

text \<open>The specification of a message of one venue: the live orders of every instrument, an unlisted one refused.\<close>

definition orders_at :: "multi_venue_book \<Rightarrow> instrument_key \<Rightarrow> order_map" where
  "orders_at mvb key = (case books_at mvb key of None \<Rightarrow> Map.empty | Some book \<Rightarrow> sob_orders book)"

definition spec_market ::
  "instrument_directory \<Rightarrow> instrument_key \<Rightarrow> message \<Rightarrow> (instrument_key \<Rightarrow> order_map)
     \<Rightarrow> error_code \<times> (instrument_key \<Rightarrow> order_map)" where
  "spec_market dir key message orders =
     (case find_instrument dir key of
        None \<Rightarrow> (EC_not_found, orders)
      | Some md \<Rightarrow> (fst (spec_apply key (im_stock md) message (orders key)),
          orders(key := snd (spec_apply key (im_stock md) message (orders key)))))"

text \<open>What applying a message does to the books: nothing, or one book, possibly a new one, takes the message.\<close>

lemma multi_venue_apply_book:
  assumes inv: "market_inv k dir mvb" and v: "is_valid_venue_id v" "contains_venue mvb v" and m: "affects_order_book m"
    and key: "key = \<lparr>ik_venue_id = v, ik_stock_locate = stock_locate_from m\<rparr>"
  shows "case find_instrument dir key of
      None \<Rightarrow> multi_venue_apply (Some dir) mvb v m = (EC_not_found, mvb)
    | Some md \<Rightarrow> \<exists>book. (books_at mvb key = Some book \<or> books_at mvb key = None \<and> book = new_symbol_order_book key (im_stock md))
        \<and> sob_key book = key \<and> sob_stock book = im_stock md \<and> sob_orders book = orders_at mvb key
        \<and> fst (multi_venue_apply (Some dir) mvb v m) = fst (apply_message book m)
        \<and> books_at (snd (multi_venue_apply (Some dir) mvb v m)) = (books_at mvb)(key \<mapsto> snd (apply_message book m))"
proof -
  from v(2) obtain vb where vb: "mvb v = Some vb" by (auto simp: contains_venue_def)
  with inv have vid: "vb_venue_id vb = v" by (auto simp: market_inv_def)
  have meta: "metadata_for (Some dir) vb (stock_locate_from m) = find_instrument dir key"
    by (simp add: metadata_for_def find_instrument_at_def vid key)
  show ?thesis
  proof (cases "find_instrument dir key")
    case None
    with vb v meta vid m show ?thesis by (simp add: multi_venue_apply_def venue_apply_def fun_upd_idem)
  next
    case (Some md)
    define book where "book = fst (get_or_create_book vb md)"
    have imk: "im_key md = key" using directory.lookup_key [of dir key md] inv Some by (simp add: market_inv_def)
    have at: "books_at mvb key = vb_books vb (stock_locate_from m)" by (simp add: books_at_def vb key)
    have book: "books_at mvb key = Some book \<or> books_at mvb key = None \<and> book = new_symbol_order_book key (im_stock md)"
      using imk at by (auto simp: book_def get_or_create_book_def key Let_def split: option.splits)
    have "venue_apply (Some dir) vb m = (fst (apply_message book m),
        vb\<lparr>vb_books := (vb_books vb)(stock_locate_from m \<mapsto> snd (apply_message book m))\<rparr>)"
      using Some meta v vid m imk key
      by (auto simp: venue_apply_def book_def get_or_create_book_def Let_def split_beta split: option.splits)
    then have "fst (multi_venue_apply (Some dir) mvb v m) = fst (apply_message book m)
        \<and> books_at (snd (multi_venue_apply (Some dir) mvb v m)) = (books_at mvb)(key \<mapsto> snd (apply_message book m))"
      using vb by (auto simp: multi_venue_apply_def books_at_def fun_eq_iff key)
    moreover have "sob_key book = key \<and> sob_stock book = im_stock md \<and> sob_orders book = orders_at mvb key"
      using book
    proof
      assume "books_at mvb key = Some book"
      with inv Some show ?thesis by (fastforce simp: market_inv_def orders_at_def)
    qed (simp add: orders_at_def new_symbol_order_book_def)
    ultimately show ?thesis using Some book by auto
  qed
qed

lemma multi_venue_apply_refines:
  assumes "market_inv k dir mvb" "is_valid_venue_id v" "contains_venue mvb v" "affects_order_book m"
    and key: "key = \<lparr>ik_venue_id = v, ik_stock_locate = stock_locate_from m\<rparr>"
  shows "(fst (multi_venue_apply (Some dir) mvb v m), orders_at (snd (multi_venue_apply (Some dir) mvb v m)))
     = spec_market dir key m (orders_at mvb)"
proof (cases "find_instrument dir key")
  case None
  with multi_venue_apply_book [OF assms] show ?thesis by (simp add: spec_market_def)
next
  case (Some md)
  with multi_venue_apply_book [OF assms] obtain book where
    book: "sob_key book = key" "sob_stock book = im_stock md" "sob_orders book = orders_at mvb key"
      "fst (multi_venue_apply (Some dir) mvb v m) = fst (apply_message book m)"
      "books_at (snd (multi_venue_apply (Some dir) mvb v m)) = (books_at mvb)(key \<mapsto> snd (apply_message book m))"
    by auto
  from refines_apply_message [of book m] have
    "spec_apply key (im_stock md) m (orders_at mvb key) = (fst (apply_message book m), sob_orders (snd (apply_message book m)))"
    by (simp add: refines_def book)
  with Some book show ?thesis by (auto simp: spec_market_def orders_at_def fun_eq_iff)
qed

lemma multi_venue_apply_refused:
  assumes "market_inv k dir mvb" "is_valid_venue_id v" "contains_venue mvb v" "affects_order_book m"
    and key: "key = \<lparr>ik_venue_id = v, ik_stock_locate = stock_locate_from m\<rparr>"
    and e: "fst (multi_venue_apply (Some dir) mvb v m) \<noteq> EC_ok"
    and same: "orders_at (snd (multi_venue_apply (Some dir) mvb v m)) = orders_at mvb"
  shows "books_at (snd (multi_venue_apply (Some dir) mvb v m)) = books_at mvb
    \<or> books_at mvb key = None \<and> (\<exists>md. find_instrument dir key = Some md
        \<and> books_at (snd (multi_venue_apply (Some dir) mvb v m))
          = (books_at mvb)(key \<mapsto> new_symbol_order_book key (im_stock md)))"
proof (cases "find_instrument dir key")
  case None
  with multi_venue_apply_book [OF assms(1-5)] show ?thesis by simp
next
  case (Some md)
  with multi_venue_apply_book [OF assms(1-5)] obtain book where
    book: "books_at mvb key = Some book \<or> books_at mvb key = None \<and> book = new_symbol_order_book key (im_stock md)"
      "sob_orders book = orders_at mvb key"
      "fst (multi_venue_apply (Some dir) mvb v m) = fst (apply_message book m)"
      "books_at (snd (multi_venue_apply (Some dir) mvb v m)) = (books_at mvb)(key \<mapsto> snd (apply_message book m))"
    by auto
  have "sob_orders (snd (apply_message book m)) = sob_orders book"
    using fun_cong [OF same, of key] book(2,4) by (simp add: orders_at_def)
  then have "snd (apply_message book m) = book"
    using refines_apply_message [of book m] e book(3) by (simp add: refines_def)
  with book(1,4) Some show ?thesis by (auto simp: fun_upd_idem)
qed

section \<open>The normalised best bid and offer\<close>

definition quote_of :: "instrument_key \<Rightarrow> symbol_order_book \<Rightarrow> level \<Rightarrow> quote" where
  "quote_of key book lv =
     \<lparr>q_key = key, q_symbol = \<lparr>cs_stock = sob_stock book\<rparr>, q_price = lv_price lv,
      q_quantity = lv_quantity lv, q_order_count = lv_order_count lv\<rparr>"

lemma quote_at_book:
  assumes inv: "market_inv k dir mvb"
  shows "(case mvb (ik_venue_id key) of None \<Rightarrow> None | Some vb \<Rightarrow> venue_quote best (Some dir) vb key) =
    Option.bind (books_at mvb key) (\<lambda>book. map_option (quote_of key book) (best book))"
proof (cases "books_at mvb key")
  case None
  then show ?thesis by (auto simp: books_at_def venue_quote_def split: option.splits)
next
  case (Some book)
  then obtain vb where vb: "mvb (ik_venue_id key) = Some vb" "vb_books vb (ik_stock_locate key) = Some book"
    by (auto simp: books_at_def bind_eq_Some_conv)
  with Some inv obtain md where md: "find_instrument dir key = Some md" "im_stock md = sob_stock book"
      "im_key md = key" "vb_venue_id vb = ik_venue_id key"
    using directory.lookup_key [of dir key] unfolding market_inv_def by blast
  then have "metadata_for (Some dir) vb (ik_stock_locate key) = Some md"
    by (cases key) (simp add: metadata_for_def find_instrument_at_def)
  with vb md Some show ?thesis
    by (cases "best book") (simp_all add: venue_quote_def make_quote_def quote_of_def)
qed

text \<open>A book with orders is listed under its symbol, so no quote is missed.\<close>

lemma book_listed:
  assumes "market_inv k dir mvb" "books_at mvb key = Some book"
  shows "key \<in> set (instruments_for_symbol dir symbol) \<longleftrightarrow> sob_stock book = cs_stock symbol"
  using assms directory.listing_iff [of dir key symbol] unfolding market_inv_def by fastforce

definition market_quotes ::
  "(symbol_order_book \<Rightarrow> level option) \<Rightarrow> instrument_directory \<Rightarrow> multi_venue_book \<Rightarrow> canonical_symbol \<Rightarrow> quote list" where
  "market_quotes best dir mvb symbol =
     List.map_filter (\<lambda>key. case mvb (ik_venue_id key) of None \<Rightarrow> None | Some vb \<Rightarrow> venue_quote best (Some dir) vb key)
       (instruments_for_symbol dir symbol)"

lemma bids_market_quotes: "bids (Some dir) mvb symbol = market_quotes best_bid dir mvb symbol"
  unfolding bids_def market_quotes_def multi_venue_best_bid_def [abs_def] venue_best_bid_def by simp

lemma asks_market_quotes: "asks (Some dir) mvb symbol = market_quotes best_ask dir mvb symbol"
  unfolding asks_def market_quotes_def multi_venue_best_ask_def [abs_def] venue_best_ask_def by simp

lemma set_map_filter: "y \<in> set (List.map_filter f xs) \<longleftrightarrow> (\<exists>x \<in> set xs. f x = Some y)"
  by (force simp: List.map_filter_def)

lemma market_quotes_iff:
  assumes "market_inv k dir mvb"
  shows "q \<in> set (market_quotes best dir mvb symbol) \<longleftrightarrow>
    (\<exists>key book lv. books_at mvb key = Some book \<and> sob_stock book = cs_stock symbol
       \<and> best book = Some lv \<and> q = quote_of key book lv)"
  unfolding market_quotes_def set_map_filter quote_at_book [OF assms] bind_eq_Some_conv map_option_eq_Some
  using book_listed [OF assms] by blast

lemma market_quotes_frame:
  assumes "market_inv k dir mvb" "market_inv k' dir mvb'"
    and "\<And>key. Option.bind (books_at mvb' key) best = Option.bind (books_at mvb key) best"
    and "\<And>key book book'. books_at mvb key = Some book \<Longrightarrow> books_at mvb' key = Some book' \<Longrightarrow> sob_stock book' = sob_stock book"
  shows "market_quotes best dir mvb' symbol = market_quotes best dir mvb symbol"
proof -
  have quote: "quote_of key book' = quote_of key book" if "sob_stock book' = sob_stock book" for key book book'
    by (simp add: quote_of_def that fun_eq_iff)
  have "Option.bind (books_at mvb' key) (\<lambda>book. map_option (quote_of key book) (best book))
      = Option.bind (books_at mvb key) (\<lambda>book. map_option (quote_of key book) (best book))" for key
  proof (cases "books_at mvb key")
    case None
    then show ?thesis using assms(3) [of key] by (cases "books_at mvb' key") simp_all
  next
    case (Some book)
    then show ?thesis using assms(3) [of key]
    proof (cases "books_at mvb' key")
      case (Some book')
      with \<open>books_at mvb key = Some book\<close> assms(3) [of key] quote [OF assms(4)] show ?thesis by simp
    qed simp
  qed
  then show ?thesis by (simp add: market_quotes_def quote_at_book [OF assms(1)] quote_at_book [OF assms(2)])
qed

lemma normalized_bbo_new_book:
  assumes "market_inv k dir mvb" "market_inv k' dir mvb'" "books_at mvb key = None"
    and "books_at mvb' = (books_at mvb)(key \<mapsto> new_symbol_order_book key stock)"
  shows "normalized_bbo (Some dir) (Some mvb') symbol = normalized_bbo (Some dir) (Some mvb) symbol"
proof -
  have "best_bid (new_symbol_order_book key stock) = None" "best_ask (new_symbol_order_book key stock) = None"
    by (simp_all add: best_bid_def best_ask_def new_symbol_order_book_def om_begin_def)
  then have "market_quotes best_bid dir mvb' symbol = market_quotes best_bid dir mvb symbol"
    "market_quotes best_ask dir mvb' symbol = market_quotes best_ask dir mvb symbol"
    using assms by (intro market_quotes_frame [OF assms(1,2)]; auto split: if_splits)+
  then show ?thesis by (simp add: normalized_bbo_def bids_market_quotes asks_market_quotes)
qed

lemma normalized_bbo_same_books:
  assumes "market_inv k dir mvb" "market_inv k' dir mvb'" "books_at mvb' = books_at mvb"
  shows "normalized_bbo (Some dir) (Some mvb') symbol = normalized_bbo (Some dir) (Some mvb) symbol"
  using market_quotes_frame [OF assms(1,2), of best_bid] market_quotes_frame [OF assms(1,2), of best_ask] assms(3)
  by (simp add: normalized_bbo_def bids_market_quotes asks_market_quotes)

definition resting ::
  "multi_venue_book \<Rightarrow> canonical_symbol \<Rightarrow> side \<Rightarrow> (instrument_key \<times> u64 \<times> resting_order) set" where
  "resting mvb symbol s = {(key, ref, ord). \<exists>book. books_at mvb key = Some book
     \<and> sob_stock book = cs_stock symbol \<and> sob_orders book ref = Some ord \<and> ro_side ord = s}"

definition level_shown :: "symbol_order_book \<Rightarrow> side \<Rightarrow> (int \<Rightarrow> int \<Rightarrow> bool) \<Rightarrow> level \<Rightarrow> bool" where
  "level_shown book s le lv \<longleftrightarrow>
     (\<exists>p. lv_price lv = uint p \<and> at_level (sob_orders book) s p \<noteq> {}
        \<and> unat (lv_quantity lv) = shares_at (sob_orders book) s p
        \<and> unat (lv_order_count lv) = card (at_level (sob_orders book) s p)
        \<and> (\<forall>q. at_level (sob_orders book) s q \<noteq> {} \<longrightarrow> le (uint p) (uint q)))"

locale bbo_side = quote_ranking better
  for better :: "quote \<Rightarrow> quote \<Rightarrow> bool" +
  fixes best :: "symbol_order_book \<Rightarrow> level option" and s :: side and le :: "int \<Rightarrow> int \<Rightarrow> bool"
  assumes best_level: "book_inv book \<Longrightarrow>
      (case best book of None \<Rightarrow> \<forall>p. at_level (sob_orders book) s p = {} | Some lv \<Rightarrow> level_shown book s le lv)"
    and not_better: "\<not> better x q \<Longrightarrow> le (q_price q) (q_price x)"
    and le_trans: "le a b \<Longrightarrow> le b c \<Longrightarrow> le a c"
begin

lemma resting_quoted:
  assumes inv: "market_inv k dir mvb" and r: "(key, ref, ord) \<in> resting mvb symbol s"
  obtains q where "q \<in> set (market_quotes best dir mvb symbol)" "le (q_price q) (uint (ro_price ord))"
proof -
  from r obtain book where book: "books_at mvb key = Some book" "sob_stock book = cs_stock symbol"
    "sob_orders book ref = Some ord" "ro_side ord = s" by (auto simp: resting_def)
  then have "at_level (sob_orders book) s (ro_price ord) \<noteq> {}" by (auto simp: at_level_def)
  moreover have "book_inv book" using inv book by (auto simp: market_inv_def)
  ultimately obtain lv where lv: "best book = Some lv" "le (lv_price lv) (uint (ro_price ord))"
    using best_level [of book] by (auto simp: level_shown_def split: option.splits)
  then have "quote_of key book lv \<in> set (market_quotes best dir mvb symbol)"
    unfolding market_quotes_iff [OF inv] using book by blast
  then show ?thesis using lv that [of "quote_of key book lv"] by (simp add: quote_of_def)
qed

lemma pick_best_market:
  assumes inv: "market_inv k dir mvb"
  shows "case pick_best better None (market_quotes best dir mvb symbol) of
      None \<Rightarrow> resting mvb symbol s = {}
    | Some q \<Rightarrow> q_symbol q = symbol
        \<and> (\<exists>book p. books_at mvb (q_key q) = Some book \<and> sob_stock book = cs_stock symbol
             \<and> q_price q = uint p \<and> at_level (sob_orders book) s p \<noteq> {}
             \<and> unat (q_quantity q) = shares_at (sob_orders book) s p
             \<and> unat (q_order_count q) = card (at_level (sob_orders book) s p))
        \<and> (\<forall>(key, ref, ord) \<in> resting mvb symbol s. le (q_price q) (uint (ro_price ord)))"
proof (cases "pick_best better None (market_quotes best dir mvb symbol)")
  case None
  then have "market_quotes best dir mvb symbol = []" by (simp add: pick_best_None)
  then have "(key, ref, ord) \<notin> resting mvb symbol s" for key ref ord
    using resting_quoted [OF inv, of key ref ord symbol] by auto
  then have "resting mvb symbol s = {}" by auto
  with None show ?thesis by simp
next
  case (Some q)
  from pick_best_Some [OF this]
  have q: "q \<in> set (market_quotes best dir mvb symbol)"
    "\<And>x. x \<in> set (market_quotes best dir mvb symbol) \<Longrightarrow> le (q_price q) (q_price x)"
    using not_better by auto
  from q(1) obtain key book lv where b: "books_at mvb key = Some book" "sob_stock book = cs_stock symbol"
    "best book = Some lv" "q = quote_of key book lv"
    by (auto simp: market_quotes_iff [OF inv])
  have "level_shown book s le lv" using best_level [of book] inv b by (auto simp: market_inv_def)
  then have "\<exists>book p. books_at mvb (q_key q) = Some book \<and> sob_stock book = cs_stock symbol
      \<and> q_price q = uint p \<and> at_level (sob_orders book) s p \<noteq> {}
      \<and> unat (q_quantity q) = shares_at (sob_orders book) s p
      \<and> unat (q_order_count q) = card (at_level (sob_orders book) s p)"
    using b(1,2) unfolding level_shown_def b(4) quote_of_def by auto
  moreover have "le (q_price q) (uint (ro_price ord))" if r: "(key, ref, ord) \<in> resting mvb symbol s" for key ref ord
    by (rule resting_quoted [OF inv r]) (rule le_trans [OF q(2)])
  moreover have "q_symbol q = symbol" using b(2,4) by (simp add: quote_of_def)
  ultimately show ?thesis unfolding Some option.case by blast
qed

end

interpretation bid_view: bbo_side is_better_bid best_bid Buy "(\<ge>)"
proof unfold_locales
  fix book assume "book_inv book"
  then show "case best_bid book of None \<Rightarrow> \<forall>p. at_level (sob_orders book) Buy p = {}
      | Some lv \<Rightarrow> level_shown book Buy (\<ge>) lv"
    unfolding best_bid_def level_shown_def
    by (intro bid_side.side_inv_best) (auto simp: book_inv_def word_less_def)
qed (auto simp: is_better_bid_def split: if_splits)

interpretation ask_view: bbo_side is_better_ask best_ask Sell "(\<le>)"
proof unfold_locales
  fix book assume "book_inv book"
  then show "case best_ask book of None \<Rightarrow> \<forall>p. at_level (sob_orders book) Sell p = {}
      | Some lv \<Rightarrow> level_shown book Sell (\<le>) lv"
    unfolding best_ask_def level_shown_def
    by (intro ask_side.side_inv_best) (auto simp: book_inv_def word_less_def)
qed (auto simp: is_better_ask_def split: if_splits)

end
