(* ===== verification/Itch_Codec.thy ===== *)
theory Itch_Codec
  imports Itch_Types
begin

text \<open>
  The ITCH codec: \<^verbatim>\<open>src/itch/itch_decode.cpp\<close> and \<^verbatim>\<open>src/itch/itch_encode.cpp\<close>, one definition per
  function. A decoder is a chain of \<open>result_bind\<close> with the early returns of the source in their
  order; an encoder threads the buffer and stops at the first error, keeping what it has
  written. \<open>message_image\<close> is the reference layout of a message, against which both are proved.
\<close>

section \<open>Decoding\<close>

definition read_char :: "bytes \<Rightarrow> nat \<Rightarrow> char result" where
  "read_char bytes offset = result_bind (read_u8 bytes offset) (\<lambda>v. Ok (char_of_byte v))"

definition require_valid_header_for_stock_message :: "header \<Rightarrow> error_code" where
  "require_valid_header_for_stock_message h =
     (if \<not> is_valid_header_for_stock_message h then EC_parse_error else EC_ok)"

definition require_valid_system_event_header :: "header \<Rightarrow> error_code" where
  "require_valid_system_event_header h =
     (if hdr_stock_locate h \<noteq> 0 then EC_parse_error
      else if \<not> is_valid_timestamp_ns (hdr_timestamp_ns h) then EC_parse_error
      else EC_ok)"

definition decode_message_type :: "bytes \<Rightarrow> message_type result" where
  "decode_message_type bytes = result_bind (read_char bytes 0) message_type_from_char"

definition decode_header :: "bytes \<Rightarrow> header result" where
  "decode_header bytes =
     (if \<not> has_range bytes 0 size_common_header then Fail EC_parse_error
      else result_bind (read_u16_be bytes offset_stock_locate) (\<lambda>stock_locate.
           result_bind (read_u16_be bytes offset_tracking_number) (\<lambda>tracking_number.
           result_bind (read_u48_be bytes offset_timestamp) (\<lambda>timestamp.
           let h = \<lparr>hdr_stock_locate = stock_locate, hdr_tracking_number = tracking_number,
                    hdr_timestamp_ns = timestamp\<rparr>
           in if \<not> is_valid_timestamp_ns (hdr_timestamp_ns h) then Fail EC_parse_error else Ok h))))"

definition require_exact_message_type_and_length :: "bytes \<Rightarrow> message_type \<Rightarrow> error_code" where
  "require_exact_message_type_and_length bytes expected =
     (case decode_message_type bytes of
        Fail e \<Rightarrow> e
      | Ok t \<Rightarrow>
          if t \<noteq> expected then EC_parse_error
          else case message_length expected of
            Fail e \<Rightarrow> e
          | Ok n \<Rightarrow> if length bytes \<noteq> n then EC_parse_error else EC_ok)"

definition decode_system_event_message :: "bytes \<Rightarrow> system_event_message result" where
  "decode_system_event_message bytes =
     require (require_exact_message_type_and_length bytes MT_system_event)
    (result_bind (decode_header bytes) (\<lambda>header.
     require (require_valid_system_event_header header)
    (result_bind (read_char bytes system_event_offset_event_code) (\<lambda>event_code_char.
     result_bind (system_event_code_from_char event_code_char) (\<lambda>event_code.
      Ok \<lparr>se_header = header, se_event_code = event_code\<rparr>)))))"

definition decode_stock_directory_message :: "bytes \<Rightarrow> stock_directory_message result" where
  "decode_stock_directory_message bytes =
     require (require_exact_message_type_and_length bytes MT_stock_directory)
    (result_bind (decode_header bytes) (\<lambda>header.
     require (require_valid_header_for_stock_message header)
    (result_bind (read_fixed_ascii 8 bytes stock_directory_offset_stock) (\<lambda>stock.
     result_bind (read_char bytes stock_directory_offset_market_category) (\<lambda>market_category.
     result_bind (read_char bytes stock_directory_offset_financial_status_indicator) (\<lambda>financial_status_indicator.
     result_bind (read_u32_be bytes stock_directory_offset_round_lot_size) (\<lambda>round_lot_size.
     result_bind (read_char bytes stock_directory_offset_round_lots_only) (\<lambda>round_lots_only.
     result_bind (read_char bytes stock_directory_offset_issue_classification) (\<lambda>issue_classification.
     result_bind (read_fixed_ascii 2 bytes stock_directory_offset_issue_sub_type) (\<lambda>issue_sub_type.
     result_bind (read_char bytes stock_directory_offset_authenticity) (\<lambda>authenticity.
     result_bind (read_char bytes stock_directory_offset_short_sale_threshold_indicator) (\<lambda>short_sale_threshold_indicator.
     result_bind (read_char bytes stock_directory_offset_ipo_flag) (\<lambda>ipo_flag.
     result_bind (read_char bytes stock_directory_offset_luld_reference_price_tier) (\<lambda>luld_reference_price_tier.
     result_bind (read_char bytes stock_directory_offset_etp_flag) (\<lambda>etp_flag.
     result_bind (read_u32_be bytes stock_directory_offset_etp_leverage_factor) (\<lambda>etp_leverage_factor.
     result_bind (read_char bytes stock_directory_offset_inverse_indicator) (\<lambda>inverse_indicator.
      let message = \<lparr>sd_header = header, sd_stock = stock, sd_market_category = market_category,
             sd_financial_status_indicator = financial_status_indicator, sd_round_lot_size =
             round_lot_size, sd_round_lots_only = round_lots_only, sd_issue_classification =
             issue_classification, sd_issue_sub_type = issue_sub_type, sd_authenticity =
             authenticity, sd_short_sale_threshold_indicator = short_sale_threshold_indicator,
             sd_ipo_flag = ipo_flag, sd_luld_reference_price_tier = luld_reference_price_tier,
             sd_etp_flag = etp_flag, sd_etp_leverage_factor = etp_leverage_factor,
             sd_inverse_indicator = inverse_indicator\<rparr>
      in if \<not> is_valid_stock_directory_message message then Fail EC_parse_error else Ok message)))))))))))))))))"

definition decode_stock_trading_action_message :: "bytes \<Rightarrow> stock_trading_action_message result" where
  "decode_stock_trading_action_message bytes =
     require (require_exact_message_type_and_length bytes MT_stock_trading_action)
    (result_bind (decode_header bytes) (\<lambda>header.
     require (require_valid_header_for_stock_message header)
    (result_bind (read_fixed_ascii 8 bytes stock_trading_action_offset_stock) (\<lambda>stock.
     result_bind (read_char bytes stock_trading_action_offset_trading_state) (\<lambda>trading_state_char.
     result_bind (trading_state_from_char trading_state_char) (\<lambda>trading_state.
     result_bind (read_char bytes stock_trading_action_offset_reserved) (\<lambda>reserved.
     result_bind (read_fixed_ascii 4 bytes stock_trading_action_offset_reason) (\<lambda>reason.
      let message = \<lparr>ta_header = header, ta_stock = stock, ta_trading_state = trading_state,
             ta_reserved = reserved, ta_reason = reason\<rparr>
      in if \<not> is_valid_stock_trading_action_message message then Fail EC_parse_error else Ok message))))))))"

definition decode_add_order_no_mpid_message :: "bytes \<Rightarrow> add_order_no_mpid_message result" where
  "decode_add_order_no_mpid_message bytes =
     require (require_exact_message_type_and_length bytes MT_add_order_no_mpid)
    (result_bind (decode_header bytes) (\<lambda>header.
     require (require_valid_header_for_stock_message header)
    (result_bind (read_u64_be bytes add_order_offset_order_reference_number) (\<lambda>order_reference_number.
     result_bind (read_char bytes add_order_offset_side) (\<lambda>side_char.
     result_bind (side_from_char side_char) (\<lambda>side.
     result_bind (read_u32_be bytes add_order_offset_shares) (\<lambda>shares.
     result_bind (read_fixed_ascii 8 bytes add_order_offset_stock) (\<lambda>stock.
     result_bind (read_u32_be bytes add_order_offset_price) (\<lambda>price.
      let message = \<lparr>ao_header = header, ao_order_reference_number = order_reference_number,
             ao_side = side, ao_shares = shares, ao_stock = stock, ao_price = price\<rparr>
      in if \<not> is_valid_add_order_no_mpid_message message then Fail EC_parse_error else Ok message)))))))))"

definition decode_add_order_with_mpid_message :: "bytes \<Rightarrow> add_order_with_mpid_message result" where
  "decode_add_order_with_mpid_message bytes =
     require (require_exact_message_type_and_length bytes MT_add_order_with_mpid)
    (result_bind (decode_header bytes) (\<lambda>header.
     require (require_valid_header_for_stock_message header)
    (result_bind (read_u64_be bytes add_order_with_mpid_offset_order_reference_number) (\<lambda>order_reference_number.
     result_bind (read_char bytes add_order_with_mpid_offset_side) (\<lambda>side_char.
     result_bind (side_from_char side_char) (\<lambda>side.
     result_bind (read_u32_be bytes add_order_with_mpid_offset_shares) (\<lambda>shares.
     result_bind (read_fixed_ascii 8 bytes add_order_with_mpid_offset_stock) (\<lambda>stock.
     result_bind (read_u32_be bytes add_order_with_mpid_offset_price) (\<lambda>price.
     result_bind (read_fixed_ascii 4 bytes add_order_with_mpid_offset_attribution) (\<lambda>attribution.
      let message = \<lparr>am_header = header, am_order_reference_number = order_reference_number,
             am_side = side, am_shares = shares, am_stock = stock, am_price = price,
             am_attribution = attribution\<rparr>
      in if \<not> is_valid_add_order_with_mpid_message message then Fail EC_parse_error else Ok message))))))))))"

definition decode_order_executed_message :: "bytes \<Rightarrow> order_executed_message result" where
  "decode_order_executed_message bytes =
     require (require_exact_message_type_and_length bytes MT_order_executed)
    (result_bind (decode_header bytes) (\<lambda>header.
     require (require_valid_header_for_stock_message header)
    (result_bind (read_u64_be bytes order_executed_offset_order_reference_number) (\<lambda>order_reference_number.
     result_bind (read_u32_be bytes order_executed_offset_executed_shares) (\<lambda>executed_shares.
     result_bind (read_u64_be bytes order_executed_offset_match_number) (\<lambda>match_number.
      let message = \<lparr>oe_header = header, oe_order_reference_number = order_reference_number,
             oe_executed_shares = executed_shares, oe_match_number = match_number\<rparr>
      in if \<not> is_valid_order_executed_message message then Fail EC_parse_error else Ok message))))))"

definition decode_order_executed_with_price_message :: "bytes \<Rightarrow> order_executed_with_price_message result" where
  "decode_order_executed_with_price_message bytes =
     require (require_exact_message_type_and_length bytes MT_order_executed_with_price)
    (result_bind (decode_header bytes) (\<lambda>header.
     require (require_valid_header_for_stock_message header)
    (result_bind (read_u64_be bytes order_executed_with_price_offset_order_reference_number) (\<lambda>order_reference_number.
     result_bind (read_u32_be bytes order_executed_with_price_offset_executed_shares) (\<lambda>executed_shares.
     result_bind (read_u64_be bytes order_executed_with_price_offset_match_number) (\<lambda>match_number.
     result_bind (read_char bytes order_executed_with_price_offset_printable) (\<lambda>printable_char.
     result_bind (printable_from_char printable_char) (\<lambda>printable.
     result_bind (read_u32_be bytes order_executed_with_price_offset_execution_price) (\<lambda>execution_price.
      let message = \<lparr>op_header = header, op_order_reference_number = order_reference_number,
             op_executed_shares = executed_shares, op_match_number = match_number, op_printable =
             printable, op_execution_price = execution_price\<rparr>
      in if \<not> is_valid_order_executed_with_price_message message then Fail EC_parse_error else Ok message)))))))))"

definition decode_order_cancel_message :: "bytes \<Rightarrow> order_cancel_message result" where
  "decode_order_cancel_message bytes =
     require (require_exact_message_type_and_length bytes MT_order_cancel)
    (result_bind (decode_header bytes) (\<lambda>header.
     require (require_valid_header_for_stock_message header)
    (result_bind (read_u64_be bytes order_cancel_offset_order_reference_number) (\<lambda>order_reference_number.
     result_bind (read_u32_be bytes order_cancel_offset_cancelled_shares) (\<lambda>cancelled_shares.
      let message = \<lparr>oc_header = header, oc_order_reference_number = order_reference_number,
             oc_cancelled_shares = cancelled_shares\<rparr>
      in if \<not> is_valid_order_cancel_message message then Fail EC_parse_error else Ok message)))))"

definition decode_order_delete_message :: "bytes \<Rightarrow> order_delete_message result" where
  "decode_order_delete_message bytes =
     require (require_exact_message_type_and_length bytes MT_order_delete)
    (result_bind (decode_header bytes) (\<lambda>header.
     require (require_valid_header_for_stock_message header)
    (result_bind (read_u64_be bytes order_delete_offset_order_reference_number) (\<lambda>order_reference_number.
      let message = \<lparr>od_header = header, od_order_reference_number =
             order_reference_number\<rparr>
      in if \<not> is_valid_order_delete_message message then Fail EC_parse_error else Ok message))))"

definition decode_order_replace_message :: "bytes \<Rightarrow> order_replace_message result" where
  "decode_order_replace_message bytes =
     require (require_exact_message_type_and_length bytes MT_order_replace)
    (result_bind (decode_header bytes) (\<lambda>header.
     require (require_valid_header_for_stock_message header)
    (result_bind (read_u64_be bytes order_replace_offset_original_order_reference_number) (\<lambda>original_order_reference_number.
     result_bind (read_u64_be bytes order_replace_offset_new_order_reference_number) (\<lambda>new_order_reference_number.
     result_bind (read_u32_be bytes order_replace_offset_shares) (\<lambda>shares.
     result_bind (read_u32_be bytes order_replace_offset_price) (\<lambda>price.
      let message = \<lparr>orp_header = header, orp_original_order_reference_number =
             original_order_reference_number, orp_new_order_reference_number =
             new_order_reference_number, orp_shares = shares, orp_price = price\<rparr>
      in if \<not> is_valid_order_replace_message message then Fail EC_parse_error else Ok message)))))))"

definition decode_trade_non_cross_message :: "bytes \<Rightarrow> trade_non_cross_message result" where
  "decode_trade_non_cross_message bytes =
     require (require_exact_message_type_and_length bytes MT_trade_non_cross)
    (result_bind (decode_header bytes) (\<lambda>header.
     require (require_valid_header_for_stock_message header)
    (result_bind (read_u64_be bytes trade_non_cross_offset_order_reference_number) (\<lambda>order_reference_number.
     result_bind (read_char bytes trade_non_cross_offset_side) (\<lambda>side_char.
     result_bind (side_from_char side_char) (\<lambda>side.
     result_bind (read_u32_be bytes trade_non_cross_offset_shares) (\<lambda>shares.
     result_bind (read_fixed_ascii 8 bytes trade_non_cross_offset_stock) (\<lambda>stock.
     result_bind (read_u32_be bytes trade_non_cross_offset_price) (\<lambda>price.
     result_bind (read_u64_be bytes trade_non_cross_offset_match_number) (\<lambda>match_number.
      let message = \<lparr>tn_header = header, tn_order_reference_number = order_reference_number,
             tn_side = side, tn_shares = shares, tn_stock = stock, tn_price = price,
             tn_match_number = match_number\<rparr>
      in if \<not> is_valid_trade_non_cross_message message then Fail EC_parse_error else Ok message))))))))))"

definition decode_cross_trade_message :: "bytes \<Rightarrow> cross_trade_message result" where
  "decode_cross_trade_message bytes =
     require (require_exact_message_type_and_length bytes MT_cross_trade)
    (result_bind (decode_header bytes) (\<lambda>header.
     require (require_valid_header_for_stock_message header)
    (result_bind (read_u64_be bytes cross_trade_offset_shares) (\<lambda>shares.
     result_bind (read_fixed_ascii 8 bytes cross_trade_offset_stock) (\<lambda>stock.
     result_bind (read_u32_be bytes cross_trade_offset_cross_price) (\<lambda>cross_price.
     result_bind (read_u64_be bytes cross_trade_offset_match_number) (\<lambda>match_number.
     result_bind (read_char bytes cross_trade_offset_cross_type) (\<lambda>cross_type_char.
     result_bind (cross_type_from_char cross_type_char) (\<lambda>cross_type.
      let message = \<lparr>ct_header = header, ct_shares = shares, ct_stock = stock, ct_cross_price =
             cross_price, ct_match_number = match_number, ct_cross_type = cross_type\<rparr>
      in if \<not> is_valid_cross_trade_message message then Fail EC_parse_error else Ok message)))))))))"

definition decode_broken_trade_message :: "bytes \<Rightarrow> broken_trade_message result" where
  "decode_broken_trade_message bytes =
     require (require_exact_message_type_and_length bytes MT_broken_trade)
    (result_bind (decode_header bytes) (\<lambda>header.
     require (require_valid_header_for_stock_message header)
    (result_bind (read_u64_be bytes broken_trade_offset_match_number) (\<lambda>match_number.
      let message = \<lparr>bt_header = header, bt_match_number = match_number\<rparr>
      in if \<not> is_valid_broken_trade_message message then Fail EC_parse_error else Ok message))))"

definition decode_message :: "bytes \<Rightarrow> message result" where
  "decode_message bytes =
     result_bind (decode_message_type bytes) (\<lambda>t.
     case t of
        MT_system_event \<Rightarrow>
          result_bind (decode_system_event_message bytes) (\<lambda>m. Ok (SystemEvent m))
      | MT_stock_directory \<Rightarrow>
          result_bind (decode_stock_directory_message bytes) (\<lambda>m. Ok (StockDirectory m))
      | MT_stock_trading_action \<Rightarrow>
          result_bind (decode_stock_trading_action_message bytes) (\<lambda>m. Ok (StockTradingAction m))
      | MT_reg_sho_restriction \<Rightarrow> Fail EC_unsupported
      | MT_market_participant_position \<Rightarrow> Fail EC_unsupported
      | MT_mwcb_decline_level \<Rightarrow> Fail EC_unsupported
      | MT_mwcb_status \<Rightarrow> Fail EC_unsupported
      | MT_ipo_quoting_period_update \<Rightarrow> Fail EC_unsupported
      | MT_luld_auction_collar \<Rightarrow> Fail EC_unsupported
      | MT_operational_halt \<Rightarrow> Fail EC_unsupported
      | MT_add_order_no_mpid \<Rightarrow>
          result_bind (decode_add_order_no_mpid_message bytes) (\<lambda>m. Ok (AddOrderNoMpid m))
      | MT_add_order_with_mpid \<Rightarrow>
          result_bind (decode_add_order_with_mpid_message bytes) (\<lambda>m. Ok (AddOrderWithMpid m))
      | MT_order_executed \<Rightarrow>
          result_bind (decode_order_executed_message bytes) (\<lambda>m. Ok (OrderExecuted m))
      | MT_order_executed_with_price \<Rightarrow>
          result_bind (decode_order_executed_with_price_message bytes) (\<lambda>m. Ok (OrderExecutedWithPrice m))
      | MT_order_cancel \<Rightarrow>
          result_bind (decode_order_cancel_message bytes) (\<lambda>m. Ok (OrderCancel m))
      | MT_order_delete \<Rightarrow>
          result_bind (decode_order_delete_message bytes) (\<lambda>m. Ok (OrderDelete m))
      | MT_order_replace \<Rightarrow>
          result_bind (decode_order_replace_message bytes) (\<lambda>m. Ok (OrderReplace m))
      | MT_trade_non_cross \<Rightarrow>
          result_bind (decode_trade_non_cross_message bytes) (\<lambda>m. Ok (TradeNonCross m))
      | MT_cross_trade \<Rightarrow>
          result_bind (decode_cross_trade_message bytes) (\<lambda>m. Ok (CrossTrade m))
      | MT_broken_trade \<Rightarrow>
          result_bind (decode_broken_trade_message bytes) (\<lambda>m. Ok (BrokenTrade m))
      | MT_noii \<Rightarrow> Fail EC_unsupported
      | MT_retail_price_improvement_indicator \<Rightarrow> Fail EC_unsupported
      | MT_direct_listing_with_capital_raise \<Rightarrow> Fail EC_unsupported)"

section \<open>Encoding\<close>

definition write_char :: "bytes \<Rightarrow> nat \<Rightarrow> char \<Rightarrow> error_code \<times> bytes" where
  "write_char bytes offset c = write_u8 bytes offset (byte_of_char c)"

definition require_valid_system_event_for_encode :: "system_event_message \<Rightarrow> error_code" where
  "require_valid_system_event_for_encode m =
     (if hdr_stock_locate (se_header m) \<noteq> 0 then EC_invalid_argument
      else if \<not> is_valid_timestamp_ns (hdr_timestamp_ns (se_header m)) then EC_invalid_argument
      else EC_ok)"

definition require_valid_stock_header_for_encode :: "header \<Rightarrow> error_code" where
  "require_valid_stock_header_for_encode h =
     (if \<not> is_valid_header_for_stock_message h then EC_invalid_argument else EC_ok)"

definition encode_message_type :: "bytes \<Rightarrow> message_type \<Rightarrow> error_code \<times> bytes" where
  "encode_message_type bytes t = write_char bytes offset_message_type (message_type_to_char t)"

definition encode_header :: "bytes \<Rightarrow> header \<Rightarrow> error_code \<times> bytes" where
  "encode_header bytes h =
     (if \<not> has_range bytes 0 size_common_header then (EC_parse_error, bytes)
      else if \<not> is_valid_timestamp_ns (hdr_timestamp_ns h) then (EC_invalid_argument, bytes)
      else and_then (write_u16_be bytes offset_stock_locate (hdr_stock_locate h)) (\<lambda>bytes.
           and_then (write_u16_be bytes offset_tracking_number (hdr_tracking_number h)) (\<lambda>bytes.
           write_u48_be bytes offset_timestamp (hdr_timestamp_ns h))))"

fun is_encode_supported :: "message_type \<Rightarrow> bool" where
  "is_encode_supported MT_system_event = True"
| "is_encode_supported MT_stock_directory = True"
| "is_encode_supported MT_stock_trading_action = True"
| "is_encode_supported MT_reg_sho_restriction = False"
| "is_encode_supported MT_market_participant_position = False"
| "is_encode_supported MT_mwcb_decline_level = False"
| "is_encode_supported MT_mwcb_status = False"
| "is_encode_supported MT_ipo_quoting_period_update = False"
| "is_encode_supported MT_luld_auction_collar = False"
| "is_encode_supported MT_operational_halt = False"
| "is_encode_supported MT_add_order_no_mpid = True"
| "is_encode_supported MT_add_order_with_mpid = True"
| "is_encode_supported MT_order_executed = True"
| "is_encode_supported MT_order_executed_with_price = True"
| "is_encode_supported MT_order_cancel = True"
| "is_encode_supported MT_order_delete = True"
| "is_encode_supported MT_order_replace = True"
| "is_encode_supported MT_trade_non_cross = True"
| "is_encode_supported MT_cross_trade = True"
| "is_encode_supported MT_broken_trade = True"
| "is_encode_supported MT_noii = False"
| "is_encode_supported MT_retail_price_improvement_indicator = False"
| "is_encode_supported MT_direct_listing_with_capital_raise = False"

fun is_decode_supported :: "message_type \<Rightarrow> bool" where
  "is_decode_supported MT_system_event = True"
| "is_decode_supported MT_stock_directory = True"
| "is_decode_supported MT_stock_trading_action = True"
| "is_decode_supported MT_reg_sho_restriction = False"
| "is_decode_supported MT_market_participant_position = False"
| "is_decode_supported MT_mwcb_decline_level = False"
| "is_decode_supported MT_mwcb_status = False"
| "is_decode_supported MT_ipo_quoting_period_update = False"
| "is_decode_supported MT_luld_auction_collar = False"
| "is_decode_supported MT_operational_halt = False"
| "is_decode_supported MT_add_order_no_mpid = True"
| "is_decode_supported MT_add_order_with_mpid = True"
| "is_decode_supported MT_order_executed = True"
| "is_decode_supported MT_order_executed_with_price = True"
| "is_decode_supported MT_order_cancel = True"
| "is_decode_supported MT_order_delete = True"
| "is_decode_supported MT_order_replace = True"
| "is_decode_supported MT_trade_non_cross = True"
| "is_decode_supported MT_cross_trade = True"
| "is_decode_supported MT_broken_trade = True"
| "is_decode_supported MT_noii = False"
| "is_decode_supported MT_retail_price_improvement_indicator = False"
| "is_decode_supported MT_direct_listing_with_capital_raise = False"

definition require_exact_encode_length :: "bytes \<Rightarrow> message_type \<Rightarrow> error_code" where
  "require_exact_encode_length bytes t =
     (if \<not> is_encode_supported t then EC_unsupported
      else case message_length t of
        Fail e \<Rightarrow> e
      | Ok n \<Rightarrow> if length bytes \<noteq> n then EC_parse_error else EC_ok)"

definition encode_system_event_message :: "bytes \<Rightarrow> system_event_message \<Rightarrow> error_code \<times> bytes" where
  "encode_system_event_message bytes m =
     and_then (require_exact_encode_length bytes MT_system_event, bytes) (\<lambda>bytes.
     and_then (require_valid_system_event_for_encode m, bytes) (\<lambda>bytes.
     and_then (encode_message_type bytes MT_system_event) (\<lambda>bytes.
     and_then (encode_header bytes (se_header m)) (\<lambda>bytes.
     write_char bytes system_event_offset_event_code (system_event_code_to_char (se_event_code m))))))"

definition encode_stock_directory_message :: "bytes \<Rightarrow> stock_directory_message \<Rightarrow> error_code \<times> bytes" where
  "encode_stock_directory_message bytes m =
     and_then (require_exact_encode_length bytes MT_stock_directory, bytes) (\<lambda>bytes.
     if \<not> is_valid_stock_directory_message m then (EC_invalid_argument, bytes) else
     and_then (require_valid_stock_header_for_encode (sd_header m), bytes) (\<lambda>bytes.
     and_then (encode_message_type bytes MT_stock_directory) (\<lambda>bytes.
     and_then (encode_header bytes (sd_header m)) (\<lambda>bytes.
     and_then (write_fixed_ascii 8 bytes stock_directory_offset_stock (sd_stock m)) (\<lambda>bytes.
     and_then (write_char bytes stock_directory_offset_market_category (sd_market_category m)) (\<lambda>bytes.
     and_then (write_char bytes stock_directory_offset_financial_status_indicator (sd_financial_status_indicator m)) (\<lambda>bytes.
     and_then (write_u32_be bytes stock_directory_offset_round_lot_size (sd_round_lot_size m)) (\<lambda>bytes.
     and_then (write_char bytes stock_directory_offset_round_lots_only (sd_round_lots_only m)) (\<lambda>bytes.
     and_then (write_char bytes stock_directory_offset_issue_classification (sd_issue_classification m)) (\<lambda>bytes.
     and_then (write_fixed_ascii 2 bytes stock_directory_offset_issue_sub_type (sd_issue_sub_type m)) (\<lambda>bytes.
     and_then (write_char bytes stock_directory_offset_authenticity (sd_authenticity m)) (\<lambda>bytes.
     and_then (write_char bytes stock_directory_offset_short_sale_threshold_indicator (sd_short_sale_threshold_indicator m)) (\<lambda>bytes.
     and_then (write_char bytes stock_directory_offset_ipo_flag (sd_ipo_flag m)) (\<lambda>bytes.
     and_then (write_char bytes stock_directory_offset_luld_reference_price_tier (sd_luld_reference_price_tier m)) (\<lambda>bytes.
     and_then (write_char bytes stock_directory_offset_etp_flag (sd_etp_flag m)) (\<lambda>bytes.
     and_then (write_u32_be bytes stock_directory_offset_etp_leverage_factor (sd_etp_leverage_factor m)) (\<lambda>bytes.
     write_char bytes stock_directory_offset_inverse_indicator (sd_inverse_indicator m))))))))))))))))))"

definition encode_stock_trading_action_message :: "bytes \<Rightarrow> stock_trading_action_message \<Rightarrow> error_code \<times> bytes" where
  "encode_stock_trading_action_message bytes m =
     and_then (require_exact_encode_length bytes MT_stock_trading_action, bytes) (\<lambda>bytes.
     if \<not> is_valid_stock_trading_action_message m then (EC_invalid_argument, bytes) else
     and_then (require_valid_stock_header_for_encode (ta_header m), bytes) (\<lambda>bytes.
     and_then (encode_message_type bytes MT_stock_trading_action) (\<lambda>bytes.
     and_then (encode_header bytes (ta_header m)) (\<lambda>bytes.
     and_then (write_fixed_ascii 8 bytes stock_trading_action_offset_stock (ta_stock m)) (\<lambda>bytes.
     and_then (write_char bytes stock_trading_action_offset_trading_state (trading_state_to_char (ta_trading_state m))) (\<lambda>bytes.
     and_then (write_char bytes stock_trading_action_offset_reserved (ta_reserved m)) (\<lambda>bytes.
     write_fixed_ascii 4 bytes stock_trading_action_offset_reason (ta_reason m))))))))"

definition encode_add_order_no_mpid_message :: "bytes \<Rightarrow> add_order_no_mpid_message \<Rightarrow> error_code \<times> bytes" where
  "encode_add_order_no_mpid_message bytes m =
     and_then (require_exact_encode_length bytes MT_add_order_no_mpid, bytes) (\<lambda>bytes.
     if \<not> is_valid_add_order_no_mpid_message m then (EC_invalid_argument, bytes) else
     and_then (require_valid_stock_header_for_encode (ao_header m), bytes) (\<lambda>bytes.
     and_then (encode_message_type bytes MT_add_order_no_mpid) (\<lambda>bytes.
     and_then (encode_header bytes (ao_header m)) (\<lambda>bytes.
     and_then (write_u64_be bytes add_order_offset_order_reference_number (ao_order_reference_number m)) (\<lambda>bytes.
     and_then (write_char bytes add_order_offset_side (side_to_char (ao_side m))) (\<lambda>bytes.
     and_then (write_u32_be bytes add_order_offset_shares (ao_shares m)) (\<lambda>bytes.
     and_then (write_fixed_ascii 8 bytes add_order_offset_stock (ao_stock m)) (\<lambda>bytes.
     write_u32_be bytes add_order_offset_price (ao_price m)))))))))"

definition encode_add_order_with_mpid_message :: "bytes \<Rightarrow> add_order_with_mpid_message \<Rightarrow> error_code \<times> bytes" where
  "encode_add_order_with_mpid_message bytes m =
     and_then (require_exact_encode_length bytes MT_add_order_with_mpid, bytes) (\<lambda>bytes.
     if \<not> is_valid_add_order_with_mpid_message m then (EC_invalid_argument, bytes) else
     and_then (require_valid_stock_header_for_encode (am_header m), bytes) (\<lambda>bytes.
     and_then (encode_message_type bytes MT_add_order_with_mpid) (\<lambda>bytes.
     and_then (encode_header bytes (am_header m)) (\<lambda>bytes.
     and_then (write_u64_be bytes add_order_with_mpid_offset_order_reference_number (am_order_reference_number m)) (\<lambda>bytes.
     and_then (write_char bytes add_order_with_mpid_offset_side (side_to_char (am_side m))) (\<lambda>bytes.
     and_then (write_u32_be bytes add_order_with_mpid_offset_shares (am_shares m)) (\<lambda>bytes.
     and_then (write_fixed_ascii 8 bytes add_order_with_mpid_offset_stock (am_stock m)) (\<lambda>bytes.
     and_then (write_u32_be bytes add_order_with_mpid_offset_price (am_price m)) (\<lambda>bytes.
     write_fixed_ascii 4 bytes add_order_with_mpid_offset_attribution (am_attribution m))))))))))"

definition encode_order_executed_message :: "bytes \<Rightarrow> order_executed_message \<Rightarrow> error_code \<times> bytes" where
  "encode_order_executed_message bytes m =
     and_then (require_exact_encode_length bytes MT_order_executed, bytes) (\<lambda>bytes.
     if \<not> is_valid_order_executed_message m then (EC_invalid_argument, bytes) else
     and_then (require_valid_stock_header_for_encode (oe_header m), bytes) (\<lambda>bytes.
     and_then (encode_message_type bytes MT_order_executed) (\<lambda>bytes.
     and_then (encode_header bytes (oe_header m)) (\<lambda>bytes.
     and_then (write_u64_be bytes order_executed_offset_order_reference_number (oe_order_reference_number m)) (\<lambda>bytes.
     and_then (write_u32_be bytes order_executed_offset_executed_shares (oe_executed_shares m)) (\<lambda>bytes.
     write_u64_be bytes order_executed_offset_match_number (oe_match_number m)))))))"

definition encode_order_executed_with_price_message :: "bytes \<Rightarrow> order_executed_with_price_message \<Rightarrow> error_code \<times> bytes" where
  "encode_order_executed_with_price_message bytes m =
     and_then (require_exact_encode_length bytes MT_order_executed_with_price, bytes) (\<lambda>bytes.
     if \<not> is_valid_order_executed_with_price_message m then (EC_invalid_argument, bytes) else
     and_then (require_valid_stock_header_for_encode (op_header m), bytes) (\<lambda>bytes.
     and_then (encode_message_type bytes MT_order_executed_with_price) (\<lambda>bytes.
     and_then (encode_header bytes (op_header m)) (\<lambda>bytes.
     and_then (write_u64_be bytes order_executed_with_price_offset_order_reference_number (op_order_reference_number m)) (\<lambda>bytes.
     and_then (write_u32_be bytes order_executed_with_price_offset_executed_shares (op_executed_shares m)) (\<lambda>bytes.
     and_then (write_u64_be bytes order_executed_with_price_offset_match_number (op_match_number m)) (\<lambda>bytes.
     and_then (write_char bytes order_executed_with_price_offset_printable (printable_to_char (op_printable m))) (\<lambda>bytes.
     write_u32_be bytes order_executed_with_price_offset_execution_price (op_execution_price m)))))))))"

definition encode_order_cancel_message :: "bytes \<Rightarrow> order_cancel_message \<Rightarrow> error_code \<times> bytes" where
  "encode_order_cancel_message bytes m =
     and_then (require_exact_encode_length bytes MT_order_cancel, bytes) (\<lambda>bytes.
     if \<not> is_valid_order_cancel_message m then (EC_invalid_argument, bytes) else
     and_then (require_valid_stock_header_for_encode (oc_header m), bytes) (\<lambda>bytes.
     and_then (encode_message_type bytes MT_order_cancel) (\<lambda>bytes.
     and_then (encode_header bytes (oc_header m)) (\<lambda>bytes.
     and_then (write_u64_be bytes order_cancel_offset_order_reference_number (oc_order_reference_number m)) (\<lambda>bytes.
     write_u32_be bytes order_cancel_offset_cancelled_shares (oc_cancelled_shares m))))))"

definition encode_order_delete_message :: "bytes \<Rightarrow> order_delete_message \<Rightarrow> error_code \<times> bytes" where
  "encode_order_delete_message bytes m =
     and_then (require_exact_encode_length bytes MT_order_delete, bytes) (\<lambda>bytes.
     if \<not> is_valid_order_delete_message m then (EC_invalid_argument, bytes) else
     and_then (require_valid_stock_header_for_encode (od_header m), bytes) (\<lambda>bytes.
     and_then (encode_message_type bytes MT_order_delete) (\<lambda>bytes.
     and_then (encode_header bytes (od_header m)) (\<lambda>bytes.
     write_u64_be bytes order_delete_offset_order_reference_number (od_order_reference_number m)))))"

definition encode_order_replace_message :: "bytes \<Rightarrow> order_replace_message \<Rightarrow> error_code \<times> bytes" where
  "encode_order_replace_message bytes m =
     and_then (require_exact_encode_length bytes MT_order_replace, bytes) (\<lambda>bytes.
     if \<not> is_valid_order_replace_message m then (EC_invalid_argument, bytes) else
     and_then (require_valid_stock_header_for_encode (orp_header m), bytes) (\<lambda>bytes.
     and_then (encode_message_type bytes MT_order_replace) (\<lambda>bytes.
     and_then (encode_header bytes (orp_header m)) (\<lambda>bytes.
     and_then (write_u64_be bytes order_replace_offset_original_order_reference_number (orp_original_order_reference_number m)) (\<lambda>bytes.
     and_then (write_u64_be bytes order_replace_offset_new_order_reference_number (orp_new_order_reference_number m)) (\<lambda>bytes.
     and_then (write_u32_be bytes order_replace_offset_shares (orp_shares m)) (\<lambda>bytes.
     write_u32_be bytes order_replace_offset_price (orp_price m))))))))"

definition encode_trade_non_cross_message :: "bytes \<Rightarrow> trade_non_cross_message \<Rightarrow> error_code \<times> bytes" where
  "encode_trade_non_cross_message bytes m =
     and_then (require_exact_encode_length bytes MT_trade_non_cross, bytes) (\<lambda>bytes.
     if \<not> is_valid_trade_non_cross_message m then (EC_invalid_argument, bytes) else
     and_then (require_valid_stock_header_for_encode (tn_header m), bytes) (\<lambda>bytes.
     and_then (encode_message_type bytes MT_trade_non_cross) (\<lambda>bytes.
     and_then (encode_header bytes (tn_header m)) (\<lambda>bytes.
     and_then (write_u64_be bytes trade_non_cross_offset_order_reference_number (tn_order_reference_number m)) (\<lambda>bytes.
     and_then (write_char bytes trade_non_cross_offset_side (side_to_char (tn_side m))) (\<lambda>bytes.
     and_then (write_u32_be bytes trade_non_cross_offset_shares (tn_shares m)) (\<lambda>bytes.
     and_then (write_fixed_ascii 8 bytes trade_non_cross_offset_stock (tn_stock m)) (\<lambda>bytes.
     and_then (write_u32_be bytes trade_non_cross_offset_price (tn_price m)) (\<lambda>bytes.
     write_u64_be bytes trade_non_cross_offset_match_number (tn_match_number m))))))))))"

definition encode_cross_trade_message :: "bytes \<Rightarrow> cross_trade_message \<Rightarrow> error_code \<times> bytes" where
  "encode_cross_trade_message bytes m =
     and_then (require_exact_encode_length bytes MT_cross_trade, bytes) (\<lambda>bytes.
     if \<not> is_valid_cross_trade_message m then (EC_invalid_argument, bytes) else
     and_then (require_valid_stock_header_for_encode (ct_header m), bytes) (\<lambda>bytes.
     and_then (encode_message_type bytes MT_cross_trade) (\<lambda>bytes.
     and_then (encode_header bytes (ct_header m)) (\<lambda>bytes.
     and_then (write_u64_be bytes cross_trade_offset_shares (ct_shares m)) (\<lambda>bytes.
     and_then (write_fixed_ascii 8 bytes cross_trade_offset_stock (ct_stock m)) (\<lambda>bytes.
     and_then (write_u32_be bytes cross_trade_offset_cross_price (ct_cross_price m)) (\<lambda>bytes.
     and_then (write_u64_be bytes cross_trade_offset_match_number (ct_match_number m)) (\<lambda>bytes.
     write_char bytes cross_trade_offset_cross_type (cross_type_to_char (ct_cross_type m))))))))))"

definition encode_broken_trade_message :: "bytes \<Rightarrow> broken_trade_message \<Rightarrow> error_code \<times> bytes" where
  "encode_broken_trade_message bytes m =
     and_then (require_exact_encode_length bytes MT_broken_trade, bytes) (\<lambda>bytes.
     if \<not> is_valid_broken_trade_message m then (EC_invalid_argument, bytes) else
     and_then (require_valid_stock_header_for_encode (bt_header m), bytes) (\<lambda>bytes.
     and_then (encode_message_type bytes MT_broken_trade) (\<lambda>bytes.
     and_then (encode_header bytes (bt_header m)) (\<lambda>bytes.
     write_u64_be bytes broken_trade_offset_match_number (bt_match_number m)))))"

fun encode_message :: "bytes \<Rightarrow> message \<Rightarrow> error_code \<times> bytes" where
  "encode_message bytes (SystemEvent m) = encode_system_event_message bytes m"
| "encode_message bytes (StockDirectory m) = encode_stock_directory_message bytes m"
| "encode_message bytes (StockTradingAction m) = encode_stock_trading_action_message bytes m"
| "encode_message bytes (AddOrderNoMpid m) = encode_add_order_no_mpid_message bytes m"
| "encode_message bytes (AddOrderWithMpid m) = encode_add_order_with_mpid_message bytes m"
| "encode_message bytes (OrderExecuted m) = encode_order_executed_message bytes m"
| "encode_message bytes (OrderExecutedWithPrice m) = encode_order_executed_with_price_message bytes m"
| "encode_message bytes (OrderCancel m) = encode_order_cancel_message bytes m"
| "encode_message bytes (OrderDelete m) = encode_order_delete_message bytes m"
| "encode_message bytes (OrderReplace m) = encode_order_replace_message bytes m"
| "encode_message bytes (TradeNonCross m) = encode_trade_non_cross_message bytes m"
| "encode_message bytes (CrossTrade m) = encode_cross_trade_message bytes m"
| "encode_message bytes (BrokenTrade m) = encode_broken_trade_message bytes m"

section \<open>The reference layout\<close>

definition header_image :: "header \<Rightarrow> bytes" where
  "header_image h =
     be_bytes 2 (hdr_stock_locate h) @ be_bytes 2 (hdr_tracking_number h) @ be_bytes 6 (hdr_timestamp_ns h)"

fun message_image :: "message \<Rightarrow> bytes" where
  "message_image (SystemEvent m) =
     [byte_of_char (message_type_to_char MT_system_event)] @ header_image (se_header m) @ [byte_of_char (system_event_code_to_char (se_event_code m))]"
| "message_image (StockDirectory m) =
     [byte_of_char (message_type_to_char MT_stock_directory)] @ header_image (sd_header m) @ map byte_of_char (sd_stock m) @ [byte_of_char (sd_market_category m)] @ [byte_of_char (sd_financial_status_indicator m)] @ be_bytes 4 (sd_round_lot_size m) @ [byte_of_char (sd_round_lots_only m)] @ [byte_of_char (sd_issue_classification m)] @ map byte_of_char (sd_issue_sub_type m) @ [byte_of_char (sd_authenticity m)] @ [byte_of_char (sd_short_sale_threshold_indicator m)] @ [byte_of_char (sd_ipo_flag m)] @ [byte_of_char (sd_luld_reference_price_tier m)] @ [byte_of_char (sd_etp_flag m)] @ be_bytes 4 (sd_etp_leverage_factor m) @ [byte_of_char (sd_inverse_indicator m)]"
| "message_image (StockTradingAction m) =
     [byte_of_char (message_type_to_char MT_stock_trading_action)] @ header_image (ta_header m) @ map byte_of_char (ta_stock m) @ [byte_of_char (trading_state_to_char (ta_trading_state m))] @ [byte_of_char (ta_reserved m)] @ map byte_of_char (ta_reason m)"
| "message_image (AddOrderNoMpid m) =
     [byte_of_char (message_type_to_char MT_add_order_no_mpid)] @ header_image (ao_header m) @ be_bytes 8 (ao_order_reference_number m) @ [byte_of_char (side_to_char (ao_side m))] @ be_bytes 4 (ao_shares m) @ map byte_of_char (ao_stock m) @ be_bytes 4 (ao_price m)"
| "message_image (AddOrderWithMpid m) =
     [byte_of_char (message_type_to_char MT_add_order_with_mpid)] @ header_image (am_header m) @ be_bytes 8 (am_order_reference_number m) @ [byte_of_char (side_to_char (am_side m))] @ be_bytes 4 (am_shares m) @ map byte_of_char (am_stock m) @ be_bytes 4 (am_price m) @ map byte_of_char (am_attribution m)"
| "message_image (OrderExecuted m) =
     [byte_of_char (message_type_to_char MT_order_executed)] @ header_image (oe_header m) @ be_bytes 8 (oe_order_reference_number m) @ be_bytes 4 (oe_executed_shares m) @ be_bytes 8 (oe_match_number m)"
| "message_image (OrderExecutedWithPrice m) =
     [byte_of_char (message_type_to_char MT_order_executed_with_price)] @ header_image (op_header m) @ be_bytes 8 (op_order_reference_number m) @ be_bytes 4 (op_executed_shares m) @ be_bytes 8 (op_match_number m) @ [byte_of_char (printable_to_char (op_printable m))] @ be_bytes 4 (op_execution_price m)"
| "message_image (OrderCancel m) =
     [byte_of_char (message_type_to_char MT_order_cancel)] @ header_image (oc_header m) @ be_bytes 8 (oc_order_reference_number m) @ be_bytes 4 (oc_cancelled_shares m)"
| "message_image (OrderDelete m) =
     [byte_of_char (message_type_to_char MT_order_delete)] @ header_image (od_header m) @ be_bytes 8 (od_order_reference_number m)"
| "message_image (OrderReplace m) =
     [byte_of_char (message_type_to_char MT_order_replace)] @ header_image (orp_header m) @ be_bytes 8 (orp_original_order_reference_number m) @ be_bytes 8 (orp_new_order_reference_number m) @ be_bytes 4 (orp_shares m) @ be_bytes 4 (orp_price m)"
| "message_image (TradeNonCross m) =
     [byte_of_char (message_type_to_char MT_trade_non_cross)] @ header_image (tn_header m) @ be_bytes 8 (tn_order_reference_number m) @ [byte_of_char (side_to_char (tn_side m))] @ be_bytes 4 (tn_shares m) @ map byte_of_char (tn_stock m) @ be_bytes 4 (tn_price m) @ be_bytes 8 (tn_match_number m)"
| "message_image (CrossTrade m) =
     [byte_of_char (message_type_to_char MT_cross_trade)] @ header_image (ct_header m) @ be_bytes 8 (ct_shares m) @ map byte_of_char (ct_stock m) @ be_bytes 4 (ct_cross_price m) @ be_bytes 8 (ct_match_number m) @ [byte_of_char (cross_type_to_char (ct_cross_type m))]"
| "message_image (BrokenTrade m) =
     [byte_of_char (message_type_to_char MT_broken_trade)] @ header_image (bt_header m) @ be_bytes 8 (bt_match_number m)"

text \<open>Which messages the codec accepts: the validator of the message's struct.\<close>

fun message_ok :: "message \<Rightarrow> bool" where
  "message_ok (SystemEvent m) \<longleftrightarrow>
     hdr_stock_locate (se_header m) = 0 \<and> is_valid_timestamp_ns (hdr_timestamp_ns (se_header m))"
| "message_ok (StockDirectory m) \<longleftrightarrow> is_valid_stock_directory_message m"
| "message_ok (StockTradingAction m) \<longleftrightarrow> is_valid_stock_trading_action_message m"
| "message_ok (AddOrderNoMpid m) \<longleftrightarrow> is_valid_add_order_no_mpid_message m"
| "message_ok (AddOrderWithMpid m) \<longleftrightarrow> is_valid_add_order_with_mpid_message m"
| "message_ok (OrderExecuted m) \<longleftrightarrow> is_valid_order_executed_message m"
| "message_ok (OrderExecutedWithPrice m) \<longleftrightarrow> is_valid_order_executed_with_price_message m"
| "message_ok (OrderCancel m) \<longleftrightarrow> is_valid_order_cancel_message m"
| "message_ok (OrderDelete m) \<longleftrightarrow> is_valid_order_delete_message m"
| "message_ok (OrderReplace m) \<longleftrightarrow> is_valid_order_replace_message m"
| "message_ok (TradeNonCross m) \<longleftrightarrow> is_valid_trade_non_cross_message m"
| "message_ok (CrossTrade m) \<longleftrightarrow> is_valid_cross_trade_message m"
| "message_ok (BrokenTrade m) \<longleftrightarrow> is_valid_broken_trade_message m"

lemmas decode_defs =
  decode_system_event_message_def
  decode_stock_directory_message_def
  decode_stock_trading_action_message_def
  decode_add_order_no_mpid_message_def
  decode_add_order_with_mpid_message_def
  decode_order_executed_message_def
  decode_order_executed_with_price_message_def
  decode_order_cancel_message_def
  decode_order_delete_message_def
  decode_order_replace_message_def
  decode_trade_non_cross_message_def
  decode_cross_trade_message_def
  decode_broken_trade_message_def

lemmas encode_defs =
  encode_system_event_message_def
  encode_stock_directory_message_def
  encode_stock_trading_action_message_def
  encode_add_order_no_mpid_message_def
  encode_add_order_with_mpid_message_def
  encode_order_executed_message_def
  encode_order_executed_with_price_message_def
  encode_order_cancel_message_def
  encode_order_delete_message_def
  encode_order_replace_message_def
  encode_trade_non_cross_message_def
  encode_cross_trade_message_def
  encode_broken_trade_message_def

section \<open>Field inversion\<close>

interpretation char_field: wire_field 1 "\<lambda>_. True" "\<lambda>_. True" "\<lambda>c. [byte_of_char c]" read_char write_char
proof -
  have ok: "read_char bs off = Ok c \<longleftrightarrow> read_u8 bs off = Ok (byte_of_char c)" for bs off c
    unfolding read_char_def by (auto simp: result_bind_eq_Ok)
  have fail: "read_char bs off = Fail e \<longleftrightarrow> read_u8 bs off = Fail e" for bs off e
    unfolding read_char_def by (cases "read_u8 bs off") auto
  show "wire_field 1 (\<lambda>_. True) (\<lambda>_. True) (\<lambda>c. [byte_of_char c]) read_char write_char"
    by unfold_locales
      (auto simp: ok fail write_char_def u8_field.rd_Ok_iff u8_field.wr_out_of_range u8_field.wr_valid
        u8_field.rd_out_of_range dest: u8_field.rd_error)
qed

lemmas field_rd_Ok =
  char_field.rd_Ok_iff u16_field.rd_Ok_iff u32_field.rd_Ok_iff u48_field.rd_Ok_iff
  u64_field.rd_Ok_iff ascii_field.rd_Ok_iff

lemmas field_wr_valid =
  char_field.wr_valid u16_field.wr_valid u32_field.wr_valid u48_field.wr_valid
  u64_field.wr_valid ascii_field.wr_valid

lemma length_header_image [simp]: "length (header_image h) = 10"
  by (simp add: header_image_def)

lemma header_image_inj:
  "is_valid_timestamp_ns (hdr_timestamp_ns g) \<Longrightarrow> is_valid_timestamp_ns (hdr_timestamp_ns h) \<Longrightarrow>
   header_image g = header_image h \<longleftrightarrow> g = h"
  by (cases g; cases h)
     (auto simp: header_image_def be_bytes_inj be_bytes_inject take_bit_48_iff valid_timestamp_48)


lemma decode_message_type_Ok:
  "decode_message_type bs = Ok t \<longleftrightarrow> has_range bs 0 1 \<and> [byte_of_char (message_type_to_char t)] = seg bs 0 1"
  by (auto simp: decode_message_type_def result_inversion field_rd_Ok message_type_from_char_Ok)

lemma header_image_seg:
  assumes "has_range bs 0 11"
  shows "header_image h = seg bs 1 10 \<longleftrightarrow>
    be_bytes 2 (hdr_stock_locate h) = seg bs 1 2 \<and> be_bytes 2 (hdr_tracking_number h) = seg bs 3 2
    \<and> be_bytes 6 (hdr_timestamp_ns h) = seg bs 5 6"
proof -
  have "seg bs 1 10 = seg bs 1 2 @ seg bs 3 2 @ seg bs 5 6"
    by (simp add: seg_join)
  with assms show ?thesis by (simp add: has_range_length header_image_def append_eq_append_conv)
qed

lemma decode_header_Ok:
  "decode_header bs = Ok h \<longleftrightarrow>
     has_range bs 0 11 \<and> is_valid_timestamp_ns (hdr_timestamp_ns h) \<and> header_image h = seg bs 1 10"
  by (cases h) (auto simp: decode_header_def result_inversion field_rd_Ok Let_def header_image_seg
      valid_timestamp_48 has_range_length simp del: One_nat_def split: if_splits)

lemma message_type_from_char_Fail: "message_type_from_char c = Fail e \<Longrightarrow> e = EC_parse_error"
  unfolding message_type_from_char_def by (elim if_FailE) auto

lemma decode_message_type_Fail: "decode_message_type bs = Fail e \<Longrightarrow> e = EC_parse_error"
  by (cases "read_char bs 0")
     (auto simp: decode_message_type_def dest: char_field.rd_error message_type_from_char_Fail)

lemma message_length_Ok: "message_length t = Ok n \<Longrightarrow> 12 \<le> n"
  by (cases t) auto

lemma message_length_Fail: "message_length t = Fail e \<Longrightarrow> e = EC_unsupported"
  by (cases t) auto

lemma exact_type_and_length_ok:
  "require_exact_message_type_and_length bs t = EC_ok \<longleftrightarrow>
     [byte_of_char (message_type_to_char t)] = seg bs 0 1 \<and> message_length t = Ok (length bs)"
proof (cases "decode_message_type bs")
  case (Fail e)
  then have "e = EC_parse_error" by (rule decode_message_type_Fail)
  with Fail show ?thesis
    using decode_message_type_Ok [of bs t] message_length_Ok [of t "length bs"]
    by (auto simp: require_exact_message_type_and_length_def has_range_length)
next
  case (Ok u)
  then show ?thesis
    using decode_message_type_Ok [of bs t] decode_message_type_Ok [of bs u] message_length_Fail [of t]
    by (auto simp: require_exact_message_type_and_length_def split: result.splits)
qed

lemma require_valid_header_ok [simp]:
  "require_valid_header_for_stock_message h = EC_ok \<longleftrightarrow> is_valid_header_for_stock_message h"
  "require_valid_system_event_header h = EC_ok \<longleftrightarrow>
     hdr_stock_locate h = 0 \<and> is_valid_timestamp_ns (hdr_timestamp_ns h)"
  by (auto simp: require_valid_header_for_stock_message_def require_valid_system_event_header_def)

lemma header_valid_timestamp:
  "is_valid_header_for_stock_message h \<Longrightarrow> is_valid_timestamp_ns (hdr_timestamp_ns h)"
  by (simp add: is_valid_header_for_stock_message_def)

lemma enum_to_char_inj:
  "system_event_code_to_char a = system_event_code_to_char a' \<longleftrightarrow> a = a'"
  "side_to_char b = side_to_char b' \<longleftrightarrow> b = b'"
  "printable_to_char c = printable_to_char c' \<longleftrightarrow> c = c'"
  "cross_type_to_char d = cross_type_to_char d' \<longleftrightarrow> d = d'"
  "trading_state_to_char e = trading_state_to_char e' \<longleftrightarrow> e = e'"
  by (metis result.inject(2) system_event_code_from_to_char, metis result.inject(2) side_from_to_char,
      metis result.inject(2) printable_from_to_char, metis result.inject(2) cross_type_from_to_char,
      metis result.inject(2) trading_state_from_to_char)

lemmas decode_simps =
  result_inversion Let_def if_valid_eq_Ok field_rd_Ok enum_from_char_Ok
  exact_type_and_length_ok decode_header_Ok has_range_length

lemmas image_simps =
  seg_join seg_all seg_append_take seg_append_skip header_valid_timestamp
  header_image_inj be_bytes_inj map_byte_of_char_inj enum_to_char_inj

section \<open>Decoding accepts exactly the reference layout\<close>

lemma decode_system_event_iff:
  "decode_system_event_message bs = Ok m \<longleftrightarrow>
     message_ok (SystemEvent m) \<and> typed_message (SystemEvent m) \<and> bs = message_image (SystemEvent m)"
  by (cases m) (auto simp: decode_defs message_valid_defs decode_simps image_simps
    simp del: One_nat_def append.simps cong: conj_cong)

lemma decode_stock_directory_iff:
  "decode_stock_directory_message bs = Ok m \<longleftrightarrow>
     message_ok (StockDirectory m) \<and> typed_message (StockDirectory m) \<and> bs = message_image (StockDirectory m)"
  by (cases m) (auto simp: decode_defs message_valid_defs decode_simps image_simps
    simp del: One_nat_def append.simps cong: conj_cong)

lemma decode_stock_trading_action_iff:
  "decode_stock_trading_action_message bs = Ok m \<longleftrightarrow>
     message_ok (StockTradingAction m) \<and> typed_message (StockTradingAction m) \<and> bs = message_image (StockTradingAction m)"
  by (cases m) (auto simp: decode_defs message_valid_defs decode_simps image_simps
    simp del: One_nat_def append.simps cong: conj_cong)

lemma decode_add_order_no_mpid_iff:
  "decode_add_order_no_mpid_message bs = Ok m \<longleftrightarrow>
     message_ok (AddOrderNoMpid m) \<and> typed_message (AddOrderNoMpid m) \<and> bs = message_image (AddOrderNoMpid m)"
  by (cases m) (auto simp: decode_defs message_valid_defs decode_simps image_simps
    simp del: One_nat_def append.simps cong: conj_cong)

lemma decode_add_order_with_mpid_iff:
  "decode_add_order_with_mpid_message bs = Ok m \<longleftrightarrow>
     message_ok (AddOrderWithMpid m) \<and> typed_message (AddOrderWithMpid m) \<and> bs = message_image (AddOrderWithMpid m)"
  by (cases m) (auto simp: decode_defs message_valid_defs decode_simps image_simps
    simp del: One_nat_def append.simps cong: conj_cong)

lemma decode_order_executed_iff:
  "decode_order_executed_message bs = Ok m \<longleftrightarrow>
     message_ok (OrderExecuted m) \<and> typed_message (OrderExecuted m) \<and> bs = message_image (OrderExecuted m)"
  by (cases m) (auto simp: decode_defs message_valid_defs decode_simps image_simps
    simp del: One_nat_def append.simps cong: conj_cong)

lemma decode_order_executed_with_price_iff:
  "decode_order_executed_with_price_message bs = Ok m \<longleftrightarrow>
     message_ok (OrderExecutedWithPrice m) \<and> typed_message (OrderExecutedWithPrice m) \<and> bs = message_image (OrderExecutedWithPrice m)"
  by (cases m) (auto simp: decode_defs message_valid_defs decode_simps image_simps
    simp del: One_nat_def append.simps cong: conj_cong)

lemma decode_order_cancel_iff:
  "decode_order_cancel_message bs = Ok m \<longleftrightarrow>
     message_ok (OrderCancel m) \<and> typed_message (OrderCancel m) \<and> bs = message_image (OrderCancel m)"
  by (cases m) (auto simp: decode_defs message_valid_defs decode_simps image_simps
    simp del: One_nat_def append.simps cong: conj_cong)

lemma decode_order_delete_iff:
  "decode_order_delete_message bs = Ok m \<longleftrightarrow>
     message_ok (OrderDelete m) \<and> typed_message (OrderDelete m) \<and> bs = message_image (OrderDelete m)"
  by (cases m) (auto simp: decode_defs message_valid_defs decode_simps image_simps
    simp del: One_nat_def append.simps cong: conj_cong)

lemma decode_order_replace_iff:
  "decode_order_replace_message bs = Ok m \<longleftrightarrow>
     message_ok (OrderReplace m) \<and> typed_message (OrderReplace m) \<and> bs = message_image (OrderReplace m)"
  by (cases m) (auto simp: decode_defs message_valid_defs decode_simps image_simps
    simp del: One_nat_def append.simps cong: conj_cong)

lemma decode_trade_non_cross_iff:
  "decode_trade_non_cross_message bs = Ok m \<longleftrightarrow>
     message_ok (TradeNonCross m) \<and> typed_message (TradeNonCross m) \<and> bs = message_image (TradeNonCross m)"
  by (cases m) (auto simp: decode_defs message_valid_defs decode_simps image_simps
    simp del: One_nat_def append.simps cong: conj_cong)

lemma decode_cross_trade_iff:
  "decode_cross_trade_message bs = Ok m \<longleftrightarrow>
     message_ok (CrossTrade m) \<and> typed_message (CrossTrade m) \<and> bs = message_image (CrossTrade m)"
  by (cases m) (auto simp: decode_defs message_valid_defs decode_simps image_simps
    simp del: One_nat_def append.simps cong: conj_cong)

lemma decode_broken_trade_iff:
  "decode_broken_trade_message bs = Ok m \<longleftrightarrow>
     message_ok (BrokenTrade m) \<and> typed_message (BrokenTrade m) \<and> bs = message_image (BrokenTrade m)"
  by (cases m) (auto simp: decode_defs message_valid_defs decode_simps image_simps
    simp del: One_nat_def append.simps cong: conj_cong)

lemmas decode_iffs =
  decode_system_event_iff
  decode_stock_directory_iff
  decode_stock_trading_action_iff
  decode_add_order_no_mpid_iff
  decode_add_order_with_mpid_iff
  decode_order_executed_iff
  decode_order_executed_with_price_iff
  decode_order_cancel_iff
  decode_order_delete_iff
  decode_order_replace_iff
  decode_trade_non_cross_iff
  decode_cross_trade_iff
  decode_broken_trade_iff

lemma length_message_image: "typed_message m \<Longrightarrow> length (message_image m) = wire_length m"
  by (cases m) auto

lemma decode_message_type_image: "decode_message_type (message_image m) = Ok (message_type_of m)"
  by (cases m) (auto simp: decode_message_type_Ok has_range_length seg_def)

lemma decode_message_iff:
  "decode_message bs = Ok m \<longleftrightarrow> message_ok m \<and> typed_message m \<and> bs = message_image m"
proof
  assume "decode_message bs = Ok m"
  then obtain t where "decode_message_type bs = Ok t" and "decode_message bs = Ok m"
    by (auto simp: decode_message_def result_inversion)
  then show "message_ok m \<and> typed_message m \<and> bs = message_image m"
    by (cases t) (auto simp: decode_message_def result_inversion decode_iffs simp del: message_ok.simps
      typed_message.simps message_image.simps)
next
  assume r: "message_ok m \<and> typed_message m \<and> bs = message_image m"
  then have "decode_message_type bs = Ok (message_type_of m)"
    by (simp add: decode_message_type_image)
  with r show "decode_message bs = Ok m"
    by (cases m) (simp_all add: decode_message_def result_inversion decode_iffs del: message_image.simps)
qed

section \<open>Decoding errors\<close>

text \<open>Every decoder reports its failures as \<^verbatim>\<open>parse_error\<close>.\<close>

lemmas char_parse_errors [parse_error_intros] = char_field.rd_only_parse_errors

lemma only_parse_errors_enums [parse_error_intros]:
  "only_parse_errors (system_event_code_from_char c)" "only_parse_errors (side_from_char c)"
  "only_parse_errors (printable_from_char c)" "only_parse_errors (cross_type_from_char c)"
  "only_parse_errors (trading_state_from_char c)"
  by (auto simp: system_event_code_from_char_def side_from_char_def printable_from_char_def
    cross_type_from_char_def trading_state_from_char_def intro!: parse_error_intros)

lemma only_parse_errors_header [parse_error_intros]: "only_parse_errors (decode_header bs)"
  unfolding decode_header_def by (intro parse_error_intros)

lemma require_header_errors [simp, parse_error_intros]:
  "require_valid_header_for_stock_message h \<in> {EC_ok, EC_parse_error}"
  "require_valid_system_event_header h \<in> {EC_ok, EC_parse_error}"
  by (auto simp: require_valid_header_for_stock_message_def require_valid_system_event_header_def)

lemma exact_type_and_length_errors [parse_error_intros]:
  "is_decode_supported t \<Longrightarrow> require_exact_message_type_and_length bs t \<in> {EC_ok, EC_parse_error}"
  by (cases t) (auto simp: require_exact_message_type_and_length_def dest: decode_message_type_Fail
    split: result.splits)

lemma decoders_only_parse_errors:
  "only_parse_errors (decode_system_event_message bs)"
  "only_parse_errors (decode_stock_directory_message bs)"
  "only_parse_errors (decode_stock_trading_action_message bs)"
  "only_parse_errors (decode_add_order_no_mpid_message bs)"
  "only_parse_errors (decode_add_order_with_mpid_message bs)"
  "only_parse_errors (decode_order_executed_message bs)"
  "only_parse_errors (decode_order_executed_with_price_message bs)"
  "only_parse_errors (decode_order_cancel_message bs)"
  "only_parse_errors (decode_order_delete_message bs)"
  "only_parse_errors (decode_order_replace_message bs)"
  "only_parse_errors (decode_trade_non_cross_message bs)"
  "only_parse_errors (decode_cross_trade_message bs)"
  "only_parse_errors (decode_broken_trade_message bs)"
  unfolding decode_defs by (intro parse_error_intros, simp)+

lemma bind_not_unsupported:
  "only_parse_errors r \<Longrightarrow> result_bind r (\<lambda>m. Ok (f m)) \<noteq> Fail EC_unsupported"
  by (cases r) (auto simp: only_parse_errors_def)

lemma decode_message_unsupported_iff:
  "decode_message bs = Fail EC_unsupported \<longleftrightarrow>
     (\<exists>t. decode_message_type bs = Ok t \<and> \<not> is_decode_supported t)"
proof (cases "decode_message_type bs")
  case (Fail e)
  then show ?thesis using decode_message_type_Fail [OF Fail] by (simp add: decode_message_def)
next
  case (Ok t)
  show ?thesis
    by (cases t) (simp_all add: Ok decode_message_def bind_not_unsupported decoders_only_parse_errors)
qed

section \<open>Encoding writes exactly the reference layout\<close>

lemma encode_header_valid:
  "has_range bs 0 11 \<Longrightarrow> is_valid_timestamp_ns (hdr_timestamp_ns h) \<Longrightarrow>
   encode_header bs h = (EC_ok, put bs 1 (header_image h))"
  by (simp add: encode_header_def field_wr_valid has_range_length valid_timestamp_48 put_put_append header_image_def)

lemma encode_message_type_valid:
  "has_range bs 0 1 \<Longrightarrow> encode_message_type bs t = (EC_ok, put bs 0 [byte_of_char (message_type_to_char t)])"
  by (simp add: encode_message_type_def field_wr_valid)

lemmas encode_simps =
  require_exact_encode_length_def require_valid_stock_header_for_encode_def
  require_valid_system_event_for_encode_def encode_header_valid encode_message_type_valid
  field_wr_valid has_range_length put_put_append put_all header_valid_timestamp

lemma encode_message_valid:
  assumes "length bs = wire_length m" "typed_message m" "message_ok m"
  shows "encode_message bs m = (EC_ok, message_image m)"
  using assms
  by (cases m) (simp_all add: encode_defs message_valid_defs encode_simps del: One_nat_def append.simps)

lemma encode_message_invalid:
  assumes "length bs = wire_length m" "\<not> message_ok m"
  shows "encode_message bs m = (EC_invalid_argument, bs)"
  using assms
  by (cases m) (auto simp: encode_defs encode_simps and_then_def)

lemma encode_message_wrong_length:
  assumes "length bs \<noteq> wire_length m"
  shows "encode_message bs m = (EC_parse_error, bs)"
  using assms
  by (cases m) (simp_all add: encode_defs require_exact_encode_length_def and_then_def)

section \<open>Properties\<close>

text \<open>A concrete message for the witnesses: buy 300 AAPL at 150.2500, order 7, locate 12.\<close>

definition sample_header :: header where
  "sample_header = \<lparr>hdr_stock_locate = 12, hdr_tracking_number = 1, hdr_timestamp_ns = 34200000000000\<rparr>"

definition sample_add :: add_order_no_mpid_message where
  "sample_add = \<lparr>ao_header = sample_header, ao_order_reference_number = 7, ao_side = Buy,
     ao_shares = 300, ao_stock = ''AAPL    '', ao_price = 1502500\<rparr>"

lemma sample_add_ok:
  "message_ok (AddOrderNoMpid sample_add)" "typed_message (AddOrderNoMpid sample_add)"
  by (simp_all add: sample_add_def sample_header_def is_valid_add_order_no_mpid_message_def
    is_valid_header_for_stock_message_def is_valid_stock_locate_def is_valid_timestamp_ns_def
    is_valid_order_reference_number_def is_valid_shares_def is_valid_price4_def
    is_valid_fixed_ascii_def is_printable_ascii_or_space_def byte_of_char_def)

text \<open>
  C3: Encode then decode. Whenever the encoder accepts a message (whose fixed-width strings have
  the width of their C++ arrays), decoding the bytes it wrote gives back that very message. This
  covers all thirteen message structs, through the dispatching \<^verbatim>\<open>encode_message\<close> and
  \<^verbatim>\<open>decode_message\<close>.
\<close>

theorem itch_decode_after_encode:
  assumes "typed_message m" and "encode_message bs m = (EC_ok, bs')"
  shows "decode_message bs' = Ok m"
  using assms encode_message_valid [of bs m] encode_message_invalid [of bs m]
    encode_message_wrong_length [of bs m]
  by (cases "length bs = wire_length m"; cases "message_ok m") (auto simp: decode_message_iff)

theorem itch_decode_after_encode_witness:
  "\<exists>bs'. encode_message (replicate 36 0) (AddOrderNoMpid sample_add) = (EC_ok, bs')
     \<and> decode_message bs' = Ok (AddOrderNoMpid sample_add)"
proof -
  have "encode_message (replicate 36 0) (AddOrderNoMpid sample_add) =
      (EC_ok, message_image (AddOrderNoMpid sample_add))"
    by (rule encode_message_valid) (simp_all add: sample_add_ok del: message_ok.simps typed_message.simps)
  with itch_decode_after_encode [OF sample_add_ok(2) this] show ?thesis by blast
qed

text \<open>
  C4: Decode then encode, byte for byte. If a byte string decodes to a message, then encoding that
  message into any buffer of the same length reproduces the byte string exactly: the decoder
  accepts only canonical encodings, and every byte of the message is written by the encoder.
\<close>

theorem itch_encode_after_decode:
  assumes "decode_message bs = Ok m" and "length buf = length bs"
  shows "encode_message buf m = (EC_ok, bs)"
  using assms length_message_image [of m] encode_message_valid [of buf m]
  by (auto simp: decode_message_iff)

theorem itch_encode_after_decode_witness:
  "decode_message (message_image (AddOrderNoMpid sample_add)) = Ok (AddOrderNoMpid sample_add)
   \<and> encode_message (replicate 36 255) (AddOrderNoMpid sample_add)
     = (EC_ok, message_image (AddOrderNoMpid sample_add))"
proof -
  have d: "decode_message (message_image (AddOrderNoMpid sample_add)) = Ok (AddOrderNoMpid sample_add)"
    unfolding decode_message_iff using sample_add_ok by blast
  moreover have "length (replicate 36 (255 :: u8)) = length (message_image (AddOrderNoMpid sample_add))"
    using length_message_image [OF sample_add_ok(2)] by simp
  ultimately show ?thesis using itch_encode_after_decode [OF d] by blast
qed

text \<open>
  Every branch of the encoder. A buffer of the wrong length is reported as \<^verbatim>\<open>parse_error\<close>, an
  invalid message as \<^verbatim>\<open>invalid_argument\<close>, in both cases with the buffer untouched; otherwise the
  whole buffer becomes the reference layout of the message.
\<close>

theorem itch_encode_branches:
  assumes "typed_message m"
  shows "encode_message bs m =
    (if length bs \<noteq> wire_length m then (EC_parse_error, bs)
     else if \<not> message_ok m then (EC_invalid_argument, bs)
     else (EC_ok, message_image m))"
  using assms encode_message_valid encode_message_invalid encode_message_wrong_length by auto

theorem itch_encode_branches_witness:
  "encode_message [0, 1] (AddOrderNoMpid sample_add) = (EC_parse_error, [0, 1])"
  using itch_encode_branches [OF sample_add_ok(2), of "[0, 1]"] by simp

text \<open>
  Decoding errors. A failed decode reports \<^verbatim>\<open>unsupported\<close> exactly when the first byte is one
  of the ten known message types without a decoder, and \<^verbatim>\<open>parse_error\<close> in every other case; no
  other error code escapes.
\<close>

theorem itch_decode_errors:
  assumes "decode_message bs = Fail e"
  shows "e = (if \<exists>t. decode_message_type bs = Ok t \<and> \<not> is_decode_supported t
              then EC_unsupported else EC_parse_error)"
proof (cases "decode_message_type bs")
  case (Fail e')
  with assms decode_message_type_Fail [OF Fail] show ?thesis by (simp add: decode_message_def)
next
  case (Ok t)
  with assms decode_message_unsupported_iff [of bs] show ?thesis
    using decoders_only_parse_errors [of bs, unfolded only_parse_errors_def]
    by (cases t) (auto simp: decode_message_def elim!: result_bind_FailE)
qed

theorem itch_decode_errors_witness:
  "decode_message [byte_of_char CHR ''Y''] = Fail EC_unsupported"
proof -
  have "decode_message [byte_of_char CHR ''Y''] = Fail EC_unsupported"
    by (simp add: decode_message_def decode_message_type_def read_char_def read_u8_def has_range_def
      message_type_from_char_def)
  from itch_decode_errors [OF this] this show ?thesis by simp
qed

end

