(* ===== verification/Moldudp64.thy ===== *)
theory Moldudp64
  imports Wire
begin

text \<open>
  The MoldUDP64 transport: \<^verbatim>\<open>include/fgep/moldudp64\<close> and \<^verbatim>\<open>src/moldudp64\<close>. A session
  (\<^verbatim>\<open>std::array<std::byte, 10>\<close>) is a byte list, a payload span is the byte list it covers.

  \<open>packet_image\<close> is the wire format of a packet. The decoder accepts exactly the images of the
  packets that satisfy \<open>decodable\<close>; the encoder writes the image of every packet that satisfies
  \<open>encodable\<close>, which is weaker.
\<close>

section \<open>Types\<close>

type_synonym session = bytes

abbreviation (input) "length_session \<equiv> 10 :: nat"
abbreviation (input) "length_downstream_header \<equiv> 20 :: nat"
abbreviation (input) "offset_session \<equiv> 0 :: nat"
abbreviation (input) "offset_sequence_number \<equiv> 10 :: nat"
abbreviation (input) "offset_message_count \<equiv> 18 :: nat"
abbreviation (input) "length_request_packet \<equiv> 20 :: nat"

definition heartbeat_message_count :: u16 where
  "heartbeat_message_count = 0"

definition end_of_session_message_count :: u16 where
  "end_of_session_message_count = 0xFFFF"

datatype packet_kind = PK_data | PK_heartbeat | PK_end_of_session

record message_block =
  mb_sequence_number :: u64
  mb_payload :: bytes

record downstream_packet =
  dp_session :: session
  dp_first_sequence_number :: u64
  dp_message_count :: u16
  dp_kind :: packet_kind
  dp_messages :: "message_block list"

record request_packet =
  rp_session :: session
  rp_sequence_number :: u64
  rp_requested_message_count :: u16

definition is_special_message_count :: "u16 \<Rightarrow> bool" where
  "is_special_message_count message_count \<longleftrightarrow>
     message_count = heartbeat_message_count \<or> message_count = end_of_session_message_count"

definition session_equals :: "session \<Rightarrow> string \<Rightarrow> bool" where
  "session_equals session text \<longleftrightarrow>
     length text = length session \<and> list_all (\<lambda>i. session ! i = byte_of_char (text ! i)) [0..<length session]"

definition packet_kind_from_message_count :: "u16 \<Rightarrow> packet_kind" where
  "packet_kind_from_message_count message_count =
     (if message_count = heartbeat_message_count then PK_heartbeat
      else if message_count = end_of_session_message_count then PK_end_of_session
      else PK_data)"

section \<open>Decoding\<close>

definition read_session :: "bytes \<Rightarrow> nat \<Rightarrow> session result" where
  "read_session bytes offset =
     (if \<not> has_range bytes offset length_session then Fail EC_parse_error
      else Ok (seg bytes offset length_session))"

definition sequence_number_would_wrap :: "u64 \<Rightarrow> nat \<Rightarrow> bool" where
  "sequence_number_would_wrap first index \<longleftrightarrow> first > (- 1) - of_nat index"

text \<open>The message loop: \<open>index\<close> and \<open>offset\<close> are its variables, \<open>n\<close> the messages still to read.\<close>

fun decode_blocks :: "bytes \<Rightarrow> u64 \<Rightarrow> nat \<Rightarrow> nat \<Rightarrow> nat \<Rightarrow> (message_block list \<times> nat) result" where
  "decode_blocks bytes first 0 index offset = Ok ([], offset)"
| "decode_blocks bytes first (Suc n) index offset =
     (if sequence_number_would_wrap first index then Fail EC_parse_error
      else result_bind (read_u16_be bytes offset) (\<lambda>message_length.
        let offset1 = offset + 2 in
        if \<not> has_range bytes offset1 (unat message_length) then Fail EC_parse_error
        else
          let block = \<lparr>mb_sequence_number = first + of_nat index,
                       mb_payload = seg bytes offset1 (unat message_length)\<rparr>
          in result_bind (decode_blocks bytes first n (Suc index) (offset1 + unat message_length))
               (\<lambda>(blocks, end_offset). Ok (block # blocks, end_offset))))"

definition decode_downstream_packet :: "bytes \<Rightarrow> downstream_packet result" where
  "decode_downstream_packet bytes =
     (if \<not> has_range bytes 0 length_downstream_header then Fail EC_parse_error
      else result_bind (read_session bytes offset_session) (\<lambda>session.
        result_bind (read_u64_be bytes offset_sequence_number) (\<lambda>sequence_number.
        result_bind (read_u16_be bytes offset_message_count) (\<lambda>message_count.
        let packet = \<lparr>dp_session = session, dp_first_sequence_number = sequence_number,
              dp_message_count = message_count,
              dp_kind = packet_kind_from_message_count message_count, dp_messages = []\<rparr>
        in if is_special_message_count message_count
           then if length bytes \<noteq> length_downstream_header then Fail EC_parse_error else Ok packet
           else result_bind
             (decode_blocks bytes sequence_number (unat message_count) 0 length_downstream_header)
             (\<lambda>(blocks, offset).
               if offset \<noteq> length bytes then Fail EC_parse_error
               else Ok (packet\<lparr>dp_messages := blocks\<rparr>))))))"

definition decode_request_packet :: "bytes \<Rightarrow> request_packet result" where
  "decode_request_packet bytes =
     (if length bytes \<noteq> length_request_packet then Fail EC_parse_error
      else result_bind (read_session bytes 0) (\<lambda>session.
        result_bind (read_u64_be bytes 10) (\<lambda>sequence_number.
        result_bind (read_u16_be bytes 18) (\<lambda>requested_message_count.
        Ok \<lparr>rp_session = session, rp_sequence_number = sequence_number,
            rp_requested_message_count = requested_message_count\<rparr>))))"

section \<open>Encoding\<close>

definition write_session :: "bytes \<Rightarrow> nat \<Rightarrow> session \<Rightarrow> error_code \<times> bytes" where
  "write_session bytes offset session =
     (if \<not> has_range bytes offset length_session then (EC_parse_error, bytes)
      else (EC_ok, put bytes offset (take length_session session)))"

definition encode_request_packet :: "bytes \<Rightarrow> request_packet \<Rightarrow> error_code \<times> bytes" where
  "encode_request_packet bytes packet =
     (if length bytes \<noteq> length_request_packet then (EC_parse_error, bytes)
      else and_then (write_session bytes 0 (rp_session packet)) (\<lambda>bytes.
        and_then (write_u64_be bytes 10 (rp_sequence_number packet)) (\<lambda>bytes.
        write_u16_be bytes 18 (rp_requested_message_count packet))))"

definition downstream_packet_encoded_length :: "downstream_packet \<Rightarrow> nat" where
  "downstream_packet_encoded_length packet =
     (if dp_kind packet \<noteq> PK_data then length_downstream_header
      else foldl (\<lambda>total message. total + (2 + length (mb_payload message)))
             length_downstream_header (dp_messages packet))"

definition encode_downstream_header :: "bytes \<Rightarrow> downstream_packet \<Rightarrow> error_code \<times> bytes" where
  "encode_downstream_header bytes packet =
     and_then (write_session bytes offset_session (dp_session packet)) (\<lambda>bytes.
       and_then (write_u64_be bytes offset_sequence_number (dp_first_sequence_number packet)) (\<lambda>bytes.
       write_u16_be bytes offset_message_count (dp_message_count packet)))"

fun encode_blocks :: "u64 \<Rightarrow> nat \<Rightarrow> nat \<Rightarrow> message_block list \<Rightarrow> bytes \<Rightarrow> error_code \<times> bytes" where
  "encode_blocks first index offset [] bytes = (EC_ok, bytes)"
| "encode_blocks first index offset (message # messages) bytes =
     (if mb_sequence_number message \<noteq> first + of_nat index then (EC_invalid_argument, bytes)
      else if length (mb_payload message) > 65535 then (EC_invalid_argument, bytes)
      else and_then (write_u16_be bytes offset (of_nat (length (mb_payload message)))) (\<lambda>bytes.
        let offset1 = offset + 2;
            bytes1 = put bytes offset1 (mb_payload message)
        in encode_blocks first (Suc index) (offset1 + length (mb_payload message)) messages bytes1))"

definition encode_downstream_packet :: "bytes \<Rightarrow> downstream_packet \<Rightarrow> error_code \<times> bytes" where
  "encode_downstream_packet bytes packet =
     (if length bytes \<noteq> downstream_packet_encoded_length packet then (EC_parse_error, bytes)
      else if dp_kind packet \<noteq> PK_data then
        if dp_messages packet \<noteq> [] then (EC_invalid_argument, bytes)
        else if dp_kind packet = PK_heartbeat \<and> dp_message_count packet \<noteq> heartbeat_message_count
        then (EC_invalid_argument, bytes)
        else if dp_kind packet = PK_end_of_session \<and> dp_message_count packet \<noteq> end_of_session_message_count
        then (EC_invalid_argument, bytes)
        else encode_downstream_header bytes packet
      else if length (dp_messages packet) \<noteq> unat (dp_message_count packet) then (EC_invalid_argument, bytes)
      else and_then (encode_downstream_header bytes packet) (\<lambda>bytes.
        encode_blocks (dp_first_sequence_number packet) 0 length_downstream_header (dp_messages packet) bytes))"

section \<open>The wire format\<close>

definition block_image :: "message_block \<Rightarrow> bytes" where
  "block_image m = be_bytes 2 (of_nat (length (mb_payload m)) :: u16) @ mb_payload m"

definition blocks_image :: "message_block list \<Rightarrow> bytes" where
  "blocks_image ms = concat (map block_image ms)"

definition mold_header_image :: "downstream_packet \<Rightarrow> bytes" where
  "mold_header_image p = dp_session p @ be_bytes 8 (dp_first_sequence_number p) @ be_bytes 2 (dp_message_count p)"

definition packet_image :: "downstream_packet \<Rightarrow> bytes" where
  "packet_image p = mold_header_image p @ blocks_image (dp_messages p)"

text \<open>Consecutive numbers from \<open>first + index\<close>, payloads that fit the length field.\<close>

fun numbered :: "u64 \<Rightarrow> nat \<Rightarrow> message_block list \<Rightarrow> bool" where
  "numbered first index [] = True"
| "numbered first index (m # ms) \<longleftrightarrow>
     mb_sequence_number m = first + of_nat index \<and> length (mb_payload m) \<le> 65535 \<and> numbered first (Suc index) ms"

definition encodable :: "downstream_packet \<Rightarrow> bool" where
  "encodable p \<longleftrightarrow>
     (case dp_kind p of
        PK_data \<Rightarrow> length (dp_messages p) = unat (dp_message_count p)
          \<and> numbered (dp_first_sequence_number p) 0 (dp_messages p)
      | PK_heartbeat \<Rightarrow> dp_messages p = [] \<and> dp_message_count p = heartbeat_message_count
      | PK_end_of_session \<Rightarrow> dp_messages p = [] \<and> dp_message_count p = end_of_session_message_count)"

definition decodable :: "downstream_packet \<Rightarrow> bool" where
  "decodable p \<longleftrightarrow> length (dp_session p) = 10 \<and> encodable p
     \<and> (dp_kind p = PK_data \<longrightarrow> \<not> is_special_message_count (dp_message_count p)
          \<and> unat (dp_first_sequence_number p) + length (dp_messages p) \<le> 2 ^ 64)"

lemma length_block_image [simp]: "length (block_image m) = 2 + length (mb_payload m)"
  by (simp add: block_image_def)

lemma blocks_image_simps [simp]:
  "blocks_image [] = []" "blocks_image (m # ms) = block_image m @ blocks_image ms"
  by (simp_all add: blocks_image_def)

lemma encoded_length_data:
  "dp_kind p = PK_data \<Longrightarrow> downstream_packet_encoded_length p = 20 + length (blocks_image (dp_messages p))"
proof -
  have "foldl (\<lambda>total message. total + (2 + length (mb_payload message))) k ms = k + length (blocks_image ms)" for k ms
    by (induction ms arbitrary: k) simp_all
  then show "dp_kind p = PK_data \<Longrightarrow> ?thesis" by (simp add: downstream_packet_encoded_length_def)
qed

lemma session_field: "length s = 10 \<Longrightarrow> read_session bs off = Ok s \<longleftrightarrow> has_range bs off 10 \<and> s = seg bs off 10"
  by (auto simp: read_session_def)

subsection \<open>The message loops\<close>

lemma would_wrap_iff:
  assumes "index < 65535"
  shows "sequence_number_would_wrap first index \<longleftrightarrow> \<not> unat first + index < 2 ^ 64"
proof -
  have i: "unat (of_nat index :: u64) = index" using assms by (simp add: unat_of_nat)
  have "unat ((- 1) - of_nat index :: u64) = 2 ^ 64 - 1 - index"
    using i by (subst unat_sub) (simp_all add: unsigned_minus_1_eq_mask mask_eq_exp_minus_1)
  with assms show ?thesis by (auto simp: sequence_number_would_wrap_def word_less_nat_alt)
qed

lemma unat_of_nat_u16: "n \<le> 65535 \<Longrightarrow> unat (of_nat n :: u16) = n"
  by (simp add: unat_of_nat)

lemma encode_blocks_image:
  assumes "numbered first index ms" "offset + length (blocks_image ms) \<le> length bs"
  shows "encode_blocks first index offset ms bs = (EC_ok, put bs offset (blocks_image ms))"
  using assms
proof (induction ms arbitrary: index offset bs)
  case Nil
  then show ?case by (simp add: put_Nil)
next
  case (Cons m ms)
  then show ?case
    by (simp add: u16_field.wr_valid has_range_length put_put_append block_image_def)
qed

lemma encode_blocks_invalid:
  assumes "\<not> numbered first index ms" "offset + length (blocks_image ms) \<le> length bs"
  shows "fst (encode_blocks first index offset ms bs) = EC_invalid_argument"
  using assms
  by (induction ms arbitrary: index offset bs) (auto simp: u16_field.wr_valid has_range_length)

lemma seg_append_iff:
  assumes "off + (length xs + length ys) \<le> length bs"
  shows "seg bs off (length xs + length ys) = xs @ ys \<longleftrightarrow>
    seg bs off (length xs) = xs \<and> seg bs (off + length xs) (length ys) = ys"
proof -
  have "seg bs off (length xs + length ys) = seg bs off (length xs) @ seg bs (off + length xs) (length ys)"
    by (simp add: seg_join)
  then show ?thesis using assms by simp
qed

lemma decode_blocks_step:
  "decode_blocks bs first (Suc n) index offset = Ok (ms, end) \<longleftrightarrow>
   (\<exists>m rest. ms = m # rest \<and> \<not> sequence_number_would_wrap first index
      \<and> mb_sequence_number m = first + of_nat index \<and> length (mb_payload m) \<le> 65535
      \<and> offset + length (block_image m) \<le> length bs
      \<and> seg bs offset (length (block_image m)) = block_image m
      \<and> decode_blocks bs first n (Suc index) (offset + length (block_image m)) = Ok (rest, end))"
  (is "?lhs \<longleftrightarrow> ?rhs")
proof
  assume ?lhs
  then obtain len rest where wrap: "\<not> sequence_number_would_wrap first index"
    and len: "read_u16_be bs offset = Ok len" and range: "has_range bs (offset + 2) (unat len)"
    and rest: "decode_blocks bs first n (Suc index) (offset + 2 + unat len) = Ok (rest, end)"
    and ms: "ms = \<lparr>mb_sequence_number = first + of_nat index, mb_payload = seg bs (offset + 2) (unat len)\<rparr> # rest"
    by (auto simp: result_bind_eq_Ok Let_def split: if_splits)
  have "unat len \<le> 65535" using unsigned_less [of len, where 'a = nat] by simp
  moreover have "be_bytes 2 len = seg bs offset 2" using len by (simp add: u16_field.rd_Ok_iff)
  ultimately show ?rhs
    using wrap range rest ms len seg_join [of "offset + 2" offset 2 bs "unat len"]
    by (auto simp: block_image_def has_range_length)
next
  assume ?rhs
  then obtain m rest where ms: "ms = m # rest" and wrap: "\<not> sequence_number_would_wrap first index"
    and seq: "mb_sequence_number m = first + of_nat index" and len: "length (mb_payload m) \<le> 65535"
    and fits: "offset + length (block_image m) \<le> length bs"
    and img: "seg bs offset (length (block_image m)) = block_image m"
    and rest: "decode_blocks bs first n (Suc index) (offset + length (block_image m)) = Ok (rest, end)"
    by blast
  from img fits have "seg bs offset 2 = be_bytes 2 (of_nat (length (mb_payload m)) :: u16)"
    and pay: "seg bs (offset + 2) (length (mb_payload m)) = mb_payload m"
    using seg_append_iff [of offset "be_bytes 2 (of_nat (length (mb_payload m)) :: u16)" "mb_payload m" bs]
    by (auto simp: block_image_def)
  then have "read_u16_be bs offset = Ok (of_nat (length (mb_payload m)))"
    using fits by (simp add: u16_field.rd_Ok_iff has_range_length)
  with ms wrap seq len fits pay rest show ?lhs
    by (simp add: unat_of_nat_u16 has_range_length Let_def)
qed

lemma decode_blocks_iff:
  assumes "offset \<le> length bs" "index + n \<le> 65535"
  shows "decode_blocks bs first n index offset = Ok (ms, end) \<longleftrightarrow>
    length ms = n \<and> numbered first index ms \<and> (n = 0 \<or> unat first + index + n \<le> 2 ^ 64)
    \<and> end = offset + length (blocks_image ms) \<and> end \<le> length bs
    \<and> seg bs offset (length (blocks_image ms)) = blocks_image ms"
  using assms
proof (induction n arbitrary: ms index offset)
  case 0
  then show ?case by (cases ms) (auto simp: seg_none)
next
  case (Suc n)
  show ?case
  proof (cases ms)
    case Nil
    then show ?thesis unfolding decode_blocks_step by simp
  next
    case (Cons m rest)
    have wrap: "\<not> sequence_number_would_wrap first index \<longleftrightarrow> unat first + index < 2 ^ 64"
      using Suc.prems would_wrap_iff [of index first] by simp
    show ?thesis
    proof (cases "offset + length (block_image m) \<le> length bs")
      case True
      have split: "seg bs offset (length (block_image m) + length (blocks_image rest)) = block_image m @ blocks_image rest
        \<longleftrightarrow> seg bs offset (length (block_image m)) = block_image m
          \<and> seg bs (offset + length (block_image m)) (length (blocks_image rest)) = blocks_image rest"
        if "offset + (length (block_image m) + length (blocks_image rest)) \<le> length bs"
        using that by (rule seg_append_iff)
      show ?thesis
        unfolding decode_blocks_step Cons wrap
        using Suc.IH [of "offset + length (block_image m)" "Suc index" rest] True Suc.prems split
        by (auto simp del: length_block_image simp: add.assoc)
    next
      case False
      then show ?thesis unfolding decode_blocks_step Cons by auto
    qed
  qed
qed


subsection \<open>Packets\<close>

lemma length_mold_header_image: "length (dp_session p) = 10 \<Longrightarrow> length (mold_header_image p) = 20"
  by (simp add: mold_header_image_def)

lemma encode_downstream_header_image:
  assumes "length (dp_session p) = 10" "20 \<le> length bs"
  shows "encode_downstream_header bs p = (EC_ok, put bs 0 (mold_header_image p))"
  using assms
  by (simp add: encode_downstream_header_def write_session_def has_range_length u64_field.wr_valid
    u16_field.wr_valid put_put_append mold_header_image_def)

lemma encode_downstream_packet_image:
  assumes s: "length (dp_session p) = 10" and ok: "encodable p"
    and len: "length bs = downstream_packet_encoded_length p"
  shows "encode_downstream_packet bs p = (EC_ok, packet_image p)"
proof (cases "dp_kind p = PK_data")
  case True
  with ok len have "length bs = 20 + length (blocks_image (dp_messages p))"
    "numbered (dp_first_sequence_number p) 0 (dp_messages p)"
    by (auto simp: encoded_length_data encodable_def)
  with True ok len s show ?thesis
    by (simp add: encode_downstream_packet_def encodable_def encode_downstream_header_image encode_blocks_image
      put_put_append length_mold_header_image packet_image_def put_all)
next
  case False
  then have "length bs = 20" "dp_messages p = []"
    using ok len by (auto simp: downstream_packet_encoded_length_def encodable_def split: packet_kind.splits)
  with False ok len s show ?thesis
    by (cases "dp_kind p") (simp_all add: encode_downstream_packet_def encodable_def encode_downstream_header_image
      length_mold_header_image packet_image_def put_all)
qed

lemma encode_downstream_packet_invalid:
  assumes s: "length (dp_session p) = 10" and bad: "\<not> encodable p"
    and len: "length bs = downstream_packet_encoded_length p"
  shows "fst (encode_downstream_packet bs p) = EC_invalid_argument"
proof (cases "dp_kind p = PK_data")
  case True
  with len bad s show ?thesis
    by (auto simp: encode_downstream_packet_def encodable_def encoded_length_data encode_downstream_header_image
      encode_blocks_invalid)
next
  case False
  with bad len show ?thesis
    by (cases "dp_kind p") (simp_all add: encode_downstream_packet_def encodable_def)
qed

lemma packet_kind_from_message_count_simps:
  "packet_kind_from_message_count c = PK_data \<longleftrightarrow> \<not> is_special_message_count c"
  "packet_kind_from_message_count c = PK_heartbeat \<longleftrightarrow> c = heartbeat_message_count"
  "packet_kind_from_message_count c = PK_end_of_session \<longleftrightarrow> c = end_of_session_message_count"
  by (auto simp: packet_kind_from_message_count_def is_special_message_count_def heartbeat_message_count_def
    end_of_session_message_count_def)

lemma header_fields_iff:
  assumes "20 \<le> length bs" "length s = 10"
  shows "read_session bs 0 = Ok s \<and> read_u64_be bs 10 = Ok sn \<and> read_u16_be bs 18 = Ok c \<longleftrightarrow>
    seg bs 0 20 = s @ be_bytes 8 sn @ be_bytes 2 c"
  using assms seg_append_iff [of 0 s "be_bytes 8 sn @ be_bytes 2 c" bs] seg_append_iff [of 10 "be_bytes 8 sn" "be_bytes 2 c" bs]
  by (auto simp: session_field u64_field.rd_Ok_iff u16_field.rd_Ok_iff has_range_length)


lemma decode_header_step:
  "decode_downstream_packet bs = Ok p \<longleftrightarrow>
     20 \<le> length bs \<and> length (dp_session p) = 10 \<and> seg bs 0 20 = mold_header_image p
     \<and> dp_kind p = packet_kind_from_message_count (dp_message_count p)
     \<and> (if is_special_message_count (dp_message_count p) then length bs = 20 \<and> dp_messages p = []
        else decode_blocks bs (dp_first_sequence_number p) (unat (dp_message_count p)) 0 20
             = Ok (dp_messages p, length bs))"
  (is "?lhs \<longleftrightarrow> ?rhs")
proof
  assume ?lhs
  then obtain s sn c where len: "20 \<le> length bs"
    and f: "read_session bs 0 = Ok s" "read_u64_be bs 10 = Ok sn" "read_u16_be bs 18 = Ok c"
    and p: "dp_session p = s" "dp_first_sequence_number p = sn" "dp_message_count p = c"
      "dp_kind p = packet_kind_from_message_count c"
      "if is_special_message_count c then length bs = 20 \<and> dp_messages p = []
       else decode_blocks bs sn (unat c) 0 20 = Ok (dp_messages p, length bs)"
    by (auto simp: decode_downstream_packet_def result_bind_eq_Ok has_range_length Let_def split: if_splits)
  have "length s = 10" using f(1) len by (auto simp: read_session_def has_range_length)
  with len f p show ?rhs using header_fields_iff [of bs s sn c] by (simp add: mold_header_image_def)
next
  assume r: ?rhs
  then have "read_session bs 0 = Ok (dp_session p)" "read_u64_be bs 10 = Ok (dp_first_sequence_number p)"
    "read_u16_be bs 18 = Ok (dp_message_count p)"
    using header_fields_iff [of bs "dp_session p" "dp_first_sequence_number p" "dp_message_count p"]
    by (auto simp: mold_header_image_def)
  with r show ?lhs
    by (cases p) (auto simp: decode_downstream_packet_def has_range_length Let_def)
qed

lemma unat_count_bound: "\<not> is_special_message_count c \<Longrightarrow> 0 < unat c \<and> unat c \<le> 65535"
  using unsigned_less [of c, where 'a = nat]
  by (auto simp: is_special_message_count_def heartbeat_message_count_def unat_gt_0)

lemma decode_downstream_packet_iff:
  "decode_downstream_packet bs = Ok p \<longleftrightarrow> decodable p \<and> bs = packet_image p"
proof (cases "length (dp_session p) = 10 \<and> 20 \<le> length bs \<and> seg bs 0 20 = mold_header_image p")
  case False
  then show ?thesis
    unfolding decode_header_step
    by (auto simp: decodable_def packet_image_def length_mold_header_image seg_append_take)
next
  case True
  then have s: "length (dp_session p) = 10" and l: "20 \<le> length bs" and h: "seg bs 0 20 = mold_header_image p"
    by auto
  have img: "bs = packet_image p \<longleftrightarrow>
      length bs = 20 + length (blocks_image (dp_messages p))
      \<and> seg bs 20 (length (blocks_image (dp_messages p))) = blocks_image (dp_messages p)"
    (is "_ \<longleftrightarrow> ?r")
  proof
    assume "bs = packet_image p"
    then show ?r using s by (simp add: packet_image_def length_mold_header_image seg_append_skip seg_all)
  next
    assume r: ?r
    have "bs = seg bs 0 20 @ seg bs 20 (length (blocks_image (dp_messages p)))"
      using seg_join [of 20 0 20 bs "length (blocks_image (dp_messages p))"] conjunct1 [OF r] by (simp add: seg_all)
    with r h show "bs = packet_image p" by (simp add: packet_image_def)
  qed
  show ?thesis
  proof (cases "is_special_message_count (dp_message_count p)")
    case True
    then show ?thesis
      unfolding decode_header_step img decodable_def encodable_def
      using s l h by (cases "dp_kind p") (auto simp: seg_none packet_kind_from_message_count_simps
        is_special_message_count_def heartbeat_message_count_def end_of_session_message_count_def eq_commute [of _ "packet_kind_from_message_count _"])
  next
    case False
    then show ?thesis
      unfolding decode_header_step img decodable_def encodable_def
      using s l h unat_count_bound [OF False] decode_blocks_iff [of 20 bs 0 "unat (dp_message_count p)"]
      by (cases "dp_kind p") (auto simp: packet_kind_from_message_count_simps is_special_message_count_def eq_commute [of _ "packet_kind_from_message_count _"])
  qed
qed

lemma encodable_length_image:
  "encodable p \<Longrightarrow> length (dp_session p) = 10 \<Longrightarrow> length (packet_image p) = downstream_packet_encoded_length p"
  by (cases "dp_kind p = PK_data") (auto simp: packet_image_def length_mold_header_image encoded_length_data,
     auto simp: encodable_def downstream_packet_encoded_length_def split: packet_kind.splits)


section \<open>Request packets\<close>

definition request_image :: "request_packet \<Rightarrow> bytes" where
  "request_image p = rp_session p @ be_bytes 8 (rp_sequence_number p) @ be_bytes 2 (rp_requested_message_count p)"

lemma encode_request_packet_image:
  assumes "length (rp_session p) = 10" "length bs = 20"
  shows "encode_request_packet bs p = (EC_ok, request_image p)"
  using assms
  by (simp add: encode_request_packet_def write_session_def has_range_length u64_field.wr_valid
    u16_field.wr_valid put_put_append put_all request_image_def)

lemma decode_request_packet_iff:
  "decode_request_packet bs = Ok p \<longleftrightarrow> length bs = 20 \<and> length (rp_session p) = 10 \<and> bs = request_image p"
proof (cases "length bs = 20 \<and> length (rp_session p) = 10")
  case True
  then have "decode_request_packet bs = Ok p \<longleftrightarrow> read_session bs 0 = Ok (rp_session p)
      \<and> read_u64_be bs 10 = Ok (rp_sequence_number p) \<and> read_u16_be bs 18 = Ok (rp_requested_message_count p)"
    by (cases p) (auto simp: decode_request_packet_def result_bind_eq_Ok)
  also have "\<dots> \<longleftrightarrow> bs = request_image p"
    using True header_fields_iff [of bs "rp_session p" "rp_sequence_number p" "rp_requested_message_count p"]
    by (simp add: request_image_def seg_all)
  finally show ?thesis using True by simp
next
  case False
  then show ?thesis
    by (auto simp: decode_request_packet_def result_bind_eq_Ok read_session_def has_range_length split: if_splits)
qed

lemma numbered_nth:
  "numbered first index ms \<Longrightarrow> i < length ms \<Longrightarrow> mb_sequence_number (ms ! i) = first + of_nat (index + i)"
proof (induction ms arbitrary: index i)
  case (Cons m ms)
  then show ?case by (cases i) (auto simp: ac_simps)
qed simp

lemma decode_blocks_error: "decode_blocks bs first n index offset = Fail e \<Longrightarrow> e = EC_parse_error"
  by (induction n arbitrary: index offset)
     (auto simp: Let_def split: if_splits elim!: result_bind_FailE dest: u16_field.rd_error)

lemma decode_downstream_packet_error: "decode_downstream_packet bs = Fail e \<Longrightarrow> e = EC_parse_error"
  by (auto simp: decode_downstream_packet_def Let_def read_session_def split: if_splits
    elim!: result_bind_FailE dest: u64_field.rd_error u16_field.rd_error decode_blocks_error)

section \<open>Properties\<close>

definition sample_packet :: downstream_packet where
  "sample_packet = \<lparr>dp_session = replicate 10 0x20, dp_first_sequence_number = 41, dp_message_count = 2,
     dp_kind = PK_data, dp_messages = [\<lparr>mb_sequence_number = 41, mb_payload = [1, 2, 3]\<rparr>,
       \<lparr>mb_sequence_number = 42, mb_payload = []\<rparr>]\<rparr>"

lemma sample_packet_decodable: "decodable sample_packet"
  by (simp add: sample_packet_def decodable_def encodable_def is_special_message_count_def
    heartbeat_message_count_def end_of_session_message_count_def)

text \<open>
  A packet with consecutive sequence numbers that do not wrap and an ordinary message count comes back
  unchanged from the decoder whenever the encoder accepts it.\<close>

theorem mold_decode_after_encode:
  assumes "decodable p" "encode_downstream_packet bs p = (EC_ok, bs')"
  shows "decode_downstream_packet bs' = Ok p"
proof -
  from assms have "length bs = downstream_packet_encoded_length p" "encodable p" "length (dp_session p) = 10"
    by (auto simp: encode_downstream_packet_def decodable_def split: if_splits)
  with assms show ?thesis
    using encode_downstream_packet_image [of p bs] by (simp add: decode_downstream_packet_iff)
qed

theorem mold_decode_after_encode_witness:
  "decode_downstream_packet (snd (encode_downstream_packet (replicate 27 0) sample_packet)) = Ok sample_packet"
proof -
  have "encode_downstream_packet (replicate 27 0) sample_packet = (EC_ok, packet_image sample_packet)"
    using sample_packet_decodable
    by (intro encode_downstream_packet_image)
       (simp_all add: decodable_def downstream_packet_encoded_length_def, simp add: sample_packet_def)
  with mold_decode_after_encode [OF sample_packet_decodable] show ?thesis by fastforce
qed

text \<open>
  Re-encoding a decoded packet into a buffer of the same size gives back the received bytes: the decoder
  accepts only the canonical encoding and drops nothing.\<close>

theorem mold_encode_after_decode:
  assumes "decode_downstream_packet bs = Ok p" "length bs' = length bs"
  shows "encode_downstream_packet bs' p = (EC_ok, bs)"
  using assms encode_downstream_packet_image [of p bs']
  by (auto simp: decode_downstream_packet_iff decodable_def encodable_length_image)

theorem mold_encode_after_decode_witness:
  "encode_downstream_packet (replicate (length (packet_image sample_packet)) 0xAA) sample_packet
   = (EC_ok, packet_image sample_packet)"
  by (rule mold_encode_after_decode) (simp_all add: decode_downstream_packet_iff sample_packet_decodable)

text \<open>
  In a decoded packet the messages carry the numbers \<open>first\<close>, \<open>first + 1\<close>, \<dots> without wrap-around, there
  are as many as the header announces (none in a heartbeat or end of session), and they fill the datagram
  exactly.\<close>

theorem mold_decoded_sequence:
  assumes "decode_downstream_packet bs = Ok p"
  shows "(\<forall>i < length (dp_messages p).
      unat (mb_sequence_number (dp_messages p ! i)) = unat (dp_first_sequence_number p) + i)
    \<and> length (dp_messages p) = (if dp_kind p = PK_data then unat (dp_message_count p) else 0)
    \<and> length bs = 20 + (\<Sum>m \<leftarrow> dp_messages p. 2 + length (mb_payload m))"
proof -
  from assms have ok: "decodable p" and bs: "bs = packet_image p" by (simp_all add: decode_downstream_packet_iff)
  have "unat (mb_sequence_number (dp_messages p ! i)) = unat (dp_first_sequence_number p) + i"
    if i: "i < length (dp_messages p)" for i
  proof -
    have d: "dp_kind p = PK_data" using ok i by (cases "dp_kind p") (auto simp: decodable_def encodable_def)
    then have "mb_sequence_number (dp_messages p ! i) = dp_first_sequence_number p + of_nat i"
      using ok i numbered_nth [of "dp_first_sequence_number p" 0 "dp_messages p" i]
      by (simp add: decodable_def encodable_def)
    moreover have "unat (dp_first_sequence_number p) + i < 2 ^ 64" using ok i d by (simp add: decodable_def)
    ultimately show ?thesis by (simp add: unat_word_ariths unat_of_nat)
  qed
  moreover have "length (blocks_image ms) = (\<Sum>m \<leftarrow> ms. 2 + length (mb_payload m))" for ms
    by (induction ms) simp_all
  ultimately show ?thesis
    using ok bs by (auto simp: decodable_def encodable_def packet_image_def length_mold_header_image split: packet_kind.splits)
qed

theorem mold_decoded_sequence_witness:
  "unat (mb_sequence_number (dp_messages sample_packet ! 1)) = 42"
proof -
  have "decode_downstream_packet (packet_image sample_packet) = Ok sample_packet"
    by (simp add: decode_downstream_packet_iff sample_packet_decodable)
  from mold_decoded_sequence [OF this] show ?thesis by (simp add: sample_packet_def)
qed

text \<open>
  The only error of the downstream decoder is \<open>parse_error\<close>, and it reports it for every datagram
  that is not the image of a decodable packet.\<close>

theorem mold_decode_error:
  "(\<exists>p. decodable p \<and> bs = packet_image p \<and> decode_downstream_packet bs = Ok p)
   \<or> ((\<nexists>p. decodable p \<and> bs = packet_image p) \<and> decode_downstream_packet bs = Fail EC_parse_error)"
proof (cases "decode_downstream_packet bs")
  case (Ok p)
  then show ?thesis using decode_downstream_packet_iff by blast
next
  case (Fail e)
  then have "e = EC_parse_error" by (rule decode_downstream_packet_error)
  moreover have "\<not> (decodable p \<and> bs = packet_image p)" for p
    using Fail decode_downstream_packet_iff [of bs p] by simp
  ultimately show ?thesis using Fail by blast
qed

text \<open>
  Request packets round-trip in both directions.\<close>

theorem mold_request_roundtrip:
  assumes "length bs = 20" "length (rp_session p) = 10"
  shows "encode_request_packet bs p = (EC_ok, request_image p)
    \<and> (\<forall>bs'. decode_request_packet bs' = Ok p \<longleftrightarrow> bs' = snd (encode_request_packet bs p))"
proof -
  have "length (request_image p) = 20" using assms by (simp add: request_image_def)
  then show ?thesis
    using encode_request_packet_image [of p bs] assms by (auto simp: decode_request_packet_iff)
qed

theorem mold_request_roundtrip_witness:
  "decode_request_packet (snd (encode_request_packet (replicate 20 0)
     \<lparr>rp_session = replicate 10 0x41, rp_sequence_number = 5, rp_requested_message_count = 3\<rparr>))
   = Ok \<lparr>rp_session = replicate 10 0x41, rp_sequence_number = 5, rp_requested_message_count = 3\<rparr>"
  using mold_request_roundtrip [of "replicate 20 0"
    "\<lparr>rp_session = replicate 10 0x41, rp_sequence_number = 5, rp_requested_message_count = 3\<rparr>"] by simp

text \<open>
  C36: The encoder also accepts a data packet without messages; its bytes are those of a heartbeat, and the
  decoder reads them as one.\<close>

theorem mold_empty_data_becomes_heartbeat:
  assumes "length (dp_session p) = 10" "dp_kind p = PK_data" "dp_messages p = []" "dp_message_count p = 0"
    and "length bs = 20"
  shows "fst (encode_downstream_packet bs p) = EC_ok
    \<and> decode_downstream_packet (snd (encode_downstream_packet bs p)) = Ok (p\<lparr>dp_kind := PK_heartbeat\<rparr>)"
proof -
  have "encode_downstream_packet bs p = (EC_ok, packet_image p)"
    using assms by (intro encode_downstream_packet_image) (simp_all add: encodable_def encoded_length_data)
  moreover have "packet_image p = packet_image (p\<lparr>dp_kind := PK_heartbeat\<rparr>)"
    by (simp add: packet_image_def mold_header_image_def)
  moreover have "decodable (p\<lparr>dp_kind := PK_heartbeat\<rparr>)"
    using assms by (simp add: decodable_def encodable_def heartbeat_message_count_def)
  ultimately show ?thesis by (simp add: decode_downstream_packet_iff)
qed

theorem mold_empty_data_becomes_heartbeat_witness:
  "decode_downstream_packet (snd (encode_downstream_packet (replicate 20 0)
     (sample_packet\<lparr>dp_messages := [], dp_message_count := 0\<rparr>)))
   = Ok (sample_packet\<lparr>dp_messages := [], dp_message_count := 0, dp_kind := PK_heartbeat\<rparr>)"
  using mold_empty_data_becomes_heartbeat
    [of "sample_packet\<lparr>dp_messages := [], dp_message_count := 0\<rparr>" "replicate 20 0"]
  by (simp add: sample_packet_def)

end
