(* ===== verification/Replay.thy ===== *)
theory Replay
  imports Venue_Book Itch_Codec Moldudp64
begin

text \<open>
  From datagrams to books: \<^verbatim>\<open>src/replay/moldudp64_itch_replay.cpp\<close> decodes a MoldUDP64 datagram into
  ITCH messages, \<^verbatim>\<open>src/replay/itch_replay_apply.cpp\<close> applies them to the instrument directory and the
  books of one venue.

  An applier is built from references to a directory and to books that were themselves built over
  that directory, so its pointers are not null and both name one directory: the state holds it once.
  The statistics are natural numbers; they count messages and stay far below \<open>2^64\<close>.

  \<open>market_run\<close> is every way in which appliers of several venues feed one directory and one set of
  books; its invariant is \<open>market_inv\<close>, and the theorems on the best bid and offer rest on it.
\<close>

section \<open>Decoding a datagram\<close>

datatype replay_packet_kind = RPK_data | RPK_heartbeat | RPK_end_of_session

record decoded_itch_message =
  dm_sequence_number :: u64
  dm_message :: message

record replay_packet =
  rpk_session :: session
  rpk_first_sequence_number :: u64
  rpk_message_count :: u16
  rpk_kind :: replay_packet_kind
  rpk_messages :: "decoded_itch_message list"

fun to_replay_packet_kind :: "packet_kind \<Rightarrow> replay_packet_kind" where
  "to_replay_packet_kind PK_data = RPK_data"
| "to_replay_packet_kind PK_heartbeat = RPK_heartbeat"
| "to_replay_packet_kind PK_end_of_session = RPK_end_of_session"

fun decode_itch_blocks :: "message_block list \<Rightarrow> decoded_itch_message list result" where
  "decode_itch_blocks [] = Ok []"
| "decode_itch_blocks (block # blocks) =
     result_bind (decode_message (mb_payload block)) (\<lambda>message.
       result_bind (decode_itch_blocks blocks) (\<lambda>rest.
         Ok (\<lparr>dm_sequence_number = mb_sequence_number block, dm_message = message\<rparr> # rest)))"

definition decode_moldudp64_itch_packet :: "bytes \<Rightarrow> replay_packet result" where
  "decode_moldudp64_itch_packet bytes =
     result_bind (decode_downstream_packet bytes) (\<lambda>mold.
       let packet = \<lparr>rpk_session = dp_session mold, rpk_first_sequence_number = dp_first_sequence_number mold,
             rpk_message_count = dp_message_count mold, rpk_kind = to_replay_packet_kind (dp_kind mold),
             rpk_messages = []\<rparr>
       in if dp_kind mold \<noteq> PK_data then Ok packet
          else result_bind (decode_itch_blocks (dp_messages mold)) (\<lambda>messages.
            Ok (packet\<lparr>rpk_messages := messages\<rparr>)))"

section \<open>Applying messages\<close>

record replay_stats =
  rst_packets :: nat
  rst_data_packets :: nat
  rst_heartbeat_packets :: nat
  rst_end_of_session_packets :: nat
  rst_instrument_messages :: nat
  rst_book_messages :: nat
  rst_ignored_messages :: nat
  rst_failed_messages :: nat
  rst_has_last_sequence_number :: bool
  rst_last_sequence_number :: u64

definition empty_stats :: replay_stats where
  "empty_stats = \<lparr>rst_packets = 0, rst_data_packets = 0, rst_heartbeat_packets = 0,
     rst_end_of_session_packets = 0, rst_instrument_messages = 0, rst_book_messages = 0,
     rst_ignored_messages = 0, rst_failed_messages = 0, rst_has_last_sequence_number = False,
     rst_last_sequence_number = 0\<rparr>"

record replay_applier =
  ra_venue_id :: venue_id
  ra_directory :: instrument_directory
  ra_books :: multi_venue_book
  ra_stats :: replay_stats

definition count_instrument :: "error_code \<Rightarrow> replay_stats \<Rightarrow> replay_stats" where
  "count_instrument e st =
     (if e = EC_ok then st\<lparr>rst_instrument_messages := rst_instrument_messages st + 1\<rparr> else st)"

definition count_book :: "error_code \<Rightarrow> replay_stats \<Rightarrow> replay_stats" where
  "count_book e st = (if e = EC_ok then st\<lparr>rst_book_messages := rst_book_messages st + 1\<rparr> else st)"

definition replay_apply_message :: "replay_applier \<Rightarrow> message \<Rightarrow> error_code \<times> replay_applier" where
  "replay_apply_message ra message =
     (case message of
        StockDirectory m \<Rightarrow>
          let (error, dir) = apply_stock_directory (ra_directory ra) (ra_venue_id ra) m
          in (error, ra\<lparr>ra_directory := dir, ra_stats := count_instrument error (ra_stats ra)\<rparr>)
      | StockTradingAction m \<Rightarrow>
          let (error, dir) = apply_stock_trading_action (ra_directory ra) (ra_venue_id ra) m
          in (error, ra\<lparr>ra_directory := dir, ra_stats := count_instrument error (ra_stats ra)\<rparr>)
      | _ \<Rightarrow>
          if affects_order_book message then
            let (error, books) = multi_venue_apply (Some (ra_directory ra)) (ra_books ra) (ra_venue_id ra) message
            in (error, ra\<lparr>ra_books := books, ra_stats := count_book error (ra_stats ra)\<rparr>)
          else (EC_ok, ra\<lparr>ra_stats := (ra_stats ra)\<lparr>rst_ignored_messages := rst_ignored_messages (ra_stats ra) + 1\<rparr>\<rparr>))"

definition replay_apply_decoded :: "replay_applier \<Rightarrow> decoded_itch_message \<Rightarrow> error_code \<times> replay_applier" where
  "replay_apply_decoded ra decoded =
     replay_apply_message
       (ra\<lparr>ra_stats := (ra_stats ra)\<lparr>rst_has_last_sequence_number := True,
          rst_last_sequence_number := dm_sequence_number decoded\<rparr>\<rparr>)
       (dm_message decoded)"

fun replay_apply_all :: "replay_applier \<Rightarrow> decoded_itch_message list \<Rightarrow> error_code \<times> replay_applier" where
  "replay_apply_all ra [] = (EC_ok, ra)"
| "replay_apply_all ra (decoded # rest) =
     (let (error, ra1) = replay_apply_decoded ra decoded in
      if error \<noteq> EC_ok
      then (error, ra1\<lparr>ra_stats := (ra_stats ra1)\<lparr>rst_failed_messages := rst_failed_messages (ra_stats ra1) + 1\<rparr>\<rparr>)
      else replay_apply_all ra1 rest)"

definition replay_apply_packet :: "replay_applier \<Rightarrow> replay_packet \<Rightarrow> error_code \<times> replay_applier" where
  "replay_apply_packet ra packet =
     (if \<not> is_valid_venue_id (ra_venue_id ra) then (EC_invalid_state, ra)
      else
        let st = (ra_stats ra)\<lparr>rst_packets := rst_packets (ra_stats ra) + 1\<rparr> in
        case rpk_kind packet of
          RPK_data \<Rightarrow>
            replay_apply_all (ra\<lparr>ra_stats := st\<lparr>rst_data_packets := rst_data_packets st + 1\<rparr>\<rparr>) (rpk_messages packet)
        | RPK_heartbeat \<Rightarrow>
            (EC_ok, ra\<lparr>ra_stats := st\<lparr>rst_heartbeat_packets := rst_heartbeat_packets st + 1\<rparr>\<rparr>)
        | RPK_end_of_session \<Rightarrow>
            (EC_ok, ra\<lparr>ra_stats := st\<lparr>rst_end_of_session_packets := rst_end_of_session_packets st + 1\<rparr>\<rparr>))"

section \<open>The invariant\<close>

lemma market_inv_replay_message:
  assumes inv: "market_inv k (ra_directory ra) (ra_books ra)" and k: "k < 2 ^ 32"
  shows "market_inv (Suc k) (ra_directory (snd (replay_apply_message ra m))) (ra_books (snd (replay_apply_message ra m)))"
proof -
  have dir: "dir_inv (ra_directory ra)" using inv by (simp add: market_inv_def)
  have grow: "market_inv (Suc k) (ra_directory ra) (ra_books ra)" using inv by (rule market_inv_mono) simp
  note book = market_inv_apply [OF inv k, of "ra_venue_id ra" m]
  show ?thesis
  proof (cases m)
    case (StockDirectory a)
    with market_inv_directory [OF grow dir_inv_apply_stock_directory [OF dir] stock_stable_directory]
    show ?thesis by (simp add: replay_apply_message_def split_beta)
  next
    case (StockTradingAction a)
    with market_inv_directory [OF grow dir_inv_apply_stock_trading_action [OF dir] stock_stable_trading_action]
    show ?thesis by (simp add: replay_apply_message_def split_beta)
  qed (use book grow in \<open>simp_all add: replay_apply_message_def split_beta\<close>)
qed

lemma market_inv_replay_decoded:
  "market_inv k (ra_directory ra) (ra_books ra) \<Longrightarrow> k < 2 ^ 32 \<Longrightarrow>
   market_inv (Suc k) (ra_directory (snd (replay_apply_decoded ra d))) (ra_books (snd (replay_apply_decoded ra d)))"
  unfolding replay_apply_decoded_def by (rule market_inv_replay_message) simp_all

lemma market_inv_replay_all:
  "market_inv k (ra_directory ra) (ra_books ra) \<Longrightarrow> k + length ds \<le> 2 ^ 32 \<Longrightarrow>
   market_inv (k + length ds) (ra_directory (snd (replay_apply_all ra ds))) (ra_books (snd (replay_apply_all ra ds)))"
proof (induction ra ds arbitrary: k rule: replay_apply_all.induct)
  case (2 ra d ds)
  obtain e ra1 where r: "replay_apply_decoded ra d = (e, ra1)" by (cases "replay_apply_decoded ra d")
  with 2(2,3) market_inv_replay_decoded [of k ra d] have inv: "market_inv (Suc k) (ra_directory ra1) (ra_books ra1)"
    by simp
  show ?case
  proof (cases "e = EC_ok")
    case True
    with 2(1) [OF r [symmetric] refl, of "Suc k"] inv 2(3) r show ?thesis by simp
  next
    case False
    with inv r show ?thesis by (auto elim: market_inv_mono)
  qed
qed simp

lemma market_inv_replay_packet:
  "market_inv k (ra_directory ra) (ra_books ra) \<Longrightarrow> k + length (rpk_messages packet) \<le> 2 ^ 32 \<Longrightarrow>
   market_inv (k + length (rpk_messages packet)) (ra_directory (snd (replay_apply_packet ra packet)))
     (ra_books (snd (replay_apply_packet ra packet)))"
  unfolding replay_apply_packet_def Let_def
  by (auto intro: market_inv_mono market_inv_replay_all split: replay_packet_kind.splits)

text \<open>
  All feeds of a market: venues are added, and the applier of any venue applies any packet. The
  index counts the messages of the packets so far.
\<close>

inductive market_run :: "nat \<Rightarrow> instrument_directory \<Rightarrow> multi_venue_book \<Rightarrow> bool" where
  run_start: "market_run 0 empty_directory Map.empty"
| run_venue: "market_run n dir mvb \<Longrightarrow> market_run n dir (snd (add_venue (Some dir) mvb venue))"
| run_packet: "market_run n (ra_directory ra) (ra_books ra) \<Longrightarrow>
    market_run (n + length (rpk_messages packet)) (ra_directory (snd (replay_apply_packet ra packet)))
      (ra_books (snd (replay_apply_packet ra packet)))"

lemma market_run_inv: "market_run n dir mvb \<Longrightarrow> n \<le> 2 ^ 32 \<Longrightarrow> market_inv n dir mvb"
  by (induction rule: market_run.induct)
     (auto simp: market_inv_empty dir_inv_empty market_inv_add_venue market_inv_replay_packet)

section \<open>Message accounting\<close>

definition handled :: "replay_stats \<Rightarrow> nat" where
  "handled st = rst_instrument_messages st + rst_book_messages st + rst_ignored_messages st"

definition same_packets :: "replay_stats \<Rightarrow> replay_stats \<Rightarrow> bool" where
  "same_packets st st' \<longleftrightarrow> rst_packets st' = rst_packets st \<and> rst_data_packets st' = rst_data_packets st
     \<and> rst_heartbeat_packets st' = rst_heartbeat_packets st
     \<and> rst_end_of_session_packets st' = rst_end_of_session_packets st"

lemma replay_apply_message_cases:
  obtains (instrument) dir e where
      "replay_apply_message ra m = (e, ra\<lparr>ra_directory := dir, ra_stats := count_instrument e (ra_stats ra)\<rparr>)"
  | (book) books e where
      "replay_apply_message ra m = (e, ra\<lparr>ra_books := books, ra_stats := count_book e (ra_stats ra)\<rparr>)"
  | (ignored) "replay_apply_message ra m =
      (EC_ok, ra\<lparr>ra_stats := (ra_stats ra)\<lparr>rst_ignored_messages := rst_ignored_messages (ra_stats ra) + 1\<rparr>\<rparr>)"
proof -
  consider (dir) dir e where "replay_apply_message ra m =
      (e, ra\<lparr>ra_directory := dir, ra_stats := count_instrument e (ra_stats ra)\<rparr>)"
    | (other) "replay_apply_message ra m =
       (if affects_order_book m then
          let (error, books) = multi_venue_apply (Some (ra_directory ra)) (ra_books ra) (ra_venue_id ra) m
          in (error, ra\<lparr>ra_books := books, ra_stats := count_book error (ra_stats ra)\<rparr>)
        else (EC_ok, ra\<lparr>ra_stats := (ra_stats ra)\<lparr>rst_ignored_messages := rst_ignored_messages (ra_stats ra) + 1\<rparr>\<rparr>))"
    by (cases m) (auto simp: replay_apply_message_def split_beta)
  then show ?thesis
    using that by cases (auto simp: split_beta split: if_splits)
qed

lemma replay_apply_message_stats:
  assumes "replay_apply_message ra m = (e, ra')"
  shows "handled (ra_stats ra') = handled (ra_stats ra) + (if e = EC_ok then 1 else 0)"
    and "same_packets (ra_stats ra) (ra_stats ra')"
    and "rst_failed_messages (ra_stats ra') = rst_failed_messages (ra_stats ra)"
    and "rst_has_last_sequence_number (ra_stats ra') = rst_has_last_sequence_number (ra_stats ra)"
    and "rst_last_sequence_number (ra_stats ra') = rst_last_sequence_number (ra_stats ra)"
  using assms
  by (cases rule: replay_apply_message_cases [of ra m];
      auto simp: handled_def same_packets_def count_instrument_def count_book_def)+

lemma replay_apply_decoded_stats:
  assumes "replay_apply_decoded ra d = (e, ra')"
  shows "handled (ra_stats ra') = handled (ra_stats ra) + (if e = EC_ok then 1 else 0)"
    and "same_packets (ra_stats ra) (ra_stats ra')"
    and "rst_failed_messages (ra_stats ra') = rst_failed_messages (ra_stats ra)"
    and "rst_has_last_sequence_number (ra_stats ra')"
    and "rst_last_sequence_number (ra_stats ra') = dm_sequence_number d"
  using assms replay_apply_message_stats [OF assms [unfolded replay_apply_decoded_def]]
  by (simp_all add: handled_def same_packets_def)

lemma same_packets_trans: "same_packets a b \<Longrightarrow> same_packets b c \<Longrightarrow> same_packets a c"
  by (simp add: same_packets_def)

text \<open>The loop stops at the first failing message: \<open>i\<close> messages were handled before it.\<close>

lemma replay_apply_all_stats:
  assumes "replay_apply_all ra ds = (e, ra')"
  shows "\<exists>i \<le> length ds. handled (ra_stats ra') = handled (ra_stats ra) + i
    \<and> same_packets (ra_stats ra) (ra_stats ra')
    \<and> (if e = EC_ok then i = length ds \<and> rst_failed_messages (ra_stats ra') = rst_failed_messages (ra_stats ra)
         \<and> (ds \<noteq> [] \<longrightarrow> rst_last_sequence_number (ra_stats ra') = dm_sequence_number (last ds))
       else i < length ds \<and> rst_failed_messages (ra_stats ra') = rst_failed_messages (ra_stats ra) + 1
         \<and> rst_last_sequence_number (ra_stats ra') = dm_sequence_number (ds ! i))"
  using assms
proof (induction ra ds rule: replay_apply_all.induct)
  case (1 ra)
  then show ?case by (auto simp: same_packets_def)
next
  case (2 ra d ds)
  obtain e1 ra1 where r: "replay_apply_decoded ra d = (e1, ra1)" by (cases "replay_apply_decoded ra d")
  note st = replay_apply_decoded_stats [OF r]
  show ?case
  proof (cases "e1 = EC_ok")
    case False
    with 2(2) r st show ?thesis by (intro exI [of _ 0]) (auto simp: handled_def same_packets_def)
  next
    case True
    with 2(2) r have rest: "replay_apply_all ra1 ds = (e, ra')" by simp
    from 2(1) [OF r [symmetric] refl _ rest] True obtain i where i: "i \<le> length ds"
      "handled (ra_stats ra') = handled (ra_stats ra1) + i" "same_packets (ra_stats ra1) (ra_stats ra')"
      "if e = EC_ok then i = length ds \<and> rst_failed_messages (ra_stats ra') = rst_failed_messages (ra_stats ra1)
         \<and> (ds \<noteq> [] \<longrightarrow> rst_last_sequence_number (ra_stats ra') = dm_sequence_number (last ds))
       else i < length ds \<and> rst_failed_messages (ra_stats ra') = rst_failed_messages (ra_stats ra1) + 1
         \<and> rst_last_sequence_number (ra_stats ra') = dm_sequence_number (ds ! i)" by auto
    have "same_packets (ra_stats ra) (ra_stats ra')" using st(2) i(3) by (rule same_packets_trans)
    moreover have "ds = [] \<Longrightarrow> ra' = ra1" using rest by simp
    ultimately show ?thesis using i st True
      by (intro exI [of _ "Suc i"]) (auto split: if_splits)
  qed
qed

section \<open>Decoded packets\<close>

definition block_of :: "decoded_itch_message \<Rightarrow> message_block" where
  "block_of d = \<lparr>mb_sequence_number = dm_sequence_number d, mb_payload = message_image (dm_message d)\<rparr>"

lemma to_replay_packet_kind_data [simp]:
  "to_replay_packet_kind k = RPK_data \<longleftrightarrow> k = PK_data" "RPK_data = to_replay_packet_kind k \<longleftrightarrow> k = PK_data"
  by (cases k; simp)+

lemma decode_itch_blocks_iff:
  "decode_itch_blocks blocks = Ok ds \<longleftrightarrow>
     blocks = map block_of ds \<and> (\<forall>d \<in> set ds. message_ok (dm_message d) \<and> typed_message (dm_message d))"
proof (induction blocks arbitrary: ds)
  case Nil
  then show ?case by auto
next
  case (Cons b bs)
  have block: "(\<exists>m. decode_message (mb_payload b) = Ok m \<and> d = \<lparr>dm_sequence_number = mb_sequence_number b, dm_message = m\<rparr>)
      \<longleftrightarrow> b = block_of d \<and> message_ok (dm_message d) \<and> typed_message (dm_message d)" for d
    by (cases b; cases d) (auto simp: decode_message_iff block_of_def simp del: message_ok.simps typed_message.simps)
  show ?case
  proof (cases ds)
    case Nil
    then show ?thesis by (auto simp: result_bind_eq_Ok)
  next
    case (Cons d rest)
    have "decode_itch_blocks (b # bs) = Ok ds \<longleftrightarrow>
        (\<exists>m. decode_message (mb_payload b) = Ok m \<and> d = \<lparr>dm_sequence_number = mb_sequence_number b, dm_message = m\<rparr>)
        \<and> decode_itch_blocks bs = Ok rest"
      using Cons by (auto simp: result_bind_eq_Ok)
    then show ?thesis unfolding block Cons.IH using Cons by auto
  qed
qed

lemma decode_itch_blocks_error:
  "decode_itch_blocks blocks = Fail e \<Longrightarrow> \<exists>b \<in> set blocks. decode_message (mb_payload b) = Fail e"
  by (induction blocks) (auto elim!: result_bind_FailE)

text \<open>A decoded packet on the wire, and the packets that have a place there.\<close>

definition replay_packet_image :: "replay_packet \<Rightarrow> bytes" where
  "replay_packet_image p = rpk_session p @ be_bytes 8 (rpk_first_sequence_number p) @ be_bytes 2 (rpk_message_count p)
     @ concat (map (\<lambda>d. be_bytes 2 (of_nat (length (message_image (dm_message d))) :: u16) @ message_image (dm_message d))
         (rpk_messages p))"

definition replay_packet_framed :: "replay_packet \<Rightarrow> bool" where
  "replay_packet_framed p \<longleftrightarrow> length (rpk_session p) = 10 \<and>
     (case rpk_kind p of
        RPK_data \<Rightarrow> length (rpk_messages p) = unat (rpk_message_count p)
          \<and> 1 \<le> length (rpk_messages p) \<and> length (rpk_messages p) \<le> 65534
          \<and> unat (rpk_first_sequence_number p) + length (rpk_messages p) \<le> 2 ^ 64
          \<and> (\<forall>i < length (rpk_messages p).
               dm_sequence_number (rpk_messages p ! i) = rpk_first_sequence_number p + of_nat i)
          \<and> (\<forall>d \<in> set (rpk_messages p). message_ok (dm_message d) \<and> typed_message (dm_message d))
      | RPK_heartbeat \<Rightarrow> rpk_messages p = [] \<and> rpk_message_count p = 0
      | RPK_end_of_session \<Rightarrow> rpk_messages p = [] \<and> rpk_message_count p = 0xFFFF)"

fun to_mold_kind :: "replay_packet_kind \<Rightarrow> packet_kind" where
  "to_mold_kind RPK_data = PK_data"
| "to_mold_kind RPK_heartbeat = PK_heartbeat"
| "to_mold_kind RPK_end_of_session = PK_end_of_session"

definition mold_of :: "replay_packet \<Rightarrow> downstream_packet" where
  "mold_of p = \<lparr>dp_session = rpk_session p, dp_first_sequence_number = rpk_first_sequence_number p,
     dp_message_count = rpk_message_count p, dp_kind = to_mold_kind (rpk_kind p),
     dp_messages = map block_of (rpk_messages p)\<rparr>"

lemma to_mold_kind_inverse [simp]:
  "to_mold_kind (to_replay_packet_kind k) = k" "to_replay_packet_kind (to_mold_kind r) = r"
  "to_mold_kind r = PK_data \<longleftrightarrow> r = RPK_data"
  by (cases k; simp) (cases r; simp)+

lemma replay_packet_image_mold: "replay_packet_image p = packet_image (mold_of p)"
  by (simp add: replay_packet_image_def packet_image_def mold_header_image_def blocks_image_def mold_of_def
    block_image_def block_of_def comp_def)

lemma wire_length_bound: "wire_length m \<le> 65535"
  by (cases m) simp_all

lemma not_special_count_iff: "\<not> is_special_message_count c \<longleftrightarrow> 1 \<le> unat c \<and> unat c \<le> 65534"
proof -
  have "unat c < 65536" using unsigned_less [of c] by simp
  moreover have "c = 0 \<longleftrightarrow> unat c = 0" "c = 0xFFFF \<longleftrightarrow> unat c = 65535"
    by (simp_all add: word_unat_eq_iff)
  ultimately show ?thesis
    unfolding is_special_message_count_def heartbeat_message_count_def end_of_session_message_count_def by arith
qed

lemma numbered_iff:
  "numbered first index ms \<longleftrightarrow>
     (\<forall>i < length ms. mb_sequence_number (ms ! i) = first + of_nat (index + i)) \<and> (\<forall>m \<in> set ms. length (mb_payload m) \<le> 65535)"
  by (induction ms arbitrary: index) (auto simp: All_less_Suc2 ac_simps)

lemma replay_packet_framed_mold:
  "replay_packet_framed p \<longleftrightarrow> (rpk_kind p = RPK_data \<or> rpk_messages p = []) \<and> decodable (mold_of p)
     \<and> (\<forall>d \<in> set (rpk_messages p). message_ok (dm_message d) \<and> typed_message (dm_message d))"
proof (cases "rpk_kind p")
  case RPK_data
  have len: "length (message_image (dm_message d)) \<le> 65535" if "typed_message (dm_message d)" for d
    using that by (simp add: length_message_image wire_length_bound)
  have special: "\<not> is_special_message_count (rpk_message_count p)
      \<longleftrightarrow> 1 \<le> unat (rpk_message_count p) \<and> unat (rpk_message_count p) \<le> 65534"
    by (rule not_special_count_iff)
  show ?thesis
    using RPK_data len special
    by (auto simp: replay_packet_framed_def decodable_def encodable_def mold_of_def numbered_iff block_of_def)
next
  case RPK_heartbeat
  then show ?thesis
    by (auto simp: replay_packet_framed_def decodable_def encodable_def mold_of_def heartbeat_message_count_def)
next
  case RPK_end_of_session
  then show ?thesis
    by (auto simp: replay_packet_framed_def decodable_def encodable_def mold_of_def end_of_session_message_count_def)
qed

lemma decode_moldudp64_itch_packet_mold:
  "decode_moldudp64_itch_packet bs = Ok p \<longleftrightarrow> (rpk_kind p = RPK_data \<or> rpk_messages p = [])
     \<and> decode_downstream_packet bs = Ok (mold_of p)
     \<and> (\<forall>d \<in> set (rpk_messages p). message_ok (dm_message d) \<and> typed_message (dm_message d))"
  (is "?l \<longleftrightarrow> ?r")
proof
  assume ?l
  then obtain mold where mold: "decode_downstream_packet bs = Ok mold"
    and p: "(if dp_kind mold = PK_data then result_bind (decode_itch_blocks (dp_messages mold)) (\<lambda>messages.
          Ok \<lparr>rpk_session = dp_session mold, rpk_first_sequence_number = dp_first_sequence_number mold,
             rpk_message_count = dp_message_count mold, rpk_kind = RPK_data, rpk_messages = messages\<rparr>)
        else Ok \<lparr>rpk_session = dp_session mold, rpk_first_sequence_number = dp_first_sequence_number mold,
             rpk_message_count = dp_message_count mold, rpk_kind = to_replay_packet_kind (dp_kind mold),
             rpk_messages = []\<rparr>) = Ok p"
    by (auto simp: decode_moldudp64_itch_packet_def result_bind_eq_Ok Let_def split: if_splits)
  show ?r
  proof (cases "dp_kind mold = PK_data")
    case True
    with p mold show ?thesis
      by (cases mold) (auto simp: result_bind_eq_Ok decode_itch_blocks_iff mold_of_def
        simp del: message_ok.simps typed_message.simps)
  next
    case False
    from mold have "decodable mold" by (simp add: decode_downstream_packet_iff)
    then have "dp_messages mold = []" using False by (cases "dp_kind mold") (auto simp: decodable_def encodable_def)
    with False p mold show ?thesis by (cases mold) (auto simp: mold_of_def)
  qed
next
  assume ?r
  then show ?l
    using decode_itch_blocks_iff [of "map block_of (rpk_messages p)" "rpk_messages p"]
    by (cases p; cases "rpk_kind p") (auto simp: decode_moldudp64_itch_packet_def mold_of_def
      simp del: message_ok.simps typed_message.simps)
qed

section \<open>The effect of a message on the market\<close>





section \<open>Properties\<close>

definition sample_listing :: stock_directory_message where
  "sample_listing = \<lparr>sd_header = sample_header, sd_stock = ''AAPL    '', sd_market_category = CHR ''Q'',
     sd_financial_status_indicator = CHR ''N'', sd_round_lot_size = 100, sd_round_lots_only = CHR ''N'',
     sd_issue_classification = CHR ''C'', sd_issue_sub_type = ''Z '', sd_authenticity = CHR ''P'',
     sd_short_sale_threshold_indicator = CHR ''N'', sd_ipo_flag = CHR ''N'', sd_luld_reference_price_tier = CHR ''1'',
     sd_etp_flag = CHR ''N'', sd_etp_leverage_factor = 0, sd_inverse_indicator = CHR ''N''\<rparr>"

definition sample_feed :: replay_packet where
  "sample_feed = \<lparr>rpk_session = replicate 10 0x20, rpk_first_sequence_number = 1, rpk_message_count = 3,
     rpk_kind = RPK_data, rpk_messages = [
       \<lparr>dm_sequence_number = 1, dm_message = StockDirectory sample_listing\<rparr>,
       \<lparr>dm_sequence_number = 2, dm_message = sample_book_add 7 Buy 100 1500\<rparr>,
       \<lparr>dm_sequence_number = 3, dm_message = sample_book_add 8 Sell 50 1600\<rparr>]\<rparr>"

definition sample_applier :: replay_applier where
  "sample_applier = \<lparr>ra_venue_id = 1, ra_directory = empty_directory,
     ra_books = snd (add_venue (Some empty_directory) Map.empty 1), ra_stats = empty_stats\<rparr>"

definition sample_market :: replay_applier where
  "sample_market = snd (replay_apply_packet sample_applier sample_feed)"

lemma sample_market_run: "market_run 3 (ra_directory sample_market) (ra_books sample_market)"
proof -
  have "market_run 0 (ra_directory sample_applier) (ra_books sample_applier)"
    using run_venue [OF run_start, of 1] by (simp add: sample_applier_def)
  moreover have "length (rpk_messages sample_feed) = 3" by (simp add: sample_feed_def)
  ultimately show ?thesis using run_packet [of 0 sample_applier sample_feed] by (simp add: sample_market_def)
qed


definition sample_data_packet :: replay_packet where
  "sample_data_packet = \<lparr>rpk_session = replicate 10 0x20, rpk_first_sequence_number = 5, rpk_message_count = 1,
     rpk_kind = RPK_data, rpk_messages = [\<lparr>dm_sequence_number = 5, dm_message = AddOrderNoMpid sample_add\<rparr>]\<rparr>"


lemmas sample_market_simps = sample_market_def sample_applier_def sample_feed_def sample_listing_def
  replay_apply_packet_def replay_apply_decoded_def replay_apply_message_def apply_stock_directory_def
  add_venue_def new_venue_book_def multi_venue_apply_def venue_apply_def metadata_for_def find_instrument_at_def
  find_instrument_def get_or_create_book_def empty_directory_def canonical_symbol_from_stock_def
  is_valid_stock_directory_message_def is_valid_header_for_stock_message_def is_valid_fixed_ascii_def
  is_printable_ascii_or_space_def is_valid_protocol_char_or_space_def byte_of_char_def sample_header_def
  sample_book_simps stock_locate_from_def 

lemmas sample_quote_simps = normalized_bbo_def bids_def asks_def instruments_for_symbol_def List.map_filter_simps
  multi_venue_best_bid_def multi_venue_best_ask_def venue_best_bid_def venue_best_ask_def venue_quote_def
  best_bid_def best_ask_def om_begin_def make_level_def make_quote_def

lemma sample_market_quotes:
  "map_option q_price (bbo_bid (normalized_bbo (Some (ra_directory sample_market)) (Some (ra_books sample_market))
     \<lparr>cs_stock = ''AAPL    ''\<rparr>)) = Some 1500"
  "map_option q_price (bbo_ask (normalized_bbo (Some (ra_directory sample_market)) (Some (ra_books sample_market))
     \<lparr>cs_stock = ''AAPL    ''\<rparr>)) = Some 1600"
  by (simp_all add: sample_market_simps sample_quote_simps)

text \<open>What a quote shown for a side of a symbol must be.\<close>

definition best_of_market ::
  "multi_venue_book \<Rightarrow> canonical_symbol \<Rightarrow> side \<Rightarrow> (int \<Rightarrow> int \<Rightarrow> bool) \<Rightarrow> quote option \<Rightarrow> bool" where
  "best_of_market mvb symbol s at_least_as_good best \<longleftrightarrow> (case best of
      None \<Rightarrow> resting mvb symbol s = {}
    | Some q \<Rightarrow> q_symbol q = symbol
        \<and> (\<exists>book p. books_at mvb (q_key q) = Some book \<and> sob_stock book = cs_stock symbol
             \<and> q_price q = uint p \<and> at_level (sob_orders book) s p \<noteq> {}
             \<and> unat (q_quantity q) = shares_at (sob_orders book) s p
             \<and> unat (q_order_count q) = card (at_level (sob_orders book) s p))
        \<and> (\<forall>(key, ref, ord) \<in> resting mvb symbol s. at_least_as_good (q_price q) (uint (ro_price ord))))"

text \<open>
  C10: After any feed of at most \<open>2^32\<close> messages through any number of venues, the normalised best bid of a
  symbol is empty exactly when no buy order for that symbol rests anywhere; otherwise it names an instrument
  of the symbol, shows a price at which that instrument's book has buy orders with their exact total shares
  and number, and no buy order of the symbol rests at any venue at a higher price. The same holds for the best offer,
  the sell orders and the lowest price.\<close>

theorem normalized_bbo_is_best:
  assumes "market_run n dir mvb" "n \<le> 2 ^ 32"
  shows "best_of_market mvb symbol Buy (\<ge>) (bbo_bid (normalized_bbo (Some dir) (Some mvb) symbol))
    \<and> best_of_market mvb symbol Sell (\<le>) (bbo_ask (normalized_bbo (Some dir) (Some mvb) symbol))"
proof -
  note inv = market_run_inv [OF assms]
  have "best_of_market mvb symbol Buy (\<ge>) (bbo_bid (normalized_bbo (Some dir) (Some mvb) symbol))"
    using bid_view.pick_best_market [OF inv, of symbol]
    by (simp add: best_of_market_def normalized_bbo_def bids_market_quotes)
  moreover have "best_of_market mvb symbol Sell (\<le>) (bbo_ask (normalized_bbo (Some dir) (Some mvb) symbol))"
    using ask_view.pick_best_market [OF inv, of symbol]
    by (simp add: best_of_market_def normalized_bbo_def asks_market_quotes)
  ultimately show ?thesis by simp
qed

theorem normalized_bbo_is_best_witness:
  "map_option q_price (bbo_bid (normalized_bbo (Some (ra_directory sample_market)) (Some (ra_books sample_market))
     \<lparr>cs_stock = ''AAPL    ''\<rparr>)) = Some 1500
   \<and> best_of_market (ra_books sample_market) \<lparr>cs_stock = ''AAPL    ''\<rparr> Buy (\<ge>)
        (bbo_bid (normalized_bbo (Some (ra_directory sample_market)) (Some (ra_books sample_market)) \<lparr>cs_stock = ''AAPL    ''\<rparr>))
   \<and> best_of_market (ra_books sample_market) \<lparr>cs_stock = ''AAPL    ''\<rparr> Sell (\<le>)
        (bbo_ask (normalized_bbo (Some (ra_directory sample_market)) (Some (ra_books sample_market)) \<lparr>cs_stock = ''AAPL    ''\<rparr>))"
  using normalized_bbo_is_best [OF sample_market_run, of "\<lparr>cs_stock = ''AAPL    ''\<rparr>"] sample_market_quotes(1)
  by simp

text \<open>
  Among equally priced venues the view shows the largest quantity, and among equal quantities the lowest
  venue identifier: no quote of the symbol ranks before the one shown.\<close>

theorem normalized_bbo_tie_break:
  "(\<forall>q. bbo_bid (normalized_bbo dir (Some mvb) symbol) = Some q \<longrightarrow>
      q \<in> set (bids dir mvb symbol) \<and> (\<forall>x \<in> set (bids dir mvb symbol).
        q_price x = q_price q \<longrightarrow> q_quantity x \<le> q_quantity q
          \<and> (q_quantity x = q_quantity q \<longrightarrow> ik_venue_id (q_key q) \<le> ik_venue_id (q_key x))))
   \<and> (\<forall>q. bbo_ask (normalized_bbo dir (Some mvb) symbol) = Some q \<longrightarrow>
      q \<in> set (asks dir mvb symbol) \<and> (\<forall>x \<in> set (asks dir mvb symbol).
        q_price x = q_price q \<longrightarrow> q_quantity x \<le> q_quantity q
          \<and> (q_quantity x = q_quantity q \<longrightarrow> ik_venue_id (q_key q) \<le> ik_venue_id (q_key x))))"
proof (intro conjI allI impI)
  fix q assume "bbo_bid (normalized_bbo dir (Some mvb) symbol) = Some q"
  then have "pick_best is_better_bid None (bids dir mvb symbol) = Some q" by (simp add: normalized_bbo_def)
  from bid_ranking.pick_best_Some [OF this]
  show "q \<in> set (bids dir mvb symbol)" "\<forall>x \<in> set (bids dir mvb symbol).
        q_price x = q_price q \<longrightarrow> q_quantity x \<le> q_quantity q
          \<and> (q_quantity x = q_quantity q \<longrightarrow> ik_venue_id (q_key q) \<le> ik_venue_id (q_key x))"
    by (auto simp: is_better_bid_def split: if_splits)
next
  fix q assume "bbo_ask (normalized_bbo dir (Some mvb) symbol) = Some q"
  then have "pick_best is_better_ask None (asks dir mvb symbol) = Some q" by (simp add: normalized_bbo_def)
  from ask_ranking.pick_best_Some [OF this]
  show "q \<in> set (asks dir mvb symbol)" "\<forall>x \<in> set (asks dir mvb symbol).
        q_price x = q_price q \<longrightarrow> q_quantity x \<le> q_quantity q
          \<and> (q_quantity x = q_quantity q \<longrightarrow> ik_venue_id (q_key q) \<le> ik_venue_id (q_key x))"
    by (auto simp: is_better_ask_def split: if_splits)
qed

theorem normalized_bbo_tie_break_witness:
  "\<exists>q. bbo_bid (normalized_bbo (Some (ra_directory sample_market)) (Some (ra_books sample_market))
       \<lparr>cs_stock = ''AAPL    ''\<rparr>) = Some q
     \<and> q \<in> set (bids (Some (ra_directory sample_market)) (ra_books sample_market) \<lparr>cs_stock = ''AAPL    ''\<rparr>)"
  using normalized_bbo_tie_break [of "Some (ra_directory sample_market)" "ra_books sample_market" "\<lparr>cs_stock = ''AAPL    ''\<rparr>"]
    sample_market_quotes(1) by auto

text \<open>
  C15: The replay decoder accepts exactly the well-framed datagrams: decoding \<open>bs\<close> gives \<open>packet\<close> if and only if
  \<open>bs\<close> is the wire image of \<open>packet\<close> and \<open>packet\<close> is well framed, that is, a heartbeat or an end-of-session
  packet with no message and its own count, or a data packet of 1 to 65534 valid ITCH messages, as many as its
  count says, with consecutive sequence numbers that do not pass \<open>2^64\<close>.\<close>

theorem replay_decode_canonical:
  "decode_moldudp64_itch_packet bs = Ok packet \<longleftrightarrow> replay_packet_framed packet \<and> bs = replay_packet_image packet"
proof -
  have "decode_moldudp64_itch_packet bs = Ok packet \<longleftrightarrow>
      (rpk_kind packet = RPK_data \<or> rpk_messages packet = [])
      \<and> decode_downstream_packet bs = Ok (mold_of packet)
      \<and> (\<forall>d \<in> set (rpk_messages packet). message_ok (dm_message d) \<and> typed_message (dm_message d))"
    by (rule decode_moldudp64_itch_packet_mold)
  then show ?thesis
    unfolding decode_downstream_packet_iff replay_packet_framed_mold replay_packet_image_mold by blast
qed

theorem replay_decode_canonical_witness:
  "decode_moldudp64_itch_packet (replay_packet_image sample_data_packet) = Ok sample_data_packet"
  unfolding replay_decode_canonical using sample_add_ok
  by (simp add: replay_packet_framed_def sample_data_packet_def del: message_ok.simps typed_message.simps)



text \<open>
  Applying a packet to a valid applier is fully accounted for. A heartbeat or end-of-session packet
  changes only its counter and always succeeds. A data packet is counted once; if it succeeds, every one of
  its messages was handled, and if it fails, exactly the messages before the failing one were handled, the
  failure is counted once, and the last sequence number is that of the failing message.\<close>

theorem replay_packet_accounting:
  assumes "is_valid_venue_id (ra_venue_id ra)" "replay_apply_packet ra packet = (e, ra')"
  shows "case rpk_kind packet of
      RPK_data \<Rightarrow> \<exists>i \<le> length (rpk_messages packet). handled (ra_stats ra') = handled (ra_stats ra) + i
        \<and> rst_packets (ra_stats ra') = rst_packets (ra_stats ra) + 1
        \<and> rst_data_packets (ra_stats ra') = rst_data_packets (ra_stats ra) + 1
        \<and> (if e = EC_ok
           then i = length (rpk_messages packet)
             \<and> rst_failed_messages (ra_stats ra') = rst_failed_messages (ra_stats ra)
           else i < length (rpk_messages packet)
             \<and> rst_failed_messages (ra_stats ra') = rst_failed_messages (ra_stats ra) + 1
             \<and> rst_last_sequence_number (ra_stats ra') = dm_sequence_number (rpk_messages packet ! i))
    | RPK_heartbeat \<Rightarrow> e = EC_ok \<and> ra' = ra\<lparr>ra_stats := (ra_stats ra)\<lparr>rst_packets := rst_packets (ra_stats ra) + 1,
        rst_heartbeat_packets := rst_heartbeat_packets (ra_stats ra) + 1\<rparr>\<rparr>
    | RPK_end_of_session \<Rightarrow> e = EC_ok \<and> ra' = ra\<lparr>ra_stats := (ra_stats ra)\<lparr>rst_packets := rst_packets (ra_stats ra) + 1,
        rst_end_of_session_packets := rst_end_of_session_packets (ra_stats ra) + 1\<rparr>\<rparr>"
proof (cases "rpk_kind packet")
  case RPK_data
  let ?ra = "ra\<lparr>ra_stats := (ra_stats ra)\<lparr>rst_packets := rst_packets (ra_stats ra) + 1,
    rst_data_packets := rst_data_packets (ra_stats ra) + 1\<rparr>\<rparr>"
  from RPK_data assms have "replay_apply_all ?ra (rpk_messages packet) = (e, ra')"
    by (simp add: replay_apply_packet_def Let_def)
  from replay_apply_all_stats [OF this] show ?thesis
    using RPK_data by (auto simp: handled_def same_packets_def split: if_splits)
qed (use assms in \<open>auto simp: replay_apply_packet_def Let_def\<close>)

theorem replay_packet_accounting_witness:
  "handled (ra_stats (snd (replay_apply_packet sample_applier sample_feed))) = 3"
proof -
  have v: "is_valid_venue_id (ra_venue_id sample_applier)"
    by (simp add: sample_applier_def is_valid_venue_id_def invalid_venue_id_def)
  have ok: "fst (replay_apply_packet sample_applier sample_feed) = EC_ok" by (simp add: sample_market_simps)
  obtain ra' where r: "replay_apply_packet sample_applier sample_feed = (EC_ok, ra')"
    using ok by (cases "replay_apply_packet sample_applier sample_feed") simp
  from replay_packet_accounting [OF v r] r show ?thesis
    by (simp add: sample_feed_def sample_applier_def empty_stats_def handled_def)
qed

end
