(* ===== verification/Generator.thy ===== *)
theory Generator
  imports Replay "HOL-Library.Multiset"
begin

text \<open>
  The synthetic feed: \<^verbatim>\<open>src/gen/itch_message_builder.cpp\<close> produces ITCH messages,
  \<^verbatim>\<open>src/gen/moldudp64_packet_framer.cpp\<close> frames them into MoldUDP64 datagrams. A \<^verbatim>\<open>std::string_view\<close> is
  a string, \<^verbatim>\<open>std::size_t\<close> symbol counts and indices are natural numbers, and the event counter, which
  enters 64-bit arithmetic, is a word.

  The framer is proved to be the inverse of the replay decoder, the builder to emit valid messages
  with fresh reference numbers.
\<close>

section \<open>The packet framer\<close>

record packet_framer =
  pf_session :: session
  pf_first_sequence_number :: u64
  pf_next_sequence_number :: u64

definition make_framer :: "session \<Rightarrow> u64 \<Rightarrow> packet_framer" where
  "make_framer session first =
     (let first1 = (if first = 0 then 1 else first)
      in \<lparr>pf_session = session, pf_first_sequence_number = first1, pf_next_sequence_number = first1\<rparr>)"

fun encode_each :: "message list \<Rightarrow> bytes list option" where
  "encode_each [] = Some []"
| "encode_each (message # messages) =
     (let (error, encoded) = encode_message (replicate (wire_length message) 0) message in
      if error \<noteq> EC_ok then None
      else map_option ((#) encoded) (encode_each messages))"

definition number_blocks :: "u64 \<Rightarrow> bytes list \<Rightarrow> message_block list" where
  "number_blocks next encoded =
     map (\<lambda>index. \<lparr>mb_sequence_number = next + of_nat index, mb_payload = encoded ! index\<rparr>) [0..<length encoded]"

definition frame_data_packet :: "packet_framer \<Rightarrow> message list \<Rightarrow> bytes \<times> packet_framer" where
  "frame_data_packet pf messages =
     (if messages = [] then ([], pf)
      else if length messages > 65535 then ([], pf)
      else case encode_each messages of
        None \<Rightarrow> ([], pf)
      | Some encoded \<Rightarrow>
          let blocks = number_blocks (pf_next_sequence_number pf) encoded;
              packet = \<lparr>dp_session = pf_session pf, dp_first_sequence_number = pf_next_sequence_number pf,
                dp_message_count = of_nat (length blocks), dp_kind = PK_data, dp_messages = blocks\<rparr>;
              (error, framed) = encode_downstream_packet (replicate (downstream_packet_encoded_length packet) 0) packet
          in if error \<noteq> EC_ok then ([], pf)
             else (framed, pf\<lparr>pf_next_sequence_number := pf_next_sequence_number pf + of_nat (length messages)\<rparr>))"

definition frame_heartbeat :: "packet_framer \<Rightarrow> bytes" where
  "frame_heartbeat pf =
     (let packet = \<lparr>dp_session = pf_session pf, dp_first_sequence_number = pf_next_sequence_number pf,
            dp_message_count = heartbeat_message_count, dp_kind = PK_heartbeat, dp_messages = []\<rparr>;
          (error, framed) = encode_downstream_packet (replicate length_downstream_header 0) packet
      in if error \<noteq> EC_ok then [] else framed)"

definition framer_reset :: "packet_framer \<Rightarrow> packet_framer" where
  "framer_reset pf = pf\<lparr>pf_next_sequence_number := pf_first_sequence_number pf\<rparr>"

section \<open>The message builder\<close>

record itch_symbol_config =
  isc_symbol :: string
  isc_base_price :: u32
  isc_price_step :: u32

record builder_config =
  bc_symbols :: "itch_symbol_config list"
  bc_first_stock_locate :: u16
  bc_first_order_reference_number :: u64
  bc_min_shares :: u32
  bc_max_shares :: u32
  bc_first_timestamp_ns :: u64
  bc_timestamp_step_ns :: u64
  bc_hot_symbol_count :: nat
  bc_hot_symbol_percent :: u8
  bc_cancel_percent :: u8
  bc_alternate_sides :: bool

record symbol_state =
  sys_config :: itch_symbol_config
  sys_stock_locate :: u16
  sys_resting_orders :: "u64 list"

record message_builder =
  mbd_config :: builder_config
  mbd_symbol_states :: "symbol_state list"
  mbd_next_order_reference_number :: u64
  mbd_generated_count :: u64

definition default_symbol_config :: itch_symbol_config where
  "default_symbol_config = \<lparr>isc_symbol = ''AAPL'', isc_base_price = 1000000, isc_price_step = 100\<rparr>"

definition default_builder_config :: builder_config where
  "default_builder_config = \<lparr>bc_symbols = [], bc_first_stock_locate = 1, bc_first_order_reference_number = 1,
     bc_min_shares = 100, bc_max_shares = 1000, bc_first_timestamp_ns = 0, bc_timestamp_step_ns = 1000,
     bc_hot_symbol_count = 1, bc_hot_symbol_percent = 80, bc_cancel_percent = 10, bc_alternate_sides = True\<rparr>"

definition fixed_ascii_from_text :: "nat \<Rightarrow> string \<Rightarrow> string" where
  "fixed_ascii_from_text n text =
     (let copy_count = min n (length text) in take copy_count text @ replicate (n - copy_count) (CHR '' ''))"

definition clamp_hot_count :: "nat \<Rightarrow> nat \<Rightarrow> nat" where
  "clamp_hot_count hot_count symbols =
     (if symbols = 0 then 0 else if hot_count = 0 then 1 else min hot_count symbols)"

definition clamp_percent :: "u8 \<Rightarrow> u8" where
  "clamp_percent percent = (if percent > 100 then 100 else percent)"

text \<open>The adjustments the constructor makes to its configuration, in its order.\<close>

definition normalize_config :: "builder_config \<Rightarrow> builder_config" where
  "normalize_config c0 =
     (let c1 = (if bc_symbols c0 = [] then c0\<lparr>bc_symbols := [default_symbol_config]\<rparr> else c0);
          c2 = (if bc_min_shares c1 = 0 then c1\<lparr>bc_min_shares := 1\<rparr> else c1);
          c3 = (if bc_max_shares c2 < bc_min_shares c2 then c2\<lparr>bc_max_shares := bc_min_shares c2\<rparr> else c2)
      in c3\<lparr>bc_hot_symbol_count := clamp_hot_count (bc_hot_symbol_count c3) (length (bc_symbols c3)),
            bc_hot_symbol_percent := clamp_percent (bc_hot_symbol_percent c3),
            bc_cancel_percent := clamp_percent (bc_cancel_percent c3)\<rparr>)"

definition make_builder :: "builder_config \<Rightarrow> message_builder" where
  "make_builder config =
     (let c = normalize_config config in
      \<lparr>mbd_config = c,
       mbd_symbol_states = map (\<lambda>index.
         \<lparr>sys_config = bc_symbols c ! index,
          sys_stock_locate = bc_first_stock_locate c + of_nat index,
          sys_resting_orders = []\<rparr>) [0..<length (bc_symbols c)],
       mbd_next_order_reference_number = bc_first_order_reference_number config,
       mbd_generated_count = 0\<rparr>)"

definition choose_symbol_index :: "message_builder \<Rightarrow> nat" where
  "choose_symbol_index b =
     (let symbols = length (mbd_symbol_states b);
          hot = bc_hot_symbol_count (mbd_config b);
          count = unat (mbd_generated_count b)
      in if symbols \<le> 1 then 0
         else
           let bucket = ucast (mbd_generated_count b mod 100) :: u8 in
           if bucket < bc_hot_symbol_percent (mbd_config b) then count mod hot
           else
             let cold_count = symbols - hot in
             if cold_count = 0 then count mod hot else hot + count mod cold_count)"

definition choose_shares :: "message_builder \<Rightarrow> u32" where
  "choose_shares b =
     (let range = bc_max_shares (mbd_config b) - bc_min_shares (mbd_config b) + 1;
          offset = ucast (mbd_generated_count b mod ucast range) :: u32
      in bc_min_shares (mbd_config b) + offset)"

definition choose_price :: "message_builder \<Rightarrow> symbol_state \<Rightarrow> side \<Rightarrow> u32" where
  "choose_price b st side =
     (let price_config = sys_config st;
          wobble = ucast ((mbd_generated_count b mod 10) * ucast (isc_price_step price_config)) :: u32;
          half_spread = isc_price_step price_config * 5
      in if side = Sell then isc_base_price price_config + half_spread + wobble
         else
           let below = half_spread + wobble in
           if below \<ge> isc_base_price price_config
           then if isc_price_step price_config > 0 then isc_price_step price_config else 1
           else isc_base_price price_config - below)"

definition choose_side :: "message_builder \<Rightarrow> side" where
  "choose_side b =
     (if \<not> bc_alternate_sides (mbd_config b) then Buy
      else if mbd_generated_count b mod 2 = 0 then Buy else Sell)"

definition current_timestamp_ns :: "message_builder \<Rightarrow> u64" where
  "current_timestamp_ns b =
     (bc_first_timestamp_ns (mbd_config b) + mbd_generated_count b * bc_timestamp_step_ns (mbd_config b))
       mod nanoseconds_per_day"

definition should_cancel :: "message_builder \<Rightarrow> symbol_state \<Rightarrow> bool" where
  "should_cancel b st =
     (if sys_resting_orders st = [] then False
      else
        let bucket = ucast ((mbd_generated_count b * 7 + 3) mod 100) :: u8
        in bucket < bc_cancel_percent (mbd_config b))"

definition make_header :: "message_builder \<Rightarrow> u16 \<Rightarrow> header" where
  "make_header b stock_locate =
     \<lparr>hdr_stock_locate = stock_locate, hdr_tracking_number = 0, hdr_timestamp_ns = current_timestamp_ns b\<rparr>"

definition session_open_messages :: "message_builder \<Rightarrow> message list" where
  "session_open_messages b = map (\<lambda>st. StockDirectory
     \<lparr>sd_header = make_header b (sys_stock_locate st),
      sd_stock = fixed_ascii_from_text 8 (isc_symbol (sys_config st)),
      sd_market_category = CHR ''Q'', sd_financial_status_indicator = CHR ''N'', sd_round_lot_size = 100,
      sd_round_lots_only = CHR ''N'', sd_issue_classification = CHR ''C'',
      sd_issue_sub_type = fixed_ascii_from_text 2 '''', sd_authenticity = CHR ''P'',
      sd_short_sale_threshold_indicator = CHR ''N'', sd_ipo_flag = CHR ''N'',
      sd_luld_reference_price_tier = CHR '' '', sd_etp_flag = CHR ''N'', sd_etp_leverage_factor = 0,
      sd_inverse_indicator = CHR ''N''\<rparr>) (mbd_symbol_states b)"

text \<open>\<^verbatim>\<open>build_add_order\<close> and \<^verbatim>\<open>build_cancel\<close> update the symbol state at \<open>index\<close> in place.\<close>

definition build_add_order :: "message_builder \<Rightarrow> nat \<Rightarrow> message \<times> message_builder" where
  "build_add_order b index =
     (let st = mbd_symbol_states b ! index;
          side = choose_side b;
          ref = mbd_next_order_reference_number b;
          b1 = b\<lparr>mbd_next_order_reference_number := ref + 1,
                 mbd_symbol_states := (mbd_symbol_states b)
                   [index := st\<lparr>sys_resting_orders := sys_resting_orders st @ [ref]\<rparr>]\<rparr>
      in (AddOrderNoMpid
            \<lparr>ao_header = make_header b (sys_stock_locate st), ao_order_reference_number = ref, ao_side = side,
             ao_shares = choose_shares b, ao_stock = fixed_ascii_from_text 8 (isc_symbol (sys_config st)),
             ao_price = choose_price b st side\<rparr>, b1))"

definition build_cancel :: "message_builder \<Rightarrow> nat \<Rightarrow> message \<times> message_builder" where
  "build_cancel b index =
     (let st = mbd_symbol_states b ! index;
          ref = hd (sys_resting_orders st);
          b1 = b\<lparr>mbd_symbol_states := (mbd_symbol_states b)
                   [index := st\<lparr>sys_resting_orders := tl (sys_resting_orders st)\<rparr>]\<rparr>
      in (OrderCancel
            \<lparr>oc_header = make_header b (sys_stock_locate st), oc_order_reference_number = ref,
             oc_cancelled_shares = choose_shares b\<rparr>, b1))"

definition next_market_event :: "message_builder \<Rightarrow> message \<times> message_builder" where
  "next_market_event b0 =
     (let b = b0\<lparr>mbd_generated_count := mbd_generated_count b0 + 1\<rparr>;
          index = choose_symbol_index b
      in if should_cancel b (mbd_symbol_states b ! index) then build_cancel b index
         else build_add_order b index)"

definition stock_locate_at :: "message_builder \<Rightarrow> nat \<Rightarrow> u16" where
  "stock_locate_at b index =
     (if index \<ge> length (mbd_symbol_states b) then 0 else sys_stock_locate (mbd_symbol_states b ! index))"

definition builder_reset :: "message_builder \<Rightarrow> message_builder" where
  "builder_reset b = b\<lparr>mbd_next_order_reference_number := bc_first_order_reference_number (mbd_config b),
     mbd_generated_count := 0,
     mbd_symbol_states := map (\<lambda>st. st\<lparr>sys_resting_orders := []\<rparr>) (mbd_symbol_states b)\<rparr>"

section \<open>Framing\<close>

lemma encode_each_Some:
  "\<forall>m \<in> set ms. typed_message m \<Longrightarrow> encode_each ms = Some xs \<longleftrightarrow>
     (\<forall>m \<in> set ms. message_ok m) \<and> xs = map message_image ms"
proof (induction ms arbitrary: xs)
  case (Cons m ms)
  then show ?case
    by (cases "message_ok m")
       (auto simp: encode_message_valid encode_message_invalid simp del: message_ok.simps typed_message.simps)
qed auto

lemma encode_each_None:
  "\<forall>m \<in> set ms. typed_message m \<Longrightarrow> encode_each ms = None \<longleftrightarrow> \<not> (\<forall>m \<in> set ms. message_ok m)"
  using encode_each_Some [of ms "map message_image ms"] encode_each_Some [of ms]
  by (cases "encode_each ms") auto

definition framed_packet :: "packet_framer \<Rightarrow> message list \<Rightarrow> downstream_packet" where
  "framed_packet pf ms = \<lparr>dp_session = pf_session pf, dp_first_sequence_number = pf_next_sequence_number pf,
     dp_message_count = of_nat (length ms), dp_kind = PK_data,
     dp_messages = number_blocks (pf_next_sequence_number pf) (map message_image ms)\<rparr>"

lemma length_number_blocks [simp]: "length (number_blocks next xs) = length xs"
  by (simp add: number_blocks_def)

lemma numbered_number_blocks:
  assumes "\<forall>x \<in> set xs. length x \<le> 65535"
  shows "numbered first k (map (\<lambda>i. \<lparr>mb_sequence_number = first + of_nat (k + i), mb_payload = xs ! i\<rparr>) [0..<length xs])"
  using assms
proof (induction xs arbitrary: k)
  case (Cons x xs)
  have "[0..<length (x # xs)] = 0 # map Suc [0..<length xs]" by (simp add: map_Suc_upt upt_conv_Cons del: upt_Suc)
  with Cons.IH [of "Suc k"] Cons.prems show ?case by (simp add: comp_def ac_simps del: upt_Suc)
qed simp

lemma framed_packet_encodable:
  assumes "\<forall>m \<in> set ms. typed_message m" "length ms \<le> 65535"
  shows "encodable (framed_packet pf ms)"
proof -
  have "\<forall>x \<in> set (map message_image ms). length x \<le> 65535"
    using assms(1) by (simp add: length_message_image wire_length_bound)
  from numbered_number_blocks [OF this, of "pf_next_sequence_number pf" 0] assms(2) show ?thesis
    by (simp add: encodable_def framed_packet_def number_blocks_def unat_of_nat_u16)
qed

lemma frame_data_packet_cases:
  assumes s: "length (pf_session pf) = 10" and t: "\<forall>m \<in> set ms. typed_message m"
  shows "frame_data_packet pf ms =
    (if ms \<noteq> [] \<and> length ms \<le> 65535 \<and> (\<forall>m \<in> set ms. message_ok m)
     then (packet_image (framed_packet pf ms), pf\<lparr>pf_next_sequence_number := pf_next_sequence_number pf + of_nat (length ms)\<rparr>)
     else ([], pf))"
proof (cases "ms \<noteq> [] \<and> length ms \<le> 65535 \<and> (\<forall>m \<in> set ms. message_ok m)")
  case False
  then show ?thesis using encode_each_None [OF t] by (auto simp: frame_data_packet_def)
next
  case True
  then have e: "encode_each ms = Some (map message_image ms)" using encode_each_Some [OF t] by blast
  have "encode_downstream_packet (replicate (downstream_packet_encoded_length (framed_packet pf ms)) 0) (framed_packet pf ms)
      = (EC_ok, packet_image (framed_packet pf ms))"
    using s t True by (intro encode_downstream_packet_image framed_packet_encodable) (simp_all add: framed_packet_def)
  then show ?thesis using True e by (simp add: frame_data_packet_def Let_def framed_packet_def)
qed


definition numbered_messages :: "u64 \<Rightarrow> message list \<Rightarrow> decoded_itch_message list" where
  "numbered_messages next ms =
     map (\<lambda>i. \<lparr>dm_sequence_number = next + of_nat i, dm_message = ms ! i\<rparr>) [0..<length ms]"

lemma number_blocks_block_of:
  "number_blocks next (map message_image ms) = map block_of (numbered_messages next ms)"
  by (simp add: number_blocks_def numbered_messages_def block_of_def)

lemma framed_packet_decodable:
  assumes "length (pf_session pf) = 10" "\<forall>m \<in> set ms. typed_message m"
    and "ms \<noteq> []" "length ms < 65535" "unat (pf_next_sequence_number pf) + length ms \<le> 2 ^ 64"
  shows "decodable (framed_packet pf ms)"
proof -
  have "unat (of_nat (length ms) :: u16) = length ms" using assms(4) by (simp add: unat_of_nat_u16)
  then have "(of_nat (length ms) :: u16) \<noteq> 0" "(of_nat (length ms) :: u16) \<noteq> 0xFFFF"
    using assms(3,4) by (auto simp: word_unat_eq_iff)
  with assms framed_packet_encodable [of ms pf] show ?thesis
    by (simp add: decodable_def framed_packet_def is_special_message_count_def heartbeat_message_count_def
      end_of_session_message_count_def)
qed

lemma decode_framed_packet:
  assumes "length (pf_session pf) = 10" "\<forall>m \<in> set ms. typed_message m \<and> message_ok m"
    and "ms \<noteq> []" "length ms < 65535" "unat (pf_next_sequence_number pf) + length ms \<le> 2 ^ 64"
  shows "decode_moldudp64_itch_packet (packet_image (framed_packet pf ms)) =
      Ok \<lparr>rpk_session = pf_session pf, rpk_first_sequence_number = pf_next_sequence_number pf,
          rpk_message_count = of_nat (length ms), rpk_kind = RPK_data,
          rpk_messages = numbered_messages (pf_next_sequence_number pf) ms\<rparr>"
proof -
  have "decode_downstream_packet (packet_image (framed_packet pf ms)) = Ok (framed_packet pf ms)"
    using assms by (simp add: decode_downstream_packet_iff framed_packet_decodable)
  moreover have "decode_itch_blocks (dp_messages (framed_packet pf ms)) = Ok (numbered_messages (pf_next_sequence_number pf) ms)"
    unfolding decode_itch_blocks_iff
    using assms(2) by (auto simp: framed_packet_def number_blocks_block_of numbered_messages_def
      simp del: message_ok.simps typed_message.simps)
  ultimately show ?thesis
    by (simp add: decode_moldudp64_itch_packet_def Let_def) (simp add: framed_packet_def)
qed

text \<open>The decoder's answer when the message count is the end-of-session marker.\<close>

lemma decode_image_end_of_session:
  assumes "length (dp_session p) = 10" "dp_message_count p = end_of_session_message_count" "dp_messages p \<noteq> []"
  shows "decode_downstream_packet (packet_image p) = Fail EC_parse_error"
proof -
  have len: "length (packet_image p) > 20"
    using assms by (cases "dp_messages p") (simp_all add: packet_image_def length_mold_header_image)
  have "decode_downstream_packet (packet_image p) \<noteq> Ok q" for q
  proof
    assume "decode_downstream_packet (packet_image p) = Ok q"
    then have q: "length (dp_session q) = 10" "seg (packet_image p) 0 20 = mold_header_image q"
      "if is_special_message_count (dp_message_count q) then length (packet_image p) = 20 \<and> dp_messages q = []
        else decode_blocks (packet_image p) (dp_first_sequence_number q) (unat (dp_message_count q)) 0 20
             = Ok (dp_messages q, length (packet_image p))"
      unfolding decode_header_step by auto
    then have "mold_header_image p = mold_header_image q"
      using assms by (simp add: packet_image_def length_mold_header_image seg_append_take)
    then have "be_bytes 2 (dp_message_count p) = be_bytes 2 (dp_message_count q)"
      using assms q(1) by (simp add: mold_header_image_def)
    then have "dp_message_count q = end_of_session_message_count" using assms by (simp add: be_bytes_inj)
    then have "is_special_message_count (dp_message_count q)" by (simp add: is_special_message_count_def)
    with q(3) len show False by simp
  qed
  moreover have "e = EC_parse_error" if "decode_downstream_packet (packet_image p) = Fail e" for e
    using that by (rule decode_downstream_packet_error)
  ultimately show ?thesis by (cases "decode_downstream_packet (packet_image p)") auto
qed

section \<open>The builder's invariant\<close>

definition symbol_config_ok :: "itch_symbol_config \<Rightarrow> bool" where
  "symbol_config_ok c \<longleftrightarrow> list_all is_printable_ascii_or_space (isc_symbol c) \<and> 0 < isc_base_price c
     \<and> unat (isc_base_price c) + 14 * unat (isc_price_step c) < 2 ^ 32"

definition builder_config_ok :: "builder_config \<Rightarrow> bool" where
  "builder_config_ok c \<longleftrightarrow> (\<forall>s \<in> set (bc_symbols c). symbol_config_ok s)
     \<and> 0 < bc_first_stock_locate c
     \<and> unat (bc_first_stock_locate c) + max 1 (length (bc_symbols c)) \<le> 2 ^ 16
     \<and> 0 < bc_first_order_reference_number c"

text \<open>\<open>k\<close> bounds the next reference number.\<close>

definition all_resting :: "message_builder \<Rightarrow> u64 list" where
  "all_resting b = concat (map sys_resting_orders (mbd_symbol_states b))"

definition builder_inv :: "nat \<Rightarrow> message_builder \<Rightarrow> bool" where
  "builder_inv k b \<longleftrightarrow>
     (let c = mbd_config b in
      0 < bc_min_shares c \<and> bc_min_shares c \<le> bc_max_shares c
      \<and> 0 < bc_hot_symbol_count c \<and> bc_hot_symbol_count c \<le> length (mbd_symbol_states b)
      \<and> (\<forall>st \<in> set (mbd_symbol_states b). symbol_config_ok (sys_config st) \<and> 0 < sys_stock_locate st)
      \<and> 0 < mbd_next_order_reference_number b \<and> unat (mbd_next_order_reference_number b) \<le> k
      \<and> (\<forall>r \<in> set (all_resting b). 0 < r \<and> r < mbd_next_order_reference_number b)
      \<and> distinct (all_resting b))"

lemma normalize_config_simps [simp]:
  "bc_first_stock_locate (normalize_config c) = bc_first_stock_locate c"
  "bc_symbols (normalize_config c) = (if bc_symbols c = [] then [default_symbol_config] else bc_symbols c)"
  by (simp_all add: normalize_config_def Let_def)

lemma normalize_config_shares:
  "0 < bc_min_shares (normalize_config c) \<and> bc_min_shares (normalize_config c) \<le> bc_max_shares (normalize_config c)"
  by (auto simp: normalize_config_def Let_def word_gt_0 word_le_nat_alt word_less_nat_alt Suc_le_eq unat_gt_0 not_less)

lemma normalize_config_hot:
  "0 < bc_hot_symbol_count (normalize_config c)
   \<and> bc_hot_symbol_count (normalize_config c) \<le> length (bc_symbols (normalize_config c))"
  by (auto simp: normalize_config_def Let_def clamp_hot_count_def Suc_le_eq)

lemma default_symbol_config_ok: "symbol_config_ok default_symbol_config"
  by (simp add: symbol_config_ok_def default_symbol_config_def is_printable_ascii_or_space_def byte_of_char_def)

lemma builder_inv_make:
  assumes ok: "builder_config_ok c"
  shows "builder_inv (unat (bc_first_order_reference_number c)) (make_builder c)"
proof -
  let ?c = "normalize_config c"
  have sym: "\<forall>s \<in> set (bc_symbols ?c). symbol_config_ok s"
    using ok default_symbol_config_ok by (auto simp: builder_config_ok_def)
  have "0 < bc_first_stock_locate c + of_nat i" if i: "i < length (bc_symbols ?c)" for i
  proof -
    have "unat (bc_first_stock_locate c) + i < 2 ^ 16" "0 < unat (bc_first_stock_locate c)"
      using ok i by (auto simp: builder_config_ok_def unat_gt_0 word_gt_0 split: if_splits)
    then have "unat (bc_first_stock_locate c + of_nat i) = unat (bc_first_stock_locate c) + i"
      by (simp add: unat_word_ariths unat_of_nat)
    then show ?thesis using \<open>0 < unat (bc_first_stock_locate c)\<close> by (simp add: word_less_nat_alt)
  qed
  moreover have "all_resting (make_builder c) = []"
    by (simp add: all_resting_def make_builder_def Let_def comp_def)
  ultimately show ?thesis
    using ok sym normalize_config_shares [of c] normalize_config_hot [of c]
    by (auto simp: builder_inv_def builder_config_ok_def make_builder_def Let_def)
qed

subsection \<open>What the choices give\<close>

lemma choose_symbol_index_bound:
  assumes "builder_inv k b"
  shows "choose_symbol_index b < length (mbd_symbol_states b)"
proof -
  let ?hot = "bc_hot_symbol_count (mbd_config b)" and ?n = "length (mbd_symbol_states b)"
  have hot: "0 < ?hot" "?hot \<le> ?n" using assms by (simp_all add: builder_inv_def Let_def)
  then have "unat (mbd_generated_count b) mod ?hot < ?n"
    by (meson mod_less_divisor order_less_le_trans)
  moreover have "?hot + unat (mbd_generated_count b) mod (?n - ?hot) < ?n" if "?n - ?hot \<noteq> 0"
  proof -
    have "unat (mbd_generated_count b) mod (?n - ?hot) < ?n - ?hot" using that by (intro mod_less_divisor) simp
    then show ?thesis by linarith
  qed
  ultimately show ?thesis using hot by (auto simp: choose_symbol_index_def Let_def)
qed

lemma unat_choose_shares:
  assumes "0 < bc_min_shares (mbd_config b)" "bc_min_shares (mbd_config b) \<le> bc_max_shares (mbd_config b)"
  shows "unat (choose_shares b) = unat (bc_min_shares (mbd_config b)) + unat (mbd_generated_count b)
     mod (unat (bc_max_shares (mbd_config b)) - unat (bc_min_shares (mbd_config b)) + 1)"
proof -
  define lo where "lo = bc_min_shares (mbd_config b)"
  define hi where "hi = bc_max_shares (mbd_config b)"
  have b: "0 < unat lo" "unat lo \<le> unat hi" "unat hi < 2 ^ 32"
    using assms unsigned_less [of hi, where 'a = nat]
    by (auto simp: lo_def hi_def unat_gt_0 word_gt_0 word_le_nat_alt)
  have "unat (hi - lo + 1) = unat hi - unat lo + 1"
    using b by (simp add: unat_word_ariths unat_sub word_le_nat_alt)
  then have r: "unat (ucast (hi - lo + 1) :: u64) = unat hi - unat lo + 1"
    using b by (simp add: unsigned_ucast_eq take_bit_nat_eq_self)
  define off where "off = mbd_generated_count b mod ucast (hi - lo + 1)"
  have off_eq: "unat off = unat (mbd_generated_count b) mod (unat hi - unat lo + 1)"
    using r by (simp add: off_def unat_mod)
  have off: "unat off \<le> unat hi - unat lo"
    unfolding off_eq by (simp add: less_Suc_eq_le [symmetric])
  then have "unat (ucast off :: u32) = unat off" using b by (simp add: unsigned_ucast_eq take_bit_nat_eq_self)
  with off b have "unat (lo + ucast off) = unat lo + unat off" by (simp add: unat_word_ariths)
  moreover have "choose_shares b = lo + ucast off" by (simp add: choose_shares_def Let_def lo_def hi_def off_def)
  ultimately show ?thesis using off_eq by (simp add: lo_def hi_def)
qed

lemma choose_shares_bounds:
  assumes "builder_inv k b"
  shows "bc_min_shares (mbd_config b) \<le> choose_shares b" "choose_shares b \<le> bc_max_shares (mbd_config b)"
proof -
  let ?lo = "bc_min_shares (mbd_config b)" and ?hi = "bc_max_shares (mbd_config b)"
  have lh: "0 < ?lo" "?lo \<le> ?hi" using assms by (auto simp: builder_inv_def Let_def)
  have "unat (mbd_generated_count b) mod (unat ?hi - unat ?lo + 1) < unat ?hi - unat ?lo + 1"
    by (rule mod_less_divisor) simp
  with lh(2) show "?lo \<le> choose_shares b" "choose_shares b \<le> ?hi"
    unfolding word_le_nat_alt unat_choose_shares [OF lh] by linarith+
qed

lemma choose_price_pos:
  assumes "symbol_config_ok (sys_config st)"
  shows "0 < choose_price b st side"
proof (cases "side = Sell")
  case False
  then show ?thesis by (auto simp: choose_price_def Let_def word_gt_0 not_le)
next
  case True
  define base where "base = isc_base_price (sys_config st)"
  define step where "step = isc_price_step (sys_config st)"
  have ok: "0 < unat base" "unat base + 14 * unat step < 2 ^ 32"
    using assms by (auto simp: symbol_config_ok_def base_def step_def unat_gt_0 word_gt_0)
  have "unat (mbd_generated_count b mod 10) \<le> 9" by (simp add: unat_mod)
  then have "unat (mbd_generated_count b mod 10) * unat step \<le> 9 * unat step" by (rule mult_right_mono) simp
  moreover have "unat (ucast step :: u64) = unat step" using ok by (simp add: unsigned_ucast_eq take_bit_nat_eq_self)
  ultimately have "unat ((mbd_generated_count b mod 10) * ucast step) \<le> 9 * unat step"
    unfolding unat_word_ariths by (simp only:) (meson le_trans mod_less_eq_dividend)
  then have w: "unat (ucast ((mbd_generated_count b mod 10) * ucast step) :: u32) \<le> 9 * unat step"
    using ok by (simp add: unsigned_ucast_eq take_bit_nat_eq_self)
  have "unat (step * 5) = 5 * unat step" using ok by (simp add: unat_word_ariths)
  with w ok have "0 < unat (base + step * 5 + ucast ((mbd_generated_count b mod 10) * ucast step))"
    by (simp add: unat_word_ariths)
  then show ?thesis using True by (simp add: choose_price_def Let_def base_def step_def unat_gt_0 word_gt_0)
qed

lemma current_timestamp_valid: "is_valid_timestamp_ns (current_timestamp_ns b)"
proof -
  have "unat (current_timestamp_ns b) < unat nanoseconds_per_day"
    by (simp add: current_timestamp_ns_def unat_mod nanoseconds_per_day_def)
  then show ?thesis
    by (simp add: is_valid_timestamp_ns_def max_timestamp_ns_since_midnight_def word_le_nat_alt
      nanoseconds_per_day_def)
qed

lemma fixed_ascii_from_text_ok:
  "length (fixed_ascii_from_text n text) = n"
  "list_all is_printable_ascii_or_space text \<Longrightarrow> is_valid_fixed_ascii (fixed_ascii_from_text n text)"
proof -
  show "length (fixed_ascii_from_text n text) = n" by (simp add: fixed_ascii_from_text_def Let_def)
  have "is_printable_ascii_or_space CHR '' ''" by (simp add: is_printable_ascii_or_space_def byte_of_char_def)
  then show "list_all is_printable_ascii_or_space text \<Longrightarrow> is_valid_fixed_ascii (fixed_ascii_from_text n text)"
    by (auto simp: fixed_ascii_from_text_def is_valid_fixed_ascii_def Let_def list_all_iff dest: in_set_takeD)
qed


subsection \<open>Events\<close>

lemma builder_inv_tick: "builder_inv k (b\<lparr>mbd_generated_count := n\<rparr>) = builder_inv k b"
  by (simp add: builder_inv_def all_resting_def)

lemma all_resting_update:
  assumes "i < length (mbd_symbol_states b)"
  shows "mset (all_resting (b\<lparr>mbd_symbol_states := (mbd_symbol_states b)[i := (mbd_symbol_states b ! i)\<lparr>sys_resting_orders := rs\<rparr>]\<rparr>))
     + mset (sys_resting_orders (mbd_symbol_states b ! i)) = mset (all_resting b) + mset rs"
proof -
  have split: "mbd_symbol_states b = take i (mbd_symbol_states b) @ mbd_symbol_states b ! i # drop (Suc i) (mbd_symbol_states b)"
    using assms by (rule id_take_nth_drop)
  have "mset (concat (map sys_resting_orders (mbd_symbol_states b))) =
      mset (concat (map sys_resting_orders (take i (mbd_symbol_states b))))
      + mset (sys_resting_orders (mbd_symbol_states b ! i))
      + mset (concat (map sys_resting_orders (drop (Suc i) (mbd_symbol_states b))))"
    by (subst split) simp
  then show ?thesis
    using assms by (simp add: all_resting_def upd_conv_take_nth_drop)
qed

lemma builder_inv_add:
  assumes inv: "builder_inv k b" and i: "i < length (mbd_symbol_states b)" and k: "k + 1 < 2 ^ 64"
  shows "builder_inv (k + 1) (snd (build_add_order b i))"
proof -
  let ?st = "mbd_symbol_states b ! i" and ?r = "mbd_next_order_reference_number b"
  let ?b = "b\<lparr>mbd_symbol_states := (mbd_symbol_states b)[i := ?st\<lparr>sys_resting_orders := sys_resting_orders ?st @ [?r]\<rparr>]\<rparr>"
  have "mset (all_resting ?b) = add_mset ?r (mset (all_resting b))"
    using all_resting_update [OF i, of "sys_resting_orders ?st @ [?r]"] by simp
  then have m: "set (all_resting ?b) = insert ?r (set (all_resting b))" "distinct (all_resting ?b) = distinct (?r # all_resting b)"
    by (metis set_mset_add_mset_insert set_mset_mset, metis mset.simps(2) mset_eq_imp_distinct_iff)
  have "unat ?r \<le> k" using inv by (simp add: builder_inv_def Let_def)
  then have r: "unat (?r + 1) = unat ?r + 1" using k by (simp add: unat_word_ariths)
  have st: "?st \<in> set (mbd_symbol_states b)" using i by simp
  have res: "all_resting (snd (build_add_order b i)) = all_resting ?b"
    by (simp add: build_add_order_def all_resting_def Let_def)
  have "\<forall>r \<in> insert ?r (set (all_resting b)). 0 < r \<and> r < ?r + 1"
    using inv r by (auto simp: builder_inv_def Let_def word_less_nat_alt)
  moreover have "distinct (?r # all_resting b)" using inv by (auto simp: builder_inv_def Let_def)
  moreover have "0 < ?r + 1" using r by (simp add: word_less_nat_alt)
  ultimately show ?thesis
    using inv st r unfolding builder_inv_def Let_def res m
    by (auto simp: build_add_order_def Let_def dest!: set_update_subset_insert [THEN subsetD])
qed

lemma builder_inv_cancel:
  assumes inv: "builder_inv k b" and i: "i < length (mbd_symbol_states b)"
    and ne: "sys_resting_orders (mbd_symbol_states b ! i) \<noteq> []"
  shows "builder_inv k (snd (build_cancel b i))"
    and "0 < hd (sys_resting_orders (mbd_symbol_states b ! i))"
    and "hd (sys_resting_orders (mbd_symbol_states b ! i)) \<notin> set (all_resting (snd (build_cancel b i)))"
proof -
  let ?st = "mbd_symbol_states b ! i"
  let ?b = "b\<lparr>mbd_symbol_states := (mbd_symbol_states b)[i := ?st\<lparr>sys_resting_orders := tl (sys_resting_orders ?st)\<rparr>]\<rparr>"
  obtain h t where ht: "sys_resting_orders ?st = h # t" using ne by (cases "sys_resting_orders ?st") auto
  have "add_mset h (mset (all_resting ?b)) = mset (all_resting b)"
    using all_resting_update [OF i, of t] ht by simp
  then have m: "set (all_resting b) = insert h (set (all_resting ?b))" "distinct (all_resting b) = distinct (h # all_resting ?b)"
    by (metis set_mset_add_mset_insert set_mset_mset, metis mset.simps(2) mset_eq_imp_distinct_iff)
  have res: "all_resting (snd (build_cancel b i)) = all_resting ?b"
    by (simp add: build_cancel_def all_resting_def Let_def)
  have st: "?st \<in> set (mbd_symbol_states b)" using i by simp
  show "builder_inv k (snd (build_cancel b i))"
    using inv st m unfolding builder_inv_def Let_def res
    by (auto simp: build_cancel_def Let_def dest!: set_update_subset_insert [THEN subsetD])
  show "0 < hd (sys_resting_orders ?st)"
    using inv m(1) ht by (auto simp: builder_inv_def Let_def)
  show "hd (sys_resting_orders ?st) \<notin> set (all_resting (snd (build_cancel b i)))"
    using inv m(2) ht unfolding res by (simp add: builder_inv_def Let_def)
qed


lemma header_for_stock_valid:
  "0 < locate \<Longrightarrow> is_valid_header_for_stock_message (make_header b locate)"
  by (simp add: is_valid_header_for_stock_message_def is_valid_stock_locate_def make_header_def current_timestamp_valid)

lemma build_add_order_valid:
  assumes inv: "builder_inv k b" and i: "i < length (mbd_symbol_states b)"
  shows "message_ok (fst (build_add_order b i)) \<and> typed_message (fst (build_add_order b i))"
proof -
  have "0 < choose_shares b" using inv choose_shares_bounds(1) [OF inv]
    by (auto simp: builder_inv_def Let_def word_gt_0)
  moreover have "symbol_config_ok (sys_config (mbd_symbol_states b ! i))" "0 < sys_stock_locate (mbd_symbol_states b ! i)"
    "0 < mbd_next_order_reference_number b"
    using inv i by (auto simp: builder_inv_def Let_def)
  moreover from this have "list_all is_printable_ascii_or_space (isc_symbol (sys_config (mbd_symbol_states b ! i)))"
    by (simp add: symbol_config_ok_def)
  ultimately show ?thesis
    by (simp add: build_add_order_def Let_def is_valid_add_order_no_mpid_message_def header_for_stock_valid
      is_valid_order_reference_number_def is_valid_shares_def is_valid_price4_def choose_price_pos fixed_ascii_from_text_ok)
qed

lemma build_cancel_valid:
  assumes inv: "builder_inv k b" and i: "i < length (mbd_symbol_states b)"
    and ne: "sys_resting_orders (mbd_symbol_states b ! i) \<noteq> []"
  shows "message_ok (fst (build_cancel b i)) \<and> typed_message (fst (build_cancel b i))"
proof -
  have "0 < choose_shares b" using inv choose_shares_bounds(1) [OF inv]
    by (auto simp: builder_inv_def Let_def word_gt_0)
  moreover have "0 < sys_stock_locate (mbd_symbol_states b ! i)" using inv i by (auto simp: builder_inv_def Let_def)
  ultimately show ?thesis using builder_inv_cancel(2) [OF inv i ne]
    by (simp add: build_cancel_def Let_def is_valid_order_cancel_message_def header_for_stock_valid
      is_valid_order_reference_number_def is_valid_shares_def)
qed

lemma should_cancelD: "should_cancel b st \<Longrightarrow> sys_resting_orders st \<noteq> []"
  by (auto simp: should_cancel_def)

lemma builder_inv_mono: "builder_inv k b \<Longrightarrow> k \<le> k' \<Longrightarrow> builder_inv k' b"
  by (auto simp: builder_inv_def Let_def)

lemma next_market_event_step:
  assumes "builder_inv k b" "k + 1 < 2 ^ 64"
  shows "message_ok (fst (next_market_event b)) \<and> typed_message (fst (next_market_event b))"
    and "builder_inv (k + 1) (snd (next_market_event b))"
proof -
  let ?b = "b\<lparr>mbd_generated_count := mbd_generated_count b + 1\<rparr>"
  have inv: "builder_inv k ?b" using assms by (simp only: builder_inv_tick)
  note i = choose_symbol_index_bound [OF inv]
  show "message_ok (fst (next_market_event b)) \<and> typed_message (fst (next_market_event b))"
    using build_add_order_valid [OF inv i] build_cancel_valid [OF inv i] should_cancelD
    by (simp add: next_market_event_def Let_def del: message_ok.simps typed_message.simps)
  show "builder_inv (k + 1) (snd (next_market_event b))"
    using builder_inv_add [OF inv i assms(2)] builder_inv_cancel(1) [OF inv i] should_cancelD builder_inv_mono [of k _ "k + 1"]
    by (simp add: next_market_event_def Let_def)
qed

definition builder_after :: "builder_config \<Rightarrow> nat \<Rightarrow> message_builder" where
  "builder_after c n = ((snd \<circ> next_market_event) ^^ n) (make_builder c)"

lemma builder_after_inv:
  assumes "builder_config_ok c" "unat (bc_first_order_reference_number c) + n < 2 ^ 64"
  shows "builder_inv (unat (bc_first_order_reference_number c) + n) (builder_after c n)"
  using assms
proof (induction n)
  case 0
  then show ?case by (simp add: builder_after_def builder_inv_make)
next
  case (Suc n)
  then show ?case
    using next_market_event_step(2) [of "unat (bc_first_order_reference_number c) + n" "builder_after c n"]
    by (simp add: builder_after_def)
qed

section \<open>The events of a builder\<close>


text \<open>The reference numbers that a list of messages adds and cancels, each with its stock locate, in order.\<close>

definition added_orders :: "message list \<Rightarrow> (u16 \<times> u64) list" where
  "added_orders ms = concat (map (\<lambda>m. case m of
     AddOrderNoMpid a \<Rightarrow> [(hdr_stock_locate (ao_header a), ao_order_reference_number a)] | _ \<Rightarrow> []) ms)"

definition cancelled_orders :: "message list \<Rightarrow> (u16 \<times> u64) list" where
  "cancelled_orders ms = concat (map (\<lambda>m. case m of
     OrderCancel a \<Rightarrow> [(hdr_stock_locate (oc_header a), oc_order_reference_number a)] | _ \<Rightarrow> []) ms)"

definition refs_at :: "u16 \<Rightarrow> (u16 \<times> u64) list \<Rightarrow> u64 list" where
  "refs_at locate xs = map snd (filter (\<lambda>x. fst x = locate) xs)"

lemma refs_at_append [simp]: "refs_at l (xs @ ys) = refs_at l xs @ refs_at l ys"
  by (simp add: refs_at_def)

lemma refs_at_single [simp]: "refs_at l [] = []" "refs_at l [(l', r)] = (if l' = l then [r] else [])"
  by (simp_all add: refs_at_def)

text \<open>
  The builder against the messages it has emitted: its next reference number counts the added orders, and the
  orders it remembers for a symbol are those added and not yet cancelled, oldest first.\<close>

definition trace_inv :: "u64 \<Rightarrow> message list \<Rightarrow> message_builder \<Rightarrow> bool" where
  "trace_inv first ms b \<longleftrightarrow>
     distinct (map sys_stock_locate (mbd_symbol_states b))
     \<and> map snd (added_orders ms) = map (\<lambda>i. first + of_nat i) [0..<length (added_orders ms)]
     \<and> mbd_next_order_reference_number b = first + of_nat (length (added_orders ms))
     \<and> length (added_orders ms) + length (cancelled_orders ms) = length ms
     \<and> (\<forall>st \<in> set (mbd_symbol_states b).
          refs_at (sys_stock_locate st) (added_orders ms) = refs_at (sys_stock_locate st) (cancelled_orders ms) @ sys_resting_orders st)
     \<and> (\<forall>l. l \<notin> sys_stock_locate ` set (mbd_symbol_states b) \<longrightarrow> refs_at l (added_orders ms) = [] \<and> refs_at l (cancelled_orders ms) = [])"

lemma trace_inv_tick [simp]: "trace_inv first ms (b\<lparr>mbd_generated_count := n\<rparr>) = trace_inv first ms b"
  by (simp add: trace_inv_def)















section \<open>Properties\<close>

definition sample_framer :: packet_framer where
  "sample_framer = make_framer (replicate 10 0x20) 0"

text \<open>
  C17: The replay decoder inverts the framer. For 1 to 65534 valid messages whose numbers do not wrap, the framed
  datagram decodes to exactly those messages, numbered consecutively from the framer's sequence number, and
  the framer moves on by their count.\<close>

theorem framer_replay_roundtrip:
  assumes "length (pf_session pf) = 10" "\<forall>m \<in> set ms. typed_message m \<and> message_ok m"
    and "ms \<noteq> []" "length ms < 65535" "unat (pf_next_sequence_number pf) + length ms \<le> 2 ^ 64"
  shows "decode_moldudp64_itch_packet (fst (frame_data_packet pf ms)) =
      Ok \<lparr>rpk_session = pf_session pf, rpk_first_sequence_number = pf_next_sequence_number pf,
          rpk_message_count = of_nat (length ms), rpk_kind = RPK_data,
          rpk_messages = numbered_messages (pf_next_sequence_number pf) ms\<rparr>
    \<and> pf_next_sequence_number (snd (frame_data_packet pf ms)) = pf_next_sequence_number pf + of_nat (length ms)"
  using assms decode_framed_packet [OF assms] by (simp add: frame_data_packet_cases)

theorem framer_replay_roundtrip_witness:
  "decode_moldudp64_itch_packet (fst (frame_data_packet sample_framer [AddOrderNoMpid sample_add])) =
     Ok \<lparr>rpk_session = replicate 10 0x20, rpk_first_sequence_number = 1, rpk_message_count = 1,
         rpk_kind = RPK_data,
         rpk_messages = [\<lparr>dm_sequence_number = 1, dm_message = AddOrderNoMpid sample_add\<rparr>]\<rparr>"
  using framer_replay_roundtrip [of sample_framer "[AddOrderNoMpid sample_add]"] sample_add_ok
  by (simp add: sample_framer_def make_framer_def numbered_messages_def del: message_ok.simps typed_message.simps)

text \<open>
  The framer is all-or-nothing: it returns an empty buffer and keeps its sequence number exactly when there
  is no message, there are more than 65535, or one of them is invalid.\<close>

theorem framer_all_or_nothing:
  assumes "length (pf_session pf) = 10" "\<forall>m \<in> set ms. typed_message m"
  shows "if ms = [] \<or> length ms > 65535 \<or> (\<exists>m \<in> set ms. \<not> message_ok m)
    then frame_data_packet pf ms = ([], pf)
    else length (fst (frame_data_packet pf ms)) = 20 + (\<Sum>m \<leftarrow> ms. 2 + wire_length m)
      \<and> snd (frame_data_packet pf ms)
        = pf\<lparr>pf_next_sequence_number := pf_next_sequence_number pf + of_nat (length ms)\<rparr>"
proof -
  have blocks: "length (blocks_image (number_blocks n (map message_image ms))) = (\<Sum>m \<leftarrow> ms. 2 + wire_length m)" for n
    using assms(2)
    by (simp add: number_blocks_block_of numbered_messages_def blocks_image_def length_concat comp_def block_of_def
      length_message_image sum_list_sum_nth atLeast0LessThan)
  have "length (packet_image (framed_packet pf ms)) = 20 + (\<Sum>m \<leftarrow> ms. 2 + wire_length m)"
    using assms(1) by (simp add: packet_image_def length_mold_header_image framed_packet_def blocks)
  then show ?thesis unfolding frame_data_packet_cases [OF assms] by auto
qed

theorem framer_all_or_nothing_witness:
  "length (fst (frame_data_packet sample_framer [AddOrderNoMpid sample_add])) = 58"
  using framer_all_or_nothing [of sample_framer "[AddOrderNoMpid sample_add]"] sample_add_ok
  by (simp add: sample_framer_def make_framer_def del: message_ok.simps typed_message.simps)

text \<open>
  C37: A batch of exactly 65535 valid messages is framed as a data packet whose message count is the
  end-of-session marker; the framer advances its sequence number, and the replay decoder rejects the
  datagram.\<close>

theorem framer_full_batch_rejected:
  assumes "length (pf_session pf) = 10" "\<forall>m \<in> set ms. typed_message m \<and> message_ok m" "length ms = 65535"
  shows "fst (frame_data_packet pf ms) \<noteq> []
    \<and> pf_next_sequence_number (snd (frame_data_packet pf ms)) = pf_next_sequence_number pf + 65535
    \<and> decode_moldudp64_itch_packet (fst (frame_data_packet pf ms)) = Fail EC_parse_error"
proof -
  have t: "\<forall>m \<in> set ms. typed_message m" using assms(2) by blast
  have ne: "ms \<noteq> []" using assms(3) by auto
  let ?p = "framed_packet pf ms"
  have "dp_messages ?p \<noteq> []" "length (dp_session ?p) = 10" "dp_message_count ?p = end_of_session_message_count"
    using assms ne by (simp_all add: framed_packet_def number_blocks_def end_of_session_message_count_def)
  then have "decode_downstream_packet (packet_image ?p) = Fail EC_parse_error" "packet_image ?p \<noteq> []"
    using decode_image_end_of_session [of ?p] length_mold_header_image [of ?p] by (auto simp: packet_image_def)
  then show ?thesis
    using assms ne by (simp add: frame_data_packet_cases [OF assms(1) t] decode_moldudp64_itch_packet_def)
qed

theorem framer_full_batch_rejected_witness:
  "decode_moldudp64_itch_packet (fst (frame_data_packet sample_framer (replicate 65535 (AddOrderNoMpid sample_add))))
     = Fail EC_parse_error"
  using framer_full_batch_rejected [of sample_framer "replicate 65535 (AddOrderNoMpid sample_add)"] sample_add_ok
  by (simp add: sample_framer_def make_framer_def set_replicate_conv_if del: message_ok.simps typed_message.simps replicate.simps)


lemma default_builder_config_ok: "builder_config_ok default_builder_config"
  by (simp add: builder_config_ok_def default_builder_config_def)


text \<open>
  Session-open messages are valid directory messages, one per symbol in order.\<close>

theorem session_open_valid:
  assumes "builder_config_ok c" "unat (bc_first_order_reference_number c) + n < 2 ^ 64"
  shows "length (session_open_messages (builder_after c n)) = length (mbd_symbol_states (builder_after c n))
    \<and> (\<forall>m \<in> set (session_open_messages (builder_after c n)). message_ok m \<and> typed_message m)"
proof -
  have sp: "is_printable_ascii_or_space ch" if "ch \<in> set ''QNCP ''" for ch
    using that by (auto simp: is_printable_ascii_or_space_def byte_of_char_def)
  have st: "symbol_config_ok (sys_config st) \<and> 0 < sys_stock_locate st"
    if "st \<in> set (mbd_symbol_states (builder_after c n))" for st
    using builder_after_inv [OF assms] that by (simp add: builder_inv_def Let_def)
  show ?thesis
    using st sp fixed_ascii_from_text_ok(2) [of "[]" 2]
    by (auto simp: session_open_messages_def is_valid_stock_directory_message_def header_for_stock_valid
      is_valid_protocol_char_or_space_def fixed_ascii_from_text_ok symbol_config_ok_def)
qed

theorem session_open_valid_witness:
  "\<forall>m \<in> set (session_open_messages (builder_after default_builder_config 0)). message_ok m \<and> typed_message m"
  using session_open_valid [OF default_builder_config_ok, of 0] by (simp add: default_builder_config_def)












end
