(* ===== verification/Ouch.thy ===== *)
theory Ouch
  imports Wire
begin

text \<open>
  The OUCH order-entry codec: \<^verbatim>\<open>include/fgep/ouch\<close> and \<^verbatim>\<open>src/ouch\<close>. Names that ITCH also uses carry
  the prefix \<open>ouch\<close>. An optional appendage is the byte list behind its 16-bit length.

  The locale \<open>char_code\<close> is the contract of the one-character enumerations; \<open>ouch_image\<close> is the wire
  layout, against which decoder and encoder are proved.
\<close>

section \<open>Field types\<close>

type_synonym ouch_symbol = string
type_synonym cl_ord_id = string

datatype ouch_message_type = OMT_enter_order | OMT_replace_order | OMT_cancel_order

fun ouch_message_type_to_char :: "ouch_message_type \<Rightarrow> char" where
  "ouch_message_type_to_char OMT_enter_order = CHR ''O''"
| "ouch_message_type_to_char OMT_replace_order = CHR ''U''"
| "ouch_message_type_to_char OMT_cancel_order = CHR ''X''"

definition ouch_message_type_from_char :: "char \<Rightarrow> ouch_message_type result" where
  "ouch_message_type_from_char c =
     (if c = CHR ''O'' then Ok OMT_enter_order
      else if c = CHR ''U'' then Ok OMT_replace_order
      else if c = CHR ''X'' then Ok OMT_cancel_order
      else Fail EC_parse_error)"

datatype ouch_side = OS_buy | OS_sell | OS_sell_short | OS_sell_short_exempt

fun ouch_side_to_char :: "ouch_side \<Rightarrow> char" where
  "ouch_side_to_char OS_buy = CHR ''B''"
| "ouch_side_to_char OS_sell = CHR ''S''"
| "ouch_side_to_char OS_sell_short = CHR ''T''"
| "ouch_side_to_char OS_sell_short_exempt = CHR ''E''"

definition ouch_side_from_char :: "char \<Rightarrow> ouch_side result" where
  "ouch_side_from_char c =
     (if c = CHR ''B'' then Ok OS_buy
      else if c = CHR ''S'' then Ok OS_sell
      else if c = CHR ''T'' then Ok OS_sell_short
      else if c = CHR ''E'' then Ok OS_sell_short_exempt
      else Fail EC_parse_error)"

datatype time_in_force = TIF_day | TIF_ioc | TIF_gtx | TIF_gtt | TIF_after_hours

fun time_in_force_to_char :: "time_in_force \<Rightarrow> char" where
  "time_in_force_to_char TIF_day = CHR ''0''"
| "time_in_force_to_char TIF_ioc = CHR ''3''"
| "time_in_force_to_char TIF_gtx = CHR ''5''"
| "time_in_force_to_char TIF_gtt = CHR ''6''"
| "time_in_force_to_char TIF_after_hours = CHR ''E''"

definition time_in_force_from_char :: "char \<Rightarrow> time_in_force result" where
  "time_in_force_from_char c =
     (if c = CHR ''0'' then Ok TIF_day
      else if c = CHR ''3'' then Ok TIF_ioc
      else if c = CHR ''5'' then Ok TIF_gtx
      else if c = CHR ''6'' then Ok TIF_gtt
      else if c = CHR ''E'' then Ok TIF_after_hours
      else Fail EC_parse_error)"

datatype display = DSP_visible | DSP_hidden | DSP_attributable

fun display_to_char :: "display \<Rightarrow> char" where
  "display_to_char DSP_visible = CHR ''Y''"
| "display_to_char DSP_hidden = CHR ''N''"
| "display_to_char DSP_attributable = CHR ''A''"

definition display_from_char :: "char \<Rightarrow> display result" where
  "display_from_char c =
     (if c = CHR ''Y'' then Ok DSP_visible
      else if c = CHR ''N'' then Ok DSP_hidden
      else if c = CHR ''A'' then Ok DSP_attributable
      else Fail EC_parse_error)"

datatype capacity = CAP_agency | CAP_principal | CAP_riskless | CAP_other

fun capacity_to_char :: "capacity \<Rightarrow> char" where
  "capacity_to_char CAP_agency = CHR ''A''"
| "capacity_to_char CAP_principal = CHR ''P''"
| "capacity_to_char CAP_riskless = CHR ''R''"
| "capacity_to_char CAP_other = CHR ''O''"

definition capacity_from_char :: "char \<Rightarrow> capacity result" where
  "capacity_from_char c =
     (if c = CHR ''A'' then Ok CAP_agency
      else if c = CHR ''P'' then Ok CAP_principal
      else if c = CHR ''R'' then Ok CAP_riskless
      else if c = CHR ''O'' then Ok CAP_other
      else Fail EC_parse_error)"

datatype intermarket_sweep_eligibility = ISE_eligible | ISE_not_eligible

fun intermarket_sweep_eligibility_to_char :: "intermarket_sweep_eligibility \<Rightarrow> char" where
  "intermarket_sweep_eligibility_to_char ISE_eligible = CHR ''Y''"
| "intermarket_sweep_eligibility_to_char ISE_not_eligible = CHR ''N''"

definition intermarket_sweep_eligibility_from_char :: "char \<Rightarrow> intermarket_sweep_eligibility result" where
  "intermarket_sweep_eligibility_from_char c =
     (if c = CHR ''Y'' then Ok ISE_eligible
      else if c = CHR ''N'' then Ok ISE_not_eligible
      else Fail EC_parse_error)"

datatype ouch_cross_type = OCT_continuous_market | OCT_opening_cross | OCT_closing_cross | OCT_halt_or_ipo | OCT_supplemental | OCT_retail | OCT_extended_life | OCT_after_hours_close

fun ouch_cross_type_to_char :: "ouch_cross_type \<Rightarrow> char" where
  "ouch_cross_type_to_char OCT_continuous_market = CHR ''N''"
| "ouch_cross_type_to_char OCT_opening_cross = CHR ''O''"
| "ouch_cross_type_to_char OCT_closing_cross = CHR ''C''"
| "ouch_cross_type_to_char OCT_halt_or_ipo = CHR ''H''"
| "ouch_cross_type_to_char OCT_supplemental = CHR ''S''"
| "ouch_cross_type_to_char OCT_retail = CHR ''R''"
| "ouch_cross_type_to_char OCT_extended_life = CHR ''E''"
| "ouch_cross_type_to_char OCT_after_hours_close = CHR ''A''"

definition ouch_cross_type_from_char :: "char \<Rightarrow> ouch_cross_type result" where
  "ouch_cross_type_from_char c =
     (if c = CHR ''N'' then Ok OCT_continuous_market
      else if c = CHR ''O'' then Ok OCT_opening_cross
      else if c = CHR ''C'' then Ok OCT_closing_cross
      else if c = CHR ''H'' then Ok OCT_halt_or_ipo
      else if c = CHR ''S'' then Ok OCT_supplemental
      else if c = CHR ''R'' then Ok OCT_retail
      else if c = CHR ''E'' then Ok OCT_extended_life
      else if c = CHR ''A'' then Ok OCT_after_hours_close
      else Fail EC_parse_error)"

definition is_valid_user_ref_num :: "u32 \<Rightarrow> bool" where
  "is_valid_user_ref_num v \<longleftrightarrow> v > 0"

definition is_valid_enter_or_replace_quantity :: "u32 \<Rightarrow> bool" where
  "is_valid_enter_or_replace_quantity v \<longleftrightarrow> v > 0 \<and> v < 1000000"

definition is_valid_cancel_quantity :: "u32 \<Rightarrow> bool" where
  "is_valid_cancel_quantity v \<longleftrightarrow> v < 1000000"

definition ouch_is_valid_price4 :: "u64 \<Rightarrow> bool" where
  "ouch_is_valid_price4 v \<longleftrightarrow> v > 0"

section \<open>Messages\<close>

record enter_order_message =
  eo_user_ref_num :: u32
  eo_side :: ouch_side
  eo_quantity :: u32
  eo_symbol :: ouch_symbol
  eo_price :: u64
  eo_time_in_force :: time_in_force
  eo_display :: display
  eo_capacity :: capacity
  eo_intermarket_sweep_eligibility :: intermarket_sweep_eligibility
  eo_cross_type :: ouch_cross_type
  eo_cl_ord_id :: cl_ord_id
  eo_optional_appendage :: bytes

record replace_order_message =
  rpo_orig_user_ref_num :: u32
  rpo_user_ref_num :: u32
  rpo_quantity :: u32
  rpo_price :: u64
  rpo_time_in_force :: time_in_force
  rpo_display :: display
  rpo_intermarket_sweep_eligibility :: intermarket_sweep_eligibility
  rpo_cl_ord_id :: cl_ord_id
  rpo_optional_appendage :: bytes

record cancel_order_message =
  co_user_ref_num :: u32
  co_quantity :: u32
  co_optional_appendage :: bytes

datatype ouch_message =
    EnterOrder enter_order_message
  | ReplaceOrder replace_order_message
  | CancelOrder cancel_order_message

definition appendage_length_fits :: "bytes \<Rightarrow> bool" where
  "appendage_length_fits appendage \<longleftrightarrow> length appendage \<le> 0xFFFF"

definition is_valid_enter_order_message :: "enter_order_message \<Rightarrow> bool" where
  "is_valid_enter_order_message m \<longleftrightarrow>
     is_valid_user_ref_num (eo_user_ref_num m)
     \<and> is_valid_enter_or_replace_quantity (eo_quantity m)
     \<and> ouch_is_valid_price4 (eo_price m)
     \<and> is_valid_fixed_ascii (eo_symbol m)
     \<and> is_valid_fixed_ascii (eo_cl_ord_id m)
     \<and> appendage_length_fits (eo_optional_appendage m)"

definition is_valid_replace_order_message :: "replace_order_message \<Rightarrow> bool" where
  "is_valid_replace_order_message m \<longleftrightarrow>
     is_valid_user_ref_num (rpo_orig_user_ref_num m)
     \<and> is_valid_user_ref_num (rpo_user_ref_num m)
     \<and> rpo_orig_user_ref_num m \<noteq> rpo_user_ref_num m
     \<and> is_valid_enter_or_replace_quantity (rpo_quantity m)
     \<and> ouch_is_valid_price4 (rpo_price m)
     \<and> is_valid_fixed_ascii (rpo_cl_ord_id m)
     \<and> appendage_length_fits (rpo_optional_appendage m)"

definition is_valid_cancel_order_message :: "cancel_order_message \<Rightarrow> bool" where
  "is_valid_cancel_order_message m \<longleftrightarrow>
     is_valid_user_ref_num (co_user_ref_num m)
     \<and> is_valid_cancel_quantity (co_quantity m)
     \<and> appendage_length_fits (co_optional_appendage m)"

fun encoded_length :: "ouch_message \<Rightarrow> nat" where
  "encoded_length (EnterOrder m) = 47 + length (eo_optional_appendage m)"
| "encoded_length (ReplaceOrder m) = 40 + length (rpo_optional_appendage m)"
| "encoded_length (CancelOrder m) = 11 + length (co_optional_appendage m)"

section \<open>Decoding\<close>

definition ouch_read_char :: "bytes \<Rightarrow> nat \<Rightarrow> char result" where
  "ouch_read_char bytes offset = result_bind (read_u8 bytes offset) (\<lambda>v. Ok (char_of_byte v))"

definition require_minimum_length :: "bytes \<Rightarrow> nat \<Rightarrow> error_code" where
  "require_minimum_length bytes minimum_length =
     (if length bytes < minimum_length then EC_parse_error else EC_ok)"

definition require_appendage_exact_length :: "bytes \<Rightarrow> nat \<Rightarrow> u16 \<Rightarrow> error_code" where
  "require_appendage_exact_length bytes base_length appendage_length =
     (let expected_length = base_length + unat appendage_length
      in if length bytes \<noteq> expected_length then EC_parse_error else EC_ok)"

definition ouch_decode_message_type :: "bytes \<Rightarrow> ouch_message_type result" where
  "ouch_decode_message_type bytes = result_bind (ouch_read_char bytes 0) ouch_message_type_from_char"

definition require_exact_message_type :: "bytes \<Rightarrow> ouch_message_type \<Rightarrow> error_code" where
  "require_exact_message_type bytes expected =
     (case ouch_decode_message_type bytes of
        Fail e \<Rightarrow> e
      | Ok t \<Rightarrow> if t \<noteq> expected then EC_parse_error else EC_ok)"

definition decode_enter_order_message :: "bytes \<Rightarrow> enter_order_message result" where
  "decode_enter_order_message bytes =
     require (require_exact_message_type bytes OMT_enter_order)
    (require (require_minimum_length bytes 47)
    (result_bind (read_u32_be bytes 1) (\<lambda>user_ref_num.
     result_bind (ouch_read_char bytes 5) (\<lambda>side_char.
     result_bind (ouch_side_from_char side_char) (\<lambda>side.
     result_bind (read_u32_be bytes 6) (\<lambda>quantity.
     result_bind (read_fixed_ascii 8 bytes 10) (\<lambda>symbol.
     result_bind (read_u64_be bytes 18) (\<lambda>price.
     result_bind (ouch_read_char bytes 26) (\<lambda>tif_char.
     result_bind (time_in_force_from_char tif_char) (\<lambda>tif.
     result_bind (ouch_read_char bytes 27) (\<lambda>display_char.
     result_bind (display_from_char display_char) (\<lambda>dsp.
     result_bind (ouch_read_char bytes 28) (\<lambda>capacity_char.
     result_bind (capacity_from_char capacity_char) (\<lambda>cap.
     result_bind (ouch_read_char bytes 29) (\<lambda>ise_char.
     result_bind (intermarket_sweep_eligibility_from_char ise_char) (\<lambda>ise.
     result_bind (ouch_read_char bytes 30) (\<lambda>cross_char.
     result_bind (ouch_cross_type_from_char cross_char) (\<lambda>cross.
     result_bind (read_fixed_ascii 14 bytes 31) (\<lambda>cl_ord_id.
     result_bind (read_u16_be bytes 45) (\<lambda>appendage_length.
     require (require_appendage_exact_length bytes 47 appendage_length)
     (let message = \<lparr>eo_user_ref_num = user_ref_num, eo_side = side, eo_quantity = quantity, eo_symbol = symbol,
            eo_price = price, eo_time_in_force = tif, eo_display = dsp, eo_capacity = cap,
            eo_intermarket_sweep_eligibility = ise, eo_cross_type = cross, eo_cl_ord_id = cl_ord_id,
            eo_optional_appendage = drop 47 bytes\<rparr>
      in if \<not> is_valid_enter_order_message message then Fail EC_parse_error else Ok message)))))))))))))))))))))"

definition decode_replace_order_message :: "bytes \<Rightarrow> replace_order_message result" where
  "decode_replace_order_message bytes =
     require (require_exact_message_type bytes OMT_replace_order)
    (require (require_minimum_length bytes 40)
    (result_bind (read_u32_be bytes 1) (\<lambda>orig_user_ref_num.
     result_bind (read_u32_be bytes 5) (\<lambda>user_ref_num.
     result_bind (read_u32_be bytes 9) (\<lambda>quantity.
     result_bind (read_u64_be bytes 13) (\<lambda>price.
     result_bind (ouch_read_char bytes 21) (\<lambda>tif_char.
     result_bind (time_in_force_from_char tif_char) (\<lambda>tif.
     result_bind (ouch_read_char bytes 22) (\<lambda>display_char.
     result_bind (display_from_char display_char) (\<lambda>dsp.
     result_bind (ouch_read_char bytes 23) (\<lambda>ise_char.
     result_bind (intermarket_sweep_eligibility_from_char ise_char) (\<lambda>ise.
     result_bind (read_fixed_ascii 14 bytes 24) (\<lambda>cl_ord_id.
     result_bind (read_u16_be bytes 38) (\<lambda>appendage_length.
     require (require_appendage_exact_length bytes 40 appendage_length)
     (let message = \<lparr>rpo_orig_user_ref_num = orig_user_ref_num, rpo_user_ref_num = user_ref_num,
            rpo_quantity = quantity, rpo_price = price, rpo_time_in_force = tif, rpo_display = dsp,
            rpo_intermarket_sweep_eligibility = ise, rpo_cl_ord_id = cl_ord_id,
            rpo_optional_appendage = drop 40 bytes\<rparr>
      in if \<not> is_valid_replace_order_message message then Fail EC_parse_error else Ok message)))))))))))))))"

definition decode_cancel_order_message :: "bytes \<Rightarrow> cancel_order_message result" where
  "decode_cancel_order_message bytes =
     require (require_exact_message_type bytes OMT_cancel_order)
    (require (require_minimum_length bytes 11)
    (result_bind (read_u32_be bytes 1) (\<lambda>user_ref_num.
     result_bind (read_u32_be bytes 5) (\<lambda>quantity.
     result_bind (read_u16_be bytes 9) (\<lambda>appendage_length.
     require (require_appendage_exact_length bytes 11 appendage_length)
     (let message = \<lparr>co_user_ref_num = user_ref_num, co_quantity = quantity,
            co_optional_appendage = drop 11 bytes\<rparr>
      in if \<not> is_valid_cancel_order_message message then Fail EC_parse_error else Ok message))))))"

definition ouch_decode_message :: "bytes \<Rightarrow> ouch_message result" where
  "ouch_decode_message bytes =
     result_bind (ouch_decode_message_type bytes) (\<lambda>t.
       case t of
         OMT_enter_order \<Rightarrow> result_bind (decode_enter_order_message bytes) (\<lambda>m. Ok (EnterOrder m))
       | OMT_replace_order \<Rightarrow> result_bind (decode_replace_order_message bytes) (\<lambda>m. Ok (ReplaceOrder m))
       | OMT_cancel_order \<Rightarrow> result_bind (decode_cancel_order_message bytes) (\<lambda>m. Ok (CancelOrder m)))"

section \<open>Encoding\<close>

definition ouch_write_char :: "bytes \<Rightarrow> nat \<Rightarrow> char \<Rightarrow> error_code \<times> bytes" where
  "ouch_write_char bytes offset c = write_u8 bytes offset (byte_of_char c)"

definition ouch_require_exact_encode_length :: "bytes \<Rightarrow> nat \<Rightarrow> error_code" where
  "ouch_require_exact_encode_length bytes expected_length =
     (if length bytes \<noteq> expected_length then EC_parse_error else EC_ok)"

fun copy_appendage :: "bytes \<Rightarrow> nat \<Rightarrow> bytes \<Rightarrow> bytes" where
  "copy_appendage bytes k [] = bytes"
| "copy_appendage bytes k (b # bs) = copy_appendage (bytes[k := b]) (Suc k) bs"

definition write_appendage :: "bytes \<Rightarrow> nat \<Rightarrow> nat \<Rightarrow> bytes \<Rightarrow> error_code \<times> bytes" where
  "write_appendage bytes appendage_length_offset appendage_offset appendage =
     (if \<not> appendage_length_fits appendage then (EC_invalid_argument, bytes)
      else and_then (write_u16_be bytes appendage_length_offset (of_nat (length appendage))) (\<lambda>bytes.
        if \<not> has_range bytes appendage_offset (length appendage) then (EC_parse_error, bytes)
        else (EC_ok, copy_appendage bytes appendage_offset appendage)))"

definition ouch_encode_message_type :: "bytes \<Rightarrow> ouch_message_type \<Rightarrow> error_code \<times> bytes" where
  "ouch_encode_message_type bytes t = ouch_write_char bytes 0 (ouch_message_type_to_char t)"

definition encode_enter_order_message :: "bytes \<Rightarrow> enter_order_message \<Rightarrow> error_code \<times> bytes" where
  "encode_enter_order_message bytes m =
     and_then (ouch_require_exact_encode_length bytes (encoded_length (EnterOrder m)), bytes) (\<lambda>bytes.
     if \<not> is_valid_enter_order_message m then (EC_invalid_argument, bytes)
     else
     and_then (ouch_encode_message_type bytes OMT_enter_order) (\<lambda>bytes.
     and_then (write_u32_be bytes 1 (eo_user_ref_num m)) (\<lambda>bytes.
     and_then (ouch_write_char bytes 5 (ouch_side_to_char (eo_side m))) (\<lambda>bytes.
     and_then (write_u32_be bytes 6 (eo_quantity m)) (\<lambda>bytes.
     and_then (write_fixed_ascii 8 bytes 10 (eo_symbol m)) (\<lambda>bytes.
     and_then (write_u64_be bytes 18 (eo_price m)) (\<lambda>bytes.
     and_then (ouch_write_char bytes 26 (time_in_force_to_char (eo_time_in_force m))) (\<lambda>bytes.
     and_then (ouch_write_char bytes 27 (display_to_char (eo_display m))) (\<lambda>bytes.
     and_then (ouch_write_char bytes 28 (capacity_to_char (eo_capacity m))) (\<lambda>bytes.
     and_then (ouch_write_char bytes 29
       (intermarket_sweep_eligibility_to_char (eo_intermarket_sweep_eligibility m))) (\<lambda>bytes.
     and_then (ouch_write_char bytes 30 (ouch_cross_type_to_char (eo_cross_type m))) (\<lambda>bytes.
     and_then (write_fixed_ascii 14 bytes 31 (eo_cl_ord_id m)) (\<lambda>bytes.
     write_appendage bytes 45 47 (eo_optional_appendage m))))))))))))))"

definition encode_replace_order_message :: "bytes \<Rightarrow> replace_order_message \<Rightarrow> error_code \<times> bytes" where
  "encode_replace_order_message bytes m =
     and_then (ouch_require_exact_encode_length bytes (encoded_length (ReplaceOrder m)), bytes) (\<lambda>bytes.
     if \<not> is_valid_replace_order_message m then (EC_invalid_argument, bytes)
     else
     and_then (ouch_encode_message_type bytes OMT_replace_order) (\<lambda>bytes.
     and_then (write_u32_be bytes 1 (rpo_orig_user_ref_num m)) (\<lambda>bytes.
     and_then (write_u32_be bytes 5 (rpo_user_ref_num m)) (\<lambda>bytes.
     and_then (write_u32_be bytes 9 (rpo_quantity m)) (\<lambda>bytes.
     and_then (write_u64_be bytes 13 (rpo_price m)) (\<lambda>bytes.
     and_then (ouch_write_char bytes 21 (time_in_force_to_char (rpo_time_in_force m))) (\<lambda>bytes.
     and_then (ouch_write_char bytes 22 (display_to_char (rpo_display m))) (\<lambda>bytes.
     and_then (ouch_write_char bytes 23
       (intermarket_sweep_eligibility_to_char (rpo_intermarket_sweep_eligibility m))) (\<lambda>bytes.
     and_then (write_fixed_ascii 14 bytes 24 (rpo_cl_ord_id m)) (\<lambda>bytes.
     write_appendage bytes 38 40 (rpo_optional_appendage m)))))))))))"

definition encode_cancel_order_message :: "bytes \<Rightarrow> cancel_order_message \<Rightarrow> error_code \<times> bytes" where
  "encode_cancel_order_message bytes m =
     and_then (ouch_require_exact_encode_length bytes (encoded_length (CancelOrder m)), bytes) (\<lambda>bytes.
     if \<not> is_valid_cancel_order_message m then (EC_invalid_argument, bytes)
     else
     and_then (ouch_encode_message_type bytes OMT_cancel_order) (\<lambda>bytes.
     and_then (write_u32_be bytes 1 (co_user_ref_num m)) (\<lambda>bytes.
     and_then (write_u32_be bytes 5 (co_quantity m)) (\<lambda>bytes.
     write_appendage bytes 9 11 (co_optional_appendage m)))))"

fun ouch_encode_message :: "bytes \<Rightarrow> ouch_message \<Rightarrow> error_code \<times> bytes" where
  "ouch_encode_message bytes (EnterOrder m) = encode_enter_order_message bytes m"
| "ouch_encode_message bytes (ReplaceOrder m) = encode_replace_order_message bytes m"
| "ouch_encode_message bytes (CancelOrder m) = encode_cancel_order_message bytes m"

section \<open>One-character enumerations\<close>

locale char_code =
  fixes to_char :: "'e \<Rightarrow> char" and from_char :: "char \<Rightarrow> 'e result"
  assumes from_to: "from_char (to_char x) = Ok x"
    and from_inv: "from_char c = Ok x \<Longrightarrow> c = to_char x"
    and from_error: "from_char c = Fail e \<Longrightarrow> e = EC_parse_error"
begin

lemma from_Ok_iff: "from_char c = Ok x \<longleftrightarrow> c = to_char x"
  using from_to from_inv by auto

lemma from_only_parse_errors: "only_parse_errors (from_char c)"
  using from_error by (auto simp: only_parse_errors_def)

lemma to_char_inj: "to_char x = to_char y \<longleftrightarrow> x = y"
  by (metis from_to result.inject(2))

end

interpretation ouch_message_type_code: char_code ouch_message_type_to_char ouch_message_type_from_char
proof
  fix x show "ouch_message_type_from_char (ouch_message_type_to_char x) = Ok x" by (cases x) (simp_all add: ouch_message_type_from_char_def)
next
  fix c x assume "ouch_message_type_from_char c = Ok x"
  then show "c = ouch_message_type_to_char x" unfolding ouch_message_type_from_char_def by (elim if_OkE) auto
next
  fix c e assume "ouch_message_type_from_char c = Fail e"
  then show "e = EC_parse_error" unfolding ouch_message_type_from_char_def by (elim if_FailE) auto
qed

interpretation ouch_side_code: char_code ouch_side_to_char ouch_side_from_char
proof
  fix x show "ouch_side_from_char (ouch_side_to_char x) = Ok x" by (cases x) (simp_all add: ouch_side_from_char_def)
next
  fix c x assume "ouch_side_from_char c = Ok x"
  then show "c = ouch_side_to_char x" unfolding ouch_side_from_char_def by (elim if_OkE) auto
next
  fix c e assume "ouch_side_from_char c = Fail e"
  then show "e = EC_parse_error" unfolding ouch_side_from_char_def by (elim if_FailE) auto
qed

interpretation time_in_force_code: char_code time_in_force_to_char time_in_force_from_char
proof
  fix x show "time_in_force_from_char (time_in_force_to_char x) = Ok x" by (cases x) (simp_all add: time_in_force_from_char_def)
next
  fix c x assume "time_in_force_from_char c = Ok x"
  then show "c = time_in_force_to_char x" unfolding time_in_force_from_char_def by (elim if_OkE) auto
next
  fix c e assume "time_in_force_from_char c = Fail e"
  then show "e = EC_parse_error" unfolding time_in_force_from_char_def by (elim if_FailE) auto
qed

interpretation display_code: char_code display_to_char display_from_char
proof
  fix x show "display_from_char (display_to_char x) = Ok x" by (cases x) (simp_all add: display_from_char_def)
next
  fix c x assume "display_from_char c = Ok x"
  then show "c = display_to_char x" unfolding display_from_char_def by (elim if_OkE) auto
next
  fix c e assume "display_from_char c = Fail e"
  then show "e = EC_parse_error" unfolding display_from_char_def by (elim if_FailE) auto
qed

interpretation capacity_code: char_code capacity_to_char capacity_from_char
proof
  fix x show "capacity_from_char (capacity_to_char x) = Ok x" by (cases x) (simp_all add: capacity_from_char_def)
next
  fix c x assume "capacity_from_char c = Ok x"
  then show "c = capacity_to_char x" unfolding capacity_from_char_def by (elim if_OkE) auto
next
  fix c e assume "capacity_from_char c = Fail e"
  then show "e = EC_parse_error" unfolding capacity_from_char_def by (elim if_FailE) auto
qed

interpretation intermarket_sweep_eligibility_code: char_code intermarket_sweep_eligibility_to_char intermarket_sweep_eligibility_from_char
proof
  fix x show "intermarket_sweep_eligibility_from_char (intermarket_sweep_eligibility_to_char x) = Ok x" by (cases x) (simp_all add: intermarket_sweep_eligibility_from_char_def)
next
  fix c x assume "intermarket_sweep_eligibility_from_char c = Ok x"
  then show "c = intermarket_sweep_eligibility_to_char x" unfolding intermarket_sweep_eligibility_from_char_def by (elim if_OkE) auto
next
  fix c e assume "intermarket_sweep_eligibility_from_char c = Fail e"
  then show "e = EC_parse_error" unfolding intermarket_sweep_eligibility_from_char_def by (elim if_FailE) auto
qed

interpretation ouch_cross_type_code: char_code ouch_cross_type_to_char ouch_cross_type_from_char
proof
  fix x show "ouch_cross_type_from_char (ouch_cross_type_to_char x) = Ok x" by (cases x) (simp_all add: ouch_cross_type_from_char_def)
next
  fix c x assume "ouch_cross_type_from_char c = Ok x"
  then show "c = ouch_cross_type_to_char x" unfolding ouch_cross_type_from_char_def by (elim if_OkE) auto
next
  fix c e assume "ouch_cross_type_from_char c = Fail e"
  then show "e = EC_parse_error" unfolding ouch_cross_type_from_char_def by (elim if_FailE) auto
qed

section \<open>The wire layout\<close>

interpretation ouch_char_field:
  wire_field 1 "\<lambda>_. True" "\<lambda>_. True" "\<lambda>c. [byte_of_char c]" ouch_read_char ouch_write_char
  by unfold_locales
     (auto simp: ouch_read_char_def ouch_write_char_def result_bind_eq_Ok u8_field.rd_Ok_iff u8_field.wr_valid
       u8_field.wr_out_of_range u8_field.rd_out_of_range elim!: result_bind_FailE dest: u8_field.rd_error)

definition appendage_image :: "bytes \<Rightarrow> bytes" where
  "appendage_image a = be_bytes 2 (of_nat (length a) :: u16) @ a"

fun ouch_image :: "ouch_message \<Rightarrow> bytes" where
  "ouch_image (EnterOrder m) =
     [byte_of_char CHR ''O''] @ be_bytes 4 (eo_user_ref_num m) @ [byte_of_char (ouch_side_to_char (eo_side m))]
     @ be_bytes 4 (eo_quantity m) @ map byte_of_char (eo_symbol m) @ be_bytes 8 (eo_price m)
     @ [byte_of_char (time_in_force_to_char (eo_time_in_force m))]
     @ [byte_of_char (display_to_char (eo_display m))]
     @ [byte_of_char (capacity_to_char (eo_capacity m))]
     @ [byte_of_char (intermarket_sweep_eligibility_to_char (eo_intermarket_sweep_eligibility m))]
     @ [byte_of_char (ouch_cross_type_to_char (eo_cross_type m))]
     @ map byte_of_char (eo_cl_ord_id m) @ appendage_image (eo_optional_appendage m)"
| "ouch_image (ReplaceOrder m) =
     [byte_of_char CHR ''U''] @ be_bytes 4 (rpo_orig_user_ref_num m) @ be_bytes 4 (rpo_user_ref_num m)
     @ be_bytes 4 (rpo_quantity m) @ be_bytes 8 (rpo_price m)
     @ [byte_of_char (time_in_force_to_char (rpo_time_in_force m))]
     @ [byte_of_char (display_to_char (rpo_display m))]
     @ [byte_of_char (intermarket_sweep_eligibility_to_char (rpo_intermarket_sweep_eligibility m))]
     @ map byte_of_char (rpo_cl_ord_id m) @ appendage_image (rpo_optional_appendage m)"
| "ouch_image (CancelOrder m) =
     [byte_of_char CHR ''X''] @ be_bytes 4 (co_user_ref_num m) @ be_bytes 4 (co_quantity m)
     @ appendage_image (co_optional_appendage m)"

text \<open>What the C++ types already guarantee: the widths of the fixed strings.\<close>

fun ouch_typed :: "ouch_message \<Rightarrow> bool" where
  "ouch_typed (EnterOrder m) \<longleftrightarrow> length (eo_symbol m) = 8 \<and> length (eo_cl_ord_id m) = 14"
| "ouch_typed (ReplaceOrder m) \<longleftrightarrow> length (rpo_cl_ord_id m) = 14"
| "ouch_typed (CancelOrder m) \<longleftrightarrow> True"

fun ouch_ok :: "ouch_message \<Rightarrow> bool" where
  "ouch_ok (EnterOrder m) = is_valid_enter_order_message m"
| "ouch_ok (ReplaceOrder m) = is_valid_replace_order_message m"
| "ouch_ok (CancelOrder m) = is_valid_cancel_order_message m"

lemma length_ouch_image: "ouch_typed m \<Longrightarrow> length (ouch_image m) = encoded_length m"
  by (cases m) (simp_all add: appendage_image_def)

lemma ouch_message_type_Ok:
  "ouch_decode_message_type bs = Ok t \<longleftrightarrow>
     has_range bs 0 1 \<and> [byte_of_char (ouch_message_type_to_char t)] = seg bs 0 1"
  by (auto simp: ouch_decode_message_type_def result_bind_eq_Ok ouch_char_field.rd_Ok_iff
    ouch_message_type_code.from_Ok_iff)

lemma ouch_message_type_Fail: "ouch_decode_message_type bs = Fail e \<Longrightarrow> e = EC_parse_error"
  by (auto simp: ouch_decode_message_type_def elim!: result_bind_FailE
    dest: ouch_char_field.rd_error ouch_message_type_code.from_error)

lemma require_exact_message_type_ok:
  "require_exact_message_type bs t = EC_ok \<longleftrightarrow>
     has_range bs 0 1 \<and> [byte_of_char (ouch_message_type_to_char t)] = seg bs 0 1"
  using ouch_message_type_Ok [of bs t] ouch_message_type_Fail [of bs]
  by (auto simp: require_exact_message_type_def split: result.splits)

lemma seg_drop: "k = length bs - off \<Longrightarrow> drop off bs = seg bs off k"
  by (simp add: seg_def)

text \<open>The appendage: its length field and its bytes are the tail of the message.\<close>

lemma appendage_iff:
  assumes "base + 2 \<le> length bs"
  shows "(\<exists>n. read_u16_be bs base = Ok n \<and> require_appendage_exact_length bs (base + 2) n = EC_ok)
      \<and> a = drop (base + 2) bs \<longleftrightarrow> appendage_length_fits a \<and> appendage_image a = drop base bs"
proof -
  have len: "unat n \<le> 65535" for n :: u16 using unsigned_less [of n, where 'a = nat] by simp
  have split: "drop base bs = seg bs base 2 @ drop (base + 2) bs"
    unfolding seg_def using append_take_drop_id [of 2 "drop base bs"] by (simp add: add.commute)
  show ?thesis
  proof
    assume "(\<exists>n. read_u16_be bs base = Ok n \<and> require_appendage_exact_length bs (base + 2) n = EC_ok)
      \<and> a = drop (base + 2) bs"
    then obtain n where n: "read_u16_be bs base = Ok n" "length bs = base + 2 + unat n" "a = drop (base + 2) bs"
      by (auto simp: require_appendage_exact_length_def Let_def split: if_splits)
    then have "of_nat (length a) = n" by simp
    with n len [of n] split show "appendage_length_fits a \<and> appendage_image a = drop base bs"
      by (simp add: appendage_length_fits_def appendage_image_def u16_field.rd_Ok_iff)
  next
    assume r: "appendage_length_fits a \<and> appendage_image a = drop base bs"
    then have "be_bytes 2 (of_nat (length a) :: u16) @ a = seg bs base 2 @ drop (base + 2) bs"
      unfolding appendage_image_def split by blast
    then have "be_bytes 2 (of_nat (length a) :: u16) = seg bs base 2 \<and> a = drop (base + 2) bs"
      by (rule append_eq_append_conv [THEN iffD1, rotated]) (use assms in simp)
    then have img: "be_bytes 2 (of_nat (length a) :: u16) = seg bs base 2" and a: "a = drop (base + 2) bs" by blast+
    have "unat (of_nat (length a) :: u16) = length a"
      using r by (simp add: appendage_length_fits_def unat_of_nat)
    moreover have "length bs = base + 2 + length a" using a assms by simp
    ultimately have "require_appendage_exact_length bs (base + 2) (of_nat (length a)) = EC_ok"
      unfolding require_appendage_exact_length_def Let_def by presburger
    moreover have "read_u16_be bs base = Ok (of_nat (length a))"
      unfolding u16_field.rd_Ok_iff has_range_length using img assms by blast
    ultimately show "(\<exists>n. read_u16_be bs base = Ok n \<and> require_appendage_exact_length bs (base + 2) n = EC_ok)
      \<and> a = drop (base + 2) bs"
      using a by blast
  qed
qed


lemma seg_drop_join: "k = off + n \<Longrightarrow> seg bs off n @ drop k bs = drop off bs"
  unfolding seg_def using append_take_drop_id [of n "drop off bs"] by (simp add: add.commute)

lemmas ouch_enum_Ok =
  ouch_side_code.from_Ok_iff time_in_force_code.from_Ok_iff display_code.from_Ok_iff capacity_code.from_Ok_iff
  intermarket_sweep_eligibility_code.from_Ok_iff ouch_cross_type_code.from_Ok_iff

lemmas ouch_enum_inj =
  ouch_side_code.to_char_inj time_in_force_code.to_char_inj display_code.to_char_inj capacity_code.to_char_inj
  intermarket_sweep_eligibility_code.to_char_inj ouch_cross_type_code.to_char_inj

lemmas ouch_field_Ok =
  ouch_char_field.rd_Ok_iff u16_field.rd_Ok_iff u32_field.rd_Ok_iff u64_field.rd_Ok_iff ascii_field.rd_Ok_iff

lemma require_minimum_length_ok: "require_minimum_length bs n = EC_ok \<longleftrightarrow> n \<le> length bs"
  by (auto simp: require_minimum_length_def)

lemmas ouch_decode_simps = result_inversion Let_def require_exact_message_type_ok require_minimum_length_ok ouch_enum_Ok

lemmas ouch_layout_simps = ouch_field_Ok has_range_length seg_join seg_drop_join seg_append_take seg_append_skip
  appendage_image_def

lemma decode_cancel_order_iff:
  "decode_cancel_order_message bs = Ok m \<longleftrightarrow>
     ouch_ok (CancelOrder m) \<and> ouch_typed (CancelOrder m) \<and> bs = ouch_image (CancelOrder m)"
proof -
  have "decode_cancel_order_message bs = Ok m \<longleftrightarrow> ouch_ok (CancelOrder m) \<and> 11 \<le> length bs
     \<and> [byte_of_char CHR ''X''] = seg bs 0 1 \<and> read_u32_be bs 1 = Ok (co_user_ref_num m)
     \<and> read_u32_be bs 5 = Ok (co_quantity m)
     \<and> ((\<exists>n. read_u16_be bs 9 = Ok n \<and> require_appendage_exact_length bs (9 + 2) n = EC_ok)
      \<and> co_optional_appendage m = drop (9 + 2) bs)"
    by (cases m) (auto simp: decode_cancel_order_message_def ouch_decode_simps has_range_length)
  also have "\<dots> \<longleftrightarrow> ouch_ok (CancelOrder m) \<and> 11 \<le> length bs
     \<and> [byte_of_char CHR ''X''] = seg bs 0 1 \<and> read_u32_be bs 1 = Ok (co_user_ref_num m)
     \<and> read_u32_be bs 5 = Ok (co_quantity m) \<and> appendage_image (co_optional_appendage m) = drop 9 bs"
    using appendage_iff [of 9 bs "co_optional_appendage m"] by (auto simp: is_valid_cancel_order_message_def)
  also have "\<dots> \<longleftrightarrow> ouch_ok (CancelOrder m) \<and> ouch_typed (CancelOrder m) \<and> bs = ouch_image (CancelOrder m)"
    by (auto simp: ouch_layout_simps simp del: One_nat_def append.simps)
  finally show ?thesis .
qed


lemma decode_replace_order_iff:
  "decode_replace_order_message bs = Ok m \<longleftrightarrow>
     ouch_ok (ReplaceOrder m) \<and> ouch_typed (ReplaceOrder m) \<and> bs = ouch_image (ReplaceOrder m)"
proof -
  let ?f = "ouch_ok (ReplaceOrder m) \<and> 40 \<le> length bs
     \<and> [byte_of_char CHR ''U''] = seg bs 0 1 \<and> read_u32_be bs 1 = Ok (rpo_orig_user_ref_num m)
     \<and> read_u32_be bs 5 = Ok (rpo_user_ref_num m) \<and> read_u32_be bs 9 = Ok (rpo_quantity m)
     \<and> read_u64_be bs 13 = Ok (rpo_price m)
     \<and> ouch_read_char bs 21 = Ok (time_in_force_to_char (rpo_time_in_force m))
     \<and> ouch_read_char bs 22 = Ok (display_to_char (rpo_display m))
     \<and> ouch_read_char bs 23 = Ok (intermarket_sweep_eligibility_to_char (rpo_intermarket_sweep_eligibility m))
     \<and> read_fixed_ascii 14 bs 24 = Ok (rpo_cl_ord_id m)"
  have "decode_replace_order_message bs = Ok m \<longleftrightarrow> ?f
     \<and> ((\<exists>n. read_u16_be bs 38 = Ok n \<and> require_appendage_exact_length bs (38 + 2) n = EC_ok)
      \<and> rpo_optional_appendage m = drop (38 + 2) bs)"
    by (cases m) (auto simp: decode_replace_order_message_def ouch_decode_simps ouch_enum_inj has_range_length cong: conj_cong)
  also have "\<dots> \<longleftrightarrow> ?f \<and> appendage_image (rpo_optional_appendage m) = drop 38 bs"
    using appendage_iff [of 38 bs "rpo_optional_appendage m"] by (auto simp: is_valid_replace_order_message_def)
  also have "\<dots> \<longleftrightarrow> ouch_ok (ReplaceOrder m) \<and> ouch_typed (ReplaceOrder m) \<and> bs = ouch_image (ReplaceOrder m)"
    by (auto simp: ouch_layout_simps is_valid_replace_order_message_def simp del: One_nat_def append.simps)
  finally show ?thesis .
qed

lemma decode_enter_order_iff:
  "decode_enter_order_message bs = Ok m \<longleftrightarrow>
     ouch_ok (EnterOrder m) \<and> ouch_typed (EnterOrder m) \<and> bs = ouch_image (EnterOrder m)"
proof -
  let ?f = "ouch_ok (EnterOrder m) \<and> 47 \<le> length bs
     \<and> [byte_of_char CHR ''O''] = seg bs 0 1 \<and> read_u32_be bs 1 = Ok (eo_user_ref_num m)
     \<and> ouch_read_char bs 5 = Ok (ouch_side_to_char (eo_side m)) \<and> read_u32_be bs 6 = Ok (eo_quantity m)
     \<and> read_fixed_ascii 8 bs 10 = Ok (eo_symbol m) \<and> read_u64_be bs 18 = Ok (eo_price m)
     \<and> ouch_read_char bs 26 = Ok (time_in_force_to_char (eo_time_in_force m))
     \<and> ouch_read_char bs 27 = Ok (display_to_char (eo_display m))
     \<and> ouch_read_char bs 28 = Ok (capacity_to_char (eo_capacity m))
     \<and> ouch_read_char bs 29 = Ok (intermarket_sweep_eligibility_to_char (eo_intermarket_sweep_eligibility m))
     \<and> ouch_read_char bs 30 = Ok (ouch_cross_type_to_char (eo_cross_type m))
     \<and> read_fixed_ascii 14 bs 31 = Ok (eo_cl_ord_id m)"
  have "decode_enter_order_message bs = Ok m \<longleftrightarrow> ?f
     \<and> ((\<exists>n. read_u16_be bs 45 = Ok n \<and> require_appendage_exact_length bs (45 + 2) n = EC_ok)
      \<and> eo_optional_appendage m = drop (45 + 2) bs)"
    by (cases m) (auto simp: decode_enter_order_message_def ouch_decode_simps ouch_enum_inj has_range_length cong: conj_cong)
  also have "\<dots> \<longleftrightarrow> ?f \<and> appendage_image (eo_optional_appendage m) = drop 45 bs"
    using appendage_iff [of 45 bs "eo_optional_appendage m"] by (auto simp: is_valid_enter_order_message_def)
  also have "\<dots> \<longleftrightarrow> ouch_ok (EnterOrder m) \<and> ouch_typed (EnterOrder m) \<and> bs = ouch_image (EnterOrder m)"
    by (auto simp: ouch_layout_simps is_valid_enter_order_message_def simp del: One_nat_def append.simps)
  finally show ?thesis .
qed

fun ouch_type_of :: "ouch_message \<Rightarrow> ouch_message_type" where
  "ouch_type_of (EnterOrder m) = OMT_enter_order"
| "ouch_type_of (ReplaceOrder m) = OMT_replace_order"
| "ouch_type_of (CancelOrder m) = OMT_cancel_order"

lemma ouch_decode_message_type_image: "ouch_decode_message_type (ouch_image m) = Ok (ouch_type_of m)"
  by (cases m) (simp_all add: ouch_message_type_Ok has_range_length seg_def)

lemma ouch_decode_message_iff: "ouch_decode_message bs = Ok m \<longleftrightarrow> ouch_ok m \<and> ouch_typed m \<and> bs = ouch_image m"
proof
  assume d: "ouch_decode_message bs = Ok m"
  then obtain t where "ouch_decode_message_type bs = Ok t" by (auto simp: ouch_decode_message_def result_bind_eq_Ok)
  with d show "ouch_ok m \<and> ouch_typed m \<and> bs = ouch_image m"
    by (cases t) (auto simp: ouch_decode_message_def result_bind_eq_Ok decode_enter_order_iff decode_replace_order_iff
      decode_cancel_order_iff simp del: ouch_ok.simps ouch_typed.simps ouch_image.simps)
next
  assume r: "ouch_ok m \<and> ouch_typed m \<and> bs = ouch_image m"
  then have t: "ouch_decode_message_type bs = Ok (ouch_type_of m)" by (simp only: ouch_decode_message_type_image)
  show "ouch_decode_message bs = Ok m"
  proof (cases m)
    case (EnterOrder a)
    with r t decode_enter_order_iff [of bs a] show ?thesis by (simp add: ouch_decode_message_def)
  next
    case (ReplaceOrder a)
    with r t decode_replace_order_iff [of bs a] show ?thesis by (simp add: ouch_decode_message_def)
  next
    case (CancelOrder a)
    with r t decode_cancel_order_iff [of bs a] show ?thesis by (simp add: ouch_decode_message_def)
  qed
qed

section \<open>Encoding writes the layout\<close>

lemma copy_appendage_put: "k + length a \<le> length bs \<Longrightarrow> copy_appendage bs k a = put bs k a"
  by (induction bs k a rule: copy_appendage.induct) (auto simp: put_Nil put_Cons)

lemma write_appendage_valid:
  "appendage_length_fits a \<Longrightarrow> off + 2 + length a \<le> length bs \<Longrightarrow> k = off + 2 \<Longrightarrow>
   write_appendage bs off k a = (EC_ok, put bs off (appendage_image a))"
  by (simp add: write_appendage_def u16_field.wr_valid has_range_length copy_appendage_put put_put_append appendage_image_def)

lemma ouch_encode_type_valid:
  "has_range bs 0 1 \<Longrightarrow> ouch_encode_message_type bs t = (EC_ok, put bs 0 [byte_of_char (ouch_message_type_to_char t)])"
  by (simp add: ouch_encode_message_type_def ouch_char_field.wr_valid)

lemmas ouch_encode_simps =
  encode_enter_order_message_def encode_replace_order_message_def encode_cancel_order_message_def
  is_valid_enter_order_message_def is_valid_replace_order_message_def is_valid_cancel_order_message_def
  ouch_require_exact_encode_length_def ouch_encode_type_valid write_appendage_valid
  ouch_char_field.wr_valid u32_field.wr_valid u64_field.wr_valid ascii_field.wr_valid
  has_range_length put_put_append put_all

lemma ouch_encode_valid:
  assumes "length bs = encoded_length m" "ouch_typed m" "ouch_ok m"
  shows "ouch_encode_message bs m = (EC_ok, ouch_image m)"
  using assms length_ouch_image [OF assms(2)]
  by (cases m) (simp_all add: ouch_encode_simps del: One_nat_def append.simps)

lemma ouch_encode_refused:
  "length bs = encoded_length m \<Longrightarrow> \<not> ouch_ok m \<Longrightarrow> ouch_encode_message bs m = (EC_invalid_argument, bs)"
  "length bs \<noteq> encoded_length m \<Longrightarrow> ouch_encode_message bs m = (EC_parse_error, bs)"
  by (cases m; simp add: encode_enter_order_message_def encode_replace_order_message_def
    encode_cancel_order_message_def ouch_require_exact_encode_length_def and_then_def)+


section \<open>Decoding errors\<close>

lemmas ouch_parse_errors [parse_error_intros] =
  ouch_char_field.rd_only_parse_errors ouch_message_type_code.from_only_parse_errors
  ouch_side_code.from_only_parse_errors time_in_force_code.from_only_parse_errors
  display_code.from_only_parse_errors capacity_code.from_only_parse_errors
  intermarket_sweep_eligibility_code.from_only_parse_errors ouch_cross_type_code.from_only_parse_errors

lemma ouch_require_errors [parse_error_intros]:
  "require_exact_message_type bs t \<in> {EC_ok, EC_parse_error}"
  "require_minimum_length bs n \<in> {EC_ok, EC_parse_error}"
  "require_appendage_exact_length bs n k \<in> {EC_ok, EC_parse_error}"
  using ouch_message_type_Fail [of bs]
  by (auto simp: require_exact_message_type_def require_minimum_length_def require_appendage_exact_length_def
    Let_def split: result.splits)

lemma ouch_decoders_parse_errors [parse_error_intros]:
  "only_parse_errors (decode_enter_order_message bs)"
  "only_parse_errors (decode_replace_order_message bs)"
  "only_parse_errors (decode_cancel_order_message bs)"
  unfolding decode_enter_order_message_def decode_replace_order_message_def decode_cancel_order_message_def
  by (intro parse_error_intros)+

lemma ouch_decode_message_parse_errors: "only_parse_errors (ouch_decode_message bs)"
proof -
  have "only_parse_errors (case t of
         OMT_enter_order \<Rightarrow> result_bind (decode_enter_order_message bs) (\<lambda>m. Ok (EnterOrder m))
       | OMT_replace_order \<Rightarrow> result_bind (decode_replace_order_message bs) (\<lambda>m. Ok (ReplaceOrder m))
       | OMT_cancel_order \<Rightarrow> result_bind (decode_cancel_order_message bs) (\<lambda>m. Ok (CancelOrder m)))" for t
    by (cases t) (simp_all, (intro parse_error_intros)+)
  then show ?thesis unfolding ouch_decode_message_def ouch_decode_message_type_def by (intro parse_error_intros)
qed

section \<open>Properties\<close>

definition sample_enter :: enter_order_message where
  "sample_enter = \<lparr>eo_user_ref_num = 7, eo_side = OS_buy, eo_quantity = 100, eo_symbol = ''AAPL    '',
     eo_price = 1500000, eo_time_in_force = TIF_day, eo_display = DSP_visible, eo_capacity = CAP_agency,
     eo_intermarket_sweep_eligibility = ISE_not_eligible, eo_cross_type = OCT_continuous_market,
     eo_cl_ord_id = ''ORDER-00000001'', eo_optional_appendage = [1, 2, 3]\<rparr>"

lemma sample_enter_ok: "ouch_ok (EnterOrder sample_enter)" "ouch_typed (EnterOrder sample_enter)"
  "encoded_length (EnterOrder sample_enter) = 50"
  by (simp_all add: sample_enter_def is_valid_enter_order_message_def is_valid_user_ref_num_def
    is_valid_enter_or_replace_quantity_def ouch_is_valid_price4_def is_valid_fixed_ascii_def
    is_printable_ascii_or_space_def byte_of_char_def appendage_length_fits_def)

text \<open>
  C18: An OUCH message the encoder accepts, whatever buffer it was written over, decodes to the same
  message, appendage included.\<close>

theorem ouch_decode_after_encode:
  assumes "ouch_typed m" "ouch_encode_message bs m = (EC_ok, bs')"
  shows "ouch_decode_message bs' = Ok m"
  using assms ouch_encode_valid [of bs m] ouch_encode_refused [of bs m]
  by (cases "length bs = encoded_length m"; cases "ouch_ok m") (auto simp: ouch_decode_message_iff)

theorem ouch_decode_after_encode_witness:
  "ouch_decode_message (snd (ouch_encode_message (replicate 50 0) (EnterOrder sample_enter)))
   = Ok (EnterOrder sample_enter)"
proof -
  have "ouch_encode_message (replicate 50 0) (EnterOrder sample_enter) = (EC_ok, ouch_image (EnterOrder sample_enter))"
    using sample_enter_ok by (intro ouch_encode_valid) simp_all
  from ouch_decode_after_encode [OF sample_enter_ok(2) this] this show ?thesis by simp
qed

text \<open>
  C19: Re-encoding a decoded OUCH message into a buffer of the same length reproduces the received bytes.\<close>

theorem ouch_encode_after_decode:
  assumes "ouch_decode_message bs = Ok m" "length buf = length bs"
  shows "ouch_encode_message buf m = (EC_ok, bs)"
  using assms length_ouch_image [of m] ouch_encode_valid [of buf m] by (auto simp: ouch_decode_message_iff)

theorem ouch_encode_after_decode_witness:
  "ouch_encode_message (replicate 50 0xFF) (EnterOrder sample_enter) = (EC_ok, ouch_image (EnterOrder sample_enter))"
proof (rule ouch_encode_after_decode)
  show "ouch_decode_message (ouch_image (EnterOrder sample_enter)) = Ok (EnterOrder sample_enter)"
    unfolding ouch_decode_message_iff using sample_enter_ok by blast
  show "length (replicate 50 (0xFF :: u8)) = length (ouch_image (EnterOrder sample_enter))"
    using length_ouch_image [OF sample_enter_ok(2)] sample_enter_ok(3) by simp
qed

text \<open>
  The decoder accepts exactly the encodings of valid messages and reports everything else, short or long
  buffers, unknown types and codes, a wrong appendage length, as \<open>parse_error\<close>; the encoder leaves the buffer
  untouched when it refuses.\<close>

theorem ouch_errors:
  assumes "ouch_typed m"
  shows "((\<forall>x. ouch_decode_message bs \<noteq> Ok x) \<longleftrightarrow> ouch_decode_message bs = Fail EC_parse_error)
    \<and> (length bs \<noteq> encoded_length m \<longrightarrow> ouch_encode_message bs m = (EC_parse_error, bs))
    \<and> (length bs = encoded_length m \<and> \<not> ouch_ok m \<longrightarrow> ouch_encode_message bs m = (EC_invalid_argument, bs))
    \<and> (length bs = encoded_length m \<and> ouch_ok m \<longrightarrow> fst (ouch_encode_message bs m) = EC_ok)"
  using assms ouch_encode_valid [of bs m] ouch_encode_refused [of bs m]
    only_parse_errorsD [OF ouch_decode_message_parse_errors, of bs]
  by (cases "ouch_decode_message bs") auto

theorem ouch_errors_witness:
  "ouch_encode_message [9] (EnterOrder sample_enter) = (EC_parse_error, [9])"
  using ouch_errors [OF sample_enter_ok(2), of "[9]"] sample_enter_ok(3) by simp

end
