(* ===== verification/Risk.thy ===== *)
theory Risk
  imports Ouch
begin

text \<open>
  The software risk check: \<^verbatim>\<open>include/fgep/risk/risk_supervisor.hpp\<close> and
  \<^verbatim>\<open>src/risk/risk_supervisor.cpp\<close>. The two sets of symbol overrides are sets of symbols.

  Two locales hold what this check shares with the gate's guardrails: \<open>notional_check\<close> for the
  overflow-guarded product of price and quantity, \<open>symbol_switch\<close> for the per-symbol overrides.
\<close>

section \<open>Shared contracts\<close>

text \<open>The largest value of \<^verbatim>\<open>Notional\<close>, \<^verbatim>\<open>std::numeric_limits<Notional>::max()\<close>.\<close>

abbreviation max_notional :: u64 where
  "max_notional \<equiv> - 1"

lemma unat_max_notional: "unat max_notional = 2 ^ 64 - 1"
  by (simp add: unsigned_minus_1_eq_mask mask_eq_exp_minus_1)

lemma unat_ucast_u32: "unat (ucast (q :: u32) :: u64) = unat q"
  using unsigned_less [of q, where 'a = nat] by (simp add: unsigned_ucast_eq take_bit_nat_eq_self)

lemma overflow_test:
  assumes "q \<noteq> 0"
  shows "price > max_notional div ucast (q :: u32) \<longleftrightarrow> unat price * unat q > 2 ^ 64 - 1"
proof -
  have q: "0 < unat q" using assms by (simp add: unat_gt_0)
  have "price > max_notional div ucast q \<longleftrightarrow> unat price > (2 ^ 64 - 1) div unat q"
    by (simp add: word_less_nat_alt unat_div unat_ucast_u32 unat_max_notional)
  also have "\<dots> \<longleftrightarrow> unat price * unat q > 2 ^ 64 - 1"
    using q by (simp add: div_less_iff_less_mult)
  finally show ?thesis .
qed

locale notional_check =
  fixes calc :: "u32 \<Rightarrow> u64 \<Rightarrow> u64" and limit :: "'st \<Rightarrow> u64" and exceeds :: "'st \<Rightarrow> u32 \<Rightarrow> u64 \<Rightarrow> bool"
  assumes calc_eq: "calc q p = (if q = 0 \<or> p = 0 then 0
      else if p > max_notional div ucast q then max_notional else p * ucast q)"
    and exceeds_eq: "exceeds st q p = (if q = 0 \<or> p = 0 then False
      else if p > max_notional div ucast q then True else calc q p > limit st)"
begin

lemma calc_saturates: "unat (calc q p) = min (unat q * unat p) (2 ^ 64 - 1)"
proof (cases "q = 0 \<or> p = 0")
  case False
  then show ?thesis
    using overflow_test [of q p]
    by (auto simp: calc_eq unat_max_notional unat_word_ariths unat_ucast_u32 mult.commute)
qed (auto simp: calc_eq)

lemma exceeds_iff: "exceeds st q p \<longleftrightarrow> unat (limit st) < unat q * unat p"
proof (cases "q = 0 \<or> p = 0")
  case False
  have "unat (limit st) \<le> 2 ^ 64 - 1" using unsigned_less [of "limit st", where 'a = nat] by simp
  then show ?thesis
    using False overflow_test [of q p] calc_saturates [of q p]
    by (auto simp: exceeds_eq word_less_nat_alt mult.commute)
qed (auto simp: exceeds_eq)

end

locale symbol_switch =
  fixes enabled :: "'st \<Rightarrow> ouch_symbol \<Rightarrow> bool" and default_enabled :: "'st \<Rightarrow> bool"
    and enable :: "ouch_symbol \<Rightarrow> 'st \<Rightarrow> 'st" and disable :: "ouch_symbol \<Rightarrow> 'st \<Rightarrow> 'st" and clear :: "'st \<Rightarrow> 'st"
  assumes enabled_enable: "enabled (enable s st) t \<longleftrightarrow> t = s \<or> enabled st t"
    and enabled_disable: "enabled (disable s st) t \<longleftrightarrow> t \<noteq> s \<and> enabled st t"
    and enabled_clear: "enabled (clear st) t \<longleftrightarrow> default_enabled st"
begin

text \<open>The last override of a symbol decides, whatever happened to other symbols.\<close>

lemma last_override_wins:
  "enabled (fold (\<lambda>(on, s). if on then enable s else disable s) cs st) t =
     (case filter (\<lambda>c. snd c = t) cs of [] \<Rightarrow> enabled st t | ds \<Rightarrow> fst (last ds))"
proof (induction cs arbitrary: st)
  case (Cons c cs)
  then show ?case by (cases c) (auto simp: enabled_enable enabled_disable split: list.splits)
qed simp

end

section \<open>The risk supervisor\<close>

datatype risk_decision = RD_accepted | RD_rejected

datatype risk_reject_reason =
    RR_none | RR_global_halt | RR_symbol_disabled | RR_cancel_only
  | RR_max_order_quantity | RR_max_order_notional | RR_invalid_quantity | RR_invalid_price

record risk_limits =
  rl_max_order_quantity :: u32
  rl_max_order_notional :: u64

record risk_result =
  rr_decision :: risk_decision
  rr_reject_reason :: risk_reject_reason
  rr_user_ref_num :: u32
  rr_quantity :: u32
  rr_price :: u64
  rr_notional :: u64

record risk_supervisor =
  rs_limits :: risk_limits
  rs_global_halted :: bool
  rs_cancel_only :: bool
  rs_default_symbol_enabled :: bool
  rs_enabled_symbols :: "ouch_symbol set"
  rs_disabled_symbols :: "ouch_symbol set"

definition default_risk_limits :: risk_limits where
  "default_risk_limits = \<lparr>rl_max_order_quantity = 100000, rl_max_order_notional = 1000000000000\<rparr>"

definition make_risk_supervisor :: "risk_limits \<Rightarrow> risk_supervisor" where
  "make_risk_supervisor limits = \<lparr>rs_limits = limits, rs_global_halted = False, rs_cancel_only = False,
     rs_default_symbol_enabled = True, rs_enabled_symbols = {}, rs_disabled_symbols = {}\<rparr>"

definition rs_set_limits :: "risk_limits \<Rightarrow> risk_supervisor \<Rightarrow> risk_supervisor" where
  "rs_set_limits limits rs = rs\<lparr>rs_limits := limits\<rparr>"

definition rs_set_global_halted :: "bool \<Rightarrow> risk_supervisor \<Rightarrow> risk_supervisor" where
  "rs_set_global_halted halted rs = rs\<lparr>rs_global_halted := halted\<rparr>"

definition rs_set_cancel_only :: "bool \<Rightarrow> risk_supervisor \<Rightarrow> risk_supervisor" where
  "rs_set_cancel_only enabled rs = rs\<lparr>rs_cancel_only := enabled\<rparr>"

definition rs_set_default_symbol_enabled :: "bool \<Rightarrow> risk_supervisor \<Rightarrow> risk_supervisor" where
  "rs_set_default_symbol_enabled enabled rs = rs\<lparr>rs_default_symbol_enabled := enabled\<rparr>"

definition rs_enable_symbol :: "ouch_symbol \<Rightarrow> risk_supervisor \<Rightarrow> risk_supervisor" where
  "rs_enable_symbol s rs = rs\<lparr>rs_disabled_symbols := rs_disabled_symbols rs - {s},
     rs_enabled_symbols := insert s (rs_enabled_symbols rs)\<rparr>"

definition rs_disable_symbol :: "ouch_symbol \<Rightarrow> risk_supervisor \<Rightarrow> risk_supervisor" where
  "rs_disable_symbol s rs = rs\<lparr>rs_enabled_symbols := rs_enabled_symbols rs - {s},
     rs_disabled_symbols := insert s (rs_disabled_symbols rs)\<rparr>"

definition rs_is_symbol_enabled :: "risk_supervisor \<Rightarrow> ouch_symbol \<Rightarrow> bool" where
  "rs_is_symbol_enabled rs s =
     (if s \<in> rs_disabled_symbols rs then False
      else if s \<in> rs_enabled_symbols rs then True
      else rs_default_symbol_enabled rs)"

definition rs_clear_symbol_overrides :: "risk_supervisor \<Rightarrow> risk_supervisor" where
  "rs_clear_symbol_overrides rs = rs\<lparr>rs_enabled_symbols := {}, rs_disabled_symbols := {}\<rparr>"

definition risk_symbol_hash :: "ouch_symbol \<Rightarrow> u64" where
  "risk_symbol_hash s = foldl (\<lambda>hash c. (hash * 131) XOR ucast (byte_of_char c)) 0 s"

definition risk_reject :: "risk_reject_reason \<Rightarrow> u32 \<Rightarrow> u32 \<Rightarrow> u64 \<Rightarrow> u64 \<Rightarrow> risk_result" where
  "risk_reject reason user_ref_num quantity price notional =
     \<lparr>rr_decision = RD_rejected, rr_reject_reason = reason, rr_user_ref_num = user_ref_num,
      rr_quantity = quantity, rr_price = price, rr_notional = notional\<rparr>"

definition risk_accept :: "u32 \<Rightarrow> u32 \<Rightarrow> u64 \<Rightarrow> u64 \<Rightarrow> risk_result" where
  "risk_accept user_ref_num quantity price notional =
     \<lparr>rr_decision = RD_accepted, rr_reject_reason = RR_none, rr_user_ref_num = user_ref_num,
      rr_quantity = quantity, rr_price = price, rr_notional = notional\<rparr>"

definition calculate_order_notional :: "u32 \<Rightarrow> u64 \<Rightarrow> u64" where
  "calculate_order_notional quantity price =
     (if quantity = 0 \<or> price = 0 then 0
      else if price > max_notional div ucast quantity then max_notional
      else price * ucast quantity)"

definition rs_exceeds_notional_limit :: "risk_supervisor \<Rightarrow> u32 \<Rightarrow> u64 \<Rightarrow> bool" where
  "rs_exceeds_notional_limit rs quantity price =
     (if quantity = 0 \<or> price = 0 then False
      else if price > max_notional div ucast quantity then True
      else calculate_order_notional quantity price > rl_max_order_notional (rs_limits rs))"

definition check_common_order_risk ::
  "risk_supervisor \<Rightarrow> u32 \<Rightarrow> u32 \<Rightarrow> u64 \<Rightarrow> ouch_symbol \<Rightarrow> risk_result" where
  "check_common_order_risk rs user_ref_num quantity price symbol =
     (if rs_global_halted rs then risk_reject RR_global_halt user_ref_num quantity price 0
      else if rs_cancel_only rs then risk_reject RR_cancel_only user_ref_num quantity price 0
      else if \<not> rs_is_symbol_enabled rs symbol then risk_reject RR_symbol_disabled user_ref_num quantity price 0
      else if \<not> is_valid_enter_or_replace_quantity quantity
      then risk_reject RR_invalid_quantity user_ref_num quantity price 0
      else if \<not> ouch_is_valid_price4 price then risk_reject RR_invalid_price user_ref_num quantity price 0
      else if quantity > rl_max_order_quantity (rs_limits rs)
      then risk_reject RR_max_order_quantity user_ref_num quantity price 0
      else if rs_exceeds_notional_limit rs quantity price
      then risk_reject RR_max_order_notional user_ref_num quantity price (calculate_order_notional quantity price)
      else risk_accept user_ref_num quantity price (calculate_order_notional quantity price))"

definition check_enter :: "risk_supervisor \<Rightarrow> enter_order_message \<Rightarrow> risk_result" where
  "check_enter rs m = check_common_order_risk rs (eo_user_ref_num m) (eo_quantity m) (eo_price m) (eo_symbol m)"

definition check_replace :: "risk_supervisor \<Rightarrow> replace_order_message \<Rightarrow> ouch_symbol \<Rightarrow> risk_result" where
  "check_replace rs m current_symbol =
     check_common_order_risk rs (rpo_user_ref_num m) (rpo_quantity m) (rpo_price m) current_symbol"

definition check_cancel :: "risk_supervisor \<Rightarrow> cancel_order_message \<Rightarrow> risk_result" where
  "check_cancel rs m =
     (if rs_global_halted rs then risk_reject RR_global_halt (co_user_ref_num m) (co_quantity m) 0 0
      else if \<not> is_valid_cancel_quantity (co_quantity m)
      then risk_reject RR_invalid_quantity (co_user_ref_num m) (co_quantity m) 0 0
      else risk_accept (co_user_ref_num m) (co_quantity m) 0 0)"

interpretation risk_notional: notional_check calculate_order_notional
    "\<lambda>rs. rl_max_order_notional (rs_limits rs)" rs_exceeds_notional_limit
  by unfold_locales (auto simp: calculate_order_notional_def rs_exceeds_notional_limit_def)

interpretation risk_symbols: symbol_switch rs_is_symbol_enabled rs_default_symbol_enabled
    rs_enable_symbol rs_disable_symbol rs_clear_symbol_overrides
  by unfold_locales
     (auto simp: rs_is_symbol_enabled_def rs_enable_symbol_def rs_disable_symbol_def rs_clear_symbol_overrides_def)

section \<open>When an order passes\<close>

definition within_limits :: "u32 \<Rightarrow> u64 \<Rightarrow> u32 \<Rightarrow> u64 \<Rightarrow> bool" where
  "within_limits max_quantity max_value quantity price \<longleftrightarrow>
     0 < unat quantity \<and> unat quantity < 1000000 \<and> unat quantity \<le> unat max_quantity
     \<and> 0 < unat price \<and> unat quantity * unat price \<le> unat max_value"

lemma order_field_iff:
  "is_valid_enter_or_replace_quantity q \<longleftrightarrow> 0 < unat q \<and> unat q < 1000000"
  "is_valid_cancel_quantity q \<longleftrightarrow> unat q < 1000000"
  "ouch_is_valid_price4 p \<longleftrightarrow> 0 < unat p"
  by (auto simp: is_valid_enter_or_replace_quantity_def is_valid_cancel_quantity_def ouch_is_valid_price4_def
    word_less_nat_alt)

lemma check_common_accepted:
  "rr_decision (check_common_order_risk rs ref q p s) = RD_accepted \<longleftrightarrow>
     \<not> rs_global_halted rs \<and> \<not> rs_cancel_only rs \<and> rs_is_symbol_enabled rs s
     \<and> within_limits (rl_max_order_quantity (rs_limits rs)) (rl_max_order_notional (rs_limits rs)) q p"
  by (auto simp: check_common_order_risk_def risk_reject_def risk_accept_def order_field_iff within_limits_def
    risk_notional.exceeds_iff word_less_nat_alt)

section \<open>Properties\<close>

definition sample_risk :: risk_supervisor where
  "sample_risk = rs_disable_symbol ''MSFT    '' (make_risk_supervisor default_risk_limits)"

text \<open>
  An enter order is accepted exactly when trading is neither halted nor in cancel-only mode, its symbol is
  enabled, its quantity is between 1 and 999999 and within the limit, its price is positive and the exact
  product of price and quantity, computed without overflow, is within the notional limit; the accepted result
  carries that product.\<close>

theorem risk_enter_exact:
  "(rr_decision (check_enter rs m) = RD_accepted \<longleftrightarrow>
      \<not> rs_global_halted rs \<and> \<not> rs_cancel_only rs \<and> rs_is_symbol_enabled rs (eo_symbol m)
      \<and> within_limits (rl_max_order_quantity (rs_limits rs)) (rl_max_order_notional (rs_limits rs))
          (eo_quantity m) (eo_price m))
   \<and> (rr_decision (check_enter rs m) = RD_accepted \<longrightarrow>
      unat (rr_notional (check_enter rs m)) = unat (eo_quantity m) * unat (eo_price m))
   \<and> (rr_decision (check_enter rs m) = RD_rejected \<longleftrightarrow> rr_reject_reason (check_enter rs m) \<noteq> RR_none)"
proof -
  have "rr_decision (check_enter rs m) = RD_accepted \<Longrightarrow>
      rr_notional (check_enter rs m) = calculate_order_notional (eo_quantity m) (eo_price m)"
    by (auto simp: check_enter_def check_common_order_risk_def risk_reject_def risk_accept_def split: if_splits)
  moreover have "unat (rl_max_order_notional (rs_limits rs)) \<le> 2 ^ 64 - 1"
    using unsigned_less [of "rl_max_order_notional (rs_limits rs)", where 'a = nat] by simp
  moreover have "rr_decision (check_enter rs m) = RD_rejected \<longleftrightarrow> rr_reject_reason (check_enter rs m) \<noteq> RR_none"
    by (auto simp: check_enter_def check_common_order_risk_def risk_reject_def risk_accept_def)
  ultimately show ?thesis
    using check_common_accepted [of rs "eo_user_ref_num m" "eo_quantity m" "eo_price m" "eo_symbol m"]
    by (auto simp: check_enter_def [symmetric] risk_notional.calc_saturates within_limits_def)
qed

theorem risk_enter_exact_witness:
  "rr_decision (check_enter sample_risk sample_enter) = RD_accepted
   \<and> unat (rr_notional (check_enter sample_risk sample_enter)) = 150000000"
proof -
  have "rr_decision (check_enter sample_risk sample_enter) = RD_accepted"
    by (simp add: check_enter_def check_common_accepted sample_risk_def sample_enter_def make_risk_supervisor_def
      default_risk_limits_def rs_disable_symbol_def rs_is_symbol_enabled_def within_limits_def)
  with risk_enter_exact [of sample_risk sample_enter] show ?thesis by (simp add: sample_enter_def)
qed

text \<open>
  Per-symbol overrides: after any sequence of enable and disable commands the last command for a symbol
  decides whether it is enabled; a symbol without commands keeps its earlier state.\<close>

theorem risk_last_override_wins:
  "rs_is_symbol_enabled (fold (\<lambda>(on, t). if on then rs_enable_symbol t else rs_disable_symbol t) cs rs) s =
     (case filter (\<lambda>c. snd c = s) cs of [] \<Rightarrow> rs_is_symbol_enabled rs s | ds \<Rightarrow> fst (last ds))"
  by (rule risk_symbols.last_override_wins)

text \<open>
  A halt stops everything and cancel-only mode stops all but cancels: no enter or replace passes in either,
  no cancel passes in a halt, and a cancel with a legal quantity passes whenever there is no halt.\<close>

theorem risk_halt_and_cancel_only:
  "(rs_global_halted rs \<longrightarrow> rr_decision (check_enter rs em) = RD_rejected
      \<and> rr_decision (check_replace rs rm current) = RD_rejected \<and> rr_decision (check_cancel rs cm) = RD_rejected)
   \<and> (rs_cancel_only rs \<longrightarrow> rr_decision (check_enter rs em) = RD_rejected
      \<and> rr_decision (check_replace rs rm current) = RD_rejected)
   \<and> (\<not> rs_global_halted rs \<and> unat (co_quantity cm) < 1000000 \<longrightarrow> rr_decision (check_cancel rs cm) = RD_accepted)"
  by (auto simp: check_enter_def check_replace_def check_cancel_def check_common_order_risk_def risk_reject_def
    risk_accept_def order_field_iff)

theorem risk_halt_and_cancel_only_witness:
  "rr_decision (check_enter (rs_set_global_halted True sample_risk) sample_enter) = RD_rejected"
  using risk_halt_and_cancel_only [of "rs_set_global_halted True sample_risk" sample_enter]
  by (simp add: rs_set_global_halted_def)

end
