(* ===== verification/Lifecycle.thy ===== *)
theory Lifecycle
  imports Risk
begin

text \<open>
  The order state machine and the simulated exchange: \<^verbatim>\<open>OrderLifecycleEngine\<close>
  (\<^verbatim>\<open>include/fgep/execution/order_lifecycle.hpp\<close>, \<^verbatim>\<open>src/execution/order_lifecycle.cpp\<close>) and
  \<^verbatim>\<open>SimulatedExecutionEngine\<close> (\<^verbatim>\<open>simulated_execution_engine.hpp\<close> and \<^verbatim>\<open>.cpp\<close>), which puts
  the risk check of theory \<open>Risk\<close> in front of it. The hash map of live orders is a finite map from user reference
  numbers.

  An operation takes the engine last and returns the code's result with the engine as it leaves it. A history of
  an engine is the list of its results (\<open>lifecycle_run\<close>); the theorems about histories are by rule induction
  over it.
\<close>

section \<open>The lifecycle engine\<close>

datatype lifecycle_status =
    LS_accepted | LS_replaced | LS_canceled | LS_partially_canceled | LS_partially_filled | LS_filled | LS_rejected

datatype lifecycle_reject_reason =
    LR_none | LR_duplicate_user_ref_num | LR_stale_user_ref_num | LR_unknown_order | LR_invalid_quantity
  | LR_invalid_price | LR_invalid_state_transition | LR_overfill

record live_order =
  lo_user_ref_num :: u32
  lo_side :: ouch_side
  lo_original_quantity :: u32
  lo_leaves_quantity :: u32
  lo_symbol :: ouch_symbol
  lo_price :: u64
  lo_time_in_force :: time_in_force
  lo_display :: display
  lo_capacity :: capacity
  lo_intermarket_sweep_eligibility :: intermarket_sweep_eligibility
  lo_cross_type :: ouch_cross_type
  lo_cl_ord_id :: cl_ord_id

record lifecycle_result =
  lr_status :: lifecycle_status
  lr_reject_reason :: lifecycle_reject_reason
  lr_user_ref_num :: u32
  lr_previous_user_ref_num :: u32
  lr_decrement_quantity :: u32
  lr_leaves_quantity :: u32

definition lr_accepted :: "lifecycle_result \<Rightarrow> bool" where
  "lr_accepted r \<longleftrightarrow> lr_status r \<noteq> LS_rejected"

definition lr_rejected :: "lifecycle_result \<Rightarrow> bool" where
  "lr_rejected r \<longleftrightarrow> lr_status r = LS_rejected"

record lifecycle_engine =
  le_live_orders :: "u32 \<rightharpoonup> live_order"
  le_highest_user_ref_num :: u32

definition new_lifecycle_engine :: lifecycle_engine where
  "new_lifecycle_engine = \<lparr>le_live_orders = Map.empty, le_highest_user_ref_num = 0\<rparr>"

definition lifecycle_reject :: "u32 \<Rightarrow> lifecycle_reject_reason \<Rightarrow> lifecycle_result" where
  "lifecycle_reject user_ref_num reason =
     \<lparr>lr_status = LS_rejected, lr_reject_reason = reason, lr_user_ref_num = user_ref_num,
      lr_previous_user_ref_num = 0, lr_decrement_quantity = 0, lr_leaves_quantity = 0\<rparr>"

definition is_stale_user_ref :: "lifecycle_engine \<Rightarrow> u32 \<Rightarrow> bool" where
  "is_stale_user_ref le user_ref_num \<longleftrightarrow> user_ref_num \<le> le_highest_user_ref_num le"

definition remember_user_ref :: "u32 \<Rightarrow> lifecycle_engine \<Rightarrow> lifecycle_engine" where
  "remember_user_ref user_ref_num le =
     (if user_ref_num > le_highest_user_ref_num le then le\<lparr>le_highest_user_ref_num := user_ref_num\<rparr> else le)"

definition le_find :: "lifecycle_engine \<Rightarrow> u32 \<Rightarrow> live_order option" where
  "le_find le user_ref_num = le_live_orders le user_ref_num"

definition le_contains :: "lifecycle_engine \<Rightarrow> u32 \<Rightarrow> bool" where
  "le_contains le user_ref_num \<longleftrightarrow> le_live_orders le user_ref_num \<noteq> None"

definition live_order_count :: "lifecycle_engine \<Rightarrow> nat" where
  "live_order_count le = card (dom (le_live_orders le))"

definition le_clear :: "lifecycle_engine \<Rightarrow> lifecycle_engine" where
  "le_clear le = le\<lparr>le_live_orders := Map.empty, le_highest_user_ref_num := 0\<rparr>"

definition make_live_order :: "enter_order_message \<Rightarrow> live_order" where
  "make_live_order m =
     \<lparr>lo_user_ref_num = eo_user_ref_num m, lo_side = eo_side m, lo_original_quantity = eo_quantity m,
      lo_leaves_quantity = eo_quantity m, lo_symbol = eo_symbol m, lo_price = eo_price m,
      lo_time_in_force = eo_time_in_force m, lo_display = eo_display m, lo_capacity = eo_capacity m,
      lo_intermarket_sweep_eligibility = eo_intermarket_sweep_eligibility m, lo_cross_type = eo_cross_type m,
      lo_cl_ord_id = eo_cl_ord_id m\<rparr>"

definition make_replacement :: "live_order \<Rightarrow> replace_order_message \<Rightarrow> live_order" where
  "make_replacement old_order m =
     \<lparr>lo_user_ref_num = rpo_user_ref_num m, lo_side = lo_side old_order, lo_original_quantity = rpo_quantity m,
      lo_leaves_quantity = rpo_quantity m, lo_symbol = lo_symbol old_order, lo_price = rpo_price m,
      lo_time_in_force = rpo_time_in_force m, lo_display = rpo_display m, lo_capacity = lo_capacity old_order,
      lo_intermarket_sweep_eligibility = rpo_intermarket_sweep_eligibility m,
      lo_cross_type = lo_cross_type old_order, lo_cl_ord_id = rpo_cl_ord_id m\<rparr>"

definition le_enter :: "enter_order_message \<Rightarrow> lifecycle_engine \<Rightarrow> lifecycle_result \<times> lifecycle_engine" where
  "le_enter m le =
     (if \<not> is_valid_enter_order_message m then
        (if \<not> is_valid_enter_or_replace_quantity (eo_quantity m)
         then (lifecycle_reject (eo_user_ref_num m) LR_invalid_quantity, le)
         else if \<not> ouch_is_valid_price4 (eo_price m)
         then (lifecycle_reject (eo_user_ref_num m) LR_invalid_price, le)
         else (lifecycle_reject (eo_user_ref_num m) LR_invalid_state_transition, le))
      else if le_contains le (eo_user_ref_num m)
      then (lifecycle_reject (eo_user_ref_num m) LR_duplicate_user_ref_num, le)
      else if is_stale_user_ref le (eo_user_ref_num m)
      then (lifecycle_reject (eo_user_ref_num m) LR_stale_user_ref_num, le)
      else (\<lparr>lr_status = LS_accepted, lr_reject_reason = LR_none, lr_user_ref_num = eo_user_ref_num m,
              lr_previous_user_ref_num = 0, lr_decrement_quantity = 0, lr_leaves_quantity = eo_quantity m\<rparr>,
            remember_user_ref (eo_user_ref_num m)
              (le\<lparr>le_live_orders := (le_live_orders le)(eo_user_ref_num m \<mapsto> make_live_order m)\<rparr>)))"

definition le_replace :: "replace_order_message \<Rightarrow> lifecycle_engine \<Rightarrow> lifecycle_result \<times> lifecycle_engine" where
  "le_replace m le =
     (if \<not> is_valid_replace_order_message m then
        (if \<not> is_valid_enter_or_replace_quantity (rpo_quantity m)
         then (lifecycle_reject (rpo_user_ref_num m) LR_invalid_quantity, le)
         else if \<not> ouch_is_valid_price4 (rpo_price m)
         then (lifecycle_reject (rpo_user_ref_num m) LR_invalid_price, le)
         else (lifecycle_reject (rpo_user_ref_num m) LR_invalid_state_transition, le))
      else case le_live_orders le (rpo_orig_user_ref_num m) of
        None \<Rightarrow> (lifecycle_reject (rpo_user_ref_num m) LR_unknown_order, le)
      | Some old_order \<Rightarrow>
          if le_contains le (rpo_user_ref_num m)
          then (lifecycle_reject (rpo_user_ref_num m) LR_duplicate_user_ref_num, le)
          else if is_stale_user_ref le (rpo_user_ref_num m)
          then (lifecycle_reject (rpo_user_ref_num m) LR_stale_user_ref_num, le)
          else (\<lparr>lr_status = LS_replaced, lr_reject_reason = LR_none, lr_user_ref_num = rpo_user_ref_num m,
                  lr_previous_user_ref_num = rpo_orig_user_ref_num m,
                  lr_decrement_quantity = lo_leaves_quantity old_order, lr_leaves_quantity = rpo_quantity m\<rparr>,
                remember_user_ref (rpo_user_ref_num m)
                  (le\<lparr>le_live_orders := (le_live_orders le)(rpo_orig_user_ref_num m := None,
                         rpo_user_ref_num m \<mapsto> make_replacement old_order m)\<rparr>)))"

definition le_cancel :: "cancel_order_message \<Rightarrow> lifecycle_engine \<Rightarrow> lifecycle_result \<times> lifecycle_engine" where
  "le_cancel m le =
     (if \<not> is_valid_cancel_order_message m then (lifecycle_reject (co_user_ref_num m) LR_invalid_quantity, le)
      else case le_live_orders le (co_user_ref_num m) of
        None \<Rightarrow> (lifecycle_reject (co_user_ref_num m) LR_unknown_order, le)
      | Some order \<Rightarrow>
          (let old_leaves = lo_leaves_quantity order
           in if co_quantity m = 0 \<or> co_quantity m \<ge> old_leaves
              then (\<lparr>lr_status = LS_canceled, lr_reject_reason = LR_none, lr_user_ref_num = co_user_ref_num m,
                      lr_previous_user_ref_num = 0, lr_decrement_quantity = old_leaves, lr_leaves_quantity = 0\<rparr>,
                    le\<lparr>le_live_orders := (le_live_orders le)(co_user_ref_num m := None)\<rparr>)
              else (let order' = order\<lparr>lo_leaves_quantity := lo_leaves_quantity order - co_quantity m\<rparr>
                in (\<lparr>lr_status = LS_partially_canceled, lr_reject_reason = LR_none,
                      lr_user_ref_num = co_user_ref_num m, lr_previous_user_ref_num = 0,
                      lr_decrement_quantity = co_quantity m, lr_leaves_quantity = lo_leaves_quantity order'\<rparr>,
                    le\<lparr>le_live_orders := (le_live_orders le)(co_user_ref_num m \<mapsto> order')\<rparr>))))"

definition le_execute :: "u32 \<Rightarrow> u32 \<Rightarrow> lifecycle_engine \<Rightarrow> lifecycle_result \<times> lifecycle_engine" where
  "le_execute user_ref_num executed_quantity le =
     (if \<not> is_valid_enter_or_replace_quantity executed_quantity
      then (lifecycle_reject user_ref_num LR_invalid_quantity, le)
      else case le_live_orders le user_ref_num of
        None \<Rightarrow> (lifecycle_reject user_ref_num LR_unknown_order, le)
      | Some order \<Rightarrow>
          if executed_quantity > lo_leaves_quantity order then (lifecycle_reject user_ref_num LR_overfill, le)
          else (let order' = order\<lparr>lo_leaves_quantity := lo_leaves_quantity order - executed_quantity\<rparr>
            in if lo_leaves_quantity order' = 0
               then (\<lparr>lr_status = LS_filled, lr_reject_reason = LR_none, lr_user_ref_num = user_ref_num,
                       lr_previous_user_ref_num = 0, lr_decrement_quantity = executed_quantity,
                       lr_leaves_quantity = 0\<rparr>,
                     le\<lparr>le_live_orders := (le_live_orders le)(user_ref_num := None)\<rparr>)
               else (\<lparr>lr_status = LS_partially_filled, lr_reject_reason = LR_none, lr_user_ref_num = user_ref_num,
                       lr_previous_user_ref_num = 0, lr_decrement_quantity = executed_quantity,
                       lr_leaves_quantity = lo_leaves_quantity order'\<rparr>,
                     le\<lparr>le_live_orders := (le_live_orders le)(user_ref_num \<mapsto> order')\<rparr>)))"

section \<open>The simulated execution engine\<close>

datatype execution_action = EA_enter | EA_replace | EA_cancel | EA_execute

datatype execution_decision = ED_accepted | ED_rejected

datatype execution_reject_source = ERS_none | ERS_risk | ERS_lifecycle

record execution_result =
  er_action :: execution_action
  er_decision :: execution_decision
  er_reject_source :: execution_reject_source
  er_user_ref_num :: u32
  er_previous_user_ref_num :: u32
  er_decrement_quantity :: u32
  er_leaves_quantity :: u32
  er_risk_reject_reason :: risk_reject_reason
  er_lifecycle_status :: lifecycle_status
  er_lifecycle_reject_reason :: lifecycle_reject_reason

record execution_engine =
  xe_risk :: risk_supervisor
  xe_lifecycle :: lifecycle_engine

definition make_execution_engine :: "risk_supervisor \<Rightarrow> execution_engine" where
  "make_execution_engine rs = \<lparr>xe_risk = rs, xe_lifecycle = new_lifecycle_engine\<rparr>"

definition from_risk_reject :: "execution_action \<Rightarrow> risk_result \<Rightarrow> execution_result" where
  "from_risk_reject action r =
     \<lparr>er_action = action, er_decision = ED_rejected, er_reject_source = ERS_risk,
      er_user_ref_num = rr_user_ref_num r, er_previous_user_ref_num = 0, er_decrement_quantity = 0,
      er_leaves_quantity = 0, er_risk_reject_reason = rr_reject_reason r, er_lifecycle_status = LS_rejected,
      er_lifecycle_reject_reason = LR_none\<rparr>"

definition from_lifecycle :: "execution_action \<Rightarrow> lifecycle_result \<Rightarrow> execution_result" where
  "from_lifecycle action r =
     \<lparr>er_action = action,
      er_decision = (if lr_accepted r then ED_accepted else ED_rejected),
      er_reject_source = (if lr_accepted r then ERS_none else ERS_lifecycle),
      er_user_ref_num = lr_user_ref_num r, er_previous_user_ref_num = lr_previous_user_ref_num r,
      er_decrement_quantity = lr_decrement_quantity r, er_leaves_quantity = lr_leaves_quantity r,
      er_risk_reject_reason = RR_none, er_lifecycle_status = lr_status r,
      er_lifecycle_reject_reason = lr_reject_reason r\<rparr>"

definition submit_enter :: "enter_order_message \<Rightarrow> execution_engine \<Rightarrow> execution_result \<times> execution_engine" where
  "submit_enter m xe =
     (let risk_result = check_enter (xe_risk xe) m
      in if rr_decision risk_result = RD_rejected then (from_risk_reject EA_enter risk_result, xe)
         else case le_enter m (xe_lifecycle xe) of
           (r, le) \<Rightarrow> (from_lifecycle EA_enter r, xe\<lparr>xe_lifecycle := le\<rparr>))"

definition submit_replace :: "replace_order_message \<Rightarrow> execution_engine \<Rightarrow> execution_result \<times> execution_engine" where
  "submit_replace m xe =
     (case le_find (xe_lifecycle xe) (rpo_orig_user_ref_num m) of
        None \<Rightarrow> (case le_replace m (xe_lifecycle xe) of
          (r, le) \<Rightarrow> (from_lifecycle EA_replace r, xe\<lparr>xe_lifecycle := le\<rparr>))
      | Some current_order \<Rightarrow>
          (let risk_result = check_replace (xe_risk xe) m (lo_symbol current_order)
           in if rr_decision risk_result = RD_rejected then (from_risk_reject EA_replace risk_result, xe)
              else case le_replace m (xe_lifecycle xe) of
                (r, le) \<Rightarrow> (from_lifecycle EA_replace r, xe\<lparr>xe_lifecycle := le\<rparr>)))"

definition submit_cancel :: "cancel_order_message \<Rightarrow> execution_engine \<Rightarrow> execution_result \<times> execution_engine" where
  "submit_cancel m xe =
     (let risk_result = check_cancel (xe_risk xe) m
      in if rr_decision risk_result = RD_rejected then (from_risk_reject EA_cancel risk_result, xe)
         else case le_cancel m (xe_lifecycle xe) of
           (r, le) \<Rightarrow> (from_lifecycle EA_cancel r, xe\<lparr>xe_lifecycle := le\<rparr>))"

definition xe_execute :: "u32 \<Rightarrow> u32 \<Rightarrow> execution_engine \<Rightarrow> execution_result \<times> execution_engine" where
  "xe_execute user_ref_num executed_quantity xe =
     (case le_execute user_ref_num executed_quantity (xe_lifecycle xe) of
        (r, le) \<Rightarrow> (from_lifecycle EA_execute r, xe\<lparr>xe_lifecycle := le\<rparr>))"

definition xe_clear :: "execution_engine \<Rightarrow> execution_engine" where
  "xe_clear xe = xe\<lparr>xe_lifecycle := le_clear (xe_lifecycle xe)\<rparr>"

section \<open>Histories\<close>

datatype lifecycle_request =
    Req_enter enter_order_message
  | Req_replace replace_order_message
  | Req_cancel cancel_order_message
  | Req_execute u32 u32

fun lifecycle_step :: "lifecycle_request \<Rightarrow> lifecycle_engine \<Rightarrow> lifecycle_result \<times> lifecycle_engine" where
  "lifecycle_step (Req_enter m) le = le_enter m le"
| "lifecycle_step (Req_replace m) le = le_replace m le"
| "lifecycle_step (Req_cancel m) le = le_cancel m le"
| "lifecycle_step (Req_execute ref q) le = le_execute ref q le"

fun engine_step :: "lifecycle_request \<Rightarrow> execution_engine \<Rightarrow> execution_result \<times> execution_engine" where
  "engine_step (Req_enter m) xe = submit_enter m xe"
| "engine_step (Req_replace m) xe = submit_replace m xe"
| "engine_step (Req_cancel m) xe = submit_cancel m xe"
| "engine_step (Req_execute ref q) xe = xe_execute ref q xe"

text \<open>The results an engine gave since it was created, newest last, and the engine.\<close>

inductive lifecycle_run :: "lifecycle_result list \<Rightarrow> lifecycle_engine \<Rightarrow> bool" where
  lifecycle_start: "lifecycle_run [] new_lifecycle_engine"
| lifecycle_next: "lifecycle_run rs le \<Longrightarrow> lifecycle_step req le = (r, le') \<Longrightarrow> lifecycle_run (rs @ [r]) le'"

text \<open>
  What a result says about the quantity behind a reference number: how much it opened there, and how much it took
  away, by a fill, a cancel or a replacement.
\<close>

definition opened_quantity :: "u32 \<Rightarrow> lifecycle_result \<Rightarrow> nat" where
  "opened_quantity ref r =
     (if lr_status r \<in> {LS_accepted, LS_replaced} \<and> lr_user_ref_num r = ref then unat (lr_leaves_quantity r) else 0)"

definition closed_quantity :: "u32 \<Rightarrow> lifecycle_result \<Rightarrow> nat" where
  "closed_quantity ref r =
     (if lr_status r \<in> {LS_canceled, LS_partially_canceled, LS_filled, LS_partially_filled} \<and> lr_user_ref_num r = ref
        \<or> lr_status r = LS_replaced \<and> lr_previous_user_ref_num r = ref
      then unat (lr_decrement_quantity r) else 0)"

definition live_quantity :: "lifecycle_engine \<Rightarrow> u32 \<Rightarrow> nat" where
  "live_quantity le ref = (case le_find le ref of None \<Rightarrow> 0 | Some order \<Rightarrow> unat (lo_leaves_quantity order))"

definition opened_refs :: "lifecycle_result list \<Rightarrow> u32 list" where
  "opened_refs rs = map lr_user_ref_num (filter (\<lambda>r. lr_status r \<in> {LS_accepted, LS_replaced}) rs)"

text \<open>The invariant of an engine: what is known of every live order.\<close>

definition order_inv :: "u32 \<Rightarrow> u32 \<Rightarrow> live_order \<Rightarrow> bool" where
  "order_inv highest ref order \<longleftrightarrow>
     lo_user_ref_num order = ref \<and> 0 < ref \<and> ref \<le> highest
     \<and> 0 < lo_leaves_quantity order \<and> lo_leaves_quantity order \<le> lo_original_quantity order
     \<and> is_valid_enter_or_replace_quantity (lo_original_quantity order) \<and> ouch_is_valid_price4 (lo_price order)
     \<and> is_valid_fixed_ascii (lo_symbol order) \<and> is_valid_fixed_ascii (lo_cl_ord_id order)"

definition lifecycle_inv :: "lifecycle_engine \<Rightarrow> bool" where
  "lifecycle_inv le \<longleftrightarrow> finite (dom (le_live_orders le))
     \<and> (\<forall>ref order. le_live_orders le ref = Some order \<longrightarrow> order_inv (le_highest_user_ref_num le) ref order)"

section \<open>The contract of a step\<close>

text \<open>
  The specification of one request: it is refused and nothing changes; or a fresh order is opened; or a live order
  gives way to a fresh one; or a live order loses a positive part of its quantity, and is gone when none is left.
\<close>

definition reduce_live_order :: "u32 \<Rightarrow> u32 \<Rightarrow> live_order \<Rightarrow> (u32 \<rightharpoonup> live_order) \<Rightarrow> (u32 \<rightharpoonup> live_order)" where
  "reduce_live_order ref d order live =
     (if d = lo_leaves_quantity order then live(ref := None)
      else live(ref \<mapsto> order\<lparr>lo_leaves_quantity := lo_leaves_quantity order - d\<rparr>))"

inductive lifecycle_effect :: "lifecycle_engine \<Rightarrow> lifecycle_result \<Rightarrow> lifecycle_engine \<Rightarrow> bool" where
  effect_reject: "lr_status r = LS_rejected \<Longrightarrow> lr_reject_reason r \<noteq> LR_none \<Longrightarrow> lifecycle_effect le r le"
| effect_open: "lr_status r = LS_accepted \<Longrightarrow> lr_reject_reason r = LR_none \<Longrightarrow> le_highest_user_ref_num le < lr_user_ref_num r \<Longrightarrow>
    order_inv (lr_user_ref_num r) (lr_user_ref_num r) order \<Longrightarrow> lo_leaves_quantity order = lr_leaves_quantity r \<Longrightarrow>
    lifecycle_effect le r \<lparr>le_live_orders = (le_live_orders le)(lr_user_ref_num r \<mapsto> order),
      le_highest_user_ref_num = lr_user_ref_num r\<rparr>"
| effect_replace: "lr_status r = LS_replaced \<Longrightarrow> lr_reject_reason r = LR_none \<Longrightarrow> le_highest_user_ref_num le < lr_user_ref_num r \<Longrightarrow>
    le_live_orders le (lr_previous_user_ref_num r) = Some old \<Longrightarrow> lr_decrement_quantity r = lo_leaves_quantity old \<Longrightarrow>
    lr_previous_user_ref_num r \<noteq> lr_user_ref_num r \<Longrightarrow>
    (is_valid_fixed_ascii (lo_symbol old) \<Longrightarrow> order_inv (lr_user_ref_num r) (lr_user_ref_num r) order) \<Longrightarrow>
    lo_leaves_quantity order = lr_leaves_quantity r \<Longrightarrow>
    lifecycle_effect le r \<lparr>le_live_orders = (le_live_orders le)(lr_previous_user_ref_num r := None, lr_user_ref_num r \<mapsto> order),
      le_highest_user_ref_num = lr_user_ref_num r\<rparr>"
| effect_reduce: "lr_status r \<in> {LS_canceled, LS_partially_canceled, LS_filled, LS_partially_filled} \<Longrightarrow>
    lr_reject_reason r = LR_none \<Longrightarrow> le_live_orders le (lr_user_ref_num r) = Some order \<Longrightarrow>
    (0 < lo_leaves_quantity order \<Longrightarrow> 0 < lr_decrement_quantity r) \<Longrightarrow> lr_decrement_quantity r \<le> lo_leaves_quantity order \<Longrightarrow>
    lifecycle_effect le r (le\<lparr>le_live_orders :=
      reduce_live_order (lr_user_ref_num r) (lr_decrement_quantity r) order (le_live_orders le)\<rparr>)"

inductive_cases lifecycle_effectE: "lifecycle_effect le r le'"

lemma effect_le_enter: "le_enter m le = (r, le') \<Longrightarrow> lifecycle_effect le r le'"
proof (cases "lr_status r = LS_rejected")
  case True
  assume "le_enter m le = (r, le')"
  with True have "lr_reject_reason r \<noteq> LR_none" "le' = le"
    by (auto simp: le_enter_def lifecycle_reject_def split: if_splits)
  with True show ?thesis by (simp add: effect_reject)
next
  case False
  assume "le_enter m le = (r, le')"
  with False have *: "is_valid_enter_order_message m" "le_highest_user_ref_num le < eo_user_ref_num m"
    "r = \<lparr>lr_status = LS_accepted, lr_reject_reason = LR_none, lr_user_ref_num = eo_user_ref_num m,
       lr_previous_user_ref_num = 0, lr_decrement_quantity = 0, lr_leaves_quantity = eo_quantity m\<rparr>"
    "le' = \<lparr>le_live_orders = (le_live_orders le)(eo_user_ref_num m \<mapsto> make_live_order m),
       le_highest_user_ref_num = eo_user_ref_num m\<rparr>"
    by (auto simp: le_enter_def lifecycle_reject_def is_stale_user_ref_def remember_user_ref_def split: if_splits)
  have "order_inv (eo_user_ref_num m) (eo_user_ref_num m) (make_live_order m)"
    using *(1) by (auto simp: order_inv_def make_live_order_def is_valid_enter_order_message_def is_valid_user_ref_num_def
      is_valid_enter_or_replace_quantity_def)
  then show ?thesis
    using effect_open [of r le "make_live_order m"] *(2) unfolding *(3,4) by (simp add: make_live_order_def)
qed

lemma effect_le_replace:
  assumes "le_replace m le = (r, le')"
  shows "lifecycle_effect le r le'"
proof (cases "is_valid_replace_order_message m \<and> le_live_orders le (rpo_orig_user_ref_num m) \<noteq> None
    \<and> \<not> le_contains le (rpo_user_ref_num m) \<and> \<not> is_stale_user_ref le (rpo_user_ref_num m)")
  case True
  then obtain old where old: "le_live_orders le (rpo_orig_user_ref_num m) = Some old" by blast
  with True have valid: "is_valid_replace_order_message m" and fresh: "le_highest_user_ref_num le < rpo_user_ref_num m"
    by (auto simp: is_stale_user_ref_def)
  have r: "r = \<lparr>lr_status = LS_replaced, lr_reject_reason = LR_none, lr_user_ref_num = rpo_user_ref_num m,
       lr_previous_user_ref_num = rpo_orig_user_ref_num m, lr_decrement_quantity = lo_leaves_quantity old,
       lr_leaves_quantity = rpo_quantity m\<rparr>"
    and le': "le' = \<lparr>le_live_orders = (le_live_orders le)(rpo_orig_user_ref_num m := None,
         rpo_user_ref_num m \<mapsto> make_replacement old m), le_highest_user_ref_num = rpo_user_ref_num m\<rparr>"
    using assms True old fresh by (auto simp: le_replace_def remember_user_ref_def)
  have "is_valid_fixed_ascii (lo_symbol old) \<Longrightarrow> order_inv (rpo_user_ref_num m) (rpo_user_ref_num m) (make_replacement old m)"
    using valid by (simp add: order_inv_def make_replacement_def is_valid_replace_order_message_def is_valid_user_ref_num_def
      is_valid_enter_or_replace_quantity_def)
  moreover have "rpo_orig_user_ref_num m \<noteq> rpo_user_ref_num m" using valid by (simp add: is_valid_replace_order_message_def)
  ultimately show ?thesis
    using effect_replace [of r le old "make_replacement old m"] old fresh unfolding r le' by (simp add: make_replacement_def)
next
  case False
  then have "lr_status r = LS_rejected \<and> lr_reject_reason r \<noteq> LR_none \<and> le' = le"
    using assms by (auto simp: le_replace_def lifecycle_reject_def split: if_splits option.splits)
  then show ?thesis by (auto intro: effect_reject)
qed

lemma effect_le_cancel: 
  assumes "le_cancel m le = (r, le')"
  shows "lifecycle_effect le r le'"
proof (cases "is_valid_cancel_order_message m \<and> le_live_orders le (co_user_ref_num m) \<noteq> None")
  case True
  then obtain order where *: "is_valid_cancel_order_message m" "le_live_orders le (co_user_ref_num m) = Some order" by auto
  show ?thesis
  proof (cases "co_quantity m = 0 \<or> co_quantity m \<ge> lo_leaves_quantity order")
    case True
    with assms * show ?thesis
      using effect_reduce [of r le order] by (auto simp: le_cancel_def reduce_live_order_def)
  next
    case False
    then have "0 < co_quantity m" "co_quantity m < lo_leaves_quantity order"
      by (auto simp: word_gt_0 not_le)
    then have "co_quantity m \<le> lo_leaves_quantity order" "co_quantity m \<noteq> lo_leaves_quantity order" by auto
    with assms * False \<open>0 < co_quantity m\<close> show ?thesis
      using effect_reduce [of r le order] by (auto simp: le_cancel_def reduce_live_order_def Let_def)
  qed
next
  case False
  with assms show ?thesis
    using effect_reject [of r le] by (auto simp: le_cancel_def lifecycle_reject_def split: if_splits)
qed

lemma effect_le_execute:
  assumes "le_execute ref q le = (r, le')"
  shows "lifecycle_effect le r le'"
proof (cases "lr_status r = LS_rejected")
  case True
  with assms have "lr_reject_reason r \<noteq> LR_none" "le' = le"
    by (auto simp: le_execute_def lifecycle_reject_def Let_def split: if_splits option.splits)
  with True show ?thesis by (simp add: effect_reject)
next
  case False
  with assms obtain order where *: "0 < q" "le_live_orders le ref = Some order" "q \<le> lo_leaves_quantity order"
    by (auto simp: le_execute_def lifecycle_reject_def is_valid_enter_or_replace_quantity_def split: if_splits option.splits)
  with assms False show ?thesis
    using effect_reduce [of r le order]
    by (auto simp: le_execute_def lifecycle_reject_def reduce_live_order_def Let_def split: if_splits)
qed

lemma lifecycle_step_effect: "lifecycle_step req le = (r, le') \<Longrightarrow> lifecycle_effect le r le'"
  by (cases req) (simp_all add: effect_le_enter effect_le_replace effect_le_cancel effect_le_execute)

lemma order_inv_mono: "order_inv h ref order \<Longrightarrow> h \<le> h' \<Longrightarrow> order_inv h' ref order"
  by (auto simp: order_inv_def)

lemma order_inv_reduced:
  assumes "order_inv h ref order" "d \<le> lo_leaves_quantity order" "d \<noteq> lo_leaves_quantity order"
  shows "order_inv h ref (order\<lparr>lo_leaves_quantity := lo_leaves_quantity order - d\<rparr>)"
proof -
  have "unat (lo_leaves_quantity order - d) = unat (lo_leaves_quantity order) - unat d"
    using assms(2) by (simp add: unat_sub)
  moreover have "unat d < unat (lo_leaves_quantity order)"
    using assms(2,3) by (simp add: word_less_nat_alt [symmetric] order_le_less)
  ultimately show ?thesis using assms(1) by (auto simp: order_inv_def word_less_nat_alt word_le_nat_alt)
qed

lemma lifecycle_effect_inv:
  assumes "lifecycle_effect le r le'" "lifecycle_inv le"
  shows "lifecycle_inv le'"
  using assms(1)
proof cases
  case effect_reject
  with assms(2) show ?thesis by simp
next
  case (effect_open order)
  with assms(2) show ?thesis by (auto simp: lifecycle_inv_def intro: order_inv_mono [OF _ order.strict_implies_order])
next
  case (effect_replace old order)
  then have "is_valid_fixed_ascii (lo_symbol old)" using assms(2) by (auto simp: lifecycle_inv_def order_inv_def)
  with effect_replace assms(2) show ?thesis by (auto simp: lifecycle_inv_def intro: order_inv_mono [OF _ order.strict_implies_order])
next
  case (effect_reduce order)
  with assms(2) show ?thesis by (auto simp: lifecycle_inv_def reduce_live_order_def intro!: order_inv_reduced)
qed

lemma lifecycle_run_inv: "lifecycle_run rs le \<Longrightarrow> lifecycle_inv le"
proof (induction rule: lifecycle_run.induct)
  case lifecycle_start
  then show ?case by (simp add: lifecycle_inv_def new_lifecycle_engine_def)
next
  case (lifecycle_next rs le req r le')
  then show ?case using lifecycle_effect_inv lifecycle_step_effect by blast
qed

lemma fresh_ref_not_live:
  assumes "lifecycle_inv le" "le_highest_user_ref_num le < ref"
  shows "le_live_orders le ref = None"
proof (rule ccontr)
  assume "le_live_orders le ref \<noteq> None"
  with assms(1) have "ref \<le> le_highest_user_ref_num le" by (auto simp: lifecycle_inv_def order_inv_def)
  with assms(2) show False by simp
qed

lemma effect_conserves:
  assumes "lifecycle_effect le r le'" "lifecycle_inv le"
  shows "opened_quantity ref r + live_quantity le ref = closed_quantity ref r + live_quantity le' ref"
  using assms(1)
proof cases
  case effect_reject
  then show ?thesis by (simp add: opened_quantity_def closed_quantity_def)
next
  case (effect_open order)
  then show ?thesis
    using fresh_ref_not_live [OF assms(2)] by (simp add: opened_quantity_def closed_quantity_def live_quantity_def le_find_def)
next
  case (effect_replace old order)
  then show ?thesis
    using fresh_ref_not_live [OF assms(2), of "lr_user_ref_num r"]
    by (auto simp: opened_quantity_def closed_quantity_def live_quantity_def le_find_def)
next
  case (effect_reduce order)
  then show ?thesis
    by (auto simp: opened_quantity_def closed_quantity_def live_quantity_def le_find_def reduce_live_order_def unat_sub word_le_nat_alt)
qed

lemma effect_highest:
  assumes "lifecycle_effect le r le'"
  shows "le_highest_user_ref_num le' = (if lr_status r \<in> {LS_accepted, LS_replaced} then lr_user_ref_num r
      else le_highest_user_ref_num le)"
    and "lr_status r \<in> {LS_accepted, LS_replaced} \<Longrightarrow> le_highest_user_ref_num le < lr_user_ref_num r"
    and "dom (le_live_orders le') \<subseteq> dom (le_live_orders le)
      \<union> (if lr_status r \<in> {LS_accepted, LS_replaced} then {lr_user_ref_num r} else {})"
  using assms by (cases; auto simp: reduce_live_order_def split: if_splits)+

lemma lifecycle_run_refs:
  assumes "lifecycle_run rs le"
  shows "sorted_wrt (<) (opened_refs rs) \<and> (\<forall>ref \<in> set (opened_refs rs). ref \<le> le_highest_user_ref_num le)
    \<and> dom (le_live_orders le) \<subseteq> set (opened_refs rs)"
  using assms
proof (induction rule: lifecycle_run.induct)
  case (lifecycle_next rs le req r le')
  have "lifecycle_effect le r le'" using lifecycle_next by (simp add: lifecycle_step_effect)
  from effect_highest [OF this] lifecycle_next.IH show ?case
    by (auto simp: opened_refs_def sorted_wrt_append split: if_splits)
qed (simp add: new_lifecycle_engine_def opened_refs_def)

section \<open>Properties of the lifecycle engine\<close>

definition sample_cancel :: "u32 \<Rightarrow> cancel_order_message" where
  "sample_cancel q = \<lparr>co_user_ref_num = eo_user_ref_num sample_enter, co_quantity = q, co_optional_appendage = []\<rparr>"

text \<open>One order, partly filled: the history the witnesses below use.\<close>

definition sample_filled :: "lifecycle_result \<times> lifecycle_engine" where
  "sample_filled = le_execute (eo_user_ref_num sample_enter) 40 (snd (le_enter sample_enter new_lifecycle_engine))"

definition sample_history :: "lifecycle_result list" where
  "sample_history = [fst (le_enter sample_enter new_lifecycle_engine), fst sample_filled]"

lemma sample_run: "lifecycle_run sample_history (snd sample_filled)"
proof -
  have "lifecycle_run [fst (le_enter sample_enter new_lifecycle_engine)] (snd (le_enter sample_enter new_lifecycle_engine))"
    using lifecycle_next [OF lifecycle_start, of "Req_enter sample_enter"] by simp
  from lifecycle_next [OF this, of "Req_execute (eo_user_ref_num sample_enter) 40"]
  show ?thesis by (simp add: sample_history_def sample_filled_def)
qed

lemma sample_enter_valid: "is_valid_enter_order_message sample_enter"
  using sample_enter_ok(1) by simp

lemma sample_history_facts:
  "map lr_status sample_history = [LS_accepted, LS_partially_filled]" "map lr_user_ref_num sample_history = [7, 7]"
  "map lr_leaves_quantity sample_history = [100, 60]" "map lr_decrement_quantity sample_history = [0, 40]"
  using sample_enter_valid
  by (simp_all add: sample_history_def sample_filled_def le_enter_def le_execute_def new_lifecycle_engine_def le_contains_def
    is_stale_user_ref_def remember_user_ref_def make_live_order_def is_valid_enter_or_replace_quantity_def Let_def)
     (simp_all add: sample_enter_def)

text \<open>
  Every request meets the contract of a step: a refused request names its reason and changes nothing; an
  accepted enter opens a valid order under a number above every earlier one; a replacement closes the live order it
  names and opens a fresh one; a cancel or a fill takes a positive part of a live order's quantity and removes the
  order exactly when nothing is left.\<close>

theorem lifecycle_meets_contract:
  "lifecycle_effect le (fst (lifecycle_step req le)) (snd (lifecycle_step req le))"
  by (rule lifecycle_step_effect) simp

text \<open>
  C9: Conservation of quantity. After any history, for every reference number: the quantity opened under it is the
  quantity taken away by fills, cancels and replacements plus the quantity still live.\<close>

theorem quantity_conserved:
  assumes "lifecycle_run rs le"
  shows "sum_list (map (opened_quantity ref) rs) = sum_list (map (closed_quantity ref) rs) + live_quantity le ref"
  using assms
proof (induction rule: lifecycle_run.induct)
  case (lifecycle_next rs le req r le')
  have "lifecycle_effect le r le'" using lifecycle_next by (simp add: lifecycle_step_effect)
  from effect_conserves [OF this lifecycle_run_inv, of rs ref] lifecycle_next show ?case by simp
qed (simp add: new_lifecycle_engine_def live_quantity_def le_find_def)

theorem quantity_conserved_witness:
  "sum_list (map (opened_quantity (eo_user_ref_num sample_enter)) sample_history)
   = sum_list (map (closed_quantity (eo_user_ref_num sample_enter)) sample_history)
     + live_quantity (snd sample_filled) (eo_user_ref_num sample_enter)
   \<and> sum_list (map (closed_quantity (eo_user_ref_num sample_enter)) sample_history) = 40"
  using quantity_conserved [OF sample_run, of "eo_user_ref_num sample_enter"] sample_history_facts
  by (auto simp: sample_history_def closed_quantity_def sample_enter_def)

text \<open>
  Reference numbers are used once: over any history the numbers of accepted orders and replacements strictly
  increase, none exceeds the recorded highest number, and every live order carries one of them.\<close>

theorem user_refs_strictly_increase:
  assumes "lifecycle_run rs le"
  shows "sorted_wrt (<) (opened_refs rs) \<and> (\<forall>ref \<in> set (opened_refs rs). ref \<le> le_highest_user_ref_num le)
    \<and> {ref. le_contains le ref} \<subseteq> set (opened_refs rs)"
  using lifecycle_run_refs [OF assms] by (auto simp: le_contains_def dom_def)

theorem user_refs_strictly_increase_witness:
  "sorted_wrt (<) (opened_refs sample_history) \<and> opened_refs sample_history = [eo_user_ref_num sample_enter]"
  using user_refs_strictly_increase [OF sample_run] sample_history_facts
  by (auto simp: sample_history_def opened_refs_def sample_enter_def)

text \<open>
  In every engine that any history leads to, the live orders are finitely many, each is stored under its own
  positive reference number, has a valid price, symbol and client id, and its open quantity is positive and at most
  its original quantity, which is below one million.\<close>

theorem live_orders_valid:
  assumes "lifecycle_run rs le"
  shows "lifecycle_inv le"
  by (rule lifecycle_run_inv [OF assms])

theorem live_orders_valid_witness: "lifecycle_inv (snd sample_filled)"
  by (rule live_orders_valid [OF sample_run])

section \<open>The risk check in front\<close>

text \<open>
  Every request the engine lets through is one the lifecycle engine handled; a request it stops leaves it as it was.
\<close>

lemma risk_decision_not_rejected: "d \<noteq> RD_rejected \<longleftrightarrow> d = RD_accepted"
  by (cases d) simp_all

lemma engine_step_effect:
  assumes "engine_step req xe = (r, xe')"
  shows "xe' = xe \<or> (\<exists>lr. lifecycle_step req (xe_lifecycle xe) = (lr, xe_lifecycle xe') \<and> xe_risk xe' = xe_risk xe
    \<and> (case req of
         Req_enter m \<Rightarrow> rr_decision (check_enter (xe_risk xe) m) = RD_accepted
       | Req_replace m \<Rightarrow> (\<forall>order. le_find (xe_lifecycle xe) (rpo_orig_user_ref_num m) = Some order \<longrightarrow>
           rr_decision (check_replace (xe_risk xe) m (lo_symbol order)) = RD_accepted)
       | Req_cancel m \<Rightarrow> rr_decision (check_cancel (xe_risk xe) m) = RD_accepted
       | Req_execute ref q \<Rightarrow> True))"
proof (cases req)
  case (Req_enter m)
  with assms show ?thesis
    by (cases "rr_decision (check_enter (xe_risk xe) m)") (auto simp: submit_enter_def Let_def split: prod.splits)
next
  case (Req_replace m)
  with assms show ?thesis
    by (auto simp: submit_replace_def Let_def risk_decision_not_rejected
      split: prod.splits option.splits if_splits)
next
  case (Req_cancel m)
  with assms show ?thesis
    by (cases "rr_decision (check_cancel (xe_risk xe) m)") (auto simp: submit_cancel_def Let_def split: prod.splits)
next
  case (Req_execute ref q)
  with assms show ?thesis by (auto simp: xe_execute_def split: prod.splits)
qed

text \<open>
  A history of the simulated exchange. The supervisor may be reconfigured at any moment (\<^verbatim>\<open>risk()\<close> hands out a
  reference to it), within the bounds \<open>bound\<close>.
\<close>

definition limits_within :: "risk_limits \<Rightarrow> risk_limits \<Rightarrow> bool" where
  "limits_within limits bound \<longleftrightarrow> rl_max_order_quantity limits \<le> rl_max_order_quantity bound
     \<and> rl_max_order_notional limits \<le> rl_max_order_notional bound"

inductive engine_run :: "risk_limits \<Rightarrow> execution_engine \<Rightarrow> bool" for bound where
  engine_start: "limits_within (rs_limits rs) bound \<Longrightarrow> engine_run bound (make_execution_engine rs)"
| engine_request: "engine_run bound xe \<Longrightarrow> engine_step req xe = (r, xe') \<Longrightarrow> engine_run bound xe'"
| engine_configure: "engine_run bound xe \<Longrightarrow> limits_within (rs_limits rs) bound \<Longrightarrow> engine_run bound (xe\<lparr>xe_risk := rs\<rparr>)"
| engine_clear: "engine_run bound xe \<Longrightarrow> engine_run bound (xe_clear xe)"

definition order_within :: "risk_limits \<Rightarrow> live_order \<Rightarrow> bool" where
  "order_within bound order \<longleftrightarrow> unat (lo_original_quantity order) \<le> unat (rl_max_order_quantity bound)
     \<and> unat (lo_original_quantity order) * unat (lo_price order) \<le> unat (rl_max_order_notional bound)"

definition engine_inv :: "risk_limits \<Rightarrow> execution_engine \<Rightarrow> bool" where
  "engine_inv bound xe \<longleftrightarrow> lifecycle_inv (xe_lifecycle xe) \<and> limits_within (rs_limits (xe_risk xe)) bound
     \<and> (\<forall>ref order. le_find (xe_lifecycle xe) ref = Some order \<longrightarrow> order_within bound order)"

lemma within_limits_order:
  assumes "within_limits (rl_max_order_quantity limits) (rl_max_order_notional limits) q p" "limits_within limits bound"
    "lo_original_quantity order = q" "lo_price order = p"
  shows "order_within bound order"
  using assms by (auto simp: within_limits_def limits_within_def order_within_def word_le_nat_alt)

lemma lifecycle_step_orders:
  assumes "lifecycle_step req le = (lr, le')" "le_live_orders le' ref = Some order"
  shows "(\<exists>old. le_live_orders le ref = Some old \<and> lo_original_quantity order = lo_original_quantity old
            \<and> lo_price order = lo_price old)
    \<or> (\<exists>m. req = Req_enter m \<and> order = make_live_order m)
    \<or> (\<exists>m old. req = Req_replace m \<and> le_live_orders le (rpo_orig_user_ref_num m) = Some old \<and> order = make_replacement old m)"
proof (cases req)
  case (Req_enter m)
  with assms show ?thesis by (auto simp: le_enter_def remember_user_ref_def split: if_splits)
next
  case (Req_replace m)
  show ?thesis
  proof (cases "le_live_orders le (rpo_orig_user_ref_num m)")
    case None
    with Req_replace assms show ?thesis by (auto simp: le_replace_def split: if_splits)
  next
    case (Some old)
    with Req_replace assms show ?thesis by (auto simp: le_replace_def remember_user_ref_def split: if_splits)
  qed
next
  case (Req_cancel m)
  with assms show ?thesis by (auto simp: le_cancel_def Let_def split: if_splits option.splits)
next
  case (Req_execute r q)
  with assms show ?thesis by (auto simp: le_execute_def Let_def split: if_splits option.splits)
qed

lemma engine_step_inv:
  assumes "engine_step req xe = (r, xe')" "engine_inv bound xe"
  shows "engine_inv bound xe'"
proof (cases "xe' = xe")
  case False
  with engine_step_effect [OF assms(1)] obtain lr where
    lr: "lifecycle_step req (xe_lifecycle xe) = (lr, xe_lifecycle xe')" "xe_risk xe' = xe_risk xe" and
    ok: "\<And>m. req = Req_enter m \<Longrightarrow> rr_decision (check_enter (xe_risk xe) m) = RD_accepted"
      "\<And>m order. req = Req_replace m \<Longrightarrow> le_find (xe_lifecycle xe) (rpo_orig_user_ref_num m) = Some order \<Longrightarrow>
         rr_decision (check_replace (xe_risk xe) m (lo_symbol order)) = RD_accepted"
    by (cases req) auto
  have lim: "limits_within (rs_limits (xe_risk xe)) bound" using assms(2) by (simp add: engine_inv_def)
  have "order_within bound order" if "le_live_orders (xe_lifecycle xe') ref = Some order" for ref order
    using lifecycle_step_orders [OF lr(1) that]
  proof (elim disjE exE conjE)
    fix old assume "le_live_orders (xe_lifecycle xe) ref = Some old" "lo_original_quantity order = lo_original_quantity old"
      "lo_price order = lo_price old"
    then show ?thesis using assms(2) by (auto simp: engine_inv_def order_within_def le_find_def)
  next
    fix m assume "req = Req_enter m" "order = make_live_order m"
    then show ?thesis using ok(1) lim
      by (auto simp: check_enter_def check_common_accepted make_live_order_def intro!: within_limits_order)
  next
    fix m old assume "req = Req_replace m" "le_live_orders (xe_lifecycle xe) (rpo_orig_user_ref_num m) = Some old"
      "order = make_replacement old m"
    then show ?thesis using ok(2) lim
      by (auto simp: check_replace_def check_common_accepted make_replacement_def le_find_def intro!: within_limits_order)
  qed
  moreover have "lifecycle_inv (xe_lifecycle xe')"
    using assms(2) lifecycle_effect_inv [OF lifecycle_step_effect [OF lr(1)]] by (simp add: engine_inv_def)
  ultimately show ?thesis using lr(2) lim by (auto simp: engine_inv_def le_find_def)
qed (use assms(2) in simp)

lemma engine_run_inv: "engine_run bound xe \<Longrightarrow> engine_inv bound xe"
proof (induction rule: engine_run.induct)
  case (engine_start rs)
  then show ?case
    by (simp add: engine_inv_def make_execution_engine_def lifecycle_inv_def new_lifecycle_engine_def le_find_def)
next
  case (engine_request xe req r xe')
  then show ?case using engine_step_inv by blast
next
  case (engine_configure xe rs)
  then show ?case by (simp add: engine_inv_def)
next
  case (engine_clear xe)
  then show ?case by (simp add: engine_inv_def xe_clear_def le_clear_def lifecycle_inv_def le_find_def)
qed

lemma risk_stopped:
  assumes "rs_global_halted rs \<or> rs_cancel_only rs"
  shows "rr_decision (check_common_order_risk rs ref q p symbol) = RD_rejected"
  using assms by (auto simp: check_common_order_risk_def risk_reject_def)

section \<open>Properties of the simulated exchange\<close>

definition sample_engine :: execution_engine where
  "sample_engine = snd (submit_enter sample_enter (make_execution_engine sample_risk))"

lemma sample_engine_run: "engine_run default_risk_limits sample_engine"
proof -
  have "limits_within (rs_limits sample_risk) default_risk_limits"
    by (simp add: sample_risk_def rs_disable_symbol_def make_risk_supervisor_def limits_within_def)
  from engine_request [OF engine_start [OF this], of "Req_enter sample_enter"] show ?thesis
    unfolding sample_engine_def by (metis engine_step.simps(1) prod.collapse)
qed

lemma sample_risk_accepts: "rr_decision (check_enter sample_risk sample_enter) = RD_accepted"
  by (simp add: check_enter_def check_common_accepted sample_risk_def sample_enter_def make_risk_supervisor_def
    default_risk_limits_def rs_disable_symbol_def rs_is_symbol_enabled_def within_limits_def)

lemma sample_engine_live: "le_find (xe_lifecycle sample_engine) 7 = Some (make_live_order sample_enter)"
  using sample_enter_valid sample_risk_accepts
  by (simp add: sample_engine_def submit_enter_def make_execution_engine_def le_enter_def new_lifecycle_engine_def
    le_contains_def is_stale_user_ref_def remember_user_ref_def le_find_def)
     (simp add: sample_enter_def)

text \<open>
  C11: No live order ever exceeds the risk limits. However requests, reconfigurations of the supervisor and clears
  are interleaved, if the limits in force always stayed within \<open>bound\<close>, then every live order, entered or
  replaced, has an original quantity within the quantity bound and a quantity times price within the notional
  bound, as exact numbers; and every live order is valid.\<close>

theorem live_orders_within_limits:
  assumes "engine_run bound xe" "le_find (xe_lifecycle xe) ref = Some order"
  shows "unat (lo_original_quantity order) \<le> unat (rl_max_order_quantity bound)
    \<and> unat (lo_original_quantity order) * unat (lo_price order) \<le> unat (rl_max_order_notional bound)
    \<and> order_inv (le_highest_user_ref_num (xe_lifecycle xe)) ref order"
  using engine_run_inv [OF assms(1)] assms(2)
  by (auto simp: engine_inv_def order_within_def lifecycle_inv_def le_find_def)

theorem live_orders_within_limits_witness:
  "unat (lo_original_quantity (make_live_order sample_enter)) * unat (lo_price (make_live_order sample_enter))
     \<le> unat (rl_max_order_notional default_risk_limits)
   \<and> le_find (xe_lifecycle sample_engine) 7 = Some (make_live_order sample_enter)"
  using live_orders_within_limits [OF sample_engine_run sample_engine_live] sample_engine_live by simp

text \<open>
  C12: Exactly which orders the exchange accepts, in every state it can reach: trading is neither halted nor in
  cancel-only mode, the symbol is enabled, quantity, price and notional are within the limits, the texts are
  printable, the appendage fits, and the reference number is above every earlier one. An accepted order is added
  to the live orders and to nothing else; a refused one changes nothing.\<close>

theorem submit_enter_exact:
  assumes "engine_run bound xe" "submit_enter m xe = (r, xe')"
  shows "(er_decision r = ED_accepted \<longleftrightarrow>
       \<not> rs_global_halted (xe_risk xe) \<and> \<not> rs_cancel_only (xe_risk xe) \<and> rs_is_symbol_enabled (xe_risk xe) (eo_symbol m)
       \<and> within_limits (rl_max_order_quantity (rs_limits (xe_risk xe))) (rl_max_order_notional (rs_limits (xe_risk xe)))
           (eo_quantity m) (eo_price m)
       \<and> is_valid_fixed_ascii (eo_symbol m) \<and> is_valid_fixed_ascii (eo_cl_ord_id m)
       \<and> length (eo_optional_appendage m) \<le> 65535
       \<and> le_highest_user_ref_num (xe_lifecycle xe) < eo_user_ref_num m)
    \<and> xe' = (if er_decision r = ED_accepted
        then xe\<lparr>xe_lifecycle := \<lparr>le_live_orders = (le_live_orders (xe_lifecycle xe))(eo_user_ref_num m \<mapsto> make_live_order m),
           le_highest_user_ref_num = eo_user_ref_num m\<rparr>\<rparr>
        else xe)"
proof (cases "rr_decision (check_enter (xe_risk xe) m) = RD_accepted")
  case risk: True
  have inv: "lifecycle_inv (xe_lifecycle xe)" using engine_run_inv [OF assms(1)] by (simp add: engine_inv_def)
  show ?thesis
  proof (cases "is_valid_enter_order_message m \<and> le_highest_user_ref_num (xe_lifecycle xe) < eo_user_ref_num m")
    case True
    then have "le_live_orders (xe_lifecycle xe) (eo_user_ref_num m) = None"
      "\<not> eo_user_ref_num m \<le> le_highest_user_ref_num (xe_lifecycle xe)" using fresh_ref_not_live [OF inv] by auto
    with True risk assms(2) have "er_decision r = ED_accepted"
      "xe' = xe\<lparr>xe_lifecycle := \<lparr>le_live_orders = (le_live_orders (xe_lifecycle xe))(eo_user_ref_num m \<mapsto> make_live_order m),
         le_highest_user_ref_num = eo_user_ref_num m\<rparr>\<rparr>"
      by (auto simp: submit_enter_def le_enter_def le_contains_def is_stale_user_ref_def remember_user_ref_def
        from_lifecycle_def lr_accepted_def Let_def)
    with True risk show ?thesis
      by (simp add: check_enter_def check_common_accepted is_valid_enter_order_message_def appendage_length_fits_def)
  next
    case False
    then have *: "er_decision r = ED_rejected" "xe' = xe"
      using risk assms(2) by (auto simp: submit_enter_def le_enter_def is_stale_user_ref_def
        from_lifecycle_def lr_accepted_def lifecycle_reject_def not_less split: if_splits)
    have "is_valid_user_ref_num (eo_user_ref_num m)" if "le_highest_user_ref_num (xe_lifecycle xe) < eo_user_ref_num m"
      using that by (auto simp: is_valid_user_ref_num_def word_gt_0)
    with False risk have "\<not> (is_valid_fixed_ascii (eo_symbol m) \<and> is_valid_fixed_ascii (eo_cl_ord_id m)
       \<and> length (eo_optional_appendage m) \<le> 65535 \<and> le_highest_user_ref_num (xe_lifecycle xe) < eo_user_ref_num m)"
      by (auto simp: is_valid_enter_order_message_def check_enter_def check_common_accepted within_limits_def
        order_field_iff appendage_length_fits_def)
    with * show ?thesis by auto
  qed
next
  case False
  then have "rr_decision (check_enter (xe_risk xe) m) = RD_rejected"
    by (cases "rr_decision (check_enter (xe_risk xe) m)") auto
  with assms(2) have "er_decision r = ED_rejected" "xe' = xe"
    by (auto simp: submit_enter_def from_risk_reject_def Let_def)
  with False show ?thesis by (auto simp: check_enter_def check_common_accepted)
qed

theorem submit_enter_exact_witness:
  "er_decision (fst (submit_enter (sample_enter\<lparr>eo_user_ref_num := 7\<rparr>) sample_engine)) = ED_rejected"
proof -
  have "le_highest_user_ref_num (xe_lifecycle sample_engine) = 7"
    using sample_enter_valid sample_risk_accepts
    by (simp add: sample_engine_def submit_enter_def make_execution_engine_def le_enter_def new_lifecycle_engine_def
      le_contains_def is_stale_user_ref_def remember_user_ref_def) (simp add: sample_enter_def)
  then show ?thesis
    using submit_enter_exact [OF sample_engine_run, of "sample_enter\<lparr>eo_user_ref_num := 7\<rparr>"
      "fst (submit_enter (sample_enter\<lparr>eo_user_ref_num := 7\<rparr>) sample_engine)"
      "snd (submit_enter (sample_enter\<lparr>eo_user_ref_num := 7\<rparr>) sample_engine)"]
    by (cases "er_decision (fst (submit_enter (sample_enter\<lparr>eo_user_ref_num := 7\<rparr>) sample_engine))") auto
qed

text \<open>
  A halt stops every client request: no enter, replace or cancel is accepted and none changes the engine. In
  cancel-only mode no enter and no replace is accepted, but every well-formed cancel of a live order still is.\<close>

theorem halt_stops_requests:
  assumes "\<forall>ref q. req \<noteq> Req_execute ref q" "engine_step req xe = (r, xe')"
  shows "(rs_global_halted (xe_risk xe) \<longrightarrow> er_decision r = ED_rejected \<and> xe' = xe)
    \<and> (rs_cancel_only (xe_risk xe) \<and> (\<forall>m. req \<noteq> Req_cancel m) \<longrightarrow> er_decision r = ED_rejected \<and> xe' = xe)
    \<and> (\<not> rs_global_halted (xe_risk xe) \<longrightarrow> (\<forall>m. req = Req_cancel m \<and> is_valid_cancel_order_message m
         \<and> le_contains (xe_lifecycle xe) (co_user_ref_num m) \<longrightarrow> er_decision r = ED_accepted))"
proof (cases req)
  case (Req_enter m)
  with assms show ?thesis using risk_stopped [of "xe_risk xe"]
    by (auto simp: submit_enter_def check_enter_def from_risk_reject_def Let_def)
next
  case (Req_replace m)
  show ?thesis
  proof (cases "le_find (xe_lifecycle xe) (rpo_orig_user_ref_num m)")
    case None
    with Req_replace assms show ?thesis
      by (auto simp: submit_replace_def le_replace_def le_find_def from_lifecycle_def lr_accepted_def lifecycle_reject_def
        split: if_splits)
  next
    case (Some order)
    with Req_replace assms show ?thesis using risk_stopped [of "xe_risk xe"]
      by (auto simp: submit_replace_def check_replace_def from_risk_reject_def Let_def)
  qed
next
  case (Req_cancel m)
  have "le_contains (xe_lifecycle xe) (co_user_ref_num m) \<Longrightarrow> is_valid_cancel_order_message m \<Longrightarrow>
      lr_accepted (fst (le_cancel m (xe_lifecycle xe)))"
    by (auto simp: le_cancel_def le_contains_def lr_accepted_def Let_def split: if_splits)
  with Req_cancel assms show ?thesis
    by (auto simp: submit_cancel_def check_cancel_def risk_reject_def risk_accept_def from_risk_reject_def
      is_valid_cancel_order_message_def from_lifecycle_def Let_def split: if_splits prod.splits)
qed (use assms in simp)

theorem halt_stops_requests_witness:
  "er_decision (fst (engine_step (Req_cancel (sample_cancel 0)) (sample_engine\<lparr>xe_risk := rs_set_global_halted True sample_risk\<rparr>)))
     = ED_rejected"
  using halt_stops_requests [of "Req_cancel (sample_cancel 0)" "sample_engine\<lparr>xe_risk := rs_set_global_halted True sample_risk\<rparr>"]
  by (cases "engine_step (Req_cancel (sample_cancel 0)) (sample_engine\<lparr>xe_risk := rs_set_global_halted True sample_risk\<rparr>)")
     (simp add: rs_set_global_halted_def)

text \<open>
  A cancel takes its quantity off the order: of a live order with \<open>L\<close> shares left, a cancel for \<open>0 < q < L\<close> shares
  leaves \<open>L - q\<close>, reports the decrement \<open>q\<close> and touches no other order, and any other valid cancel removes the order,
  even when \<open>q\<close> equals what is left. Read as the new intended size of the order, which is what the comment on
  \<^verbatim>\<open>CancelOrderCommand\<close> in \<^verbatim>\<open>core/order_event.hpp\<close> gives as the meaning of the field, the quantity would leave \<open>q\<close>; the two
  readings of a partial cancel agree only for \<open>L = 2 q\<close>.\<close>

theorem cancel_decrements:
  assumes "le_live_orders le (co_user_ref_num m) = Some order" "is_valid_cancel_order_message m"
    and "le_cancel m le = (r, le')"
  shows "(\<forall>ref. ref \<noteq> co_user_ref_num m \<longrightarrow> le_live_orders le' ref = le_live_orders le ref)
    \<and> (if 0 < co_quantity m \<and> co_quantity m < lo_leaves_quantity order
       then le_live_orders le' (co_user_ref_num m) = Some (order\<lparr>lo_leaves_quantity := lr_leaves_quantity r\<rparr>)
         \<and> lr_decrement_quantity r = co_quantity m
         \<and> unat (lr_leaves_quantity r) = unat (lo_leaves_quantity order) - unat (co_quantity m)
         \<and> (lr_leaves_quantity r = co_quantity m \<longleftrightarrow> unat (lo_leaves_quantity order) = 2 * unat (co_quantity m))
       else le_live_orders le' (co_user_ref_num m) = None \<and> lr_decrement_quantity r = lo_leaves_quantity order
         \<and> lr_leaves_quantity r = 0)"
proof (cases "0 < co_quantity m \<and> co_quantity m < lo_leaves_quantity order")
  case True
  let ?L = "lo_leaves_quantity order" and ?q = "co_quantity m"
  have sub: "unat (?L - ?q) = unat ?L - unat ?q" using True by (intro unat_sub) auto
  have lt: "unat ?q < unat ?L" using True by (simp add: word_less_nat_alt)
  have same: "?L - ?q = ?q \<longleftrightarrow> unat ?L = 2 * unat ?q"
    unfolding word_unat_eq_iff [of "?L - ?q"] sub using lt by arith
  have "?q \<noteq> 0" "\<not> ?L \<le> ?q" using True by auto
  then have "r = \<lparr>lr_status = LS_partially_canceled, lr_reject_reason = LR_none, lr_user_ref_num = co_user_ref_num m,
        lr_previous_user_ref_num = 0, lr_decrement_quantity = ?q, lr_leaves_quantity = ?L - ?q\<rparr>"
    "le' = le\<lparr>le_live_orders := (le_live_orders le)(co_user_ref_num m \<mapsto> order\<lparr>lo_leaves_quantity := ?L - ?q\<rparr>)\<rparr>"
    using assms by (simp_all add: le_cancel_def Let_def)
  with True sub same show ?thesis by simp
next
  case False
  then have "co_quantity m = 0 \<or> lo_leaves_quantity order \<le> co_quantity m" by (metis word_gt_0 not_le)
  with False assms show ?thesis by (auto simp: le_cancel_def Let_def)
qed

theorem cancel_decrements_witness:
  "unat (lr_leaves_quantity (fst (le_cancel (sample_cancel 30) (snd (le_enter sample_enter new_lifecycle_engine))))) = 70"
proof -
  have "le_live_orders (snd (le_enter sample_enter new_lifecycle_engine)) (co_user_ref_num (sample_cancel 30))
      = Some (make_live_order sample_enter)"
    using sample_enter_valid by (simp add: le_enter_def le_contains_def is_stale_user_ref_def new_lifecycle_engine_def
      remember_user_ref_def sample_cancel_def sample_enter_def)
  moreover have "is_valid_cancel_order_message (sample_cancel 30)"
    by (simp add: is_valid_cancel_order_message_def is_valid_user_ref_num_def is_valid_cancel_quantity_def
      appendage_length_fits_def sample_cancel_def sample_enter_def)
  ultimately show ?thesis
    using cancel_decrements [of "snd (le_enter sample_enter new_lifecycle_engine)" "sample_cancel 30"
      "make_live_order sample_enter", OF _ _ prod.collapse [symmetric]]
    by (simp add: sample_cancel_def make_live_order_def sample_enter_def)
qed

end
