(* ===== verification/Guardrail.thy ===== *)
theory Guardrail
  imports Risk
begin

text \<open>
  The gate's guardrails: \<^verbatim>\<open>src/gate/guardrail_state.cpp\<close> decides on an order,
  \<^verbatim>\<open>src/gate/guardrail_control.cpp\<close> stages updates and applies them in order. Counters of
  \<^verbatim>\<open>std::size_t\<close> are natural numbers; sequence numbers are 64-bit words and wrap.
\<close>

section \<open>The guardrail state\<close>

datatype guardrail_order_kind = GK_enter | GK_replace | GK_cancel

datatype guardrail_decision = GD_allowed | GD_rejected

datatype guardrail_reject_reason =
    GR_none | GR_global_halt | GR_cancel_only | GR_symbol_missing | GR_symbol_disabled
  | GR_invalid_quantity | GR_invalid_price | GR_max_order_quantity | GR_max_order_notional

record guardrail_limits =
  gl_max_order_quantity :: u32
  gl_max_order_notional :: u64

record guardrail_order =
  go_kind :: guardrail_order_kind
  go_user_ref_num :: u32
  go_symbol :: ouch_symbol
  go_has_symbol :: bool
  go_quantity :: u32
  go_price :: u64

record guardrail_result =
  gres_decision :: guardrail_decision
  gres_reject_reason :: guardrail_reject_reason
  gres_kind :: guardrail_order_kind
  gres_user_ref_num :: u32
  gres_quantity :: u32
  gres_price :: u64
  gres_notional :: u64

record guardrail_state =
  gs_limits :: guardrail_limits
  gs_global_halted :: bool
  gs_cancel_only :: bool
  gs_default_symbol_enabled :: bool
  gs_enabled_symbols :: "ouch_symbol set"
  gs_disabled_symbols :: "ouch_symbol set"

definition default_guardrail_limits :: guardrail_limits where
  "default_guardrail_limits = \<lparr>gl_max_order_quantity = 100000, gl_max_order_notional = 1000000000000\<rparr>"

definition make_guardrail_state :: "guardrail_limits \<Rightarrow> guardrail_state" where
  "make_guardrail_state limits = \<lparr>gs_limits = limits, gs_global_halted = False, gs_cancel_only = False,
     gs_default_symbol_enabled = True, gs_enabled_symbols = {}, gs_disabled_symbols = {}\<rparr>"

definition gs_set_limits :: "guardrail_limits \<Rightarrow> guardrail_state \<Rightarrow> guardrail_state" where
  "gs_set_limits limits gs = gs\<lparr>gs_limits := limits\<rparr>"

definition gs_set_global_halted :: "bool \<Rightarrow> guardrail_state \<Rightarrow> guardrail_state" where
  "gs_set_global_halted halted gs = gs\<lparr>gs_global_halted := halted\<rparr>"

definition gs_set_cancel_only :: "bool \<Rightarrow> guardrail_state \<Rightarrow> guardrail_state" where
  "gs_set_cancel_only enabled gs = gs\<lparr>gs_cancel_only := enabled\<rparr>"

definition gs_set_default_symbol_enabled :: "bool \<Rightarrow> guardrail_state \<Rightarrow> guardrail_state" where
  "gs_set_default_symbol_enabled enabled gs = gs\<lparr>gs_default_symbol_enabled := enabled\<rparr>"

definition gs_enable_symbol :: "ouch_symbol \<Rightarrow> guardrail_state \<Rightarrow> guardrail_state" where
  "gs_enable_symbol s gs = gs\<lparr>gs_disabled_symbols := gs_disabled_symbols gs - {s},
     gs_enabled_symbols := insert s (gs_enabled_symbols gs)\<rparr>"

definition gs_disable_symbol :: "ouch_symbol \<Rightarrow> guardrail_state \<Rightarrow> guardrail_state" where
  "gs_disable_symbol s gs = gs\<lparr>gs_enabled_symbols := gs_enabled_symbols gs - {s},
     gs_disabled_symbols := insert s (gs_disabled_symbols gs)\<rparr>"

definition gs_clear_symbol_overrides :: "guardrail_state \<Rightarrow> guardrail_state" where
  "gs_clear_symbol_overrides gs = gs\<lparr>gs_enabled_symbols := {}, gs_disabled_symbols := {}\<rparr>"

definition gs_is_symbol_enabled :: "guardrail_state \<Rightarrow> ouch_symbol \<Rightarrow> bool" where
  "gs_is_symbol_enabled gs s =
     (if s \<in> gs_disabled_symbols gs then False
      else if s \<in> gs_enabled_symbols gs then True
      else gs_default_symbol_enabled gs)"

definition guardrail_symbol_hash :: "ouch_symbol \<Rightarrow> u64" where
  "guardrail_symbol_hash s = foldl (\<lambda>hash c. (hash * 131) XOR ucast (byte_of_char c)) 0 s"

definition guardrail_allow :: "guardrail_order \<Rightarrow> u64 \<Rightarrow> guardrail_result" where
  "guardrail_allow order notional =
     \<lparr>gres_decision = GD_allowed, gres_reject_reason = GR_none, gres_kind = go_kind order,
      gres_user_ref_num = go_user_ref_num order, gres_quantity = go_quantity order,
      gres_price = go_price order, gres_notional = notional\<rparr>"

definition guardrail_reject :: "guardrail_order \<Rightarrow> guardrail_reject_reason \<Rightarrow> u64 \<Rightarrow> guardrail_result" where
  "guardrail_reject order reason notional =
     \<lparr>gres_decision = GD_rejected, gres_reject_reason = reason, gres_kind = go_kind order,
      gres_user_ref_num = go_user_ref_num order, gres_quantity = go_quantity order,
      gres_price = go_price order, gres_notional = notional\<rparr>"

definition requires_symbol :: "guardrail_order_kind \<Rightarrow> bool" where
  "requires_symbol kind \<longleftrightarrow> kind = GK_enter \<or> kind = GK_replace"

definition is_cancel :: "guardrail_order_kind \<Rightarrow> bool" where
  "is_cancel kind \<longleftrightarrow> kind = GK_cancel"

definition guardrail_calculate_notional :: "u32 \<Rightarrow> u64 \<Rightarrow> u64" where
  "guardrail_calculate_notional quantity price =
     (if quantity = 0 \<or> price = 0 then 0
      else if price > max_notional div ucast quantity then max_notional
      else price * ucast quantity)"

definition gs_exceeds_notional_limit :: "guardrail_state \<Rightarrow> u32 \<Rightarrow> u64 \<Rightarrow> bool" where
  "gs_exceeds_notional_limit gs quantity price =
     (if quantity = 0 \<or> price = 0 then False
      else if price > max_notional div ucast quantity then True
      else guardrail_calculate_notional quantity price > gl_max_order_notional (gs_limits gs))"

definition guardrail_check :: "guardrail_state \<Rightarrow> guardrail_order \<Rightarrow> guardrail_result" where
  "guardrail_check gs order =
     (if gs_global_halted gs then guardrail_reject order GR_global_halt 0
      else if gs_cancel_only gs \<and> \<not> is_cancel (go_kind order) then guardrail_reject order GR_cancel_only 0
      else if \<not> is_cancel (go_kind order) then
        if \<not> is_valid_enter_or_replace_quantity (go_quantity order) then guardrail_reject order GR_invalid_quantity 0
        else if \<not> ouch_is_valid_price4 (go_price order) then guardrail_reject order GR_invalid_price 0
        else if requires_symbol (go_kind order) \<and> \<not> go_has_symbol order
        then guardrail_reject order GR_symbol_missing 0
        else if go_has_symbol order \<and> \<not> gs_is_symbol_enabled gs (go_symbol order)
        then guardrail_reject order GR_symbol_disabled 0
        else if go_quantity order > gl_max_order_quantity (gs_limits gs)
        then guardrail_reject order GR_max_order_quantity 0
        else if gs_exceeds_notional_limit gs (go_quantity order) (go_price order)
        then guardrail_reject order GR_max_order_notional
               (guardrail_calculate_notional (go_quantity order) (go_price order))
        else guardrail_allow order (guardrail_calculate_notional (go_quantity order) (go_price order))
      else if \<not> is_valid_cancel_quantity (go_quantity order) then guardrail_reject order GR_invalid_quantity 0
      else guardrail_allow order 0)"

definition make_enter_guardrail_order :: "enter_order_message \<Rightarrow> guardrail_order" where
  "make_enter_guardrail_order m = \<lparr>go_kind = GK_enter, go_user_ref_num = eo_user_ref_num m,
     go_symbol = eo_symbol m, go_has_symbol = True, go_quantity = eo_quantity m, go_price = eo_price m\<rparr>"

definition make_replace_guardrail_order :: "replace_order_message \<Rightarrow> ouch_symbol \<Rightarrow> guardrail_order" where
  "make_replace_guardrail_order m current_symbol = \<lparr>go_kind = GK_replace, go_user_ref_num = rpo_user_ref_num m,
     go_symbol = current_symbol, go_has_symbol = True, go_quantity = rpo_quantity m, go_price = rpo_price m\<rparr>"

definition make_cancel_guardrail_order :: "cancel_order_message \<Rightarrow> guardrail_order" where
  "make_cancel_guardrail_order m = \<lparr>go_kind = GK_cancel, go_user_ref_num = co_user_ref_num m,
     go_symbol = replicate 8 (char_of_byte 0), go_has_symbol = False, go_quantity = co_quantity m, go_price = 0\<rparr>"

section \<open>The control path\<close>

datatype guardrail_update_kind =
    GU_set_global_halt | GU_set_cancel_only | GU_set_default_symbol_enabled | GU_set_limits
  | GU_enable_symbol | GU_disable_symbol | GU_clear_symbol_overrides

datatype guardrail_apply_decision = GA_applied | GA_dropped_stale | GA_no_pending

record guardrail_update =
  gu_sequence :: u64
  gu_kind :: guardrail_update_kind
  gu_bool_value :: bool
  gu_limits :: guardrail_limits
  gu_symbol :: ouch_symbol

record guardrail_apply_result =
  ga_decision :: guardrail_apply_decision
  ga_sequence :: u64
  ga_kind :: guardrail_update_kind

record guardrail_control_stats =
  gcs_staged_count :: nat
  gcs_applied_count :: nat
  gcs_dropped_stale_count :: nat
  gcs_last_applied_sequence :: u64

record guardrail_control_path =
  gcp_next_sequence :: u64
  gcp_stats :: guardrail_control_stats
  gcp_pending :: "guardrail_update list"

definition new_control_path :: guardrail_control_path where
  "new_control_path = \<lparr>gcp_next_sequence = 1, gcp_stats = \<lparr>gcs_staged_count = 0, gcs_applied_count = 0,
     gcs_dropped_stale_count = 0, gcs_last_applied_sequence = 0\<rparr>, gcp_pending = []\<rparr>"

definition enqueue_update :: "guardrail_update \<Rightarrow> guardrail_control_path \<Rightarrow> guardrail_control_path" where
  "enqueue_update u cp =
     (let cp1 = cp\<lparr>gcp_pending := gcp_pending cp @ [u],
            gcp_stats := (gcp_stats cp)\<lparr>gcs_staged_count := gcs_staged_count (gcp_stats cp) + 1\<rparr>\<rparr>
      in if gu_sequence u \<ge> gcp_next_sequence cp1 then cp1\<lparr>gcp_next_sequence := gu_sequence u + 1\<rparr> else cp1)"

definition make_update :: "guardrail_update_kind \<Rightarrow> guardrail_control_path \<Rightarrow> guardrail_update \<times> guardrail_control_path" where
  "make_update kind cp =
     (\<lparr>gu_sequence = gcp_next_sequence cp, gu_kind = kind, gu_bool_value = False,
       gu_limits = default_guardrail_limits, gu_symbol = replicate 8 (char_of_byte 0)\<rparr>,
      cp\<lparr>gcp_next_sequence := gcp_next_sequence cp + 1\<rparr>)"

definition push_set_global_halt :: "bool \<Rightarrow> guardrail_control_path \<Rightarrow> guardrail_update \<times> guardrail_control_path" where
  "push_set_global_halt halted cp =
     (let (u, cp1) = make_update GU_set_global_halt cp; u1 = u\<lparr>gu_bool_value := halted\<rparr>
      in (u1, enqueue_update u1 cp1))"

definition push_set_cancel_only :: "bool \<Rightarrow> guardrail_control_path \<Rightarrow> guardrail_update \<times> guardrail_control_path" where
  "push_set_cancel_only enabled cp =
     (let (u, cp1) = make_update GU_set_cancel_only cp; u1 = u\<lparr>gu_bool_value := enabled\<rparr>
      in (u1, enqueue_update u1 cp1))"

definition push_set_default_symbol_enabled ::
  "bool \<Rightarrow> guardrail_control_path \<Rightarrow> guardrail_update \<times> guardrail_control_path" where
  "push_set_default_symbol_enabled enabled cp =
     (let (u, cp1) = make_update GU_set_default_symbol_enabled cp; u1 = u\<lparr>gu_bool_value := enabled\<rparr>
      in (u1, enqueue_update u1 cp1))"

definition push_set_limits ::
  "guardrail_limits \<Rightarrow> guardrail_control_path \<Rightarrow> guardrail_update \<times> guardrail_control_path" where
  "push_set_limits limits cp =
     (let (u, cp1) = make_update GU_set_limits cp; u1 = u\<lparr>gu_limits := limits\<rparr>
      in (u1, enqueue_update u1 cp1))"

definition push_enable_symbol ::
  "ouch_symbol \<Rightarrow> guardrail_control_path \<Rightarrow> guardrail_update \<times> guardrail_control_path" where
  "push_enable_symbol symbol cp =
     (let (u, cp1) = make_update GU_enable_symbol cp; u1 = u\<lparr>gu_symbol := symbol\<rparr>
      in (u1, enqueue_update u1 cp1))"

definition push_disable_symbol ::
  "ouch_symbol \<Rightarrow> guardrail_control_path \<Rightarrow> guardrail_update \<times> guardrail_control_path" where
  "push_disable_symbol symbol cp =
     (let (u, cp1) = make_update GU_disable_symbol cp; u1 = u\<lparr>gu_symbol := symbol\<rparr>
      in (u1, enqueue_update u1 cp1))"

definition push_clear_symbol_overrides :: "guardrail_control_path \<Rightarrow> guardrail_update \<times> guardrail_control_path" where
  "push_clear_symbol_overrides cp =
     (let (u, cp1) = make_update GU_clear_symbol_overrides cp in (u, enqueue_update u cp1))"

definition run_update :: "guardrail_update \<Rightarrow> guardrail_state \<Rightarrow> guardrail_state" where
  "run_update u gs =
     (case gu_kind u of
        GU_set_global_halt \<Rightarrow> gs_set_global_halted (gu_bool_value u) gs
      | GU_set_cancel_only \<Rightarrow> gs_set_cancel_only (gu_bool_value u) gs
      | GU_set_default_symbol_enabled \<Rightarrow> gs_set_default_symbol_enabled (gu_bool_value u) gs
      | GU_set_limits \<Rightarrow> gs_set_limits (gu_limits u) gs
      | GU_enable_symbol \<Rightarrow> gs_enable_symbol (gu_symbol u) gs
      | GU_disable_symbol \<Rightarrow> gs_disable_symbol (gu_symbol u) gs
      | GU_clear_symbol_overrides \<Rightarrow> gs_clear_symbol_overrides gs)"

definition apply_update ::
  "guardrail_control_path \<Rightarrow> guardrail_state \<Rightarrow> guardrail_update \<Rightarrow>
   guardrail_apply_result \<times> guardrail_control_path \<times> guardrail_state" where
  "apply_update cp gs u =
     (let st = gcp_stats cp in
      if gu_sequence u \<le> gcs_last_applied_sequence st
      then (\<lparr>ga_decision = GA_dropped_stale, ga_sequence = gu_sequence u, ga_kind = gu_kind u\<rparr>,
            cp\<lparr>gcp_stats := st\<lparr>gcs_dropped_stale_count := gcs_dropped_stale_count st + 1\<rparr>\<rparr>, gs)
      else (\<lparr>ga_decision = GA_applied, ga_sequence = gu_sequence u, ga_kind = gu_kind u\<rparr>,
            cp\<lparr>gcp_stats := st\<lparr>gcs_applied_count := gcs_applied_count st + 1,
                 gcs_last_applied_sequence := gu_sequence u\<rparr>\<rparr>, run_update u gs))"

definition apply_next ::
  "guardrail_control_path \<Rightarrow> guardrail_state \<Rightarrow>
   guardrail_apply_result \<times> guardrail_control_path \<times> guardrail_state" where
  "apply_next cp gs =
     (case gcp_pending cp of
        [] \<Rightarrow> (\<lparr>ga_decision = GA_no_pending, ga_sequence = 0, ga_kind = GU_set_global_halt\<rparr>, cp, gs)
      | u # rest \<Rightarrow> apply_update (cp\<lparr>gcp_pending := rest\<rparr>) gs u)"

lemma pending_apply_next: "gcp_pending (fst (snd (apply_next cp gs))) = tl (gcp_pending cp)"
  by (auto simp: apply_next_def apply_update_def Let_def split: list.splits)

function apply_all_from ::
  "nat \<Rightarrow> guardrail_control_path \<Rightarrow> guardrail_state \<Rightarrow> nat \<times> guardrail_control_path \<times> guardrail_state" where
  "apply_all_from applied_count cp gs =
     (if gcp_pending cp = [] then (applied_count, cp, gs)
      else let (result, cp1, gs1) = apply_next cp gs
           in apply_all_from (if ga_decision result = GA_applied then applied_count + 1 else applied_count) cp1 gs1)"
  by pat_completeness auto

termination
proof (relation "measure (\<lambda>(_, cp, _). length (gcp_pending cp))")
  fix applied_count cp gs x result y cp1 gs1
  assume "gcp_pending cp \<noteq> []" "x = apply_next cp gs" "(result, y) = x" "(cp1, gs1) = y"
  then have "gcp_pending cp1 = tl (gcp_pending cp)" "gcp_pending cp \<noteq> []"
    using pending_apply_next [of cp gs] by (metis fst_conv snd_conv, simp)
  then show "((if ga_decision result = GA_applied then applied_count + 1 else applied_count, cp1, gs1), applied_count, cp, gs)
      \<in> measure (\<lambda>(_, cp, _). length (gcp_pending cp))"
    by simp
qed simp

declare apply_all_from.simps [simp del]

definition apply_all ::
  "guardrail_control_path \<Rightarrow> guardrail_state \<Rightarrow> nat \<times> guardrail_control_path \<times> guardrail_state" where
  "apply_all cp gs = apply_all_from 0 cp gs"

definition clear_pending :: "guardrail_control_path \<Rightarrow> guardrail_control_path" where
  "clear_pending cp = cp\<lparr>gcp_pending := []\<rparr>"

definition reset_control_path :: "guardrail_control_path \<Rightarrow> guardrail_control_path" where
  "reset_control_path cp = new_control_path"

section \<open>When an order passes\<close>

interpretation guardrail_notional: notional_check guardrail_calculate_notional
    "\<lambda>gs. gl_max_order_notional (gs_limits gs)" gs_exceeds_notional_limit
  by unfold_locales (auto simp: guardrail_calculate_notional_def gs_exceeds_notional_limit_def)

interpretation guardrail_symbols: symbol_switch gs_is_symbol_enabled gs_default_symbol_enabled
    gs_enable_symbol gs_disable_symbol gs_clear_symbol_overrides
  by unfold_locales
     (auto simp: gs_is_symbol_enabled_def gs_enable_symbol_def gs_disable_symbol_def gs_clear_symbol_overrides_def)

lemma guardrail_check_allowed:
  "gres_decision (guardrail_check gs order) = GD_allowed \<longleftrightarrow>
     \<not> gs_global_halted gs
     \<and> (if go_kind order = GK_cancel then unat (go_quantity order) < 1000000
        else \<not> gs_cancel_only gs \<and> go_has_symbol order \<and> gs_is_symbol_enabled gs (go_symbol order)
          \<and> within_limits (gl_max_order_quantity (gs_limits gs)) (gl_max_order_notional (gs_limits gs))
              (go_quantity order) (go_price order))"
  by (cases "go_kind order")
     (auto simp: guardrail_check_def guardrail_reject_def guardrail_allow_def is_cancel_def requires_symbol_def
       order_field_iff within_limits_def guardrail_notional.exceeds_iff word_less_nat_alt)

text \<open>A guardrail state and a risk supervisor that were configured alike.\<close>

definition same_rules :: "risk_supervisor \<Rightarrow> guardrail_state \<Rightarrow> bool" where
  "same_rules rs gs \<longleftrightarrow>
     gl_max_order_quantity (gs_limits gs) = rl_max_order_quantity (rs_limits rs)
     \<and> gl_max_order_notional (gs_limits gs) = rl_max_order_notional (rs_limits rs)
     \<and> gs_global_halted gs = rs_global_halted rs \<and> gs_cancel_only gs = rs_cancel_only rs
     \<and> gs_default_symbol_enabled gs = rs_default_symbol_enabled rs
     \<and> gs_enabled_symbols gs = rs_enabled_symbols rs \<and> gs_disabled_symbols gs = rs_disabled_symbols rs"

lemma same_rules_decisions:
  assumes "same_rules rs gs"
  shows "(gres_decision (guardrail_check gs (make_enter_guardrail_order em)) = GD_allowed
      \<longleftrightarrow> rr_decision (check_enter rs em) = RD_accepted)
    \<and> (gres_decision (guardrail_check gs (make_replace_guardrail_order rm current)) = GD_allowed
      \<longleftrightarrow> rr_decision (check_replace rs rm current) = RD_accepted)
    \<and> (gres_decision (guardrail_check gs (make_cancel_guardrail_order cm)) = GD_allowed
      \<longleftrightarrow> rr_decision (check_cancel rs cm) = RD_accepted)"
proof -
  have "gs_is_symbol_enabled gs s = rs_is_symbol_enabled rs s" for s
    using assms by (simp add: same_rules_def gs_is_symbol_enabled_def rs_is_symbol_enabled_def)
  then show ?thesis
    using assms unfolding guardrail_check_allowed check_enter_def check_replace_def check_common_accepted
    by (auto simp: same_rules_def make_enter_guardrail_order_def make_replace_guardrail_order_def
      make_cancel_guardrail_order_def check_cancel_def risk_reject_def risk_accept_def order_field_iff)
qed

section \<open>Commands\<close>

datatype control_command =
    Cmd_halt bool | Cmd_cancel_only bool | Cmd_default_symbol bool | Cmd_limits guardrail_limits
  | Cmd_enable ouch_symbol | Cmd_disable ouch_symbol | Cmd_clear

fun push_command :: "control_command \<Rightarrow> guardrail_control_path \<Rightarrow> guardrail_update \<times> guardrail_control_path" where
  "push_command (Cmd_halt b) cp = push_set_global_halt b cp"
| "push_command (Cmd_cancel_only b) cp = push_set_cancel_only b cp"
| "push_command (Cmd_default_symbol b) cp = push_set_default_symbol_enabled b cp"
| "push_command (Cmd_limits l) cp = push_set_limits l cp"
| "push_command (Cmd_enable s) cp = push_enable_symbol s cp"
| "push_command (Cmd_disable s) cp = push_disable_symbol s cp"
| "push_command Cmd_clear cp = push_clear_symbol_overrides cp"

fun run_command :: "control_command \<Rightarrow> guardrail_state \<Rightarrow> guardrail_state" where
  "run_command (Cmd_halt b) gs = gs\<lparr>gs_global_halted := b\<rparr>"
| "run_command (Cmd_cancel_only b) gs = gs\<lparr>gs_cancel_only := b\<rparr>"
| "run_command (Cmd_default_symbol b) gs = gs\<lparr>gs_default_symbol_enabled := b\<rparr>"
| "run_command (Cmd_limits l) gs = gs\<lparr>gs_limits := l\<rparr>"
| "run_command (Cmd_enable s) gs = gs\<lparr>gs_disabled_symbols := gs_disabled_symbols gs - {s},
     gs_enabled_symbols := insert s (gs_enabled_symbols gs)\<rparr>"
| "run_command (Cmd_disable s) gs = gs\<lparr>gs_enabled_symbols := gs_enabled_symbols gs - {s},
     gs_disabled_symbols := insert s (gs_disabled_symbols gs)\<rparr>"
| "run_command Cmd_clear gs = gs\<lparr>gs_enabled_symbols := {}, gs_disabled_symbols := {}\<rparr>"

lemmas push_defs = push_set_global_halt_def push_set_cancel_only_def push_set_default_symbol_enabled_def
  push_set_limits_def push_enable_symbol_def push_disable_symbol_def push_clear_symbol_overrides_def

lemma push_command_update:
  "\<exists>u. gu_sequence u = gcp_next_sequence cp \<and> run_update u = run_command c
     \<and> push_command c cp = (u, enqueue_update u (cp\<lparr>gcp_next_sequence := gcp_next_sequence cp + 1\<rparr>))"
  by (cases c) (simp_all add: push_defs make_update_def Let_def run_update_def fun_eq_iff gs_set_global_halted_def
    gs_set_cancel_only_def gs_set_default_symbol_enabled_def gs_set_limits_def gs_enable_symbol_def
    gs_disable_symbol_def gs_clear_symbol_overrides_def)

text \<open>
  Every interleaving of pushes and applications of one control path, from state \<open>gs0\<close>; \<open>cs\<close> are the
  commands pushed so far.
\<close>

inductive control_run ::
  "guardrail_state \<Rightarrow> control_command list \<Rightarrow> guardrail_control_path \<Rightarrow> guardrail_state \<Rightarrow> bool"
  for gs0 :: guardrail_state
where
  control_start: "control_run gs0 [] new_control_path gs0"
| control_push: "control_run gs0 cs cp gs \<Longrightarrow> control_run gs0 (cs @ [c]) (snd (push_command c cp)) gs"
| control_apply: "control_run gs0 cs cp gs \<Longrightarrow> apply_next cp gs = (r, cp1, gs1) \<Longrightarrow> control_run gs0 cs cp1 gs1"

text \<open>
  The simulation: the pending updates carry the numbers that follow the last applied one, and running
  them on the current state gives what all commands give on the first state.
\<close>

definition control_inv ::
  "guardrail_state \<Rightarrow> control_command list \<Rightarrow> guardrail_control_path \<Rightarrow> guardrail_state \<Rightarrow> bool" where
  "control_inv gs0 cs cp gs \<longleftrightarrow>
     unat (gcp_next_sequence cp) = length cs + 1
     \<and> gcs_applied_count (gcp_stats cp) = unat (gcs_last_applied_sequence (gcp_stats cp))
     \<and> gcs_staged_count (gcp_stats cp) = length cs \<and> gcs_dropped_stale_count (gcp_stats cp) = 0
     \<and> map (unat \<circ> gu_sequence) (gcp_pending cp) = [gcs_applied_count (gcp_stats cp) + 1 ..< length cs + 1]
     \<and> gcs_applied_count (gcp_stats cp) \<le> length cs
     \<and> fold run_update (gcp_pending cp) gs = fold run_command cs gs0"

lemma control_inv_push:
  assumes inv: "control_inv gs0 cs cp gs" and room: "length cs + 2 < 2 ^ 64"
  shows "control_inv gs0 (cs @ [c]) (snd (push_command c cp)) gs"
proof -
  obtain u where u: "gu_sequence u = gcp_next_sequence cp" "run_update u = run_command c"
    "push_command c cp = (u, enqueue_update u (cp\<lparr>gcp_next_sequence := gcp_next_sequence cp + 1\<rparr>))"
    using push_command_update [of cp c] by blast
  have nxt: "unat (gcp_next_sequence cp) = length cs + 1" using inv by (simp add: control_inv_def)
  then have suc: "unat (gcp_next_sequence cp + 1) = length cs + 2" using room by (simp add: unat_word_ariths)
  then have "\<not> gu_sequence u \<ge> gcp_next_sequence cp + 1" using nxt u(1) by (simp add: word_le_nat_alt)
  then show ?thesis
    using inv u nxt suc by (simp add: control_inv_def enqueue_update_def Let_def)
qed

lemma control_inv_apply:
  assumes inv: "control_inv gs0 cs cp gs" and step: "apply_next cp gs = (r, cp1, gs1)"
  shows "control_inv gs0 cs cp1 gs1 \<and> (gcp_pending cp \<noteq> [] \<longrightarrow> ga_decision r = GA_applied)"
proof (cases "gcp_pending cp")
  case Nil
  with inv step show ?thesis by (auto simp: apply_next_def)
next
  case (Cons u us)
  let ?n = "gcs_applied_count (gcp_stats cp)"
  have seq: "map (unat \<circ> gu_sequence) (u # us) = [?n + 1 ..< length cs + 1]"
    using inv Cons by (simp add: control_inv_def)
  then have "?n + 1 < length cs + 1" by (metis list.distinct(1) list.map_disc_iff not_less upt_conv_Nil)
  then have "unat (gu_sequence u) = ?n + 1 \<and> map (unat \<circ> gu_sequence) us = [?n + 2 ..< length cs + 1]"
    using seq by (subst (asm) upt_conv_Cons) (auto simp: numeral_2_eq_2)
  moreover have "\<not> gu_sequence u \<le> gcs_last_applied_sequence (gcp_stats cp)"
    using calculation inv by (simp add: control_inv_def word_le_nat_alt)
  ultimately show ?thesis
    using inv step Cons \<open>?n + 1 < length cs + 1\<close>
    by (auto simp: control_inv_def apply_next_def apply_update_def Let_def)
qed

lemma control_run_inv: "control_run gs0 cs cp gs \<Longrightarrow> length cs + 1 < 2 ^ 64 \<Longrightarrow> control_inv gs0 cs cp gs"
proof (induction rule: control_run.induct)
  case control_start
  show ?case by (simp add: control_inv_def new_control_path_def)
next
  case (control_push cs cp gs c)
  then show ?case by (intro control_inv_push) simp_all
next
  case (control_apply cs cp gs r cp1 gs1)
  then show ?case using control_inv_apply by blast
qed

lemma apply_all_from_inv:
  "control_inv gs0 cs cp gs \<Longrightarrow> apply_all_from n cp gs = (n', cp', gs') \<Longrightarrow>
   n' = n + length (gcp_pending cp) \<and> gcp_pending cp' = [] \<and> control_inv gs0 cs cp' gs'"
proof (induction n cp gs rule: apply_all_from.induct)
  case (1 n cp gs)
  obtain r cp1 gs1 where step: "apply_next cp gs = (r, cp1, gs1)" by (cases "apply_next cp gs")
  show ?case
  proof (cases "gcp_pending cp = []")
    case True
    with 1(2,3) show ?thesis by (simp add: apply_all_from.simps)
  next
    case False
    note st = control_inv_apply [OF 1(2) step]
    have "apply_all_from (n + 1) cp1 gs1 = (n', cp', gs')"
      using 1(3) False step st by (subst (asm) apply_all_from.simps) simp
    moreover have "length (gcp_pending cp1) + 1 = length (gcp_pending cp)"
      using pending_apply_next [of cp gs] step False by (cases "gcp_pending cp") auto
    ultimately show ?thesis using 1(1) [OF False step [symmetric] refl refl] st False by simp
  qed
qed

section \<open>Properties\<close>

definition sample_guardrail :: guardrail_state where
  "sample_guardrail = make_guardrail_state default_guardrail_limits"

text \<open>
  C13: The guardrail allows exactly what it should: nothing in a halt; a cancel with a legal quantity otherwise;
  an enter or replace only outside cancel-only mode, for an enabled symbol, with a legal quantity within the
  limit, a positive price and an exact notional within the limit. The reason is \<open>none\<close> exactly for allowed
  orders, and the result repeats kind, reference, quantity and price of the order.\<close>

theorem guardrail_check_exact:
  "(gres_decision (guardrail_check gs order) = GD_allowed \<longleftrightarrow>
     \<not> gs_global_halted gs
     \<and> (if go_kind order = GK_cancel then unat (go_quantity order) < 1000000
        else \<not> gs_cancel_only gs \<and> go_has_symbol order \<and> gs_is_symbol_enabled gs (go_symbol order)
          \<and> within_limits (gl_max_order_quantity (gs_limits gs)) (gl_max_order_notional (gs_limits gs))
              (go_quantity order) (go_price order)))
   \<and> (gres_decision (guardrail_check gs order) = GD_allowed \<longleftrightarrow> gres_reject_reason (guardrail_check gs order) = GR_none)
   \<and> gres_kind (guardrail_check gs order) = go_kind order
   \<and> gres_user_ref_num (guardrail_check gs order) = go_user_ref_num order
   \<and> gres_quantity (guardrail_check gs order) = go_quantity order
   \<and> gres_price (guardrail_check gs order) = go_price order"
  by (intro conjI guardrail_check_allowed)
     (simp_all add: guardrail_check_def guardrail_reject_def guardrail_allow_def)

text \<open>
  C21: The gate and the software risk check agree: configured alike, they accept the same enter, replace and
  cancel orders, although they test in a different order and may name different reasons.\<close>

theorem guardrail_agrees_with_risk:
  assumes "same_rules rs gs"
  shows "(gres_decision (guardrail_check gs (make_enter_guardrail_order em)) = GD_allowed
      \<longleftrightarrow> rr_decision (check_enter rs em) = RD_accepted)
    \<and> (gres_decision (guardrail_check gs (make_replace_guardrail_order rm current)) = GD_allowed
      \<longleftrightarrow> rr_decision (check_replace rs rm current) = RD_accepted)
    \<and> (gres_decision (guardrail_check gs (make_cancel_guardrail_order cm)) = GD_allowed
      \<longleftrightarrow> rr_decision (check_cancel rs cm) = RD_accepted)"
  by (rule same_rules_decisions [OF assms])

theorem guardrail_agrees_with_risk_witness:
  "gres_decision (guardrail_check (gs_disable_symbol ''MSFT    '' sample_guardrail)
     (make_enter_guardrail_order sample_enter)) = GD_allowed
   \<longleftrightarrow> rr_decision (check_enter sample_risk sample_enter) = RD_accepted"
proof -
  have "same_rules sample_risk (gs_disable_symbol ''MSFT    '' sample_guardrail)"
    by (simp add: same_rules_def sample_risk_def sample_guardrail_def make_guardrail_state_def make_risk_supervisor_def
      gs_disable_symbol_def rs_disable_symbol_def default_risk_limits_def default_guardrail_limits_def)
  from guardrail_agrees_with_risk [OF this, of sample_enter] show ?thesis by blast
qed

text \<open>
  C14: However pushes and applications interleave on a control path, no command is lost, duplicated, reordered
  or dropped as stale: applying what is pending gives the state that all pushed commands give in push order,
  the pending list is empty afterwards and every staged update has been counted as applied.\<close>

theorem control_path_delivers:
  assumes "control_run gs0 cs cp gs" "length cs + 1 < 2 ^ 64" "apply_all cp gs = (n, cp', gs')"
  shows "gs' = fold run_command cs gs0 \<and> n = length (gcp_pending cp) \<and> gcp_pending cp' = []
    \<and> gcs_applied_count (gcp_stats cp') = length cs \<and> gcs_dropped_stale_count (gcp_stats cp') = 0"
proof -
  have inv: "n = length (gcp_pending cp)" "gcp_pending cp' = []" "control_inv gs0 cs cp' gs'"
    using apply_all_from_inv [OF control_run_inv [OF assms(1,2)], of 0] assms(3) by (auto simp: apply_all_def)
  then have "[gcs_applied_count (gcp_stats cp') + 1 ..< length cs + 1] = []" "gcs_applied_count (gcp_stats cp') \<le> length cs"
    by (auto simp: control_inv_def)
  then have "gcs_applied_count (gcp_stats cp') = length cs" by (simp only: upt_eq_Nil_conv) simp
  with inv show ?thesis by (simp add: control_inv_def)
qed

theorem control_path_delivers_witness:
  "fst (apply_all (snd (push_set_global_halt True new_control_path)) sample_guardrail) = 1
   \<and> gs_global_halted (snd (snd (apply_all (snd (push_set_global_halt True new_control_path)) sample_guardrail)))"
proof -
  have run: "control_run sample_guardrail [Cmd_halt True] (snd (push_set_global_halt True new_control_path)) sample_guardrail"
    using control_push [OF control_start, of sample_guardrail "Cmd_halt True"] by simp
  obtain n cp' gs' where a: "apply_all (snd (push_set_global_halt True new_control_path)) sample_guardrail = (n, cp', gs')"
    by (cases "apply_all (snd (push_set_global_halt True new_control_path)) sample_guardrail")
  have "length (gcp_pending (snd (push_set_global_halt True new_control_path))) = 1"
    by (simp add: push_set_global_halt_def make_update_def enqueue_update_def new_control_path_def Let_def)
  with control_path_delivers [OF run _ a] a show ?thesis by simp
qed

text \<open>
  The stale guard, for updates from anywhere: an update whose number is not above the last applied one leaves
  the guardrails untouched and is counted; any other is executed and becomes the last applied one. The last
  applied number never decreases.\<close>

theorem control_path_stale_guard:
  assumes "gcp_pending cp = u # rest" "apply_next cp gs = (r, cp', gs')"
  shows "gcp_pending cp' = rest
    \<and> gcs_last_applied_sequence (gcp_stats cp) \<le> gcs_last_applied_sequence (gcp_stats cp')
    \<and> (if gu_sequence u \<le> gcs_last_applied_sequence (gcp_stats cp)
       then ga_decision r = GA_dropped_stale \<and> gs' = gs
         \<and> gcs_dropped_stale_count (gcp_stats cp') = gcs_dropped_stale_count (gcp_stats cp) + 1
       else ga_decision r = GA_applied \<and> gs' = run_update u gs
         \<and> gcs_last_applied_sequence (gcp_stats cp') = gu_sequence u)"
  using assms by (auto simp: apply_next_def apply_update_def Let_def split: if_splits)

definition sample_update :: guardrail_update where
  "sample_update = \<lparr>gu_sequence = 9, gu_kind = GU_set_global_halt, gu_bool_value = True,
     gu_limits = default_guardrail_limits, gu_symbol = ''AAPL    ''\<rparr>"

theorem control_path_stale_guard_witness:
  "gs_global_halted (snd (snd (apply_next (enqueue_update sample_update new_control_path) sample_guardrail)))"
proof -
  have p: "gcp_pending (enqueue_update sample_update new_control_path) = [sample_update]"
    by (simp add: enqueue_update_def new_control_path_def Let_def)
  have l: "gcs_last_applied_sequence (gcp_stats (enqueue_update sample_update new_control_path)) = 0"
    by (simp add: enqueue_update_def new_control_path_def Let_def)
  obtain r cp' gs' where a: "apply_next (enqueue_update sample_update new_control_path) sample_guardrail = (r, cp', gs')"
    by (cases "apply_next (enqueue_update sample_update new_control_path) sample_guardrail")
  from control_path_stale_guard [OF p a] l have "gs' = run_update sample_update sample_guardrail"
    by (simp add: sample_update_def split: if_splits)
  then show ?thesis using a by (simp add: run_update_def sample_update_def gs_set_global_halted_def)
qed

end
