(* ===== verification/Spsc_Ring.thy ===== *)
theory Spsc_Ring
  imports Prelude
begin

text \<open>
  The lock-free single-producer single-consumer ring, \<^verbatim>\<open>SpscRing\<close> of
  \<^verbatim>\<open>include/fgep/core/spsc_ring.hpp\<close>. The counters are 64-bit words that wrap; \<^verbatim>\<open>Capacity\<close> is the length of
  the buffer, a power of two.

  \<^item> \<open>ring_push\<close> and \<open>ring_pop\<close> are the two operations as each thread runs them; they implement
    the interface \<open>bounded_queue\<close>, which the submit queue builds on.
  \<^item> \<open>producer_step\<close> and \<open>consumer_step\<close> split them at every access to shared memory. A run of the ring
    (\<open>ring_run\<close>) is any interleaving of these steps. The code's release stores and acquire loads order the
    buffer accesses around the publication of \<^verbatim>\<open>head\<close> and \<^verbatim>\<open>tail\<close>; each counter is written by one thread, so the
    interleavings of these steps are the behaviours of the code.
\<close>

section \<open>A bounded queue\<close>

text \<open>
  What a client may rely on: the operations agree with a list of at most \<open>cap\<close> items. \<open>queue_run\<close> plays a script
  of operations on any queue and collects what they return; the reference queue is a list.
\<close>

datatype 'a queue_op = Op_push 'a | Op_pop

datatype 'a queue_reply = Reply_push bool | Reply_pop "'a option"

fun queue_run :: "('a \<Rightarrow> 'q \<Rightarrow> bool \<times> 'q) \<Rightarrow> ('q \<Rightarrow> 'a option \<times> 'q) \<Rightarrow> 'a queue_op list \<Rightarrow> 'q \<Rightarrow> 'a queue_reply list" where
  "queue_run push pop [] q = []"
| "queue_run push pop (Op_push x # ops) q = (case push x q of (b, q') \<Rightarrow> Reply_push b # queue_run push pop ops q')"
| "queue_run push pop (Op_pop # ops) q = (case pop q of (r, q') \<Rightarrow> Reply_pop r # queue_run push pop ops q')"

definition list_push :: "nat \<Rightarrow> 'a \<Rightarrow> 'a list \<Rightarrow> bool \<times> 'a list" where
  "list_push cap x xs = (if length xs < cap then (True, xs @ [x]) else (False, xs))"

definition list_pop :: "'a list \<Rightarrow> 'a option \<times> 'a list" where
  "list_pop xs = (case xs of [] \<Rightarrow> (None, []) | x # xs' \<Rightarrow> (Some x, xs'))"

locale bounded_queue =
  fixes inv :: "'q \<Rightarrow> bool" and contents :: "'q \<Rightarrow> 'a list" and cap :: "'q \<Rightarrow> nat"
    and push :: "'a \<Rightarrow> 'q \<Rightarrow> bool \<times> 'q" and pop :: "'q \<Rightarrow> 'a option \<times> 'q"
  assumes bounded: "inv q \<Longrightarrow> length (contents q) \<le> cap q"
    and push_spec: "inv q \<Longrightarrow> push x q = (b, q') \<Longrightarrow> inv q' \<and> cap q' = cap q \<and> b = (length (contents q) < cap q)
      \<and> contents q' = (if b then contents q @ [x] else contents q)"
    and pop_spec: "inv q \<Longrightarrow> pop q = (r, q') \<Longrightarrow> inv q' \<and> cap q' = cap q
      \<and> (case contents q of [] \<Rightarrow> r = None \<and> contents q' = [] | x # xs \<Rightarrow> r = Some x \<and> contents q' = xs)"
begin

lemma pop_empty: "inv q \<Longrightarrow> contents q = [] \<Longrightarrow> \<exists>q'. pop q = (None, q') \<and> inv q' \<and> contents q' = [] \<and> cap q' = cap q"
  using pop_spec [of q "fst (pop q)" "snd (pop q)"] by (cases "pop q") auto

lemma pop_cons:
  "inv q \<Longrightarrow> contents q = x # xs \<Longrightarrow> \<exists>q'. pop q = (Some x, q') \<and> inv q' \<and> contents q' = xs \<and> cap q' = cap q"
  using pop_spec [of q "fst (pop q)" "snd (pop q)"] by (cases "pop q") auto

lemma queue_run_refines:
  "inv q \<Longrightarrow> queue_run push pop ops q = queue_run (list_push (cap q)) list_pop ops (contents q)"
proof (induction ops arbitrary: q)
  case (Cons op ops)
  show ?case
  proof (cases op)
    case (Op_push x)
    with Cons push_spec [of q x "fst (push x q)" "snd (push x q)"] show ?thesis
      by (cases "push x q") (auto simp: list_push_def)
  next
    case Op_pop
    with Cons pop_empty [of q] pop_cons [of q] show ?thesis by (cases "contents q") (auto simp: list_pop_def)
  qed
qed simp

end

section \<open>The ring\<close>

record 'a spsc_ring =
  sr_head :: u64
  sr_cached_tail :: u64
  sr_tail :: u64
  sr_cached_head :: u64
  sr_buffer :: "'a list"

definition ring_capacity :: "'a spsc_ring \<Rightarrow> nat" where
  "ring_capacity r = length (sr_buffer r)"

text \<open>The static assertions on \<^verbatim>\<open>Capacity\<close>, a value of a 64-bit \<^verbatim>\<open>std::size_t\<close>.\<close>

definition valid_ring_capacity :: "nat \<Rightarrow> bool" where
  "valid_ring_capacity n \<longleftrightarrow> 2 \<le> n \<and> n < 2 ^ 64 \<and> (of_nat n :: u64) AND of_nat (n - 1) = 0"

definition new_ring :: "nat \<Rightarrow> 'a \<Rightarrow> 'a spsc_ring" where
  "new_ring n v = \<lparr>sr_head = 0, sr_cached_tail = 0, sr_tail = 0, sr_cached_head = 0, sr_buffer = replicate n v\<rparr>"

definition ring_mask :: "'a spsc_ring \<Rightarrow> u64" where
  "ring_mask r = of_nat (ring_capacity r - 1)"

definition exceeds_capacity :: "'a spsc_ring \<Rightarrow> bool" where
  "exceeds_capacity r \<longleftrightarrow> (sr_head r + 1) - sr_cached_tail r > of_nat (ring_capacity r)"

definition load_tail :: "'a spsc_ring \<Rightarrow> 'a spsc_ring" where
  "load_tail r = r\<lparr>sr_cached_tail := sr_tail r\<rparr>"

definition store_slot :: "'a \<Rightarrow> 'a spsc_ring \<Rightarrow> 'a spsc_ring" where
  "store_slot x r = r\<lparr>sr_buffer := (sr_buffer r)[unat (sr_head r AND ring_mask r) := x]\<rparr>"

definition publish_head :: "'a spsc_ring \<Rightarrow> 'a spsc_ring" where
  "publish_head r = r\<lparr>sr_head := sr_head r + 1\<rparr>"

definition ring_push :: "'a \<Rightarrow> 'a spsc_ring \<Rightarrow> bool \<times> 'a spsc_ring" where
  "ring_push x r =
     (if exceeds_capacity r then
        (let r = load_tail r
         in if exceeds_capacity r then (False, r) else (True, publish_head (store_slot x r)))
      else (True, publish_head (store_slot x r)))"

definition seems_empty :: "'a spsc_ring \<Rightarrow> bool" where
  "seems_empty r \<longleftrightarrow> sr_tail r = sr_cached_head r"

definition load_head :: "'a spsc_ring \<Rightarrow> 'a spsc_ring" where
  "load_head r = r\<lparr>sr_cached_head := sr_head r\<rparr>"

definition load_slot :: "'a spsc_ring \<Rightarrow> 'a" where
  "load_slot r = sr_buffer r ! unat (sr_tail r AND ring_mask r)"

definition publish_tail :: "'a spsc_ring \<Rightarrow> 'a spsc_ring" where
  "publish_tail r = r\<lparr>sr_tail := sr_tail r + 1\<rparr>"

definition ring_pop :: "'a spsc_ring \<Rightarrow> 'a option \<times> 'a spsc_ring" where
  "ring_pop r =
     (if seems_empty r then
        (let r = load_head r
         in if seems_empty r then (None, r) else (Some (load_slot r), publish_tail r))
      else (Some (load_slot r), publish_tail r))"

definition approximate_size :: "'a spsc_ring \<Rightarrow> u64" where
  "approximate_size r = sr_head r - sr_tail r"

definition ring_empty :: "'a spsc_ring \<Rightarrow> bool" where
  "ring_empty r \<longleftrightarrow> approximate_size r = 0"

section \<open>Interleavings\<close>

text \<open>
  Where each thread is inside its operation, and what a step lets the other side see. The producer's counter
  \<^verbatim>\<open>head\<close> and the consumer's counter \<^verbatim>\<open>tail\<close> are read without synchronisation by their owners only.
\<close>

datatype 'a producer = P_idle | P_check 'a | P_room 'a | P_written 'a

datatype 'a consumer = C_idle | C_check | C_ready | C_got 'a

datatype 'a ring_event = E_internal | E_pushed 'a | E_push_full | E_popped 'a | E_pop_empty

record 'a ring_system =
  rg_ring :: "'a spsc_ring"
  rg_producer :: "'a producer"
  rg_consumer :: "'a consumer"

text \<open>The argument is the item of the next call of \<^verbatim>\<open>push\<close>.\<close>

definition producer_step :: "'a \<Rightarrow> 'a ring_system \<Rightarrow> 'a ring_event \<times> 'a ring_system" where
  "producer_step x s =
     (case rg_producer s of
        P_idle \<Rightarrow> (E_internal, s\<lparr>rg_producer := P_check x\<rparr>)
      | P_check y \<Rightarrow>
          if exceeds_capacity (rg_ring s) then
            (let r = load_tail (rg_ring s)
             in if exceeds_capacity r then (E_push_full, s\<lparr>rg_ring := r, rg_producer := P_idle\<rparr>)
                else (E_internal, s\<lparr>rg_ring := r, rg_producer := P_room y\<rparr>))
          else (E_internal, s\<lparr>rg_producer := P_room y\<rparr>)
      | P_room y \<Rightarrow> (E_internal, s\<lparr>rg_ring := store_slot y (rg_ring s), rg_producer := P_written y\<rparr>)
      | P_written y \<Rightarrow> (E_pushed y, s\<lparr>rg_ring := publish_head (rg_ring s), rg_producer := P_idle\<rparr>))"

definition consumer_step :: "'a ring_system \<Rightarrow> 'a ring_event \<times> 'a ring_system" where
  "consumer_step s =
     (case rg_consumer s of
        C_idle \<Rightarrow> (E_internal, s\<lparr>rg_consumer := C_check\<rparr>)
      | C_check \<Rightarrow>
          if seems_empty (rg_ring s) then
            (let r = load_head (rg_ring s)
             in if seems_empty r then (E_pop_empty, s\<lparr>rg_ring := r, rg_consumer := C_idle\<rparr>)
                else (E_internal, s\<lparr>rg_ring := r, rg_consumer := C_ready\<rparr>))
          else (E_internal, s\<lparr>rg_consumer := C_ready\<rparr>)
      | C_ready \<Rightarrow> (E_internal, s\<lparr>rg_consumer := C_got (load_slot (rg_ring s))\<rparr>)
      | C_got y \<Rightarrow> (E_popped y, s\<lparr>rg_ring := publish_tail (rg_ring s), rg_consumer := C_idle\<rparr>))"

definition ring_system :: "nat \<Rightarrow> 'a \<Rightarrow> 'a ring_system" where
  "ring_system n v = \<lparr>rg_ring = new_ring n v, rg_producer = P_idle, rg_consumer = C_idle\<rparr>"

inductive ring_run :: "nat \<Rightarrow> 'a ring_event list \<Rightarrow> 'a ring_system \<Rightarrow> bool" for n where
  ring_start: "ring_run n [] (ring_system n v)"
| ring_produce: "ring_run n es s \<Longrightarrow> producer_step x s = (e, s') \<Longrightarrow> ring_run n (es @ [e]) s'"
| ring_consume: "ring_run n es s \<Longrightarrow> consumer_step s = (e, s') \<Longrightarrow> ring_run n (es @ [e]) s'"

fun pushed :: "'a ring_event list \<Rightarrow> 'a list" where
  "pushed [] = []"
| "pushed (e # es) = (case e of E_pushed x \<Rightarrow> x # pushed es | _ \<Rightarrow> pushed es)"

fun popped :: "'a ring_event list \<Rightarrow> 'a list" where
  "popped [] = []"
| "popped (e # es) = (case e of E_popped x \<Rightarrow> x # popped es | _ \<Rightarrow> popped es)"

section \<open>The invariant\<close>

lemma unat_of_nat_u64: "m < 2 ^ 64 \<Longrightarrow> unat (of_nat m :: u64) = m"
  by (simp add: unat_of_nat)

lemma power_of_two_nat: "0 < n \<Longrightarrow> n AND (n - 1) = (0 :: nat) \<Longrightarrow> \<exists>k. n = 2 ^ k"
proof (induction n rule: less_induct)
  case (less n)
  show ?case
  proof (cases "even n")
    case True
    then obtain m where m: "n = 2 * m" by blast
    with less.prems have "0 < m" "(n - 1) div 2 = m - 1" by auto
    with less.prems m have "m AND (m - 1) = 0" using and_rec [of n "n - 1"] by simp
    with less.IH [of m] \<open>0 < m\<close> m obtain k where "m = 2 ^ k" by auto
    with m have "n = 2 ^ Suc k" by simp
    then show ?thesis by blast
  next
    case False
    then have "(n - 1) div 2 = n div 2" "even (n - 1)" by (auto elim!: oddE)
    with less.prems have "n div 2 = 0" using and_rec [of n "n - 1"] by simp
    with False have "n = 2 ^ 0" by (auto elim!: oddE)
    then show ?thesis by blast
  qed
qed

lemma valid_capacity_power:
  assumes "valid_ring_capacity n"
  obtains k where "n = 2 ^ k" "0 < k" "k < 64"
proof -
  have n: "2 \<le> n" "n < 2 ^ 64" and "unat ((of_nat n :: u64) AND of_nat (n - 1)) = unat (0 :: u64)"
    using assms by (auto simp: valid_ring_capacity_def)
  then have "unat (of_nat n :: u64) AND unat (of_nat (n - 1) :: u64) = 0" by (simp only: unsigned_and_eq unsigned_0)
  moreover have "unat (of_nat n :: u64) = n" "unat (of_nat (n - 1) :: u64) = n - 1"
    using n(2) by (intro unat_of_nat_u64; simp)+
  ultimately have "n AND (n - 1) = 0" by simp
  with n power_of_two_nat [of n] obtain k where k: "n = 2 ^ k" by auto
  moreover have "0 < k" using n k by (cases k) auto
  moreover have "k < 64" using n(2) k power_less_imp_less_exp [of "2 :: nat" k 64] by simp
  ultimately show ?thesis by (rule that)
qed

lemma masked_index: "k < 64 \<Longrightarrow> unat ((of_nat m :: u64) AND of_nat (2 ^ k - 1)) = m mod 2 ^ k"
proof -
  assume k: "k < 64"
  have "(of_nat (2 ^ k - 1) :: u64) = mask k"
    by (simp add: mask_eq_exp_minus_1 of_nat_diff)
  then have "unat ((of_nat m :: u64) AND of_nat (2 ^ k - 1)) = unat (take_bit k (of_nat m :: u64))"
    by (simp add: take_bit_eq_mask)
  also have "\<dots> = take_bit k (unat (of_nat m :: u64))" by (simp add: unsigned_take_bit_eq)
  also have "\<dots> = (m mod 2 ^ 64) mod 2 ^ k" by (simp add: unat_of_nat take_bit_eq_mod)
  also have "\<dots> = m mod 2 ^ k" using k by (intro mod_mod_cancel le_imp_power_dvd) simp
  finally show ?thesis .
qed

text \<open>
  The counters never wrapped: \<open>H\<close> and \<open>T\<close> items were pushed and popped; \<open>CT\<close> and \<open>CH\<close> are the
  values of \<open>T\<close> and \<open>H\<close> the other side saw last.
\<close>

definition counters :: "'a spsc_ring \<Rightarrow> nat \<Rightarrow> nat \<Rightarrow> nat \<Rightarrow> nat \<Rightarrow> bool" where
  "counters r H CT T CH \<longleftrightarrow> valid_ring_capacity (ring_capacity r)
     \<and> sr_head r = of_nat H \<and> sr_cached_tail r = of_nat CT \<and> sr_tail r = of_nat T \<and> sr_cached_head r = of_nat CH
     \<and> CT \<le> T \<and> T \<le> CH \<and> CH \<le> H \<and> H \<le> CT + ring_capacity r"

definition ring_items :: "'a spsc_ring \<Rightarrow> 'a list" where
  "ring_items r = map (\<lambda>i. sr_buffer r ! unat ((sr_tail r + of_nat i) AND ring_mask r)) [0..<unat (approximate_size r)]"

definition ring_inv :: "'a spsc_ring \<Rightarrow> bool" where
  "ring_inv r \<longleftrightarrow> (\<exists>H CT T CH. counters r H CT T CH)"


lemma ring_index:
  assumes "valid_ring_capacity (ring_capacity r)"
  shows "unat ((of_nat m :: u64) AND ring_mask r) = m mod ring_capacity r"
proof -
  obtain k where "ring_capacity r = 2 ^ k" "k < 64" using assms by (rule valid_capacity_power)
  then show ?thesis using masked_index [of k m] by (simp add: ring_mask_def)
qed

lemma of_nat_diff_u64:
  assumes "b \<le> a"
  shows "(of_nat a :: u64) - of_nat b = of_nat (a - b)"
  using assms by (simp add: of_nat_diff)

lemma countersD:
  assumes "counters r H CT T CH"
  shows "CT \<le> T" "T \<le> CH" "CH \<le> H" "H \<le> CT + ring_capacity r" "2 \<le> ring_capacity r" "ring_capacity r < 2 ^ 64 - 1"
    "valid_ring_capacity (ring_capacity r)"
proof -
  show v: "valid_ring_capacity (ring_capacity r)" using assms by (simp add: counters_def)
  then obtain k where "ring_capacity r = 2 ^ k" "k < 64" by (rule valid_capacity_power)
  then show "ring_capacity r < 2 ^ 64 - 1" using power_increasing [of k 63 "2 :: nat"] by simp
qed (use assms in \<open>auto simp: counters_def valid_ring_capacity_def\<close>)

lemma ring_items_eq:
  assumes "counters r H CT T CH"
  shows "ring_items r = map (\<lambda>i. sr_buffer r ! ((T + i) mod ring_capacity r)) [0..<H - T]"
proof -
  note c = countersD [OF assms]
  have "approximate_size r = of_nat (H - T)"
    using assms c by (simp add: approximate_size_def counters_def of_nat_diff)
  moreover have "H - T < 2 ^ 64" using c by simp
  ultimately have "unat (approximate_size r) = H - T" by (simp add: unat_of_nat)
  moreover have "unat ((sr_tail r + of_nat i) AND ring_mask r) = (T + i) mod ring_capacity r" for i
    using assms ring_index [OF c(7), of "T + i"] by (simp add: counters_def)
  ultimately show ?thesis by (simp add: ring_items_def)
qed

lemma exceeds_capacity_iff:
  assumes "counters r H CT T CH"
  shows "exceeds_capacity r \<longleftrightarrow> H = CT + ring_capacity r"
proof -
  note c = countersD [OF assms]
  have "sr_head r + 1 - sr_cached_tail r = of_nat (H + 1 - CT)"
    using assms c by (simp add: counters_def of_nat_diff)
  moreover have "H + 1 - CT < 2 ^ 64" "ring_capacity r < 2 ^ 64" using c by simp_all
  ultimately have "exceeds_capacity r \<longleftrightarrow> ring_capacity r < H + 1 - CT"
    by (simp add: exceeds_capacity_def word_less_nat_alt unat_of_nat)
  then show ?thesis using c by linarith
qed

lemma seems_empty_iff:
  assumes "counters r H CT T CH"
  shows "seems_empty r \<longleftrightarrow> T = CH"
proof -
  note c = countersD [OF assms]
  have "CH - T < 2 ^ 64" using c by simp
  then have "unat (of_nat (CH - T) :: u64) = CH - T" by (rule unat_of_nat_u64)
  then have "(of_nat (CH - T) :: u64) = 0 \<longleftrightarrow> CH - T = 0"
    by (cases "CH - T = 0") auto
  moreover have "(of_nat (CH - T) :: u64) = of_nat CH - of_nat T" using c by (simp add: of_nat_diff)
  ultimately show ?thesis using assms c by (auto simp: seems_empty_def counters_def)
qed

section \<open>The steps on the ring\<close>

lemma counters_load_tail:
  assumes "counters r H CT T CH"
  shows "counters (load_tail r) H T T CH" "ring_items (load_tail r) = ring_items r"
  using assms by (auto simp: counters_def load_tail_def ring_capacity_def ring_items_def approximate_size_def ring_mask_def)

lemma counters_load_head:
  assumes "counters r H CT T CH"
  shows "counters (load_head r) H CT T H" "ring_items (load_head r) = ring_items r"
  using assms by (auto simp: counters_def load_head_def ring_capacity_def ring_items_def approximate_size_def ring_mask_def)

lemma slots_distinct:
  assumes "T + i < H" "H < T + n"
  shows "(T + i) mod n \<noteq> H mod (n :: nat)"
proof
  assume "(T + i) mod n = H mod n"
  then have "n dvd H - (T + i)" using assms mod_eq_dvd_iff_nat [of "T + i" H n] by auto
  moreover have "0 < H - (T + i)" "H - (T + i) < n" using assms by linarith+
  ultimately show False using nat_dvd_not_less by blast
qed

lemma counters_store_slot:
  assumes "counters r H CT T CH" "H < CT + ring_capacity r"
  shows "counters (store_slot x r) H CT T CH" "ring_items (store_slot x r) = ring_items r"
    "sr_buffer (store_slot x r) ! (H mod ring_capacity r) = x"
proof -
  note c = countersD [OF assms(1)]
  have i: "unat (sr_head r AND ring_mask r) = H mod ring_capacity r"
    using assms ring_index [OF c(7), of H] by (simp add: counters_def)
  have "H mod ring_capacity r < ring_capacity r" using c by (intro mod_less_divisor) linarith
  then have l: "H mod ring_capacity r < length (sr_buffer r)" by (simp add: ring_capacity_def)
  show *: "counters (store_slot x r) H CT T CH"
    using assms by (simp add: counters_def store_slot_def ring_capacity_def)
  have cap: "ring_capacity (store_slot x r) = ring_capacity r" by (simp add: store_slot_def ring_capacity_def)
  show "sr_buffer (store_slot x r) ! (H mod ring_capacity r) = x" using l by (simp add: store_slot_def i)
  have "sr_buffer (store_slot x r) ! ((T + j) mod ring_capacity r) = sr_buffer r ! ((T + j) mod ring_capacity r)"
    if "j < H - T" for j
  proof -
    have "(T + j) mod ring_capacity r \<noteq> H mod ring_capacity r" using that c assms(2) by (intro slots_distinct) linarith+
    then show ?thesis by (simp add: store_slot_def i)
  qed
  then show "ring_items (store_slot x r) = ring_items r"
    by (simp add: ring_items_eq [OF *] ring_items_eq [OF assms(1)] cap)
qed

lemma counters_publish_head:
  assumes "counters r H CT T CH" "H < CT + ring_capacity r"
  shows "counters (publish_head r) (H + 1) CT T CH"
    "ring_items (publish_head r) = ring_items r @ [sr_buffer r ! (H mod ring_capacity r)]"
proof -
  note c = countersD [OF assms(1)]
  show *: "counters (publish_head r) (H + 1) CT T CH"
    using assms by (simp add: counters_def publish_head_def ring_capacity_def)
  have "[0..<H + 1 - T] = [0..<H - T] @ [H - T]" using c by (simp add: Suc_diff_le)
  then show "ring_items (publish_head r) = ring_items r @ [sr_buffer r ! (H mod ring_capacity r)]"
    using c by (simp add: ring_items_eq [OF *] ring_items_eq [OF assms(1)]) (simp add: publish_head_def ring_capacity_def)
qed

lemma load_slot_hd:
  assumes "counters r H CT T CH" "T < CH"
  shows "ring_items r \<noteq> []" "load_slot r = hd (ring_items r)"
proof -
  note c = countersD [OF assms(1)]
  have "unat (sr_tail r AND ring_mask r) = T mod ring_capacity r"
    using assms ring_index [OF c(7), of T] by (simp add: counters_def)
  moreover have "T < H" using assms c by linarith
  ultimately show "ring_items r \<noteq> []" "load_slot r = hd (ring_items r)"
    by (simp_all add: ring_items_eq [OF assms(1)] load_slot_def hd_map)
qed

lemma counters_publish_tail:
  assumes "counters r H CT T CH" "T < CH"
  shows "counters (publish_tail r) H CT (T + 1) CH" "ring_items (publish_tail r) = tl (ring_items r)"
proof -
  note c = countersD [OF assms(1)]
  show *: "counters (publish_tail r) H CT (T + 1) CH"
    using assms by (simp add: counters_def publish_tail_def ring_capacity_def)
  have "[0..<H - T] = 0 # map Suc [0..<H - (T + 1)]"
    using assms c by (simp add: map_Suc_upt upt_conv_Cons Suc_diff_Suc del: upt_Suc)
  then show "ring_items (publish_tail r) = tl (ring_items r)"
    by (simp add: ring_items_eq [OF *] ring_items_eq [OF assms(1)]) (simp add: publish_tail_def ring_capacity_def)
qed

lemma length_ring_items: "counters r H CT T CH \<Longrightarrow> length (ring_items r) = H - T"
  by (simp add: ring_items_eq)

lemma ring_items_bounded: "counters r H CT T CH \<Longrightarrow> length (ring_items r) \<le> ring_capacity r"
  using countersD [of r H CT T CH] by (simp add: length_ring_items)

section \<open>The ring is a bounded queue\<close>

lemma counters_push:
  assumes "counters r H CT T CH" "H < CT + ring_capacity r"
  shows "counters (publish_head (store_slot x r)) (H + 1) CT T CH"
    "ring_items (publish_head (store_slot x r)) = ring_items r @ [x]"
proof -
  note s = counters_store_slot [OF assms, of x]
  have cap: "ring_capacity (store_slot x r) = ring_capacity r" by (simp add: store_slot_def ring_capacity_def)
  show "counters (publish_head (store_slot x r)) (H + 1) CT T CH"
    "ring_items (publish_head (store_slot x r)) = ring_items r @ [x]"
    using counters_publish_head [OF s(1)] s assms(2) by (simp_all add: cap)
qed

lemma ring_capacity_steps [simp]:
  "ring_capacity (load_tail r) = ring_capacity r" "ring_capacity (load_head r) = ring_capacity r"
  "ring_capacity (store_slot x r) = ring_capacity r" "ring_capacity (publish_head r) = ring_capacity r"
  "ring_capacity (publish_tail r) = ring_capacity r"
  by (simp_all add: ring_capacity_def load_tail_def load_head_def store_slot_def publish_head_def publish_tail_def)

lemma ring_push_spec:
  assumes "ring_inv r" "ring_push x r = (b, r')"
  shows "ring_inv r' \<and> ring_capacity r' = ring_capacity r \<and> b = (length (ring_items r) < ring_capacity r)
    \<and> ring_items r' = (if b then ring_items r @ [x] else ring_items r)"
proof -
  obtain H CT T CH where c: "counters r H CT T CH" using assms(1) by (auto simp: ring_inv_def)
  note d = countersD [OF c] and l = counters_load_tail [OF c]
  show ?thesis
  proof (cases "H = CT + ring_capacity r")
    case False
    then have "H < CT + ring_capacity r" using d by linarith
    moreover from this have "H - T < ring_capacity r" using d by linarith
    ultimately show ?thesis
      using assms(2) False counters_push [OF c, of x]
      by (auto simp: ring_push_def exceeds_capacity_iff [OF c] length_ring_items [OF c] ring_inv_def)
  next
    case True
    show ?thesis
    proof (cases "H = T + ring_capacity r")
      case full: True
      then show ?thesis
        using assms(2) True l
        by (auto simp: ring_push_def exceeds_capacity_iff [OF c] exceeds_capacity_iff [OF l(1)]
          length_ring_items [OF c] ring_inv_def)
    next
      case False
      then have "H < T + ring_capacity r" "H - T < ring_capacity r" using d by linarith+
      then show ?thesis
        using assms(2) True False l(2) counters_push [OF l(1), of x]
        by (auto simp: ring_push_def exceeds_capacity_iff [OF c] exceeds_capacity_iff [OF l(1)]
          length_ring_items [OF c] ring_inv_def)
    qed
  qed
qed

lemma ring_pop_spec:
  assumes "ring_inv r" "ring_pop r = (o', r')"
  shows "ring_inv r' \<and> ring_capacity r' = ring_capacity r
    \<and> (case ring_items r of [] \<Rightarrow> o' = None \<and> ring_items r' = [] | x # xs \<Rightarrow> o' = Some x \<and> ring_items r' = xs)"
proof -
  obtain H CT T CH where c: "counters r H CT T CH" using assms(1) by (auto simp: ring_inv_def)
  note d = countersD [OF c] and l = counters_load_head [OF c]
  show ?thesis
  proof (cases "T = CH")
    case False
    then have "T < CH" using d by linarith
    with assms(2) load_slot_hd [OF c] counters_publish_tail [OF c] show ?thesis
      by (cases "ring_items r") (auto simp: ring_pop_def seems_empty_iff [OF c] ring_inv_def)
  next
    case True
    show ?thesis
    proof (cases "T = H")
      case empty: True
      then have "ring_items r = []" using length_ring_items [OF c] by simp
      with assms(2) True empty l show ?thesis
        by (auto simp: ring_pop_def seems_empty_iff [OF c] seems_empty_iff [OF l(1)] ring_inv_def)
    next
      case False
      then have "T < H" using d by linarith
      with assms(2) True False l(2) load_slot_hd [OF l(1)] counters_publish_tail [OF l(1)] show ?thesis
        by (cases "ring_items r")
           (auto simp: ring_pop_def seems_empty_iff [OF c] seems_empty_iff [OF l(1)] ring_inv_def)
    qed
  qed
qed

interpretation ring_queue: bounded_queue ring_inv ring_items ring_capacity ring_push ring_pop
proof unfold_locales
  show "ring_inv r \<Longrightarrow> length (ring_items r) \<le> ring_capacity r" for r :: "'a spsc_ring"
    using ring_items_bounded by (auto simp: ring_inv_def)
qed (rule ring_push_spec ring_pop_spec; assumption)+

lemma counters_new_ring:
  assumes "valid_ring_capacity n"
  shows "counters (new_ring n v) 0 0 0 0" "ring_items (new_ring n v) = []"
  using assms by (simp_all add: counters_def new_ring_def ring_capacity_def ring_items_def approximate_size_def)

section \<open>Every interleaving is first-in first-out\<close>

text \<open>What is known while the two threads are in the middle of their operations.\<close>

fun producer_inv :: "'a producer \<Rightarrow> 'a spsc_ring \<Rightarrow> nat \<Rightarrow> nat \<Rightarrow> bool" where
  "producer_inv (P_room x) r H CT \<longleftrightarrow> H < CT + ring_capacity r"
| "producer_inv (P_written x) r H CT \<longleftrightarrow> H < CT + ring_capacity r \<and> sr_buffer r ! (H mod ring_capacity r) = x"
| "producer_inv _ r H CT \<longleftrightarrow> True"

fun consumer_inv :: "'a consumer \<Rightarrow> 'a spsc_ring \<Rightarrow> nat \<Rightarrow> nat \<Rightarrow> bool" where
  "consumer_inv C_ready r T CH \<longleftrightarrow> T < CH"
| "consumer_inv (C_got x) r T CH \<longleftrightarrow> T < CH \<and> x = hd (ring_items r)"
| "consumer_inv _ r T CH \<longleftrightarrow> True"

definition system_inv :: "nat \<Rightarrow> 'a ring_event list \<Rightarrow> 'a ring_system \<Rightarrow> bool" where
  "system_inv n es s \<longleftrightarrow> ring_capacity (rg_ring s) = n \<and> pushed es = popped es @ ring_items (rg_ring s)
     \<and> (\<exists>H CT T CH. counters (rg_ring s) H CT T CH \<and> producer_inv (rg_producer s) (rg_ring s) H CT
          \<and> consumer_inv (rg_consumer s) (rg_ring s) T CH)"

lemma pushed_append [simp]: "pushed (es @ fs) = pushed es @ pushed fs"
  by (induction es) (auto split: ring_event.splits)

lemma popped_append [simp]: "popped (es @ fs) = popped es @ popped fs"
  by (induction es) (auto split: ring_event.splits)

lemma consumer_inv_cong:
  "consumer_inv c r T CH \<Longrightarrow> (T < CH \<Longrightarrow> hd (ring_items r') = hd (ring_items r)) \<Longrightarrow> consumer_inv c r' T CH"
  by (cases c) auto

lemma producer_inv_cong:
  "producer_inv p r H CT \<Longrightarrow> sr_buffer r' = sr_buffer r \<Longrightarrow> producer_inv p r' H CT"
  by (cases p) (auto simp: ring_capacity_def)

lemma system_invI:
  assumes "counters (rg_ring s) H CT T CH" "producer_inv (rg_producer s) (rg_ring s) H CT"
    "consumer_inv (rg_consumer s) (rg_ring s) T CH" "ring_capacity (rg_ring s) = n"
    "pushed es = popped es @ ring_items (rg_ring s)"
  shows "system_inv n es s"
  unfolding system_inv_def using assms by blast

lemma producer_step_inv:
  assumes "system_inv n es s" "producer_step x s = (e, s')"
  shows "system_inv n (es @ [e]) s'"
proof -
  obtain H CT T CH where c: "counters (rg_ring s) H CT T CH" and p: "producer_inv (rg_producer s) (rg_ring s) H CT"
    and k: "consumer_inv (rg_consumer s) (rg_ring s) T CH" and n: "ring_capacity (rg_ring s) = n"
    and q: "pushed es = popped es @ ring_items (rg_ring s)"
    using assms(1) by (auto simp: system_inv_def)
  note d = countersD [OF c] and l = counters_load_tail [OF c]
  show ?thesis
  proof (cases "rg_producer s")
    case P_idle
    with assms(2) have "e = E_internal" "s' = s\<lparr>rg_producer := P_check x\<rparr>" by (auto simp: producer_step_def)
    with c k n q show ?thesis by (intro system_invI [where H = H and CT = CT and T = T and CH = CH]) simp_all
  next
    case (P_check y)
    show ?thesis
    proof (cases "H = CT + ring_capacity (rg_ring s)")
      case False
      then have "H < CT + ring_capacity (rg_ring s)" using d by linarith
      with P_check False assms(2) c k n q show ?thesis
        by (intro system_invI [where H = "H" and CT = "CT" and T = "T" and CH = "CH"])
           (auto simp: producer_step_def exceeds_capacity_iff [OF c])
    next
      case True
      have k': "consumer_inv (rg_consumer s) (load_tail (rg_ring s)) T CH"
        using k by (rule consumer_inv_cong) (simp add: l)
      have "producer_inv (if H = T + ring_capacity (rg_ring s) then P_idle else P_room y) (load_tail (rg_ring s)) H T"
        using d by simp
      with P_check True assms(2) l k' n q show ?thesis
        by (intro system_invI [where H = "H" and CT = "T" and T = "T" and CH = "CH"])
           (auto simp: producer_step_def exceeds_capacity_iff [OF c] exceeds_capacity_iff [OF l(1)] Let_def split: if_splits)
    qed
  next
    case (P_room y)
    note w = counters_store_slot [OF c, of y]
    have k': "consumer_inv (rg_consumer s) (store_slot y (rg_ring s)) T CH"
      using k by (rule consumer_inv_cong) (use w P_room p in simp)
    with P_room assms(2) w p n q show ?thesis
      by (intro system_invI [where H = "H" and CT = "CT" and T = "T" and CH = "CH"]) (auto simp: producer_step_def)
  next
    case (P_written y)
    note w = counters_publish_head [OF c]
    have ne: "T < CH \<Longrightarrow> ring_items (rg_ring s) \<noteq> []" using load_slot_hd(1) [OF c] by simp
    have "consumer_inv (rg_consumer s) (publish_head (rg_ring s)) T CH"
      using k by (rule consumer_inv_cong) (use w P_written p ne in auto)
    with P_written assms(2) w p n q show ?thesis
      by (intro system_invI [where H = "H + 1" and CT = "CT" and T = "T" and CH = "CH"]) (auto simp: producer_step_def)
  qed
qed

lemma consumer_step_inv:
  assumes "system_inv n es s" "consumer_step s = (e, s')"
  shows "system_inv n (es @ [e]) s'"
proof -
  obtain H CT T CH where c: "counters (rg_ring s) H CT T CH" and p: "producer_inv (rg_producer s) (rg_ring s) H CT"
    and k: "consumer_inv (rg_consumer s) (rg_ring s) T CH" and n: "ring_capacity (rg_ring s) = n"
    and q: "pushed es = popped es @ ring_items (rg_ring s)"
    using assms(1) by (auto simp: system_inv_def)
  note d = countersD [OF c] and l = counters_load_head [OF c]
  show ?thesis
  proof (cases "rg_consumer s")
    case C_idle
    with assms(2) have "e = E_internal" "s' = s\<lparr>rg_consumer := C_check\<rparr>" by (auto simp: consumer_step_def)
    with c p n q show ?thesis by (intro system_invI [where H = H and CT = CT and T = T and CH = CH]) simp_all
  next
    case C_check
    show ?thesis
    proof (cases "T = CH")
      case False
      then have "T < CH" using d by linarith
      with C_check False assms(2) c p n q show ?thesis
        by (intro system_invI [where H = "H" and CT = "CT" and T = "T" and CH = "CH"])
           (auto simp: consumer_step_def seems_empty_iff [OF c])
    next
      case True
      have p': "producer_inv (rg_producer s) (load_head (rg_ring s)) H CT"
        using p by (rule producer_inv_cong) (simp add: load_head_def)
      have "consumer_inv (if T = H then C_idle else C_ready) (load_head (rg_ring s)) T H" using d by simp
      with C_check True assms(2) l p' n q show ?thesis
        by (intro system_invI [where H = "H" and CT = "CT" and T = "T" and CH = "H"])
           (auto simp: consumer_step_def seems_empty_iff [OF c] seems_empty_iff [OF l(1)] Let_def split: if_splits)
    qed
  next
    case C_ready
    with assms(2) c p k n q load_slot_hd [OF c] show ?thesis
      by (intro system_invI [where H = "H" and CT = "CT" and T = "T" and CH = "CH"]) (auto simp: consumer_step_def)
  next
    case (C_got y)
    then have t: "T < CH" "y = hd (ring_items (rg_ring s))" using k by auto
    note w = counters_publish_tail [OF c t(1)]
    have "producer_inv (rg_producer s) (publish_tail (rg_ring s)) H CT"
      using p by (rule producer_inv_cong) (simp add: publish_tail_def)
    with C_got assms(2) w n q t(2) load_slot_hd(1) [OF c t(1)] show ?thesis
      by (intro system_invI [where H = "H" and CT = "CT" and T = "T + 1" and CH = "CH"]) (auto simp: consumer_step_def)
  qed
qed

lemma ring_run_inv:
  assumes "ring_run n es s" "valid_ring_capacity n"
  shows "system_inv n es s"
  using assms
proof (induction rule: ring_run.induct)
  case (ring_start v)
  have "ring_capacity (new_ring n v) = n" by (simp add: new_ring_def ring_capacity_def)
  with counters_new_ring [OF ring_start, of v] show ?case
    by (auto simp: system_inv_def ring_system_def)
qed (blast intro: producer_step_inv consumer_step_inv)+

section \<open>Properties\<close>

lemma sample_capacity: "valid_ring_capacity 2"
  by (simp add: valid_ring_capacity_def)

text \<open>A whole push is one of the runs: its steps, with nothing in between.\<close>

lemma producer_runs:
  assumes "ring_run n es s"
  shows "\<exists>es'. ring_run n es' (snd (producer_step x s))"
  using ring_produce [OF assms, of x "fst (producer_step x s)" "snd (producer_step x s)"] by auto

lemma push_is_run:
  assumes "ring_run n es s" "rg_producer s = P_idle"
  shows "\<exists>es'. ring_run n es' (s\<lparr>rg_ring := snd (ring_push x (rg_ring s))\<rparr>)"
proof -
  have idle: "s\<lparr>rg_ring := r, rg_producer := P_idle\<rparr> = s\<lparr>rg_ring := r\<rparr>" for r using assms(2) by (cases s) simp
  obtain e1 where 1: "ring_run n e1 (s\<lparr>rg_producer := P_check x\<rparr>)"
    using producer_runs [OF assms(1), of x] assms(2) by (auto simp: producer_step_def)
  obtain e2 where 2: "ring_run n e2 (snd (producer_step x (s\<lparr>rg_producer := P_check x\<rparr>)))"
    using producer_runs [OF 1, of x] by blast
  show ?thesis
  proof (cases "fst (ring_push x (rg_ring s))")
    case False
    then show ?thesis using 2 idle by (auto simp: producer_step_def ring_push_def Let_def split: if_splits)
  next
    case True
    define r where "r = (if exceeds_capacity (rg_ring s) then load_tail (rg_ring s) else rg_ring s)"
    have p: "snd (ring_push x (rg_ring s)) = publish_head (store_slot x r)"
      using True by (auto simp: ring_push_def r_def Let_def split: if_splits)
    have "ring_run n e2 (s\<lparr>rg_ring := r, rg_producer := P_room x\<rparr>)"
      using 2 True by (auto simp: producer_step_def ring_push_def r_def Let_def split: if_splits)
    from producer_runs [OF this, of x] obtain e3 where "ring_run n e3 (s\<lparr>rg_ring := store_slot x r, rg_producer := P_written x\<rparr>)"
      by (auto simp: producer_step_def)
    from producer_runs [OF this, of x] obtain e4 where
      "ring_run n e4 (s\<lparr>rg_ring := publish_head (store_slot x r), rg_producer := P_idle\<rparr>)"
      by (auto simp: producer_step_def)
    then show ?thesis using p idle by auto
  qed
qed

text \<open>Two items were pushed into a ring of two slots, whose producer now tries a third.\<close>

definition full_system :: "nat ring_system" where
  "full_system = (ring_system 2 0)\<lparr>rg_ring := snd (ring_push 6 (snd (ring_push 5 (new_ring 2 0)))), rg_producer := P_check 7\<rparr>"

lemma full_system_run: "\<exists>es. ring_run 2 es full_system"
proof -
  obtain e1 where "ring_run 2 e1 ((ring_system 2 0)\<lparr>rg_ring := snd (ring_push 5 (new_ring 2 (0 :: nat)))\<rparr>)"
    using push_is_run [OF ring_start, of 2 "0 :: nat" 5] by (auto simp: ring_system_def)
  from push_is_run [OF this, of 6] obtain e2 where
    "ring_run 2 e2 ((ring_system 2 0)\<lparr>rg_ring := snd (ring_push 6 (snd (ring_push 5 (new_ring 2 (0 :: nat)))))\<rparr>)"
    by (auto simp: ring_system_def)
  from producer_runs [OF this, of 7] show ?thesis by (simp add: full_system_def producer_step_def ring_system_def)
qed

lemma new_ring_inv: "valid_ring_capacity n \<Longrightarrow> ring_inv (new_ring n v)"
  using counters_new_ring(1) [of n v] by (auto simp only: ring_inv_def)

lemma full_system_facts: "ring_items (rg_ring full_system) = [5, 6]" "fst (producer_step 0 full_system) = E_push_full"
proof -
  have cap: "ring_capacity (new_ring 2 (0 :: nat)) = 2" by (simp add: ring_capacity_def new_ring_def)
  have 1: "ring_inv (snd (ring_push 5 (new_ring 2 (0 :: nat))))" "ring_capacity (snd (ring_push 5 (new_ring 2 (0 :: nat)))) = 2"
    "ring_items (snd (ring_push 5 (new_ring 2 (0 :: nat)))) = [5]"
    using ring_push_spec [OF new_ring_inv [OF sample_capacity], of "5 :: nat" 0]
      counters_new_ring(2) [OF sample_capacity, of "0 :: nat"] cap by (metis append_Nil less_numeral_extra(3) list.size(3) prod.collapse zero_less_numeral)+
  have 2: "ring_inv (rg_ring full_system)" "ring_capacity (rg_ring full_system) = 2" "ring_items (rg_ring full_system) = [5, 6]"
    using ring_push_spec [OF 1(1), of 6] 1(2,3) by (cases "ring_push 6 (snd (ring_push 5 (new_ring 2 (0 :: nat))))"; simp add: full_system_def)+
  then show "ring_items (rg_ring full_system) = [5, 6]" by simp
  have "fst (ring_push 7 (rg_ring full_system)) = False"
    using ring_push_spec [OF 2(1), of 7] 2(2,3) by (cases "ring_push 7 (rg_ring full_system)") simp
  moreover have "rg_producer full_system = P_check 7" by (simp add: full_system_def)
  ultimately show "fst (producer_step 0 full_system) = E_push_full"
    by (auto simp: producer_step_def ring_push_def Let_def split: if_splits)
qed

text \<open>
  C6: The ring is first-in first-out under every interleaving of the two threads at the level of single memory
  accesses, also after the 64-bit counters wrapped: the items whose push returned are, in order, the items whose
  pop returned followed by the items stored in the ring, which are at most as many as it has slots. Nothing is
  lost, duplicated, reordered or torn.\<close>

theorem ring_fifo:
  assumes "ring_run n es s" "valid_ring_capacity n"
  shows "pushed es = popped es @ ring_items (rg_ring s) \<and> length (ring_items (rg_ring s)) \<le> n"
  using ring_run_inv [OF assms] ring_items_bounded by (fastforce simp: system_inv_def)

theorem ring_fifo_witness:
  "\<exists>es. ring_run 2 es full_system \<and> pushed es = popped es @ [5, 6]"
proof -
  obtain es where "ring_run 2 es full_system" using full_system_run by blast
  with ring_fifo [OF this sample_capacity] show ?thesis by (auto simp: full_system_facts)
qed

text \<open>
  A refused operation saw the truth, although both sides work on cached copies of the other's counter: when a
  push is refused, exactly as many items as the ring has slots are in it at that step; when a pop is refused,
  every pushed item has been popped.\<close>

theorem ring_refusals_exact:
  assumes "ring_run n es s" "valid_ring_capacity n"
  shows "(fst (producer_step x s) = E_push_full \<longrightarrow> length (ring_items (rg_ring s)) = n)
    \<and> (fst (consumer_step s) = E_pop_empty \<longrightarrow> pushed es = popped es)"
proof -
  obtain H CT T CH where c: "counters (rg_ring s) H CT T CH" and n: "ring_capacity (rg_ring s) = n"
    and q: "pushed es = popped es @ ring_items (rg_ring s)"
    using ring_run_inv [OF assms] by (auto simp: system_inv_def)
  have "fst (producer_step x s) = E_push_full \<Longrightarrow> H = T + n"
    using exceeds_capacity_iff [OF counters_load_tail(1) [OF c]] n
    by (auto simp: producer_step_def Let_def split: producer.splits if_splits)
  moreover have "fst (consumer_step s) = E_pop_empty \<Longrightarrow> T = H"
    using seems_empty_iff [OF counters_load_head(1) [OF c]]
    by (auto simp: consumer_step_def Let_def split: consumer.splits if_splits)
  ultimately show ?thesis using q length_ring_items [OF c] by auto
qed

theorem ring_refusals_exact_witness: "length (ring_items (rg_ring full_system)) = 2"
proof -
  obtain es where "ring_run 2 es full_system" using full_system_run by blast
  with ring_refusals_exact [OF this sample_capacity, of 0] full_system_facts show ?thesis by simp
qed

text \<open>
  Called from one thread, the ring is indistinguishable from a bounded list queue: every script of pushes and
  pops returns the same replies, refusals included, for every capacity the class can be instantiated with.\<close>

theorem ring_refines_list_queue:
  assumes "valid_ring_capacity n"
  shows "queue_run ring_push ring_pop ops (new_ring n v) = queue_run (list_push n) list_pop ops []"
proof -
  from ring_queue.queue_run_refines [OF new_ring_inv [OF assms], of ops v] show ?thesis
    by (simp add: counters_new_ring(2) [OF assms]) (simp add: ring_capacity_def new_ring_def)
qed

theorem ring_refines_list_queue_witness:
  "queue_run ring_push ring_pop [Op_push 1, Op_push 2, Op_push 3, Op_pop] (new_ring 2 (0 :: nat))
   = [Reply_push True, Reply_push True, Reply_push False, Reply_pop (Some 1)]"
  using ring_refines_list_queue [OF sample_capacity, of "[Op_push 1, Op_push 2, Op_push 3, Op_pop]" "0 :: nat"]
  by (simp add: list_push_def list_pop_def)

end
