(* ===== verification/Core_Stats.thy ===== *)
theory Core_Stats
  imports Prelude
begin

text \<open>
  The counters that threads share: \<^verbatim>\<open>include/fgep/telemetry/core_stats.hpp\<close>. \<^verbatim>\<open>CoreStats\<close> is an
  array of atomic 64-bit counters, one per \<^verbatim>\<open>CoreCounter\<close>; the model is the function from the counter to its value.
  Every operation is built from atomic accesses: \<^verbatim>\<open>increment\<close> is one \<^verbatim>\<open>fetch_add\<close>, \<^verbatim>\<open>snapshot\<close> is one
  load per counter in the order of the enumeration, \<^verbatim>\<open>reset\<close> one store per counter. The accesses are relaxed, but all
  accesses to one counter have a single order, and each loaded value is compared with its own counter only.

  The theory shows that a snapshot taken while other threads count lies between the counters at its start and at its
  end, counter by counter, and that no increment is lost.
\<close>

section \<open>Counters\<close>

datatype core_counter =
    CC_rx_packets | CC_tx_packets | CC_rx_dropped | CC_tx_dropped | CC_rx_nombuf
  | CC_submit_queued | CC_submit_rejected | CC_ring_full | CC_backend_accepted | CC_backend_rejected

definition core_counter_count :: nat where
  "core_counter_count = 10"

fun core_counter_index :: "core_counter \<Rightarrow> nat" where
  "core_counter_index CC_rx_packets = 0"
| "core_counter_index CC_tx_packets = 1"
| "core_counter_index CC_rx_dropped = 2"
| "core_counter_index CC_tx_dropped = 3"
| "core_counter_index CC_rx_nombuf = 4"
| "core_counter_index CC_submit_queued = 5"
| "core_counter_index CC_submit_rejected = 6"
| "core_counter_index CC_ring_full = 7"
| "core_counter_index CC_backend_accepted = 8"
| "core_counter_index CC_backend_rejected = 9"

text \<open>The counters in the order of their indices: what the loops over the array visit.\<close>

definition all_counters :: "core_counter list" where
  "all_counters = [CC_rx_packets, CC_tx_packets, CC_rx_dropped, CC_tx_dropped, CC_rx_nombuf,
     CC_submit_queued, CC_submit_rejected, CC_ring_full, CC_backend_accepted, CC_backend_rejected]"

lemma length_all_counters [simp]: "length all_counters = core_counter_count"
  by (simp add: all_counters_def core_counter_count_def)

lemma core_counter_index_less [simp]: "core_counter_index c < core_counter_count"
  by (cases c) (simp_all add: core_counter_count_def)

lemma all_counters_index [simp]: "all_counters ! core_counter_index c = c"
  by (cases c) (simp_all add: all_counters_def)

type_synonym core_stats = "core_counter \<Rightarrow> u64"

section \<open>Operations\<close>

definition cs_increment :: "core_counter \<Rightarrow> u64 \<Rightarrow> core_stats \<Rightarrow> core_stats" where
  "cs_increment counter amount cs = cs(counter := cs counter + amount)"

definition cs_load :: "core_counter \<Rightarrow> core_stats \<Rightarrow> u64" where
  "cs_load counter cs = cs counter"

definition cs_reset :: core_stats where
  "cs_reset = (\<lambda>_. 0)"

definition on_rx_packets :: "u64 \<Rightarrow> core_stats \<Rightarrow> core_stats" where
  "on_rx_packets count = cs_increment CC_rx_packets count"

definition on_tx_packets :: "u64 \<Rightarrow> core_stats \<Rightarrow> core_stats" where
  "on_tx_packets count = cs_increment CC_tx_packets count"

definition on_rx_drop :: "u64 \<Rightarrow> core_stats \<Rightarrow> core_stats" where
  "on_rx_drop count = cs_increment CC_rx_dropped count"

definition on_tx_drop :: "u64 \<Rightarrow> core_stats \<Rightarrow> core_stats" where
  "on_tx_drop count = cs_increment CC_tx_dropped count"

definition on_rx_nombuf :: "u64 \<Rightarrow> core_stats \<Rightarrow> core_stats" where
  "on_rx_nombuf count = cs_increment CC_rx_nombuf count"

definition on_submit_queued :: "core_stats \<Rightarrow> core_stats" where
  "on_submit_queued = cs_increment CC_submit_queued 1"

definition on_submit_rejected :: "core_stats \<Rightarrow> core_stats" where
  "on_submit_rejected = cs_increment CC_submit_rejected 1"

definition on_ring_full :: "core_stats \<Rightarrow> core_stats" where
  "on_ring_full = cs_increment CC_ring_full 1"

definition on_backend_accepted :: "core_stats \<Rightarrow> core_stats" where
  "on_backend_accepted = cs_increment CC_backend_accepted 1"

definition on_backend_rejected :: "core_stats \<Rightarrow> core_stats" where
  "on_backend_rejected = cs_increment CC_backend_rejected 1"

record core_stats_snapshot =
  css_counters :: "u64 list"

definition snapshot_value :: "core_stats_snapshot \<Rightarrow> core_counter \<Rightarrow> u64" where
  "snapshot_value snap counter = css_counters snap ! core_counter_index counter"

text \<open>\<^verbatim>\<open>snapshot\<close> while no other thread runs.\<close>

definition cs_snapshot :: "core_stats \<Rightarrow> core_stats_snapshot" where
  "cs_snapshot cs = \<lparr>css_counters = map (\<lambda>index. cs_load (all_counters ! index) cs) [0..<core_counter_count]\<rparr>"

lemma snapshot_value_cs_snapshot [simp]: "snapshot_value (cs_snapshot cs) c = cs c"
  by (simp add: snapshot_value_def cs_snapshot_def cs_load_def)

section \<open>Counting while a snapshot is taken\<close>

text \<open>
  The next atomic access: an increment by some writer, the store of some thread's \<^verbatim>\<open>reset\<close> to one counter, or the
  reader's next load.\<close>

datatype stats_access = SA_add core_counter u64 | SA_clear core_counter | SA_load

text \<open>The counters, and the values that the loop of \<^verbatim>\<open>snapshot\<close> has stored.\<close>

record stats_run =
  sru_counters :: core_stats
  sru_loaded :: "u64 list"

definition snapshot_begins :: "core_stats \<Rightarrow> stats_run" where
  "snapshot_begins cs = \<lparr>sru_counters = cs, sru_loaded = []\<rparr>"

fun stats_step :: "stats_access \<Rightarrow> stats_run \<Rightarrow> stats_run" where
  "stats_step (SA_add counter amount) s = s\<lparr>sru_counters := cs_increment counter amount (sru_counters s)\<rparr>"
| "stats_step (SA_clear counter) s = s\<lparr>sru_counters := (sru_counters s)(counter := 0)\<rparr>"
| "stats_step SA_load s =
     (if length (sru_loaded s) < core_counter_count
      then s\<lparr>sru_loaded := sru_loaded s @ [cs_load (all_counters ! length (sru_loaded s)) (sru_counters s)]\<rparr>
      else s)"

definition stats_after :: "stats_access list \<Rightarrow> stats_run \<Rightarrow> stats_run" where
  "stats_after accesses s = fold stats_step accesses s"

definition snapshot_done :: "stats_run \<Rightarrow> bool" where
  "snapshot_done s \<longleftrightarrow> length (sru_loaded s) = core_counter_count"

definition snapshot_taken :: "stats_run \<Rightarrow> core_stats_snapshot" where
  "snapshot_taken s = \<lparr>css_counters = sru_loaded s\<rparr>"

text \<open>The stores of \<^verbatim>\<open>reset\<close>, and what all increments of a counter add up to.\<close>

definition reset_accesses :: "stats_access list" where
  "reset_accesses = map SA_clear all_counters"

fun added :: "core_counter \<Rightarrow> stats_access \<Rightarrow> nat" where
  "added c (SA_add counter amount) = (if counter = c then unat amount else 0)"
| "added c (SA_clear counter) = 0"
| "added c SA_load = 0"

definition total_added :: "core_counter \<Rightarrow> stats_access list \<Rightarrow> nat" where
  "total_added c accesses = sum_list (map (added c) accesses)"

fun is_clear :: "stats_access \<Rightarrow> bool" where
  "is_clear (SA_clear counter) = True"
| "is_clear (SA_add counter amount) = False"
| "is_clear SA_load = False"

lemma reset_alone: "sru_counters (stats_after reset_accesses s) = cs_reset"
proof
  fix c show "sru_counters (stats_after reset_accesses s) c = cs_reset c"
    by (cases c) (simp_all add: stats_after_def reset_accesses_def all_counters_def cs_reset_def)
qed

text \<open>A snapshot without other accesses in between is the sequential one.\<close>

lemma loads_alone:
  "k \<le> core_counter_count \<Longrightarrow> stats_after (replicate k SA_load) (snapshot_begins cs)
     = \<lparr>sru_counters = cs, sru_loaded = map (\<lambda>index. cs_load (all_counters ! index) cs) [0..<k]\<rparr>"
proof (induction k)
  case 0 show ?case by (simp add: stats_after_def snapshot_begins_def)
next
  case (Suc k)
  have "stats_after (replicate (Suc k) SA_load) (snapshot_begins cs)
      = stats_step SA_load (stats_after (replicate k SA_load) (snapshot_begins cs))"
    by (simp add: stats_after_def replicate_append_same [symmetric] del: replicate.simps)
  with Suc show ?case by simp
qed

section \<open>Facts\<close>

lemma stats_after_snoc: "stats_after (xs @ [x]) s = stats_step x (stats_after xs s)"
  by (simp add: stats_after_def)

lemma total_added_snoc: "total_added c (xs @ [x]) = total_added c xs + added c x"
  by (simp add: total_added_def)

text \<open>Counters hold all increments, modulo their width.\<close>

lemma counter_exact:
  assumes "\<not> list_ex is_clear accesses"
  shows "sru_counters (stats_after accesses s) c = sru_counters s c + of_nat (total_added c accesses)"
  using assms
proof (induction accesses rule: rev_induct)
  case Nil show ?case by (simp add: stats_after_def total_added_def)
next
  case (snoc x xs)
  then show ?case by (cases x) (auto simp: stats_after_snoc total_added_snoc cs_increment_def)
qed

text \<open>
  The invariant of the loop: each value it has stored is what the counter held after some of the increments that have
  been made since.\<close>

definition loads_inv :: "core_stats \<Rightarrow> stats_access list \<Rightarrow> bool" where
  "loads_inv cs accesses \<longleftrightarrow> (let s = stats_after accesses (snapshot_begins cs) in
     length (sru_loaded s) \<le> core_counter_count
   \<and> (\<forall>i < length (sru_loaded s). \<exists>k \<le> total_added (all_counters ! i) accesses.
        sru_loaded s ! i = cs (all_counters ! i) + of_nat k))"

lemma loads_inv_step:
  assumes "loads_inv cs xs" "\<not> list_ex is_clear (xs @ [x])"
  shows "loads_inv cs (xs @ [x])"
proof -
  let ?s = "stats_after xs (snapshot_begins cs)"
  have old: "\<exists>k \<le> total_added (all_counters ! i) (xs @ [x]). sru_loaded ?s ! i = cs (all_counters ! i) + of_nat k"
    if "i < length (sru_loaded ?s)" for i
    using assms(1) that unfolding loads_inv_def Let_def total_added_snoc by (meson trans_le_add1)
  have now: "sru_counters ?s c = cs c + of_nat (total_added c xs)" for c
    using counter_exact [of xs "snapshot_begins cs" c] assms(2) by (simp add: snapshot_begins_def)
  show ?thesis
  proof (cases x)
    case SA_load
    show ?thesis
    proof (cases "length (sru_loaded ?s) < core_counter_count")
      case True
      with old now SA_load show ?thesis
        by (auto simp: loads_inv_def stats_after_snoc total_added_snoc nth_append cs_load_def less_Suc_eq Let_def)
    next
      case False
      with old SA_load assms(1) show ?thesis by (simp add: loads_inv_def stats_after_snoc Let_def)
    qed
  qed (use old assms in \<open>auto simp: loads_inv_def stats_after_snoc Let_def\<close>)
qed

lemma loads_inv_run: "\<not> list_ex is_clear accesses \<Longrightarrow> loads_inv cs accesses"
proof (induction accesses rule: rev_induct)
  case Nil show ?case by (simp add: loads_inv_def stats_after_def snapshot_begins_def)
next
  case (snoc x xs) then show ?case by (intro loads_inv_step) auto
qed

lemma unat_counter:
  assumes "unat w + n < 2 ^ 64" "k \<le> n"
  shows "unat ((w :: u64) + of_nat k) = unat w + k"
proof -
  have "unat (of_nat k :: u64) = k" using assms by (simp add: unat_of_nat)
  with assms show ?thesis by (simp add: unat_word_ariths)
qed

text \<open>Every interleaving of two writers has the same effect on the counters.\<close>

lemma total_added_shuffles:
  assumes "zs \<in> shuffles xs ys" shows "total_added c zs = total_added c xs + total_added c ys"
  using assms
proof (induction xs ys arbitrary: zs rule: shuffles.induct)
  case (3 x xs y ys)
  then show ?case by (auto simp: total_added_def add.assoc add.left_commute)
qed (simp_all add: total_added_def)

text \<open>
  C27: What a monitoring thread sees. Whatever increments other threads make while it takes a snapshot, in whatever order,
  and as long as no counter passes \<open>2\<^sup>6\<^sup>4\<close>: no increment is lost, and every counter of the snapshot lies
  between its values at the beginning and at the end.\<close>

theorem snapshot_between:
  assumes "\<not> list_ex is_clear accesses" "stats_after accesses (snapshot_begins cs) = s" "snapshot_done s"
    and "unat (cs c) + total_added c accesses < 2 ^ 64"
  shows "cs c \<le> snapshot_value (snapshot_taken s) c \<and> snapshot_value (snapshot_taken s) c \<le> sru_counters s c
    \<and> unat (sru_counters s c) = unat (cs c) + total_added c accesses"
proof -
  have "core_counter_index c < length (sru_loaded s)" using assms(3) by (simp add: snapshot_done_def)
  with loads_inv_run [OF assms(1), of cs] assms(2)
  have "\<exists>k \<le> total_added (all_counters ! core_counter_index c) accesses.
      sru_loaded s ! core_counter_index c = cs (all_counters ! core_counter_index c) + of_nat k"
    unfolding loads_inv_def Let_def by blast
  then obtain k where k: "k \<le> total_added c accesses" "snapshot_value (snapshot_taken s) c = cs c + of_nat k"
    by (auto simp: snapshot_value_def snapshot_taken_def)
  have e: "sru_counters s c = cs c + of_nat (total_added c accesses)"
    using counter_exact [OF assms(1), of "snapshot_begins cs" c] assms(2) by (simp add: snapshot_begins_def)
  show ?thesis
    using unat_counter [OF assms(4) k(1)] unat_counter [OF assms(4) order_refl] k
    by (simp add: e word_le_nat_alt)
qed

definition sample_accesses :: "stats_access list" where
  "sample_accesses = SA_add CC_submit_queued 1 # replicate 7 SA_load @
     [SA_add CC_submit_queued 1, SA_add CC_backend_accepted 1, SA_load, SA_load, SA_load]"

theorem snapshot_between_witness:
  "snapshot_value (snapshot_taken (stats_after sample_accesses (snapshot_begins cs_reset))) CC_submit_queued \<le> 2
   \<and> snapshot_done (stats_after sample_accesses (snapshot_begins cs_reset))"
proof -
  have d: "snapshot_done (stats_after sample_accesses (snapshot_begins cs_reset))"
    by (simp add: sample_accesses_def stats_after_def snapshot_done_def snapshot_begins_def numeral_eq_Suc
      core_counter_count_def)
  have t: "total_added CC_submit_queued sample_accesses = 2"
    by (simp add: sample_accesses_def total_added_def numeral_eq_Suc)
  have "\<not> list_ex is_clear sample_accesses" by (simp add: sample_accesses_def numeral_eq_Suc)
  from snapshot_between [OF this refl d, of CC_submit_queued] t d show ?thesis
    by (auto simp: cs_reset_def word_le_nat_alt)
qed

end
