(* ===== verification/Execution.thy ===== *)
theory Execution
  imports Guardrail Spsc_Ring Core_Stats "HOL-Library.Sublist"
begin

text \<open>
  Where accepted orders go. \<^verbatim>\<open>include/fgep/execution/execution_backend.hpp\<close> is the interface
  (\<^verbatim>\<open>ExecutionBackend::submit\<close>) with its recording implementation (\<^verbatim>\<open>src/execution/execution_backend.cpp\<close>);
  \<^verbatim>\<open>encoded_backend_submit.cpp\<close> encodes an order and hands it on; \<^verbatim>\<open>backend_submit_queue.hpp\<close>,
  \<^verbatim>\<open>queued_execution_backend.hpp\<close> and \<^verbatim>\<open>async_execution_backend.hpp\<close> put the ring of theory \<open>Spsc_Ring\<close>
  between the caller and another backend, with the counters of theory \<open>Core_Stats\<close> for what happens; and
  \<^verbatim>\<open>src/gate/permissive_gate.cpp\<close> puts the guardrails in front of a backend.

  The locale \<open>order_sink\<close> is the contract of \<^verbatim>\<open>ExecutionBackend\<close>: an accepted request is appended to what the
  backend holds, a rejected one is not. A backend passed by reference is a submit function and its state.
\<close>

section \<open>Backends\<close>

datatype backend_order_kind = BK_enter | BK_replace | BK_cancel

datatype backend_submit_decision = BSD_accepted | BSD_rejected

datatype backend_reject_reason =
    BR_none | BR_backend_closed | BR_empty_payload | BR_capacity_exceeded | BR_invalid_endpoint
  | BR_socket_error | BR_send_failed | BR_unsupported_backend

record backend_submit_request =
  bsq_user_ref_num :: u32
  bsq_kind :: backend_order_kind
  bsq_payload :: bytes

record backend_submit_result =
  bsr_decision :: backend_submit_decision
  bsr_reject_reason :: backend_reject_reason
  bsr_user_ref_num :: u32
  bsr_kind :: backend_order_kind
  bsr_payload_size :: nat

type_synonym 'b submitter = "backend_submit_request \<Rightarrow> 'b \<Rightarrow> backend_submit_result \<times> 'b"

definition make_backend_reject :: "backend_submit_request \<Rightarrow> backend_reject_reason \<Rightarrow> backend_submit_result" where
  "make_backend_reject request reason =
     \<lparr>bsr_decision = BSD_rejected, bsr_reject_reason = reason, bsr_user_ref_num = bsq_user_ref_num request,
      bsr_kind = bsq_kind request, bsr_payload_size = length (bsq_payload request)\<rparr>"

definition make_backend_accept :: "backend_submit_request \<Rightarrow> backend_submit_result" where
  "make_backend_accept request =
     \<lparr>bsr_decision = BSD_accepted, bsr_reject_reason = BR_none, bsr_user_ref_num = bsq_user_ref_num request,
      bsr_kind = bsq_kind request, bsr_payload_size = length (bsq_payload request)\<rparr>"

text \<open>A recorded submission has the fields of the request, with a copy of its payload.\<close>

type_synonym recorded_backend_submit = backend_submit_request

record recording_backend =
  rb_open :: bool
  rb_max_submissions :: nat
  rb_submissions :: "recorded_backend_submit list"

definition new_recording_backend :: "nat \<Rightarrow> recording_backend" where
  "new_recording_backend max_submissions =
     \<lparr>rb_open = True, rb_max_submissions = max_submissions, rb_submissions = []\<rparr>"

definition rb_at_capacity :: "recording_backend \<Rightarrow> bool" where
  "rb_at_capacity rb \<longleftrightarrow> rb_max_submissions rb \<noteq> 0 \<and> length (rb_submissions rb) \<ge> rb_max_submissions rb"

definition recording_submit :: "recording_backend submitter" where
  "recording_submit request rb =
     (if \<not> rb_open rb then (make_backend_reject request BR_backend_closed, rb)
      else if bsq_payload request = [] then (make_backend_reject request BR_empty_payload, rb)
      else if rb_at_capacity rb then (make_backend_reject request BR_capacity_exceeded, rb)
      else (make_backend_accept request, rb\<lparr>rb_submissions := rb_submissions rb @ [request]\<rparr>))"

definition rb_set_open :: "bool \<Rightarrow> recording_backend \<Rightarrow> recording_backend" where
  "rb_set_open is_open rb = rb\<lparr>rb_open := is_open\<rparr>"

definition rb_set_max_submissions :: "nat \<Rightarrow> recording_backend \<Rightarrow> recording_backend" where
  "rb_set_max_submissions max_submissions rb = rb\<lparr>rb_max_submissions := max_submissions\<rparr>"

definition rb_submitted_count :: "recording_backend \<Rightarrow> nat" where
  "rb_submitted_count rb = length (rb_submissions rb)"

definition rb_clear :: "recording_backend \<Rightarrow> recording_backend" where
  "rb_clear rb = rb\<lparr>rb_submissions := []\<rparr>"

section \<open>The gate\<close>

datatype gate_submit_decision = GSD_accepted | GSD_rejected

datatype gate_reject_source = GRS_none | GRS_guardrail | GRS_backend

record gate_submit_result =
  gsr_decision :: gate_submit_decision
  gsr_reject_source :: gate_reject_source
  gsr_guardrail_result :: guardrail_result
  gsr_backend_result :: backend_submit_result

definition reject_from_guardrail :: "guardrail_result \<Rightarrow> backend_submit_request \<Rightarrow> gate_submit_result" where
  "reject_from_guardrail guardrail_result request =
     \<lparr>gsr_decision = GSD_rejected, gsr_reject_source = GRS_guardrail, gsr_guardrail_result = guardrail_result,
      gsr_backend_result =
        \<lparr>bsr_decision = BSD_rejected, bsr_reject_reason = BR_none, bsr_user_ref_num = bsq_user_ref_num request,
         bsr_kind = bsq_kind request, bsr_payload_size = length (bsq_payload request)\<rparr>\<rparr>"

definition from_backend :: "guardrail_result \<Rightarrow> backend_submit_result \<Rightarrow> gate_submit_result" where
  "from_backend guardrail_result backend_result =
     \<lparr>gsr_decision = (if bsr_decision backend_result = BSD_accepted then GSD_accepted else GSD_rejected),
      gsr_reject_source = (if bsr_decision backend_result = BSD_accepted then GRS_none else GRS_backend),
      gsr_guardrail_result = guardrail_result, gsr_backend_result = backend_result\<rparr>"

definition gate_submit ::
  "'b submitter \<Rightarrow> guardrail_state \<Rightarrow> guardrail_order \<Rightarrow> backend_submit_request \<Rightarrow> 'b \<Rightarrow> gate_submit_result \<times> 'b" where
  "gate_submit submit gs order request backend =
     (let guardrail_result = guardrail_check gs order
      in if gres_decision guardrail_result = GD_rejected then (reject_from_guardrail guardrail_result request, backend)
         else case submit request backend of
           (backend_result, backend') \<Rightarrow> (from_backend guardrail_result backend_result, backend'))"

fun backend_order_kind_from_guardrail :: "guardrail_order_kind \<Rightarrow> backend_order_kind" where
  "backend_order_kind_from_guardrail GK_enter = BK_enter"
| "backend_order_kind_from_guardrail GK_replace = BK_replace"
| "backend_order_kind_from_guardrail GK_cancel = BK_cancel"

section \<open>Encoded submissions\<close>

datatype encoded_submit_decision = ESD_accepted | ESD_rejected

datatype encoded_submit_reject_source = ESR_none | ESR_encode | ESR_backend

record encoded_submit_result =
  esr_decision :: encoded_submit_decision
  esr_reject_source :: encoded_submit_reject_source
  esr_encode_error :: error_code
  esr_backend_result :: backend_submit_result

definition make_encode_reject :: "error_code \<Rightarrow> u32 \<Rightarrow> backend_order_kind \<Rightarrow> encoded_submit_result" where
  "make_encode_reject error user_ref_num kind =
     \<lparr>esr_decision = ESD_rejected, esr_reject_source = ESR_encode, esr_encode_error = error,
      esr_backend_result =
        \<lparr>bsr_decision = BSD_rejected, bsr_reject_reason = BR_none, bsr_user_ref_num = user_ref_num,
         bsr_kind = kind, bsr_payload_size = 0\<rparr>\<rparr>"

definition make_backend_result :: "backend_submit_result \<Rightarrow> encoded_submit_result" where
  "make_backend_result backend_result =
     \<lparr>esr_decision = (if bsr_decision backend_result = BSD_accepted then ESD_accepted else ESD_rejected),
      esr_reject_source = (if bsr_decision backend_result = BSD_accepted then ESR_none else ESR_backend),
      esr_encode_error = EC_ok, esr_backend_result = backend_result\<rparr>"

definition submit_encoded_payload ::
  "'b submitter \<Rightarrow> u32 \<Rightarrow> backend_order_kind \<Rightarrow> bytes \<Rightarrow> 'b \<Rightarrow> encoded_submit_result \<times> 'b" where
  "submit_encoded_payload submit user_ref_num kind payload backend =
     (case submit \<lparr>bsq_user_ref_num = user_ref_num, bsq_kind = kind, bsq_payload = payload\<rparr> backend of
        (r, backend') \<Rightarrow> (make_backend_result r, backend'))"

definition submit_enter_order_to_backend ::
  "'b submitter \<Rightarrow> enter_order_message \<Rightarrow> 'b \<Rightarrow> encoded_submit_result \<times> 'b" where
  "submit_enter_order_to_backend submit m backend =
     (case encode_enter_order_message (replicate (encoded_length (EnterOrder m)) 0) m of
        (error, payload) \<Rightarrow>
          if error \<noteq> EC_ok then (make_encode_reject error (eo_user_ref_num m) BK_enter, backend)
          else submit_encoded_payload submit (eo_user_ref_num m) BK_enter payload backend)"

definition submit_replace_order_to_backend ::
  "'b submitter \<Rightarrow> replace_order_message \<Rightarrow> 'b \<Rightarrow> encoded_submit_result \<times> 'b" where
  "submit_replace_order_to_backend submit m backend =
     (case encode_replace_order_message (replicate (encoded_length (ReplaceOrder m)) 0) m of
        (error, payload) \<Rightarrow>
          if error \<noteq> EC_ok then (make_encode_reject error (rpo_user_ref_num m) BK_replace, backend)
          else submit_encoded_payload submit (rpo_user_ref_num m) BK_replace payload backend)"

definition submit_cancel_order_to_backend ::
  "'b submitter \<Rightarrow> cancel_order_message \<Rightarrow> 'b \<Rightarrow> encoded_submit_result \<times> 'b" where
  "submit_cancel_order_to_backend submit m backend =
     (case encode_cancel_order_message (replicate (encoded_length (CancelOrder m)) 0) m of
        (error, payload) \<Rightarrow>
          if error \<noteq> EC_ok then (make_encode_reject error (co_user_ref_num m) BK_cancel, backend)
          else submit_encoded_payload submit (co_user_ref_num m) BK_cancel payload backend)"

fun submit_order_to_backend :: "'b submitter \<Rightarrow> ouch_message \<Rightarrow> 'b \<Rightarrow> encoded_submit_result \<times> 'b" where
  "submit_order_to_backend submit (EnterOrder m) backend = submit_enter_order_to_backend submit m backend"
| "submit_order_to_backend submit (ReplaceOrder m) backend = submit_replace_order_to_backend submit m backend"
| "submit_order_to_backend submit (CancelOrder m) backend = submit_cancel_order_to_backend submit m backend"

section \<open>The submit queue\<close>

datatype queue_push_status = QS_queued | QS_empty_payload | QS_payload_too_large | QS_queue_full

record queue_item =
  qi_user_ref_num :: u32
  qi_kind :: backend_order_kind
  qi_payload_size :: u16
  qi_payload :: bytes

definition default_item :: "nat \<Rightarrow> queue_item" where
  "default_item max_payload_size =
     \<lparr>qi_user_ref_num = 0, qi_kind = BK_enter, qi_payload_size = 0, qi_payload = replicate max_payload_size 0\<rparr>"

definition payload_span :: "queue_item \<Rightarrow> bytes" where
  "payload_span item = take (unat (qi_payload_size item)) (qi_payload item)"

definition item_request :: "queue_item \<Rightarrow> backend_submit_request" where
  "item_request item = \<lparr>bsq_user_ref_num = qi_user_ref_num item, bsq_kind = qi_kind item,
     bsq_payload = payload_span item\<rparr>"

text \<open>\<^verbatim>\<open>MaxPayloadSize\<close> is a template argument; the static assertions bound it.\<close>

record submit_queue =
  bq_max_payload_size :: nat
  bq_ring :: "queue_item spsc_ring"
  bq_stats :: "core_stats option"

definition new_submit_queue :: "nat \<Rightarrow> nat \<Rightarrow> core_stats option \<Rightarrow> submit_queue" where
  "new_submit_queue n max_payload_size stats =
     \<lparr>bq_max_payload_size = max_payload_size, bq_ring = new_ring n (default_item max_payload_size), bq_stats = stats\<rparr>"

definition bq_record :: "core_counter \<Rightarrow> submit_queue \<Rightarrow> submit_queue" where
  "bq_record counter q = q\<lparr>bq_stats := map_option (cs_increment counter 1) (bq_stats q)\<rparr>"

definition make_item :: "nat \<Rightarrow> backend_submit_request \<Rightarrow> queue_item \<Rightarrow> queue_push_status \<times> queue_item" where
  "make_item max_payload_size request item =
     (if bsq_payload request = [] then (QS_empty_payload, item)
      else if length (bsq_payload request) > max_payload_size then (QS_payload_too_large, item)
      else (QS_queued, item\<lparr>qi_user_ref_num := bsq_user_ref_num request, qi_kind := bsq_kind request,
        qi_payload_size := of_nat (length (bsq_payload request)),
        qi_payload := bsq_payload request @ drop (length (bsq_payload request)) (qi_payload item)\<rparr>))"

definition queue_push :: "backend_submit_request \<Rightarrow> submit_queue \<Rightarrow> queue_push_status \<times> submit_queue" where
  "queue_push request q =
     (case make_item (bq_max_payload_size q) request (default_item (bq_max_payload_size q)) of
        (status, item) \<Rightarrow>
          if status \<noteq> QS_queued then (status, bq_record CC_submit_rejected q)
          else (case ring_push item (bq_ring q) of
            (ok, ring) \<Rightarrow>
              if \<not> ok then (QS_queue_full, bq_record CC_submit_rejected (bq_record CC_ring_full (q\<lparr>bq_ring := ring\<rparr>)))
              else (QS_queued, bq_record CC_submit_queued (q\<lparr>bq_ring := ring\<rparr>))))"

definition queue_pop :: "submit_queue \<Rightarrow> queue_item option \<times> submit_queue" where
  "queue_pop q = (case ring_pop (bq_ring q) of (r, ring) \<Rightarrow> (r, q\<lparr>bq_ring := ring\<rparr>))"

definition queue_empty :: "submit_queue \<Rightarrow> bool" where
  "queue_empty q \<longleftrightarrow> ring_empty (bq_ring q)"

section \<open>The queued and the asynchronous backend\<close>

fun queue_reject_reason_for :: "queue_push_status \<Rightarrow> backend_reject_reason" where
  "queue_reject_reason_for QS_queued = BR_none"
| "queue_reject_reason_for QS_empty_payload = BR_empty_payload"
| "queue_reject_reason_for QS_payload_too_large = BR_capacity_exceeded"
| "queue_reject_reason_for QS_queue_full = BR_capacity_exceeded"

definition queued_submit :: "submit_queue submitter" where
  "queued_submit request q =
     (case queue_push request q of
        (status, q') \<Rightarrow>
          if status = QS_queued then (make_backend_accept request, q')
          else (make_backend_reject request (queue_reject_reason_for status), q'))"

definition drain_one_to :: "'b submitter \<Rightarrow> submit_queue \<Rightarrow> 'b \<Rightarrow> bool \<times> submit_queue \<times> 'b" where
  "drain_one_to submit q backend =
     (case queue_pop q of
        (None, q') \<Rightarrow> (False, q', backend)
      | (Some entry, q') \<Rightarrow> (True, q', snd (submit (item_request entry) backend)))"

text \<open>The loop of \<^verbatim>\<open>drain_to\<close>; the number is \<^verbatim>\<open>max_submissions - drained\<close>.\<close>

fun drain_to :: "'b submitter \<Rightarrow> nat \<Rightarrow> submit_queue \<Rightarrow> 'b \<Rightarrow> nat \<times> submit_queue \<times> 'b" where
  "drain_to submit 0 q backend = (0, q, backend)"
| "drain_to submit (Suc left) q backend =
     (case drain_one_to submit q backend of
        (False, q', backend') \<Rightarrow> (0, q', backend')
      | (True, q', backend') \<Rightarrow>
          (case drain_to submit left q' backend' of (drained, r) \<Rightarrow> (drained + 1, r)))"

definition async_reject_reason_for :: "queue_push_status \<Rightarrow> backend_reject_reason" where
  "async_reject_reason_for status =
     (case status of
        QS_empty_payload \<Rightarrow> BR_empty_payload
      | QS_payload_too_large \<Rightarrow> BR_capacity_exceeded
      | QS_queue_full \<Rightarrow> BR_capacity_exceeded
      | QS_queued \<Rightarrow> BR_none)"

definition async_submit :: "submit_queue submitter" where
  "async_submit request q =
     (case queue_push request q of
        (status, q') \<Rightarrow>
          if status \<noteq> QS_queued then (make_backend_reject request (async_reject_reason_for status), q')
          else (make_backend_accept request, q'))"

definition record_backend_result :: "backend_submit_result \<Rightarrow> submit_queue \<Rightarrow> submit_queue" where
  "record_backend_result r q =
     (if bsr_decision r = BSD_accepted then bq_record CC_backend_accepted q else bq_record CC_backend_rejected q)"

definition poll_once :: "'b submitter \<Rightarrow> submit_queue \<Rightarrow> 'b \<Rightarrow> bool \<times> submit_queue \<times> 'b" where
  "poll_once submit q backend =
     (case queue_pop q of
        (None, q') \<Rightarrow> (False, q', backend)
      | (Some item, q') \<Rightarrow>
          (case submit (item_request item) backend of
            (r, backend') \<Rightarrow> (True, record_backend_result r q', backend')))"

text \<open>
  The loop of \<^verbatim>\<open>drain\<close>. It ends from any ring whatsoever: the consumer's cached counter is reached first, then
  the producer's counter.
\<close>

definition ring_distance :: "'a spsc_ring \<Rightarrow> nat" where
  "ring_distance r = unat (sr_cached_head r - sr_tail r)"

lemma unat_pred_less: "(w :: u64) \<noteq> 0 \<Longrightarrow> unat (w - 1) < unat w"
proof -
  assume "w \<noteq> 0"
  then have "0 < unat w" by (simp add: unat_gt_0)
  then show ?thesis using unat_sub [of 1 w] by (simp add: word_le_nat_alt)
qed

lemma ring_pop_progress:
  assumes "ring_pop r = (Some x, r')"
  shows "sr_head r' = sr_head r
    \<and> ((sr_cached_head r' = sr_head r' \<and> (sr_cached_head r = sr_head r \<longrightarrow> ring_distance r' < ring_distance r))
       \<or> sr_cached_head r' \<noteq> sr_head r' \<and> sr_cached_head r \<noteq> sr_head r \<and> ring_distance r' < ring_distance r)"
proof -
  have "w \<noteq> v \<Longrightarrow> unat (v - (w + 1)) < unat (v - w)" for v w :: u64
    using unat_pred_less [of "v - w"] by (simp add: algebra_simps)
  then show ?thesis
    using assms by (auto simp: ring_pop_def seems_empty_def load_head_def publish_tail_def ring_distance_def Let_def
      split: if_splits)
qed

function (sequential) async_drain :: "'b submitter \<Rightarrow> submit_queue \<Rightarrow> 'b \<Rightarrow> nat \<times> submit_queue \<times> 'b" where
  "async_drain submit q backend =
     (case poll_once submit q backend of
        (False, q', backend') \<Rightarrow> (0, q', backend')
      | (True, q', backend') \<Rightarrow>
          (case async_drain submit q' backend' of (processed, r) \<Rightarrow> (processed + 1, r)))"
  by pat_completeness auto

lemma bq_ring_record [simp]: "bq_ring (bq_record c q) = bq_ring q" "bq_ring (record_backend_result r q) = bq_ring q"
  "bq_max_payload_size (bq_record c q) = bq_max_payload_size q"
  "bq_max_payload_size (record_backend_result r q) = bq_max_payload_size q"
  by (simp_all add: bq_record_def record_backend_result_def)

definition drain_order :: "(('b submitter \<times> submit_queue \<times> 'b) \<times> ('b submitter \<times> submit_queue \<times> 'b)) set" where
  "drain_order = measures [\<lambda>(submit, q, backend). if sr_cached_head (bq_ring q) = sr_head (bq_ring q) then 0 else 1,
     \<lambda>(submit, q, backend). ring_distance (bq_ring q)]"

lemma poll_once_progress:
  assumes "poll_once submit q backend = (True, q', backend')"
  shows "((submit, q', backend'), submit, q, backend) \<in> drain_order"
proof -
  obtain x where "ring_pop (bq_ring q) = (Some x, bq_ring q')"
    using assms by (auto simp: poll_once_def queue_pop_def split: prod.splits option.splits)
  from ring_pop_progress [OF this] show ?thesis by (auto simp: drain_order_def)
qed

termination async_drain
  by (relation drain_order) (auto simp: drain_order_def [THEN arg_cong [where f = wf]] intro!: poll_once_progress)

declare async_drain.simps [simp del]

section \<open>The contract of a backend\<close>

locale order_sink =
  fixes inv :: "'b \<Rightarrow> bool" and held :: "'b \<Rightarrow> backend_submit_request list" and submit :: "'b submitter"
  assumes submit_spec: "inv b \<Longrightarrow> submit request b = (r, b') \<Longrightarrow> inv b'
      \<and> held b' = (if bsr_decision r = BSD_accepted then held b @ [request] else held b)
      \<and> (bsr_decision r = BSD_accepted \<longleftrightarrow> bsr_reject_reason r = BR_none)
      \<and> bsr_user_ref_num r = bsq_user_ref_num request \<and> bsr_kind r = bsq_kind request
      \<and> bsr_payload_size r = length (bsq_payload request)"
begin

text \<open>Submitting through the gate adds an allowed request or nothing.\<close>

lemma gate_submit_held:
  assumes "inv b" "gate_submit submit gs order request b = (r, b')"
  shows "inv b' \<and> held b' = (if gsr_decision r = GSD_accepted then held b @ [request] else held b)
    \<and> (gsr_decision r = GSD_accepted \<longrightarrow> gres_decision (guardrail_check gs order) = GD_allowed)"
  using assms submit_spec [OF assms(1), of request]
  by (cases "gres_decision (guardrail_check gs order)")
     (auto simp: gate_submit_def reject_from_guardrail_def from_backend_def Let_def split: prod.splits)

text \<open>An order that is encoded and accepted is held as bytes that decode to it.\<close>

lemma submit_order_held:
  assumes "inv b" "ouch_typed m" "submit_order_to_backend submit m b = (r, b')"
  shows "inv b' \<and> (if esr_decision r = ESD_accepted
      then ouch_ok m \<and> (\<exists>request. held b' = held b @ [request] \<and> ouch_decode_message (bsq_payload request) = Ok m)
      else held b' = held b) \<and> (esr_encode_error r = EC_ok \<longleftrightarrow> ouch_ok m)"
proof -
  let ?bs = "replicate (encoded_length m) 0 :: bytes"
  obtain ref kind where s: "submit_order_to_backend submit m b =
      (case ouch_encode_message ?bs m of (error, payload) \<Rightarrow>
        if error \<noteq> EC_ok then (make_encode_reject error ref kind, b)
        else submit_encoded_payload submit ref kind payload b)"
    by (cases m) (auto simp: submit_enter_order_to_backend_def submit_replace_order_to_backend_def
      submit_cancel_order_to_backend_def simp del: encoded_length.simps)
  show ?thesis
  proof (cases "ouch_ok m")
    case True
    then have "ouch_encode_message ?bs m = (EC_ok, ouch_image m)" using assms(2) by (simp add: ouch_encode_valid)
    with s assms(3) have "submit_encoded_payload submit ref kind (ouch_image m) b = (r, b')" by simp
    moreover have "ouch_decode_message (ouch_image m) = Ok m" using True assms(2) by (simp add: ouch_decode_message_iff)
    ultimately show ?thesis
      using True submit_spec [OF assms(1), of "\<lparr>bsq_user_ref_num = ref, bsq_kind = kind, bsq_payload = ouch_image m\<rparr>"]
      by (auto simp: submit_encoded_payload_def make_backend_result_def split: prod.splits if_splits)
  next
    case False
    then have "ouch_encode_message ?bs m = (EC_invalid_argument, ?bs)" by (simp add: ouch_encode_refused(1))
    with s assms(1,3) False show ?thesis by (auto simp: make_encode_reject_def)
  qed
qed

end

interpretation recording: order_sink "\<lambda>_. True" rb_submissions recording_submit
  by unfold_locales (auto simp: recording_submit_def make_backend_accept_def make_backend_reject_def split: if_splits)

section \<open>The queue holds requests\<close>

definition queue_requests :: "submit_queue \<Rightarrow> backend_submit_request list" where
  "queue_requests q = map item_request (ring_items (bq_ring q))"

definition queue_inv :: "submit_queue \<Rightarrow> bool" where
  "queue_inv q \<longleftrightarrow> ring_inv (bq_ring q) \<and> 0 < bq_max_payload_size q \<and> bq_max_payload_size q \<le> 65535"

lemma make_item_request:
  assumes "make_item n request (default_item n) = (QS_queued, item)" "n \<le> 65535"
  shows "item_request item = request"
proof -
  have l: "length (bsq_payload request) \<le> n" using assms(1) by (auto simp: make_item_def split: if_splits)
  then have "unat (of_nat (length (bsq_payload request)) :: u16) = length (bsq_payload request)"
    using assms(2) by (simp add: unat_of_nat)
  then show ?thesis
    using assms(1) by (auto simp: make_item_def item_request_def payload_span_def split: if_splits)
qed

lemma queue_push_spec:
  assumes "queue_inv q" "queue_push request q = (status, q')"
  shows "queue_inv q' \<and> queue_requests q' = (if status = QS_queued then queue_requests q @ [request] else queue_requests q)
    \<and> (status = QS_queued \<longleftrightarrow> bsq_payload request \<noteq> [] \<and> length (bsq_payload request) \<le> bq_max_payload_size q
         \<and> length (queue_requests q) < ring_capacity (bq_ring q))
    \<and> bq_max_payload_size q' = bq_max_payload_size q \<and> ring_capacity (bq_ring q') = ring_capacity (bq_ring q)"
proof -
  obtain st item where i: "make_item (bq_max_payload_size q) request (default_item (bq_max_payload_size q)) = (st, item)"
    by (cases "make_item (bq_max_payload_size q) request (default_item (bq_max_payload_size q))")
  have st: "st = QS_queued \<longleftrightarrow> bsq_payload request \<noteq> [] \<and> length (bsq_payload request) \<le> bq_max_payload_size q"
    using i by (auto simp: make_item_def split: if_splits)
  obtain ok ring where r: "ring_push item (bq_ring q) = (ok, ring)" by (cases "ring_push item (bq_ring q)")
  have ring: "ring_inv ring" "ring_capacity ring = ring_capacity (bq_ring q)"
    "ok = (length (ring_items (bq_ring q)) < ring_capacity (bq_ring q))"
    "ring_items ring = (if ok then ring_items (bq_ring q) @ [item] else ring_items (bq_ring q))"
    using ring_push_spec [OF _ r] assms(1) by (auto simp: queue_inv_def)
  show ?thesis
  proof (cases "st = QS_queued")
    case True
    then have "item_request item = request"
      using i assms(1) by (auto simp: queue_inv_def intro: make_item_request)
    with True i st r ring assms show ?thesis
      by (cases ok) (auto simp: queue_push_def queue_inv_def queue_requests_def)
  next
    case False
    with i st assms show ?thesis by (auto simp: queue_push_def queue_inv_def queue_requests_def)
  qed
qed

lemma queue_pop_spec:
  assumes "queue_inv q" "queue_pop q = (r, q')"
  shows "queue_inv q' \<and> map_option item_request r = (case queue_requests q of [] \<Rightarrow> None | x # _ \<Rightarrow> Some x)
    \<and> queue_requests q' = tl (queue_requests q) \<and> bq_max_payload_size q' = bq_max_payload_size q
    \<and> ring_capacity (bq_ring q') = ring_capacity (bq_ring q) \<and> bq_stats q' = bq_stats q"
proof -
  obtain ring where p: "ring_pop (bq_ring q) = (r, ring)" "q' = q\<lparr>bq_ring := ring\<rparr>"
    using assms(2) by (auto simp: queue_pop_def split: prod.splits)
  from ring_pop_spec [OF _ p(1)] assms(1) p(2) show ?thesis
    by (cases "ring_items (bq_ring q)") (auto simp: queue_inv_def queue_requests_def)
qed

lemma queued_submit_eq_async: "async_submit = queued_submit"
proof -
  have "async_reject_reason_for = queue_reject_reason_for"
    by (rule ext) (simp add: async_reject_reason_for_def split: queue_push_status.splits)
  then show ?thesis by (auto simp: fun_eq_iff async_submit_def queued_submit_def split: prod.splits)
qed

interpretation queued: order_sink queue_inv queue_requests queued_submit
proof unfold_locales
  fix b request r b' assume inv: "queue_inv b" and s: "queued_submit request b = (r, b')"
  obtain status q' where p: "queue_push request b = (status, q')" by (cases "queue_push request b")
  show "queue_inv b' \<and> queue_requests b' = (if bsr_decision r = BSD_accepted then queue_requests b @ [request] else queue_requests b)
      \<and> (bsr_decision r = BSD_accepted \<longleftrightarrow> bsr_reject_reason r = BR_none)
      \<and> bsr_user_ref_num r = bsq_user_ref_num request \<and> bsr_kind r = bsq_kind request
      \<and> bsr_payload_size r = length (bsq_payload request)"
    using queue_push_spec [OF inv p] s p
    by (cases status) (auto simp: queued_submit_def make_backend_accept_def make_backend_reject_def)
qed

lemma new_submit_queue_inv:
  assumes "valid_ring_capacity n" "0 < m" "m \<le> 65535"
  shows "queue_inv (new_submit_queue n m stats)" "queue_requests (new_submit_queue n m stats) = []"
    "ring_capacity (bq_ring (new_submit_queue n m stats)) = n"
  using assms counters_new_ring(2) [OF assms(1), of "default_item m"] new_ring_inv [OF assms(1), of "default_item m"]
  by (simp_all add: queue_inv_def new_submit_queue_def queue_requests_def)
     (simp add: ring_capacity_def new_ring_def)

section \<open>Draining\<close>

definition submit_all :: "'b submitter \<Rightarrow> backend_submit_request list \<Rightarrow> 'b \<Rightarrow> 'b" where
  "submit_all submit requests b = fold (\<lambda>request b. snd (submit request b)) requests b"

lemma drain_one_spec:
  assumes "queue_inv q" "drain_one_to submit q b = (ok, q', b')"
  shows "queue_inv q' \<and> (case queue_requests q of
      [] \<Rightarrow> \<not> ok \<and> queue_requests q' = [] \<and> b' = b
    | x # xs \<Rightarrow> ok \<and> queue_requests q' = xs \<and> b' = snd (submit x b))"
proof -
  obtain r q1 where p: "queue_pop q = (r, q1)" by (cases "queue_pop q")
  from queue_pop_spec [OF assms(1) p] p assms(2) show ?thesis
    by (cases r; cases "queue_requests q") (auto simp: drain_one_to_def)
qed

lemma drain_to_spec:
  "queue_inv q \<Longrightarrow> drain_to submit k q b = (d, q', b') \<Longrightarrow>
   queue_inv q' \<and> d = min k (length (queue_requests q)) \<and> queue_requests q' = drop d (queue_requests q)
   \<and> b' = submit_all submit (take d (queue_requests q)) b"
proof (induction k arbitrary: q b d)
  case (Suc k)
  obtain ok q1 b1 where 1: "drain_one_to submit q b = (ok, q1, b1)" by (cases "drain_one_to submit q b")
  note s = drain_one_spec [OF Suc.prems(1) 1]
  show ?case
  proof (cases "queue_requests q")
    case Nil
    with s 1 Suc.prems show ?thesis by (auto simp: submit_all_def)
  next
    case (Cons x xs)
    obtain d1 where "drain_to submit k q1 b1 = (d1, q', b')" "d = d1 + 1"
      using s 1 Cons Suc.prems(2) by (auto split: prod.splits)
    with Suc.IH [of q1 b1 d1] s Cons show ?thesis by (auto simp: submit_all_def)
  qed
qed (simp add: submit_all_def)

lemma poll_once_spec:
  assumes "queue_inv q" "poll_once submit q b = (ok, q', b')"
  shows "queue_inv q' \<and> (case queue_requests q of
      [] \<Rightarrow> \<not> ok \<and> queue_requests q' = [] \<and> b' = b
    | x # xs \<Rightarrow> ok \<and> queue_requests q' = xs \<and> b' = snd (submit x b))"
proof -
  obtain r q1 where p: "queue_pop q = (r, q1)" by (cases "queue_pop q")
  have "queue_inv (record_backend_result s q1) = queue_inv q1" "queue_requests (record_backend_result s q1) = queue_requests q1" for s
    by (simp_all add: queue_inv_def queue_requests_def)
  with queue_pop_spec [OF assms(1) p] p assms(2) show ?thesis
    by (cases r; cases "queue_requests q") (auto simp: poll_once_def split: prod.splits)
qed

lemma async_drain_spec:
  "queue_inv q \<Longrightarrow> async_drain submit q b = (d, q', b') \<Longrightarrow>
   d = length (queue_requests q) \<and> queue_requests q' = [] \<and> queue_inv q'
   \<and> b' = submit_all submit (queue_requests q) b"
proof (induction "queue_requests q" arbitrary: q b d)
  case Nil
  obtain ok q1 b1 where 1: "poll_once submit q b = (ok, q1, b1)" by (cases "poll_once submit q b")
  with Nil poll_once_spec [OF Nil(2) 1] show ?case by (auto simp: async_drain.simps [of submit q b] submit_all_def)
next
  case (Cons x xs)
  obtain ok q1 b1 where 1: "poll_once submit q b = (ok, q1, b1)" by (cases "poll_once submit q b")
  note s = poll_once_spec [OF Cons.prems(1) 1] and x = Cons.hyps(2) [symmetric]
  obtain d1 where "async_drain submit q1 b1 = (d1, q', b')" "d = d1 + 1"
    using s 1 x Cons.prems(2) by (auto simp: async_drain.simps [of submit q b] split: prod.splits)
  with Cons.hyps(1) [of q1 b1 d1] s x show ?case by (auto simp: submit_all_def)
qed

text \<open>A recording backend that is open and unlimited keeps everything with a payload.\<close>

lemma recording_keeps_all:
  assumes "rb_open rb" "rb_max_submissions rb = 0"
  shows "rb_submissions (submit_all recording_submit requests rb)
      = rb_submissions rb @ filter (\<lambda>r. bsq_payload r \<noteq> []) requests"
  using assms
proof (induction requests arbitrary: rb)
  case (Cons r rs)
  then show ?case by (auto simp: submit_all_def recording_submit_def rb_at_capacity_def)
qed (simp add: submit_all_def)

section \<open>Scripts through the gate\<close>

text \<open>
  What happens at a gate over time: control commands reach its guardrails and orders are submitted. The requests
  a gate may let through are those whose order the guardrails allow at that moment.
\<close>

datatype gate_event = Gate_control control_command | Gate_submit guardrail_order backend_submit_request

fun gate_run :: "'b submitter \<Rightarrow> gate_event list \<Rightarrow> guardrail_state \<times> 'b \<Rightarrow> guardrail_state \<times> 'b" where
  "gate_run submit [] (gs, b) = (gs, b)"
| "gate_run submit (Gate_control c # es) (gs, b) = gate_run submit es (run_command c gs, b)"
| "gate_run submit (Gate_submit order request # es) (gs, b) =
     gate_run submit es (gs, snd (gate_submit submit gs order request b))"

fun allowed_requests :: "gate_event list \<Rightarrow> guardrail_state \<Rightarrow> backend_submit_request list" where
  "allowed_requests [] gs = []"
| "allowed_requests (Gate_control c # es) gs = allowed_requests es (run_command c gs)"
| "allowed_requests (Gate_submit order request # es) gs =
     (if gres_decision (guardrail_check gs order) = GD_allowed then [request] else []) @ allowed_requests es gs"

lemma gate_run_submits: "snd (gate_run submit es (gs, b)) = submit_all submit (allowed_requests es gs) b"
proof (induction es arbitrary: gs b)
  case (Cons e es)
  show ?case
  proof (cases e)
    case (Gate_control c)
    with Cons show ?thesis by simp
  next
    case (Gate_submit order request)
    have "snd (gate_submit submit gs order request b) =
        (if gres_decision (guardrail_check gs order) = GD_allowed then snd (submit request b) else b)"
      by (cases "gres_decision (guardrail_check gs order)") (auto simp: gate_submit_def Let_def split: prod.splits)
    with Gate_submit Cons show ?thesis by (simp add: submit_all_def)
  qed
qed (simp add: submit_all_def)

context order_sink
begin

lemma submit_all_held:
  "inv b \<Longrightarrow> inv (submit_all submit requests b)
     \<and> (\<exists>kept. subseq kept requests \<and> held (submit_all submit requests b) = held b @ kept)"
proof (induction requests arbitrary: b)
  case (Cons r rs)
  obtain res b1 where 1: "submit r b = (res, b1)" by (cases "submit r b")
  with submit_spec [OF Cons.prems 1] Cons.IH [of b1] obtain kept where
    "subseq kept rs" "held (submit_all submit rs b1) = held b1 @ kept" "inv (submit_all submit rs b1)" by blast
  moreover have "submit_all submit (r # rs) b = submit_all submit rs b1" by (simp add: submit_all_def 1)
  ultimately show ?case
    using submit_spec [OF Cons.prems 1]
    by (intro conjI exI [of _ "(if bsr_decision res = BSD_accepted then [r] else []) @ kept"]) auto
qed (simp add: submit_all_def)

lemma gate_run_held:
  "inv b \<Longrightarrow> \<exists>kept. subseq kept (allowed_requests es gs) \<and> held (snd (gate_run submit es (gs, b))) = held b @ kept"
  using submit_all_held [of b "allowed_requests es gs"] by (simp add: gate_run_submits)

end

section \<open>Properties\<close>

definition sample_request :: backend_submit_request where
  "sample_request = \<lparr>bsq_user_ref_num = 7, bsq_kind = BK_enter, bsq_payload = [1, 2, 3]\<rparr>"

definition sample_events :: "gate_event list" where
  "sample_events = [Gate_submit (make_enter_guardrail_order sample_enter) sample_request,
     Gate_control (Cmd_cancel_only True), Gate_submit (make_enter_guardrail_order sample_enter) sample_request]"

text \<open>
  C7: The gate never leaks. Over any sequence of guardrail changes and submissions, what reaches the backend is
  exactly the requests whose orders the guardrails in force at that moment allowed, each once and in order: a
  backend that is open and unlimited ends up holding those with a payload, and no backend is called for any
  other.\<close>

theorem gate_never_leaks:
  assumes "rb_open rb" "rb_max_submissions rb = 0"
  shows "rb_submissions (snd (gate_run recording_submit es (gs, rb)))
      = rb_submissions rb @ filter (\<lambda>r. bsq_payload r \<noteq> []) (allowed_requests es gs)
    \<and> snd (gate_run submit es (gs, b)) = submit_all submit (allowed_requests es gs) b"
  using recording_keeps_all [OF assms] by (simp add: gate_run_submits)

theorem gate_never_leaks_witness:
  "rb_submissions (snd (gate_run recording_submit sample_events (sample_guardrail, new_recording_backend 0)))
   = [sample_request]"
proof -
  have "gres_decision (guardrail_check sample_guardrail (make_enter_guardrail_order sample_enter)) = GD_allowed"
    "gres_decision (guardrail_check (run_command (Cmd_cancel_only True) sample_guardrail)
       (make_enter_guardrail_order sample_enter)) = GD_rejected"
    by (simp_all add: guardrail_check_allowed sample_guardrail_def make_guardrail_state_def default_guardrail_limits_def
      make_enter_guardrail_order_def sample_enter_def within_limits_def gs_is_symbol_enabled_def)
       (simp add: guardrail_check_def guardrail_reject_def is_cancel_def)
  then have "allowed_requests sample_events sample_guardrail = [sample_request]" by (simp add: sample_events_def)
  with gate_never_leaks [of "new_recording_backend 0" sample_events sample_guardrail recording_submit "new_recording_backend 0"] show ?thesis
    by (auto simp: new_recording_backend_def sample_request_def)
qed

text \<open>
  C8: A halt is airtight: while trading is halted and nobody lifts the halt, no sequence of other guardrail
  changes and submissions changes the backend in any way, whatever the backend is.\<close>

theorem halt_zero_leak:
  assumes "gs_global_halted gs" "Gate_control (Cmd_halt False) \<notin> set es"
  shows "snd (gate_run submit es (gs, b)) = b"
proof -
  have "allowed_requests es gs = []" using assms
  proof (induction es arbitrary: gs)
    case (Cons e es)
    show ?case
    proof (cases e)
      case (Gate_control c)
      with Cons.prems have "gs_global_halted (run_command c gs)" by (cases c) auto
      with Gate_control Cons show ?thesis by simp
    next
      case (Gate_submit order request)
      with Cons show ?thesis by (simp add: guardrail_check_allowed)
    qed
  qed simp
  then show ?thesis by (simp add: gate_run_submits submit_all_def)
qed

theorem halt_zero_leak_witness:
  "snd (gate_run recording_submit sample_events (run_command (Cmd_halt True) sample_guardrail, new_recording_backend 0))
   = new_recording_backend 0"
  by (rule halt_zero_leak) (simp_all add: sample_events_def)

text \<open>
  Whatever a backend accepted as an order is the order: when submitting an OUCH message to the recording
  backend is accepted, the message is valid and exactly one submission was added, whose bytes decode to that very
  message; otherwise nothing was added. The encoder reports an error exactly for invalid messages.\<close>

theorem submitted_order_decodes:
  assumes "ouch_typed m" "submit_order_to_backend recording_submit m rb = (r, rb')"
  shows "(if esr_decision r = ESD_accepted
      then ouch_ok m \<and> (\<exists>request. rb_submissions rb' = rb_submissions rb @ [request]
        \<and> ouch_decode_message (bsq_payload request) = Ok m)
      else rb_submissions rb' = rb_submissions rb)
    \<and> (esr_encode_error r = EC_ok \<longleftrightarrow> ouch_ok m)"
  using recording.submit_order_held [OF TrueI assms] by blast

theorem submitted_order_decodes_witness:
  "\<exists>request. rb_submissions (snd (submit_order_to_backend recording_submit (EnterOrder sample_enter) (new_recording_backend 1)))
     = [request] \<and> ouch_decode_message (bsq_payload request) = Ok (EnterOrder sample_enter)"
proof -
  have "encode_enter_order_message (replicate 50 0) sample_enter = (EC_ok, ouch_image (EnterOrder sample_enter))"
    using ouch_encode_valid [of "replicate 50 0" "EnterOrder sample_enter"] sample_enter_ok by simp
  moreover have "ouch_image (EnterOrder sample_enter) \<noteq> []"
    using length_ouch_image [OF sample_enter_ok(2)] sample_enter_ok(3) by (metis list.size(3) zero_neq_numeral)
  ultimately have "esr_decision (fst (submit_order_to_backend recording_submit (EnterOrder sample_enter) (new_recording_backend 1)))
      = ESD_accepted"
    using sample_enter_ok(3)
    by (simp add: submit_enter_order_to_backend_def submit_encoded_payload_def recording_submit_def
      new_recording_backend_def rb_at_capacity_def make_backend_result_def make_backend_accept_def
      del: encoded_length.simps ouch_image.simps)
  with submitted_order_decodes [OF sample_enter_ok(2), of "new_recording_backend 1"] show ?thesis
    by (cases "submit_order_to_backend recording_submit (EnterOrder sample_enter) (new_recording_backend 1)")
       (simp add: new_recording_backend_def)
qed

text \<open>
  C22: Draining the submit queue hands the queued requests, unchanged and oldest first, to the backend behind it:
  \<open>drain_to\<close> takes as many as asked for or as there are, and the asynchronous \<open>drain\<close> always ends, with the queue
  empty and everything handed over.\<close>

theorem queue_drains_in_order:
  assumes "queue_inv q" "drain_to submit k q b = (d, q', b')" "async_drain submit q b = (n, q2, b2)"
  shows "d = min k (length (queue_requests q)) \<and> queue_requests q' = drop d (queue_requests q)
    \<and> b' = submit_all submit (take d (queue_requests q)) b
    \<and> n = length (queue_requests q) \<and> queue_requests q2 = [] \<and> b2 = submit_all submit (queue_requests q) b"
  using drain_to_spec [OF assms(1,2)] async_drain_spec [OF assms(1,3)] by simp

definition sample_queue :: submit_queue where
  "sample_queue = snd (queued_submit sample_request (new_submit_queue 2 8 None))"

lemma sample_queue_facts: "queue_inv sample_queue" "queue_requests sample_queue = [sample_request]"
proof -
  note new = new_submit_queue_inv [OF sample_capacity, of 8 None]
  obtain st q where p: "queue_push sample_request (new_submit_queue 2 8 None) = (st, q)"
    by (cases "queue_push sample_request (new_submit_queue 2 8 None)")
  have "sample_queue = q" by (simp add: sample_queue_def queued_submit_def p)
  with queue_push_spec [OF _ p] new show "queue_inv sample_queue" "queue_requests sample_queue = [sample_request]"
    by (simp_all add: sample_request_def) (simp add: new_submit_queue_def)
qed

theorem queue_drains_in_order_witness:
  "rb_submissions (snd (snd (async_drain recording_submit sample_queue (new_recording_backend 0)))) = [sample_request]"
proof -
  obtain d q' b' where d: "drain_to recording_submit 1 sample_queue (new_recording_backend 0) = (d, q', b')"
    by (cases "drain_to recording_submit 1 sample_queue (new_recording_backend 0)")
  obtain n q2 b2 where n: "async_drain recording_submit sample_queue (new_recording_backend 0) = (n, q2, b2)"
    by (cases "async_drain recording_submit sample_queue (new_recording_backend 0)")
  from queue_drains_in_order [OF sample_queue_facts(1) d n] n sample_queue_facts(2) show ?thesis
    by (simp add: submit_all_def recording_submit_def new_recording_backend_def rb_at_capacity_def sample_request_def)
qed

section \<open>Accounting\<close>

text \<open>Every interleaving of submissions and polls of an asynchronous backend; the number counts the submissions.\<close>

inductive async_run :: "'b submitter \<Rightarrow> nat \<Rightarrow> nat \<Rightarrow> nat \<Rightarrow> submit_queue \<Rightarrow> 'b \<Rightarrow> bool" for submit n m where
  async_start: "async_run submit n m 0 (new_submit_queue n m (Some cs_reset)) b"
| async_submitted: "async_run submit n m k q b \<Longrightarrow> async_submit request q = (r, q') \<Longrightarrow> async_run submit n m (k + 1) q' b"
| async_polled: "async_run submit n m k q b \<Longrightarrow> poll_once submit q b = (ok, q', b') \<Longrightarrow> async_run submit n m k q' b'"

definition accounted :: "nat \<Rightarrow> submit_queue \<Rightarrow> bool" where
  "accounted k q \<longleftrightarrow> (\<exists>cs. bq_stats q = Some cs \<and> cs CC_submit_queued + cs CC_submit_rejected = of_nat k
     \<and> cs CC_submit_queued = cs CC_backend_accepted + cs CC_backend_rejected + of_nat (length (queue_requests q)))"

lemma queue_push_stats:
  assumes "queue_push request q = (status, q')" "bq_stats q = Some cs"
  shows "\<exists>cs'. bq_stats q' = Some cs' \<and> cs' CC_backend_accepted = cs CC_backend_accepted
    \<and> cs' CC_backend_rejected = cs CC_backend_rejected
    \<and> cs' CC_submit_queued = cs CC_submit_queued + (if status = QS_queued then 1 else 0)
    \<and> cs' CC_submit_rejected = cs CC_submit_rejected + (if status = QS_queued then 0 else 1)"
  using assms by (auto simp: queue_push_def bq_record_def cs_increment_def split: prod.splits if_splits)

lemma accounted_submit:
  assumes "queue_inv q" "accounted k q" "async_submit request q = (r, q')"
  shows "accounted (k + 1) q'"
proof -
  obtain status where p: "queue_push request q = (status, q')"
    using assms(3) by (auto simp: async_submit_def split: prod.splits if_splits)
  obtain cs where cs: "bq_stats q = Some cs" "cs CC_submit_queued + cs CC_submit_rejected = of_nat k"
    "cs CC_submit_queued = cs CC_backend_accepted + cs CC_backend_rejected + of_nat (length (queue_requests q))"
    using assms(2) by (auto simp: accounted_def)
  obtain cs' where cs': "bq_stats q' = Some cs'" "cs' CC_backend_accepted = cs CC_backend_accepted"
    "cs' CC_backend_rejected = cs CC_backend_rejected"
    "cs' CC_submit_queued = cs CC_submit_queued + (if status = QS_queued then 1 else 0)"
    "cs' CC_submit_rejected = cs CC_submit_rejected + (if status = QS_queued then 0 else 1)"
    using queue_push_stats [OF p cs(1)] by blast
  have "queue_requests q' = (if status = QS_queued then queue_requests q @ [request] else queue_requests q)"
    using queue_push_spec [OF assms(1) p] by simp
  with cs(2,3) cs' show ?thesis by (auto simp: accounted_def algebra_simps)
qed

lemma accounted_poll:
  assumes "queue_inv q" "accounted k q" "poll_once submit q b = (ok, q', b')"
  shows "accounted k q'"
proof -
  obtain r q1 where p: "queue_pop q = (r, q1)" by (cases "queue_pop q")
  note s = queue_pop_spec [OF assms(1) p]
  show ?thesis
  proof (cases r)
    case None
    with s p assms show ?thesis by (cases "queue_requests q") (auto simp: poll_once_def accounted_def)
  next
    case (Some item)
    then obtain x xs where x: "queue_requests q = x # xs" using s by (cases "queue_requests q") auto
    obtain res where "q' = record_backend_result res q1"
      using Some p assms(3) by (auto simp: poll_once_def split: prod.splits)
    moreover have "queue_requests (record_backend_result res q1) = queue_requests q1"
      by (simp add: queue_requests_def)
    ultimately show ?thesis
      using s x assms(2)
      by (auto simp: accounted_def record_backend_result_def bq_record_def cs_increment_def algebra_simps split: if_splits)
  qed
qed

lemma queue_inv_async_submit: "queue_inv q \<Longrightarrow> async_submit request q = (r, q') \<Longrightarrow> queue_inv q'"
  using queue_push_spec [of q request] by (auto simp: async_submit_def split: prod.splits if_splits)

text \<open>
  The counters of the asynchronous backend balance after any interleaving of submissions and polls: queued plus
  rejected submissions is the number of submissions, and what was queued is what the backend behind accepted,
  rejected, or has not been handed yet. The sums are those of the 64-bit counters, which wrap.\<close>

theorem async_counters_balance:
  assumes "async_run submit n m k q b" "valid_ring_capacity n" "0 < m" "m \<le> 65535"
  shows "\<exists>cs. bq_stats q = Some cs \<and> cs CC_submit_queued + cs CC_submit_rejected = of_nat k
    \<and> cs CC_submit_queued = cs CC_backend_accepted + cs CC_backend_rejected + of_nat (length (queue_requests q))"
proof -
  have "queue_inv q \<and> accounted k q" using assms
  proof (induction rule: async_run.induct)
    case (async_start b)
    then show ?case
      using new_submit_queue_inv [of n m "Some cs_reset"]
      by (simp add: accounted_def) (simp add: new_submit_queue_def cs_reset_def)
  next
    case (async_submitted k q b request r q')
    then show ?case using queue_inv_async_submit accounted_submit by blast
  next
    case (async_polled k q b ok q' b')
    then have "queue_inv q" "accounted k q" by simp_all
    with async_polled.hyps(2) show ?case by (auto dest: accounted_poll poll_once_spec)
  qed
  then show ?thesis by (simp add: accounted_def)
qed

theorem async_counters_balance_witness:
  "\<exists>cs. bq_stats (snd (async_submit sample_request (new_submit_queue 2 8 (Some cs_reset)))) = Some cs
     \<and> cs CC_submit_queued + cs CC_submit_rejected = 1"
proof -
  obtain r q' where s: "async_submit sample_request (new_submit_queue 2 8 (Some cs_reset)) = (r, q')"
    by (cases "async_submit sample_request (new_submit_queue 2 8 (Some cs_reset))")
  have "async_run recording_submit 2 8 (0 + 1) q' (new_recording_backend 0)"
    by (rule async_submitted [OF async_start s])
  from async_counters_balance [OF this sample_capacity] s show ?thesis by auto
qed

end
