(* ===== verification/Fpga_Gate.thy ===== *)
theory Fpga_Gate
  imports Prelude
begin

text \<open>
  The hardware gate as the software sees it: the interface \<^verbatim>\<open>FpgaGate\<close> with its fallback
  \<^verbatim>\<open>UnavailableFpgaGate\<close> (\<^verbatim>\<open>include/fgep/hardware/fpga_gate.hpp\<close>), the result types
  (\<^verbatim>\<open>fpga_gate_result.hpp\<close>), and the reference model the hardware is checked against
  (\<^verbatim>\<open>fpga_gate_reference.hpp\<close>, \<^verbatim>\<open>src/hardware/fpga_gate_reference.cpp\<close>). Counters and sequence numbers are
  64-bit words. The array of enabled stock locates is a function on its indices.

  The locale \<open>counting_gate\<close> is what both implementations promise about their counters.
\<close>

section \<open>Types\<close>

datatype fpga_decision = FD_accept | FD_reject | FD_drop | FD_pass_to_software | FD_unavailable

datatype fpga_reason =
    FR_none | FR_hardware_unavailable | FR_unsupported_packet | FR_malformed_packet | FR_config_miss
  | FR_risk_reject | FR_symbol_not_enabled | FR_sequence_gap | FR_software_required

datatype fpga_timestamp_source = FT_none | FT_software_reference | FT_hardware_rx | FT_hardware_gate

fun fpga_gate_decision_name :: "fpga_decision \<Rightarrow> string" where
  "fpga_gate_decision_name FD_accept = ''accept''"
| "fpga_gate_decision_name FD_reject = ''reject''"
| "fpga_gate_decision_name FD_drop = ''drop''"
| "fpga_gate_decision_name FD_pass_to_software = ''pass_to_software''"
| "fpga_gate_decision_name FD_unavailable = ''unavailable''"

fun fpga_gate_reason_name :: "fpga_reason \<Rightarrow> string" where
  "fpga_gate_reason_name FR_none = ''none''"
| "fpga_gate_reason_name FR_hardware_unavailable = ''hardware_unavailable''"
| "fpga_gate_reason_name FR_unsupported_packet = ''unsupported_packet''"
| "fpga_gate_reason_name FR_malformed_packet = ''malformed_packet''"
| "fpga_gate_reason_name FR_config_miss = ''config_miss''"
| "fpga_gate_reason_name FR_risk_reject = ''risk_reject''"
| "fpga_gate_reason_name FR_symbol_not_enabled = ''symbol_not_enabled''"
| "fpga_gate_reason_name FR_sequence_gap = ''sequence_gap''"
| "fpga_gate_reason_name FR_software_required = ''software_required''"

fun fpga_timestamp_source_name :: "fpga_timestamp_source \<Rightarrow> string" where
  "fpga_timestamp_source_name FT_none = ''none''"
| "fpga_timestamp_source_name FT_software_reference = ''software_reference''"
| "fpga_timestamp_source_name FT_hardware_rx = ''hardware_rx''"
| "fpga_timestamp_source_name FT_hardware_gate = ''hardware_gate''"

record fpga_counters =
  fc_packets :: u64
  fc_accepted :: u64
  fc_rejected :: u64
  fc_dropped :: u64
  fc_passed_to_software :: u64
  fc_unavailable :: u64
  fc_malformed :: u64

definition zero_fpga_counters :: fpga_counters where
  "zero_fpga_counters = \<lparr>fc_packets = 0, fc_accepted = 0, fc_rejected = 0, fc_dropped = 0,
     fc_passed_to_software = 0, fc_unavailable = 0, fc_malformed = 0\<rparr>"

record fpga_result =
  fr_decision :: fpga_decision
  fr_reason :: fpga_reason
  fr_sequence_number :: u64
  fr_receive_timestamp_ns :: u64
  fr_decision_timestamp_ns :: u64
  fr_timestamp_source :: fpga_timestamp_source
  fr_counters :: fpga_counters

definition requires_software :: "fpga_result \<Rightarrow> bool" where
  "requires_software r \<longleftrightarrow> fr_decision r = FD_pass_to_software \<or> fr_decision r = FD_unavailable"

definition hardware_timestamp_available :: "fpga_result \<Rightarrow> bool" where
  "hardware_timestamp_available r \<longleftrightarrow>
     fr_timestamp_source r = FT_hardware_rx \<or> fr_timestamp_source r = FT_hardware_gate"

record fpga_metadata =
  fm_sequence_number :: u64
  fm_receive_timestamp_ns :: u64
  fm_packet_length :: u32
  fm_stock_locate :: u32
  fm_has_instrument_key :: bool
  fm_has_order_fields :: bool
  fm_side :: u8
  fm_quantity :: u32
  fm_price :: u32

record fpga_request =
  fq_packet :: bytes
  fq_metadata :: fpga_metadata

section \<open>The unavailable gate\<close>

definition unavailable_evaluate :: "fpga_request \<Rightarrow> fpga_counters \<Rightarrow> fpga_result \<times> fpga_counters" where
  "unavailable_evaluate request c =
     (let c' = c\<lparr>fc_packets := fc_packets c + 1, fc_unavailable := fc_unavailable c + 1\<rparr>
      in (\<lparr>fr_decision = FD_unavailable, fr_reason = FR_hardware_unavailable,
            fr_sequence_number = fm_sequence_number (fq_metadata request),
            fr_receive_timestamp_ns = fm_receive_timestamp_ns (fq_metadata request),
            fr_decision_timestamp_ns = 0, fr_timestamp_source = FT_none, fr_counters = c'\<rparr>, c'))"

section \<open>The reference gate\<close>

record fpga_config =
  fg_enabled :: bool
  fg_require_instrument_key :: bool
  fg_require_order_fields :: bool
  fg_enforce_enabled_stock_locates :: bool
  fg_detect_sequence_gaps :: bool
  fg_min_quantity :: u32
  fg_max_quantity :: u32
  fg_min_price :: u32
  fg_max_price :: u32

definition default_fpga_config :: fpga_config where
  "default_fpga_config = \<lparr>fg_enabled = True, fg_require_instrument_key = True, fg_require_order_fields = True,
     fg_enforce_enabled_stock_locates = True, fg_detect_sequence_gaps = True, fg_min_quantity = 1,
     fg_max_quantity = 1000000, fg_min_price = 1, fg_max_price = 1000000000\<rparr>"

record fpga_gate =
  fg_config :: fpga_config
  fg_counters :: fpga_counters
  fg_enabled_stock_locates :: "nat \<Rightarrow> bool"
  fg_expected_next_sequence_number :: u64

definition max_stock_locates :: nat where
  "max_stock_locates = 65536"

definition valid_stock_locate :: "u32 \<Rightarrow> bool" where
  "valid_stock_locate stock_locate \<longleftrightarrow> unat stock_locate < max_stock_locates"

definition packet_length_matches :: "fpga_request \<Rightarrow> bool" where
  "packet_length_matches request \<longleftrightarrow> unat (fm_packet_length (fq_metadata request)) = length (fq_packet request)"

definition decision_timestamp :: "fpga_request \<Rightarrow> u64" where
  "decision_timestamp request =
     (if fm_receive_timestamp_ns (fq_metadata request) = 0 then 0
      else fm_receive_timestamp_ns (fq_metadata request) + 1)"

definition set_all_stock_locates_enabled :: "bool \<Rightarrow> fpga_gate \<Rightarrow> fpga_gate" where
  "set_all_stock_locates_enabled b g = g\<lparr>fg_enabled_stock_locates := (\<lambda>_. b)\<rparr>"

definition set_stock_locate_enabled :: "u32 \<Rightarrow> bool \<Rightarrow> fpga_gate \<Rightarrow> fpga_gate" where
  "set_stock_locate_enabled stock_locate b g =
     (if \<not> valid_stock_locate stock_locate then g
      else g\<lparr>fg_enabled_stock_locates := (fg_enabled_stock_locates g)(unat stock_locate := b)\<rparr>)"

definition stock_locate_enabled :: "fpga_gate \<Rightarrow> u32 \<Rightarrow> bool" where
  "stock_locate_enabled g stock_locate =
     (if \<not> valid_stock_locate stock_locate then False else fg_enabled_stock_locates g (unat stock_locate))"

definition make_fpga_gate :: "fpga_config \<Rightarrow> fpga_gate" where
  "make_fpga_gate config = set_all_stock_locates_enabled True
     \<lparr>fg_config = config, fg_counters = zero_fpga_counters, fg_enabled_stock_locates = (\<lambda>_. False),
      fg_expected_next_sequence_number = 0\<rparr>"

definition reset_counters :: "fpga_gate \<Rightarrow> fpga_gate" where
  "reset_counters g = g\<lparr>fg_counters := zero_fpga_counters\<rparr>"

definition reset_sequence_tracking :: "fpga_gate \<Rightarrow> fpga_gate" where
  "reset_sequence_tracking g = g\<lparr>fg_expected_next_sequence_number := 0\<rparr>"

definition set_config :: "fpga_config \<Rightarrow> fpga_gate \<Rightarrow> fpga_gate" where
  "set_config config g = g\<lparr>fg_config := config\<rparr>"

text \<open>The lambda \<^verbatim>\<open>make_result\<close> of \<^verbatim>\<open>evaluate\<close>: it counts the decision and fills in the result.\<close>

fun count_decision :: "fpga_decision \<Rightarrow> fpga_counters \<Rightarrow> fpga_counters" where
  "count_decision FD_accept c = c\<lparr>fc_accepted := fc_accepted c + 1\<rparr>"
| "count_decision FD_reject c = c\<lparr>fc_rejected := fc_rejected c + 1\<rparr>"
| "count_decision FD_drop c = c\<lparr>fc_dropped := fc_dropped c + 1\<rparr>"
| "count_decision FD_pass_to_software c = c\<lparr>fc_passed_to_software := fc_passed_to_software c + 1\<rparr>"
| "count_decision FD_unavailable c = c\<lparr>fc_unavailable := fc_unavailable c + 1\<rparr>"

definition make_result :: "fpga_request \<Rightarrow> fpga_decision \<Rightarrow> fpga_reason \<Rightarrow> fpga_gate \<Rightarrow> fpga_result \<times> fpga_gate" where
  "make_result request decision reason g =
     (let c = count_decision decision (fg_counters g);
          c = (if reason = FR_malformed_packet then c\<lparr>fc_malformed := fc_malformed c + 1\<rparr> else c)
      in (\<lparr>fr_decision = decision, fr_reason = reason,
            fr_sequence_number = fm_sequence_number (fq_metadata request),
            fr_receive_timestamp_ns = fm_receive_timestamp_ns (fq_metadata request),
            fr_decision_timestamp_ns = decision_timestamp request,
            fr_timestamp_source = FT_software_reference, fr_counters = c\<rparr>, g\<lparr>fg_counters := c\<rparr>))"

definition count_packet :: "fpga_gate \<Rightarrow> fpga_gate" where
  "count_packet g = g\<lparr>fg_counters := (fg_counters g)\<lparr>fc_packets := fc_packets (fg_counters g) + 1\<rparr>\<rparr>"

text \<open>The checks of \<^verbatim>\<open>evaluate\<close> after the sequence tracking.\<close>

definition evaluate_order :: "fpga_request \<Rightarrow> fpga_gate \<Rightarrow> fpga_result \<times> fpga_gate" where
  "evaluate_order request g =
     (let config = fg_config g; metadata = fq_metadata request
      in if fg_require_instrument_key config \<and> \<not> fm_has_instrument_key metadata
         then make_result request FD_pass_to_software FR_config_miss g
         else if fg_enforce_enabled_stock_locates config \<and> \<not> stock_locate_enabled g (fm_stock_locate metadata)
         then make_result request FD_reject FR_symbol_not_enabled g
         else if fg_require_order_fields config \<and> \<not> fm_has_order_fields metadata
         then make_result request FD_pass_to_software FR_software_required g
         else if fm_has_order_fields metadata \<and>
           (let quantity_ok = fm_quantity metadata \<ge> fg_min_quantity config \<and> fm_quantity metadata \<le> fg_max_quantity config;
                price_ok = fm_price metadata \<ge> fg_min_price config \<and> fm_price metadata \<le> fg_max_price config
            in \<not> quantity_ok \<or> \<not> price_ok)
         then make_result request FD_reject FR_risk_reject g
         else make_result request FD_accept FR_none g)"

definition evaluate :: "fpga_request \<Rightarrow> fpga_gate \<Rightarrow> fpga_result \<times> fpga_gate" where
  "evaluate request g0 =
     (let g = count_packet g0; sequence_number = fm_sequence_number (fq_metadata request)
      in if \<not> fg_enabled (fg_config g) then make_result request FD_pass_to_software FR_software_required g
         else if fq_packet request = [] \<or> \<not> packet_length_matches request
         then make_result request FD_drop FR_malformed_packet g
         else if fg_detect_sequence_gaps (fg_config g) \<and> sequence_number \<noteq> 0 then
           if fg_expected_next_sequence_number g \<noteq> 0 \<and> sequence_number \<noteq> fg_expected_next_sequence_number g
           then make_result request FD_reject FR_sequence_gap (g\<lparr>fg_expected_next_sequence_number := sequence_number + 1\<rparr>)
           else evaluate_order request (g\<lparr>fg_expected_next_sequence_number := sequence_number + 1\<rparr>)
         else evaluate_order request g)"

section \<open>Counting\<close>

definition decisions_counted :: "fpga_counters \<Rightarrow> u64" where
  "decisions_counted c = fc_accepted c + fc_rejected c + fc_dropped c + fc_passed_to_software c + fc_unavailable c"

fun evaluate_all :: "(fpga_request \<Rightarrow> 'g \<Rightarrow> fpga_result \<times> 'g) \<Rightarrow> fpga_request list \<Rightarrow> 'g \<Rightarrow> fpga_result list \<times> 'g" where
  "evaluate_all eval [] g = ([], g)"
| "evaluate_all eval (q # qs) g =
     (case eval q g of (r, g') \<Rightarrow> (case evaluate_all eval qs g' of (rs, g'') \<Rightarrow> (r # rs, g'')))"

locale counting_gate =
  fixes eval :: "fpga_request \<Rightarrow> 'g \<Rightarrow> fpga_result \<times> 'g" and counters :: "'g \<Rightarrow> fpga_counters"
  assumes packets: "eval q g = (r, g') \<Longrightarrow> fc_packets (counters g') = fc_packets (counters g) + 1"
    and decisions: "eval q g = (r, g') \<Longrightarrow> decisions_counted (counters g') = decisions_counted (counters g) + 1"
    and accepts: "eval q g = (r, g') \<Longrightarrow>
      fc_accepted (counters g') = fc_accepted (counters g) + of_bool (fr_decision r = FD_accept)"
    and malformed: "eval q g = (r, g') \<Longrightarrow>
      fc_malformed (counters g') = fc_malformed (counters g) + of_bool (fr_reason r = FR_malformed_packet)"
    and snapshot: "eval q g = (r, g') \<Longrightarrow> fr_counters r = counters g'"
begin

lemma evaluate_all_counts:
  "evaluate_all eval qs g = (rs, g') \<Longrightarrow>
     fc_packets (counters g') = fc_packets (counters g) + of_nat (length qs)
     \<and> decisions_counted (counters g') = decisions_counted (counters g) + of_nat (length qs)
     \<and> fc_accepted (counters g') = fc_accepted (counters g) + of_nat (length (filter (\<lambda>r. fr_decision r = FD_accept) rs))
     \<and> fc_malformed (counters g') = fc_malformed (counters g)
         + of_nat (length (filter (\<lambda>r. fr_reason r = FR_malformed_packet) rs))"
proof (induction qs arbitrary: g rs)
  case (Cons q qs)
  obtain r g1 where 1: "eval q g = (r, g1)" by (cases "eval q g")
  obtain rs1 where 2: "evaluate_all eval qs g1 = (rs1, g')" "rs = r # rs1"
    using Cons.prems 1 by (auto split: prod.splits)
  from Cons.IH [OF 2(1)] packets [OF 1] decisions [OF 1] accepts [OF 1] malformed [OF 1] 2(2)
  show ?case by (simp add: add.assoc)
qed simp

end

interpretation unavailable_gate: counting_gate unavailable_evaluate "\<lambda>c. c"
  by unfold_locales (auto simp: unavailable_evaluate_def decisions_counted_def Let_def)

lemma make_result_fields:
  assumes "make_result request d reason g = (r, g')"
  shows "fr_decision r = d" "fr_reason r = reason" "fr_counters r = fg_counters g'"
    "fg_expected_next_sequence_number g' = fg_expected_next_sequence_number g"
    "fc_packets (fg_counters g') = fc_packets (fg_counters g)"
    "decisions_counted (fg_counters g') = decisions_counted (fg_counters g) + 1"
    "fc_accepted (fg_counters g') = fc_accepted (fg_counters g) + of_bool (d = FD_accept)"
    "fc_malformed (fg_counters g') = fc_malformed (fg_counters g) + of_bool (reason = FR_malformed_packet)"
    "fg_config g' = fg_config g"
  using assms by (cases d; auto simp: make_result_def decisions_counted_def Let_def)+

text \<open>Every path through \<open>evaluate\<close> ends in one \<open>make_result\<close>; which one, and on which gate.\<close>

definition gives_result :: "fpga_request \<Rightarrow> fpga_gate \<Rightarrow> fpga_result \<times> fpga_gate \<Rightarrow> bool" where
  "gives_result request g p \<longleftrightarrow> (\<exists>d reason g1. p = make_result request d reason g1
     \<and> fg_counters g1 = fg_counters g \<and> fg_config g1 = fg_config g)"

lemma gives_result_make: "fg_counters g1 = fg_counters g \<Longrightarrow> fg_config g1 = fg_config g \<Longrightarrow>
    gives_result request g (make_result request d reason g1)"
  unfolding gives_result_def by blast

lemma gives_result_if: "gives_result request g p \<Longrightarrow> gives_result request g p' \<Longrightarrow> gives_result request g (if b then p else p')"
  by simp

lemma gives_result_order: "fg_counters g1 = fg_counters g \<Longrightarrow> fg_config g1 = fg_config g \<Longrightarrow>
    gives_result request g (evaluate_order request g1)"
  unfolding evaluate_order_def Let_def by (intro gives_result_if gives_result_make)

lemma gives_result_evaluate: "gives_result request (count_packet g) (evaluate request g)"
  unfolding evaluate_def Let_def by (intro gives_result_if gives_result_make gives_result_order) simp_all

interpretation reference_gate: counting_gate evaluate fg_counters
proof unfold_locales
  fix q g r g' assume e: "evaluate q g = (r, g')"
  obtain d reason g1 where m: "evaluate q g = make_result q d reason g1" "fg_counters g1 = fg_counters (count_packet g)"
    using gives_result_evaluate [of q g] by (auto simp: gives_result_def)
  note f = make_result_fields [OF e [unfolded m(1)]]
  show "fc_packets (fg_counters g') = fc_packets (fg_counters g) + 1"
    "decisions_counted (fg_counters g') = decisions_counted (fg_counters g) + 1"
    "fc_accepted (fg_counters g') = fc_accepted (fg_counters g) + of_bool (fr_decision r = FD_accept)"
    "fc_malformed (fg_counters g') = fc_malformed (fg_counters g) + of_bool (fr_reason r = FR_malformed_packet)"
    "fr_counters r = fg_counters g'"
    using f m(2) by (simp_all add: count_packet_def decisions_counted_def)
qed

section \<open>Decisions\<close>

lemma make_result_decision [simp]:
  "fr_decision (fst (make_result request d reason g)) = d" "fr_reason (fst (make_result request d reason g)) = reason"
  "fg_expected_next_sequence_number (snd (make_result request d reason g)) = fg_expected_next_sequence_number g"
  "fg_config (snd (make_result request d reason g)) = fg_config g"
  by (simp_all add: make_result_def Let_def)

lemma count_packet_fields [simp]:
  "fg_config (count_packet g) = fg_config g" "fg_expected_next_sequence_number (count_packet g) = fg_expected_next_sequence_number g"
  "fg_enabled_stock_locates (count_packet g) = fg_enabled_stock_locates g"
  by (simp_all add: count_packet_def)

text \<open>A packet the gate looks into, and an order it finds acceptable.\<close>

definition well_formed :: "fpga_request \<Rightarrow> bool" where
  "well_formed request \<longleftrightarrow> fq_packet request \<noteq> [] \<and> unat (fm_packet_length (fq_metadata request)) = length (fq_packet request)"

definition in_sequence :: "fpga_gate \<Rightarrow> fpga_request \<Rightarrow> bool" where
  "in_sequence g request \<longleftrightarrow> fg_detect_sequence_gaps (fg_config g) \<longrightarrow>
     fm_sequence_number (fq_metadata request) = 0 \<or> fg_expected_next_sequence_number g = 0
     \<or> fm_sequence_number (fq_metadata request) = fg_expected_next_sequence_number g"

definition acceptable_order :: "fpga_gate \<Rightarrow> fpga_metadata \<Rightarrow> bool" where
  "acceptable_order g m \<longleftrightarrow>
     (fg_require_instrument_key (fg_config g) \<longrightarrow> fm_has_instrument_key m)
     \<and> (fg_enforce_enabled_stock_locates (fg_config g) \<longrightarrow>
          unat (fm_stock_locate m) < 65536 \<and> fg_enabled_stock_locates g (unat (fm_stock_locate m)))
     \<and> (fg_require_order_fields (fg_config g) \<longrightarrow> fm_has_order_fields m)
     \<and> (fm_has_order_fields m \<longrightarrow>
          fm_quantity m \<in> {fg_min_quantity (fg_config g) .. fg_max_quantity (fg_config g)}
          \<and> fm_price m \<in> {fg_min_price (fg_config g) .. fg_max_price (fg_config g)})"

lemma evaluate_order_accepts:
  "fr_decision (fst (evaluate_order request g)) = FD_accept \<longleftrightarrow> acceptable_order g (fq_metadata request)"
  "fr_reason (fst (evaluate_order request g)) = FR_none \<longleftrightarrow> acceptable_order g (fq_metadata request)"
  "fr_reason (fst (evaluate_order request g)) \<noteq> FR_sequence_gap" "fr_reason (fst (evaluate_order request g)) \<noteq> FR_malformed_packet"
  "fg_expected_next_sequence_number (snd (evaluate_order request g)) = fg_expected_next_sequence_number g"
  "fg_config (snd (evaluate_order request g)) = fg_config g"
  unfolding evaluate_order_def Let_def
  by (auto simp: acceptable_order_def stock_locate_enabled_def valid_stock_locate_def max_stock_locates_def)

lemma acceptable_order_cong:
  "acceptable_order (g\<lparr>fg_expected_next_sequence_number := n\<rparr>) = acceptable_order g"
  "acceptable_order (count_packet g) = acceptable_order g"
  by (auto simp: acceptable_order_def fun_eq_iff)

lemma evaluate_cases:
  assumes "fg_enabled (fg_config g)" "well_formed request"
  shows "evaluate request g =
    (let s = fm_sequence_number (fq_metadata request);
         g' = (if fg_detect_sequence_gaps (fg_config g) \<and> s \<noteq> 0
               then (count_packet g)\<lparr>fg_expected_next_sequence_number := s + 1\<rparr> else count_packet g)
     in if in_sequence g request then evaluate_order request g' else make_result request FD_reject FR_sequence_gap g')"
  using assms by (auto simp: evaluate_def well_formed_def packet_length_matches_def in_sequence_def Let_def)

lemma evaluate_malformed:
  assumes "fg_enabled (fg_config g)" "\<not> well_formed request"
  shows "evaluate request g = make_result request FD_drop FR_malformed_packet (count_packet g)"
  using assms by (auto simp: evaluate_def well_formed_def packet_length_matches_def Let_def)

text \<open>
  What the gate promises: the requirements on a packet in the order of their importance, each with the reason its
  failure gives, and the decision that goes with a reason.\<close>

definition requirements :: "fpga_gate \<Rightarrow> fpga_request \<Rightarrow> (bool \<times> fpga_reason) list" where
  "requirements g request = (let c = fg_config g; m = fq_metadata request in
    [(fg_enabled c, FR_software_required),
     (well_formed request, FR_malformed_packet),
     (in_sequence g request, FR_sequence_gap),
     (fg_require_instrument_key c \<longrightarrow> fm_has_instrument_key m, FR_config_miss),
     (fg_enforce_enabled_stock_locates c \<longrightarrow>
        unat (fm_stock_locate m) < 65536 \<and> fg_enabled_stock_locates g (unat (fm_stock_locate m)), FR_symbol_not_enabled),
     (fg_require_order_fields c \<longrightarrow> fm_has_order_fields m, FR_software_required),
     (fm_has_order_fields m \<longrightarrow> fm_quantity m \<in> {fg_min_quantity c .. fg_max_quantity c}
        \<and> fm_price m \<in> {fg_min_price c .. fg_max_price c}, FR_risk_reject)])"

fun first_failing :: "(bool \<times> fpga_reason) list \<Rightarrow> fpga_reason" where
  "first_failing [] = FR_none"
| "first_failing ((holds, reason) # rest) = (if holds then first_failing rest else reason)"

fun decision_for :: "fpga_reason \<Rightarrow> fpga_decision" where
  "decision_for FR_none = FD_accept"
| "decision_for FR_malformed_packet = FD_drop"
| "decision_for FR_sequence_gap = FD_reject"
| "decision_for FR_symbol_not_enabled = FD_reject"
| "decision_for FR_risk_reject = FD_reject"
| "decision_for FR_unsupported_packet = FD_reject"
| "decision_for FR_config_miss = FD_pass_to_software"
| "decision_for FR_software_required = FD_pass_to_software"
| "decision_for FR_hardware_unavailable = FD_unavailable"

text \<open>The gate after a packet: the counters of the decision, and the next sequence number it waits for.\<close>

definition counters_after :: "fpga_reason \<Rightarrow> fpga_counters \<Rightarrow> fpga_counters" where
  "counters_after reason c = (let d = decision_for reason in
     c\<lparr>fc_packets := fc_packets c + 1, fc_accepted := fc_accepted c + of_bool (d = FD_accept),
       fc_rejected := fc_rejected c + of_bool (d = FD_reject), fc_dropped := fc_dropped c + of_bool (d = FD_drop),
       fc_passed_to_software := fc_passed_to_software c + of_bool (d = FD_pass_to_software),
       fc_malformed := fc_malformed c + of_bool (reason = FR_malformed_packet)\<rparr>)"

definition awaited_next :: "fpga_gate \<Rightarrow> fpga_request \<Rightarrow> u64" where
  "awaited_next g request =
     (if fg_enabled (fg_config g) \<and> well_formed request \<and> fg_detect_sequence_gaps (fg_config g)
        \<and> fm_sequence_number (fq_metadata request) \<noteq> 0
      then fm_sequence_number (fq_metadata request) + 1 else fg_expected_next_sequence_number g)"

definition answer_for :: "fpga_gate \<Rightarrow> fpga_request \<Rightarrow> fpga_reason \<Rightarrow> fpga_result \<times> fpga_gate" where
  "answer_for g request reason =
     (\<lparr>fr_decision = decision_for reason, fr_reason = reason,
       fr_sequence_number = fm_sequence_number (fq_metadata request),
       fr_receive_timestamp_ns = fm_receive_timestamp_ns (fq_metadata request),
       fr_decision_timestamp_ns = decision_timestamp request, fr_timestamp_source = FT_software_reference,
       fr_counters = counters_after reason (fg_counters g)\<rparr>,
      g\<lparr>fg_counters := counters_after reason (fg_counters g), fg_expected_next_sequence_number := awaited_next g request\<rparr>)"

lemma make_result_answer:
  assumes "reason \<noteq> FR_hardware_unavailable"
  shows "make_result request (decision_for reason) reason
      ((count_packet g)\<lparr>fg_expected_next_sequence_number := awaited_next g request\<rparr>) = answer_for g request reason"
  using assms by (cases reason) (simp_all add: make_result_def answer_for_def counters_after_def count_packet_def Let_def)

lemma first_failing_known: "first_failing (requirements g request) \<noteq> FR_hardware_unavailable"
  by (simp add: requirements_def Let_def)

lemma if_chain:
  "(if \<not> k then m a else if \<not> l then m b else if \<not> f then m c else if \<not> q then m d else m e)
   = m (if k then if l then if f then if q then e else d else c else b else a)"
  by simp

lemma evaluate_order_result:
  fixes g request
  defines "c \<equiv> fg_config g" and "md \<equiv> fq_metadata request"
  assumes "fg_config g1 = fg_config g" "fg_enabled_stock_locates g1 = fg_enabled_stock_locates g"
    and "fg_enabled (fg_config g)" "well_formed request" "in_sequence g request"
  shows "evaluate_order request g1 = make_result request (decision_for (first_failing (requirements g request)))
      (first_failing (requirements g request)) g1"
proof -
  let ?k = "fg_require_instrument_key c \<longrightarrow> fm_has_instrument_key md"
  let ?l = "fg_enforce_enabled_stock_locates c \<longrightarrow>
    unat (fm_stock_locate md) < 65536 \<and> fg_enabled_stock_locates g (unat (fm_stock_locate md))"
  let ?f = "fg_require_order_fields c \<longrightarrow> fm_has_order_fields md"
  let ?q = "fm_has_order_fields md \<longrightarrow> fm_quantity md \<in> {fg_min_quantity c .. fg_max_quantity c}
    \<and> fm_price md \<in> {fg_min_price c .. fg_max_price c}"
  let ?make = "\<lambda>reason. make_result request (decision_for reason) reason g1"
  have "evaluate_order request g1 = (if \<not> ?k then ?make FR_config_miss else if \<not> ?l then ?make FR_symbol_not_enabled
      else if \<not> ?f then ?make FR_software_required else if \<not> ?q then ?make FR_risk_reject else ?make FR_none)"
    unfolding evaluate_order_def Let_def
    by (intro if_cong) (auto simp: assms stock_locate_enabled_def valid_stock_locate_def max_stock_locates_def)
  also have "\<dots> = ?make (if ?k then if ?l then if ?f then if ?q then FR_none else FR_risk_reject
      else FR_software_required else FR_symbol_not_enabled else FR_config_miss)"
    by (rule if_chain)
  also have "(if ?k then if ?l then if ?f then if ?q then FR_none else FR_risk_reject
      else FR_software_required else FR_symbol_not_enabled else FR_config_miss) = first_failing (requirements g request)"
    using assms by (simp add: requirements_def Let_def cong: if_cong)
  finally show ?thesis .
qed

lemma evaluate_answer: "evaluate request g = answer_for g request (first_failing (requirements g request))"
proof -
  let ?r = "first_failing (requirements g request)"
  let ?g = "(count_packet g)\<lparr>fg_expected_next_sequence_number := awaited_next g request\<rparr>"
  have "evaluate request g = make_result request (decision_for ?r) ?r ?g"
  proof (cases "fg_enabled (fg_config g) \<and> well_formed request")
    case False
    then have "?g = count_packet g" by (auto simp: awaited_next_def count_packet_def)
    then show ?thesis using False
      by (cases "fg_enabled (fg_config g)") (simp_all add: requirements_def Let_def evaluate_malformed, simp add: evaluate_def Let_def)
  next
    case True
    then have "evaluate request g = (if in_sequence g request then evaluate_order request ?g
        else make_result request FD_reject FR_sequence_gap ?g)"
      using evaluate_cases [of g request] by (auto simp: Let_def awaited_next_def count_packet_def)
    with True evaluate_order_result [of ?g g request] show ?thesis
      by (cases "in_sequence g request") (simp_all, simp add: requirements_def Let_def)
  qed
  then show ?thesis using make_result_answer [OF first_failing_known] by simp
qed

definition sequenced :: "fpga_request \<Rightarrow> bool" where
  "sequenced request \<longleftrightarrow> well_formed request \<and> fm_sequence_number (fq_metadata request) \<noteq> 0
     \<and> fm_sequence_number (fq_metadata request) \<noteq> - 1"

fun gaps :: "u64 \<Rightarrow> u64 list \<Rightarrow> bool list" where
  "gaps e [] = []"
| "gaps e (s # ss) = (e \<noteq> 0 \<and> s \<noteq> e) # gaps (s + 1) ss"

lemma gaps_nth:
  "i + 1 < length ss \<Longrightarrow> \<forall>s \<in> set ss. s \<noteq> - 1 \<Longrightarrow> gaps e ss ! (i + 1) \<longleftrightarrow> ss ! (i + 1) \<noteq> ss ! i + 1"
proof (induction e ss arbitrary: i rule: gaps.induct)
  case (2 e s ss)
  show ?case
  proof (cases i)
    case 0
    have "s + 1 \<noteq> 0" using 2(3) by (auto simp: eq_neg_iff_add_eq_0)
    then show ?thesis using 0 2(2) by (cases ss) auto
  next
    case (Suc j)
    with 2 show ?thesis by auto
  qed
qed simp

lemma evaluate_all_gaps:
  assumes "fg_enabled (fg_config g)" "fg_detect_sequence_gaps (fg_config g)" "\<forall>q \<in> set qs. sequenced q"
  shows "map (\<lambda>r. fr_reason r = FR_sequence_gap) (fst (evaluate_all evaluate qs g))
    = gaps (fg_expected_next_sequence_number g) (map (fm_sequence_number \<circ> fq_metadata) qs)"
  using assms
proof (induction qs arbitrary: g)
  case (Cons q qs)
  let ?s = "fm_sequence_number (fq_metadata q)"
  have e: "evaluate q g = (let g' = (count_packet g)\<lparr>fg_expected_next_sequence_number := ?s + 1\<rparr>
      in if in_sequence g q then evaluate_order q g' else make_result q FD_reject FR_sequence_gap g')"
    using Cons.prems by (simp add: evaluate_cases sequenced_def Let_def)
  have "fr_reason (fst (evaluate q g)) = FR_sequence_gap \<longleftrightarrow> fg_expected_next_sequence_number g \<noteq> 0 \<and> ?s \<noteq> fg_expected_next_sequence_number g"
    "fg_expected_next_sequence_number (snd (evaluate q g)) = ?s + 1" "fg_config (snd (evaluate q g)) = fg_config g"
    using Cons.prems unfolding e Let_def by (auto simp: evaluate_order_accepts in_sequence_def sequenced_def)
  with Cons.IH [of "snd (evaluate q g)"] Cons.prems show ?case by (auto split: prod.splits)
qed simp

section \<open>Properties\<close>

definition sample_fpga_request :: "u64 \<Rightarrow> fpga_request" where
  "sample_fpga_request n = \<lparr>fq_packet = [1, 2, 3, 4], fq_metadata = \<lparr>fm_sequence_number = n, fm_receive_timestamp_ns = 1000,
     fm_packet_length = 4, fm_stock_locate = 7, fm_has_instrument_key = True, fm_has_order_fields = True, fm_side = 66,
     fm_quantity = 100, fm_price = 1500000\<rparr>\<rparr>"

text \<open>
  C24: What the reference gate decides about a packet, for every gate and every packet. The reason is that of the
  first requirement the packet fails: a gate that is not enabled passes it to software (\<open>software_required\<close>); an
  enabled one drops a malformed packet, rejects one out of sequence, passes to software one without a required
  instrument key (\<open>config_miss\<close>), rejects a stock locate that is not enabled, passes to software one without
  required order fields, rejects a quantity or a price out of range, and accepts the rest. The answer carries that
  decision and the packet's own sequence number and time; the gate counts the packet and its decision once,
  counts as malformed only the dropped packets, awaits the number after this packet's when it watches sequence
  numbers and the well-formed packet has one, and is otherwise unchanged.\<close>

theorem fpga_decision_exact:
  "(fr_decision (fst (evaluate request g)) = FD_accept \<longleftrightarrow>
      fg_enabled (fg_config g) \<and> well_formed request \<and> in_sequence g request \<and> acceptable_order g (fq_metadata request))
   \<and> (fr_decision (fst (evaluate request g)) = FD_drop \<longleftrightarrow> fg_enabled (fg_config g) \<and> \<not> well_formed request)
   \<and> fr_reason (fst (evaluate request g)) = first_failing (requirements g request)
   \<and> evaluate request g = answer_for g request (first_failing (requirements g request))"
proof -
  have "fr_decision (fst (evaluate request g)) = decision_for (first_failing (requirements g request))"
    "fr_reason (fst (evaluate request g)) = first_failing (requirements g request)"
    by (simp_all add: evaluate_answer answer_for_def)
  then show ?thesis using evaluate_answer [of request g]
    by (auto simp: requirements_def Let_def acceptable_order_def)
qed

text \<open>
  Gap detection. When an enabled gate that watches sequence numbers processes a stream of well-formed, numbered
  packets, every packet after the first is rejected as a sequence gap exactly when its number is not the successor of
  the number just before it, whatever else was wrong with either packet.\<close>

theorem fpga_gaps_exact:
  assumes "fg_enabled (fg_config g)" "fg_detect_sequence_gaps (fg_config g)" "\<forall>q \<in> set qs. sequenced q"
    "evaluate_all evaluate qs g = (rs, g')" "i + 1 < length qs"
  shows "fr_reason (rs ! (i + 1)) = FR_sequence_gap \<longleftrightarrow>
    fm_sequence_number (fq_metadata (qs ! (i + 1))) \<noteq> fm_sequence_number (fq_metadata (qs ! i)) + 1"
proof -
  let ?ss = "map (fm_sequence_number \<circ> fq_metadata) qs"
  have g: "map (\<lambda>r. fr_reason r = FR_sequence_gap) rs = gaps (fg_expected_next_sequence_number g) ?ss"
    using evaluate_all_gaps [OF assms(1-3)] assms(4) by simp
  have "length (gaps e ss) = length ss" for e ss by (induction e ss rule: gaps.induct) auto
  then have l: "length rs = length qs" using arg_cong [OF g, of length] by simp
  have "fr_reason (rs ! (i + 1)) = FR_sequence_gap \<longleftrightarrow> map (\<lambda>r. fr_reason r = FR_sequence_gap) rs ! (i + 1)"
    using l assms(5) by simp
  then have "fr_reason (rs ! (i + 1)) = FR_sequence_gap \<longleftrightarrow> gaps (fg_expected_next_sequence_number g) ?ss ! (i + 1)"
    by (simp only: g)
  with gaps_nth [of i ?ss "fg_expected_next_sequence_number g"] assms(3,5) show ?thesis
    by (auto simp: sequenced_def)
qed

theorem fpga_gaps_exact_witness:
  "fr_reason (fst (evaluate_all evaluate [sample_fpga_request 5, sample_fpga_request 7] (make_fpga_gate default_fpga_config)) ! 1)
   = FR_sequence_gap"
proof -
  let ?qs = "[sample_fpga_request 5, sample_fpga_request 7]" and ?g = "make_fpga_gate default_fpga_config"
  have "\<forall>q \<in> set ?qs. sequenced q" by (simp add: sequenced_def well_formed_def sample_fpga_request_def)
  moreover have "fg_enabled (fg_config ?g)" "fg_detect_sequence_gaps (fg_config ?g)"
    by (simp_all add: make_fpga_gate_def set_all_stock_locates_enabled_def default_fpga_config_def)
  ultimately show ?thesis
    using fpga_gaps_exact [of ?g ?qs "fst (evaluate_all evaluate ?qs ?g)" "snd (evaluate_all evaluate ?qs ?g)" 0]
    by (simp add: sample_fpga_request_def)
qed

text \<open>
  The counters account for every packet: from fresh counters, after any stream the reference gate and the
  unavailable gate both report the number of packets, the five decision counters add up to it, and acceptances and
  malformed packets are counted exactly, all modulo the width of the counters.\<close>

theorem fpga_counters_account:
  assumes "fg_counters g = zero_fpga_counters" "evaluate_all evaluate qs g = (rs, g')"
    "evaluate_all unavailable_evaluate qs zero_fpga_counters = (us, c)"
  shows "fc_packets (fg_counters g') = of_nat (length qs) \<and> decisions_counted (fg_counters g') = of_nat (length qs)
    \<and> fc_accepted (fg_counters g') = of_nat (length (filter (\<lambda>r. fr_decision r = FD_accept) rs))
    \<and> fc_malformed (fg_counters g') = of_nat (length (filter (\<lambda>r. fr_reason r = FR_malformed_packet) rs))
    \<and> fc_packets c = of_nat (length qs) \<and> decisions_counted c = of_nat (length qs)"
proof -
  have "decisions_counted zero_fpga_counters = 0" "fc_packets zero_fpga_counters = 0" "fc_accepted zero_fpga_counters = 0"
    "fc_malformed zero_fpga_counters = 0"
    by (simp_all add: zero_fpga_counters_def decisions_counted_def)
  then show ?thesis
    using reference_gate.evaluate_all_counts [OF assms(2)] unavailable_gate.evaluate_all_counts [OF assms(3)] assms(1)
    by simp
qed

theorem fpga_counters_account_witness:
  "fc_packets (fg_counters (snd (evaluate_all evaluate [sample_fpga_request 5, sample_fpga_request 7]
     (make_fpga_gate default_fpga_config)))) = 2"
  using fpga_counters_account [of "make_fpga_gate default_fpga_config" "[sample_fpga_request 5, sample_fpga_request 7]"
    "fst (evaluate_all evaluate [sample_fpga_request 5, sample_fpga_request 7] (make_fpga_gate default_fpga_config))"
    "snd (evaluate_all evaluate [sample_fpga_request 5, sample_fpga_request 7] (make_fpga_gate default_fpga_config))"
    "fst (evaluate_all unavailable_evaluate [sample_fpga_request 5, sample_fpga_request 7] zero_fpga_counters)"
    "snd (evaluate_all unavailable_evaluate [sample_fpga_request 5, sample_fpga_request 7] zero_fpga_counters)"]
  by (simp add: make_fpga_gate_def set_all_stock_locates_enabled_def)

end
