(* ===== verification/Telemetry.thy ===== *)
theory Telemetry
  imports Prelude "HOL-Library.Multiset"
begin

text \<open>
  Latency telemetry: \<^verbatim>\<open>src/telemetry/pipeline_telemetry.cpp\<close> (the time stamps an order collects on its way
  through the pipeline) and \<^verbatim>\<open>src/telemetry/latency_summary.cpp\<close> (the recorder of latencies and their summary by
  minimum, maximum, mean and nearest-rank percentiles).

  Sizes are natural numbers, except in the rank of a percentile: there the 64-bit product may wrap, and the
  reduction modulo \<open>2^64\<close> is written out.
\<close>

section \<open>Time stamps of the pipeline\<close>

datatype pipeline_stage =
    PS_ingest | PS_decode | PS_book_update | PS_risk_decision | PS_lifecycle_decision | PS_enqueue | PS_submit
  | PS_count

fun stage_index :: "pipeline_stage \<Rightarrow> nat" where
  "stage_index PS_ingest = 0"
| "stage_index PS_decode = 1"
| "stage_index PS_book_update = 2"
| "stage_index PS_risk_decision = 3"
| "stage_index PS_lifecycle_decision = 4"
| "stage_index PS_enqueue = 5"
| "stage_index PS_submit = 6"
| "stage_index PS_count = 7"

definition pipeline_stage_count :: nat where
  "pipeline_stage_count = stage_index PS_count"

fun stage_name :: "pipeline_stage \<Rightarrow> string" where
  "stage_name PS_ingest = ''ingest''"
| "stage_name PS_decode = ''decode''"
| "stage_name PS_book_update = ''book_update''"
| "stage_name PS_risk_decision = ''risk_decision''"
| "stage_name PS_lifecycle_decision = ''lifecycle_decision''"
| "stage_name PS_enqueue = ''enqueue''"
| "stage_name PS_submit = ''submit''"
| "stage_name PS_count = ''count''"

record telemetry_event =
  te_user_ref_num :: u32
  te_timestamps :: "u64 list"
  te_observed :: "bool list"

definition new_telemetry_event :: telemetry_event where
  "new_telemetry_event = \<lparr>te_user_ref_num = 0, te_timestamps = replicate pipeline_stage_count 0,
     te_observed = replicate pipeline_stage_count False\<rparr>"

definition te_mark :: "pipeline_stage \<Rightarrow> u64 \<Rightarrow> telemetry_event \<Rightarrow> telemetry_event" where
  "te_mark stage timestamp_ns te =
     (if stage = PS_count then te
      else te\<lparr>te_timestamps := (te_timestamps te)[stage_index stage := timestamp_ns],
              te_observed := (te_observed te)[stage_index stage := True]\<rparr>)"

definition te_has :: "telemetry_event \<Rightarrow> pipeline_stage \<Rightarrow> bool" where
  "te_has te stage = (if stage = PS_count then False else te_observed te ! stage_index stage)"

definition te_timestamp :: "telemetry_event \<Rightarrow> pipeline_stage \<Rightarrow> u64 option" where
  "te_timestamp te stage =
     (if \<not> te_has te stage then None else Some (te_timestamps te ! stage_index stage))"

definition te_latency :: "telemetry_event \<Rightarrow> pipeline_stage \<Rightarrow> pipeline_stage \<Rightarrow> u64 option" where
  "te_latency te from to =
     (case (te_timestamp te from, te_timestamp te to) of
        (Some start, Some finish) \<Rightarrow> if finish < start then None else Some (finish - start)
      | _ \<Rightarrow> None)"

definition te_end_to_end_latency :: "telemetry_event \<Rightarrow> u64 option" where
  "te_end_to_end_latency te = te_latency te PS_ingest PS_submit"

definition te_clear :: "telemetry_event \<Rightarrow> telemetry_event" where
  "te_clear te = te\<lparr>te_timestamps := map (\<lambda>_. 0) (te_timestamps te),
     te_observed := map (\<lambda>_. False) (te_observed te), te_user_ref_num := 0\<rparr>"

section \<open>Summaries of latencies\<close>

datatype latency_measurement_kind = LK_synthetic_deterministic | LK_wall_clock_host | LK_network_end_to_end

fun latency_measurement_kind_name :: "latency_measurement_kind \<Rightarrow> string" where
  "latency_measurement_kind_name LK_synthetic_deterministic = ''synthetic deterministic latency''"
| "latency_measurement_kind_name LK_wall_clock_host = ''wall-clock host latency''"
| "latency_measurement_kind_name LK_network_end_to_end = ''network end-to-end latency''"

fun latency_measurement_kind_note :: "latency_measurement_kind \<Rightarrow> string" where
  "latency_measurement_kind_note LK_synthetic_deterministic =
     ''Synthetic deterministic samples are generated by the benchmark model. '' @
     ''They are useful for repeatability and regression tests, but they are not real elapsed host, '' @
     ''network, exchange, or FPGA latency.''"
| "latency_measurement_kind_note LK_wall_clock_host =
     ''Wall-clock samples are measured with the host steady clock around the benchmarked operation. '' @
     ''They include host clock-read overhead, scheduler effects, and local system noise.''"
| "latency_measurement_kind_note LK_network_end_to_end =
     ''Network end-to-end samples are intended for future receiver/transmitter benchmarks and should '' @
     ''include packet I/O, decode, processing, and submit-path timing when implemented.''"

record latency_summary =
  ls_count :: nat
  ls_min_ns :: u64
  ls_max_ns :: u64
  ls_mean_ns :: u64
  ls_p50_ns :: u64
  ls_p90_ns :: u64
  ls_p99_ns :: u64
  ls_p999_ns :: u64
  ls_warmup_count :: nat

definition percentile_index :: "nat \<Rightarrow> nat \<Rightarrow> nat \<Rightarrow> nat" where
  "percentile_index len numerator denominator =
     (let rank = ((len * numerator + denominator - 1) mod 2 ^ 64) div denominator;
          raw_index = (if rank = 0 then 0 else rank - 1)
      in if raw_index \<ge> len then len - 1 else raw_index)"

definition percentile_nearest_rank :: "u64 list \<Rightarrow> nat \<Rightarrow> nat \<Rightarrow> u64" where
  "percentile_nearest_rank sorted_samples numerator denominator =
     (if sorted_samples = [] \<or> denominator = 0 then 0
      else sorted_samples ! percentile_index (length sorted_samples) numerator denominator)"

text \<open>\<^verbatim>\<open>std::numeric_limits<DurationNs>::max()\<close>.\<close>

abbreviation u64_max :: u64 where
  "u64_max \<equiv> 0xFFFFFFFFFFFFFFFF"

definition saturating_add :: "u64 \<Rightarrow> u64 \<Rightarrow> u64" where
  "saturating_add left right = (if right > u64_max - left then u64_max else left + right)"

definition summarize_latencies :: "u64 list \<Rightarrow> latency_summary option" where
  "summarize_latencies samples0 =
     (if samples0 = [] then None
      else
        let samples = sort samples0;
            total = foldl saturating_add 0 samples;
            samples_count = length samples
        in Some \<lparr>ls_count = samples_count, ls_min_ns = hd samples, ls_max_ns = last samples,
                 ls_mean_ns = total div of_nat samples_count,
                 ls_p50_ns = percentile_nearest_rank samples 50 100,
                 ls_p90_ns = percentile_nearest_rank samples 90 100,
                 ls_p99_ns = percentile_nearest_rank samples 99 100,
                 ls_p999_ns = percentile_nearest_rank samples 999 1000,
                 ls_warmup_count = 0\<rparr>)"

record latency_recorder =
  lrec_samples :: "u64 list"

definition lrec_record :: "u64 \<Rightarrow> latency_recorder \<Rightarrow> latency_recorder" where
  "lrec_record latency_ns lr = lr\<lparr>lrec_samples := lrec_samples lr @ [latency_ns]\<rparr>"

definition record_end_to_end :: "telemetry_event \<Rightarrow> latency_recorder \<Rightarrow> bool \<times> latency_recorder" where
  "record_end_to_end event lr =
     (case te_end_to_end_latency event of
        None \<Rightarrow> (False, lr)
      | Some latency \<Rightarrow> (True, lrec_record latency lr))"

definition lrec_summary :: "latency_recorder \<Rightarrow> latency_summary option" where
  "lrec_summary lr = summarize_latencies (lrec_samples lr)"

definition lrec_empty :: "latency_recorder \<Rightarrow> bool" where
  "lrec_empty lr \<longleftrightarrow> lrec_samples lr = []"

definition lrec_size :: "latency_recorder \<Rightarrow> nat" where
  "lrec_size lr = length (lrec_samples lr)"

definition lrec_clear :: "latency_recorder \<Rightarrow> latency_recorder" where
  "lrec_clear lr = lr\<lparr>lrec_samples := []\<rparr>"

section \<open>The event is a map from stages to their last time stamp\<close>

abbreviation real_marks :: "(pipeline_stage \<times> u64) list \<Rightarrow> (pipeline_stage \<times> u64) list" where
  "real_marks marks \<equiv> filter (\<lambda>(stage, _). stage \<noteq> PS_count) marks"

definition mark_all :: "(pipeline_stage \<times> u64) list \<Rightarrow> telemetry_event \<Rightarrow> telemetry_event" where
  "mark_all marks te = fold (\<lambda>(stage, t). te_mark stage t) marks te"

lemma stage_index_less [simp]: "stage \<noteq> PS_count \<Longrightarrow> stage_index stage < pipeline_stage_count"
  by (cases stage) (simp_all add: pipeline_stage_count_def)

lemma stage_index_inject [simp]: "stage_index a = stage_index b \<longleftrightarrow> a = b"
  by (cases a; cases b) simp_all

definition te_wf :: "telemetry_event \<Rightarrow> bool" where
  "te_wf te \<longleftrightarrow> length (te_timestamps te) = pipeline_stage_count \<and> length (te_observed te) = pipeline_stage_count"

lemma te_wf_new [simp]: "te_wf new_telemetry_event"
  by (simp add: te_wf_def new_telemetry_event_def)

lemma te_wf_mark [simp]: "te_wf te \<Longrightarrow> te_wf (te_mark stage t te)"
  by (simp add: te_wf_def te_mark_def)

lemma te_wf_clear [simp]: "te_wf te \<Longrightarrow> te_wf (te_clear te)"
  by (simp add: te_wf_def te_clear_def)

lemma te_timestamp_new [simp]: "te_timestamp new_telemetry_event stage = None"
  by (auto simp: te_timestamp_def te_has_def new_telemetry_event_def)

lemma te_timestamp_mark:
  "te_wf te \<Longrightarrow> te_timestamp (te_mark stage t te) s =
     (if s = stage \<and> stage \<noteq> PS_count then Some t else te_timestamp te s)"
  by (auto simp: te_timestamp_def te_has_def te_mark_def te_wf_def nth_list_update)

lemma te_timestamp_mark_all:
  "te_wf te \<Longrightarrow> te_timestamp (mark_all marks te) s =
     (case map_of (rev (real_marks marks)) s of None \<Rightarrow> te_timestamp te s | Some t \<Rightarrow> Some t)"
proof (induction marks arbitrary: te)
  case Nil
  show ?case by (simp add: mark_all_def)
next
  case (Cons m marks)
  obtain stage t where m: "m = (stage, t)" by (cases m)
  have "te_timestamp (mark_all (m # marks) te) s = te_timestamp (mark_all marks (te_mark stage t te)) s"
    by (simp add: mark_all_def m)
  then show ?case
    using Cons.IH [OF te_wf_mark [OF Cons.prems, of stage t]]
    by (simp add: m te_timestamp_mark [OF Cons.prems] map_add_def split: option.splits)
qed

section \<open>Nearest-rank percentiles\<close>

text \<open>
  The definition of a nearest-rank percentile: a sample that at least the wanted share of the samples does not
  exceed, while fewer than that share lie below it.\<close>

definition nearest_rank :: "u64 list \<Rightarrow> nat \<Rightarrow> nat \<Rightarrow> u64 \<Rightarrow> bool" where
  "nearest_rank samples numerator denominator v \<longleftrightarrow> v \<in> set samples
     \<and> numerator * length samples \<le> denominator * length (filter (\<lambda>x. x \<le> v) samples)
     \<and> denominator * length (filter (\<lambda>x. x < v) samples) < numerator * length samples"

lemma length_filter_sort [simp]: "length (filter P (sort xs)) = length (filter P xs)"
  by (metis mset_filter mset_sort size_mset)

lemma nearest_rank_sort [simp]: "nearest_rank (sort xs) n d v \<longleftrightarrow> nearest_rank xs n d v"
  by (simp add: nearest_rank_def)

lemma filter_le_nth:
  assumes "sorted xs" "i < length xs"
  shows "Suc i \<le> length (filter (\<lambda>x. x \<le> xs ! i) xs)"
proof -
  have "\<forall>x \<in> set (take (Suc i) xs). x \<le> xs ! i"
    using assms by (auto simp: in_set_conv_nth less_Suc_eq_le sorted_wrt_iff_nth_less [where P = "(\<le>)"] le_eq_less_or_eq)
  then have "filter (\<lambda>x. x \<le> xs ! i) (take (Suc i) xs) = take (Suc i) xs" by (simp add: filter_id_conv)
  then have "Suc i = length (filter (\<lambda>x. x \<le> xs ! i) (take (Suc i) xs))" using assms(2) by simp
  also have "\<dots> \<le> length (filter (\<lambda>x. x \<le> xs ! i) (take (Suc i) xs @ drop (Suc i) xs))"
    by (simp only: filter_append length_append le_add1)
  finally show ?thesis by (simp only: append_take_drop_id)
qed

lemma filter_less_nth:
  assumes "sorted xs" "i < length xs"
  shows "length (filter (\<lambda>x. x < xs ! i) xs) \<le> i"
proof -
  have "\<forall>x \<in> set (drop i xs). \<not> x < xs ! i"
    using assms by (auto simp: in_set_conv_nth not_less intro!: sorted_nth_mono)
  then have "filter (\<lambda>x. x < xs ! i) (drop i xs) = []" by (simp add: filter_empty_conv)
  then have "filter (\<lambda>x. x < xs ! i) (take i xs @ drop i xs) = filter (\<lambda>x. x < xs ! i) (take i xs)"
    by (simp only: filter_append append_Nil2)
  then have "filter (\<lambda>x. x < xs ! i) xs = filter (\<lambda>x. x < xs ! i) (take i xs)"
    by (simp only: append_take_drop_id)
  then show ?thesis
    by (metis length_filter_le length_take min.bounded_iff)
qed

text \<open>The index is one less than the smallest rank whose share reaches the wanted one.\<close>

lemma percentile_index_bounds:
  assumes "0 < len" "0 < n" "n \<le> d" "len * n + d \<le> 2 ^ 64"
  shows "percentile_index len n d < len" and "n * len \<le> d * Suc (percentile_index len n d)"
    and "d * percentile_index len n d < n * len"
proof -
  define r where "r = (len * n + d - 1) div d"
  have d: "0 < d" using assms by simp
  have prod_pos: "0 < len * n" using assms by simp
  have no_wrap: "(len * n + d - 1) mod 2 ^ 64 = len * n + d - 1" using assms d by simp
  have eq: "d * r + (len * n + d - 1) mod d = len * n + d - 1"
    unfolding r_def by (rule mult_div_mod_eq)
  have rem: "(len * n + d - 1) mod d < d" using d by simp
  have lower: "n * len \<le> d * r" using eq rem d unfolding mult.commute [of n len] by arith
  have pos: "0 < r" using lower assms by (cases r) simp_all
  have upper: "d * (r - 1) < n * len"
  proof -
    have "d * (r - 1) = d * r - d" by (simp add: diff_mult_distrib2)
    also have "\<dots> < len * n" using eq prod_pos d by linarith
    finally show ?thesis by (simp only: mult.commute [of n len])
  qed
  have "d * (r - 1) < d * len"
    using upper assms(3) by (meson less_le_trans mult_le_mono1)
  then have "r - 1 < len" using d by simp
  moreover from this pos have "percentile_index len n d = r - 1"
    unfolding percentile_index_def Let_def no_wrap r_def [symmetric] by simp
  ultimately show "percentile_index len n d < len" "n * len \<le> d * Suc (percentile_index len n d)"
    "d * percentile_index len n d < n * len"
    using lower upper pos by simp_all
qed

lemma percentile_is_nearest_rank:
  assumes "sorted xs" "xs \<noteq> []" "0 < n" "n \<le> d" "length xs * n + d \<le> 2 ^ 64"
  shows "nearest_rank xs n d (percentile_nearest_rank xs n d)"
proof -
  let ?i = "percentile_index (length xs) n d"
  from assms have pos: "0 < length xs" by simp
  note idx = percentile_index_bounds [OF pos assms(3-5)]
  have v: "percentile_nearest_rank xs n d = xs ! ?i" using assms by (simp add: percentile_nearest_rank_def)
  have "n * length xs \<le> d * length (filter (\<lambda>x. x \<le> xs ! ?i) xs)"
    using idx(2) filter_le_nth [OF assms(1) idx(1)] by (meson le_trans mult_le_mono2)
  moreover have "d * length (filter (\<lambda>x. x < xs ! ?i) xs) < n * length xs"
    using idx(3) filter_less_nth [OF assms(1) idx(1)] by (meson le_less_trans mult_le_mono2)
  ultimately show ?thesis using idx(1) by (simp add: nearest_rank_def v)
qed

lemma percentile_index_mono:
  assumes "0 < len" "0 < n" "n \<le> d" "len * n + d \<le> 2 ^ 64"
    and "0 < n'" "n' \<le> d'" "len * n' + d' \<le> 2 ^ 64" and "n * d' \<le> n' * d"
  shows "percentile_index len n d \<le> percentile_index len n' d'"
proof (rule ccontr)
  let ?i = "percentile_index len n d" and ?j = "percentile_index len n' d'"
  note i = percentile_index_bounds [OF assms(1-4)] and j = percentile_index_bounds [OF assms(1,5-7)]
  assume "\<not> ?i \<le> ?j"
  then have "Suc ?j \<le> ?i" by simp
  then have "d * Suc ?j < n * len" using i(3) by (meson le_less_trans mult_le_mono2)
  then have "d' * (d * Suc ?j) < d' * (n * len)" using assms by simp
  also have "\<dots> \<le> d * (n' * len)" using mult_le_mono1 [OF assms(8), of len] by (simp add: ac_simps)
  also have "\<dots> \<le> d * (d' * Suc ?j)" using j(2) by (rule mult_le_mono2)
  finally show False by (simp only: mult.left_commute [of d d'] less_irrefl)
qed

lemma percentile_mono:
  assumes "sorted xs" "xs \<noteq> []" "0 < n" "n \<le> d" "length xs * n + d \<le> 2 ^ 64"
    and "0 < n'" "n' \<le> d'" "length xs * n' + d' \<le> 2 ^ 64" and "n * d' \<le> n' * d"
  shows "percentile_nearest_rank xs n d \<le> percentile_nearest_rank xs n' d'"
proof -
  from assms have pos: "0 < length xs" by simp
  show ?thesis
    using assms percentile_index_mono [OF pos assms(3-9)] percentile_index_bounds(1) [OF pos assms(6-8)]
    by (simp add: percentile_nearest_rank_def sorted_nth_mono)
qed

section \<open>The mean saturates\<close>

lemma unat_le_top: "unat (a :: u64) \<le> 2 ^ 64 - 1"
  using unsigned_less [of a, where 'a = nat] by simp

lemma unat_saturating_add: "unat (saturating_add a b) = min (unat a + unat b) (2 ^ 64 - 1)"
proof -
  have top: "unat u64_max = 2 ^ 64 - 1" by simp
  have le: "a \<le> u64_max" using unat_le_top [of a] by (simp only: word_le_nat_alt top)
  have m: "unat (u64_max - a) = 2 ^ 64 - 1 - unat a" by (simp only: unat_sub [OF le] top)
  have a: "unat a < 2 ^ 64" using unsigned_less [of a, where 'a = nat] by simp
  show ?thesis
    using a by (auto simp: saturating_add_def word_less_nat_alt m unat_word_ariths)
qed

lemma unat_foldl_saturating_add:
  "unat (foldl saturating_add a xs) = min (unat a + sum_list (map unat xs)) (2 ^ 64 - 1)"
proof (induction xs arbitrary: a)
  case Nil
  then show ?case using unsigned_less [of a, where 'a = nat] by simp
next
  case (Cons x xs)
  then show ?case by (simp add: unat_saturating_add)
qed

lemma sum_list_map_sort: "sum_list (map f (sort xs)) = sum_list (map f xs)" for f :: "u64 \<Rightarrow> nat"
  by (metis mset_map mset_sort sum_mset_sum_list)

lemma hd_sort_Min:
  assumes "xs \<noteq> []"
  shows "hd (sort xs) = Min (set xs)"
proof (rule sym, rule Min_eqI)
  obtain y ys where s: "sort xs = y # ys" using assms by (metis list.exhaust set_empty set_sort)
  have sd: "sorted (y # ys)" using sorted_sort [of xs] by (simp only: s)
  have set_s: "set xs = set (y # ys)" by (metis s set_sort)
  show "hd (sort xs) \<in> set xs" by (simp add: set_s s)
  fix z assume "z \<in> set xs"
  then show "hd (sort xs) \<le> z" using sd by (auto simp: set_s s)
qed simp

lemma last_sort_Max:
  assumes "xs \<noteq> []"
  shows "last (sort xs) = Max (set xs)"
proof (rule sym, rule Max_eqI)
  obtain ys y where s: "sort xs = ys @ [y]" using assms by (metis rev_exhaust set_empty set_sort)
  have sd: "sorted (ys @ [y])" using sorted_sort [of xs] by (simp only: s)
  have set_s: "set xs = set (ys @ [y])" by (metis s set_sort)
  show "last (sort xs) \<in> set xs" by (simp add: set_s s)
  fix z assume "z \<in> set xs"
  then show "z \<le> last (sort xs)" using sd by (auto simp: set_s s sorted_append)
qed simp

lemma percentile_room:
  assumes "len * 1000 + 1000 \<le> (2 :: nat) ^ 64" "n \<le> d" "d \<le> 1000"
  shows "len * n + d \<le> 2 ^ 64"
  using assms mult_le_mono2 [of n 1000 len] by linarith

section \<open>Properties\<close>

text \<open>
  The time stamp an event reports for a stage is the one of the last mark of that stage, and the latency between
  two stages is the difference of their last marks; it is absent when a stage was not marked or when the clock
  ran backwards between them, so a reported latency never wraps. Marks of the sentinel \<^verbatim>\<open>count\<close> have no
  effect.\<close>

theorem telemetry_latency_exact:
  "te_latency (mark_all marks new_telemetry_event) from to =
     (case (map_of (rev (real_marks marks)) from, map_of (rev (real_marks marks)) to) of
        (Some start, Some finish) \<Rightarrow> if start \<le> finish then Some (finish - start) else None
      | _ \<Rightarrow> None)"
  by (auto simp: te_latency_def te_timestamp_mark_all not_less [symmetric] split: option.splits)

text \<open>
  C31: The summary of a non-empty list of samples exists whatever their order, and holds their number, their
  least and greatest value, the mean of the total cut off at \<open>2^64 - 1\<close>, and four percentiles, each of which is a
  sample that at least the named share of the samples does not exceed while less than that share lies below it.
  The values are ordered: minimum, median, 90, 99, 99.9 percent, maximum. The bound on the number of samples is
  what keeps the 64-bit rank computation from wrapping.\<close>

theorem latency_summary_exact:
  assumes "samples \<noteq> []" "length samples * 1000 + 1000 \<le> 2 ^ 64"
  shows "\<exists>s. summarize_latencies samples = Some s \<and> ls_count s = length samples
    \<and> ls_min_ns s = Min (set samples) \<and> ls_max_ns s = Max (set samples)
    \<and> unat (ls_mean_ns s) = min (sum_list (map unat samples)) (2 ^ 64 - 1) div length samples
    \<and> nearest_rank samples 50 100 (ls_p50_ns s) \<and> nearest_rank samples 90 100 (ls_p90_ns s)
    \<and> nearest_rank samples 99 100 (ls_p99_ns s) \<and> nearest_rank samples 999 1000 (ls_p999_ns s)
    \<and> sorted [ls_min_ns s, ls_p50_ns s, ls_p90_ns s, ls_p99_ns s, ls_p999_ns s, ls_max_ns s]"
proof -
  let ?s = "sort samples"
  from assms(1) have ne: "?s \<noteq> []" by (metis set_empty set_sort)
  have cnt: "unat (of_nat (length samples) :: u64) = length samples"
    using assms(2) by (simp add: unat_of_nat)
  have mean: "unat (foldl saturating_add 0 ?s div of_nat (length samples)) =
      min (sum_list (map unat samples)) (2 ^ 64 - 1) div length samples"
    by (simp add: unat_div unat_foldl_saturating_add cnt sum_list_map_sort)
  have rank: "nearest_rank samples n d (percentile_nearest_rank ?s n d)" if "0 < n" "n \<le> d" "d \<le> 1000" for n d
    using percentile_is_nearest_rank [of ?s n d] ne that percentile_room [OF assms(2), of n d] by simp
  have mono: "percentile_nearest_rank ?s n d \<le> percentile_nearest_rank ?s n' d'"
    if "0 < n" "n \<le> d" "d \<le> 1000" "0 < n'" "n' \<le> d'" "d' \<le> 1000" "n * d' \<le> n' * d" for n d n' d'
    using percentile_mono [of ?s n d n' d'] ne that
      percentile_room [OF assms(2), of n d] percentile_room [OF assms(2), of n' d'] by simp
  have ends: "Min (set samples) \<le> percentile_nearest_rank ?s 50 100"
    "percentile_nearest_rank ?s 999 1000 \<le> Max (set samples)"
    using rank [of 50 100] rank [of 999 1000] by (simp_all add: nearest_rank_def)
  have chain: "sorted [Min (set samples), percentile_nearest_rank ?s 50 100, percentile_nearest_rank ?s 90 100,
      percentile_nearest_rank ?s 99 100, percentile_nearest_rank ?s 999 1000, Max (set samples)]"
    using ends mono [of 50 100 90 100] mono [of 90 100 99 100] mono [of 99 100 999 1000]
    by (simp del: sorted_wrt.simps add: sorted1 sorted2)
  show ?thesis
    using assms(1) chain
      rank [of 50 100] rank [of 90 100] rank [of 99 100] rank [of 999 1000]
    by (simp add: summarize_latencies_def Let_def hd_sort_Min last_sort_Max mean del: sorted_wrt.simps)
qed

theorem latency_summary_exact_witness:
  "\<exists>s. summarize_latencies [30, 10, 20] = Some s \<and> ls_p50_ns s = 20 \<and> ls_mean_ns s = 20
    \<and> ls_max_ns s = Max (set [30, 10, 20])"
  using latency_summary_exact [of "[30, 10, 20]"]
  by (auto simp: summarize_latencies_def percentile_nearest_rank_def percentile_index_def saturating_add_def)

text \<open>
  The summary depends on the samples only as a multiset: no order in which latencies are recorded changes a report.
  The recorder keeps exactly the end-to-end latencies of the events that have one.\<close>

lemma summarize_latencies_perm: "mset xs = mset ys \<Longrightarrow> summarize_latencies xs = summarize_latencies ys"
  by (metis mset_zero_iff_right sorted_list_of_multiset_mset summarize_latencies_def)

lemma record_end_to_end_all:
  "lrec_samples (fold (\<lambda>e lr. snd (record_end_to_end e lr)) events lr) =
     lrec_samples lr @ List.map_filter te_end_to_end_latency events"
  by (induction events arbitrary: lr)
    (auto simp: record_end_to_end_def lrec_record_def List.map_filter_simps split: option.splits)

end
