(* ===== verification/Async_Worker.thy ===== *)
theory Async_Worker
  imports Execution
begin

text \<open>
  The asynchronous backend with its threads: \<^verbatim>\<open>include/fgep/execution/async_execution_backend.hpp\<close>. Two
  threads share the object: the caller, which constructs it, submits, starts and stops it, and the worker, which
  runs \<^verbatim>\<open>worker_loop\<close>. Each access of the worker to a shared flag or to the queue is a step of its own; the
  queue operations are atomic, which theory \<open>Spsc_Ring\<close> justifies for every interleaving of their memory accesses.
  The worker's \<^verbatim>\<open>std::this_thread::yield\<close> changes nothing and is not a step.

  The theory shows that the backend behind always holds a prefix of the accepted requests in their order, and that
  \<^verbatim>\<open>stop\<close> returns after a bounded number of steps with everything accepted handed over.
\<close>

section \<open>State and operations\<close>

text \<open>Where the worker is in \<^verbatim>\<open>worker_loop\<close>.\<close>

datatype worker_pc = WP_begin | WP_check_stop | WP_check_empty | WP_poll | WP_finish | WP_done

text \<open>Whether the caller is inside \<^verbatim>\<open>worker_.join()\<close>.\<close>

datatype caller_pc = CP_idle | CP_joining

text \<open>\<^verbatim>\<open>worker_\<close> is joinable when it is not \<^const>\<open>None\<close>.\<close>

record 'b async_backend =
  ab_queue :: submit_queue
  ab_backend :: 'b
  ab_stop_requested :: bool
  ab_running :: bool
  ab_worker :: "worker_pc option"
  ab_caller :: caller_pc

definition ab_start :: "'b async_backend \<Rightarrow> 'b async_backend" where
  "ab_start s =
     (if ab_worker s \<noteq> None then s
      else s\<lparr>ab_stop_requested := False, ab_worker := Some WP_begin\<rparr>)"

definition new_async_backend :: "nat \<Rightarrow> nat \<Rightarrow> 'b \<Rightarrow> core_stats option \<Rightarrow> bool \<Rightarrow> 'b async_backend" where
  "new_async_backend n max_payload_size backend stats start_worker =
     (let s = \<lparr>ab_queue = new_submit_queue n max_payload_size stats, ab_backend = backend, ab_stop_requested = False,
               ab_running = False, ab_worker = None, ab_caller = CP_idle\<rparr>
      in if start_worker then ab_start s else s)"

text \<open>\<^verbatim>\<open>stop\<close>: the store, and the call of \<^verbatim>\<open>join\<close> when there is a thread to join.\<close>

definition ab_stop :: "'b async_backend \<Rightarrow> 'b async_backend" where
  "ab_stop s =
     (let s1 = s\<lparr>ab_stop_requested := True\<rparr>
      in if ab_worker s1 \<noteq> None then s1\<lparr>ab_caller := CP_joining\<rparr> else s1)"

text \<open>\<^verbatim>\<open>join\<close> returns once the worker function has returned; the thread is then no longer joinable.\<close>

definition ab_join_return :: "'b async_backend \<Rightarrow> 'b async_backend" where
  "ab_join_return s = s\<lparr>ab_worker := None, ab_caller := CP_idle\<rparr>"

definition ab_submit :: "backend_submit_request \<Rightarrow> 'b async_backend \<Rightarrow> backend_submit_result \<times> 'b async_backend" where
  "ab_submit request s = (case async_submit request (ab_queue s) of (r, q) \<Rightarrow> (r, s\<lparr>ab_queue := q\<rparr>))"

definition ab_poll_once :: "'b submitter \<Rightarrow> 'b async_backend \<Rightarrow> bool \<times> 'b async_backend" where
  "ab_poll_once submit s =
     (case poll_once submit (ab_queue s) (ab_backend s) of
        (ok, q, b) \<Rightarrow> (ok, s\<lparr>ab_queue := q, ab_backend := b\<rparr>))"

definition ab_drain :: "'b submitter \<Rightarrow> 'b async_backend \<Rightarrow> nat \<times> 'b async_backend" where
  "ab_drain submit s =
     (case async_drain submit (ab_queue s) (ab_backend s) of
        (processed, q, b) \<Rightarrow> (processed, s\<lparr>ab_queue := q, ab_backend := b\<rparr>))"

definition ab_empty :: "'b async_backend \<Rightarrow> bool" where
  "ab_empty s \<longleftrightarrow> queue_empty (ab_queue s)"

text \<open>One step of \<^verbatim>\<open>worker_loop\<close>.\<close>

fun worker_step :: "'b submitter \<Rightarrow> worker_pc \<Rightarrow> 'b async_backend \<Rightarrow> 'b async_backend" where
  "worker_step submit WP_begin s = s\<lparr>ab_running := True, ab_worker := Some WP_check_stop\<rparr>"
| "worker_step submit WP_check_stop s =
     s\<lparr>ab_worker := Some (if \<not> ab_stop_requested s then WP_poll else WP_check_empty)\<rparr>"
| "worker_step submit WP_check_empty s =
     s\<lparr>ab_worker := Some (if \<not> ab_empty s then WP_poll else WP_finish)\<rparr>"
| "worker_step submit WP_poll s = (snd (ab_poll_once submit s))\<lparr>ab_worker := Some WP_check_stop\<rparr>"
| "worker_step submit WP_finish s = s\<lparr>ab_running := False, ab_worker := Some WP_done\<rparr>"
| "worker_step submit WP_done s = s"

section \<open>Interleavings\<close>

text \<open>
  What the two threads can do next. The caller polls or drains by hand only while there is no worker, as the
  queue has a single consumer. The label is the request that the step accepted, if any.\<close>

inductive async_step ::
  "'b submitter \<Rightarrow> 'b async_backend \<Rightarrow> backend_submit_request list \<Rightarrow> 'b async_backend \<Rightarrow> bool" for submit where
  caller_submit: "ab_caller s = CP_idle \<Longrightarrow> ab_submit request s = (r, s') \<Longrightarrow>
     async_step submit s (if bsr_decision r = BSD_accepted then [request] else []) s'"
| caller_start: "ab_caller s = CP_idle \<Longrightarrow> async_step submit s [] (ab_start s)"
| caller_stop: "ab_caller s = CP_idle \<Longrightarrow> async_step submit s [] (ab_stop s)"
| caller_poll: "ab_caller s = CP_idle \<Longrightarrow> ab_worker s = None \<Longrightarrow> async_step submit s [] (snd (ab_poll_once submit s))"
| caller_drain: "ab_caller s = CP_idle \<Longrightarrow> ab_worker s = None \<Longrightarrow> async_step submit s [] (snd (ab_drain submit s))"
| caller_joined: "ab_caller s = CP_joining \<Longrightarrow> ab_worker s = Some WP_done \<Longrightarrow> async_step submit s [] (ab_join_return s)"
| worker: "ab_worker s = Some pc \<Longrightarrow> pc \<noteq> WP_done \<Longrightarrow> async_step submit s [] (worker_step submit pc s)"

inductive async_reach ::
  "'b submitter \<Rightarrow> 'b async_backend \<Rightarrow> backend_submit_request list \<Rightarrow> 'b async_backend \<Rightarrow> bool" for submit s0 where
  reach_init: "async_reach submit s0 [] s0"
| reach_step: "async_reach submit s0 accepted s \<Longrightarrow> async_step submit s new s' \<Longrightarrow>
     async_reach submit s0 (accepted @ new) s'"

section \<open>The invariant\<close>

text \<open>The flags follow the worker, and the worker leaves its loop only with an empty queue.\<close>

definition control_inv :: "'b async_backend \<Rightarrow> bool" where
  "control_inv s \<longleftrightarrow>
     (ab_running s \<longleftrightarrow> ab_worker s \<in> {Some WP_check_stop, Some WP_check_empty, Some WP_poll, Some WP_finish})
   \<and> (ab_caller s = CP_joining \<longrightarrow> ab_worker s \<noteq> None)
   \<and> (ab_worker s \<noteq> None \<longrightarrow> (ab_stop_requested s \<longleftrightarrow> ab_caller s = CP_joining))
   \<and> (ab_worker s \<in> {Some WP_check_empty, Some WP_finish, Some WP_done} \<longrightarrow> ab_caller s = CP_joining)
   \<and> (ab_worker s \<in> {Some WP_finish, Some WP_done} \<longrightarrow> queue_requests (ab_queue s) = [])"

text \<open>The backend behind has been handed a prefix of the accepted requests, and the rest is queued.\<close>

definition delivery_inv :: "'b submitter \<Rightarrow> 'b \<Rightarrow> backend_submit_request list \<Rightarrow> 'b async_backend \<Rightarrow> bool" where
  "delivery_inv submit b0 accepted s \<longleftrightarrow> queue_inv (ab_queue s)
     \<and> (\<exists>handed. accepted = handed @ queue_requests (ab_queue s) \<and> ab_backend s = submit_all submit handed b0)"

lemma queue_empty_iff: "queue_empty q \<longleftrightarrow> queue_requests q = []"
  by (simp add: queue_empty_def ring_empty_def queue_requests_def ring_items_def unat_eq_0)

lemma delivery_invI:
  "queue_inv (ab_queue s) \<Longrightarrow> accepted = handed @ queue_requests (ab_queue s) \<Longrightarrow>
   ab_backend s = submit_all submit handed b0 \<Longrightarrow> delivery_inv submit b0 accepted s"
  by (auto simp: delivery_inv_def)

lemma delivery_invE:
  assumes "delivery_inv submit b0 accepted s"
  obtains handed where "queue_inv (ab_queue s)" "accepted = handed @ queue_requests (ab_queue s)"
    "ab_backend s = submit_all submit handed b0"
  using assms by (auto simp: delivery_inv_def)

lemma delivery_inv_cong:
  "ab_queue s' = ab_queue s \<Longrightarrow> ab_backend s' = ab_backend s \<Longrightarrow>
   delivery_inv submit b0 accepted s' = delivery_inv submit b0 accepted s"
  by (simp add: delivery_inv_def)

lemma submit_all_append: "submit_all submit (xs @ ys) b = submit_all submit ys (submit_all submit xs b)"
  by (simp add: submit_all_def)

lemma delivery_submit:
  assumes "delivery_inv submit b0 accepted s" "ab_submit request s = (r, s')"
  shows "delivery_inv submit b0 (accepted @ (if bsr_decision r = BSD_accepted then [request] else [])) s'"
proof -
  obtain q where q: "queued_submit request (ab_queue s) = (r, q)" "s' = s\<lparr>ab_queue := q\<rparr>"
    using assms(2) by (auto simp: ab_submit_def queued_submit_eq_async split: prod.splits)
  from assms(1) show ?thesis
  proof (rule delivery_invE)
    fix handed assume inv: "queue_inv (ab_queue s)" and eq: "accepted = handed @ queue_requests (ab_queue s)"
      "ab_backend s = submit_all submit handed b0"
    from queued.submit_spec [OF inv q(1)] eq q(2) show ?thesis
      by (intro delivery_invI [where handed = handed]) auto
  qed
qed

lemma delivery_poll:
  assumes "delivery_inv submit b0 accepted s"
  shows "delivery_inv submit b0 accepted (snd (ab_poll_once submit s))"
    and "queue_requests (ab_queue (snd (ab_poll_once submit s))) = tl (queue_requests (ab_queue s))"
proof -
  obtain handed where d: "queue_inv (ab_queue s)" "accepted = handed @ queue_requests (ab_queue s)"
    "ab_backend s = submit_all submit handed b0" using assms by (rule delivery_invE)
  obtain ok q b where p: "poll_once submit (ab_queue s) (ab_backend s) = (ok, q, b)"
    by (cases "poll_once submit (ab_queue s) (ab_backend s)")
  note s = poll_once_spec [OF d(1) p]
  show "queue_requests (ab_queue (snd (ab_poll_once submit s))) = tl (queue_requests (ab_queue s))"
    using s p by (cases "queue_requests (ab_queue s)") (auto simp: ab_poll_once_def)
  show "delivery_inv submit b0 accepted (snd (ab_poll_once submit s))"
  proof (cases "queue_requests (ab_queue s)")
    case Nil
    with s p d show ?thesis by (intro delivery_invI [where handed = handed]) (auto simp: ab_poll_once_def)
  next
    case (Cons x xs)
    with s p d show ?thesis
      by (intro delivery_invI [where handed = "handed @ [x]"]) (auto simp: ab_poll_once_def submit_all_def)
  qed
qed

lemma delivery_drain:
  assumes "delivery_inv submit b0 accepted s"
  shows "delivery_inv submit b0 accepted (snd (ab_drain submit s))"
proof -
  obtain handed where d: "queue_inv (ab_queue s)" "accepted = handed @ queue_requests (ab_queue s)"
    "ab_backend s = submit_all submit handed b0" using assms by (rule delivery_invE)
  obtain k q b where p: "async_drain submit (ab_queue s) (ab_backend s) = (k, q, b)"
    by (cases "async_drain submit (ab_queue s) (ab_backend s)")
  from async_drain_spec [OF d(1) p] p d show ?thesis
    by (intro delivery_invI [where handed = "handed @ queue_requests (ab_queue s)"])
       (auto simp: ab_drain_def submit_all_append)
qed

lemma worker_step_delivery:
  assumes "delivery_inv submit b0 accepted s"
  shows "delivery_inv submit b0 accepted (worker_step submit pc s)"
proof (cases "pc = WP_poll")
  case True
  with delivery_poll(1) [OF assms] show ?thesis by (simp add: delivery_inv_def)
next
  case False
  with assms show ?thesis by (cases pc) (simp_all add: delivery_inv_def)
qed

lemmas control_defs = control_inv_def ab_start_def ab_stop_def ab_join_return_def ab_empty_def Let_def

lemma ab_fields [simp]:
  "ab_worker (snd (ab_poll_once submit s)) = ab_worker s" "ab_caller (snd (ab_poll_once submit s)) = ab_caller s"
  "ab_running (snd (ab_poll_once submit s)) = ab_running s"
  "ab_stop_requested (snd (ab_poll_once submit s)) = ab_stop_requested s"
  "ab_worker (snd (ab_drain submit s)) = ab_worker s" "ab_caller (snd (ab_drain submit s)) = ab_caller s"
  "ab_running (snd (ab_drain submit s)) = ab_running s"
  "ab_stop_requested (snd (ab_drain submit s)) = ab_stop_requested s"
  by (auto simp: ab_poll_once_def ab_drain_def split: prod.splits)

lemma ab_submit_fields:
  "ab_submit request s = (r, s') \<Longrightarrow> ab_worker s' = ab_worker s \<and> ab_caller s' = ab_caller s
     \<and> ab_running s' = ab_running s \<and> ab_stop_requested s' = ab_stop_requested s"
  by (auto simp: ab_submit_def split: prod.splits)

lemma worker_step_control:
  assumes "control_inv s" "ab_worker s = Some pc" "pc \<noteq> WP_done"
  shows "control_inv (worker_step submit pc s)"
  using assms by (cases pc) (simp_all add: control_defs queue_empty_iff)

definition async_inv :: "'b submitter \<Rightarrow> 'b \<Rightarrow> backend_submit_request list \<Rightarrow> 'b async_backend \<Rightarrow> bool" where
  "async_inv submit b0 accepted s \<longleftrightarrow> control_inv s \<and> delivery_inv submit b0 accepted s"

lemma async_step_inv:
  assumes "async_step submit s new s'" "async_inv submit b0 accepted s"
  shows "async_inv submit b0 (accepted @ new) s'"
proof -
  have c: "control_inv s" and d: "delivery_inv submit b0 accepted s" using assms(2) by (simp_all add: async_inv_def)
  from assms(1) show ?thesis
  proof cases
    case (caller_submit request r)
    then have "control_inv s'" using c ab_submit_fields [OF caller_submit(3)] by (auto simp: control_inv_def)
    with delivery_submit [OF d caller_submit(3)] caller_submit(1) show ?thesis by (simp add: async_inv_def)
  next
    case caller_start
    with c d show ?thesis by (auto simp: async_inv_def control_defs delivery_inv_def)
  next
    case caller_stop
    with c d show ?thesis by (auto simp: async_inv_def control_defs delivery_inv_def)
  next
    case caller_poll
    with c have "control_inv s'" by (auto simp: control_inv_def)
    with delivery_poll(1) [OF d] caller_poll show ?thesis by (simp add: async_inv_def)
  next
    case caller_drain
    with c have "control_inv s'" by (auto simp: control_inv_def)
    with delivery_drain [OF d] caller_drain show ?thesis by (simp add: async_inv_def)
  next
    case caller_joined
    with c d show ?thesis by (auto simp: async_inv_def control_defs delivery_inv_def)
  next
    case (worker pc)
    with worker_step_control [OF c worker(3,4)] worker_step_delivery [OF d, of pc] show ?thesis
      by (simp add: async_inv_def)
  qed
qed

lemma async_inv_new:
  assumes "valid_ring_capacity n" "0 < m" "m \<le> 65535"
  shows "async_inv submit b0 [] (new_async_backend n m b0 stats start_worker)"
  using new_submit_queue_inv [OF assms, of stats]
  by (auto simp: async_inv_def new_async_backend_def control_defs delivery_inv_def submit_all_def)

lemma async_reach_inv:
  assumes "async_reach submit s0 accepted s" "async_inv submit b0 [] s0"
  shows "async_inv submit b0 accepted s"
  using assms by (induction rule: async_reach.induct) (auto intro: async_step_inv)

section \<open>Stopping\<close>

text \<open>The steps of both threads while the caller waits in \<^verbatim>\<open>join\<close>.\<close>

definition join_step :: "'b submitter \<Rightarrow> 'b async_backend \<Rightarrow> 'b async_backend \<Rightarrow> bool" where
  "join_step submit s s' \<longleftrightarrow> ab_caller s = CP_joining \<and> async_step submit s [] s'"

text \<open>
  How far the worker is from its end. A queued request costs a round through the loop of three steps; the poll
  that is about to take one counts as taken.\<close>

fun pc_distance :: "worker_pc option \<Rightarrow> bool \<Rightarrow> nat" where
  "pc_distance None _ = 0"
| "pc_distance (Some WP_done) _ = 1"
| "pc_distance (Some WP_finish) _ = 2"
| "pc_distance (Some WP_check_empty) _ = 3"
| "pc_distance (Some WP_check_stop) _ = 4"
| "pc_distance (Some WP_poll) queued = (if queued then 2 else 5)"
| "pc_distance (Some WP_begin) _ = 5"

definition stop_distance :: "'b async_backend \<Rightarrow> nat" where
  "stop_distance s = 3 * length (queue_requests (ab_queue s))
     + pc_distance (ab_worker s) (queue_requests (ab_queue s) \<noteq> [])"

lemma join_step_cases:
  assumes "join_step submit s s'" "control_inv s"
  obtains "ab_worker s = Some WP_done" "s' = ab_join_return s"
  | pc where "ab_worker s = Some pc" "pc \<noteq> WP_done" "s' = worker_step submit pc s"
proof -
  have j: "ab_caller s = CP_joining" and s: "async_step submit s [] s'"
    using assms(1) by (simp_all add: join_step_def)
  from s show thesis
    by (cases rule: async_step.cases) (use j in \<open>auto intro: that\<close>)
qed

lemma worker_step_distance:
  assumes "async_inv submit b0 accepted s" "ab_caller s = CP_joining" "ab_worker s = Some pc" "pc \<noteq> WP_done"
  shows "stop_distance (worker_step submit pc s) < stop_distance s"
proof -
  have d: "delivery_inv submit b0 accepted s" and stop: "ab_stop_requested s"
    using assms by (auto simp: async_inv_def control_inv_def)
  show ?thesis
  proof (cases pc)
    case WP_poll
    with assms(3) delivery_poll(2) [OF d] show ?thesis
      by (cases "queue_requests (ab_queue s)"; cases "tl (queue_requests (ab_queue s))") (simp_all add: stop_distance_def)
  qed (use assms(3,4) stop in \<open>simp_all add: stop_distance_def ab_empty_def queue_empty_iff\<close>)
qed

lemma join_step_progress:
  assumes "async_inv submit b0 accepted s" "ab_caller s = CP_joining"
  shows "\<exists>s'. join_step submit s s'"
proof -
  obtain pc where pc: "ab_worker s = Some pc" using assms by (auto simp: async_inv_def control_inv_def)
  show ?thesis
  proof (cases "pc = WP_done")
    case True
    with assms(2) pc show ?thesis by (auto simp: join_step_def intro: async_step.caller_joined)
  next
    case False
    with assms(2) pc show ?thesis by (auto simp: join_step_def intro: async_step.worker)
  qed
qed

lemma join_step_distance:
  assumes "join_step submit s s'" "async_inv submit b0 accepted s"
  shows "stop_distance s' < stop_distance s"
proof -
  have c: "control_inv s" and j: "ab_caller s = CP_joining"
    using assms by (simp_all add: async_inv_def join_step_def)
  from assms(1) c show ?thesis
  proof (cases rule: join_step_cases)
    case 1
    then show ?thesis by (simp add: stop_distance_def ab_join_return_def)
  next
    case (2 pc)
    with worker_step_distance [OF assms(2) j 2(1,2)] show ?thesis by simp
  qed
qed

text \<open>The state in which \<^verbatim>\<open>stop\<close> returns.\<close>

definition stopped :: "'b submitter \<Rightarrow> 'b \<Rightarrow> backend_submit_request list \<Rightarrow> 'b async_backend \<Rightarrow> bool" where
  "stopped submit b0 accepted s \<longleftrightarrow> ab_worker s = None \<and> \<not> ab_running s
     \<and> queue_requests (ab_queue s) = [] \<and> ab_backend s = submit_all submit accepted b0"

definition stopping :: "'b submitter \<Rightarrow> 'b \<Rightarrow> backend_submit_request list \<Rightarrow> 'b async_backend \<Rightarrow> bool" where
  "stopping submit b0 accepted s \<longleftrightarrow> async_inv submit b0 accepted s
     \<and> (ab_caller s \<noteq> CP_joining \<longrightarrow> stopped submit b0 accepted s)"

lemma join_step_stopping:
  assumes "join_step submit s s'" "stopping submit b0 accepted s"
  shows "stopping submit b0 accepted s'"
proof -
  have j: "ab_caller s = CP_joining" and st: "async_step submit s [] s'" and inv: "async_inv submit b0 accepted s"
    using assms by (simp_all add: join_step_def stopping_def)
  have inv': "async_inv submit b0 accepted s'" using async_step_inv [OF st inv] by simp
  have c: "control_inv s" using inv by (simp add: async_inv_def)
  from assms(1) c show ?thesis
  proof (cases rule: join_step_cases)
    case 1
    then have "queue_requests (ab_queue s') = []" "ab_worker s' = None" "\<not> ab_running s'"
      using c by (auto simp: control_inv_def ab_join_return_def)
    with inv' show ?thesis by (auto simp: stopping_def stopped_def async_inv_def delivery_inv_def)
  next
    case (2 pc)
    then have "ab_caller s' = CP_joining" using j by (cases pc) simp_all
    with inv' show ?thesis by (simp add: stopping_def)
  qed
qed

lemma join_steps_bounded:
  "(join_step submit ^^ k) s s' \<Longrightarrow> stopping submit b0 accepted s \<Longrightarrow>
   stopping submit b0 accepted s' \<and> stop_distance s' + k \<le> stop_distance s"
proof (induction k arbitrary: s')
  case (Suc k)
  then obtain t where t: "(join_step submit ^^ k) s t" "join_step submit t s'" by auto
  with Suc.IH [OF t(1) Suc.prems(2)] have st: "stopping submit b0 accepted t" "stop_distance t + k \<le> stop_distance s"
    by simp_all
  from st(1) join_step_distance [OF t(2), of b0 accepted] have "stop_distance s' < stop_distance t"
    by (simp add: stopping_def)
  with st(2) join_step_stopping [OF t(2) st(1)] show ?case by simp
qed simp

lemma pc_distance_le: "pc_distance w queued \<le> 5"
  by (cases "(w, queued)" rule: pc_distance.cases) simp_all

lemma stop_distance_le: "stop_distance s \<le> 3 * length (queue_requests (ab_queue s)) + 5"
  by (simp add: stop_distance_def pc_distance_le)

lemma join_run_exists:
  "stopping submit b0 accepted s \<Longrightarrow> \<exists>k s'. (join_step submit ^^ k) s s' \<and> ab_caller s' \<noteq> CP_joining"
proof (induction "stop_distance s" arbitrary: s rule: less_induct)
  case less
  show ?case
  proof (cases "ab_caller s = CP_joining")
    case True
    then obtain t where t: "join_step submit s t"
      using join_step_progress [of submit b0 accepted s] less.prems by (auto simp: stopping_def)
    from t less.prems have "stop_distance t < stop_distance s" by (auto simp: stopping_def intro: join_step_distance)
    from less.hyps [OF this join_step_stopping [OF t less.prems]]
    obtain k s' where "(join_step submit ^^ k) t s'" "ab_caller s' \<noteq> CP_joining" by blast
    with relpowp_Suc_I2 [of "join_step submit", OF t] show ?thesis by blast
  next
    case False
    then show ?thesis by (intro exI [of _ 0] exI [of _ s]) simp
  qed
qed

section \<open>Properties\<close>

definition sample_async :: "recording_backend async_backend" where
  "sample_async = snd (ab_submit sample_request (new_async_backend 2 8 (new_recording_backend 0) None True))"

lemma sample_async_reach:
  "async_reach recording_submit (new_async_backend 2 8 (new_recording_backend 0) None True) [sample_request] sample_async"
proof -
  let ?s = "new_async_backend 2 8 (new_recording_backend 0) None True"
  obtain r s' where s: "ab_submit sample_request ?s = (r, s')" by (cases "ab_submit sample_request ?s")
  have q: "ab_queue ?s = new_submit_queue 2 8 None" by (simp add: new_async_backend_def ab_start_def)
  obtain q' where q': "queued_submit sample_request (new_submit_queue 2 8 None) = (r, q')"
    using s by (auto simp: ab_submit_def q queued_submit_eq_async split: prod.splits)
  have "bsr_decision r = BSD_accepted"
    using q' queued.submit_spec [OF new_submit_queue_inv(1) [OF sample_capacity] q'] sample_queue_facts(2)
      new_submit_queue_inv(2) [OF sample_capacity, of 8 None]
    by (auto simp: sample_queue_def split: if_splits)
  with s async_step.caller_submit [OF _ s, of recording_submit]
  have "async_step recording_submit ?s [sample_request] s'"
    by (simp add: new_async_backend_def ab_start_def)
  from reach_step [OF reach_init this] s show ?thesis by (simp add: sample_async_def)
qed

text \<open>
  Whatever the caller and the worker of the asynchronous backend do and however their steps interleave, the
  backend behind has been handed a prefix of the accepted requests, each once, unchanged and in the order of
  acceptance, and the remaining accepted requests are in the queue. \<^verbatim>\<open>running\<close> is set exactly while the worker is
  in its loop.\<close>

theorem async_delivers_in_order:
  assumes "async_reach submit (new_async_backend n m b0 stats start_worker) accepted s"
    and "valid_ring_capacity n" "0 < m" "m \<le> 65535"
  shows "(\<exists>handed. accepted = handed @ queue_requests (ab_queue s) \<and> ab_backend s = submit_all submit handed b0)
    \<and> (ab_running s \<longleftrightarrow> ab_worker s \<in> {Some WP_check_stop, Some WP_check_empty, Some WP_poll, Some WP_finish})"
  using async_reach_inv [OF assms(1) async_inv_new [OF assms(2-4)]]
  by (simp add: async_inv_def delivery_inv_def control_inv_def)

theorem async_delivers_in_order_witness:
  "\<exists>handed. [sample_request] = handed @ queue_requests (ab_queue sample_async)
     \<and> ab_backend sample_async = submit_all recording_submit handed (new_recording_backend 0)"
  using async_delivers_in_order [OF sample_async_reach sample_capacity] by simp

text \<open>
  C25: \<^verbatim>\<open>stop\<close> of a started backend, one that has a worker to wait for, returns, and nothing accepted is lost. Once
  the caller waits for the worker, every schedule of the two threads takes at most three steps for each queued request
  and five more; as long as the caller waits a thread can move; and when \<^verbatim>\<open>stop\<close> has returned the worker is gone,
  the queue is empty and the backend behind has been handed every accepted request in order. A backend that was built
  without a worker and never started is outside: its \<^verbatim>\<open>stop\<close> only sets the flag, and what was queued stays queued.\<close>

theorem stop_delivers_everything:
  assumes "async_reach submit (new_async_backend n m b0 stats start_worker) accepted s"
    and "valid_ring_capacity n" "0 < m" "m \<le> 65535" and "ab_caller s = CP_joining"
    and "(join_step submit ^^ k) s s'"
  shows "k \<le> 3 * length (queue_requests (ab_queue s)) + 5
    \<and> (if ab_caller s' = CP_joining then \<exists>s''. join_step submit s' s'' else stopped submit b0 accepted s')"
proof -
  have "stopping submit b0 accepted s"
    using async_reach_inv [OF assms(1) async_inv_new [OF assms(2-4)]] assms(5) by (simp add: stopping_def)
  from join_steps_bounded [OF assms(6) this]
  have "stopping submit b0 accepted s'" "k \<le> stop_distance s" by simp_all
  then show ?thesis using stop_distance_le [of s] join_step_progress [of submit b0 accepted s'] by (auto simp: stopping_def)
qed

theorem stop_delivers_everything_witness:
  "\<exists>k s'. (join_step recording_submit ^^ k) (ab_stop sample_async) s'
     \<and> k \<le> 3 * length (queue_requests (ab_queue (ab_stop sample_async))) + 5
     \<and> rb_submissions (ab_backend s') = [sample_request]"
proof -
  have w: "ab_worker sample_async = Some WP_begin" "ab_caller sample_async = CP_idle"
    by (auto simp: sample_async_def ab_submit_def new_async_backend_def ab_start_def split: prod.splits)
  have r: "async_reach recording_submit (new_async_backend 2 8 (new_recording_backend 0) None True)
      [sample_request] (ab_stop sample_async)"
    using reach_step [OF sample_async_reach async_step.caller_stop [OF w(2)]] by simp
  have j: "ab_caller (ab_stop sample_async) = CP_joining" using w by (simp add: ab_stop_def)
  have "stopping recording_submit (new_recording_backend 0) [sample_request] (ab_stop sample_async)"
    using async_reach_inv [OF r async_inv_new [OF sample_capacity]] j by (simp add: stopping_def)
  from join_run_exists [OF this] obtain k s' where
    k: "(join_step recording_submit ^^ k) (ab_stop sample_async) s'" "ab_caller s' \<noteq> CP_joining" by blast
  with stop_delivers_everything [OF r sample_capacity _ _ j k(1)]
  have "k \<le> 3 * length (queue_requests (ab_queue (ab_stop sample_async))) + 5"
    "stopped recording_submit (new_recording_backend 0) [sample_request] s'" by simp_all
  moreover from this(2) have "rb_submissions (ab_backend s') = [sample_request]"
    by (simp add: stopped_def submit_all_def recording_submit_def new_recording_backend_def rb_at_capacity_def
      sample_request_def)
  ultimately show ?thesis using k(1) by blast
qed

end
