(* ===== verification/Core_Types.thy ===== *)
theory Core_Types
  imports Prelude
begin

text \<open>
  The shared vocabulary of \<^verbatim>\<open>include/fgep/core/types.hpp\<close> and \<^verbatim>\<open>include/fgep/core/time.hpp\<close>: sides,
  actions, reject reasons, validity of prices and quantities, the notional value of an order and the time stamps
  of the steady clock.

  A \<^verbatim>\<open>Price\<close> is a signed 64-bit number and appears as an integer; a time point of the steady clock is the
  number of nanoseconds since its epoch, an argument of the functions that read the clock.
\<close>

section \<open>Types\<close>

datatype core_side = Side_bid | Side_ask

datatype order_action = Action_new_order | Action_cancel | Action_replace

datatype reject_reason =
    Reason_none | Reason_unknown_symbol | Reason_unknown_order | Reason_duplicate_order_id
  | Reason_invalid_quantity | Reason_invalid_price | Reason_risk_rejected | Reason_invalid_state_transition

definition is_bid :: "core_side \<Rightarrow> bool" where
  "is_bid side \<longleftrightarrow> side = Side_bid"

definition is_ask :: "core_side \<Rightarrow> bool" where
  "is_ask side \<longleftrightarrow> side = Side_ask"

fun core_side_to_string :: "core_side \<Rightarrow> string" where
  "core_side_to_string Side_bid = ''bid''"
| "core_side_to_string Side_ask = ''ask''"

fun order_action_to_string :: "order_action \<Rightarrow> string" where
  "order_action_to_string Action_new_order = ''new_order''"
| "order_action_to_string Action_cancel = ''cancel''"
| "order_action_to_string Action_replace = ''replace''"

fun reject_reason_to_string :: "reject_reason \<Rightarrow> string" where
  "reject_reason_to_string Reason_none = ''none''"
| "reject_reason_to_string Reason_unknown_symbol = ''unknown_symbol''"
| "reject_reason_to_string Reason_unknown_order = ''unknown_order''"
| "reject_reason_to_string Reason_duplicate_order_id = ''duplicate_order_id''"
| "reject_reason_to_string Reason_invalid_quantity = ''invalid_quantity''"
| "reject_reason_to_string Reason_invalid_price = ''invalid_price''"
| "reject_reason_to_string Reason_risk_rejected = ''risk_rejected''"
| "reject_reason_to_string Reason_invalid_state_transition = ''invalid_state_transition''"

definition is_valid_price :: "int \<Rightarrow> bool" where
  "is_valid_price price \<longleftrightarrow> price > 0"

definition is_valid_quantity :: "u64 \<Rightarrow> bool" where
  "is_valid_quantity quantity \<longleftrightarrow> quantity > 0"

definition calculate_notional :: "int \<Rightarrow> u64 \<Rightarrow> u64" where
  "calculate_notional price quantity = (if price \<le> 0 then 0 else of_int price * quantity)"

section \<open>Time\<close>

datatype timestamp_source = TSrc_software_steady_clock | TSrc_nic_hardware | TSrc_fpga_hardware | TSrc_ptp_clock

definition to_ns :: "int \<Rightarrow> u64" where
  "to_ns time_point = of_int time_point"

definition now_ns :: "int \<Rightarrow> u64" where
  "now_ns clock = to_ns clock"

definition elapsed_ns :: "int \<Rightarrow> int \<Rightarrow> u64" where
  "elapsed_ns start finish = of_int (finish - start)"

definition elapsed_since_ns :: "int \<Rightarrow> int \<Rightarrow> u64" where
  "elapsed_since_ns clock start = elapsed_ns start clock"

definition is_valid_timestamp :: "u64 \<Rightarrow> bool" where
  "is_valid_timestamp timestamp \<longleftrightarrow> timestamp > 0"

definition is_hardware_timestamp_source :: "timestamp_source \<Rightarrow> bool" where
  "is_hardware_timestamp_source source \<longleftrightarrow>
     source = TSrc_nic_hardware \<or> source = TSrc_fpga_hardware \<or> source = TSrc_ptp_clock"

section \<open>Facts\<close>

lemma names_injective:
  "inj core_side_to_string" "inj order_action_to_string" "inj reject_reason_to_string"
  by (rule injI; case_tac x; case_tac y; simp)+

lemma unat_of_int_u64: "0 \<le> x \<Longrightarrow> x < 2 ^ 64 \<Longrightarrow> unat (of_int x :: u64) = nat x"
proof -
  assume x: "0 \<le> x" "x < 2 ^ 64"
  then obtain n where n: "x = int n" using nonneg_int_cases by blast
  with x(2) have "int n < int (2 ^ 64)" by simp
  then have "n < 2 ^ 64" by (simp only: of_nat_less_iff)
  then show ?thesis by (simp add: n unat_of_nat)
qed

text \<open>
  The notional value is the exact product as long as that fits, and is positive for a valid price and quantity;
  beyond \<open>2^64\<close> it is the product modulo \<open>2^64\<close>.\<close>

lemma unat_calculate_notional:
  "0 \<le> price \<Longrightarrow> price < 2 ^ 63 \<Longrightarrow> unat (calculate_notional price quantity) = (nat price * unat quantity) mod 2 ^ 64"
  by (simp add: calculate_notional_def unat_word_ariths unat_of_int_u64)

lemma calculate_notional_positive:
  assumes "is_valid_price price" "price < 2 ^ 63" "is_valid_quantity quantity" "nat price * unat quantity < 2 ^ 64"
  shows "unat (calculate_notional price quantity) = nat price * unat quantity" "calculate_notional price quantity > 0"
proof -
  show e: "unat (calculate_notional price quantity) = nat price * unat quantity"
    using assms unat_calculate_notional [of price quantity] by (simp add: is_valid_price_def)
  show "calculate_notional price quantity > 0"
    using assms e by (simp add: is_valid_price_def is_valid_quantity_def word_less_nat_alt)
qed

text \<open>Elapsed times of consecutive intervals add up, and are exact when the clock does not run backwards.\<close>

lemma elapsed_ns_add: "elapsed_ns a b + elapsed_ns b c = elapsed_ns a c"
  by (simp add: elapsed_ns_def flip: of_int_add)

lemma unat_elapsed_ns: "a \<le> b \<Longrightarrow> b - a < 2 ^ 64 \<Longrightarrow> int (unat (elapsed_ns a b)) = b - a"
  using unat_of_int_u64 [of "b - a"] by (simp only: elapsed_ns_def)

end
