(* ===== verification/Market_Event.thy ===== *)
theory Market_Event
  imports Core_Types Itch_Codec
begin

text \<open>
  The market event model of \<^verbatim>\<open>include/fgep/core/market_event.hpp\<close>: typed ITCH messages with 64-bit share
  counts, their variant \<^verbatim>\<open>MarketEvent\<close>, and the helpers that classify and validate them. The wire codec has
  message types of its own (theory \<open>Itch_Types\<close>); the theorem at the end relates the two.
\<close>

section \<open>Enumerations\<close>

text \<open>The value of an enumerator over \<^verbatim>\<open>char\<close> is given by its \<open>_value\<close> function.\<close>

datatype core_itch_message_type =
    IMT_system_event | IMT_stock_directory | IMT_stock_trading_action | IMT_operational_halt
  | IMT_add_order_no_mpid | IMT_add_order_with_mpid | IMT_order_executed
  | IMT_order_executed_with_price | IMT_order_cancel | IMT_order_delete | IMT_order_replace
  | IMT_trade_non_cross | IMT_cross_trade | IMT_broken_trade

fun core_itch_message_type_value :: "core_itch_message_type \<Rightarrow> char" where
  "core_itch_message_type_value IMT_system_event = CHR ''S''"
| "core_itch_message_type_value IMT_stock_directory = CHR ''R''"
| "core_itch_message_type_value IMT_stock_trading_action = CHR ''H''"
| "core_itch_message_type_value IMT_operational_halt = CHR ''h''"
| "core_itch_message_type_value IMT_add_order_no_mpid = CHR ''A''"
| "core_itch_message_type_value IMT_add_order_with_mpid = CHR ''F''"
| "core_itch_message_type_value IMT_order_executed = CHR ''E''"
| "core_itch_message_type_value IMT_order_executed_with_price = CHR ''C''"
| "core_itch_message_type_value IMT_order_cancel = CHR ''X''"
| "core_itch_message_type_value IMT_order_delete = CHR ''D''"
| "core_itch_message_type_value IMT_order_replace = CHR ''U''"
| "core_itch_message_type_value IMT_trade_non_cross = CHR ''P''"
| "core_itch_message_type_value IMT_cross_trade = CHR ''Q''"
| "core_itch_message_type_value IMT_broken_trade = CHR ''B''"

datatype core_itch_side =
    IS_buy | IS_sell

fun core_itch_side_value :: "core_itch_side \<Rightarrow> char" where
  "core_itch_side_value IS_buy = CHR ''B''"
| "core_itch_side_value IS_sell = CHR ''S''"

datatype core_system_event_code =
    ISE_start_of_messages | ISE_start_of_system_hours | ISE_start_of_market_hours
  | ISE_end_of_market_hours | ISE_end_of_system_hours | ISE_end_of_messages

fun core_system_event_code_value :: "core_system_event_code \<Rightarrow> char" where
  "core_system_event_code_value ISE_start_of_messages = CHR ''O''"
| "core_system_event_code_value ISE_start_of_system_hours = CHR ''S''"
| "core_system_event_code_value ISE_start_of_market_hours = CHR ''Q''"
| "core_system_event_code_value ISE_end_of_market_hours = CHR ''M''"
| "core_system_event_code_value ISE_end_of_system_hours = CHR ''E''"
| "core_system_event_code_value ISE_end_of_messages = CHR ''C''"

datatype core_trading_state =
    ITS_halted | ITS_paused | ITS_quotation_only | ITS_trading

fun core_trading_state_value :: "core_trading_state \<Rightarrow> char" where
  "core_trading_state_value ITS_halted = CHR ''H''"
| "core_trading_state_value ITS_paused = CHR ''P''"
| "core_trading_state_value ITS_quotation_only = CHR ''Q''"
| "core_trading_state_value ITS_trading = CHR ''T''"

datatype core_operational_halt_action =
    IOH_halted | IOH_trading_resumed

fun core_operational_halt_action_value :: "core_operational_halt_action \<Rightarrow> char" where
  "core_operational_halt_action_value IOH_halted = CHR ''H''"
| "core_operational_halt_action_value IOH_trading_resumed = CHR ''T''"

datatype core_printable_flag =
    IPF_non_printable | IPF_printable

fun core_printable_flag_value :: "core_printable_flag \<Rightarrow> char" where
  "core_printable_flag_value IPF_non_printable = CHR ''N''"
| "core_printable_flag_value IPF_printable = CHR ''Y''"

datatype core_cross_type =
    ICT_opening_cross | ICT_closing_cross | ICT_ipo_or_halted

fun core_cross_type_value :: "core_cross_type \<Rightarrow> char" where
  "core_cross_type_value ICT_opening_cross = CHR ''O''"
| "core_cross_type_value ICT_closing_cross = CHR ''C''"
| "core_cross_type_value ICT_ipo_or_halted = CHR ''H''"

section \<open>Messages\<close>

record core_itch_header =
  ih_stock_locate :: u16
  ih_tracking_number :: u16
  ih_timestamp_ns :: u64

record core_system_event_message =
  mse_header :: core_itch_header
  mse_event_code :: core_system_event_code

record core_stock_directory_message =
  msd_header :: core_itch_header
  msd_stock :: string
  msd_market_category :: char
  msd_financial_status_indicator :: char
  msd_round_lot_size :: u32
  msd_round_lots_only :: char
  msd_issue_classification :: char
  msd_issue_sub_type :: string
  msd_authenticity :: char
  msd_short_sale_threshold_indicator :: char
  msd_ipo_flag :: char
  msd_luld_reference_price_tier :: char
  msd_etp_flag :: char
  msd_etp_leverage_factor :: u32
  msd_inverse_indicator :: char

record core_stock_trading_action_message =
  msta_header :: core_itch_header
  msta_stock :: string
  msta_trading_state :: core_trading_state
  msta_reserved :: char
  msta_reason :: string

record core_operational_halt_message =
  moh_header :: core_itch_header
  moh_stock :: string
  moh_market_code :: char
  moh_halt_action :: core_operational_halt_action

record core_add_order_no_mpid_message =
  maonm_header :: core_itch_header
  maonm_order_reference_number :: u64
  maonm_side :: core_itch_side
  maonm_shares :: u64
  maonm_stock :: string
  maonm_price :: u32

record core_add_order_with_mpid_message =
  maowm_header :: core_itch_header
  maowm_order_reference_number :: u64
  maowm_side :: core_itch_side
  maowm_shares :: u64
  maowm_stock :: string
  maowm_price :: u32
  maowm_attribution :: string

record core_order_executed_message =
  moe_header :: core_itch_header
  moe_order_reference_number :: u64
  moe_executed_shares :: u64
  moe_match_number :: u64

record core_order_executed_with_price_message =
  moewp_header :: core_itch_header
  moewp_order_reference_number :: u64
  moewp_executed_shares :: u64
  moewp_match_number :: u64
  moewp_printable :: core_printable_flag
  moewp_execution_price :: u32

record core_order_cancel_message =
  moc_header :: core_itch_header
  moc_order_reference_number :: u64
  moc_cancelled_shares :: u64

record core_order_delete_message =
  mod_header :: core_itch_header
  mod_order_reference_number :: u64

record core_order_replace_message =
  mor_header :: core_itch_header
  mor_original_order_reference_number :: u64
  mor_new_order_reference_number :: u64
  mor_shares :: u64
  mor_price :: u32

record core_trade_non_cross_message =
  mtnc_header :: core_itch_header
  mtnc_order_reference_number :: u64
  mtnc_side :: core_itch_side
  mtnc_shares :: u64
  mtnc_stock :: string
  mtnc_price :: u32
  mtnc_match_number :: u64

record core_cross_trade_message =
  mct_header :: core_itch_header
  mct_shares :: u64
  mct_stock :: string
  mct_cross_price :: u32
  mct_match_number :: u64
  mct_cross_type :: core_cross_type

record core_broken_trade_message =
  mbt_header :: core_itch_header
  mbt_match_number :: u64

datatype market_event =
    ME_system_event core_system_event_message
  | ME_stock_directory core_stock_directory_message
  | ME_stock_trading_action core_stock_trading_action_message
  | ME_operational_halt core_operational_halt_message
  | ME_add_order_no_mpid core_add_order_no_mpid_message
  | ME_add_order_with_mpid core_add_order_with_mpid_message
  | ME_order_executed core_order_executed_message
  | ME_order_executed_with_price core_order_executed_with_price_message
  | ME_order_cancel core_order_cancel_message
  | ME_order_delete core_order_delete_message
  | ME_order_replace core_order_replace_message
  | ME_trade_non_cross core_trade_non_cross_message
  | ME_cross_trade core_cross_trade_message
  | ME_broken_trade core_broken_trade_message

section \<open>Helpers\<close>

fun itch_side_to_book_side :: "core_itch_side \<Rightarrow> core_side" where
  "itch_side_to_book_side IS_buy = Side_bid"
| "itch_side_to_book_side IS_sell = Side_ask"

definition core_is_valid_stock_locate :: "u16 \<Rightarrow> bool" where
  "core_is_valid_stock_locate stock_locate \<longleftrightarrow> stock_locate > 0"

definition is_valid_itch_header :: "core_itch_header \<Rightarrow> bool" where
  "is_valid_itch_header h \<longleftrightarrow> is_valid_timestamp (ih_timestamp_ns h)"

definition core_is_valid_price4 :: "u32 \<Rightarrow> bool" where
  "core_is_valid_price4 price \<longleftrightarrow> price > 0"

definition core_is_add_order :: "core_itch_message_type \<Rightarrow> bool" where
  "core_is_add_order message_type \<longleftrightarrow> message_type = IMT_add_order_no_mpid \<or> message_type = IMT_add_order_with_mpid"

definition is_visible_book_update :: "core_itch_message_type \<Rightarrow> bool" where
  "is_visible_book_update message_type \<longleftrightarrow>
     message_type = IMT_add_order_no_mpid
     \<or> message_type = IMT_add_order_with_mpid
     \<or> message_type = IMT_order_executed
     \<or> message_type = IMT_order_executed_with_price
     \<or> message_type = IMT_order_cancel
     \<or> message_type = IMT_order_delete
     \<or> message_type = IMT_order_replace"

text \<open>
  The overloads of \<^verbatim>\<open>affects_visible_book\<close>. There is none for the four administrative messages; a call on
  one of them does not compile, and the result is \<^const>\<open>None\<close>.\<close>

fun affects_visible_book :: "market_event \<Rightarrow> bool option" where
  "affects_visible_book (ME_add_order_no_mpid m) =
     Some (is_valid_itch_header (maonm_header m) \<and> maonm_order_reference_number m > 0
       \<and> is_valid_quantity (maonm_shares m) \<and> core_is_valid_price4 (maonm_price m))"
| "affects_visible_book (ME_add_order_with_mpid m) =
     Some (is_valid_itch_header (maowm_header m) \<and> maowm_order_reference_number m > 0
       \<and> is_valid_quantity (maowm_shares m) \<and> core_is_valid_price4 (maowm_price m))"
| "affects_visible_book (ME_order_executed m) =
     Some (is_valid_itch_header (moe_header m) \<and> moe_order_reference_number m > 0
       \<and> is_valid_quantity (moe_executed_shares m))"
| "affects_visible_book (ME_order_executed_with_price m) =
     Some (is_valid_itch_header (moewp_header m) \<and> moewp_order_reference_number m > 0
       \<and> is_valid_quantity (moewp_executed_shares m) \<and> core_is_valid_price4 (moewp_execution_price m))"
| "affects_visible_book (ME_order_cancel m) =
     Some (is_valid_itch_header (moc_header m) \<and> moc_order_reference_number m > 0
       \<and> is_valid_quantity (moc_cancelled_shares m))"
| "affects_visible_book (ME_order_delete m) =
     Some (is_valid_itch_header (mod_header m) \<and> mod_order_reference_number m > 0)"
| "affects_visible_book (ME_order_replace m) =
     Some (is_valid_itch_header (mor_header m) \<and> mor_original_order_reference_number m > 0
       \<and> mor_new_order_reference_number m > 0 \<and> is_valid_quantity (mor_shares m)
       \<and> core_is_valid_price4 (mor_price m))"
| "affects_visible_book (ME_trade_non_cross m) = Some False"
| "affects_visible_book (ME_cross_trade m) = Some False"
| "affects_visible_book (ME_broken_trade m) = Some False"
| "affects_visible_book (ME_system_event m) = None"
| "affects_visible_book (ME_stock_directory m) = None"
| "affects_visible_book (ME_stock_trading_action m) = None"
| "affects_visible_book (ME_operational_halt m) = None"

fun core_itch_message_type_to_string :: "core_itch_message_type \<Rightarrow> string" where
  "core_itch_message_type_to_string IMT_system_event = ''system_event''"
| "core_itch_message_type_to_string IMT_stock_directory = ''stock_directory''"
| "core_itch_message_type_to_string IMT_stock_trading_action = ''stock_trading_action''"
| "core_itch_message_type_to_string IMT_operational_halt = ''operational_halt''"
| "core_itch_message_type_to_string IMT_add_order_no_mpid = ''add_order_no_mpid''"
| "core_itch_message_type_to_string IMT_add_order_with_mpid = ''add_order_with_mpid''"
| "core_itch_message_type_to_string IMT_order_executed = ''order_executed''"
| "core_itch_message_type_to_string IMT_order_executed_with_price = ''order_executed_with_price''"
| "core_itch_message_type_to_string IMT_order_cancel = ''order_cancel''"
| "core_itch_message_type_to_string IMT_order_delete = ''order_delete''"
| "core_itch_message_type_to_string IMT_order_replace = ''order_replace''"
| "core_itch_message_type_to_string IMT_trade_non_cross = ''trade_non_cross''"
| "core_itch_message_type_to_string IMT_cross_trade = ''cross_trade''"
| "core_itch_message_type_to_string IMT_broken_trade = ''broken_trade''"

section \<open>Wire messages as market events\<close>

text \<open>
  The market event with the fields of a decoded wire message, for the messages that change an order book: the shape
  the model names for what a parser emits.\<close>

definition header_event :: "header \<Rightarrow> core_itch_header" where
  "header_event h = \<lparr>ih_stock_locate = hdr_stock_locate h, ih_tracking_number = hdr_tracking_number h,
     ih_timestamp_ns = hdr_timestamp_ns h\<rparr>"

fun side_event :: "side \<Rightarrow> core_itch_side" where
  "side_event Buy = IS_buy"
| "side_event Sell = IS_sell"

fun printable_event :: "printable \<Rightarrow> core_printable_flag" where
  "printable_event Non_printable = IPF_non_printable"
| "printable_event Printable = IPF_printable"

fun book_event :: "message \<Rightarrow> market_event option" where
  "book_event (AddOrderNoMpid m) = Some (ME_add_order_no_mpid
     \<lparr>maonm_header = header_event (ao_header m), maonm_order_reference_number = ao_order_reference_number m,
      maonm_side = side_event (ao_side m), maonm_shares = ucast (ao_shares m), maonm_stock = ao_stock m,
      maonm_price = ao_price m\<rparr>)"
| "book_event (AddOrderWithMpid m) = Some (ME_add_order_with_mpid
     \<lparr>maowm_header = header_event (am_header m), maowm_order_reference_number = am_order_reference_number m,
      maowm_side = side_event (am_side m), maowm_shares = ucast (am_shares m), maowm_stock = am_stock m,
      maowm_price = am_price m, maowm_attribution = am_attribution m\<rparr>)"
| "book_event (OrderExecuted m) = Some (ME_order_executed
     \<lparr>moe_header = header_event (oe_header m), moe_order_reference_number = oe_order_reference_number m,
      moe_executed_shares = ucast (oe_executed_shares m), moe_match_number = oe_match_number m\<rparr>)"
| "book_event (OrderExecutedWithPrice m) = Some (ME_order_executed_with_price
     \<lparr>moewp_header = header_event (op_header m), moewp_order_reference_number = op_order_reference_number m,
      moewp_executed_shares = ucast (op_executed_shares m), moewp_match_number = op_match_number m,
      moewp_printable = printable_event (op_printable m), moewp_execution_price = op_execution_price m\<rparr>)"
| "book_event (OrderCancel m) = Some (ME_order_cancel
     \<lparr>moc_header = header_event (oc_header m), moc_order_reference_number = oc_order_reference_number m,
      moc_cancelled_shares = ucast (oc_cancelled_shares m)\<rparr>)"
| "book_event (OrderDelete m) = Some (ME_order_delete
     \<lparr>mod_header = header_event (od_header m), mod_order_reference_number = od_order_reference_number m\<rparr>)"
| "book_event (OrderReplace m) = Some (ME_order_replace
     \<lparr>mor_header = header_event (orp_header m), mor_original_order_reference_number = orp_original_order_reference_number m,
      mor_new_order_reference_number = orp_new_order_reference_number m, mor_shares = ucast (orp_shares m),
      mor_price = orp_price m\<rparr>)"
| "book_event _ = None"

fun event_timestamp_ns :: "market_event \<Rightarrow> u64" where
  "event_timestamp_ns (ME_add_order_no_mpid m) = ih_timestamp_ns (maonm_header m)"
| "event_timestamp_ns (ME_add_order_with_mpid m) = ih_timestamp_ns (maowm_header m)"
| "event_timestamp_ns (ME_order_executed m) = ih_timestamp_ns (moe_header m)"
| "event_timestamp_ns (ME_order_executed_with_price m) = ih_timestamp_ns (moewp_header m)"
| "event_timestamp_ns (ME_order_cancel m) = ih_timestamp_ns (moc_header m)"
| "event_timestamp_ns (ME_order_delete m) = ih_timestamp_ns (mod_header m)"
| "event_timestamp_ns (ME_order_replace m) = ih_timestamp_ns (mor_header m)"
| "event_timestamp_ns (ME_trade_non_cross m) = ih_timestamp_ns (mtnc_header m)"
| "event_timestamp_ns (ME_cross_trade m) = ih_timestamp_ns (mct_header m)"
| "event_timestamp_ns (ME_broken_trade m) = ih_timestamp_ns (mbt_header m)"
| "event_timestamp_ns (ME_system_event m) = ih_timestamp_ns (mse_header m)"
| "event_timestamp_ns (ME_stock_directory m) = ih_timestamp_ns (msd_header m)"
| "event_timestamp_ns (ME_stock_trading_action m) = ih_timestamp_ns (msta_header m)"
| "event_timestamp_ns (ME_operational_halt m) = ih_timestamp_ns (moh_header m)"

lemma ucast_u32_positive [simp]: "(0 :: u64) < ucast (w :: u32) \<longleftrightarrow> 0 < w"
proof -
  have "unat (ucast w :: u64) = unat w"
    using unsigned_less [of w, where 'a = nat] by (simp add: unsigned_ucast_eq take_bit_eq_mod)
  then show ?thesis by (simp add: word_less_nat_alt)
qed

lemmas event_defs = header_event_def is_valid_itch_header_def is_valid_timestamp_def is_valid_quantity_def
  core_is_valid_price4_def is_valid_order_reference_number_def is_valid_shares_def is_valid_price4_def
lemmas wire_validity_defs = is_valid_add_order_no_mpid_message_def is_valid_add_order_with_mpid_message_def
  is_valid_order_executed_message_def is_valid_order_executed_with_price_message_def is_valid_order_cancel_message_def
  is_valid_order_delete_message_def is_valid_order_replace_message_def

lemma event_codes_injective: "inj core_itch_message_type_value" "inj core_itch_message_type_to_string"
  by (rule injI; case_tac x; case_tac y; simp)+

text \<open>
  The two models of ITCH agree on what changes a visible order book, except at midnight. For a message that
  the wire decoder emits and that changes a book, the corresponding market event affects the visible book exactly
  when its time stamp is not 0: \<^verbatim>\<open>is_valid_itch_header\<close> takes the time stamp 0 for missing, while the wire
  format counts nanoseconds since midnight from 0.\<close>

theorem market_event_agrees_with_wire:
  assumes "decode_message bs = Ok m" "book_event m = Some e"
  shows "affects_visible_book e = Some (event_timestamp_ns e \<noteq> 0)"
proof -
  have "message_ok m" using assms(1) by (simp add: decode_message_iff)
  then show ?thesis using assms(2) by (cases m) (auto simp: event_defs wire_validity_defs word_neq_0_conv)
qed

definition midnight_delete :: message where
  "midnight_delete = OrderDelete \<lparr>od_header = \<lparr>hdr_stock_locate = 1, hdr_tracking_number = 0, hdr_timestamp_ns = 0\<rparr>,
     od_order_reference_number = 5\<rparr>"

lemma midnight_delete_decodes: "decode_message (message_image midnight_delete) = Ok midnight_delete"
  by (simp add: decode_message_iff midnight_delete_def is_valid_order_delete_message_def
    is_valid_header_for_stock_message_def is_valid_stock_locate_def is_valid_timestamp_ns_def
    is_valid_order_reference_number_def)

theorem market_event_agrees_with_wire_witness:
  "map_option affects_visible_book (book_event midnight_delete) = Some (Some False)"
  using market_event_agrees_with_wire [OF midnight_delete_decodes, of "the (book_event midnight_delete)"]
  by (simp add: midnight_delete_def header_event_def)

end
