(* ===== verification/Order_Event.thy ===== *)
theory Order_Event
  imports Core_Types Ouch
begin

text \<open>
  The order entry model of \<^verbatim>\<open>include/fgep/core/order_event.hpp\<close>: OUCH commands and events with their
  variants \<^verbatim>\<open>OrderCommand\<close> and \<^verbatim>\<open>OrderEvent\<close>, the conversions and the validity of commands. The wire codec
  has message types of its own (theory \<open>Ouch\<close>); the theorem at the end relates the validity of the two.
\<close>

section \<open>Enumerations\<close>

text \<open>The value of an enumerator over \<^verbatim>\<open>char\<close> is given by its \<open>_value\<close> function.\<close>

datatype core_ouch_inbound_message_type =
    OIM_enter_order | OIM_replace_order | OIM_cancel_order | OIM_modify_order | OIM_mass_cancel
  | OIM_disable_order_entry | OIM_enable_order_entry | OIM_account_query

fun core_ouch_inbound_message_type_value :: "core_ouch_inbound_message_type \<Rightarrow> char" where
  "core_ouch_inbound_message_type_value OIM_enter_order = CHR ''O''"
| "core_ouch_inbound_message_type_value OIM_replace_order = CHR ''U''"
| "core_ouch_inbound_message_type_value OIM_cancel_order = CHR ''X''"
| "core_ouch_inbound_message_type_value OIM_modify_order = CHR ''M''"
| "core_ouch_inbound_message_type_value OIM_mass_cancel = CHR ''C''"
| "core_ouch_inbound_message_type_value OIM_disable_order_entry = CHR ''D''"
| "core_ouch_inbound_message_type_value OIM_enable_order_entry = CHR ''E''"
| "core_ouch_inbound_message_type_value OIM_account_query = CHR ''Q''"

datatype core_ouch_outbound_message_type =
    OOM_system_event | OOM_order_accepted | OOM_order_replaced | OOM_order_canceled | OOM_aiq_canceled
  | OOM_order_executed | OOM_broken_trade | OOM_rejected | OOM_cancel_pending | OOM_cancel_reject
  | OOM_order_priority_update | OOM_order_modified | OOM_order_restated | OOM_mass_cancel_response
  | OOM_disable_order_entry_response | OOM_enable_order_entry_response | OOM_account_query_response

fun core_ouch_outbound_message_type_value :: "core_ouch_outbound_message_type \<Rightarrow> char" where
  "core_ouch_outbound_message_type_value OOM_system_event = CHR ''S''"
| "core_ouch_outbound_message_type_value OOM_order_accepted = CHR ''A''"
| "core_ouch_outbound_message_type_value OOM_order_replaced = CHR ''U''"
| "core_ouch_outbound_message_type_value OOM_order_canceled = CHR ''C''"
| "core_ouch_outbound_message_type_value OOM_aiq_canceled = CHR ''D''"
| "core_ouch_outbound_message_type_value OOM_order_executed = CHR ''E''"
| "core_ouch_outbound_message_type_value OOM_broken_trade = CHR ''B''"
| "core_ouch_outbound_message_type_value OOM_rejected = CHR ''J''"
| "core_ouch_outbound_message_type_value OOM_cancel_pending = CHR ''P''"
| "core_ouch_outbound_message_type_value OOM_cancel_reject = CHR ''I''"
| "core_ouch_outbound_message_type_value OOM_order_priority_update = CHR ''T''"
| "core_ouch_outbound_message_type_value OOM_order_modified = CHR ''M''"
| "core_ouch_outbound_message_type_value OOM_order_restated = CHR ''R''"
| "core_ouch_outbound_message_type_value OOM_mass_cancel_response = CHR ''X''"
| "core_ouch_outbound_message_type_value OOM_disable_order_entry_response = CHR ''G''"
| "core_ouch_outbound_message_type_value OOM_enable_order_entry_response = CHR ''K''"
| "core_ouch_outbound_message_type_value OOM_account_query_response = CHR ''Q''"

datatype core_ouch_side =
    CS_buy | CS_sell | CS_sell_short | CS_sell_short_exempt

fun core_ouch_side_value :: "core_ouch_side \<Rightarrow> char" where
  "core_ouch_side_value CS_buy = CHR ''B''"
| "core_ouch_side_value CS_sell = CHR ''S''"
| "core_ouch_side_value CS_sell_short = CHR ''T''"
| "core_ouch_side_value CS_sell_short_exempt = CHR ''E''"

datatype core_ouch_time_in_force =
    CTF_day | CTF_immediate_or_cancel | CTF_extended_hours | CTF_good_till_time | CTF_after_hours

fun core_ouch_time_in_force_value :: "core_ouch_time_in_force \<Rightarrow> char" where
  "core_ouch_time_in_force_value CTF_day = CHR ''0''"
| "core_ouch_time_in_force_value CTF_immediate_or_cancel = CHR ''3''"
| "core_ouch_time_in_force_value CTF_extended_hours = CHR ''5''"
| "core_ouch_time_in_force_value CTF_good_till_time = CHR ''6''"
| "core_ouch_time_in_force_value CTF_after_hours = CHR ''E''"

datatype core_ouch_display =
    CD_visible | CD_hidden | CD_attributable | CD_conformant

fun core_ouch_display_value :: "core_ouch_display \<Rightarrow> char" where
  "core_ouch_display_value CD_visible = CHR ''Y''"
| "core_ouch_display_value CD_hidden = CHR ''N''"
| "core_ouch_display_value CD_attributable = CHR ''A''"
| "core_ouch_display_value CD_conformant = CHR ''Z''"

datatype core_ouch_capacity =
    CC_cap_agency | CC_cap_principal | CC_cap_riskless | CC_cap_other

fun core_ouch_capacity_value :: "core_ouch_capacity \<Rightarrow> char" where
  "core_ouch_capacity_value CC_cap_agency = CHR ''A''"
| "core_ouch_capacity_value CC_cap_principal = CHR ''P''"
| "core_ouch_capacity_value CC_cap_riskless = CHR ''R''"
| "core_ouch_capacity_value CC_cap_other = CHR ''O''"

datatype core_ouch_intermarket_sweep_eligibility =
    CI_eligible | CI_not_eligible

fun core_ouch_intermarket_sweep_eligibility_value :: "core_ouch_intermarket_sweep_eligibility \<Rightarrow> char" where
  "core_ouch_intermarket_sweep_eligibility_value CI_eligible = CHR ''Y''"
| "core_ouch_intermarket_sweep_eligibility_value CI_not_eligible = CHR ''N''"

datatype core_ouch_cross_type =
    CX_continuous_market | CX_opening_cross | CX_closing_cross | CX_halt_or_ipo | CX_supplemental
  | CX_retail | CX_extended_life | CX_after_hours_close

fun core_ouch_cross_type_value :: "core_ouch_cross_type \<Rightarrow> char" where
  "core_ouch_cross_type_value CX_continuous_market = CHR ''N''"
| "core_ouch_cross_type_value CX_opening_cross = CHR ''O''"
| "core_ouch_cross_type_value CX_closing_cross = CHR ''C''"
| "core_ouch_cross_type_value CX_halt_or_ipo = CHR ''H''"
| "core_ouch_cross_type_value CX_supplemental = CHR ''S''"
| "core_ouch_cross_type_value CX_retail = CHR ''R''"
| "core_ouch_cross_type_value CX_extended_life = CHR ''E''"
| "core_ouch_cross_type_value CX_after_hours_close = CHR ''A''"

datatype core_ouch_order_state =
    COS_live | COS_dead

fun core_ouch_order_state_value :: "core_ouch_order_state \<Rightarrow> char" where
  "core_ouch_order_state_value COS_live = CHR ''L''"
| "core_ouch_order_state_value COS_dead = CHR ''D''"

datatype core_ouch_system_event_code =
    CSE_start_of_day | CSE_end_of_day

fun core_ouch_system_event_code_value :: "core_ouch_system_event_code \<Rightarrow> char" where
  "core_ouch_system_event_code_value CSE_start_of_day = CHR ''S''"
| "core_ouch_system_event_code_value CSE_end_of_day = CHR ''E''"

datatype core_ouch_cancel_reason =
    CR_regulatory_restriction | CR_closed | CR_post_only_cancel_nms | CR_post_only_cancel_contra
  | CR_halted | CR_immediate_or_cancel | CR_market_collars | CR_self_match_prevention | CR_supervisory
  | CR_timeout | CR_user_requested | CR_open_protection | CR_system_cancel
  | CR_direct_listing_capital_raise_exceeds_allowed_shares

fun core_ouch_cancel_reason_value :: "core_ouch_cancel_reason \<Rightarrow> char" where
  "core_ouch_cancel_reason_value CR_regulatory_restriction = CHR ''D''"
| "core_ouch_cancel_reason_value CR_closed = CHR ''E''"
| "core_ouch_cancel_reason_value CR_post_only_cancel_nms = CHR ''F''"
| "core_ouch_cancel_reason_value CR_post_only_cancel_contra = CHR ''G''"
| "core_ouch_cancel_reason_value CR_halted = CHR ''H''"
| "core_ouch_cancel_reason_value CR_immediate_or_cancel = CHR ''I''"
| "core_ouch_cancel_reason_value CR_market_collars = CHR ''K''"
| "core_ouch_cancel_reason_value CR_self_match_prevention = CHR ''Q''"
| "core_ouch_cancel_reason_value CR_supervisory = CHR ''S''"
| "core_ouch_cancel_reason_value CR_timeout = CHR ''T''"
| "core_ouch_cancel_reason_value CR_user_requested = CHR ''U''"
| "core_ouch_cancel_reason_value CR_open_protection = CHR ''X''"
| "core_ouch_cancel_reason_value CR_system_cancel = CHR ''Z''"
| "core_ouch_cancel_reason_value CR_direct_listing_capital_raise_exceeds_allowed_shares = CHR ''e''"

datatype core_liquidity_flag =
    LF_unknown | LF_added | LF_removed

datatype core_order_status =
    OST_pending_new | OST_accepted | OST_partially_filled | OST_filled | OST_cancel_pending
  | OST_canceled | OST_replaced | OST_rejected | OST_modified | OST_restated

section \<open>Messages\<close>

record enter_order_command =
  enter_order_cmd_user_ref_num :: u32
  enter_order_cmd_side :: core_ouch_side
  enter_order_cmd_quantity :: u32
  enter_order_cmd_symbol :: string
  enter_order_cmd_price :: u64
  enter_order_cmd_time_in_force :: core_ouch_time_in_force
  enter_order_cmd_display :: core_ouch_display
  enter_order_cmd_capacity :: core_ouch_capacity
  enter_order_cmd_intermarket_sweep_eligibility :: core_ouch_intermarket_sweep_eligibility
  enter_order_cmd_cross_type :: core_ouch_cross_type
  enter_order_cmd_cl_ord_id :: string
  enter_order_cmd_appendage_length :: u16

record replace_order_command =
  replace_order_cmd_original_user_ref_num :: u32
  replace_order_cmd_replacement_user_ref_num :: u32
  replace_order_cmd_quantity :: u32
  replace_order_cmd_price :: u64
  replace_order_cmd_time_in_force :: core_ouch_time_in_force
  replace_order_cmd_display :: core_ouch_display
  replace_order_cmd_intermarket_sweep_eligibility :: core_ouch_intermarket_sweep_eligibility
  replace_order_cmd_cl_ord_id :: string
  replace_order_cmd_appendage_length :: u16

record cancel_order_command =
  cancel_order_cmd_user_ref_num :: u32
  cancel_order_cmd_intended_quantity :: u32
  cancel_order_cmd_appendage_length :: u16

record modify_order_command =
  modify_order_cmd_user_ref_num :: u32
  modify_order_cmd_side :: core_ouch_side
  modify_order_cmd_intended_quantity :: u32
  modify_order_cmd_appendage_length :: u16

record mass_cancel_command =
  mass_cancel_cmd_user_ref_num :: u32
  mass_cancel_cmd_firm :: string
  mass_cancel_cmd_symbol :: string
  mass_cancel_cmd_appendage_length :: u16

record disable_order_entry_command =
  disable_order_entry_cmd_user_ref_num :: u32
  disable_order_entry_cmd_firm :: string
  disable_order_entry_cmd_appendage_length :: u16

record enable_order_entry_command =
  enable_order_entry_cmd_user_ref_num :: u32
  enable_order_entry_cmd_firm :: string
  enable_order_entry_cmd_appendage_length :: u16

record account_query_command =
  account_query_cmd_appendage_length :: u16

record ouch_system_event =
  ouch_system_timestamp_ns :: u64
  ouch_system_event_code :: core_ouch_system_event_code

record order_accepted_event =
  order_accepted_timestamp_ns :: u64
  order_accepted_user_ref_num :: u32
  order_accepted_side :: core_ouch_side
  order_accepted_quantity :: u32
  order_accepted_symbol :: string
  order_accepted_price :: u64
  order_accepted_time_in_force :: core_ouch_time_in_force
  order_accepted_display :: core_ouch_display
  order_accepted_order_reference_number :: u64
  order_accepted_capacity :: core_ouch_capacity
  order_accepted_intermarket_sweep_eligibility :: core_ouch_intermarket_sweep_eligibility
  order_accepted_cross_type :: core_ouch_cross_type
  order_accepted_order_state :: core_ouch_order_state
  order_accepted_cl_ord_id :: string
  order_accepted_appendage_length :: u16

record order_replaced_event =
  order_replaced_timestamp_ns :: u64
  order_replaced_original_user_ref_num :: u32
  order_replaced_replacement_user_ref_num :: u32
  order_replaced_side :: core_ouch_side
  order_replaced_quantity :: u32
  order_replaced_symbol :: string
  order_replaced_price :: u64
  order_replaced_time_in_force :: core_ouch_time_in_force
  order_replaced_display :: core_ouch_display
  order_replaced_order_reference_number :: u64
  order_replaced_capacity :: core_ouch_capacity
  order_replaced_intermarket_sweep_eligibility :: core_ouch_intermarket_sweep_eligibility
  order_replaced_cross_type :: core_ouch_cross_type
  order_replaced_order_state :: core_ouch_order_state
  order_replaced_cl_ord_id :: string
  order_replaced_appendage_length :: u16

record order_canceled_event =
  order_canceled_timestamp_ns :: u64
  order_canceled_user_ref_num :: u32
  order_canceled_canceled_quantity :: u32
  order_canceled_reason :: core_ouch_cancel_reason
  order_canceled_appendage_length :: u16

record aiq_canceled_event =
  aiq_canceled_timestamp_ns :: u64
  aiq_canceled_user_ref_num :: u32
  aiq_canceled_decrement_shares :: u32
  aiq_canceled_reason :: core_ouch_cancel_reason
  aiq_canceled_quantity_prevented_from_trading :: u32
  aiq_canceled_execution_price :: u64
  aiq_canceled_raw_liquidity_flag :: char
  aiq_canceled_aiq_strategy :: char
  aiq_canceled_appendage_length :: u16

record order_executed_event =
  order_executed_timestamp_ns :: u64
  order_executed_user_ref_num :: u32
  order_executed_executed_quantity :: u32
  order_executed_execution_price :: u64
  order_executed_raw_liquidity_flag :: char
  order_executed_match_number :: u64
  order_executed_appendage_length :: u16

record broken_trade_event =
  broken_trade_timestamp_ns :: u64
  broken_trade_user_ref_num :: u32
  broken_trade_match_number :: u64
  broken_trade_reason :: char
  broken_trade_cl_ord_id :: string
  broken_trade_appendage_length :: u16

record order_rejected_event =
  order_rejected_timestamp_ns :: u64
  order_rejected_user_ref_num :: u32
  order_rejected_reason :: u16
  order_rejected_cl_ord_id :: string
  order_rejected_appendage_length :: u16

record cancel_pending_event =
  cancel_pending_timestamp_ns :: u64
  cancel_pending_user_ref_num :: u32
  cancel_pending_appendage_length :: u16

record cancel_reject_event =
  cancel_reject_timestamp_ns :: u64
  cancel_reject_user_ref_num :: u32
  cancel_reject_appendage_length :: u16

record order_priority_update_event =
  order_priority_update_timestamp_ns :: u64
  order_priority_update_user_ref_num :: u32
  order_priority_update_price :: u64
  order_priority_update_display :: core_ouch_display
  order_priority_update_order_reference_number :: u64
  order_priority_update_appendage_length :: u16

record order_modified_event =
  order_modified_timestamp_ns :: u64
  order_modified_user_ref_num :: u32
  order_modified_side :: core_ouch_side
  order_modified_quantity :: u32
  order_modified_appendage_length :: u16

record order_restated_event =
  order_restated_timestamp_ns :: u64
  order_restated_user_ref_num :: u32
  order_restated_reason :: char
  order_restated_appendage_length :: u16

record mass_cancel_response_event =
  mass_cancel_response_timestamp_ns :: u64
  mass_cancel_response_user_ref_num :: u32
  mass_cancel_response_firm :: string
  mass_cancel_response_symbol :: string
  mass_cancel_response_appendage_length :: u16

record disable_order_entry_response_event =
  disable_order_entry_response_timestamp_ns :: u64
  disable_order_entry_response_user_ref_num :: u32
  disable_order_entry_response_firm :: string
  disable_order_entry_response_appendage_length :: u16

record enable_order_entry_response_event =
  enable_order_entry_response_timestamp_ns :: u64
  enable_order_entry_response_user_ref_num :: u32
  enable_order_entry_response_firm :: string
  enable_order_entry_response_appendage_length :: u16

record account_query_response_event =
  account_query_response_timestamp_ns :: u64
  account_query_response_next_user_ref_num :: u32
  account_query_response_appendage_length :: u16

datatype order_command =
    CMD_enter_order enter_order_command
  | CMD_replace_order replace_order_command
  | CMD_cancel_order cancel_order_command
  | CMD_modify_order modify_order_command
  | CMD_mass_cancel mass_cancel_command
  | CMD_disable_order_entry disable_order_entry_command
  | CMD_enable_order_entry enable_order_entry_command
  | CMD_account_query account_query_command

datatype order_event =
    EVT_ouch_system ouch_system_event
  | EVT_order_accepted order_accepted_event
  | EVT_order_replaced order_replaced_event
  | EVT_order_canceled order_canceled_event
  | EVT_aiq_canceled aiq_canceled_event
  | EVT_order_executed order_executed_event
  | EVT_broken_trade broken_trade_event
  | EVT_order_rejected order_rejected_event
  | EVT_cancel_pending cancel_pending_event
  | EVT_cancel_reject cancel_reject_event
  | EVT_order_priority_update order_priority_update_event
  | EVT_order_modified order_modified_event
  | EVT_order_restated order_restated_event
  | EVT_mass_cancel_response mass_cancel_response_event
  | EVT_disable_order_entry_response disable_order_entry_response_event
  | EVT_enable_order_entry_response enable_order_entry_response_event
  | EVT_account_query_response account_query_response_event

section \<open>Conversions\<close>

definition ouch_market_order_price :: u64 where
  "ouch_market_order_price = 2147483647"

definition ouch_min_quantity :: u32 where
  "ouch_min_quantity = 1"

definition ouch_max_quantity_exclusive :: u32 where
  "ouch_max_quantity_exclusive = 1000000"

fun ouch_side_to_book_side :: "core_ouch_side \<Rightarrow> core_side" where
  "ouch_side_to_book_side CS_buy = Side_bid"
| "ouch_side_to_book_side CS_sell = Side_ask"
| "ouch_side_to_book_side CS_sell_short = Side_ask"
| "ouch_side_to_book_side CS_sell_short_exempt = Side_ask"

definition classify_liquidity_flag :: "char \<Rightarrow> core_liquidity_flag" where
  "classify_liquidity_flag raw_liquidity_flag =
     (if raw_liquidity_flag \<in> set ''AJku781259'' then LF_added
      else if raw_liquidity_flag \<in> set ''Rmpqrt3'' then LF_removed
      else LF_unknown)"

section \<open>Validity\<close>

definition core_is_valid_user_ref_num :: "u32 \<Rightarrow> bool" where
  "core_is_valid_user_ref_num user_ref_num \<longleftrightarrow> user_ref_num > 0"

definition is_valid_ouch_quantity :: "u32 \<Rightarrow> bool" where
  "is_valid_ouch_quantity quantity \<longleftrightarrow> quantity \<ge> ouch_min_quantity \<and> quantity < ouch_max_quantity_exclusive"

definition is_valid_cancel_intended_quantity :: "u32 \<Rightarrow> bool" where
  "is_valid_cancel_intended_quantity intended_quantity \<longleftrightarrow> intended_quantity < ouch_max_quantity_exclusive"

definition is_valid_ouch_price :: "u64 \<Rightarrow> bool" where
  "is_valid_ouch_price price \<longleftrightarrow> price > 0"

definition is_market_order_price :: "u64 \<Rightarrow> bool" where
  "is_market_order_price price \<longleftrightarrow> price = ouch_market_order_price"

definition is_valid_enter_order :: "enter_order_command \<Rightarrow> bool" where
  "is_valid_enter_order command \<longleftrightarrow>
     core_is_valid_user_ref_num (enter_order_cmd_user_ref_num command)
     \<and> is_valid_ouch_quantity (enter_order_cmd_quantity command)
     \<and> is_valid_ouch_price (enter_order_cmd_price command)"

definition is_valid_replace_order :: "replace_order_command \<Rightarrow> bool" where
  "is_valid_replace_order command \<longleftrightarrow>
     core_is_valid_user_ref_num (replace_order_cmd_original_user_ref_num command)
     \<and> core_is_valid_user_ref_num (replace_order_cmd_replacement_user_ref_num command)
     \<and> replace_order_cmd_original_user_ref_num command \<noteq> replace_order_cmd_replacement_user_ref_num command
     \<and> is_valid_ouch_quantity (replace_order_cmd_quantity command)
     \<and> is_valid_ouch_price (replace_order_cmd_price command)"

definition is_valid_cancel_order :: "cancel_order_command \<Rightarrow> bool" where
  "is_valid_cancel_order command \<longleftrightarrow>
     core_is_valid_user_ref_num (cancel_order_cmd_user_ref_num command)
     \<and> is_valid_cancel_intended_quantity (cancel_order_cmd_intended_quantity command)"

definition is_valid_modify_order :: "modify_order_command \<Rightarrow> bool" where
  "is_valid_modify_order command \<longleftrightarrow>
     core_is_valid_user_ref_num (modify_order_cmd_user_ref_num command)
     \<and> is_valid_cancel_intended_quantity (modify_order_cmd_intended_quantity command)"

definition is_valid_mass_cancel :: "mass_cancel_command \<Rightarrow> bool" where
  "is_valid_mass_cancel command \<longleftrightarrow> core_is_valid_user_ref_num (mass_cancel_cmd_user_ref_num command)"

definition is_valid_disable_order_entry :: "disable_order_entry_command \<Rightarrow> bool" where
  "is_valid_disable_order_entry command \<longleftrightarrow>
     core_is_valid_user_ref_num (disable_order_entry_cmd_user_ref_num command)"

definition is_valid_enable_order_entry :: "enable_order_entry_command \<Rightarrow> bool" where
  "is_valid_enable_order_entry command \<longleftrightarrow>
     core_is_valid_user_ref_num (enable_order_entry_cmd_user_ref_num command)"

definition is_terminal_status :: "core_order_status \<Rightarrow> bool" where
  "is_terminal_status status \<longleftrightarrow>
     status = OST_filled \<or> status = OST_canceled \<or> status = OST_replaced \<or> status = OST_rejected"

definition is_live_status :: "core_order_status \<Rightarrow> bool" where
  "is_live_status status \<longleftrightarrow>
     status = OST_accepted \<or> status = OST_partially_filled \<or> status = OST_modified \<or> status = OST_restated"

section \<open>Names\<close>

fun core_ouch_inbound_message_type_to_string :: "core_ouch_inbound_message_type \<Rightarrow> string" where
  "core_ouch_inbound_message_type_to_string OIM_enter_order = ''enter_order''"
| "core_ouch_inbound_message_type_to_string OIM_replace_order = ''replace_order''"
| "core_ouch_inbound_message_type_to_string OIM_cancel_order = ''cancel_order''"
| "core_ouch_inbound_message_type_to_string OIM_modify_order = ''modify_order''"
| "core_ouch_inbound_message_type_to_string OIM_mass_cancel = ''mass_cancel''"
| "core_ouch_inbound_message_type_to_string OIM_disable_order_entry = ''disable_order_entry''"
| "core_ouch_inbound_message_type_to_string OIM_enable_order_entry = ''enable_order_entry''"
| "core_ouch_inbound_message_type_to_string OIM_account_query = ''account_query''"

fun core_ouch_outbound_message_type_to_string :: "core_ouch_outbound_message_type \<Rightarrow> string" where
  "core_ouch_outbound_message_type_to_string OOM_system_event = ''system_event''"
| "core_ouch_outbound_message_type_to_string OOM_order_accepted = ''order_accepted''"
| "core_ouch_outbound_message_type_to_string OOM_order_replaced = ''order_replaced''"
| "core_ouch_outbound_message_type_to_string OOM_order_canceled = ''order_canceled''"
| "core_ouch_outbound_message_type_to_string OOM_aiq_canceled = ''aiq_canceled''"
| "core_ouch_outbound_message_type_to_string OOM_order_executed = ''order_executed''"
| "core_ouch_outbound_message_type_to_string OOM_broken_trade = ''broken_trade''"
| "core_ouch_outbound_message_type_to_string OOM_rejected = ''rejected''"
| "core_ouch_outbound_message_type_to_string OOM_cancel_pending = ''cancel_pending''"
| "core_ouch_outbound_message_type_to_string OOM_cancel_reject = ''cancel_reject''"
| "core_ouch_outbound_message_type_to_string OOM_order_priority_update = ''order_priority_update''"
| "core_ouch_outbound_message_type_to_string OOM_order_modified = ''order_modified''"
| "core_ouch_outbound_message_type_to_string OOM_order_restated = ''order_restated''"
| "core_ouch_outbound_message_type_to_string OOM_mass_cancel_response = ''mass_cancel_response''"
| "core_ouch_outbound_message_type_to_string OOM_disable_order_entry_response = ''disable_order_entry_response''"
| "core_ouch_outbound_message_type_to_string OOM_enable_order_entry_response = ''enable_order_entry_response''"
| "core_ouch_outbound_message_type_to_string OOM_account_query_response = ''account_query_response''"

fun core_order_status_to_string :: "core_order_status \<Rightarrow> string" where
  "core_order_status_to_string OST_pending_new = ''pending_new''"
| "core_order_status_to_string OST_accepted = ''accepted''"
| "core_order_status_to_string OST_partially_filled = ''partially_filled''"
| "core_order_status_to_string OST_filled = ''filled''"
| "core_order_status_to_string OST_cancel_pending = ''cancel_pending''"
| "core_order_status_to_string OST_canceled = ''canceled''"
| "core_order_status_to_string OST_replaced = ''replaced''"
| "core_order_status_to_string OST_rejected = ''rejected''"
| "core_order_status_to_string OST_modified = ''modified''"
| "core_order_status_to_string OST_restated = ''restated''"

fun core_liquidity_flag_to_string :: "core_liquidity_flag \<Rightarrow> string" where
  "core_liquidity_flag_to_string LF_unknown = ''unknown''"
| "core_liquidity_flag_to_string LF_added = ''added''"
| "core_liquidity_flag_to_string LF_removed = ''removed''"

section \<open>Facts\<close>

lemma order_event_names_injective:
  "inj core_ouch_inbound_message_type_to_string" "inj core_ouch_outbound_message_type_to_string"
  "inj core_order_status_to_string" "inj core_liquidity_flag_to_string"
  by (rule injI; case_tac x; case_tac y; simp)+

lemma order_event_codes_injective:
  "inj core_ouch_inbound_message_type_value" "inj core_ouch_outbound_message_type_value"
  "inj core_ouch_cancel_reason_value"
  by (rule injI; case_tac x; case_tac y; simp)+

text \<open>Every order status is live, terminal or one of the two pending ones, and never two of these.\<close>

lemma order_status_partition:
  "\<not> (is_terminal_status s \<and> is_live_status s)"
  "\<not> is_terminal_status s \<and> \<not> is_live_status s \<longleftrightarrow> s = OST_pending_new \<or> s = OST_cancel_pending"
  by (cases s; simp add: is_terminal_status_def is_live_status_def)+

text \<open>
  The commands with the fields of wire messages. The appendage of a wire message appears in a command as its
  length.\<close>

fun side_command :: "ouch_side \<Rightarrow> core_ouch_side" where
  "side_command OS_buy = CS_buy"
| "side_command OS_sell = CS_sell"
| "side_command OS_sell_short = CS_sell_short"
| "side_command OS_sell_short_exempt = CS_sell_short_exempt"

fun time_in_force_command :: "time_in_force \<Rightarrow> core_ouch_time_in_force" where
  "time_in_force_command TIF_day = CTF_day"
| "time_in_force_command TIF_ioc = CTF_immediate_or_cancel"
| "time_in_force_command TIF_gtx = CTF_extended_hours"
| "time_in_force_command TIF_gtt = CTF_good_till_time"
| "time_in_force_command TIF_after_hours = CTF_after_hours"

fun display_command :: "display \<Rightarrow> core_ouch_display" where
  "display_command DSP_visible = CD_visible"
| "display_command DSP_hidden = CD_hidden"
| "display_command DSP_attributable = CD_attributable"

fun capacity_command :: "capacity \<Rightarrow> core_ouch_capacity" where
  "capacity_command CAP_agency = CC_cap_agency"
| "capacity_command CAP_principal = CC_cap_principal"
| "capacity_command CAP_riskless = CC_cap_riskless"
| "capacity_command CAP_other = CC_cap_other"

fun sweep_command :: "intermarket_sweep_eligibility \<Rightarrow> core_ouch_intermarket_sweep_eligibility" where
  "sweep_command ISE_eligible = CI_eligible"
| "sweep_command ISE_not_eligible = CI_not_eligible"

fun cross_type_command :: "ouch_cross_type \<Rightarrow> core_ouch_cross_type" where
  "cross_type_command OCT_continuous_market = CX_continuous_market"
| "cross_type_command OCT_opening_cross = CX_opening_cross"
| "cross_type_command OCT_closing_cross = CX_closing_cross"
| "cross_type_command OCT_halt_or_ipo = CX_halt_or_ipo"
| "cross_type_command OCT_supplemental = CX_supplemental"
| "cross_type_command OCT_retail = CX_retail"
| "cross_type_command OCT_extended_life = CX_extended_life"
| "cross_type_command OCT_after_hours_close = CX_after_hours_close"

text \<open>The two models write the same characters on the wire.\<close>

lemma side_command_code: "core_ouch_side_value (side_command x) = ouch_side_to_char x"
  by (cases x) simp_all

lemma time_in_force_command_code: "core_ouch_time_in_force_value (time_in_force_command x) = time_in_force_to_char x"
  by (cases x) simp_all

lemma display_command_code: "core_ouch_display_value (display_command x) = display_to_char x"
  by (cases x) simp_all

lemma capacity_command_code: "core_ouch_capacity_value (capacity_command x) = capacity_to_char x"
  by (cases x) simp_all

lemma sweep_command_code: "core_ouch_intermarket_sweep_eligibility_value (sweep_command x) = intermarket_sweep_eligibility_to_char x"
  by (cases x) simp_all

lemma cross_type_command_code: "core_ouch_cross_type_value (cross_type_command x) = ouch_cross_type_to_char x"
  by (cases x) simp_all

lemmas command_codes_agree = side_command_code time_in_force_command_code display_command_code
  capacity_command_code sweep_command_code cross_type_command_code

fun wire_command :: "ouch_message \<Rightarrow> order_command" where
  "wire_command (EnterOrder m) = CMD_enter_order
     \<lparr>enter_order_cmd_user_ref_num = eo_user_ref_num m, enter_order_cmd_side = side_command (eo_side m),
      enter_order_cmd_quantity = eo_quantity m, enter_order_cmd_symbol = eo_symbol m,
      enter_order_cmd_price = eo_price m, enter_order_cmd_time_in_force = time_in_force_command (eo_time_in_force m),
      enter_order_cmd_display = display_command (eo_display m),
      enter_order_cmd_capacity = capacity_command (eo_capacity m),
      enter_order_cmd_intermarket_sweep_eligibility = sweep_command (eo_intermarket_sweep_eligibility m),
      enter_order_cmd_cross_type = cross_type_command (eo_cross_type m), enter_order_cmd_cl_ord_id = eo_cl_ord_id m,
      enter_order_cmd_appendage_length = of_nat (length (eo_optional_appendage m))\<rparr>"
| "wire_command (ReplaceOrder m) = CMD_replace_order
     \<lparr>replace_order_cmd_original_user_ref_num = rpo_orig_user_ref_num m,
      replace_order_cmd_replacement_user_ref_num = rpo_user_ref_num m,
      replace_order_cmd_quantity = rpo_quantity m, replace_order_cmd_price = rpo_price m,
      replace_order_cmd_time_in_force = time_in_force_command (rpo_time_in_force m),
      replace_order_cmd_display = display_command (rpo_display m),
      replace_order_cmd_intermarket_sweep_eligibility = sweep_command (rpo_intermarket_sweep_eligibility m),
      replace_order_cmd_cl_ord_id = rpo_cl_ord_id m,
      replace_order_cmd_appendage_length = of_nat (length (rpo_optional_appendage m))\<rparr>"
| "wire_command (CancelOrder m) = CMD_cancel_order
     \<lparr>cancel_order_cmd_user_ref_num = co_user_ref_num m, cancel_order_cmd_intended_quantity = co_quantity m,
      cancel_order_cmd_appendage_length = of_nat (length (co_optional_appendage m))\<rparr>"

fun command_valid :: "order_command \<Rightarrow> bool" where
  "command_valid (CMD_enter_order c) = is_valid_enter_order c"
| "command_valid (CMD_replace_order c) = is_valid_replace_order c"
| "command_valid (CMD_cancel_order c) = is_valid_cancel_order c"
| "command_valid (CMD_modify_order c) = is_valid_modify_order c"
| "command_valid (CMD_mass_cancel c) = is_valid_mass_cancel c"
| "command_valid (CMD_disable_order_entry c) = is_valid_disable_order_entry c"
| "command_valid (CMD_enable_order_entry c) = is_valid_enable_order_entry c"
| "command_valid (CMD_account_query c) = True"

text \<open>The text and the appendage of a wire message, which commands do not check.\<close>

fun text_fields_ok :: "ouch_message \<Rightarrow> bool" where
  "text_fields_ok (EnterOrder m) \<longleftrightarrow> is_valid_fixed_ascii (eo_symbol m) \<and> is_valid_fixed_ascii (eo_cl_ord_id m)
     \<and> appendage_length_fits (eo_optional_appendage m)"
| "text_fields_ok (ReplaceOrder m) \<longleftrightarrow> is_valid_fixed_ascii (rpo_cl_ord_id m)
     \<and> appendage_length_fits (rpo_optional_appendage m)"
| "text_fields_ok (CancelOrder m) \<longleftrightarrow> appendage_length_fits (co_optional_appendage m)"

lemmas command_defs = is_valid_enter_order_def is_valid_replace_order_def is_valid_cancel_order_def
  core_is_valid_user_ref_num_def is_valid_ouch_quantity_def is_valid_cancel_intended_quantity_def is_valid_ouch_price_def
  ouch_min_quantity_def ouch_max_quantity_exclusive_def
lemmas ouch_validity_defs = is_valid_enter_order_message_def is_valid_replace_order_message_def
  is_valid_cancel_order_message_def is_valid_user_ref_num_def is_valid_enter_or_replace_quantity_def
  is_valid_cancel_quantity_def ouch_is_valid_price4_def

text \<open>
  The order entry model and the wire codec accept the same orders: the wire image of an OUCH message is decoded
  exactly when its command is valid in the order entry model, its text fields are printable and the length of its
  appendage fits a 16-bit field.\<close>

theorem order_command_agrees_with_wire:
  assumes "ouch_typed m"
  shows "ouch_decode_message (ouch_image m) = Ok m \<longleftrightarrow> command_valid (wire_command m) \<and> text_fields_ok m"
proof -
  have one: "1 \<le> q \<longleftrightarrow> 0 < q" for q :: u32 by (simp add: word_le_nat_alt word_less_nat_alt Suc_le_eq)
  have "ouch_ok m \<longleftrightarrow> command_valid (wire_command m) \<and> text_fields_ok m"
    by (cases m) (auto simp: command_defs ouch_validity_defs one)
  then show ?thesis using assms by (simp add: ouch_decode_message_iff)
qed

theorem order_command_agrees_with_wire_witness:
  "command_valid (wire_command (EnterOrder sample_enter)) \<and> text_fields_ok (EnterOrder sample_enter)"
  using order_command_agrees_with_wire [of "EnterOrder sample_enter"] sample_enter_ok
  by (simp add: ouch_decode_message_iff del: ouch_image.simps command_valid.simps text_fields_ok.simps)

end
