(* ===== verification/Fixtures.thy ===== *)
theory Fixtures
  imports Instrument
begin

text \<open>
  The reference fixtures: \<^verbatim>\<open>src/reference/symbol_fixture.cpp\<close> and \<^verbatim>\<open>src/reference/venue_fixture.cpp\<close>
  parse a text of symbols (one a line, or the first field of a pipe-separated row) and a text of venues (rows of
  identifier and market code separated by a comma). Blank lines, comments, headers and invalid rows are skipped.

  A \<^verbatim>\<open>string_view\<close> is a string; \<^verbatim>\<open>find\<close> gives an option for \<^verbatim>\<open>npos\<close>. The 32-bit accumulator of a venue
  identifier is a natural number: its guard keeps it below \<open>2^16\<close>.
\<close>

section \<open>Text\<close>

abbreviation newline :: char where
  "newline \<equiv> CHR 0x0A"

fun find_char :: "char \<Rightarrow> string \<Rightarrow> nat option" where
  "find_char c [] = None"
| "find_char c (x # xs) = (if x = c then Some 0 else map_option Suc (find_char c xs))"

text \<open>\<^verbatim>\<open>text.find(c, offset)\<close> and \<^verbatim>\<open>text.substr(offset, n)\<close>.\<close>

definition find_char_from :: "char \<Rightarrow> string \<Rightarrow> nat \<Rightarrow> nat option" where
  "find_char_from c text offset = map_option ((+) offset) (find_char c (drop offset text))"

definition substr :: "string \<Rightarrow> nat \<Rightarrow> nat \<Rightarrow> string" where
  "substr text offset n = take n (drop offset text)"

definition is_ascii_space :: "char \<Rightarrow> bool" where
  "is_ascii_space c \<longleftrightarrow> c = CHR '' '' \<or> c = CHR 0x09 \<or> c = CHR 0x0D \<or> c = newline"

definition is_uppercase_alpha :: "char \<Rightarrow> bool" where
  "is_uppercase_alpha c \<longleftrightarrow> byte_of_char CHR ''A'' \<le> byte_of_char c \<and> byte_of_char c \<le> byte_of_char CHR ''Z''"

definition is_digit :: "char \<Rightarrow> bool" where
  "is_digit c \<longleftrightarrow> byte_of_char CHR ''0'' \<le> byte_of_char c \<and> byte_of_char c \<le> byte_of_char CHR ''9''"

definition trim_ascii_whitespace :: "string \<Rightarrow> string" where
  "trim_ascii_whitespace text =
     (let front_trimmed = dropWhile is_ascii_space text
      in rev (dropWhile is_ascii_space (rev front_trimmed)))"

definition first_pipe_field :: "string \<Rightarrow> string" where
  "first_pipe_field line =
     (case find_char CHR ''|'' line of None \<Rightarrow> line | Some delimiter \<Rightarrow> substr line 0 delimiter)"

definition should_skip_line :: "string \<Rightarrow> bool" where
  "should_skip_line line \<longleftrightarrow> line = [] \<or> hd line = CHR ''#''"

text \<open>
  The loop over the lines of a text, which both parsers have: \<open>body\<close> takes the trimmed line. The bound on the offset
  is the condition of the loop, a missing newline its \<^verbatim>\<open>break\<close>.\<close>

lemma find_char_Some:
  "find_char c s = Some i \<Longrightarrow> i < length s \<and> s ! i = c \<and> c \<notin> set (take i s)"
  by (induction s arbitrary: i) (auto split: if_splits)

lemma find_char_None: "find_char c s = None \<longleftrightarrow> c \<notin> set s"
  by (induction s) auto

lemma find_char_from_Some: "find_char_from c s offset = Some i \<Longrightarrow> offset \<le> i \<and> i < length s"
  by (auto simp: find_char_from_def dest: find_char_Some)

function for_each_line :: "(string \<Rightarrow> 'a \<Rightarrow> 'a) \<Rightarrow> string \<Rightarrow> nat \<Rightarrow> 'a \<Rightarrow> 'a" where
  "for_each_line body text offset fixture =
     (if offset > length text then fixture
      else
        let next_newline = find_char_from newline text offset;
            line_end = (case next_newline of None \<Rightarrow> length text | Some i \<Rightarrow> i);
            line = trim_ascii_whitespace (substr text offset (line_end - offset));
            fixture' = (if \<not> should_skip_line line then body line fixture else fixture)
        in case next_newline of
             None \<Rightarrow> fixture'
           | Some i \<Rightarrow> for_each_line body text (i + 1) fixture')"
  by pat_completeness auto
termination
  by (relation "measure (\<lambda>(_, text, offset, _). Suc (length text) - offset)")
     (auto dest!: find_char_from_Some [OF sym])

declare for_each_line.simps [simp del]

section \<open>Symbols\<close>

record symbol_fixture_parse_options =
  sp_max_symbols :: nat
  sp_allow_pipe_delimited_rows :: bool
  sp_skip_header_rows :: bool

definition should_skip_header :: "string \<Rightarrow> bool" where
  "should_skip_header field \<longleftrightarrow> field = ''Symbol'' \<or> field = ''ACT Symbol'' \<or> field = ''NASDAQ Symbol''"

definition is_valid_fixture_symbol_text :: "string \<Rightarrow> bool" where
  "is_valid_fixture_symbol_text symbol \<longleftrightarrow>
     \<not> (symbol = [] \<or> length symbol > 8)
     \<and> list_all (\<lambda>c. is_uppercase_alpha c \<or> is_digit c \<or> c = CHR ''.'') symbol"

text \<open>A \<^verbatim>\<open>SymbolFixture\<close> is its list of symbols.\<close>

type_synonym symbol_fixture = "string list"

definition append_symbol_if_valid ::
  "symbol_fixture_parse_options \<Rightarrow> string \<Rightarrow> symbol_fixture \<Rightarrow> symbol_fixture" where
  "append_symbol_if_valid options field fixture =
     (if sp_max_symbols options \<noteq> 0 \<and> length fixture \<ge> sp_max_symbols options then fixture
      else if sp_skip_header_rows options \<and> should_skip_header field then fixture
      else if \<not> is_valid_fixture_symbol_text field then fixture
      else case make_fixed_ascii 8 field of Ok symbol \<Rightarrow> fixture @ [symbol] | Fail _ \<Rightarrow> fixture)"

definition parse_symbol_fixture_text :: "string \<Rightarrow> symbol_fixture_parse_options \<Rightarrow> symbol_fixture" where
  "parse_symbol_fixture_text text options =
     for_each_line (\<lambda>line.
       let line1 = (if sp_allow_pipe_delimited_rows options then first_pipe_field line else line)
       in append_symbol_if_valid options (trim_ascii_whitespace line1)) text 0 []"

section \<open>Venues\<close>

record venue_fixture_parse_options =
  vp_max_venues :: nat
  vp_skip_header_rows :: bool

definition is_valid_venue_id_text :: "string \<Rightarrow> bool" where
  "is_valid_venue_id_text text0 =
     (let text = trim_ascii_whitespace text0 in text \<noteq> [] \<and> list_all is_digit text)"

definition is_venue_header_row :: "string \<Rightarrow> bool" where
  "is_venue_header_row first_field0 =
     (let first_field = trim_ascii_whitespace first_field0
      in first_field = ''venue_id'' \<or> first_field = ''VenueId'' \<or> first_field = ''id'' \<or> first_field = ''ID'')"

definition digit_value :: "char \<Rightarrow> nat" where
  "digit_value c = unat (byte_of_char c) - unat (byte_of_char CHR ''0'')"

text \<open>The loop of \<^verbatim>\<open>parse_venue_id\<close> with its early return.\<close>

fun parse_digits :: "nat \<Rightarrow> string \<Rightarrow> nat option" where
  "parse_digits value [] = Some value"
| "parse_digits value (c # cs) =
     (let digit = digit_value c
      in if value > (65535 - digit) div 10 then None else parse_digits (value * 10 + digit) cs)"

definition parse_venue_id :: "string \<Rightarrow> venue_id option" where
  "parse_venue_id text0 =
     (let text = trim_ascii_whitespace text0
      in if \<not> is_valid_venue_id_text text then None
         else case parse_digits 0 text of
           None \<Rightarrow> None
         | Some value \<Rightarrow> if value = unat invalid_venue_id then None else Some (of_nat value))"

fun csv_start :: "string \<Rightarrow> nat \<Rightarrow> nat \<Rightarrow> nat option" where
  "csv_start line 0 start = Some start"
| "csv_start line (Suc k) start =
     (case find_char_from CHR '','' line start of
        None \<Rightarrow> None
      | Some delimiter \<Rightarrow> csv_start line k (delimiter + 1))"

definition csv_field :: "string \<Rightarrow> nat \<Rightarrow> string" where
  "csv_field line field_index =
     (case csv_start line field_index 0 of
        None \<Rightarrow> []
      | Some start \<Rightarrow>
          (case find_char_from CHR '','' line start of
             None \<Rightarrow> trim_ascii_whitespace (drop start line)
           | Some end_pos \<Rightarrow> trim_ascii_whitespace (substr line start (end_pos - start))))"

type_synonym venue_fixture = "venue list"

definition append_venue_if_valid ::
  "venue_fixture_parse_options \<Rightarrow> string \<Rightarrow> string \<Rightarrow> venue_fixture \<Rightarrow> venue_fixture" where
  "append_venue_if_valid options id_field0 mic_field0 fixture =
     (if vp_max_venues options \<noteq> 0 \<and> length fixture \<ge> vp_max_venues options then fixture
      else
        let id_field = trim_ascii_whitespace id_field0;
            mic_field = trim_ascii_whitespace mic_field0
        in if vp_skip_header_rows options \<and> is_venue_header_row id_field then fixture
           else case parse_venue_id id_field of
             None \<Rightarrow> fixture
           | Some ident \<Rightarrow>
               (case make_mic mic_field of
                  Fail _ \<Rightarrow> fixture
                | Ok m \<Rightarrow> fixture @ [\<lparr>venue_ident = ident, venue_mic = m\<rparr>]))"

definition parse_venue_fixture_text :: "string \<Rightarrow> venue_fixture_parse_options \<Rightarrow> venue_fixture" where
  "parse_venue_fixture_text text options =
     for_each_line (\<lambda>line. append_venue_if_valid options (csv_field line 0) (csv_field line 1)) text 0 []"

section \<open>Lines\<close>

fun split_lines :: "string \<Rightarrow> string list" where
  "split_lines [] = [[]]"
| "split_lines (c # cs) =
     (if c = newline then [] # split_lines cs
      else case split_lines cs of [] \<Rightarrow> [[c]] | l # ls \<Rightarrow> (c # l) # ls)"

lemma split_lines_not_Nil [simp]: "split_lines s \<noteq> []"
  by (induction s) (auto split: list.splits)

lemma split_lines_single: "newline \<notin> set s \<Longrightarrow> split_lines s = [s]"
  by (induction s) auto

lemma split_lines_append: "newline \<notin> set l \<Longrightarrow> split_lines (l @ newline # r) = l # split_lines r"
  by (induction l) auto

text \<open>The lines that are not skipped, trimmed.\<close>

definition content_lines :: "string \<Rightarrow> string list" where
  "content_lines text = filter (\<lambda>l. \<not> should_skip_line l) (map trim_ascii_whitespace (split_lines text))"

lemma for_each_line_fold:
  "offset \<le> length s \<Longrightarrow> for_each_line body s offset acc = fold body (content_lines (drop offset s)) acc"
proof (induction body s offset acc rule: for_each_line.induct)
  case (1 body s offset acc)
  show ?case
  proof (cases "find_char newline (drop offset s)")
    case None
    then have "split_lines (drop offset s) = [drop offset s]"
      by (intro split_lines_single) (simp add: find_char_None)
    with None 1(2) show ?thesis
      by (simp add: for_each_line.simps [of body s offset] find_char_from_def substr_def content_lines_def Let_def)
  next
    case (Some i)
    let ?rest = "drop offset s"
    note i = find_char_Some [OF Some]
    have rest: "?rest = take i ?rest @ newline # drop (Suc i) ?rest"
      using i id_take_nth_drop [of i ?rest] by simp
    have split: "split_lines ?rest = take i ?rest # split_lines (drop (Suc (offset + i)) s)"
      using i by (subst rest) (simp add: split_lines_append add.commute)
    have len: "offset + i + 1 \<le> length s" using i by auto
    have find: "find_char_from newline s offset = Some (offset + i)" using Some by (simp add: find_char_from_def)
    note IH = 1(1) [OF _ refl refl refl refl find len]
    show ?thesis
      using 1(2) IH
      by (cases "should_skip_line (trim_ascii_whitespace (take i ?rest))")
         (simp_all add: for_each_line.simps [of body s offset] find substr_def content_lines_def split Let_def)
  qed
qed

section \<open>Trimming\<close>

lemma dropWhile_idle: "s = [] \<or> \<not> P (hd s) \<Longrightarrow> dropWhile P s = s"
  by (cases s) auto

lemma trim_idle:
  "s = [] \<or> (\<not> is_ascii_space (hd s) \<and> \<not> is_ascii_space (last s)) \<Longrightarrow> trim_ascii_whitespace s = s"
  by (auto simp: trim_ascii_whitespace_def dropWhile_idle hd_rev)

lemma trim_trim [simp]: "trim_ascii_whitespace (trim_ascii_whitespace s) = trim_ascii_whitespace s"
proof (rule trim_idle)
  define t where "t = dropWhile is_ascii_space s"
  define r where "r = rev (dropWhile is_ascii_space (rev t))"
  have r: "trim_ascii_whitespace s = r" by (simp add: trim_ascii_whitespace_def r_def t_def)
  have split: "t = r @ rev (takeWhile is_ascii_space (rev t))"
    unfolding r_def by (metis rev_append rev_rev_ident takeWhile_dropWhile_id)
  show "trim_ascii_whitespace s = [] \<or>
    (\<not> is_ascii_space (hd (trim_ascii_whitespace s)) \<and> \<not> is_ascii_space (last (trim_ascii_whitespace s)))"
  proof (cases "r = []")
    case True
    then show ?thesis by (simp add: r)
  next
    case False
    then have "hd t = hd r" "t \<noteq> []" using split by (metis hd_append2, auto)
    then have "\<not> is_ascii_space (hd r)" unfolding t_def by (metis hd_dropWhile)
    moreover have "\<not> is_ascii_space (last r)"
      using False unfolding r_def by (metis hd_dropWhile last_rev rev.simps(1) rev_rev_ident)
    ultimately show ?thesis by (simp add: r)
  qed
qed

lemma trim_no_space: "list_all (\<lambda>c. \<not> is_ascii_space c) s \<Longrightarrow> trim_ascii_whitespace s = s"
  by (rule trim_idle) (cases s, auto simp: list_all_iff)

text \<open>Printed names have no character that separates anything.\<close>

lemma char_range: "is_uppercase_alpha c \<or> is_digit c \<Longrightarrow> is_valid_mic_char c"
  by (auto simp: is_uppercase_alpha_def is_digit_def is_valid_mic_char_def)

lemma mic_char_plain:
  assumes "is_valid_mic_char c \<or> c = CHR ''.''"
  shows "\<not> is_ascii_space c" "c \<noteq> CHR ''|''" "c \<noteq> CHR '',''" "c \<noteq> CHR ''#''" "c \<noteq> newline"
  using assms by (auto simp: is_valid_mic_char_def is_ascii_space_def byte_of_char_def)

lemma symbol_text_plain: "is_valid_fixture_symbol_text s \<Longrightarrow> list_all (\<lambda>c. is_valid_mic_char c \<or> c = CHR ''.'') s"
  using char_range by (auto simp: is_valid_fixture_symbol_text_def list_all_iff)

lemma digit_plain: "list_all is_digit s \<Longrightarrow> list_all (\<lambda>c. is_valid_mic_char c \<or> c = CHR ''.'') s"
  using char_range by (auto simp: list_all_iff)

lemma plain_trim: "list_all (\<lambda>c. is_valid_mic_char c \<or> c = CHR ''.'') s \<Longrightarrow> trim_ascii_whitespace s = s"
  using mic_char_plain(1) by (intro trim_no_space) (auto simp: list_all_iff)

lemma plain_printable: "is_valid_mic_char c \<or> c = CHR ''.'' \<Longrightarrow> is_printable_ascii_or_space c"
  by (auto simp: is_valid_mic_char_def is_printable_ascii_or_space_def byte_of_char_def word_le_nat_alt)

section \<open>What the parsers compute\<close>

definition pad_symbol :: "string \<Rightarrow> string" where
  "pad_symbol s = s @ replicate (8 - length s) (CHR '' '')"

text \<open>The symbol of a line, if it has one.\<close>

definition line_symbol :: "symbol_fixture_parse_options \<Rightarrow> string \<Rightarrow> string option" where
  "line_symbol options line =
     (let field = trim_ascii_whitespace (if sp_allow_pipe_delimited_rows options then first_pipe_field line else line)
      in if is_valid_fixture_symbol_text field then Some (pad_symbol field) else None)"

definition line_venue :: "venue_fixture_parse_options \<Rightarrow> string \<Rightarrow> venue option" where
  "line_venue options line =
     (case (parse_venue_id (csv_field line 0), make_mic (csv_field line 1)) of
        (Some ident, Ok m) \<Rightarrow> Some \<lparr>venue_ident = ident, venue_mic = m\<rparr>
      | _ \<Rightarrow> None)"

definition limited :: "nat \<Rightarrow> 'a list \<Rightarrow> 'a list" where
  "limited n xs = (if n = 0 then xs else take n xs)"

lemma header_not_symbol: "should_skip_header field \<Longrightarrow> \<not> is_valid_fixture_symbol_text field"
  by (auto simp: should_skip_header_def is_valid_fixture_symbol_text_def is_uppercase_alpha_def is_digit_def byte_of_char_def)

lemma make_fixed_ascii_symbol:
  assumes "is_valid_fixture_symbol_text s"
  shows "make_fixed_ascii 8 s = Ok (pad_symbol s)"
proof -
  have "list_all is_printable_ascii_or_space s"
    using symbol_text_plain [OF assms] plain_printable by (auto simp: list_all_iff)
  then show ?thesis
    using assms by (simp add: make_fixed_ascii_def pad_symbol_def is_valid_fixture_symbol_text_def)
qed

lemma append_symbol_cases:
  "append_symbol_if_valid options field fixture =
     (if sp_max_symbols options \<noteq> 0 \<and> sp_max_symbols options \<le> length fixture then fixture
      else if is_valid_fixture_symbol_text field then fixture @ [pad_symbol field] else fixture)"
  using header_not_symbol by (auto simp: append_symbol_if_valid_def make_fixed_ascii_symbol)

lemma fold_limited:
  assumes "\<And>x acc. body x acc =
      (if n \<noteq> 0 \<and> n \<le> length acc then acc else case f x of None \<Rightarrow> acc | Some y \<Rightarrow> acc @ [y])"
  shows "n = 0 \<or> length acc \<le> n \<Longrightarrow> fold body xs acc = limited n (acc @ List.map_filter f xs)"
proof (induction xs arbitrary: acc)
  case Nil
  then show ?case by (auto simp: limited_def List.map_filter_simps)
next
  case (Cons x xs)
  show ?case
  proof (cases "n \<noteq> 0 \<and> n \<le> length acc")
    case True
    with Cons.prems have "n = length acc" by simp
    with Cons.IH [of acc] assms [of x acc] True show ?thesis by (simp add: limited_def)
  next
    case False
    with Cons.IH assms [of x acc] Cons.prems show ?thesis
      by (cases "f x") (auto simp: List.map_filter_simps)
  qed
qed

text \<open>
  The identifier of a venue: decimal digits, trimmed, with a value from 1 to 65535.\<close>

fun decimal :: "nat \<Rightarrow> string \<Rightarrow> nat" where
  "decimal value [] = value"
| "decimal value (c # cs) = decimal (value * 10 + digit_value c) cs"

lemma digit_value_le: "is_digit c \<Longrightarrow> digit_value c \<le> 9"
  by (auto simp: is_digit_def digit_value_def word_le_nat_alt byte_of_char_def)

lemma decimal_ge: "value \<le> decimal value s"
proof (induction s arbitrary: "value")
  case (Cons c s)
  show ?case using Cons [of "value * 10 + digit_value c"] by simp
qed simp

lemma parse_digits_exact:
  "list_all is_digit s \<Longrightarrow> value \<le> 65535 \<Longrightarrow>
   parse_digits value s = (if decimal value s \<le> 65535 then Some (decimal value s) else None)"
proof (induction s arbitrary: "value")
  case (Cons c s)
  have d: "digit_value c \<le> 9" using Cons.prems by (simp add: digit_value_le)
  have guard: "value > (65535 - digit_value c) div 10 \<longleftrightarrow> value * 10 + digit_value c > 65535"
    using d by (auto simp: not_le [symmetric] less_eq_div_iff_mult_less_eq)
  show ?case
  proof (cases "value * 10 + digit_value c > 65535")
    case True
    then show ?thesis using decimal_ge [of "value * 10 + digit_value c" s] guard by simp
  next
    case False
    then show ?thesis using Cons guard by simp
  qed
qed simp

lemma parse_venue_id_exact:
  "parse_venue_id s = (let t = trim_ascii_whitespace s in
     if t \<noteq> [] \<and> list_all is_digit t \<and> 0 < decimal 0 t \<and> decimal 0 t \<le> 65535 then Some (of_nat (decimal 0 t)) else None)"
  by (auto simp: parse_venue_id_def is_valid_venue_id_text_def Let_def parse_digits_exact invalid_venue_id_def)

text \<open>The parsers take the symbols and the venues of the lines in order, up to the limit.\<close>

lemma parse_symbol_fixture_exact:
  "parse_symbol_fixture_text s options =
     limited (sp_max_symbols options) (List.map_filter (line_symbol options) (content_lines s))"
proof -
  have "fold (\<lambda>line. let line1 = (if sp_allow_pipe_delimited_rows options then first_pipe_field line else line)
      in append_symbol_if_valid options (trim_ascii_whitespace line1)) (content_lines s) [] =
      limited (sp_max_symbols options) ([] @ List.map_filter (line_symbol options) (content_lines s))"
    by (rule fold_limited) (auto simp: append_symbol_cases line_symbol_def Let_def)
  then show ?thesis by (simp add: parse_symbol_fixture_text_def for_each_line_fold)
qed

lemma header_row_no_venue: "is_venue_header_row s \<Longrightarrow> parse_venue_id s = None"
  by (auto simp: is_venue_header_row_def parse_venue_id_exact Let_def is_digit_def byte_of_char_def)

lemma csv_field_trimmed [simp]: "trim_ascii_whitespace (csv_field line k) = csv_field line k"
  by (simp add: csv_field_def trim_idle split: option.splits)

lemma parse_venue_fixture_exact:
  "parse_venue_fixture_text s options =
     limited (vp_max_venues options) (List.map_filter (line_venue options) (content_lines s))"
proof -
  have "fold (\<lambda>line. append_venue_if_valid options (csv_field line 0) (csv_field line 1)) (content_lines s) [] =
      limited (vp_max_venues options) ([] @ List.map_filter (line_venue options) (content_lines s))"
    by (rule fold_limited)
       (auto simp: append_venue_if_valid_def line_venue_def Let_def header_row_no_venue split: option.splits result.splits)
  then show ?thesis by (simp add: parse_venue_fixture_text_def for_each_line_fold)
qed

section \<open>Printing\<close>

definition join_lines :: "string list \<Rightarrow> string" where
  "join_lines ls = concat (map (\<lambda>l. l @ [newline]) ls)"

lemma split_join: "list_all (\<lambda>l. newline \<notin> set l) ls \<Longrightarrow> split_lines (join_lines ls) = ls @ [[]]"
  by (induction ls) (simp_all add: join_lines_def split_lines_append)

lemma content_join:
  assumes "\<And>l. l \<in> set ls \<Longrightarrow> newline \<notin> set l \<and> trim_ascii_whitespace l = l \<and> \<not> should_skip_line l"
  shows "content_lines (join_lines ls) = ls"
proof -
  have "list_all (\<lambda>l. newline \<notin> set l) ls" using assms by (simp add: list_all_iff)
  then have "content_lines (join_lines ls) = filter (\<lambda>l. \<not> should_skip_line l) (map trim_ascii_whitespace ls)"
    by (simp add: content_lines_def split_join trim_idle should_skip_line_def)
  also have "map trim_ascii_whitespace ls = ls" using assms by (intro map_idI) simp
  also have "filter (\<lambda>l. \<not> should_skip_line l) ls = ls" using assms by simp
  finally show ?thesis .
qed

lemma map_filter_inverse: "(\<And>x. x \<in> set xs \<Longrightarrow> f (g x) = Some x) \<Longrightarrow> List.map_filter f (map g xs) = xs"
  by (induction xs) (simp_all add: List.map_filter_simps)

text \<open>Decimal digits of a number.\<close>

fun show_nat :: "nat \<Rightarrow> string" where
  "show_nat n = (if n < 10 then [char_of (48 + n)] else show_nat (n div 10) @ [char_of (48 + n mod 10)])"

declare show_nat.simps [simp del]

lemma digit_char: "d < 10 \<Longrightarrow> is_digit (char_of (48 + d)) \<and> digit_value (char_of (48 + d)) = d" for d :: nat
proof -
  assume "d < 10"
  moreover have "byte_of_char (char_of (48 + d)) = of_nat (48 + d)" using \<open>d < 10\<close> by (simp add: byte_of_char_def)
  ultimately have "unat (byte_of_char (char_of (48 + d))) = 48 + d" by (simp only: unat_of_nat) simp
  then show ?thesis using \<open>d < 10\<close>
    by (simp add: is_digit_def digit_value_def word_le_nat_alt)
qed

lemma decimal_append: "decimal v (s @ t) = decimal (decimal v s) t"
  by (induction s arbitrary: v) simp_all

lemma show_nat_digits: "list_all is_digit (show_nat n) \<and> show_nat n \<noteq> []"
proof (induction n rule: show_nat.induct)
  case (1 n)
  then show ?case by (cases "n < 10") (simp_all add: show_nat.simps [of n] digit_char)
qed

lemma decimal_show_nat: "decimal 0 (show_nat n) = n"
proof (induction n rule: show_nat.induct)
  case (1 n)
  then show ?case by (cases "n < 10") (simp_all add: show_nat.simps [of n] decimal_append digit_char)
qed

lemma plain_hd:
  assumes "list_all (\<lambda>c. is_valid_mic_char c \<or> c = CHR ''.'') s" "s \<noteq> []"
  shows "\<not> is_ascii_space (hd s) \<and> hd s \<noteq> CHR ''#''"
  using assms mic_char_plain(1,4) [of "hd s"] by (simp add: list_all_iff)

lemma plain_last:
  assumes "list_all (\<lambda>c. is_valid_mic_char c \<or> c = CHR ''.'') s" "s \<noteq> []"
  shows "\<not> is_ascii_space (last s)"
  using assms mic_char_plain(1) [of "last s"] by (simp add: list_all_iff)

lemma plain_newline: "list_all (\<lambda>c. is_valid_mic_char c \<or> c = CHR ''.'') s \<Longrightarrow> newline \<notin> set s"
  using mic_char_plain(5) [of newline] by (auto simp: list_all_iff)

definition venue_line :: "venue \<Rightarrow> string" where
  "venue_line v = show_nat (unat (venue_ident v)) @ [CHR '',''] @ venue_mic v"

lemma find_char_append: "c \<notin> set s \<Longrightarrow> find_char c (s @ c # t) = Some (length s)"
  by (induction s) auto

lemma csv_fields:
  assumes "CHR '','' \<notin> set a" "CHR '','' \<notin> set b"
  shows "csv_field (a @ [CHR '',''] @ b) 0 = trim_ascii_whitespace a"
    and "csv_field (a @ [CHR '',''] @ b) 1 = trim_ascii_whitespace b"
proof -
  have none: "find_char CHR '','' b = None" using assms(2) by (simp add: find_char_None)
  show "csv_field (a @ [CHR '',''] @ b) 0 = trim_ascii_whitespace a"
    "csv_field (a @ [CHR '',''] @ b) 1 = trim_ascii_whitespace b"
    by (simp_all add: csv_field_def find_char_from_def find_char_append [OF assms(1)] none substr_def)
qed

lemma venue_line_parses:
  assumes "is_valid_venue v" "length (venue_mic v) = 4"
  shows "line_venue options (venue_line v) = Some v"
    and "newline \<notin> set (venue_line v) \<and> trim_ascii_whitespace (venue_line v) = venue_line v
      \<and> \<not> should_skip_line (venue_line v)"
proof -
  let ?n = "show_nat (unat (venue_ident v))"
  have digits: "list_all is_digit ?n" "?n \<noteq> []" using show_nat_digits [of "unat (venue_ident v)"] by simp_all
  have mic: "list_all is_valid_mic_char (venue_mic v)" using assms by (simp add: is_valid_venue_def is_valid_mic_def)
  have pn: "list_all (\<lambda>c. is_valid_mic_char c \<or> c = CHR ''.'') ?n" using digits by (simp add: digit_plain)
  have pm: "list_all (\<lambda>c. is_valid_mic_char c \<or> c = CHR ''.'') (venue_mic v)" using mic by (auto simp: list_all_iff)
  have comma: "CHR '','' \<notin> set ?n" "CHR '','' \<notin> set (venue_mic v)"
    using pn pm mic_char_plain(3) by (auto simp: list_all_iff)
  have "unat (venue_ident v) < 2 ^ 16" "unat (venue_ident v) \<noteq> 0"
    using unsigned_less [of "venue_ident v", where 'a = nat] assms(1)
    by (simp_all add: is_valid_venue_def is_valid_venue_id_def invalid_venue_id_def unat_eq_0)
  then have "parse_venue_id ?n = Some (venue_ident v)"
    using digits by (simp add: parse_venue_id_exact plain_trim [OF pn] decimal_show_nat)
  then show "line_venue options (venue_line v) = Some v"
    using assms(2) mic csv_fields [OF comma]
    by (simp add: line_venue_def venue_line_def plain_trim [OF pn] plain_trim [OF pm] make_mic_def)
  have ne: "venue_mic v \<noteq> []" using assms(2) by auto
  have "\<not> is_ascii_space (hd ?n)" "hd ?n \<noteq> CHR ''#''" "\<not> is_ascii_space (last (venue_mic v))"
    using plain_hd [OF pn digits(2)] plain_last [OF pm ne] by simp_all
  then show "newline \<notin> set (venue_line v) \<and> trim_ascii_whitespace (venue_line v) = venue_line v
      \<and> \<not> should_skip_line (venue_line v)"
    using plain_newline [OF pn] plain_newline [OF pm] digits(2) ne
    by (simp add: venue_line_def should_skip_line_def trim_idle)
qed

section \<open>Properties\<close>

text \<open>
  The fixture parsers read back what is printed. Any list of valid symbols, one a line, parses to those symbols
  padded to eight characters, and any list of valid venues, printed as rows of decimal identifier and market code,
  parses to those venues, whether header rows are skipped or not. With a limit, the parsers give the first
  entries up to it.\<close>

theorem fixture_roundtrip:
  assumes "list_all is_valid_fixture_symbol_text symbols"
    and "list_all (\<lambda>v. is_valid_venue v \<and> length (venue_mic v) = 4) venues"
  shows "parse_symbol_fixture_text (join_lines symbols) soptions = limited (sp_max_symbols soptions) (map pad_symbol symbols)
    \<and> parse_venue_fixture_text (join_lines (map venue_line venues)) voptions = limited (vp_max_venues voptions) venues"
proof
  have plain: "list_all (\<lambda>c. is_valid_mic_char c \<or> c = CHR ''.'') s" "s \<noteq> []" "is_valid_fixture_symbol_text s"
    if "s \<in> set symbols" for s
    using assms(1) that symbol_text_plain by (auto simp: list_all_iff is_valid_fixture_symbol_text_def)
  have lines: "content_lines (join_lines symbols) = symbols"
  proof (rule content_join)
    fix l assume "l \<in> set symbols"
    note l = plain [OF this]
    show "newline \<notin> set l \<and> trim_ascii_whitespace l = l \<and> \<not> should_skip_line l"
      using l(2) plain_trim [OF l(1)] plain_hd [OF l(1,2)] plain_newline [OF l(1)] by (simp add: should_skip_line_def)
  qed
  have "line_symbol soptions s = Some (pad_symbol s)" if "s \<in> set symbols" for s
  proof -
    note s = plain [OF that]
    have "CHR ''|'' \<notin> set s" using s(1) mic_char_plain(2) by (auto simp: list_all_iff)
    then have "first_pipe_field s = s" by (simp add: first_pipe_field_def find_char_None [THEN iffD2])
    with s(3) plain_trim [OF s(1)] show ?thesis by (simp add: line_symbol_def)
  qed
  then have "List.map_filter (line_symbol soptions) symbols = map pad_symbol symbols"
    by (induction symbols) (simp_all add: List.map_filter_simps)
  then show "parse_symbol_fixture_text (join_lines symbols) soptions = limited (sp_max_symbols soptions) (map pad_symbol symbols)"
    by (simp add: parse_symbol_fixture_exact lines)
  have "content_lines (join_lines (map venue_line venues)) = map venue_line venues"
    using assms(2) venue_line_parses(2) by (intro content_join) (auto simp: list_all_iff)
  moreover have "List.map_filter (line_venue voptions) (map venue_line venues) = venues"
    using assms(2) venue_line_parses(1) by (intro map_filter_inverse) (auto simp: list_all_iff)
  ultimately show "parse_venue_fixture_text (join_lines (map venue_line venues)) voptions = limited (vp_max_venues voptions) venues"
    by (simp add: parse_venue_fixture_exact)
qed

theorem fixture_roundtrip_witness:
  "parse_venue_fixture_text (join_lines (map venue_line [\<lparr>venue_ident = 7, venue_mic = ''XNAS''\<rparr>]))
     \<lparr>vp_max_venues = 0, vp_skip_header_rows = True\<rparr> = [\<lparr>venue_ident = 7, venue_mic = ''XNAS''\<rparr>]"
  using fixture_roundtrip [of "[''AAPL'']" "[\<lparr>venue_ident = 7, venue_mic = ''XNAS''\<rparr>]"
    "\<lparr>sp_max_symbols = 0, sp_allow_pipe_delimited_rows = True, sp_skip_header_rows = True\<rparr>"
    "\<lparr>vp_max_venues = 0, vp_skip_header_rows = True\<rparr>"]
  by (simp add: is_valid_fixture_symbol_text_def is_uppercase_alpha_def is_valid_venue_def is_valid_venue_id_def
    invalid_venue_id_def is_valid_mic_def is_valid_mic_char_def byte_of_char_def limited_def)

end
