(* ===== verification/Udp_Sockets.thy ===== *)
theory Udp_Sockets
  imports Execution
begin

text \<open>
  The classes that own a UDP socket: \<^verbatim>\<open>src/execution/kernel_udp_backend.cpp\<close>, \<^verbatim>\<open>src/net/udp_sender.cpp\<close>
  and \<^verbatim>\<open>src/net/udp_receiver.cpp\<close>.

  The operating system is not part of the program. Each operation takes what its system calls return as an
  argument and gives the list of the calls it makes, with their arguments and results, so that a statement about
  every argument is a statement about every behaviour of the system. \<^verbatim>\<open>inet_pton\<close> has no effect and is a function
  argument \<open>pton\<close>.

  The locale \<open>socket_owner\<close> is the discipline of a class with constructors, moves and a destructor that owns at
  most one descriptor; the three classes are instances of it.
\<close>

section \<open>System calls\<close>

type_synonym pton = "string \<Rightarrow> u32 option"

record sockaddr_in =
  sin_addr :: u32
  sin_port :: u16

datatype syscall =
    Sys_socket int
  | Sys_close int
  | Sys_sendto int bytes sockaddr_in int
  | Sys_bind int sockaddr_in int
  | Sys_getsockname int
  | Sys_setsockopt int int
  | Sys_recv int nat int

text \<open>The set of open descriptors after a call, and what a call on a descriptor needs.\<close>

fun sys_effect :: "syscall \<Rightarrow> int set \<Rightarrow> int set" where
  "sys_effect (Sys_socket r) fds = (if 0 \<le> r then insert r fds else fds)"
| "sys_effect (Sys_close fd) fds = fds - {fd}"
| "sys_effect _ fds = fds"

fun sys_ok :: "syscall \<Rightarrow> int set \<Rightarrow> bool" where
  "sys_ok (Sys_socket r) fds = True"
| "sys_ok (Sys_close fd) fds = (fd \<in> fds)"
| "sys_ok (Sys_sendto fd _ _ _) fds = (fd \<in> fds)"
| "sys_ok (Sys_bind fd _ _) fds = (fd \<in> fds)"
| "sys_ok (Sys_getsockname fd) fds = (fd \<in> fds)"
| "sys_ok (Sys_setsockopt fd _) fds = (fd \<in> fds)"
| "sys_ok (Sys_recv fd _ _) fds = (fd \<in> fds)"

fun open_after :: "syscall list \<Rightarrow> int set \<Rightarrow> int set" where
  "open_after [] fds = fds"
| "open_after (c # cs) fds = open_after cs (sys_effect c fds)"

fun calls_ok :: "syscall list \<Rightarrow> int set \<Rightarrow> bool" where
  "calls_ok [] fds = True"
| "calls_ok (c # cs) fds = (sys_ok c fds \<and> calls_ok cs (sys_effect c fds))"

text \<open>What \<^verbatim>\<open>socket\<close> promises: it never returns a descriptor that is open.\<close>

fun fresh_sockets :: "syscall list \<Rightarrow> int set \<Rightarrow> bool" where
  "fresh_sockets [] fds = True"
| "fresh_sockets (c # cs) fds =
     ((case c of Sys_socket r \<Rightarrow> r \<notin> fds | _ \<Rightarrow> True) \<and> fresh_sockets cs (sys_effect c fds))"

lemma open_after_append [simp]: "open_after (a @ b) fds = open_after b (open_after a fds)"
  by (induction a arbitrary: fds) simp_all

lemma calls_ok_append [simp]: "calls_ok (a @ b) fds \<longleftrightarrow> calls_ok a fds \<and> calls_ok b (open_after a fds)"
  by (induction a arbitrary: fds) auto

lemma fresh_sockets_append [simp]:
  "fresh_sockets (a @ b) fds \<longleftrightarrow> fresh_sockets a fds \<and> fresh_sockets b (open_after a fds)"
  by (induction a arbitrary: fds) auto

section \<open>The kernel backend\<close>

record kernel_udp_config =
  kc_destination_ipv4 :: string
  kc_destination_port :: u16

record kernel_udp_backend =
  ku_config :: kernel_udp_config
  ku_socket_fd :: int
  ku_endpoint_valid :: bool
  ku_manually_closed :: bool

definition ku_is_valid_ipv4 :: "pton \<Rightarrow> string \<Rightarrow> bool" where
  "ku_is_valid_ipv4 pton address \<longleftrightarrow> pton address \<noteq> None"

definition ku_is_valid_endpoint :: "pton \<Rightarrow> kernel_udp_config \<Rightarrow> bool" where
  "ku_is_valid_endpoint pton config \<longleftrightarrow>
     kc_destination_port config \<noteq> 0 \<and> ku_is_valid_ipv4 pton (kc_destination_ipv4 config)"

text \<open>The address stays zero when the text is not an address. The port is kept in host order.\<close>

definition ku_make_destination :: "pton \<Rightarrow> kernel_udp_config \<Rightarrow> sockaddr_in" where
  "ku_make_destination pton config =
     \<lparr>sin_addr = (case pton (kc_destination_ipv4 config) of None \<Rightarrow> 0 | Some a \<Rightarrow> a),
      sin_port = kc_destination_port config\<rparr>"

definition ku_open_socket :: "int \<Rightarrow> kernel_udp_backend \<Rightarrow> syscall list \<times> kernel_udp_backend" where
  "ku_open_socket socket_result kb =
     (if \<not> ku_endpoint_valid kb \<or> ku_manually_closed kb \<or> ku_socket_fd kb \<ge> 0 then ([], kb)
      else ([Sys_socket socket_result], kb\<lparr>ku_socket_fd := socket_result\<rparr>))"

definition ku_close_socket :: "kernel_udp_backend \<Rightarrow> syscall list \<times> kernel_udp_backend" where
  "ku_close_socket kb =
     (if ku_socket_fd kb \<ge> 0 then ([Sys_close (ku_socket_fd kb)], kb\<lparr>ku_socket_fd := -1\<rparr>) else ([], kb))"

definition new_kernel_udp_backend ::
  "pton \<Rightarrow> int \<Rightarrow> kernel_udp_config \<Rightarrow> syscall list \<times> kernel_udp_backend" where
  "new_kernel_udp_backend pton socket_result config =
     ku_open_socket socket_result \<lparr>ku_config = config, ku_socket_fd = -1,
       ku_endpoint_valid = ku_is_valid_endpoint pton config, ku_manually_closed = False\<rparr>"

text \<open>The state a moved-from backend is left in; nothing reads its configuration any more.\<close>

definition ku_moved_from :: "kernel_udp_backend \<Rightarrow> kernel_udp_backend" where
  "ku_moved_from kb = kb\<lparr>ku_socket_fd := -1, ku_endpoint_valid := False, ku_manually_closed := True\<rparr>"

text \<open>The move constructor gives the new object and the moved-from one; assignment closes the target first.\<close>

definition ku_move_construct :: "kernel_udp_backend \<Rightarrow> kernel_udp_backend \<times> kernel_udp_backend" where
  "ku_move_construct other = (other, ku_moved_from other)"

definition ku_move_assign ::
  "kernel_udp_backend \<Rightarrow> kernel_udp_backend \<Rightarrow> syscall list \<times> kernel_udp_backend \<times> kernel_udp_backend" where
  "ku_move_assign this other = (fst (ku_close_socket this), other, ku_moved_from other)"

definition ku_close :: "kernel_udp_backend \<Rightarrow> syscall list \<times> kernel_udp_backend" where
  "ku_close kb = (case ku_close_socket kb of (calls, kb1) \<Rightarrow> (calls, kb1\<lparr>ku_manually_closed := True\<rparr>))"

definition ku_open :: "kernel_udp_backend \<Rightarrow> bool" where
  "ku_open kb \<longleftrightarrow> ku_endpoint_valid kb \<and> \<not> ku_manually_closed kb \<and> ku_socket_fd kb \<ge> 0"

definition ku_submit ::
  "pton \<Rightarrow> int \<Rightarrow> backend_submit_request \<Rightarrow> kernel_udp_backend \<Rightarrow> backend_submit_result \<times> syscall list" where
  "ku_submit pton sent request kb =
     (if bsq_payload request = [] then (make_backend_reject request BR_empty_payload, [])
      else if \<not> ku_endpoint_valid kb then (make_backend_reject request BR_invalid_endpoint, [])
      else if ku_manually_closed kb then (make_backend_reject request BR_backend_closed, [])
      else if ku_socket_fd kb < 0 then (make_backend_reject request BR_socket_error, [])
      else
        let destination = ku_make_destination pton (ku_config kb);
            calls = [Sys_sendto (ku_socket_fd kb) (bsq_payload request) destination sent]
        in if sent < 0 then (make_backend_reject request BR_send_failed, calls)
           else if nat sent \<noteq> length (bsq_payload request) then (make_backend_reject request BR_send_failed, calls)
           else (make_backend_accept request, calls))"

section \<open>The sender\<close>

record udp_sender_config =
  uc_destination_ipv4 :: string
  uc_destination_port :: u16

record udp_send_result =
  us_sent :: bool
  us_bytes_sent :: nat
  us_send_timestamp_ns :: u64

record udp_sender =
  ud_config :: udp_sender_config
  ud_socket_fd :: int
  ud_endpoint_valid :: bool
  ud_manually_closed :: bool

definition ud_is_valid_ipv4 :: "pton \<Rightarrow> string \<Rightarrow> bool" where
  "ud_is_valid_ipv4 pton address \<longleftrightarrow> pton address \<noteq> None"

definition ud_is_valid_endpoint :: "pton \<Rightarrow> udp_sender_config \<Rightarrow> bool" where
  "ud_is_valid_endpoint pton config \<longleftrightarrow>
     uc_destination_port config \<noteq> 0 \<and> ud_is_valid_ipv4 pton (uc_destination_ipv4 config)"

definition ud_make_destination :: "pton \<Rightarrow> udp_sender_config \<Rightarrow> sockaddr_in" where
  "ud_make_destination pton config =
     \<lparr>sin_addr = (case pton (uc_destination_ipv4 config) of None \<Rightarrow> 0 | Some a \<Rightarrow> a),
      sin_port = uc_destination_port config\<rparr>"

definition ud_open_socket :: "int \<Rightarrow> udp_sender \<Rightarrow> syscall list \<times> udp_sender" where
  "ud_open_socket socket_result sd =
     (if \<not> ud_endpoint_valid sd \<or> ud_manually_closed sd \<or> ud_socket_fd sd \<ge> 0 then ([], sd)
      else ([Sys_socket socket_result], sd\<lparr>ud_socket_fd := socket_result\<rparr>))"

definition ud_close_socket :: "udp_sender \<Rightarrow> syscall list \<times> udp_sender" where
  "ud_close_socket sd =
     (if ud_socket_fd sd \<ge> 0 then ([Sys_close (ud_socket_fd sd)], sd\<lparr>ud_socket_fd := -1\<rparr>) else ([], sd))"

definition new_udp_sender :: "pton \<Rightarrow> int \<Rightarrow> udp_sender_config \<Rightarrow> syscall list \<times> udp_sender" where
  "new_udp_sender pton socket_result config =
     ud_open_socket socket_result \<lparr>ud_config = config, ud_socket_fd = -1,
       ud_endpoint_valid = ud_is_valid_endpoint pton config, ud_manually_closed = False\<rparr>"

definition ud_moved_from :: "udp_sender \<Rightarrow> udp_sender" where
  "ud_moved_from sd = sd\<lparr>ud_socket_fd := -1, ud_endpoint_valid := False, ud_manually_closed := True\<rparr>"

definition ud_move_construct :: "udp_sender \<Rightarrow> udp_sender \<times> udp_sender" where
  "ud_move_construct other = (other, ud_moved_from other)"

definition ud_move_assign :: "udp_sender \<Rightarrow> udp_sender \<Rightarrow> syscall list \<times> udp_sender \<times> udp_sender" where
  "ud_move_assign this other = (fst (ud_close_socket this), other, ud_moved_from other)"

definition ud_close :: "udp_sender \<Rightarrow> syscall list \<times> udp_sender" where
  "ud_close sd = (case ud_close_socket sd of (calls, sd1) \<Rightarrow> (calls, sd1\<lparr>ud_manually_closed := True\<rparr>))"

definition ud_open :: "udp_sender \<Rightarrow> bool" where
  "ud_open sd \<longleftrightarrow> ud_endpoint_valid sd \<and> \<not> ud_manually_closed sd \<and> ud_socket_fd sd \<ge> 0"

definition ud_send :: "pton \<Rightarrow> u64 \<Rightarrow> int \<Rightarrow> bytes \<Rightarrow> udp_sender \<Rightarrow> udp_send_result \<times> syscall list" where
  "ud_send pton now sent payload sd =
     (let result = \<lparr>us_sent = False, us_bytes_sent = 0, us_send_timestamp_ns = now\<rparr>
      in if payload = [] \<or> \<not> ud_endpoint_valid sd \<or> ud_manually_closed sd \<or> ud_socket_fd sd < 0 then (result, [])
         else
           let destination = ud_make_destination pton (ud_config sd);
               calls = [Sys_sendto (ud_socket_fd sd) payload destination sent]
           in if sent < 0 then (result, calls)
              else (result\<lparr>us_bytes_sent := nat sent, us_sent := (nat sent = length payload)\<rparr>, calls))"

section \<open>The receiver\<close>

record udp_receiver_config =
  rc_bind_ipv4 :: string
  rc_bind_port :: u16
  rc_enable_kernel_timestamping :: bool

record udp_receive_result =
  ur_received :: bool
  ur_bytes_received :: nat
  ur_receive_timestamp_ns :: u64
  ur_kernel_software_timestamp_available :: bool
  ur_kernel_software_timestamp_ns :: u64
  ur_kernel_hardware_timestamp_available :: bool
  ur_kernel_hardware_timestamp_ns :: u64

definition empty_receive_result :: udp_receive_result where
  "empty_receive_result = \<lparr>ur_received = False, ur_bytes_received = 0, ur_receive_timestamp_ns = 0,
     ur_kernel_software_timestamp_available = False, ur_kernel_software_timestamp_ns = 0,
     ur_kernel_hardware_timestamp_available = False, ur_kernel_hardware_timestamp_ns = 0\<rparr>"

record udp_receiver =
  rv_config :: udp_receiver_config
  rv_socket_fd :: int
  rv_bound_port :: u16
  rv_manually_closed :: bool
  rv_kernel_timestamping_active :: bool

text \<open>A \<^verbatim>\<open>timespec\<close>: seconds and nanoseconds, both signed.\<close>

type_synonym timespec = "int \<times> int"

definition timespec_to_ns :: "timespec \<Rightarrow> u64" where
  "timespec_to_ns v = of_int (fst v) * 1000000000 + of_int (snd v)"

definition timespec_is_set :: "timespec \<Rightarrow> bool" where
  "timespec_is_set v \<longleftrightarrow> fst v \<noteq> 0 \<or> snd v \<noteq> 0"

definition rv_is_valid_bind_address :: "pton \<Rightarrow> string \<Rightarrow> bool" where
  "rv_is_valid_bind_address pton address \<longleftrightarrow> pton address \<noteq> None"

text \<open>What the calls of \<^verbatim>\<open>open_socket\<close> return; \<^verbatim>\<open>getsockname\<close> gives a port or fails.\<close>

record bind_results =
  br_socket :: int
  br_bind :: int
  br_getsockname :: "u16 option"
  br_setsockopt :: int

definition rv_open_socket :: "pton \<Rightarrow> bind_results \<Rightarrow> udp_receiver \<Rightarrow> syscall list \<times> udp_receiver" where
  "rv_open_socket pton os rv =
     (if rv_manually_closed rv \<or> rv_socket_fd rv \<ge> 0 then ([], rv)
      else if \<not> rv_is_valid_bind_address pton (rc_bind_ipv4 (rv_config rv)) then ([], rv)
      else let fd = br_socket os in
        if fd < 0 then ([Sys_socket fd], rv)
        else
          let address = \<lparr>sin_addr = (case pton (rc_bind_ipv4 (rv_config rv)) of None \<Rightarrow> 0 | Some a \<Rightarrow> a),
                         sin_port = rc_bind_port (rv_config rv)\<rparr>;
              calls = [Sys_socket fd, Sys_bind fd address (br_bind os)]
          in if br_bind os \<noteq> 0 then (calls @ [Sys_close fd], rv)
             else
               let calls1 = calls @ [Sys_getsockname fd];
                   rv1 = (case br_getsockname os of None \<Rightarrow> rv | Some port \<Rightarrow> rv\<lparr>rv_bound_port := port\<rparr>);
                   (calls2, rv2) = (if rc_enable_kernel_timestamping (rv_config rv)
                     then (calls1 @ [Sys_setsockopt fd (br_setsockopt os)],
                           rv1\<lparr>rv_kernel_timestamping_active := (br_setsockopt os = 0)\<rparr>)
                     else (calls1, rv1))
               in (calls2, rv2\<lparr>rv_socket_fd := fd\<rparr>))"

definition rv_close_socket :: "udp_receiver \<Rightarrow> syscall list \<times> udp_receiver" where
  "rv_close_socket rv =
     (if rv_socket_fd rv \<ge> 0 then ([Sys_close (rv_socket_fd rv)], rv\<lparr>rv_socket_fd := -1\<rparr>) else ([], rv))"

definition new_udp_receiver :: "pton \<Rightarrow> bind_results \<Rightarrow> udp_receiver_config \<Rightarrow> syscall list \<times> udp_receiver" where
  "new_udp_receiver pton os config =
     rv_open_socket pton os \<lparr>rv_config = config, rv_socket_fd = -1, rv_bound_port = 0, rv_manually_closed = False,
       rv_kernel_timestamping_active = False\<rparr>"

definition rv_moved_from :: "udp_receiver \<Rightarrow> udp_receiver" where
  "rv_moved_from rv = rv\<lparr>rv_socket_fd := -1, rv_bound_port := 0, rv_manually_closed := True,
     rv_kernel_timestamping_active := False\<rparr>"

definition rv_move_construct :: "udp_receiver \<Rightarrow> udp_receiver \<times> udp_receiver" where
  "rv_move_construct other = (other, rv_moved_from other)"

definition rv_move_assign :: "udp_receiver \<Rightarrow> udp_receiver \<Rightarrow> syscall list \<times> udp_receiver \<times> udp_receiver" where
  "rv_move_assign this other = (fst (rv_close_socket this), other, rv_moved_from other)"

definition rv_close :: "udp_receiver \<Rightarrow> syscall list \<times> udp_receiver" where
  "rv_close rv = (case rv_close_socket rv of (calls, rv1) \<Rightarrow> (calls, rv1\<lparr>rv_manually_closed := True\<rparr>))"

definition rv_open :: "udp_receiver \<Rightarrow> bool" where
  "rv_open rv \<longleftrightarrow> \<not> rv_manually_closed rv \<and> rv_socket_fd rv \<ge> 0"

text \<open>
  A control message: whether it carries time stamps (level \<^verbatim>\<open>SOL_SOCKET\<close>, type \<^verbatim>\<open>SCM_TIMESTAMPING\<close>), and the
  three of them. The loop over the messages stops at the first that does.\<close>

record control_message =
  cm_is_timestamping :: bool
  cm_timestamps :: "timespec \<times> timespec \<times> timespec"

definition rv_take_timestamps :: "control_message \<Rightarrow> udp_receive_result \<Rightarrow> udp_receive_result" where
  "rv_take_timestamps cmsg result =
     (case cm_timestamps cmsg of (t0, t1, t2) \<Rightarrow>
        let result1 = (if timespec_is_set t2
              then result\<lparr>ur_kernel_hardware_timestamp_available := True,
                          ur_kernel_hardware_timestamp_ns := timespec_to_ns t2\<rparr> else result)
        in if timespec_is_set t0
           then result1\<lparr>ur_kernel_software_timestamp_available := True,
                        ur_kernel_software_timestamp_ns := timespec_to_ns t0\<rparr> else result1)"

fun rv_scan_control :: "control_message list \<Rightarrow> udp_receive_result \<Rightarrow> udp_receive_result" where
  "rv_scan_control [] result = result"
| "rv_scan_control (cmsg # rest) result =
     (if \<not> cm_is_timestamping cmsg then rv_scan_control rest result else rv_take_timestamps cmsg result)"

text \<open>The arguments are the size of the buffer, the result of the call and the time read after it.\<close>

definition rv_receive_plain ::
  "nat \<Rightarrow> int \<Rightarrow> u64 \<Rightarrow> udp_receiver \<Rightarrow> udp_receive_result \<times> syscall list" where
  "rv_receive_plain buffer_size received now rv =
     (let calls = [Sys_recv (rv_socket_fd rv) buffer_size received];
          result = empty_receive_result\<lparr>ur_receive_timestamp_ns := now\<rparr>
      in if received < 0 then (result, calls)
         else (result\<lparr>ur_received := True, ur_bytes_received := nat received\<rparr>, calls))"

definition rv_receive_with_kernel_timestamps ::
  "nat \<Rightarrow> int \<Rightarrow> control_message list \<Rightarrow> u64 \<Rightarrow> udp_receiver \<Rightarrow> udp_receive_result \<times> syscall list" where
  "rv_receive_with_kernel_timestamps buffer_size received control now rv =
     (let calls = [Sys_recv (rv_socket_fd rv) buffer_size received];
          result = empty_receive_result\<lparr>ur_receive_timestamp_ns := now\<rparr>
      in if received < 0 then (result, calls)
         else (rv_scan_control control (result\<lparr>ur_received := True, ur_bytes_received := nat received\<rparr>), calls))"

definition rv_receive ::
  "nat \<Rightarrow> int \<Rightarrow> control_message list \<Rightarrow> u64 \<Rightarrow> udp_receiver \<Rightarrow> udp_receive_result \<times> syscall list" where
  "rv_receive buffer_size received control now rv =
     (if buffer_size = 0 \<or> rv_manually_closed rv \<or> rv_socket_fd rv < 0 then (empty_receive_result, [])
      else if rv_kernel_timestamping_active rv
      then rv_receive_with_kernel_timestamps buffer_size received control now rv
      else rv_receive_plain buffer_size received now rv)"

section \<open>Ownership of descriptors\<close>

text \<open>
  A class whose objects own at most one descriptor: the descriptor of an object, what its constructors can make, what
  its member functions can do, its move constructor (the new object and what is left of the old), its move assignment
  (the calls, the assigned object and what is left of the other) and the calls of its destructor.\<close>

record 'o socket_class =
  sc_fd :: "'o \<Rightarrow> int"
  sc_makes :: "syscall list \<Rightarrow> 'o \<Rightarrow> bool"
  sc_acts :: "'o \<Rightarrow> syscall list \<Rightarrow> 'o \<Rightarrow> bool"
  sc_move_construct :: "'o \<Rightarrow> 'o \<times> 'o"
  sc_move_assign :: "'o \<Rightarrow> 'o \<Rightarrow> syscall list \<times> 'o \<times> 'o"
  sc_cleanup :: "'o \<Rightarrow> syscall list"

text \<open>
  Every program over objects of a class: they are constructed, used, moved into new or existing objects, and destroyed,
  in any order. The list has all system calls made so far.\<close>

inductive owner_run :: "('o, 'z) socket_class_scheme \<Rightarrow> (nat \<rightharpoonup> 'o) \<Rightarrow> syscall list \<Rightarrow> bool" for C where
  run_start: "owner_run C Map.empty []"
| run_construct: "owner_run C objs calls \<Longrightarrow> objs i = None \<Longrightarrow> sc_makes C new ob \<Longrightarrow>
     owner_run C (objs(i \<mapsto> ob)) (calls @ new)"
| run_act: "owner_run C objs calls \<Longrightarrow> objs i = Some ob \<Longrightarrow> sc_acts C ob new ob' \<Longrightarrow>
     owner_run C (objs(i \<mapsto> ob')) (calls @ new)"
| run_move_construct: "owner_run C objs calls \<Longrightarrow> objs i = Some ob \<Longrightarrow> objs j = None \<Longrightarrow>
     sc_move_construct C ob = (ob', rest) \<Longrightarrow> owner_run C (objs(i \<mapsto> rest, j \<mapsto> ob')) calls"
| run_move_assign: "owner_run C objs calls \<Longrightarrow> objs i = Some ob \<Longrightarrow> objs j = Some this \<Longrightarrow> i \<noteq> j \<Longrightarrow>
     sc_move_assign C this ob = (new, ob', rest) \<Longrightarrow> owner_run C (objs(i \<mapsto> rest, j \<mapsto> ob')) (calls @ new)"
| run_destroy: "owner_run C objs calls \<Longrightarrow> objs i = Some ob \<Longrightarrow>
     owner_run C (objs(i := None)) (calls @ sc_cleanup C ob)"

text \<open>The descriptors that objects own, and that no two objects own the same.\<close>

definition owned :: "('o \<Rightarrow> int) \<Rightarrow> (nat \<rightharpoonup> 'o) \<Rightarrow> int set" where
  "owned fd objs = {fd ob | i ob. objs i = Some ob \<and> 0 \<le> fd ob}"

definition sole_owners :: "('o \<Rightarrow> int) \<Rightarrow> (nat \<rightharpoonup> 'o) \<Rightarrow> bool" where
  "sole_owners fd objs \<longleftrightarrow> (\<forall>i j a b. objs i = Some a \<and> objs j = Some b \<and> 0 \<le> fd a \<and> fd a = fd b \<longrightarrow> i = j)"

locale socket_owner =
  fixes C :: "('o, 'z) socket_class_scheme"
  assumes move_construct: "sc_move_construct C ob = (ob', rest) \<Longrightarrow> sc_fd C ob' = sc_fd C ob \<and> sc_fd C rest < 0"
    and move_assign: "sc_move_assign C this ob = (new, ob', rest) \<Longrightarrow>
      new = sc_cleanup C this \<and> sc_fd C ob' = sc_fd C ob \<and> sc_fd C rest < 0"
    and cleanup: "sc_cleanup C ob = (if 0 \<le> sc_fd C ob then [Sys_close (sc_fd C ob)] else [])"
    and makes: "sc_makes C new ob \<Longrightarrow> fresh_sockets new fds \<Longrightarrow> calls_ok new fds
      \<and> open_after new fds = (if 0 \<le> sc_fd C ob then insert (sc_fd C ob) fds else fds)
      \<and> (0 \<le> sc_fd C ob \<longrightarrow> sc_fd C ob \<notin> fds)"
    and acts: "sc_acts C ob new ob' \<Longrightarrow> (0 \<le> sc_fd C ob \<Longrightarrow> sc_fd C ob \<in> fds) \<Longrightarrow> calls_ok new fds
      \<and> (if 0 \<le> sc_fd C ob' then sc_fd C ob' = sc_fd C ob \<and> open_after new fds = fds
         else open_after new fds = (if 0 \<le> sc_fd C ob then fds - {sc_fd C ob} else fds))"
begin

lemma owned_remove:
  assumes "sole_owners (sc_fd C) objs" "objs i = Some ob"
  shows "owned (sc_fd C) (objs(i := None)) =
    (if 0 \<le> sc_fd C ob then owned (sc_fd C) objs - {sc_fd C ob} else owned (sc_fd C) objs)"
  using assms unfolding owned_def sole_owners_def by (auto split: if_splits) (metis option.inject)+

lemma owned_insert:
  "objs i = None \<Longrightarrow> owned (sc_fd C) (objs(i \<mapsto> ob)) =
    (if 0 \<le> sc_fd C ob then insert (sc_fd C ob) (owned (sc_fd C) objs) else owned (sc_fd C) objs)"
  unfolding owned_def by (auto split: if_splits) (metis option.distinct(1))+

lemma sole_remove: "sole_owners (sc_fd C) objs \<Longrightarrow> sole_owners (sc_fd C) (objs(i := None))"
  by (auto simp: sole_owners_def)

lemma sole_insert:
  "sole_owners (sc_fd C) objs \<Longrightarrow> objs i = None \<Longrightarrow> sc_fd C ob \<notin> owned (sc_fd C) objs \<Longrightarrow>
   sole_owners (sc_fd C) (objs(i \<mapsto> ob))"
  by (fastforce simp: sole_owners_def owned_def split: if_splits)

lemma upd_via_remove: "objs(i \<mapsto> x) = (objs(i := None))(i \<mapsto> x)"
  by simp

definition good :: "(nat \<rightharpoonup> 'o) \<Rightarrow> syscall list \<Rightarrow> bool" where
  "good objs calls \<longleftrightarrow> calls_ok calls {} \<and> open_after calls {} = owned (sc_fd C) objs \<and> sole_owners (sc_fd C) objs"

lemma good_act:
  assumes "good objs calls" "objs i = Some ob" "sc_acts C ob new ob'"
  shows "good (objs(i \<mapsto> ob')) (calls @ new)"
proof -
  let ?fds = "owned (sc_fd C) objs"
  have g: "calls_ok calls {}" "open_after calls {} = ?fds" "sole_owners (sc_fd C) objs"
    using assms(1) by (simp_all add: good_def)
  have mem: "sc_fd C ob \<in> ?fds" if "0 \<le> sc_fd C ob" using that assms(2) by (auto simp: owned_def)
  note a = acts [OF assms(3) mem]
  note rm = owned_remove [OF g(3) assms(2)]
  have "sc_fd C ob' \<notin> owned (sc_fd C) (objs(i := None))"
  proof (cases "0 \<le> sc_fd C ob'")
    case True
    with a have "sc_fd C ob' = sc_fd C ob" by simp
    with rm True show ?thesis by simp
  next
    case False
    then show ?thesis by (auto simp: owned_def)
  qed
  then have s: "sole_owners (sc_fd C) (objs(i \<mapsto> ob'))"
    using sole_insert [where objs = "objs(i := None)" and i = i and ob = ob'] sole_remove [OF g(3), of i] by simp
  have "open_after new ?fds = owned (sc_fd C) (objs(i \<mapsto> ob'))"
    using a rm owned_insert [of "objs(i := None)" i ob'] mem by (auto split: if_splits)
  with a g s show ?thesis by (simp add: good_def)
qed

lemma good_construct:
  assumes "good objs calls" "objs i = None" "sc_makes C new ob" "fresh_sockets new (open_after calls {})"
  shows "good (objs(i \<mapsto> ob)) (calls @ new)"
proof -
  let ?fds = "owned (sc_fd C) objs"
  have g: "calls_ok calls {}" "open_after calls {} = ?fds" "sole_owners (sc_fd C) objs"
    using assms(1) by (simp_all add: good_def)
  note m = makes [OF assms(3), of ?fds]
  have "sc_fd C ob \<notin> ?fds" using m assms(4) g(2) by (cases "0 \<le> sc_fd C ob") (auto simp: owned_def)
  then have "sole_owners (sc_fd C) (objs(i \<mapsto> ob))" using g(3) assms(2) by (intro sole_insert)
  with m g assms(4) owned_insert [where objs = objs and i = i and ob = ob] assms(2) show ?thesis by (simp add: good_def)
qed

lemma good_destroy:
  assumes "good objs calls" "objs i = Some ob"
  shows "good (objs(i := None)) (calls @ sc_cleanup C ob)"
proof -
  have g: "sole_owners (sc_fd C) objs" using assms(1) by (simp add: good_def)
  have "sc_fd C ob \<in> owned (sc_fd C) objs" if "0 \<le> sc_fd C ob" using that assms(2) by (auto simp: owned_def)
  with assms(1) sole_remove [OF g, of i] owned_remove [OF g assms(2)] show ?thesis
    by (auto simp: good_def cleanup)
qed

lemma good_move:
  assumes "good objs calls" "objs i = Some ob" "objs j = None" and fd: "sc_fd C ob' = sc_fd C ob" "sc_fd C rest < 0"
  shows "good (objs(i \<mapsto> rest, j \<mapsto> ob')) calls"
proof -
  have ij: "i \<noteq> j" using assms by auto
  have g: "sole_owners (sc_fd C) objs" using assms(1) by (simp add: good_def)
  let ?o = "objs(i := None)" and ?m = "objs(i \<mapsto> rest)"
  have m: "owned (sc_fd C) ?m = owned (sc_fd C) ?o" "sole_owners (sc_fd C) ?m"
    using owned_insert [of ?o i rest] sole_insert [OF sole_remove [OF g, of i], of i rest] fd(2)
    by (auto simp: owned_def)
  have notin: "sc_fd C ob' \<notin> owned (sc_fd C) ?m"
    using owned_remove [OF g assms(2)] m(1) fd(1) by (auto simp: owned_def split: if_splits)
  have "owned (sc_fd C) (?m(j \<mapsto> ob')) = owned (sc_fd C) objs"
    using owned_insert [of ?m j ob'] assms(3) ij m(1) owned_remove [OF g assms(2)] assms(2) fd(1)
    by (auto simp: owned_def split: if_splits)
  moreover have "sole_owners (sc_fd C) (?m(j \<mapsto> ob'))" using sole_insert [OF m(2) _ notin, of j] assms(3) ij by simp
  ultimately show ?thesis using assms(1) by (simp add: good_def)
qed

lemma run_good: "owner_run C objs calls \<Longrightarrow> fresh_sockets calls {} \<Longrightarrow> good objs calls"
proof (induction rule: owner_run.induct)
  case run_start
  show ?case by (simp add: good_def owned_def sole_owners_def)
next
  case (run_construct objs calls i new ob)
  then show ?case by (intro good_construct) simp_all
next
  case (run_act objs calls i ob new ob')
  then show ?case by (intro good_act) simp_all
next
  case (run_move_construct objs calls i ob j ob' rest)
  then show ?case using move_construct [of ob ob' rest] by (intro good_move) simp_all
next
  case (run_move_assign objs calls i ob j this new ob' rest)
  note m = move_assign [OF run_move_assign.hyps(5)]
  have "good (objs(j := None)) (calls @ new)" using run_move_assign m by (auto intro: good_destroy)
  from good_move [OF this, of i ob j ob' rest] run_move_assign.hyps m
  have "good (objs(j := None, i \<mapsto> rest, j \<mapsto> ob')) (calls @ new)" by simp
  moreover have "objs(j := None, i \<mapsto> rest, j \<mapsto> ob') = objs(i \<mapsto> rest, j \<mapsto> ob')" by auto
  ultimately show ?case by (simp only:)
next
  case (run_destroy objs calls i ob)
  then show ?case by (intro good_destroy) simp_all
qed

text \<open>No call ever uses a descriptor that is not open, and the open descriptors are those owned by an object.\<close>

lemma descriptors_safe:
  assumes "owner_run C objs calls" "fresh_sockets calls {}"
  shows "calls_ok calls {} \<and> open_after calls {} = owned (sc_fd C) objs \<and> sole_owners (sc_fd C) objs"
  using run_good [OF assms] by (simp add: good_def)

end

section \<open>The three classes\<close>

definition kernel_udp_class :: "pton \<Rightarrow> kernel_udp_backend socket_class" where
  "kernel_udp_class pton = \<lparr>sc_fd = ku_socket_fd,
     sc_makes = (\<lambda>calls kb. \<exists>r config. new_kernel_udp_backend pton r config = (calls, kb)),
     sc_acts = (\<lambda>kb calls kb'. (kb' = kb \<and> (\<exists>sent request. calls = snd (ku_submit pton sent request kb)))
       \<or> ku_close kb = (calls, kb')),
     sc_move_construct = ku_move_construct, sc_move_assign = ku_move_assign, sc_cleanup = (\<lambda>kb. fst (ku_close_socket kb))\<rparr>"

definition udp_sender_class :: "pton \<Rightarrow> udp_sender socket_class" where
  "udp_sender_class pton = \<lparr>sc_fd = ud_socket_fd,
     sc_makes = (\<lambda>calls sd. \<exists>r config. new_udp_sender pton r config = (calls, sd)),
     sc_acts = (\<lambda>sd calls sd'. (sd' = sd \<and> (\<exists>now sent payload. calls = snd (ud_send pton now sent payload sd)))
       \<or> ud_close sd = (calls, sd')),
     sc_move_construct = ud_move_construct, sc_move_assign = ud_move_assign, sc_cleanup = (\<lambda>sd. fst (ud_close_socket sd))\<rparr>"

definition udp_receiver_class :: "pton \<Rightarrow> udp_receiver socket_class" where
  "udp_receiver_class pton = \<lparr>sc_fd = rv_socket_fd,
     sc_makes = (\<lambda>calls rv. \<exists>os config. new_udp_receiver pton os config = (calls, rv)),
     sc_acts = (\<lambda>rv calls rv'.
       (rv' = rv \<and> (\<exists>n received control now. calls = snd (rv_receive n received control now rv)))
       \<or> rv_close rv = (calls, rv')),
     sc_move_construct = rv_move_construct, sc_move_assign = rv_move_assign, sc_cleanup = (\<lambda>rv. fst (rv_close_socket rv))\<rparr>"

lemmas kernel_udp_defs = kernel_udp_class_def new_kernel_udp_backend_def ku_open_socket_def ku_submit_def ku_close_def
  ku_close_socket_def ku_moved_from_def ku_move_construct_def ku_move_assign_def Let_def
lemmas udp_sender_defs = udp_sender_class_def new_udp_sender_def ud_open_socket_def ud_send_def ud_close_def
  ud_close_socket_def ud_moved_from_def ud_move_construct_def ud_move_assign_def Let_def
lemmas udp_receiver_defs = udp_receiver_class_def new_udp_receiver_def rv_open_socket_def rv_receive_def
  rv_receive_plain_def rv_receive_with_kernel_timestamps_def rv_close_def rv_close_socket_def rv_moved_from_def
  rv_move_construct_def rv_move_assign_def Let_def

interpretation kernel_owner: socket_owner "kernel_udp_class pton" for pton
  by unfold_locales (auto simp: kernel_udp_defs split: if_splits)

interpretation sender_owner: socket_owner "udp_sender_class pton" for pton
  by unfold_locales (auto simp: udp_sender_defs split: if_splits)

interpretation receiver_owner: socket_owner "udp_receiver_class pton" for pton
  by unfold_locales (auto simp: udp_receiver_defs split: if_splits option.splits prod.splits)

section \<open>Properties\<close>

text \<open>
  C30: The descriptors of the kernel backend, the sender and the receiver are handled correctly in every program
  that constructs objects of these classes, uses them, moves them into new and into existing objects by the move
  constructor and the move assignment of the class, closes and destroys them, as long as \<^verbatim>\<open>socket\<close> returns
  descriptors that are not in use. No call is ever made on a descriptor that is not open, so none is closed twice or
  used after it was closed; no two objects own the same descriptor; and the open descriptors are exactly those an
  object owns, so nothing is leaked, also on the paths where binding fails.\<close>

theorem udp_descriptors_safe:
  assumes "fresh_sockets calls {}"
  shows "(owner_run (kernel_udp_class pton) backends calls \<longrightarrow> calls_ok calls {}
      \<and> open_after calls {} = owned ku_socket_fd backends \<and> sole_owners ku_socket_fd backends)
    \<and> (owner_run (udp_sender_class pton) senders calls \<longrightarrow> calls_ok calls {}
      \<and> open_after calls {} = owned ud_socket_fd senders \<and> sole_owners ud_socket_fd senders)
    \<and> (owner_run (udp_receiver_class pton) receivers calls \<longrightarrow> calls_ok calls {}
      \<and> open_after calls {} = owned rv_socket_fd receivers \<and> sole_owners rv_socket_fd receivers)"
  using kernel_owner.descriptors_safe [OF _ assms, of pton] sender_owner.descriptors_safe [OF _ assms, of pton]
    receiver_owner.descriptors_safe [OF _ assms, of pton]
  by (simp add: kernel_udp_class_def udp_sender_class_def udp_receiver_class_def)

text \<open>
  Exactly when the kernel backend accepts a request: it has a payload, the endpoint is valid, the backend was not
  closed and has a socket, and \<^verbatim>\<open>sendto\<close> reports that it took the whole payload. It calls \<^verbatim>\<open>sendto\<close> at most once,
  with the payload unchanged, to the configured address, and not at all on any other path.\<close>

theorem kernel_udp_submit_exact:
  "ku_submit pton sent request kb = (r, calls) \<Longrightarrow>
     (bsr_decision r = BSD_accepted \<longleftrightarrow> bsq_payload request \<noteq> [] \<and> ku_open kb \<and> sent = int (length (bsq_payload request)))
     \<and> calls = (if bsq_payload request \<noteq> [] \<and> ku_open kb
         then [Sys_sendto (ku_socket_fd kb) (bsq_payload request) (ku_make_destination pton (ku_config kb)) sent] else [])
     \<and> (bsr_decision r = BSD_accepted \<longleftrightarrow> bsr_reject_reason r = BR_none)"
  by (auto simp: ku_submit_def ku_open_def make_backend_accept_def make_backend_reject_def Let_def split: if_splits)

definition sample_pton :: pton where
  "sample_pton s = (if s = ''127.0.0.1'' then Some 0x7F000001 else None)"

definition sample_kernel_config :: kernel_udp_config where
  "sample_kernel_config = \<lparr>kc_destination_ipv4 = ''127.0.0.1'', kc_destination_port = 9000\<rparr>"

definition sample_kernel :: kernel_udp_backend where
  "sample_kernel = snd (new_kernel_udp_backend sample_pton 3 sample_kernel_config)"

lemma sample_kernel_new: "new_kernel_udp_backend sample_pton 3 sample_kernel_config = ([Sys_socket 3], sample_kernel)"
  "ku_socket_fd sample_kernel = 3" "ku_open sample_kernel"
  by (simp_all add: sample_kernel_def sample_kernel_config_def sample_pton_def new_kernel_udp_backend_def ku_open_socket_def
    ku_is_valid_endpoint_def ku_is_valid_ipv4_def ku_open_def)

text \<open>Two backends, one assigned to the other: the descriptor of the target is closed, the other one stays open.\<close>

definition sample_kernel4 :: kernel_udp_backend where
  "sample_kernel4 = snd (new_kernel_udp_backend sample_pton 4 sample_kernel_config)"

definition sample_backends :: "nat \<rightharpoonup> kernel_udp_backend" where
  "sample_backends = [0 \<mapsto> ku_moved_from sample_kernel, 1 \<mapsto> sample_kernel]"

lemma sample_backends_run:
  "owner_run (kernel_udp_class sample_pton) sample_backends [Sys_socket 3, Sys_socket 4, Sys_close 4]"
proof -
  let ?C = "kernel_udp_class sample_pton"
  have four: "new_kernel_udp_backend sample_pton 4 sample_kernel_config = ([Sys_socket 4], sample_kernel4)"
    "ku_socket_fd sample_kernel4 = 4"
    by (simp_all add: sample_kernel4_def sample_kernel_config_def sample_pton_def new_kernel_udp_backend_def ku_open_socket_def
      ku_is_valid_endpoint_def ku_is_valid_ipv4_def)
  have makes: "sc_makes ?C [Sys_socket 3] sample_kernel" "sc_makes ?C [Sys_socket 4] sample_kernel4"
    using sample_kernel_new(1) four(1) by (auto simp: kernel_udp_class_def)
  have "owner_run ?C [0 \<mapsto> sample_kernel] [Sys_socket 3]"
    using run_construct [OF run_start _ makes(1), of 0] by simp
  from run_construct [OF this _ makes(2), of 1]
  have two: "owner_run ?C [0 \<mapsto> sample_kernel, 1 \<mapsto> sample_kernel4] [Sys_socket 3, Sys_socket 4]" by simp
  have "sc_move_assign ?C sample_kernel4 sample_kernel = ([Sys_close 4], sample_kernel, ku_moved_from sample_kernel)"
    using four(2) by (simp add: kernel_udp_class_def ku_move_assign_def ku_close_socket_def)
  from run_move_assign [OF two _ _ _ this, of 0 1] show ?thesis by (simp add: sample_backends_def fun_upd_twist)
qed

theorem udp_descriptors_safe_witness:
  "open_after [Sys_socket 3, Sys_socket 4, Sys_close 4] {} = owned ku_socket_fd sample_backends
   \<and> sole_owners ku_socket_fd sample_backends"
proof -
  have "fresh_sockets [Sys_socket 3, Sys_socket 4, Sys_close 4] {}" by simp
  from udp_descriptors_safe [OF this, of sample_pton sample_backends Map.empty Map.empty] sample_backends_run
  show ?thesis by blast
qed

theorem kernel_udp_submit_exact_witness:
  "bsr_decision (fst (ku_submit sample_pton 3 sample_request sample_kernel)) = BSD_accepted"
  using kernel_udp_submit_exact [of sample_pton 3 sample_request sample_kernel
    "fst (ku_submit sample_pton 3 sample_request sample_kernel)"
    "snd (ku_submit sample_pton 3 sample_request sample_kernel)"] sample_kernel_new(3)
  by (simp add: sample_request_def)

end
