(* ===== verification/Backend_Factory.thy ===== *)
theory Backend_Factory
  imports Udp_Sockets
begin

text \<open>
  The remaining backends and the factory: \<^verbatim>\<open>src/execution/afxdp_backend.cpp\<close>, \<^verbatim>\<open>dpdk_backend.cpp\<close> and
  \<^verbatim>\<open>backend_factory.cpp\<close>.

  DPDK is a library outside the program; as with the system calls of theory \<open>Udp_Sockets\<close>, the results of its
  functions are arguments and the calls made are part of the result. Whether it was compiled in
  (\<^verbatim>\<open>FGEP_HAVE_DPDK\<close>) is the argument \<open>have_dpdk\<close>. A packet buffer is an area of \<open>room\<close> bytes from its data
  start on; writing beyond it is undefined behaviour, and the operation then has the outcome \<^const>\<open>None\<close>.
\<close>

section \<open>AF\_XDP\<close>

record afxdp_config =
  ac_interface_name :: string
  ac_queue_id :: u32
  ac_umem_frame_count :: nat
  ac_umem_frame_size :: nat
  ac_tx_batch_size :: nat

record afxdp_backend =
  ax_config :: afxdp_config
  ax_configured :: bool
  ax_open :: bool

definition ax_is_valid_config :: "afxdp_config \<Rightarrow> bool" where
  "ax_is_valid_config config \<longleftrightarrow> ac_interface_name config \<noteq> [] \<and> ac_umem_frame_count config \<noteq> 0
     \<and> ac_umem_frame_size config \<ge> 2048 \<and> ac_tx_batch_size config \<noteq> 0"

definition new_afxdp_backend :: "afxdp_config \<Rightarrow> afxdp_backend" where
  "new_afxdp_backend config = \<lparr>ax_config = config, ax_configured = ax_is_valid_config config, ax_open = False\<rparr>"

definition ax_submit :: "afxdp_backend submitter" where
  "ax_submit request ax =
     (if bsq_payload request = [] then (make_backend_reject request BR_empty_payload, ax)
      else if \<not> ax_configured ax then (make_backend_reject request BR_invalid_endpoint, ax)
      else (make_backend_reject request BR_unsupported_backend, ax))"

definition ax_close :: "afxdp_backend \<Rightarrow> afxdp_backend" where
  "ax_close ax = ax\<lparr>ax_open := False\<rparr>"

section \<open>DPDK\<close>

type_synonym mac_address = "u8 list"

record dpdk_config =
  dc_eal_args :: "string list"
  dc_port_id :: u16
  dc_queue_id :: u16
  dc_socket_id :: int
  dc_tx_desc_count :: u16
  dc_burst_size :: u16
  dc_mbuf_pool_size :: nat
  dc_mbuf_cache_size :: u16
  dc_destination_mac :: mac_address
  dc_source_mac :: mac_address
  dc_ether_type :: u16

record dpdk_backend =
  dp_config :: dpdk_config
  dp_configured :: bool
  dp_open :: bool
  dp_mbuf_pool :: bool

text \<open>What the functions of the library return when the backend is initialised; the flag is the static of
  \<^verbatim>\<open>ensure_eal_initialized\<close>.\<close>

record dpdk_env =
  de_eal_initialized :: bool
  de_eal_init :: int
  de_available_ports :: u16
  de_pool_create :: bool
  de_dev_socket_id :: int
  de_current_socket :: u32
  de_dev_configure :: int
  de_tx_queue_setup :: int
  de_dev_start :: int

datatype rte_call =
    Rte_eal_init "string list"
  | Rte_pool_create u32 u16 int
  | Rte_dev_configure u16
  | Rte_tx_queue_setup u16 u16 u16 nat
  | Rte_dev_start u16
  | Rte_dev_stop u16
  | Rte_mempool_free
  | Rte_pktmbuf_alloc
  | Rte_pktmbuf_append u16
  | Rte_pktmbuf_free
  | Rte_tx_burst u16 u16 bytes

definition dp_is_valid_config :: "dpdk_config \<Rightarrow> bool" where
  "dp_is_valid_config config \<longleftrightarrow> dc_burst_size config \<noteq> 0 \<and> dc_mbuf_pool_size config \<noteq> 0
     \<and> dc_tx_desc_count config \<noteq> 0 \<and> dc_socket_id config \<ge> -1 \<and> length (dc_eal_args config) \<ge> 1"

definition ensure_eal_initialized :: "dpdk_env \<Rightarrow> string list \<Rightarrow> bool \<times> rte_call list" where
  "ensure_eal_initialized env eal_args =
     (if de_eal_initialized env then (True, [])
      else (if de_eal_init env < 0 then False else True, [Rte_eal_init eal_args]))"

definition fallback_socket_id :: "dpdk_env \<Rightarrow> int" where
  "fallback_socket_id env =
     (let current_socket = de_current_socket env
      in if uint current_socket > 2147483647 then 0 else uint current_socket)"

definition resolve_socket_id :: "dpdk_env \<Rightarrow> dpdk_config \<Rightarrow> int" where
  "resolve_socket_id env config =
     (if dc_socket_id config \<ge> 0 then dc_socket_id config
      else if de_dev_socket_id env \<ge> 0 then de_dev_socket_id env
      else fallback_socket_id env)"

definition queue_socket_id :: "dpdk_env \<Rightarrow> dpdk_config \<Rightarrow> nat" where
  "queue_socket_id env config =
     (let socket = resolve_socket_id env config in if socket < 0 then 0 else nat socket)"

definition configure_port :: "dpdk_env \<Rightarrow> dpdk_config \<Rightarrow> bool \<times> rte_call list" where
  "configure_port env config =
     (let c1 = [Rte_dev_configure (dc_port_id config)]
      in if de_dev_configure env < 0 then (False, c1)
         else
           let c2 = c1 @ [Rte_tx_queue_setup (dc_port_id config) (dc_queue_id config) (dc_tx_desc_count config)
                            (queue_socket_id env config)]
           in if de_tx_queue_setup env < 0 then (False, c2)
              else
                let c3 = c2 @ [Rte_dev_start (dc_port_id config)]
                in if de_dev_start env < 0 then (False, c3) else (True, c3))"

definition dp_cleanup :: "bool \<Rightarrow> dpdk_backend \<Rightarrow> rte_call list \<times> dpdk_backend" where
  "dp_cleanup have_dpdk db =
     (if have_dpdk
      then ((if dp_open db then [Rte_dev_stop (dc_port_id (dp_config db))] else [])
              @ (if dp_mbuf_pool db then [Rte_mempool_free] else []),
            db\<lparr>dp_mbuf_pool := False, dp_open := False\<rparr>)
      else ([], db\<lparr>dp_open := False\<rparr>))"

definition dp_initialize :: "bool \<Rightarrow> dpdk_env \<Rightarrow> dpdk_backend \<Rightarrow> rte_call list \<times> dpdk_backend" where
  "dp_initialize have_dpdk env db =
     (if \<not> dp_configured db then ([], db)
      else if \<not> have_dpdk then ([], db\<lparr>dp_open := False\<rparr>)
      else case ensure_eal_initialized env (dc_eal_args (dp_config db)) of (eal_ok, c1) \<Rightarrow>
        if \<not> eal_ok then (c1, db\<lparr>dp_open := False\<rparr>)
        else if dc_port_id (dp_config db) \<ge> de_available_ports env then (c1, db\<lparr>dp_open := False\<rparr>)
        else
          let c2 = c1 @ [Rte_pool_create (of_nat (dc_mbuf_pool_size (dp_config db))) (dc_mbuf_cache_size (dp_config db))
                           (resolve_socket_id env (dp_config db))]
          in if \<not> de_pool_create env then (c2, db\<lparr>dp_open := False\<rparr>)
             else
               let db1 = db\<lparr>dp_mbuf_pool := True\<rparr>
               in case configure_port env (dp_config db1) of (port_ok, c3) \<Rightarrow>
                    if \<not> port_ok then (case dp_cleanup have_dpdk db1 of (c4, db2) \<Rightarrow> (c2 @ c3 @ c4, db2))
                    else (c2 @ c3, db1\<lparr>dp_open := True\<rparr>))"

definition new_dpdk_backend :: "bool \<Rightarrow> dpdk_env \<Rightarrow> dpdk_config \<Rightarrow> rte_call list \<times> dpdk_backend" where
  "new_dpdk_backend have_dpdk env config =
     dp_initialize have_dpdk env \<lparr>dp_config = config, dp_configured = dp_is_valid_config config, dp_open = False,
       dp_mbuf_pool = False\<rparr>"

definition dp_moved_from :: "dpdk_backend \<Rightarrow> dpdk_backend" where
  "dp_moved_from db = db\<lparr>dp_configured := False, dp_open := False, dp_mbuf_pool := False\<rparr>"

definition dp_move_construct :: "dpdk_backend \<Rightarrow> dpdk_backend \<times> dpdk_backend" where
  "dp_move_construct other = (other, dp_moved_from other)"

definition dp_move_assign ::
  "bool \<Rightarrow> dpdk_backend \<Rightarrow> dpdk_backend \<Rightarrow> rte_call list \<times> dpdk_backend \<times> dpdk_backend" where
  "dp_move_assign have_dpdk this other = (fst (dp_cleanup have_dpdk this), other, dp_moved_from other)"

definition dp_close :: "bool \<Rightarrow> dpdk_backend \<Rightarrow> rte_call list \<times> dpdk_backend" where
  "dp_close have_dpdk db = dp_cleanup have_dpdk db"

definition ethernet_frame_size :: "nat \<Rightarrow> nat" where
  "ethernet_frame_size payload_size = 14 + payload_size"

definition ethernet_header :: "dpdk_config \<Rightarrow> bytes" where
  "ethernet_header config = dc_destination_mac config @ dc_source_mac config
     @ [ucast (drop_bit 8 (dc_ether_type config)), ucast (dc_ether_type config)]"

text \<open>Writing into a packet buffer.\<close>

definition write_at :: "bytes \<Rightarrow> nat \<Rightarrow> bytes \<Rightarrow> bytes option" where
  "write_at area offset data =
     (if offset + length data \<le> length area
      then Some (take offset area @ data @ drop (offset + length data) area) else None)"

text \<open>
  \<open>mbuf\<close> is the area of the allocated packet buffer, \<^const>\<open>None\<close> for a null pointer; \<open>appended\<close> says whether
  \<^verbatim>\<open>rte_pktmbuf_append\<close> returned a pointer. The frame length passed to it is cut to 16 bits.\<close>

definition dp_submit ::
  "bool \<Rightarrow> bytes option \<Rightarrow> bool \<Rightarrow> nat \<Rightarrow> backend_submit_request \<Rightarrow> dpdk_backend
     \<Rightarrow> (backend_submit_result \<times> rte_call list) option" where
  "dp_submit have_dpdk mbuf appended sent request db =
     (if bsq_payload request = [] then Some (make_backend_reject request BR_empty_payload, [])
      else if \<not> dp_configured db then Some (make_backend_reject request BR_invalid_endpoint, [])
      else if \<not> have_dpdk then Some (make_backend_reject request BR_unsupported_backend, [])
      else if \<not> dp_open db \<or> \<not> dp_mbuf_pool db then Some (make_backend_reject request BR_backend_closed, [])
      else case mbuf of
        None \<Rightarrow> Some (make_backend_reject request BR_send_failed, [Rte_pktmbuf_alloc])
      | Some area \<Rightarrow>
          let frame_size = (of_nat (ethernet_frame_size (length (bsq_payload request))) :: u16);
              c1 = [Rte_pktmbuf_alloc, Rte_pktmbuf_append frame_size]
          in if \<not> appended then Some (make_backend_reject request BR_send_failed, c1 @ [Rte_pktmbuf_free])
             else
               case write_at area 0 (ethernet_header (dp_config db)) of
                 None \<Rightarrow> None
               | Some area1 \<Rightarrow>
                   (case write_at area1 14 (bsq_payload request) of
                      None \<Rightarrow> None
                    | Some area2 \<Rightarrow>
                        let c2 = c1 @ [Rte_tx_burst (dc_port_id (dp_config db)) (dc_queue_id (dp_config db))
                                         (take (unat frame_size) area2)]
                        in if sent \<noteq> 1 then Some (make_backend_reject request BR_send_failed, c2 @ [Rte_pktmbuf_free])
                           else Some (make_backend_accept request, c2)))"

section \<open>The factory\<close>

datatype backend_technology = Tech_recording | Tech_kernel_udp | Tech_afxdp | Tech_dpdk

record backend_factory_config =
  bf_technology :: backend_technology
  bf_kernel_udp :: kernel_udp_config
  bf_afxdp :: afxdp_config
  bf_dpdk :: dpdk_config
  bf_recording_max_submissions :: nat

datatype any_backend =
    AB_recording recording_backend
  | AB_kernel_udp kernel_udp_backend
  | AB_afxdp afxdp_backend
  | AB_dpdk dpdk_backend

text \<open>The backend; the calls of its constructor are those of the constructor it uses.\<close>

definition make_execution_backend ::
  "pton \<Rightarrow> int \<Rightarrow> bool \<Rightarrow> dpdk_env \<Rightarrow> backend_factory_config \<Rightarrow> any_backend" where
  "make_execution_backend pton socket_result have_dpdk env config =
     (case bf_technology config of
        Tech_recording \<Rightarrow> AB_recording (new_recording_backend (bf_recording_max_submissions config))
      | Tech_kernel_udp \<Rightarrow> AB_kernel_udp (snd (new_kernel_udp_backend pton socket_result (bf_kernel_udp config)))
      | Tech_afxdp \<Rightarrow> AB_afxdp (new_afxdp_backend (bf_afxdp config))
      | Tech_dpdk \<Rightarrow> AB_dpdk (snd (new_dpdk_backend have_dpdk env (bf_dpdk config))))"

definition backend_technology_from_string :: "string \<Rightarrow> backend_technology" where
  "backend_technology_from_string s =
     (if s = ''recording'' then Tech_recording
      else if s = ''kernel_udp'' then Tech_kernel_udp
      else if s = ''afxdp'' then Tech_afxdp
      else if s = ''dpdk'' then Tech_dpdk
      else Tech_kernel_udp)"

fun backend_technology_name :: "backend_technology \<Rightarrow> string" where
  "backend_technology_name Tech_recording = ''recording''"
| "backend_technology_name Tech_kernel_udp = ''kernel_udp''"
| "backend_technology_name Tech_afxdp = ''afxdp''"
| "backend_technology_name Tech_dpdk = ''dpdk''"

text \<open>The argument is \<^verbatim>\<open>FGEP_DEFAULT_EXEC_BACKEND\<close>, a setting of the build.\<close>

definition default_backend_technology :: "string \<Rightarrow> backend_technology" where
  "default_backend_technology default_exec_backend = backend_technology_from_string default_exec_backend"

section \<open>Facts\<close>

lemma technology_name_roundtrip: "backend_technology_from_string (backend_technology_name t) = t"
  by (cases t) (simp_all add: backend_technology_from_string_def)

lemma afxdp_never_accepts: "bsr_decision (fst (ax_submit request ax)) = BSD_rejected \<and> snd (ax_submit request ax) = ax"
  by (simp add: ax_submit_def make_backend_reject_def)

text \<open>
  The pool of a backend is present exactly while it is open; a constructor that fails after it created the pool
  frees it.\<close>

definition dp_inv :: "dpdk_backend \<Rightarrow> bool" where
  "dp_inv db \<longleftrightarrow> (dp_open db \<longleftrightarrow> dp_mbuf_pool db) \<and> (dp_open db \<longrightarrow> dp_configured db)"

lemma dp_cleanup_inv: "dp_inv db \<Longrightarrow> dp_inv (snd (dp_cleanup True db))"
  by (auto simp: dp_inv_def dp_cleanup_def)

lemma new_dpdk_inv: "dp_inv (snd (new_dpdk_backend have_dpdk env config))"
  by (auto simp: dp_inv_def new_dpdk_backend_def dp_initialize_def dp_cleanup_def Let_def split: prod.splits)

lemma new_dpdk_frees_pool:
  assumes "new_dpdk_backend have_dpdk env config = (calls, db)"
  shows "Rte_mempool_free \<in> set calls \<longleftrightarrow> (\<exists>n c s. Rte_pool_create n c s \<in> set calls) \<and> de_pool_create env \<and> \<not> dp_open db"
  using assms
  by (auto simp: new_dpdk_backend_def dp_initialize_def dp_cleanup_def ensure_eal_initialized_def configure_port_def Let_def
    split: prod.splits if_splits)

lemma write_at_front:
  assumes "14 \<le> length area" "length h = 14" "14 + length p \<le> length area"
  shows "\<exists>area1 area2. write_at area 0 h = Some area1 \<and> write_at area1 14 p = Some area2
    \<and> take (14 + length p) area2 = h @ p"
  using assms by (simp add: write_at_def)

lemma frame_size_exact: "14 + n < 2 ^ 16 \<Longrightarrow> unat (of_nat (ethernet_frame_size n) :: u16) = 14 + n"
  by (simp add: ethernet_frame_size_def unat_of_nat del: of_nat_add)

lemma ethernet_header_bytes:
  "ethernet_header config = dc_destination_mac config @ dc_source_mac config @ be_bytes 2 (dc_ether_type config)"
  by (simp add: ethernet_header_def be_bytes_def)

definition typed_macs :: "dpdk_config \<Rightarrow> bool" where
  "typed_macs config \<longleftrightarrow> length (dc_destination_mac config) = 6 \<and> length (dc_source_mac config) = 6"

text \<open>\<^verbatim>\<open>rte_pktmbuf_append\<close> returns a pointer only if the buffer has room for the requested length.\<close>

definition append_contract :: "bytes option \<Rightarrow> bool \<Rightarrow> nat \<Rightarrow> bool" where
  "append_contract mbuf appended payload_size \<longleftrightarrow>
     (\<forall>area. mbuf = Some area \<and> appended \<longrightarrow> unat (of_nat (ethernet_frame_size payload_size) :: u16) \<le> length area)"

section \<open>Properties\<close>

text \<open>
  What one submission must do: the backend is ready when the request has a payload and the backend is configured,
  compiled in and open with its pool; only then does it call the library.\<close>

definition dpdk_ready :: "bool \<Rightarrow> backend_submit_request \<Rightarrow> dpdk_backend \<Rightarrow> bool" where
  "dpdk_ready have_dpdk request db \<longleftrightarrow>
     bsq_payload request \<noteq> [] \<and> dp_configured db \<and> have_dpdk \<and> dp_open db \<and> dp_mbuf_pool db"

definition dpdk_refusal :: "bool \<Rightarrow> backend_submit_request \<Rightarrow> dpdk_backend \<Rightarrow> backend_reject_reason" where
  "dpdk_refusal have_dpdk request db =
     (if dpdk_ready have_dpdk request db then BR_send_failed
      else if bsq_payload request = [] then BR_empty_payload
      else if \<not> dp_configured db then BR_invalid_endpoint
      else if have_dpdk then BR_backend_closed else BR_unsupported_backend)"

text \<open>
  C32: Take a payload that fits a frame of less than \<open>2^16\<close> bytes, MAC addresses of six bytes, and a library whose
  append gives room for the length it is asked for. Then the DPDK backend never writes outside its packet buffer, and
  its answer and its library calls are exactly these. It accepts exactly when it is ready, gets a buffer with enough
  room, and the burst takes the one packet; otherwise it rejects with the specified reason. When it is not ready it
  makes no call. When it is, it allocates one buffer; if it got one, it asks for the length of the frame; if there is
  room, it makes one burst, on the configured port and queue, of the destination address, the source address and the
  type of the frame, followed by the unchanged payload; and it frees the buffer once, at the end, if the packet was not sent, and never if it was.\<close>

theorem dpdk_submit_exact:
  assumes "typed_macs (dp_config db)" "14 + length (bsq_payload request) < 2 ^ 16"
    and "append_contract mbuf appended (length (bsq_payload request))"
  shows "dp_submit have_dpdk mbuf appended sent request db = Some
    (if dpdk_ready have_dpdk request db \<and> mbuf \<noteq> None \<and> appended \<and> sent = 1
       then make_backend_accept request else make_backend_reject request (dpdk_refusal have_dpdk request db),
     if \<not> dpdk_ready have_dpdk request db then []
     else if mbuf = None then [Rte_pktmbuf_alloc]
     else [Rte_pktmbuf_alloc, Rte_pktmbuf_append (of_nat (14 + length (bsq_payload request)))]
       @ (if appended then [Rte_tx_burst (dc_port_id (dp_config db)) (dc_queue_id (dp_config db))
            (dc_destination_mac (dp_config db) @ dc_source_mac (dp_config db) @ be_bytes 2 (dc_ether_type (dp_config db))
              @ bsq_payload request)] else [])
       @ (if appended \<and> sent = 1 then [] else [Rte_pktmbuf_free]))"
proof (cases "dpdk_ready have_dpdk request db")
  case False
  then show ?thesis by (auto simp: dpdk_ready_def dpdk_refusal_def dp_submit_def)
next
  case True
  note ready = this [unfolded dpdk_ready_def]
  have refusal: "dpdk_refusal have_dpdk request db = BR_send_failed" using True by (simp add: dpdk_refusal_def)
  show ?thesis
  proof (cases "mbuf = None \<or> \<not> appended")
    case True
    then show ?thesis using ready refusal \<open>dpdk_ready have_dpdk request db\<close>
      by (auto simp: dp_submit_def Let_def ethernet_frame_size_def)
  next
    case False
    then obtain area where area: "mbuf = Some area" "appended" by auto
    let ?p = "bsq_payload request" and ?h = "ethernet_header (dp_config db)"
    have h: "length ?h = 14" using assms(1) by (simp add: ethernet_header_def typed_macs_def)
    note size = frame_size_exact [OF assms(2)]
    have room: "14 + length ?p \<le> length area" using assms(3) area size by (simp add: append_contract_def)
    have "14 \<le> length area" using room by simp
    from write_at_front [OF this h room] obtain area1 area2 where
      w: "write_at area 0 ?h = Some area1" "write_at area1 14 ?p = Some area2" "take (14 + length ?p) area2 = ?h @ ?p"
      by blast
    with ready refusal area size \<open>dpdk_ready have_dpdk request db\<close> show ?thesis
      by (simp add: dp_submit_def Let_def ethernet_frame_size_def ethernet_header_bytes)
  qed
qed

definition sample_dpdk :: dpdk_backend where
  "sample_dpdk = \<lparr>dp_config = \<lparr>dc_eal_args = [''fgep-dpdk''], dc_port_id = 0, dc_queue_id = 0, dc_socket_id = -1,
       dc_tx_desc_count = 1024, dc_burst_size = 32, dc_mbuf_pool_size = 8192, dc_mbuf_cache_size = 250,
       dc_destination_mac = replicate 6 0xFF, dc_source_mac = [2, 0, 0, 0, 0, 1], dc_ether_type = 0x88B5\<rparr>,
     dp_configured = True, dp_open = True, dp_mbuf_pool = True\<rparr>"

theorem dpdk_submit_exact_witness:
  "dp_submit True (Some (replicate 2048 0)) True 1 sample_request sample_dpdk = Some (make_backend_accept sample_request,
     [Rte_pktmbuf_alloc, Rte_pktmbuf_append (of_nat (14 + length (bsq_payload sample_request))),
      Rte_tx_burst 0 0 (ethernet_header (dp_config sample_dpdk) @ bsq_payload sample_request)])"
  using dpdk_submit_exact [of sample_dpdk sample_request "Some (replicate 2048 0)" True True 1]
  by (simp add: typed_macs_def sample_dpdk_def sample_request_def append_contract_def ethernet_frame_size_def dpdk_ready_def
    ethernet_header_bytes)

text \<open>
  C39: The length of the frame is cut to 16 bits before room is asked for, but the whole payload is copied: for a payload of
  65522 bytes or more, an open DPDK backend writes past the end of the packet buffer, whatever its size (at most
  65535 bytes), once the buffer has room for the shortened length. A valid OUCH order with a long appendage is such
  a payload.\<close>

theorem dpdk_frame_overflow:
  assumes "65522 \<le> length (bsq_payload request)" "length area \<le> 65535" "typed_macs (dp_config db)"
    and "dp_configured db" "dp_open db" "dp_mbuf_pool db"
  shows "dp_submit True (Some area) True sent request db = None"
proof -
  have h: "length (ethernet_header (dp_config db)) = 14" using assms(3) by (simp add: ethernet_header_def typed_macs_def)
  have "write_at area1 14 (bsq_payload request) = None" if "length area1 = length area" for area1
    using assms(1,2) that by (simp add: write_at_def)
  moreover have "length area1 = length area" if "write_at area 0 (ethernet_header (dp_config db)) = Some area1" for area1
    using that h by (auto simp: write_at_def split: if_splits)
  moreover have "bsq_payload request \<noteq> []" using assms(1) by auto
  ultimately show ?thesis using assms(4-6) by (auto simp: dp_submit_def Let_def split: option.splits)
qed

definition long_enter :: enter_order_message where
  "long_enter = sample_enter\<lparr>eo_optional_appendage := replicate 65535 0\<rparr>"

lemma long_enter_ok: "ouch_ok (EnterOrder long_enter)" "ouch_typed (EnterOrder long_enter)"
  "length (ouch_image (EnterOrder long_enter)) = 65582"
proof -
  show ok: "ouch_ok (EnterOrder long_enter)" "ouch_typed (EnterOrder long_enter)"
    using sample_enter_ok(1,2) by (simp_all add: long_enter_def is_valid_enter_order_message_def appendage_length_fits_def)
  show "length (ouch_image (EnterOrder long_enter)) = 65582"
    using length_ouch_image [OF ok(2)] by (simp add: long_enter_def del: ouch_image.simps)
qed

theorem dpdk_frame_overflow_witness:
  "ouch_decode_message (ouch_image (EnterOrder long_enter)) = Ok (EnterOrder long_enter)
   \<and> append_contract (Some (replicate 2048 0)) True (length (ouch_image (EnterOrder long_enter)))
   \<and> dp_submit True (Some (replicate 2048 0)) True 1
       \<lparr>bsq_user_ref_num = 7, bsq_kind = BK_enter, bsq_payload = ouch_image (EnterOrder long_enter)\<rparr> sample_dpdk = None"
proof -
  have "dp_submit True (Some (replicate 2048 0)) True 1
       \<lparr>bsq_user_ref_num = 7, bsq_kind = BK_enter, bsq_payload = ouch_image (EnterOrder long_enter)\<rparr> sample_dpdk = None"
    using long_enter_ok(3)
    by (intro dpdk_frame_overflow) (simp_all add: sample_dpdk_def typed_macs_def del: ouch_image.simps)
  moreover have "append_contract (Some (replicate 2048 0)) True (length (ouch_image (EnterOrder long_enter)))"
    by (simp add: append_contract_def ethernet_frame_size_def long_enter_ok(3) del: ouch_image.simps)
  ultimately show ?thesis using long_enter_ok(1,2) by (simp add: ouch_decode_message_iff del: ouch_image.simps)
qed

end
