(* ===== verification/Candidates.thy ===== *)
theory Candidates
  imports Generator Lifecycle Telemetry
begin

text \<open>
  The generator of candidate orders and the execution benchmark that feeds them to the simulated exchange:
  \<^verbatim>\<open>src/bench/order_candidate_generator.cpp\<close> and \<^verbatim>\<open>src/bench/execution_benchmark.cpp\<close>. The count of generated
  orders is a natural number; the clock of the benchmark is simulated and kept at its 64 bits.
\<close>

section \<open>The generator\<close>

record candidate_config =
  cc_symbols :: "ouch_symbol list"
  cc_first_user_ref_num :: u32
  cc_min_quantity :: u32
  cc_max_quantity :: u32
  cc_base_price :: u64
  cc_price_step :: u64
  cc_hot_symbol_count :: nat
  cc_hot_symbol_percent :: u8
  cc_alternate_sides :: bool

definition default_candidate_config :: candidate_config where
  "default_candidate_config = \<lparr>cc_symbols = [], cc_first_user_ref_num = 1, cc_min_quantity = 100,
     cc_max_quantity = 1000, cc_base_price = 1000000, cc_price_step = 100, cc_hot_symbol_count = 1,
     cc_hot_symbol_percent = 80, cc_alternate_sides = True\<rparr>"

record candidate_generator =
  cg_config :: candidate_config
  cg_next_user_ref_num :: u32
  cg_generated_count :: nat

definition default_symbol :: ouch_symbol where
  "default_symbol = fixed_ascii_from_text 8 ''AAPL''"

text \<open>The adjustments the constructor makes to its configuration, in its order.\<close>

definition normalize_candidate_config :: "candidate_config \<Rightarrow> candidate_config" where
  "normalize_candidate_config c0 =
     (let c1 = (if cc_symbols c0 = [] then c0\<lparr>cc_symbols := [default_symbol]\<rparr> else c0);
          c2 = (if cc_min_quantity c1 = 0 then c1\<lparr>cc_min_quantity := 1\<rparr> else c1);
          c3 = (if cc_max_quantity c2 < cc_min_quantity c2 then c2\<lparr>cc_max_quantity := cc_min_quantity c2\<rparr> else c2)
      in c3\<lparr>cc_hot_symbol_count := clamp_hot_count (cc_hot_symbol_count c3) (length (cc_symbols c3)),
            cc_hot_symbol_percent := clamp_percent (cc_hot_symbol_percent c3)\<rparr>)"

definition make_candidate_generator :: "candidate_config \<Rightarrow> candidate_generator" where
  "make_candidate_generator config =
     \<lparr>cg_config = normalize_candidate_config config, cg_next_user_ref_num = cc_first_user_ref_num config,
      cg_generated_count = 0\<rparr>"

definition cg_choose_symbol_index :: "candidate_generator \<Rightarrow> nat" where
  "cg_choose_symbol_index cg =
     (let symbols = length (cc_symbols (cg_config cg));
          hot = cc_hot_symbol_count (cg_config cg);
          sequence_index = cg_generated_count cg
      in if symbols = 1 then 0
         else
           let bucket = of_nat (sequence_index mod 100) :: u8 in
           if bucket < cc_hot_symbol_percent (cg_config cg) then sequence_index mod hot
           else
             let cold_count = symbols - hot in
             if cold_count = 0 then sequence_index mod hot else hot + sequence_index mod cold_count)"

definition cg_choose_symbol :: "candidate_generator \<Rightarrow> ouch_symbol" where
  "cg_choose_symbol cg = cc_symbols (cg_config cg) ! cg_choose_symbol_index cg"

definition cg_choose_quantity :: "candidate_generator \<Rightarrow> u32" where
  "cg_choose_quantity cg =
     (let range = cc_max_quantity (cg_config cg) - cc_min_quantity (cg_config cg) + 1;
          offset = of_nat (cg_generated_count cg mod unat range) :: u32
      in cc_min_quantity (cg_config cg) + offset)"

definition cg_choose_price :: "candidate_generator \<Rightarrow> u64" where
  "cg_choose_price cg =
     (let offset = of_nat (cg_generated_count cg mod 11) :: u64
      in cc_base_price (cg_config cg) + offset * cc_price_step (cg_config cg))"

definition cg_choose_side :: "candidate_generator \<Rightarrow> ouch_side" where
  "cg_choose_side cg =
     (if \<not> cc_alternate_sides (cg_config cg) then OS_buy
      else if cg_generated_count cg mod 2 = 0 then OS_buy else OS_sell)"

text \<open>\<open>write_digits k\<close> is the loop of \<^verbatim>\<open>make_cl_ord_id\<close> with \<open>k\<close> rounds to go.\<close>

fun write_digits :: "nat \<Rightarrow> u32 \<Rightarrow> string \<Rightarrow> string" where
  "write_digits 0 number value = value"
| "write_digits (Suc k) number value =
     (let reverse_index = 10 - Suc k;
          index = length value - 1 - reverse_index;
          digit = char_of (48 + unat (number mod 10))
      in write_digits k (number div 10) (value[index := digit]))"

definition make_cl_ord_id :: "u32 \<Rightarrow> cl_ord_id" where
  "make_cl_ord_id user_ref_num = write_digits 10 user_ref_num (fixed_ascii_from_text 14 ''CID'')"

definition next_enter_order :: "candidate_generator \<Rightarrow> enter_order_message \<times> candidate_generator" where
  "next_enter_order cg0 =
     (let user_ref_num = cg_next_user_ref_num cg0;
          cg = cg0\<lparr>cg_next_user_ref_num := user_ref_num + 1, cg_generated_count := cg_generated_count cg0 + 1\<rparr>
      in (\<lparr>eo_user_ref_num = user_ref_num, eo_side = cg_choose_side cg, eo_quantity = cg_choose_quantity cg,
           eo_symbol = cg_choose_symbol cg, eo_price = cg_choose_price cg, eo_time_in_force = TIF_day,
           eo_display = DSP_visible, eo_capacity = CAP_agency, eo_intermarket_sweep_eligibility = ISE_not_eligible,
           eo_cross_type = OCT_continuous_market, eo_cl_ord_id = make_cl_ord_id user_ref_num,
           eo_optional_appendage = []\<rparr>, cg))"

definition cg_reset :: "candidate_generator \<Rightarrow> candidate_generator" where
  "cg_reset cg = cg\<lparr>cg_next_user_ref_num := cc_first_user_ref_num (cg_config cg), cg_generated_count := 0\<rparr>"

section \<open>The benchmark\<close>

record stage_durations =
  sdu_ingest_to_decode_ns :: u64
  sdu_decode_to_book_update_ns :: u64
  sdu_book_update_to_risk_ns :: u64
  sdu_risk_to_lifecycle_ns :: u64
  sdu_lifecycle_to_enqueue_ns :: u64
  sdu_enqueue_to_submit_ns :: u64
  sdu_candidate_spacing_ns :: u64

definition default_stage_durations :: stage_durations where
  "default_stage_durations = \<lparr>sdu_ingest_to_decode_ns = 25, sdu_decode_to_book_update_ns = 35,
     sdu_book_update_to_risk_ns = 20, sdu_risk_to_lifecycle_ns = 15, sdu_lifecycle_to_enqueue_ns = 10,
     sdu_enqueue_to_submit_ns = 25, sdu_candidate_spacing_ns = 1000\<rparr>"

record execution_benchmark_config =
  xb_candidate_count :: nat
  xb_generator_config :: candidate_config
  xb_risk_limits :: risk_limits
  xb_stage_durations :: stage_durations

record execution_benchmark_result =
  xr_candidate_count :: nat
  xr_accepted_count :: nat
  xr_rejected_count :: nat
  xr_live_order_count :: nat
  xr_simulated_elapsed_ns :: u64
  xr_candidates_per_second :: u64
  xr_end_to_end_latency :: "latency_summary option"

definition per_candidate_latency :: "stage_durations \<Rightarrow> u64" where
  "per_candidate_latency d = sdu_ingest_to_decode_ns d + sdu_decode_to_book_update_ns d + sdu_book_update_to_risk_ns d
     + sdu_risk_to_lifecycle_ns d + sdu_lifecycle_to_enqueue_ns d + sdu_enqueue_to_submit_ns d"

definition candidate_base_timestamp :: "nat \<Rightarrow> u64 \<Rightarrow> u64" where
  "candidate_base_timestamp index spacing =
     (let safe_index = of_nat index :: u64
      in if spacing \<noteq> 0 \<and> safe_index > u64_max div spacing then u64_max else safe_index * spacing)"

definition calculate_candidates_per_second :: "nat \<Rightarrow> u64 \<Rightarrow> u64" where
  "calculate_candidates_per_second candidates elapsed_ns =
     (if candidates = 0 \<or> elapsed_ns = 0 then 0
      else
        let n = of_nat candidates :: u64
        in if n > u64_max div 1000000000 then u64_max else (n * 1000000000) div elapsed_ns)"

definition mark_pipeline_timestamps :: "u64 \<Rightarrow> stage_durations \<Rightarrow> telemetry_event \<Rightarrow> telemetry_event" where
  "mark_pipeline_timestamps base d te0 =
     (let t0 = base; te1 = te_mark PS_ingest t0 te0;
          t1 = t0 + sdu_ingest_to_decode_ns d; te2 = te_mark PS_decode t1 te1;
          t2 = t1 + sdu_decode_to_book_update_ns d; te3 = te_mark PS_book_update t2 te2;
          t3 = t2 + sdu_book_update_to_risk_ns d; te4 = te_mark PS_risk_decision t3 te3;
          t4 = t3 + sdu_risk_to_lifecycle_ns d; te5 = te_mark PS_lifecycle_decision t4 te4;
          t5 = t4 + sdu_lifecycle_to_enqueue_ns d; te6 = te_mark PS_enqueue t5 te5;
          t6 = t5 + sdu_enqueue_to_submit_ns d
      in te_mark PS_submit t6 te6)"

text \<open>The variables the loop of \<^verbatim>\<open>run_execution_benchmark\<close> changes.\<close>

record benchmark_state =
  bst_generator :: candidate_generator
  bst_engine :: execution_engine
  bst_recorder :: latency_recorder
  bst_accepted :: nat
  bst_rejected :: nat

definition benchmark_step :: "stage_durations \<Rightarrow> nat \<Rightarrow> benchmark_state \<Rightarrow> benchmark_state" where
  "benchmark_step durations index st =
     (case next_enter_order (bst_generator st) of (m, generator) \<Rightarrow>
      case submit_enter m (bst_engine st) of (r, engine) \<Rightarrow>
        let event0 = new_telemetry_event\<lparr>te_user_ref_num := eo_user_ref_num m\<rparr>;
            event = mark_pipeline_timestamps (candidate_base_timestamp index (sdu_candidate_spacing_ns durations))
              durations event0
        in \<lparr>bst_generator = generator, bst_engine = engine,
            bst_recorder = snd (record_end_to_end event (bst_recorder st)),
            bst_accepted = (if er_decision r = ED_accepted then bst_accepted st + 1 else bst_accepted st),
            bst_rejected = (if er_decision r = ED_accepted then bst_rejected st else bst_rejected st + 1)\<rparr>)"

definition benchmark_start :: "execution_benchmark_config \<Rightarrow> benchmark_state" where
  "benchmark_start config =
     \<lparr>bst_generator = make_candidate_generator (xb_generator_config config),
      bst_engine = make_execution_engine (make_risk_supervisor (xb_risk_limits config)),
      bst_recorder = \<lparr>lrec_samples = []\<rparr>, bst_accepted = 0, bst_rejected = 0\<rparr>"

definition run_execution_benchmark :: "execution_benchmark_config \<Rightarrow> execution_benchmark_result" where
  "run_execution_benchmark config =
     (let n = xb_candidate_count config;
          durations = xb_stage_durations config;
          st = fold (benchmark_step durations) [0..<n] (benchmark_start config);
          elapsed = (if n \<noteq> 0
            then candidate_base_timestamp (n - 1) (sdu_candidate_spacing_ns durations) + per_candidate_latency durations
            else 0)
      in \<lparr>xr_candidate_count = n, xr_accepted_count = bst_accepted st, xr_rejected_count = bst_rejected st,
          xr_live_order_count = live_order_count (xe_lifecycle (bst_engine st)),
          xr_simulated_elapsed_ns = elapsed,
          xr_candidates_per_second = calculate_candidates_per_second n elapsed,
          xr_end_to_end_latency = lrec_summary (bst_recorder st)\<rparr>)"

section \<open>Order identifiers\<close>

text \<open>The last \<open>k\<close> decimal digits of a number, with leading zeros.\<close>

fun dec_digits :: "nat \<Rightarrow> nat \<Rightarrow> string" where
  "dec_digits 0 n = []"
| "dec_digits (Suc k) n = dec_digits k (n div 10) @ [char_of (48 + n mod 10)]"

lemma length_dec_digits [simp]: "length (dec_digits k n) = k"
  by (induction k arbitrary: n) simp_all

lemma write_digits_eq:
  "k \<le> 10 \<Longrightarrow> length value = 14 \<Longrightarrow>
     write_digits k number value = take 4 value @ dec_digits k (unat number) @ drop (4 + k) value"
proof (induction k arbitrary: number "value")
  case (Suc k)
  define v where "v = value[4 + k := char_of (48 + unat number mod 10)]"
  have v: "length v = 14" "take 4 v = take 4 value"
    "drop (4 + k) v = char_of (48 + unat number mod 10) # drop (4 + Suc k) value"
    using Suc.prems by (simp_all add: v_def Cons_nth_drop_Suc [symmetric])
  have "length value - 1 - (10 - Suc k) = 4 + k" using Suc.prems by simp
  then have "write_digits (Suc k) number value = write_digits k (number div 10) v"
    by (simp add: Let_def v_def unat_mod)
  also have "\<dots> = take 4 value @ dec_digits k (unat number div 10) @ drop (4 + k) v"
    using Suc.IH [OF _ v(1), of "number div 10"] Suc.prems(1) v(2) by (simp add: unat_div)
  finally show ?case by (simp add: v(3))
qed simp

lemma make_cl_ord_id_eq: "make_cl_ord_id ref = ''CID '' @ dec_digits 10 (unat ref)"
  by (simp add: make_cl_ord_id_def write_digits_eq fixed_ascii_from_text_ok(1))
     (simp add: fixed_ascii_from_text_def eval_nat_numeral)

lemma dec_digits_printable: "list_all is_printable_ascii_or_space (dec_digits k n)"
proof (induction k arbitrary: n)
  case (Suc k)
  have "48 + n mod 10 \<in> {48..57}" by auto
  then have "48 + n mod 10 \<in> set [48..<58]" by auto
  moreover have "list_all (\<lambda>d. is_printable_ascii_or_space (char_of d)) [48..<58]"
    by (simp add: upt_rec is_printable_ascii_or_space_def byte_of_char_def)
  ultimately have "is_printable_ascii_or_space (char_of (48 + n mod 10))" by (simp only: list_all_iff)
  with Suc.IH show ?case by simp
qed simp

lemma dec_digits_inject: "dec_digits k a = dec_digits k b \<Longrightarrow> a mod 10 ^ k = b mod 10 ^ k"
proof (induction k arbitrary: a b)
  case (Suc k)
  have digit: "of_char (char_of (48 + n mod 10) :: char) = 48 + n mod 10" for n :: nat by (simp add: mod_less)
  from Suc.prems have "dec_digits k (a div 10) = dec_digits k (b div 10)"
    "char_of (48 + a mod 10) = (char_of (48 + b mod 10) :: char)" by simp_all
  then have "a div 10 mod 10 ^ k = b div 10 mod 10 ^ k" and "48 + a mod 10 = 48 + b mod 10"
    using Suc.IH [of "a div 10" "b div 10"] digit [of a] digit [of b] by (blast, metis)
  then show ?case by (simp add: mod_mult2_eq)
qed simp

lemma make_cl_ord_id_inject: "make_cl_ord_id a = make_cl_ord_id b \<longleftrightarrow> a = b"
proof
  assume "make_cl_ord_id a = make_cl_ord_id b"
  then have "unat a mod 10 ^ 10 = unat b mod 10 ^ 10" by (intro dec_digits_inject) (simp add: make_cl_ord_id_eq)
  moreover have "unat w < 10 ^ 10" for w :: u32 using unsigned_less [of w, where 'a = nat] by simp
  ultimately show "a = b" by (simp add: word_unat_eq_iff)
qed simp

lemma make_cl_ord_id_ok: "length (make_cl_ord_id ref) = 14" "is_valid_fixed_ascii (make_cl_ord_id ref)"
  using dec_digits_printable [of 10 "unat ref"]
  by (simp_all add: make_cl_ord_id_eq is_valid_fixed_ascii_def is_printable_ascii_or_space_def byte_of_char_def)

section \<open>The configuration\<close>

definition normalized_ok :: "candidate_config \<Rightarrow> bool" where
  "normalized_ok c \<longleftrightarrow> cc_symbols c \<noteq> [] \<and> 0 < cc_min_quantity c \<and> cc_min_quantity c \<le> cc_max_quantity c
     \<and> 0 < cc_hot_symbol_count c \<and> cc_hot_symbol_count c \<le> length (cc_symbols c)"

lemma normalize_fields:
  "cc_symbols (normalize_candidate_config c) = (if cc_symbols c = [] then [default_symbol] else cc_symbols c)"
  "cc_min_quantity (normalize_candidate_config c) = (if cc_min_quantity c = 0 then 1 else cc_min_quantity c)"
  "cc_max_quantity (normalize_candidate_config c) =
     (if cc_max_quantity c < (if cc_min_quantity c = 0 then 1 else cc_min_quantity c)
      then (if cc_min_quantity c = 0 then 1 else cc_min_quantity c) else cc_max_quantity c)"
  "cc_base_price (normalize_candidate_config c) = cc_base_price c"
  "cc_price_step (normalize_candidate_config c) = cc_price_step c"
  "cc_hot_symbol_count (normalize_candidate_config c) =
     clamp_hot_count (cc_hot_symbol_count c) (length (cc_symbols (normalize_candidate_config c)))"
  by (simp_all add: normalize_candidate_config_def Let_def)

lemma normalize_ok: "normalized_ok (normalize_candidate_config c)"
proof -
  have "0 < length (cc_symbols (normalize_candidate_config c))" by (simp add: normalize_fields)
  then show ?thesis
    unfolding normalized_ok_def
    by (auto simp: normalize_fields(1-3) normalize_fields(6) clamp_hot_count_def word_gt_0 not_less min_def Suc_le_eq)
qed

text \<open>The indices and divisors of the selection are in range, whatever the configuration.\<close>

lemma choose_symbol_in:
  assumes "normalized_ok (cg_config cg)"
  shows "cg_choose_symbol cg \<in> set (cc_symbols (cg_config cg))"
proof -
  let ?n = "length (cc_symbols (cg_config cg))" and ?hot = "cc_hot_symbol_count (cg_config cg)"
  have n: "0 < ?hot" "?hot \<le> ?n" "0 < ?n" using assms by (auto simp: normalized_ok_def)
  have "i mod ?hot < ?n" for i using n mod_less_divisor [of ?hot i] by linarith
  moreover have "?hot + i mod (?n - ?hot) < ?n" if "?n - ?hot \<noteq> 0" for i
    using that mod_less_divisor [of "?n - ?hot" i] by linarith
  ultimately have "cg_choose_symbol_index cg < ?n" using n(3) by (simp add: cg_choose_symbol_index_def Let_def)
  then show ?thesis by (simp add: cg_choose_symbol_def)
qed

lemma choose_quantity_bounds:
  assumes "normalized_ok (cg_config cg)"
  shows "cc_min_quantity (cg_config cg) \<le> cg_choose_quantity cg" "cg_choose_quantity cg \<le> cc_max_quantity (cg_config cg)"
    "cc_max_quantity (cg_config cg) - cc_min_quantity (cg_config cg) + 1 \<noteq> 0"
proof -
  let ?a = "cc_min_quantity (cg_config cg)" and ?b = "cc_max_quantity (cg_config cg)"
  have ab: "0 < unat ?a" "unat ?a \<le> unat ?b" "unat ?b < 2 ^ 32"
    using assms unsigned_less [of ?b, where 'a = nat]
    by (simp_all add: normalized_ok_def word_less_nat_alt word_le_nat_alt)
  have sub: "unat (?b - ?a) = unat ?b - unat ?a" using assms by (intro unat_sub) (simp add: normalized_ok_def)
  have range: "unat (?b - ?a + 1) = unat ?b - unat ?a + 1" using ab by (simp add: unat_word_ariths sub)
  then show "?b - ?a + 1 \<noteq> 0" by (metis One_nat_def add_is_0 nat.simps(3) unat_0)
  define k where "k = cg_generated_count cg mod unat (?b - ?a + 1)"
  have k: "k \<le> unat ?b - unat ?a" using mod_less_divisor [of "unat (?b - ?a + 1)"] range by (simp add: k_def)
  have "unat (of_nat k :: u32) = k" using k ab by (simp add: unat_of_nat)
  moreover have "cg_choose_quantity cg = ?a + of_nat k" by (simp only: cg_choose_quantity_def Let_def k_def)
  ultimately have "unat (cg_choose_quantity cg) = unat ?a + k" using k ab by (simp add: unat_word_ariths)
  then show "?a \<le> cg_choose_quantity cg" "cg_choose_quantity cg \<le> ?b" using k ab by (simp_all add: word_le_nat_alt)
qed

section \<open>The orders generated\<close>

fun candidates :: "nat \<Rightarrow> candidate_generator \<Rightarrow> enter_order_message list" where
  "candidates 0 cg = []"
| "candidates (Suc n) cg = (case next_enter_order cg of (m, cg') \<Rightarrow> m # candidates n cg')"

text \<open>What the orders have to satisfy on the wire, as a condition on the configuration.\<close>

definition candidate_config_ok :: "nat \<Rightarrow> candidate_config \<Rightarrow> bool" where
  "candidate_config_ok n c \<longleftrightarrow> list_all (\<lambda>s. length s = 8 \<and> is_valid_fixed_ascii s) (cc_symbols c)
     \<and> 0 < cc_first_user_ref_num c \<and> unat (cc_first_user_ref_num c) + n \<le> 2 ^ 32
     \<and> cc_min_quantity c < 1000000 \<and> cc_max_quantity c < 1000000
     \<and> 0 < cc_base_price c \<and> unat (cc_base_price c) + 10 * unat (cc_price_step c) < 2 ^ 64"

definition good_candidate :: "candidate_config \<Rightarrow> enter_order_message \<Rightarrow> bool" where
  "good_candidate c m \<longleftrightarrow> ouch_ok (EnterOrder m) \<and> ouch_typed (EnterOrder m)
     \<and> eo_cl_ord_id m = make_cl_ord_id (eo_user_ref_num m)
     \<and> eo_symbol m \<in> set (cc_symbols (normalize_candidate_config c))
     \<and> cc_min_quantity (normalize_candidate_config c) \<le> eo_quantity m
     \<and> eo_quantity m \<le> cc_max_quantity (normalize_candidate_config c)"

text \<open>A generator in the middle of its work: \<open>left\<close> more orders are wanted.\<close>

definition generating :: "candidate_config \<Rightarrow> nat \<Rightarrow> candidate_generator \<Rightarrow> bool" where
  "generating c left cg \<longleftrightarrow> candidate_config_ok 0 c \<and> cg_config cg = normalize_candidate_config c
     \<and> (left = 0 \<or> 0 < cg_next_user_ref_num cg) \<and> (left = 0 \<or> unat (cg_next_user_ref_num cg) + left \<le> 2 ^ 32)"

lemma generating_start: "candidate_config_ok n c \<Longrightarrow> generating c n (make_candidate_generator c)"
  by (simp add: candidate_config_ok_def generating_def make_candidate_generator_def)

lemma choose_price_positive:
  assumes "0 < cc_base_price c" "unat (cc_base_price c) + 10 * unat (cc_price_step c) < 2 ^ 64"
    and "cg_config cg = normalize_candidate_config c"
  shows "0 < cg_choose_price cg"
proof -
  define k where "k = cg_generated_count cg mod 11"
  have k: "k \<le> 10" "unat (of_nat k :: u64) = k" by (simp_all add: k_def unat_of_nat)
  have ks: "k * unat (cc_price_step c) \<le> 10 * unat (cc_price_step c)" using k(1) by (rule mult_right_mono) simp
  have p: "cg_choose_price cg = cc_base_price c + of_nat k * cc_price_step c"
    using assms(3) by (simp add: cg_choose_price_def Let_def k_def normalize_fields)
  have "unat (cg_choose_price cg) = unat (cc_base_price c) + k * unat (cc_price_step c)"
  proof -
    have "unat (cc_base_price c) + k * unat (cc_price_step c) < 2 ^ 64" using ks assms(2) by linarith
    then show ?thesis using p k(2) by (simp add: unat_word_ariths)
  qed
  then show ?thesis using assms(1) by (simp add: word_less_nat_alt)
qed

lemma default_symbol_ok: "length default_symbol = 8 \<and> is_valid_fixed_ascii default_symbol"
  using fixed_ascii_from_text_ok(1) [of 8 "''AAPL''"] fixed_ascii_from_text_ok(2) [of "''AAPL''" 8]
  by (simp add: default_symbol_def is_printable_ascii_or_space_def byte_of_char_def)

lemma next_enter_order_good:
  assumes g: "generating c (Suc n) cg" and n: "next_enter_order cg = (m, cg')"
  shows "good_candidate c m" "eo_user_ref_num m = cg_next_user_ref_num cg" "generating c n cg'"
    "0 < n \<longrightarrow> unat (cg_next_user_ref_num cg') = unat (cg_next_user_ref_num cg) + 1"
proof -
  define cg1 where "cg1 = cg\<lparr>cg_next_user_ref_num := cg_next_user_ref_num cg + 1, cg_generated_count := cg_generated_count cg + 1\<rparr>"
  have c: "candidate_config_ok 0 c" and cfg: "cg_config cg1 = normalize_candidate_config c"
    and ref: "0 < cg_next_user_ref_num cg" "unat (cg_next_user_ref_num cg) + Suc n \<le> 2 ^ 32"
    using g by (simp_all add: generating_def cg1_def)
  have ok: "normalized_ok (cg_config cg1)" by (simp add: cfg normalize_ok)
  have m: "eo_user_ref_num m = cg_next_user_ref_num cg" "eo_quantity m = cg_choose_quantity cg1"
    "eo_symbol m = cg_choose_symbol cg1" "eo_price m = cg_choose_price cg1"
    "eo_cl_ord_id m = make_cl_ord_id (cg_next_user_ref_num cg)" "eo_optional_appendage m = []" and cg': "cg' = cg1"
    using n by (auto simp: next_enter_order_def Let_def cg1_def)
  have s: "length (eo_symbol m) = 8 \<and> is_valid_fixed_ascii (eo_symbol m)"
    using choose_symbol_in [OF ok] c default_symbol_ok
    by (auto simp: m cfg normalize_fields candidate_config_ok_def list_all_iff split: if_splits)
  have q: "0 < eo_quantity m" "eo_quantity m < 1000000"
  proof -
    have "0 < cc_min_quantity (cg_config cg1)" "cc_max_quantity (cg_config cg1) < 1000000"
      using ok c by (auto simp: normalized_ok_def cfg normalize_fields candidate_config_ok_def)
    with choose_quantity_bounds [OF ok] show "0 < eo_quantity m" "eo_quantity m < 1000000" by (auto simp: m)
  qed
  have "0 < eo_price m" using choose_price_positive [OF _ _ cfg] c by (simp add: m candidate_config_ok_def)
  then show "good_candidate c m"
    using s q ref(1) make_cl_ord_id_ok choose_symbol_in [OF ok] choose_quantity_bounds [OF ok]
    by (simp add: good_candidate_def m cfg is_valid_enter_order_message_def is_valid_user_ref_num_def
      is_valid_enter_or_replace_quantity_def ouch_is_valid_price4_def appendage_length_fits_def)
  show "eo_user_ref_num m = cg_next_user_ref_num cg" by (rule m(1))
  have "0 < n \<longrightarrow> unat (cg_next_user_ref_num cg1) = unat (cg_next_user_ref_num cg) + 1"
    using ref(2) by (auto simp: cg1_def unat_word_ariths)
  then show "0 < n \<longrightarrow> unat (cg_next_user_ref_num cg') = unat (cg_next_user_ref_num cg) + 1"
    "generating c n cg'" using c cfg ref(2) by (auto simp: cg' generating_def word_less_nat_alt)
qed

lemma candidates_good:
  "generating c n cg \<Longrightarrow> length (candidates n cg) = n
     \<and> list_all (good_candidate c) (candidates n cg)
     \<and> map (\<lambda>m. unat (eo_user_ref_num m)) (candidates n cg) = [unat (cg_next_user_ref_num cg)..<unat (cg_next_user_ref_num cg) + n]"
proof (induction n arbitrary: cg)
  case (Suc n)
  obtain m cg' where m: "next_enter_order cg = (m, cg')" by (cases "next_enter_order cg")
  note good = next_enter_order_good [OF Suc.prems m]
  from Suc.IH [OF good(3)] good show ?case
    by (cases n) (simp_all add: m upt_conv_Cons del: upt_Suc)
qed simp

lemma candidates_distinct:
  assumes "generating c n cg"
  shows "distinct (map eo_user_ref_num (candidates n cg))"
proof -
  have "distinct (map unat (map eo_user_ref_num (candidates n cg)))"
    using candidates_good [OF assms] by (simp add: comp_def)
  then show ?thesis by (simp only: distinct_map)
qed

section \<open>The exchange under a stream of fresh orders\<close>

definition risk_passes :: "risk_limits \<Rightarrow> enter_order_message \<Rightarrow> bool" where
  "risk_passes limits m \<longleftrightarrow>
     within_limits (rl_max_order_quantity limits) (rl_max_order_notional limits) (eo_quantity m) (eo_price m)"

text \<open>The exchange after the orders \<open>taken\<close>, all entered and none replaced, cancelled or filled.\<close>

definition exchange_after :: "risk_limits \<Rightarrow> enter_order_message list \<Rightarrow> execution_engine \<Rightarrow> bool" where
  "exchange_after limits taken xe \<longleftrightarrow> xe_risk xe = make_risk_supervisor limits
     \<and> dom (le_live_orders (xe_lifecycle xe)) = eo_user_ref_num ` set (filter (risk_passes limits) taken)
     \<and> list_all (\<lambda>m. risk_passes limits m \<longrightarrow> eo_user_ref_num m \<le> le_highest_user_ref_num (xe_lifecycle xe)) taken
     \<and> (le_highest_user_ref_num (xe_lifecycle xe) = 0
        \<or> le_highest_user_ref_num (xe_lifecycle xe) \<in> eo_user_ref_num ` set taken)"

lemma check_enter_fresh:
  "rr_decision (check_enter (make_risk_supervisor limits) m) = (if risk_passes limits m then RD_accepted else RD_rejected)"
  using check_common_accepted [of "make_risk_supervisor limits" "eo_user_ref_num m" "eo_quantity m" "eo_price m" "eo_symbol m"]
  by (cases "rr_decision (check_enter (make_risk_supervisor limits) m)")
     (auto simp: check_enter_def risk_passes_def make_risk_supervisor_def rs_is_symbol_enabled_def)

lemma submit_enter_fresh:
  assumes xe: "exchange_after limits taken xe" and ok: "is_valid_enter_order_message m"
    and fresh: "list_all (\<lambda>t. eo_user_ref_num t < eo_user_ref_num m) taken"
    and s: "submit_enter m xe = (r, xe')"
  shows "(er_decision r = ED_accepted \<longleftrightarrow> risk_passes limits m)" "exchange_after limits (taken @ [m]) xe'"
proof -
  let ?le = "xe_lifecycle xe"
  have high: "le_highest_user_ref_num ?le < eo_user_ref_num m"
    using xe fresh ok
    by (auto simp: exchange_after_def list_all_iff is_valid_enter_order_message_def is_valid_user_ref_num_def)
  then have stale: "\<not> eo_user_ref_num m \<le> le_highest_user_ref_num ?le" by simp
  have new: "le_live_orders ?le (eo_user_ref_num m) = None"
  proof -
    have "eo_user_ref_num m \<notin> dom (le_live_orders ?le)" using xe fresh by (auto simp: exchange_after_def list_all_iff)
    then show ?thesis by (simp add: domIff)
  qed
  have risk: "xe_risk xe = make_risk_supervisor limits" using xe by (simp add: exchange_after_def)
  show "er_decision r = ED_accepted \<longleftrightarrow> risk_passes limits m"
    using s ok high stale new risk check_enter_fresh [of limits m]
    by (auto simp: submit_enter_def le_enter_def le_contains_def is_stale_user_ref_def from_lifecycle_def lr_accepted_def
      from_risk_reject_def Let_def split: if_splits)
  show "exchange_after limits (taken @ [m]) xe'"
  proof (cases "risk_passes limits m")
    case True
    have "xe' = xe\<lparr>xe_lifecycle := \<lparr>le_live_orders = (le_live_orders ?le)(eo_user_ref_num m \<mapsto> make_live_order m),
        le_highest_user_ref_num = eo_user_ref_num m\<rparr>\<rparr>"
      using s ok high stale new risk check_enter_fresh [of limits m] True
      by (auto simp: submit_enter_def le_enter_def le_contains_def is_stale_user_ref_def remember_user_ref_def Let_def)
    with xe fresh True show ?thesis by (auto simp: exchange_after_def list_all_iff less_imp_le)
  next
    case False
    then have "xe' = xe" using s risk check_enter_fresh [of limits m] by (auto simp: submit_enter_def Let_def)
    with xe False show ?thesis by (auto simp: exchange_after_def)
  qed
qed

lemma exchange_start: "exchange_after limits [] (make_execution_engine (make_risk_supervisor limits))"
  by (simp add: exchange_after_def make_execution_engine_def new_lifecycle_engine_def)

lemma exchange_live_count:
  assumes "exchange_after limits taken xe" "distinct (map eo_user_ref_num taken)"
  shows "live_order_count (xe_lifecycle xe) = length (filter (risk_passes limits) taken)"
proof -
  have "distinct (map eo_user_ref_num (filter (risk_passes limits) taken))" using assms(2) by (rule distinct_map_filter)
  from distinct_card [OF this] show ?thesis using assms(1) by (simp add: live_order_count_def exchange_after_def)
qed

section \<open>The simulated clock\<close>

definition total_duration :: "stage_durations \<Rightarrow> nat" where
  "total_duration d = unat (sdu_ingest_to_decode_ns d) + unat (sdu_decode_to_book_update_ns d)
     + unat (sdu_book_update_to_risk_ns d) + unat (sdu_risk_to_lifecycle_ns d) + unat (sdu_lifecycle_to_enqueue_ns d)
     + unat (sdu_enqueue_to_submit_ns d)"

lemma unat_per_candidate_latency: "total_duration d < 2 ^ 64 \<Longrightarrow> unat (per_candidate_latency d) = total_duration d"
  by (simp add: per_candidate_latency_def total_duration_def unat_word_ariths)

lemma unat_candidate_base:
  assumes "i * unat spacing < 2 ^ 64" "i < 2 ^ 64"
  shows "unat (candidate_base_timestamp i spacing) = i * unat spacing"
proof -
  have i: "unat (of_nat i :: u64) = i" using assms(2) by (simp add: unat_of_nat)
  have "\<not> (spacing \<noteq> 0 \<and> of_nat i > u64_max div spacing)"
  proof
    assume *: "spacing \<noteq> 0 \<and> of_nat i > u64_max div spacing"
    then have "(2 ^ 64 - 1) div unat spacing < i" by (simp add: word_less_nat_alt i unat_div)
    then have "2 ^ 64 - 1 < i * unat spacing" using div_less_iff_less_mult [of "unat spacing" "2 ^ 64 - 1" i] * by (simp add: unat_gt_0)
    with assms(1) show False by simp
  qed
  then show ?thesis using assms(1) i by (auto simp: candidate_base_timestamp_def Let_def unat_word_ariths)
qed

lemma te_user_ref_timestamp [simp]: "te_timestamp (te\<lparr>te_user_ref_num := r\<rparr>) s = te_timestamp te s"
  "te_wf (te\<lparr>te_user_ref_num := r\<rparr>) = te_wf te"
  by (simp_all add: te_timestamp_def te_has_def te_wf_def)

lemma marked_latency:
  assumes "unat base + total_duration d < 2 ^ 64"
  shows "te_end_to_end_latency (mark_pipeline_timestamps base d (new_telemetry_event\<lparr>te_user_ref_num := r\<rparr>)) = Some (per_candidate_latency d)"
proof -
  let ?t = "base + sdu_ingest_to_decode_ns d + sdu_decode_to_book_update_ns d + sdu_book_update_to_risk_ns d
     + sdu_risk_to_lifecycle_ns d + sdu_lifecycle_to_enqueue_ns d + sdu_enqueue_to_submit_ns d"
  have "te_timestamp (mark_pipeline_timestamps base d (new_telemetry_event\<lparr>te_user_ref_num := r\<rparr>)) PS_ingest = Some base"
    "te_timestamp (mark_pipeline_timestamps base d (new_telemetry_event\<lparr>te_user_ref_num := r\<rparr>)) PS_submit = Some ?t"
    by (simp_all add: mark_pipeline_timestamps_def Let_def te_timestamp_mark)
  moreover have "?t = base + per_candidate_latency d" by (simp add: per_candidate_latency_def ac_simps)
  moreover have "base \<le> base + per_candidate_latency d"
    using assms unat_per_candidate_latency [of d] by (simp add: word_le_nat_alt unat_word_ariths)
  ultimately show ?thesis by (simp add: te_end_to_end_latency_def te_latency_def not_less [symmetric])
qed

section \<open>The loop of the benchmark\<close>

definition benchmark_inv ::
  "candidate_config \<Rightarrow> risk_limits \<Rightarrow> stage_durations \<Rightarrow> enter_order_message list \<Rightarrow> nat \<Rightarrow> benchmark_state \<Rightarrow> bool" where
  "benchmark_inv c limits d taken left st \<longleftrightarrow>
     generating c left (bst_generator st) \<and> exchange_after limits taken (bst_engine st)
     \<and> (0 < left \<longrightarrow> list_all (\<lambda>t. eo_user_ref_num t < cg_next_user_ref_num (bst_generator st)) taken)
     \<and> lrec_samples (bst_recorder st) = replicate (length taken) (per_candidate_latency d)
     \<and> bst_accepted st = length (filter (risk_passes limits) taken)
     \<and> bst_rejected st = length (filter (\<lambda>m. \<not> risk_passes limits m) taken)"

lemma benchmark_step_inv:
  assumes inv: "benchmark_inv c limits d taken (Suc left) st"
    and room: "(length taken + Suc left) * (unat (sdu_candidate_spacing_ns d) + total_duration d) < 2 ^ 64" "length taken < 2 ^ 64"
    and m: "next_enter_order (bst_generator st) = (m, generator)"
  shows "benchmark_inv c limits d (taken @ [m]) left (benchmark_step d (length taken) st)"
    "bst_generator (benchmark_step d (length taken) st) = generator"
proof -
  let ?i = "length taken" and ?s = "sdu_candidate_spacing_ns d"
  have g: "generating c (Suc left) (bst_generator st)" using inv by (simp add: benchmark_inv_def)
  note good = next_enter_order_good [OF g m]
  obtain r engine where s: "submit_enter m (bst_engine st) = (r, engine)" by (cases "submit_enter m (bst_engine st)")
  have "is_valid_enter_order_message m" using good(1) by (simp add: good_candidate_def)
  from submit_enter_fresh [OF _ this _ s, of limits taken] inv good(2)
  have e: "er_decision r = ED_accepted \<longleftrightarrow> risk_passes limits m" "exchange_after limits (taken @ [m]) engine"
    by (simp_all add: benchmark_inv_def)
  have fit: "?i * unat ?s + total_duration d < 2 ^ 64"
  proof -
    have "?i * unat ?s + total_duration d \<le> (?i + Suc left) * (unat ?s + total_duration d)"
      by (simp add: algebra_simps)
    with room(1) show ?thesis by simp
  qed
  then have "unat (candidate_base_timestamp ?i ?s) = ?i * unat ?s" using room(2) by (intro unat_candidate_base) auto
  then have lat: "te_end_to_end_latency (mark_pipeline_timestamps (candidate_base_timestamp ?i ?s) d
      (new_telemetry_event\<lparr>te_user_ref_num := eo_user_ref_num m\<rparr>)) = Some (per_candidate_latency d)"
    using fit by (intro marked_latency) simp
  have "0 < left \<Longrightarrow> eo_user_ref_num m < cg_next_user_ref_num generator
      \<and> cg_next_user_ref_num (bst_generator st) \<le> cg_next_user_ref_num generator"
    using good(2,4) by (simp add: word_less_nat_alt word_le_nat_alt)
  then show "benchmark_inv c limits d (taken @ [m]) left (benchmark_step d ?i st)"
    using inv good(3) e lat
    by (auto simp: benchmark_inv_def benchmark_step_def m s Let_def record_end_to_end_def lrec_record_def list_all_iff
      replicate_append_same dest: less_le_trans)
  show "bst_generator (benchmark_step d ?i st) = generator" by (simp add: benchmark_step_def m s Let_def)
qed

lemma benchmark_loop_inv:
  assumes "benchmark_inv c limits d taken left st" "length taken + left \<le> 2 ^ 64"
    and "(length taken + left) * (unat (sdu_candidate_spacing_ns d) + total_duration d) < 2 ^ 64"
  shows "benchmark_inv c limits d (taken @ candidates left (bst_generator st)) 0
     (fold (benchmark_step d) [length taken..<length taken + left] st)"
  using assms
proof (induction left arbitrary: taken st)
  case (Suc left)
  obtain m generator where m: "next_enter_order (bst_generator st) = (m, generator)"
    by (cases "next_enter_order (bst_generator st)")
  have "length taken < 2 ^ 64" using Suc.prems(2) by simp
  note step = benchmark_step_inv [OF Suc.prems(1,3) this m]
  from Suc.IH [OF step(1)] Suc.prems(2,3) show ?case
    by (simp add: m step(2) upt_conv_Cons del: upt_Suc)
qed simp

lemma benchmark_start_inv:
  "candidate_config_ok n (xb_generator_config config) \<Longrightarrow>
     benchmark_inv (xb_generator_config config) (xb_risk_limits config) d [] n (benchmark_start config)"
  by (simp add: benchmark_inv_def benchmark_start_def generating_start exchange_start)

text \<open>A summary of equal samples.\<close>

lemma summarize_replicate:
  assumes "0 < n" "n * unat x < 2 ^ 64" "n < 2 ^ 64"
  shows "summarize_latencies (replicate n x) = Some \<lparr>ls_count = n, ls_min_ns = x, ls_max_ns = x, ls_mean_ns = x,
    ls_p50_ns = x, ls_p90_ns = x, ls_p99_ns = x, ls_p999_ns = x, ls_warmup_count = 0\<rparr>"
proof -
  have sorted: "sort (replicate n x) = replicate n x" by (intro sorted_sort_id) (simp add: sorted_replicate)
  have idx: "percentile_index n a b < n" for a b using assms(1) by (auto simp: percentile_index_def Let_def)
  have "unat (foldl saturating_add 0 (replicate n x) div of_nat n) = unat x"
    using assms by (simp add: unat_div unat_foldl_saturating_add unat_of_nat sum_list_replicate min_def)
  then have "foldl saturating_add 0 (replicate n x) div of_nat n = x" by (simp add: word_unat_eq_iff)
  with assms(1) idx sorted show ?thesis
    by (simp add: summarize_latencies_def percentile_nearest_rank_def Let_def hd_replicate last_replicate)
qed

lemma unat_candidates_per_second:
  assumes "n * 1000000000 < 2 ^ 64"
  shows "unat (calculate_candidates_per_second n elapsed) = n * 1000000000 div unat elapsed"
proof -
  have n: "unat (of_nat n :: u64) = n" using assms by (simp add: unat_of_nat)
  have "\<not> of_nat n > (u64_max div 1000000000 :: u64)" using assms by (simp add: word_less_nat_alt n unat_div)
  then show ?thesis using assms n
    by (auto simp: calculate_candidates_per_second_def Let_def unat_div unat_word_ariths)
qed

section \<open>Properties\<close>

text \<open>
  Every order the generator produces is valid for the wire and decodes to itself, its reference numbers are
  consecutive from the configured one, its client identifiers are all different, its symbol is a configured one and
  its quantity is between the adjusted bounds, for every configuration whose texts, quantities and prices fit the wire
  and whose reference numbers do not run out.\<close>

theorem candidates_valid:
  assumes "candidate_config_ok n c"
  defines "ms \<equiv> candidates n (make_candidate_generator c)"
  shows "length ms = n \<and> distinct (map eo_cl_ord_id ms)
    \<and> map (\<lambda>m. unat (eo_user_ref_num m)) ms = [unat (cc_first_user_ref_num c)..<unat (cc_first_user_ref_num c) + n]
    \<and> list_all (\<lambda>m. ouch_decode_message (ouch_image (EnterOrder m)) = Ok (EnterOrder m)
        \<and> eo_symbol m \<in> set (cc_symbols (normalize_candidate_config c))
        \<and> cc_min_quantity (normalize_candidate_config c) \<le> eo_quantity m
        \<and> eo_quantity m \<le> cc_max_quantity (normalize_candidate_config c)) ms"
proof -
  note g = generating_start [OF assms(1)]
  note good = candidates_good [OF g, folded ms_def]
  have "map eo_cl_ord_id ms = map (make_cl_ord_id \<circ> eo_user_ref_num) ms"
    using good by (auto simp: good_candidate_def list_all_iff)
  then have "distinct (map eo_cl_ord_id ms)"
    using candidates_distinct [OF g, folded ms_def]
    by (simp add: distinct_map comp_inj_on inj_on_def make_cl_ord_id_inject)
  with good show ?thesis
    by (auto simp: make_candidate_generator_def good_candidate_def list_all_iff ouch_decode_message_iff
      simp del: ouch_ok.simps ouch_typed.simps ouch_image.simps)
qed

lemma default_candidates_ok: "n < 2 ^ 32 \<Longrightarrow> candidate_config_ok n default_candidate_config"
  by (simp add: candidate_config_ok_def default_candidate_config_def)

theorem candidates_valid_witness:
  "map (\<lambda>m. unat (eo_user_ref_num m)) (candidates 3 (make_candidate_generator default_candidate_config)) = [1, 2, 3]"
  using candidates_valid [OF default_candidates_ok [of 3]] by (simp add: default_candidate_config_def upt_rec)

lemma execution_benchmark_figures:
  assumes "candidate_config_ok n (xb_generator_config config)" "xb_candidate_count config = n" "0 < n"
    and "d = xb_stage_durations config" "n * (unat (sdu_candidate_spacing_ns d) + total_duration d) < 2 ^ 64"
    and "n * 1000000000 < 2 ^ 64"
  defines "ms \<equiv> candidates n (make_candidate_generator (xb_generator_config config))"
    and "r \<equiv> run_execution_benchmark config"
  shows "xr_accepted_count r = length (filter (risk_passes (xb_risk_limits config)) ms)
    \<and> xr_accepted_count r + xr_rejected_count r = n \<and> xr_live_order_count r = xr_accepted_count r
    \<and> unat (xr_simulated_elapsed_ns r) = (n - 1) * unat (sdu_candidate_spacing_ns d) + total_duration d
    \<and> unat (xr_candidates_per_second r) = n * 1000000000 div unat (xr_simulated_elapsed_ns r)
    \<and> (\<exists>s. xr_end_to_end_latency r = Some s \<and> ls_count s = n
        \<and> list_all (\<lambda>x. unat x = total_duration d)
            [ls_min_ns s, ls_max_ns s, ls_mean_ns s, ls_p50_ns s, ls_p90_ns s, ls_p99_ns s, ls_p999_ns s])"
proof -
  let ?s = "unat (sdu_candidate_spacing_ns d)" and ?D = "total_duration d"
  define st where "st = fold (benchmark_step d) [0..<n] (benchmark_start config)"
  have inv: "benchmark_inv (xb_generator_config config) (xb_risk_limits config) d ms 0 st"
    using benchmark_loop_inv [OF benchmark_start_inv [OF assms(1), of d]] assms(5,6)
    by (simp add: st_def ms_def benchmark_start_def)
  note g = generating_start [OF assms(1)]
  have ms: "length ms = n" "distinct (map eo_user_ref_num ms)"
    using candidates_good [OF g] candidates_distinct [OF g] by (simp_all add: ms_def)
  have "1 * (?s + ?D) \<le> n * (?s + ?D)" using assms(3) by (intro mult_right_mono) auto
  then have D: "unat (per_candidate_latency d) = ?D" "n * ?D < 2 ^ 64"
    using assms(5) by (auto simp: unat_per_candidate_latency add_mult_distrib2)
  have last: "(n - 1) * ?s + ?D \<le> n * (?s + ?D)" using assms(3) by (cases n) (simp_all add: algebra_simps)
  then have "unat (candidate_base_timestamp (n - 1) (sdu_candidate_spacing_ns d)) = (n - 1) * ?s"
    using assms(5,6) by (intro unat_candidate_base) auto
  then have elapsed: "unat (xr_simulated_elapsed_ns r) = (n - 1) * ?s + ?D"
    using assms(2-5) last D(1) by (simp add: r_def run_execution_benchmark_def Let_def unat_word_ariths)
  have "xr_candidates_per_second r = calculate_candidates_per_second n (xr_simulated_elapsed_ns r)"
    using assms(2) by (simp add: r_def run_execution_benchmark_def Let_def)
  then have rate: "unat (xr_candidates_per_second r) = n * 1000000000 div unat (xr_simulated_elapsed_ns r)"
    by (simp add: unat_candidates_per_second [OF assms(6)])
  have "xr_end_to_end_latency r = summarize_latencies (replicate n (per_candidate_latency d))"
    using inv ms(1) assms(2,4)
    by (simp add: r_def run_execution_benchmark_def Let_def st_def benchmark_inv_def lrec_summary_def)
  then have lat: "\<exists>s. xr_end_to_end_latency r = Some s \<and> ls_count s = n
        \<and> list_all (\<lambda>x. unat x = ?D)
            [ls_min_ns s, ls_max_ns s, ls_mean_ns s, ls_p50_ns s, ls_p90_ns s, ls_p99_ns s, ls_p999_ns s]"
    using summarize_replicate [OF assms(3), of "per_candidate_latency d"] D assms(6) by simp
  have counts: "xr_accepted_count r = length (filter (risk_passes (xb_risk_limits config)) ms)"
    "xr_rejected_count r = length (filter (\<lambda>m. \<not> risk_passes (xb_risk_limits config) m) ms)"
    "xr_live_order_count r = live_order_count (xe_lifecycle (bst_engine st))"
    using inv assms(2,4) by (simp_all add: r_def run_execution_benchmark_def Let_def st_def benchmark_inv_def)
  have "exchange_after (xb_risk_limits config) ms (bst_engine st)" using inv by (simp add: benchmark_inv_def)
  note live = exchange_live_count [OF this ms(2)]
  have "xr_accepted_count r + xr_rejected_count r = n"
    using sum_length_filter_compl [of "risk_passes (xb_risk_limits config)" ms] counts(1,2) ms(1) by simp
  with counts live elapsed rate lat show ?thesis by simp
qed

text \<open>
  What the execution benchmark reports is what happened. With simulated times that fit 64 bits, the accepted
  candidates are exactly those within the risk limits, the others are counted as rejected, every accepted order is
  still live at the end, the simulated time is that of the last candidate plus its way through the pipeline, the rate
  is the exact quotient, and all latency figures are the sum of the stage durations.\<close>

theorem execution_benchmark_exact:
  assumes "candidate_config_ok n (xb_generator_config config)" "xb_candidate_count config = n" "0 < n"
    and "d = xb_stage_durations config" "n * (unat (sdu_candidate_spacing_ns d) + total_duration d) < 2 ^ 64"
    and "n * 1000000000 < 2 ^ 64"
  defines "ms \<equiv> candidates n (make_candidate_generator (xb_generator_config config))"
    and "r \<equiv> run_execution_benchmark config"
  shows "xr_accepted_count r = length (filter (risk_passes (xb_risk_limits config)) ms)
    \<and> xr_accepted_count r + xr_rejected_count r = n \<and> xr_live_order_count r = xr_accepted_count r
    \<and> unat (xr_simulated_elapsed_ns r) = (n - 1) * unat (sdu_candidate_spacing_ns d) + total_duration d
    \<and> unat (xr_candidates_per_second r) = n * 1000000000 div unat (xr_simulated_elapsed_ns r)
    \<and> (\<exists>s. xr_end_to_end_latency r = Some s \<and> ls_count s = n
        \<and> list_all (\<lambda>x. unat x = total_duration d)
            [ls_min_ns s, ls_max_ns s, ls_mean_ns s, ls_p50_ns s, ls_p90_ns s, ls_p99_ns s, ls_p999_ns s])"
  using execution_benchmark_figures [OF assms(1-6)] unfolding ms_def r_def .

definition default_benchmark :: execution_benchmark_config where
  "default_benchmark = \<lparr>xb_candidate_count = 1000, xb_generator_config = default_candidate_config,
     xb_risk_limits = default_risk_limits, xb_stage_durations = default_stage_durations\<rparr>"

theorem execution_benchmark_exact_witness:
  "xr_accepted_count (run_execution_benchmark default_benchmark) + xr_rejected_count (run_execution_benchmark default_benchmark) = 1000
   \<and> unat (xr_simulated_elapsed_ns (run_execution_benchmark default_benchmark)) = 999130"
  using execution_benchmark_exact [of 1000 default_benchmark default_stage_durations] default_candidates_ok [of 1000]
  by (simp add: default_benchmark_def default_stage_durations_def total_duration_def)

end
