(* ===== verification/Backend_Bench.thy ===== *)
theory Backend_Bench
  imports Backend_Factory Telemetry
begin

text \<open>
  The benchmarks of the backends and of the guardrail control path: \<^verbatim>\<open>src/bench/backend_benchmark.cpp\<close>,
  \<^verbatim>\<open>src/bench/wall_clock_backend_benchmark.cpp\<close> and \<^verbatim>\<open>src/gate/guardrail_update_benchmark.cpp\<close>. They drive any backend
  through the factory; what the kernel, the DPDK library and the clock answer to the calls of a run is an argument,
  indexed by the number of the submission.
\<close>

section \<open>Submitting to a backend made by the factory\<close>

record bench_env =
  ben_pton :: pton
  ben_socket :: int
  ben_have_dpdk :: bool
  ben_dpdk :: dpdk_env
  ben_sendto :: "nat \<Rightarrow> int"
  ben_mbuf :: "nat \<Rightarrow> bytes option"
  ben_append :: "nat \<Rightarrow> bool"
  ben_tx_burst :: "nat \<Rightarrow> nat"
  ben_clock :: "nat \<Rightarrow> int"

text \<open>The virtual call \<^verbatim>\<open>ExecutionBackend::submit\<close> as the \<open>i\<close>-th submission; \<^const>\<open>None\<close> is undefined behaviour.\<close>

definition any_submit ::
  "bench_env \<Rightarrow> nat \<Rightarrow> backend_submit_request \<Rightarrow> any_backend \<Rightarrow> (backend_submit_result \<times> any_backend) option" where
  "any_submit env i request backend =
     (case backend of
        AB_recording rb \<Rightarrow> (case recording_submit request rb of (r, rb1) \<Rightarrow> Some (r, AB_recording rb1))
      | AB_kernel_udp kb \<Rightarrow> Some (fst (ku_submit (ben_pton env) (ben_sendto env i) request kb), backend)
      | AB_afxdp ax \<Rightarrow> (case ax_submit request ax of (r, ax1) \<Rightarrow> Some (r, AB_afxdp ax1))
      | AB_dpdk db \<Rightarrow> map_option (\<lambda>(r, calls). (r, backend))
          (dp_submit (ben_have_dpdk env) (ben_mbuf env i) (ben_append env i) (ben_tx_burst env i) request db))"

definition make_payload :: "nat \<Rightarrow> bytes" where
  "make_payload payload_size = map (\<lambda>index. of_nat (index mod 256)) [0..<payload_size]"

definition calculate_rate :: "nat \<Rightarrow> u64 \<Rightarrow> u64" where
  "calculate_rate n elapsed_ns =
     (if n = 0 \<or> elapsed_ns = 0 then 0
      else
        let safe_count = of_nat n :: u64
        in if safe_count > u64_max div 1000000000 then u64_max else (safe_count * 1000000000) div elapsed_ns)"

definition bench_request :: "nat \<Rightarrow> bytes \<Rightarrow> backend_submit_request" where
  "bench_request index payload = \<lparr>bsq_user_ref_num = of_nat (index + 1), bsq_kind = BK_enter, bsq_payload = payload\<rparr>"

section \<open>The simulated benchmark\<close>

record backend_benchmark_config =
  bbc_technologies :: "backend_technology list"
  bbc_submission_count :: nat
  bbc_payload_size :: nat
  bbc_base_submit_latency_ns :: u64
  bbc_latency_jitter_step_ns :: u64
  bbc_latency_jitter_period :: u64
  bbc_kernel_udp :: kernel_udp_config
  bbc_afxdp :: afxdp_config
  bbc_dpdk :: dpdk_config

record backend_benchmark_result =
  bbr_technology :: backend_technology
  bbr_submission_count :: nat
  bbr_accepted_count :: nat
  bbr_rejected_count :: nat
  bbr_simulated_elapsed_ns :: u64
  bbr_submissions_per_second :: u64
  bbr_submit_latency :: "latency_summary option"

definition simulated_submit_latency :: "nat \<Rightarrow> backend_benchmark_config \<Rightarrow> u64" where
  "simulated_submit_latency index config =
     (if bbc_latency_jitter_period config = 0 then bbc_base_submit_latency_ns config
      else
        let jitter_slot = of_nat (index mod unat (bbc_latency_jitter_period config)) :: u64
        in bbc_base_submit_latency_ns config + jitter_slot * bbc_latency_jitter_step_ns config)"

definition factory_config_for :: "backend_benchmark_config \<Rightarrow> backend_technology \<Rightarrow> backend_factory_config" where
  "factory_config_for config technology = \<lparr>bf_technology = technology, bf_kernel_udp = bbc_kernel_udp config,
     bf_afxdp = bbc_afxdp config, bf_dpdk = bbc_dpdk config, bf_recording_max_submissions = 0\<rparr>"

text \<open>The variables of the loop.\<close>

record bench_loop_state =
  bls_backend :: any_backend
  bls_recorder :: latency_recorder
  bls_accepted :: nat
  bls_rejected :: nat
  bls_elapsed :: u64

definition count_result :: "backend_submit_result \<Rightarrow> bench_loop_state \<Rightarrow> bench_loop_state" where
  "count_result r st =
     (if bsr_decision r = BSD_accepted then st\<lparr>bls_accepted := bls_accepted st + 1\<rparr>
      else st\<lparr>bls_rejected := bls_rejected st + 1\<rparr>)"

fun backend_benchmark_loop ::
  "bench_env \<Rightarrow> backend_benchmark_config \<Rightarrow> bytes \<Rightarrow> nat list \<Rightarrow> bench_loop_state \<Rightarrow> bench_loop_state option" where
  "backend_benchmark_loop env config payload [] st = Some st"
| "backend_benchmark_loop env config payload (index # indices) st =
     (case any_submit env index (bench_request index payload) (bls_backend st) of
        None \<Rightarrow> None
      | Some (r, backend) \<Rightarrow>
          let st1 = count_result r (st\<lparr>bls_backend := backend\<rparr>);
              latency = simulated_submit_latency index config
          in backend_benchmark_loop env config payload indices
               (st1\<lparr>bls_elapsed := bls_elapsed st1 + latency, bls_recorder := lrec_record latency (bls_recorder st1)\<rparr>))"

definition bench_loop_start :: "any_backend \<Rightarrow> bench_loop_state" where
  "bench_loop_start backend =
     \<lparr>bls_backend = backend, bls_recorder = \<lparr>lrec_samples = []\<rparr>, bls_accepted = 0, bls_rejected = 0, bls_elapsed = 0\<rparr>"

definition run_backend_benchmark_for ::
  "bench_env \<Rightarrow> backend_benchmark_config \<Rightarrow> backend_technology \<Rightarrow> backend_benchmark_result option" where
  "run_backend_benchmark_for env config technology =
     (let backend = make_execution_backend (ben_pton env) (ben_socket env) (ben_have_dpdk env) (ben_dpdk env)
            (factory_config_for config technology);
          n = bbc_submission_count config
      in case backend_benchmark_loop env config (make_payload (bbc_payload_size config)) [0..<n] (bench_loop_start backend) of
           None \<Rightarrow> None
         | Some st \<Rightarrow> Some \<lparr>bbr_technology = technology, bbr_submission_count = n, bbr_accepted_count = bls_accepted st,
             bbr_rejected_count = bls_rejected st, bbr_simulated_elapsed_ns = bls_elapsed st,
             bbr_submissions_per_second = calculate_rate n (bls_elapsed st),
             bbr_submit_latency = lrec_summary (bls_recorder st)\<rparr>)"

text \<open>The technologies are run in turn; \<open>envs i\<close> is the environment of the \<open>i\<close>-th run.\<close>

fun run_backend_benchmarks ::
  "(nat \<Rightarrow> bench_env) \<Rightarrow> backend_benchmark_config \<Rightarrow> nat \<Rightarrow> backend_technology list \<Rightarrow> backend_benchmark_result list option" where
  "run_backend_benchmarks envs config i [] = Some []"
| "run_backend_benchmarks envs config i (technology # technologies) =
     (case run_backend_benchmark_for (envs i) config technology of
        None \<Rightarrow> None
      | Some r \<Rightarrow> map_option ((#) r) (run_backend_benchmarks envs config (Suc i) technologies))"

definition run_backend_benchmark :: "(nat \<Rightarrow> bench_env) \<Rightarrow> backend_benchmark_config \<Rightarrow> backend_benchmark_result list option" where
  "run_backend_benchmark envs config = run_backend_benchmarks envs config 0 (bbc_technologies config)"

section \<open>The wall-clock benchmark\<close>

record wall_clock_config =
  wcc_technologies :: "backend_technology list"
  wcc_submission_count :: nat
  wcc_payload_size :: nat
  wcc_record_per_submit_latency :: bool
  wcc_kernel_udp :: kernel_udp_config
  wcc_afxdp :: afxdp_config
  wcc_dpdk :: dpdk_config

record wall_clock_result =
  wcr_technology :: backend_technology
  wcr_submission_count :: nat
  wcr_accepted_count :: nat
  wcr_rejected_count :: nat
  wcr_elapsed_ns :: u64
  wcr_submissions_per_second :: u64
  wcr_submit_latency :: "latency_summary option"

definition to_duration_ns :: "int \<Rightarrow> u64" where
  "to_duration_ns ns = (if ns \<le> 0 then 0 else of_int ns)"

definition wall_clock_factory_config_for :: "wall_clock_config \<Rightarrow> backend_technology \<Rightarrow> backend_factory_config" where
  "wall_clock_factory_config_for config technology = \<lparr>bf_technology = technology, bf_kernel_udp = wcc_kernel_udp config,
     bf_afxdp = wcc_afxdp config, bf_dpdk = wcc_dpdk config, bf_recording_max_submissions = 0\<rparr>"

text \<open>
  The clock is read once before the loop, twice around each submission when latencies are recorded, and once after
  the loop; \<open>ben_clock\<close> gives the readings in this order.\<close>

fun wall_clock_loop ::
  "bench_env \<Rightarrow> bool \<Rightarrow> bytes \<Rightarrow> nat list \<Rightarrow> bench_loop_state \<Rightarrow> bench_loop_state option" where
  "wall_clock_loop env record_latency payload [] st = Some st"
| "wall_clock_loop env record_latency payload (index # indices) st =
     (case any_submit env index (bench_request index payload) (bls_backend st) of
        None \<Rightarrow> None
      | Some (r, backend) \<Rightarrow>
          let st1 = st\<lparr>bls_backend := backend\<rparr>;
              st2 = (if record_latency
                then st1\<lparr>bls_recorder := lrec_record
                  (to_duration_ns (ben_clock env (2 * index + 2) - ben_clock env (2 * index + 1))) (bls_recorder st1)\<rparr>
                else st1)
          in wall_clock_loop env record_latency payload indices (count_result r st2))"

definition run_wall_clock_backend_benchmark_for ::
  "bench_env \<Rightarrow> wall_clock_config \<Rightarrow> backend_technology \<Rightarrow> wall_clock_result option" where
  "run_wall_clock_backend_benchmark_for env config technology =
     (let backend = make_execution_backend (ben_pton env) (ben_socket env) (ben_have_dpdk env) (ben_dpdk env)
            (wall_clock_factory_config_for config technology);
          n = wcc_submission_count config;
          recording = wcc_record_per_submit_latency config
      in case wall_clock_loop env recording (make_payload (wcc_payload_size config)) [0..<n] (bench_loop_start backend) of
           None \<Rightarrow> None
         | Some st \<Rightarrow>
             let elapsed = to_duration_ns (ben_clock env (if recording then 2 * n + 1 else 1) - ben_clock env 0)
             in Some \<lparr>wcr_technology = technology, wcr_submission_count = n, wcr_accepted_count = bls_accepted st,
                  wcr_rejected_count = bls_rejected st, wcr_elapsed_ns = elapsed,
                  wcr_submissions_per_second = calculate_rate n elapsed,
                  wcr_submit_latency = (if recording then lrec_summary (bls_recorder st) else None)\<rparr>)"

fun run_wall_clock_backend_benchmarks ::
  "(nat \<Rightarrow> bench_env) \<Rightarrow> wall_clock_config \<Rightarrow> nat \<Rightarrow> backend_technology list \<Rightarrow> wall_clock_result list option" where
  "run_wall_clock_backend_benchmarks envs config i [] = Some []"
| "run_wall_clock_backend_benchmarks envs config i (technology # technologies) =
     (case run_wall_clock_backend_benchmark_for (envs i) config technology of
        None \<Rightarrow> None
      | Some r \<Rightarrow> map_option ((#) r) (run_wall_clock_backend_benchmarks envs config (Suc i) technologies))"

definition run_wall_clock_backend_benchmark ::
  "(nat \<Rightarrow> bench_env) \<Rightarrow> wall_clock_config \<Rightarrow> wall_clock_result list option" where
  "run_wall_clock_backend_benchmark envs config = run_wall_clock_backend_benchmarks envs config 0 (wcc_technologies config)"

section \<open>The guardrail update benchmark\<close>

record guardrail_benchmark_config =
  gbc_update_count :: nat
  gbc_base_update_latency_ns :: u64
  gbc_latency_jitter_step_ns :: u64
  gbc_latency_jitter_period :: u64

record guardrail_benchmark_result =
  gbr_update_count :: nat
  gbr_applied_count :: nat
  gbr_dropped_count :: nat
  gbr_simulated_elapsed_ns :: u64
  gbr_update_latency :: "latency_summary option"

definition simulated_update_latency :: "nat \<Rightarrow> guardrail_benchmark_config \<Rightarrow> u64" where
  "simulated_update_latency index config =
     (if gbc_latency_jitter_period config = 0 then gbc_base_update_latency_ns config
      else
        let jitter_slot = of_nat (index mod unat (gbc_latency_jitter_period config)) :: u64
        in gbc_base_update_latency_ns config + jitter_slot * gbc_latency_jitter_step_ns config)"

definition make_update_for_index ::
  "nat \<Rightarrow> guardrail_control_path \<Rightarrow> guardrail_update \<times> guardrail_control_path" where
  "make_update_for_index index control =
     (if index mod 4 = 0 then push_set_global_halt False control
      else if index mod 4 = 1 then push_set_cancel_only False control
      else if index mod 4 = 2 then push_set_default_symbol_enabled True control
      else push_set_limits \<lparr>gl_max_order_quantity = 100000, gl_max_order_notional = 1000000000000\<rparr> control)"

record guardrail_bench_state =
  gbs_state :: guardrail_state
  gbs_control :: guardrail_control_path
  gbs_recorder :: latency_recorder
  gbs_applied :: nat
  gbs_dropped :: nat
  gbs_elapsed :: u64

definition guardrail_bench_step ::
  "guardrail_benchmark_config \<Rightarrow> nat \<Rightarrow> guardrail_bench_state \<Rightarrow> guardrail_bench_state" where
  "guardrail_bench_step config index st =
     (case make_update_for_index index (gbs_control st) of (u, control1) \<Rightarrow>
      case apply_next control1 (gbs_state st) of (result, control2, state2) \<Rightarrow>
        let latency = simulated_update_latency index config;
            st1 = st\<lparr>gbs_state := state2, gbs_control := control2, gbs_elapsed := gbs_elapsed st + latency\<rparr>
        in if ga_decision result = GA_applied
           then st1\<lparr>gbs_applied := gbs_applied st1 + 1, gbs_recorder := lrec_record latency (gbs_recorder st1)\<rparr>
           else if ga_decision result = GA_dropped_stale then st1\<lparr>gbs_dropped := gbs_dropped st1 + 1\<rparr>
           else st1)"

definition guardrail_bench_start :: guardrail_bench_state where
  "guardrail_bench_start = \<lparr>gbs_state = make_guardrail_state default_guardrail_limits, gbs_control = new_control_path,
     gbs_recorder = \<lparr>lrec_samples = []\<rparr>, gbs_applied = 0, gbs_dropped = 0, gbs_elapsed = 0\<rparr>"

definition run_guardrail_update_benchmark :: "guardrail_benchmark_config \<Rightarrow> guardrail_benchmark_result" where
  "run_guardrail_update_benchmark config =
     (let st = fold (guardrail_bench_step config) [0..<gbc_update_count config] guardrail_bench_start
      in \<lparr>gbr_update_count = gbc_update_count config, gbr_applied_count = gbs_applied st,
          gbr_dropped_count = gbs_dropped st, gbr_simulated_elapsed_ns = gbs_elapsed st,
          gbr_update_latency = lrec_summary (gbs_recorder st)\<rparr>)"

section \<open>The guardrail loop\<close>

definition guardrail_bench_inv :: "guardrail_benchmark_config \<Rightarrow> nat \<Rightarrow> guardrail_bench_state \<Rightarrow> bool" where
  "guardrail_bench_inv config i st \<longleftrightarrow>
     gcp_pending (gbs_control st) = [] \<and> gcp_next_sequence (gbs_control st) = of_nat (i + 1)
     \<and> gcs_last_applied_sequence (gcp_stats (gbs_control st)) = of_nat i
     \<and> gbs_applied st = i \<and> gbs_dropped st = 0
     \<and> lrec_samples (gbs_recorder st) = map (\<lambda>j. simulated_update_latency j config) [0..<i]
     \<and> gbs_elapsed st = sum_list (map (\<lambda>j. simulated_update_latency j config) [0..<i])"

lemma pushed_update:
  "\<exists>u control1. make_update_for_index index control = (u, control1)
     \<and> gu_sequence u = gcp_next_sequence control \<and> gcp_pending control1 = gcp_pending control @ [u]
     \<and> gcp_next_sequence control1 = gcp_next_sequence control + 1
     \<and> gcs_last_applied_sequence (gcp_stats control1) = gcs_last_applied_sequence (gcp_stats control)"
  by (auto simp: make_update_for_index_def push_set_global_halt_def push_set_cancel_only_def
    push_set_default_symbol_enabled_def push_set_limits_def make_update_def enqueue_update_def Let_def)

lemma guardrail_bench_step_inv:
  assumes "guardrail_bench_inv config i st" "i + 1 < 2 ^ 64"
  shows "guardrail_bench_inv config (i + 1) (guardrail_bench_step config i st)"
proof -
  obtain u control1 where u: "make_update_for_index i (gbs_control st) = (u, control1)"
    "gu_sequence u = of_nat (i + 1)" "gcp_pending control1 = [u]" "gcp_next_sequence control1 = of_nat (i + 1) + 1"
    "gcs_last_applied_sequence (gcp_stats control1) = of_nat i"
    using pushed_update [of i "gbs_control st"] assms(1) by (auto simp: guardrail_bench_inv_def)
  have "unat (of_nat (i + 1) :: u64) = i + 1" "unat (of_nat i :: u64) = i" using assms(2) by (simp_all add: unat_of_nat del: of_nat_Suc of_nat_add)
  then have "\<not> (of_nat (i + 1) :: u64) \<le> of_nat i" by (simp add: word_le_nat_alt del: of_nat_Suc of_nat_add)
  then show ?thesis
    using assms(1) u
    by (simp add: guardrail_bench_inv_def guardrail_bench_step_def apply_next_def apply_update_def lrec_record_def Let_def
      del: of_nat_Suc of_nat_add) (simp add: ac_simps)
qed

lemma guardrail_bench_fold_inv:
  "n < 2 ^ 64 \<Longrightarrow> guardrail_bench_inv config n (fold (guardrail_bench_step config) [0..<n] guardrail_bench_start)"
proof (induction n)
  case 0
  then show ?case by (simp add: guardrail_bench_inv_def guardrail_bench_start_def new_control_path_def)
next
  case (Suc n)
  then show ?case using guardrail_bench_step_inv [of config n] by simp
qed

section \<open>The backend loops\<close>

lemma backend_benchmark_loop_exact:
  "backend_benchmark_loop env config payload is st = Some st' \<Longrightarrow>
     bls_accepted st' + bls_rejected st' = bls_accepted st + bls_rejected st + length is
     \<and> lrec_samples (bls_recorder st') = lrec_samples (bls_recorder st) @ map (\<lambda>i. simulated_submit_latency i config) is
     \<and> bls_elapsed st' = bls_elapsed st + sum_list (map (\<lambda>i. simulated_submit_latency i config) is)"
proof (induction "is" arbitrary: st)
  case (Cons i "is")
  from Cons.prems obtain r backend where s: "any_submit env i (bench_request i payload) (bls_backend st) = Some (r, backend)"
    by (auto split: option.splits)
  from Cons.IH [of "let st1 = count_result r (st\<lparr>bls_backend := backend\<rparr>); latency = simulated_submit_latency i config
      in st1\<lparr>bls_elapsed := bls_elapsed st1 + latency, bls_recorder := lrec_record latency (bls_recorder st1)\<rparr>"] Cons.prems s
  show ?case by (auto simp: count_result_def lrec_record_def Let_def ac_simps split: if_splits)
qed simp

text \<open>A backend whose answer to the benchmark's requests never changes.\<close>

definition answers_always :: "bench_env \<Rightarrow> bytes \<Rightarrow> bool \<Rightarrow> (any_backend \<Rightarrow> bool) \<Rightarrow> bool" where
  "answers_always env payload accepts ok \<longleftrightarrow>
     (\<forall>i backend. ok backend \<longrightarrow> (\<exists>r backend1. any_submit env i (bench_request i payload) backend = Some (r, backend1)
        \<and> ok backend1 \<and> (bsr_decision r = BSD_accepted \<longleftrightarrow> accepts)))"

lemma loop_answers_always:
  assumes "answers_always env payload accepts ok"
  shows "ok (bls_backend st) \<Longrightarrow> \<exists>st'. backend_benchmark_loop env config payload is st = Some st'
    \<and> bls_accepted st' = bls_accepted st + (if accepts then length is else 0)"
proof (induction "is" arbitrary: st)
  case (Cons i "is")
  from assms Cons.prems obtain r backend where s: "any_submit env i (bench_request i payload) (bls_backend st) = Some (r, backend)"
    "ok backend" "bsr_decision r = BSD_accepted \<longleftrightarrow> accepts" unfolding answers_always_def by blast
  with Cons.IH [of "let st1 = count_result r (st\<lparr>bls_backend := backend\<rparr>); latency = simulated_submit_latency i config
      in st1\<lparr>bls_elapsed := bls_elapsed st1 + latency, bls_recorder := lrec_record latency (bls_recorder st1)\<rparr>"]
  show ?case by (auto simp: count_result_def Let_def)
qed simp

lemma length_make_payload [simp]: "length (make_payload n) = n"
  by (simp add: make_payload_def)

lemma make_payload_Nil [simp]: "make_payload n = [] \<longleftrightarrow> n = 0"
  by (simp add: make_payload_def)

lemma recording_answers:
  "answers_always env (make_payload n) (n \<noteq> 0)
     (\<lambda>backend. \<exists>rb. backend = AB_recording rb \<and> rb_open rb \<and> rb_max_submissions rb = 0)"
  by (auto simp: answers_always_def any_submit_def recording_submit_def bench_request_def rb_at_capacity_def
    make_backend_reject_def make_backend_accept_def)

lemma afxdp_answers: "answers_always env payload False (\<lambda>backend. \<exists>ax. backend = AB_afxdp ax)"
  by (auto simp: answers_always_def any_submit_def ax_submit_def make_backend_reject_def)

lemma any_submit_not_dpdk:
  "\<forall>db. backend \<noteq> AB_dpdk db \<Longrightarrow>
     \<exists>r backend1. any_submit env i request backend = Some (r, backend1) \<and> (\<forall>db. backend1 \<noteq> AB_dpdk db)"
  by (cases backend) (auto simp: any_submit_def split: prod.split)

lemma not_dpdk_defined:
  assumes "technology \<noteq> Tech_dpdk"
  shows "run_backend_benchmark_for env config technology \<noteq> None"
proof -
  have "backend_benchmark_loop env config payload is st \<noteq> None" if "\<forall>db. bls_backend st \<noteq> AB_dpdk db" for payload "is" st
    using that
  proof (induction "is" arbitrary: st)
    case (Cons i "is")
    from Cons.prems obtain r backend where s: "any_submit env i (bench_request i payload) (bls_backend st) = Some (r, backend)"
      "\<forall>db. backend \<noteq> AB_dpdk db" using any_submit_not_dpdk by blast
    with Cons.IH show ?case by (auto simp: count_result_def Let_def)
  qed simp
  moreover have "\<forall>db. make_execution_backend p s h e (factory_config_for config technology) \<noteq> AB_dpdk db" for p s h e
    using assms by (cases technology) (simp_all add: make_execution_backend_def factory_config_for_def)
  ultimately show ?thesis by (auto simp: run_backend_benchmark_for_def bench_loop_start_def Let_def split: option.splits)
qed

text \<open>A run over several technologies has one result for each, in the order of the configuration.\<close>

lemma backend_benchmarks_technologies:
  "run_backend_benchmarks envs config i technologies = Some rs \<Longrightarrow> map bbr_technology rs = technologies"
  by (induction technologies arbitrary: i rs)
     (auto simp: run_backend_benchmark_for_def Let_def split: option.splits)

lemma wall_clock_benchmarks_technologies:
  "run_wall_clock_backend_benchmarks envs config i technologies = Some rs \<Longrightarrow> map wcr_technology rs = technologies"
  by (induction technologies arbitrary: i rs)
     (auto simp: run_wall_clock_backend_benchmark_for_def Let_def split: option.splits)

lemma backend_benchmarks_defined:
  "Tech_dpdk \<notin> set technologies \<Longrightarrow> run_backend_benchmarks envs config i technologies \<noteq> None"
proof (induction technologies arbitrary: i)
  case (Cons technology technologies)
  then show ?case using not_dpdk_defined [of technology "envs i" config] by (auto split: option.splits)
qed simp

theorem backend_benchmark_covers_technologies:
  assumes "Tech_dpdk \<notin> set (bbc_technologies config)"
  shows "\<exists>rs. run_backend_benchmark envs config = Some rs \<and> map bbr_technology rs = bbc_technologies config"
  using backend_benchmarks_defined [OF assms, of envs config 0] backend_benchmarks_technologies
  by (auto simp: run_backend_benchmark_def)

section \<open>Properties\<close>

text \<open>
  The guardrail benchmark applies every update it stages and drops none, its simulated time is the sum of the
  simulated latencies, and its summary is that of exactly these latencies.\<close>

theorem guardrail_benchmark_applies_all:
  assumes "gbc_update_count config = n" "n < 2 ^ 64"
  defines "r \<equiv> run_guardrail_update_benchmark config"
    and "latencies \<equiv> map (\<lambda>i. simulated_update_latency i config) [0..<n]"
  shows "gbr_applied_count r = n \<and> gbr_dropped_count r = 0 \<and> gbr_simulated_elapsed_ns r = sum_list latencies
    \<and> gbr_update_latency r = summarize_latencies latencies"
  using guardrail_bench_fold_inv [OF assms(2), of config] assms(1)
  by (simp add: r_def latencies_def run_guardrail_update_benchmark_def Let_def guardrail_bench_inv_def lrec_summary_def)

theorem guardrail_benchmark_applies_all_witness:
  "gbr_applied_count (run_guardrail_update_benchmark \<lparr>gbc_update_count = 1000, gbc_base_update_latency_ns = 1000,
     gbc_latency_jitter_step_ns = 25, gbc_latency_jitter_period = 7\<rparr>) = 1000"
  using guardrail_benchmark_applies_all [of "\<lparr>gbc_update_count = 1000, gbc_base_update_latency_ns = 1000,
     gbc_latency_jitter_step_ns = 25, gbc_latency_jitter_period = 7\<rparr>" 1000] by simp

text \<open>
  What a backend benchmark reports: accepted and rejected submissions add up, time and summary are those of the
  simulated latencies, the recording backend takes everything unless the payload is empty, the AF\_XDP backend takes
  nothing, and no benchmark but one on DPDK can meet undefined behaviour.\<close>

theorem backend_benchmark_exact:
  "(technology \<noteq> Tech_dpdk \<longrightarrow> run_backend_benchmark_for env config technology \<noteq> None)
   \<and> (case run_backend_benchmark_for env config technology of
        None \<Rightarrow> True
      | Some r \<Rightarrow>
          let n = bbc_submission_count config; latencies = map (\<lambda>i. simulated_submit_latency i config) [0..<n]
          in bbr_accepted_count r + bbr_rejected_count r = n
             \<and> bbr_simulated_elapsed_ns r = sum_list latencies \<and> bbr_submit_latency r = summarize_latencies latencies
             \<and> (technology = Tech_recording \<longrightarrow> bbr_accepted_count r = (if bbc_payload_size config = 0 then 0 else n))
             \<and> (technology = Tech_afxdp \<longrightarrow> bbr_accepted_count r = 0))"
proof (cases "run_backend_benchmark_for env config technology")
  case None
  then show ?thesis using not_dpdk_defined [of technology env config] by auto
next
  case (Some r)
  let ?n = "bbc_submission_count config" and ?p = "make_payload (bbc_payload_size config)"
  define backend where "backend = make_execution_backend (ben_pton env) (ben_socket env) (ben_have_dpdk env) (ben_dpdk env)
    (factory_config_for config technology)"
  from Some obtain st where st: "backend_benchmark_loop env config ?p [0..<?n] (bench_loop_start backend) = Some st"
    and r: "bbr_accepted_count r = bls_accepted st" "bbr_rejected_count r = bls_rejected st"
      "bbr_simulated_elapsed_ns r = bls_elapsed st" "bbr_submit_latency r = lrec_summary (bls_recorder st)"
    by (auto simp: run_backend_benchmark_for_def backend_def Let_def split: option.splits)
  note exact = backend_benchmark_loop_exact [OF st]
  have "bls_accepted st = (if bbc_payload_size config = 0 then 0 else ?n)" if "technology = Tech_recording"
  proof -
    have "\<exists>rb. backend = AB_recording rb \<and> rb_open rb \<and> rb_max_submissions rb = 0"
      using that by (simp add: backend_def make_execution_backend_def factory_config_for_def new_recording_backend_def)
    with loop_answers_always [OF recording_answers [of env "bbc_payload_size config"], of "bench_loop_start backend" config "[0..<?n]"] st
    show ?thesis by (auto simp: bench_loop_start_def)
  qed
  moreover have "bls_accepted st = 0" if "technology = Tech_afxdp"
  proof -
    have "\<exists>ax. backend = AB_afxdp ax" using that by (simp add: backend_def make_execution_backend_def factory_config_for_def)
    with loop_answers_always [OF afxdp_answers [of env ?p], of "bench_loop_start backend" config "[0..<?n]"] st
    show ?thesis by (auto simp: bench_loop_start_def)
  qed
  ultimately show ?thesis using Some exact r by (simp add: bench_loop_start_def lrec_summary_def Let_def)
qed

end
