(* ===== verification/Reports.thy ===== *)
theory Reports
  imports Candidates Backend_Bench Fixtures
begin

text \<open>
  The report writers \<^verbatim>\<open>src/bench/benchmark_report.cpp\<close> and \<^verbatim>\<open>src/bench/system_metadata.cpp\<close>. An output stream is the
  text written so far; a number is printed in decimal. What the system answers (host name, kernel, the lines of
  \<^verbatim>\<open>/etc/os-release\<close> and \<^verbatim>\<open>/proc/cpuinfo\<close>, the local time) and what the build fixes (compiler, build type, options) are
  arguments. The exception of \<^verbatim>\<open>std::string::substr\<close> is the outcome \<^const>\<open>None\<close>.
\<close>

section \<open>Printing\<close>

abbreviation nl :: string where
  "nl \<equiv> [newline]"

definition show_u64 :: "u64 \<Rightarrow> string" where
  "show_u64 x = show_nat (unat x)"

text \<open>A row of a two-column table.\<close>

definition table_row :: "string \<Rightarrow> string \<Rightarrow> string" where
  "table_row name cell = ''| '' @ name @ '' | '' @ cell @ '' |'' @ nl"

definition format_duration_ns :: "u64 \<Rightarrow> string" where
  "format_duration_ns duration_ns = show_u64 duration_ns @ '' ns''"

definition format_rate_per_second :: "u64 \<Rightarrow> string" where
  "format_rate_per_second rate = show_u64 rate @ '' candidates/s''"

section \<open>Benchmark reports\<close>

record report_metadata =
  rm_title :: string
  rm_backend_name :: string
  rm_notes :: string
  rm_latency_measurement_kind :: latency_measurement_kind
  rm_warmup_count :: nat

definition append_measurement_notes :: "report_metadata \<Rightarrow> string \<Rightarrow> string" where
  "append_measurement_notes metadata output = output
     @ ''## Measurement notes'' @ nl @ nl @ ''| Field | Value |'' @ nl @ ''|---|---|'' @ nl
     @ table_row ''latency_type'' (latency_measurement_kind_name (rm_latency_measurement_kind metadata))
     @ table_row ''warmup_count'' (show_nat (rm_warmup_count metadata))
     @ table_row ''notes'' (latency_measurement_kind_note (rm_latency_measurement_kind metadata)) @ nl"

definition append_latency_summary :: "latency_summary \<Rightarrow> report_metadata \<Rightarrow> string \<Rightarrow> string" where
  "append_latency_summary summary metadata output =
     (let warmup = (if ls_warmup_count summary \<noteq> 0 then ls_warmup_count summary else rm_warmup_count metadata)
      in output
         @ table_row ''count'' (show_nat (ls_count summary))
         @ table_row ''warmup_count'' (show_nat warmup)
         @ table_row ''min_ns'' (show_u64 (ls_min_ns summary))
         @ table_row ''max_ns'' (show_u64 (ls_max_ns summary))
         @ table_row ''mean_ns'' (show_u64 (ls_mean_ns summary))
         @ table_row ''p50_ns'' (show_u64 (ls_p50_ns summary))
         @ table_row ''p90_ns'' (show_u64 (ls_p90_ns summary))
         @ table_row ''p99_ns'' (show_u64 (ls_p99_ns summary))
         @ table_row ''p999_ns'' (show_u64 (ls_p999_ns summary))
         @ table_row ''measurement_type'' (latency_measurement_kind_name (rm_latency_measurement_kind metadata))
         @ table_row ''measurement_notes'' (latency_measurement_kind_note (rm_latency_measurement_kind metadata)))"

text \<open>The opening all three reports have.\<close>

definition report_opening :: "report_metadata \<Rightarrow> string" where
  "report_opening metadata = append_measurement_notes metadata
     (''# '' @ rm_title metadata @ nl @ nl @ ''Backend: `'' @ rm_backend_name metadata @ ''`'' @ nl @ nl
      @ (if rm_notes metadata \<noteq> [] then rm_notes metadata @ nl @ nl else []))"

definition execution_summary_rows :: "execution_benchmark_result \<Rightarrow> string" where
  "execution_summary_rows result = ''## Summary'' @ nl @ nl @ ''| Metric | Value |'' @ nl @ ''|---|---:|'' @ nl
     @ table_row ''candidate_count'' (show_nat (xr_candidate_count result))
     @ table_row ''accepted_count'' (show_nat (xr_accepted_count result))
     @ table_row ''rejected_count'' (show_nat (xr_rejected_count result))
     @ table_row ''live_order_count'' (show_nat (xr_live_order_count result))
     @ table_row ''simulated_elapsed'' (format_duration_ns (xr_simulated_elapsed_ns result))
     @ table_row ''throughput'' (format_rate_per_second (xr_candidates_per_second result))"

definition format_execution_benchmark_markdown :: "execution_benchmark_result \<Rightarrow> report_metadata \<Rightarrow> string" where
  "format_execution_benchmark_markdown result metadata =
     (let output = report_opening metadata @ execution_summary_rows result @ nl @ ''## End-to-end latency'' @ nl @ nl
      in case xr_end_to_end_latency result of
           None \<Rightarrow> output @ ''No latency samples recorded.'' @ nl
         | Some summary \<Rightarrow>
             append_latency_summary summary metadata (output @ ''| Metric | Value |'' @ nl @ ''|---|---:|'' @ nl))"

text \<open>The last three cells and the whole row of a technology, as both backend reports print them.\<close>

definition percentile_cells :: "latency_summary option \<Rightarrow> string" where
  "percentile_cells latency =
     (case latency of
        Some s \<Rightarrow> show_u64 (ls_p50_ns s) @ '' | '' @ show_u64 (ls_p99_ns s) @ '' | '' @ show_u64 (ls_p999_ns s) @ '' |'' @ nl
      | None \<Rightarrow> ''n/a | n/a | n/a |'' @ nl)"

definition technology_row ::
  "backend_technology \<Rightarrow> nat \<Rightarrow> nat \<Rightarrow> nat \<Rightarrow> u64 \<Rightarrow> u64 \<Rightarrow> latency_summary option \<Rightarrow> string" where
  "technology_row technology submissions accepted rejected elapsed rate latency =
     ''| '' @ backend_technology_name technology @ '' | '' @ show_nat submissions @ '' | '' @ show_nat accepted
     @ '' | '' @ show_nat rejected @ '' | '' @ format_duration_ns elapsed @ '' | '' @ format_rate_per_second rate @ '' | ''
     @ percentile_cells latency"

definition append_backend_technology_row :: "backend_benchmark_result \<Rightarrow> string \<Rightarrow> string" where
  "append_backend_technology_row r output = output
     @ technology_row (bbr_technology r) (bbr_submission_count r) (bbr_accepted_count r) (bbr_rejected_count r)
         (bbr_simulated_elapsed_ns r) (bbr_submissions_per_second r) (bbr_submit_latency r)"

definition append_wall_clock_backend_technology_row :: "wall_clock_result \<Rightarrow> string \<Rightarrow> string" where
  "append_wall_clock_backend_technology_row r output = output
     @ technology_row (wcr_technology r) (wcr_submission_count r) (wcr_accepted_count r) (wcr_rejected_count r)
         (wcr_elapsed_ns r) (wcr_submissions_per_second r) (wcr_submit_latency r)"

definition empty_comparison_row :: string where
  "empty_comparison_row = ''| n/a | 0 | 0 | 0 | 0 ns | 0 candidates/s | n/a | n/a | n/a |'' @ nl"

definition format_backend_benchmark_markdown :: "backend_benchmark_result list \<Rightarrow> report_metadata \<Rightarrow> string" where
  "format_backend_benchmark_markdown results metadata =
     (let output = report_opening metadata @ ''## Backend comparison'' @ nl @ nl
            @ ''| Technology | Submissions | Accepted | Rejected | Simulated elapsed | Throughput | p50_ns | p99_ns | p999_ns |'' @ nl
            @ ''|---|---:|---:|---:|---:|---:|---:|---:|---:|'' @ nl;
          output1 = fold append_backend_technology_row results output
      in if results = [] then output1 @ empty_comparison_row else output1)"

definition format_wall_clock_backend_benchmark_markdown :: "wall_clock_result list \<Rightarrow> report_metadata \<Rightarrow> string" where
  "format_wall_clock_backend_benchmark_markdown results metadata =
     (let output = report_opening metadata @ ''## Wall-clock backend comparison'' @ nl @ nl
            @ ''| Technology | Submissions | Accepted | Rejected | Elapsed | Throughput | p50_ns | p99_ns | p999_ns |'' @ nl
            @ ''|---|---:|---:|---:|---:|---:|---:|---:|---:|'' @ nl;
          output1 = fold append_wall_clock_backend_technology_row results output
      in if results = [] then output1 @ empty_comparison_row else output1)"

text \<open>\<^verbatim>\<open>text.find(needle)\<close>: the positions are tried from the left.\<close>

fun find_text :: "string \<Rightarrow> string \<Rightarrow> nat option" where
  "find_text needle [] = (if needle = [] then Some 0 else None)"
| "find_text needle (c # cs) =
     (if take (length needle) (c # cs) = needle then Some 0 else map_option Suc (find_text needle cs))"

definition contains_text :: "string \<Rightarrow> string \<Rightarrow> bool" where
  "contains_text text0 needle \<longleftrightarrow> find_text needle text0 \<noteq> None"

section \<open>System metadata\<close>

record system_metadata =
  smd_generated_at_local :: string
  smd_hostname :: string
  smd_os_name :: string
  smd_kernel_name :: string
  smd_kernel_release :: string
  smd_kernel_version :: string
  smd_machine :: string
  smd_cpu_model :: string
  smd_compiler :: string
  smd_build_type :: string
  smd_default_backend :: string
  smd_git_commit :: string
  smd_have_dpdk :: bool
  smd_have_afxdp :: bool

definition bool_text :: "bool \<Rightarrow> string" where
  "bool_text b = (if b then ''true'' else ''false'')"

definition trim_line_end :: "string \<Rightarrow> string" where
  "trim_line_end s = rev (dropWhile (\<lambda>c. c = newline \<or> c = CHR 0x0D) (rev s))"

definition hostname :: "string option \<Rightarrow> string" where
  "hostname gethostname = (case gethostname of None \<Rightarrow> ''unknown'' | Some name \<Rightarrow> name)"

definition starts_with :: "string \<Rightarrow> string \<Rightarrow> bool" where
  "starts_with key line \<longleftrightarrow> take (length key) line = key"

fun os_name_from :: "string list \<Rightarrow> string" where
  "os_name_from [] = ''unknown''"
| "os_name_from (line # rest) =
     (if starts_with ''PRETTY_NAME='' line
      then
        let field = drop (length ''PRETTY_NAME='') line
        in if length field \<ge> 2 \<and> hd field = CHR 0x22 \<and> last field = CHR 0x22
           then take (length field - 2) (drop 1 field) else field
      else os_name_from rest)"

definition os_pretty_name :: "string list option \<Rightarrow> string" where
  "os_pretty_name os_release = (case os_release of None \<Rightarrow> ''unknown'' | Some file_lines \<Rightarrow> os_name_from file_lines)"

text \<open>\<^verbatim>\<open>line.substr(pos)\<close> throws when the position is behind the end.\<close>

definition substr_from :: "string \<Rightarrow> nat \<Rightarrow> string option" where
  "substr_from line pos = (if pos \<le> length line then Some (drop pos line) else None)"

fun cpu_model_from :: "string list \<Rightarrow> string option" where
  "cpu_model_from [] = Some ''unknown''"
| "cpu_model_from (line # rest) =
     (if starts_with ''model name'' line
      then case find_char CHR '':'' line of
             Some separator \<Rightarrow> map_option trim_line_end (substr_from line (separator + 2))
           | None \<Rightarrow> cpu_model_from rest
      else cpu_model_from rest)"

definition cpu_model :: "string list option \<Rightarrow> string option" where
  "cpu_model cpuinfo = (case cpuinfo of None \<Rightarrow> Some ''unknown'' | Some file_lines \<Rightarrow> cpu_model_from file_lines)"

record system_env =
  sye_local_timestamp :: string
  sye_gethostname :: "string option"
  sye_uname :: "(string \<times> string \<times> string \<times> string) option"
  sye_os_release :: "string list option"
  sye_cpuinfo :: "string list option"
  sye_compiler :: string
  sye_build_type :: string
  sye_default_backend :: string
  sye_git_commit :: string
  sye_have_dpdk :: bool
  sye_have_afxdp :: bool

definition collect_system_metadata :: "system_env \<Rightarrow> system_metadata option" where
  "collect_system_metadata env =
     (let (kernel_name, kernel_release, kernel_version, machine) =
            (case sye_uname env of None \<Rightarrow> (''unknown'', ''unknown'', ''unknown'', ''unknown'') | Some u \<Rightarrow> u)
      in map_option (\<lambda>cpu.
           \<lparr>smd_generated_at_local = sye_local_timestamp env, smd_hostname = hostname (sye_gethostname env),
            smd_os_name = os_pretty_name (sye_os_release env), smd_kernel_name = kernel_name,
            smd_kernel_release = kernel_release, smd_kernel_version = kernel_version, smd_machine = machine,
            smd_cpu_model = cpu, smd_compiler = sye_compiler env, smd_build_type = sye_build_type env,
            smd_default_backend = sye_default_backend env, smd_git_commit = sye_git_commit env,
            smd_have_dpdk = sye_have_dpdk env, smd_have_afxdp = sye_have_afxdp env\<rparr>) (cpu_model (sye_cpuinfo env)))"

definition format_system_metadata_markdown :: "system_metadata \<Rightarrow> string" where
  "format_system_metadata_markdown metadata =
     ''## System metadata'' @ nl @ nl @ ''| Field | Value |'' @ nl @ ''|---|---|'' @ nl
     @ table_row ''generated_at_local'' (smd_generated_at_local metadata)
     @ table_row ''hostname'' (smd_hostname metadata)
     @ table_row ''os_name'' (smd_os_name metadata)
     @ table_row ''kernel_name'' (smd_kernel_name metadata)
     @ table_row ''kernel_release'' (smd_kernel_release metadata)
     @ table_row ''kernel_version'' (smd_kernel_version metadata)
     @ table_row ''machine'' (smd_machine metadata)
     @ table_row ''cpu_model'' (smd_cpu_model metadata)
     @ table_row ''compiler'' (smd_compiler metadata)
     @ table_row ''build_type'' (smd_build_type metadata)
     @ table_row ''default_backend'' (smd_default_backend metadata)
     @ table_row ''git_commit'' (smd_git_commit metadata)
     @ table_row ''have_dpdk'' (bool_text (smd_have_dpdk metadata))
     @ table_row ''have_afxdp'' (bool_text (smd_have_afxdp metadata))"

section \<open>Reading numbers back\<close>

lemma show_nat_takeWhile:
  assumes "x = [] \<or> \<not> is_digit (hd x)"
  shows "takeWhile is_digit (show_nat n @ x) = show_nat n"
proof -
  have "\<forall>c \<in> set (show_nat n). is_digit c" using show_nat_digits [of n] by (simp add: list_all_iff)
  then have "takeWhile is_digit (show_nat n @ x) = show_nat n @ takeWhile is_digit x" by (intro takeWhile_append2) blast
  with assms show ?thesis by (cases x) auto
qed

lemma show_nat_followed:
  assumes "\<not> is_digit c" "\<not> is_digit d"
  shows "show_nat a @ c # x = show_nat b @ d # y \<longleftrightarrow> a = b \<and> c = d \<and> x = y"
proof
  assume eq: "show_nat a @ c # x = show_nat b @ d # y"
  then have "show_nat a = show_nat b"
    using show_nat_takeWhile [of "c # x" a] show_nat_takeWhile [of "d # y" b] assms by simp
  moreover from this have "a = b" by (metis decimal_show_nat)
  ultimately show "a = b \<and> c = d \<and> x = y" using eq by simp
qed simp

lemma not_digits: "\<not> is_digit CHR '' ''" "\<not> is_digit CHR ''|''" "\<not> is_digit CHR ''n''"
  by (simp_all add: is_digit_def byte_of_char_def)

lemmas number_followed = show_nat_followed [OF not_digits(1,1)]

lemma u64_followed: "show_u64 a @ CHR '' '' # x = show_u64 b @ CHR '' '' # y \<longleftrightarrow> a = b \<and> x = y"
  by (simp add: show_u64_def number_followed word_unat_eq_iff [symmetric])

lemma row_number: "table_row name (show_nat a) @ x = table_row name (show_nat b) @ y \<longleftrightarrow> a = b \<and> x = y"
  by (simp add: table_row_def number_followed)

lemma row_u64: "table_row name (show_u64 a) @ x = table_row name (show_u64 b) @ y \<longleftrightarrow> a = b \<and> x = y"
  by (simp add: table_row_def u64_followed)

lemma row_u64_last: "table_row name (show_u64 a) = table_row name (show_u64 b) \<longleftrightarrow> a = b"
  using row_u64 [of name a "[]" b "[]"] by simp

lemma row_duration:
  "table_row name (format_duration_ns a) @ x = table_row name (format_duration_ns b) @ y \<longleftrightarrow> a = b \<and> x = y"
  by (simp add: table_row_def format_duration_ns_def u64_followed)

lemma row_rate:
  "table_row name (format_rate_per_second a) @ x = table_row name (format_rate_per_second b) @ y \<longleftrightarrow> a = b \<and> x = y"
  by (simp add: table_row_def format_rate_per_second_def u64_followed)

lemmas row_simps = row_number row_u64 row_u64_last row_duration row_rate

text \<open>The figures of a latency summary that a report shows.\<close>

definition summary_figures :: "latency_summary \<Rightarrow> nat \<times> u64 list" where
  "summary_figures s = (ls_count s, [ls_min_ns s, ls_max_ns s, ls_mean_ns s, ls_p50_ns s, ls_p90_ns s, ls_p99_ns s, ls_p999_ns s])"

definition execution_figures :: "execution_benchmark_result \<Rightarrow> nat list \<times> u64 list \<times> (nat \<times> u64 list) option" where
  "execution_figures r = ([xr_candidate_count r, xr_accepted_count r, xr_rejected_count r, xr_live_order_count r],
     [xr_simulated_elapsed_ns r, xr_candidates_per_second r], map_option summary_figures (xr_end_to_end_latency r))"

lemma append_latency_summary_eq:
  assumes "append_latency_summary s metadata out1 = append_latency_summary t metadata out1"
  shows "summary_figures s = summary_figures t"
  using assms by (simp add: append_latency_summary_def summary_figures_def Let_def row_simps)

lemma execution_summary_rows_eq:
  "execution_summary_rows r @ x = execution_summary_rows s @ y \<longleftrightarrow>
     xr_candidate_count r = xr_candidate_count s \<and> xr_accepted_count r = xr_accepted_count s
     \<and> xr_rejected_count r = xr_rejected_count s \<and> xr_live_order_count r = xr_live_order_count s
     \<and> xr_simulated_elapsed_ns r = xr_simulated_elapsed_ns s \<and> xr_candidates_per_second r = xr_candidates_per_second s
     \<and> x = y"
  by (simp add: execution_summary_rows_def row_simps)

text \<open>The rows of the backend reports.\<close>

type_synonym technology_figures = "backend_technology \<times> nat list \<times> u64 list \<times> u64 list option"

definition latency_cells :: "latency_summary option \<Rightarrow> u64 list option" where
  "latency_cells latency = map_option (\<lambda>s. [ls_p50_ns s, ls_p99_ns s, ls_p999_ns s]) latency"

lemma percentile_cells_eq: "percentile_cells a @ x = percentile_cells b @ y \<longleftrightarrow> latency_cells a = latency_cells b \<and> x = y"
proof -
  have no: "show_u64 n @ z \<noteq> CHR ''n'' # w" "CHR ''n'' # w \<noteq> show_u64 n @ z" for n z w
    using show_nat_digits [of "unat n"] not_digits(3) unfolding show_u64_def by (cases "show_nat (unat n)"; auto)+
  show ?thesis by (cases a; cases b) (simp_all add: percentile_cells_def latency_cells_def u64_followed no)
qed

lemma technology_row_eq:
  "technology_row t n1 a1 r1 e1 p1 l1 @ x = technology_row u n2 a2 r2 e2 p2 l2 @ y \<longleftrightarrow>
     t = u \<and> n1 = n2 \<and> a1 = a2 \<and> r1 = r2 \<and> e1 = e2 \<and> p1 = p2 \<and> latency_cells l1 = latency_cells l2 \<and> x = y"
  by (cases t; cases u)
     (simp_all add: technology_row_def format_duration_ns_def format_rate_per_second_def number_followed u64_followed
       percentile_cells_eq)

definition backend_figures :: "backend_benchmark_result \<Rightarrow> technology_figures" where
  "backend_figures r = (bbr_technology r, [bbr_submission_count r, bbr_accepted_count r, bbr_rejected_count r],
     [bbr_simulated_elapsed_ns r, bbr_submissions_per_second r], latency_cells (bbr_submit_latency r))"

definition wall_clock_figures :: "wall_clock_result \<Rightarrow> technology_figures" where
  "wall_clock_figures r = (wcr_technology r, [wcr_submission_count r, wcr_accepted_count r, wcr_rejected_count r],
     [wcr_elapsed_ns r, wcr_submissions_per_second r], latency_cells (wcr_submit_latency r))"

text \<open>
  Comparison tables of any kind of result: rows that determine the figures of their result, whatever follows them,
  and that are never empty nor the row of the empty table.\<close>

locale comparison_table =
  fixes row :: "'r \<Rightarrow> string" and figures :: "'r \<Rightarrow> technology_figures"
  assumes row_eq: "row r @ x = row s @ y \<longleftrightarrow> figures r = figures s \<and> x = y"
    and row_not_empty: "row r @ x \<noteq> empty_comparison_row" "row r \<noteq> []"
begin

definition rows :: "'r list \<Rightarrow> string" where
  "rows rs = (if rs = [] then empty_comparison_row else concat (map row rs))"

lemma concat_rows: "concat (map row rs) = concat (map row ss) \<Longrightarrow> map figures rs = map figures ss"
proof (induction rs arbitrary: ss)
  case Nil
  then show ?case using row_not_empty(2) by (cases ss) auto
next
  case (Cons r rs)
  then obtain s ss' where "ss = s # ss'" using row_not_empty(2) by (cases ss) auto
  with Cons row_eq [of r "concat (map row rs)" s "concat (map row ss')"] show ?case by simp
qed

lemma rows_determine: "rows rs = rows ss \<Longrightarrow> map figures rs = map figures ss"
  using concat_rows [of rs ss] row_not_empty(1)
  by (cases rs; cases ss) (auto simp: rows_def dest: sym)

end

lemma technology_row_starts:
  "technology_row t n a r e p l @ x \<noteq> empty_comparison_row" "technology_row t n a r e p l \<noteq> []"
  by (cases t; simp add: technology_row_def empty_comparison_row_def)+

interpretation backend_table: comparison_table "\<lambda>r. append_backend_technology_row r []" backend_figures
  by unfold_locales
     (auto simp: append_backend_technology_row_def backend_figures_def technology_row_eq technology_row_starts)

interpretation wall_clock_table: comparison_table "\<lambda>r. append_wall_clock_backend_technology_row r []" wall_clock_figures
  by unfold_locales
     (auto simp: append_wall_clock_backend_technology_row_def wall_clock_figures_def technology_row_eq technology_row_starts)

lemma fold_append_rows:
  assumes "\<And>r out. f r out = out @ f r []"
  shows "fold f rs out = out @ concat (map (\<lambda>r. f r []) rs)"
proof (induction rs arbitrary: out)
  case Nil
  show ?case by simp
next
  case (Cons r rs)
  have "fold f (r # rs) out = f r out @ concat (map (\<lambda>r. f r []) rs)" by (simp add: Cons.IH)
  also have "f r out = out @ f r []" by (rule assms)
  finally show ?case by simp
qed

lemma backend_markdown_rows:
  "format_backend_benchmark_markdown results metadata = format_backend_benchmark_markdown results' metadata \<longleftrightarrow>
     backend_table.rows results = backend_table.rows results'"
proof -
  have f: "fold append_backend_technology_row rs out = out @ concat (map (\<lambda>r. append_backend_technology_row r []) rs)" for rs out
    by (rule fold_append_rows) (simp add: append_backend_technology_row_def)
  show ?thesis by (simp add: format_backend_benchmark_markdown_def backend_table.rows_def Let_def f)
qed

lemma wall_clock_markdown_rows:
  "format_wall_clock_backend_benchmark_markdown ws metadata = format_wall_clock_backend_benchmark_markdown ws' metadata \<longleftrightarrow>
     wall_clock_table.rows ws = wall_clock_table.rows ws'"
proof -
  have f: "fold append_wall_clock_backend_technology_row rs out
      = out @ concat (map (\<lambda>r. append_wall_clock_backend_technology_row r []) rs)" for rs out
    by (rule fold_append_rows) (simp add: append_wall_clock_backend_technology_row_def)
  show ?thesis by (simp add: format_wall_clock_backend_benchmark_markdown_def wall_clock_table.rows_def Let_def f)
qed

lemma execution_markdown_figures:
  assumes "format_execution_benchmark_markdown r metadata = format_execution_benchmark_markdown s metadata"
  shows "execution_figures r = execution_figures s"
proof -
  let ?tail = "\<lambda>r. nl @ ''## End-to-end latency'' @ nl @ nl @ (case xr_end_to_end_latency r of
      None \<Rightarrow> ''No latency samples recorded.'' @ nl
    | Some t \<Rightarrow> ''| Metric | Value |'' @ nl @ ''|---|---:|'' @ nl @ append_latency_summary t metadata [])"
  have "format_execution_benchmark_markdown r metadata = report_opening metadata @ execution_summary_rows r @ ?tail r" for r
    by (simp add: format_execution_benchmark_markdown_def append_latency_summary_def Let_def split: option.split)
  with assms have "execution_summary_rows r @ ?tail r = execution_summary_rows s @ ?tail s" by simp
  then have rows: "execution_figures r = execution_figures s \<or> map_option summary_figures (xr_end_to_end_latency r)
        \<noteq> map_option summary_figures (xr_end_to_end_latency s)" and tails: "?tail r = ?tail s"
    unfolding execution_summary_rows_eq by (simp_all only: execution_figures_def) blast
  have "map_option summary_figures (xr_end_to_end_latency r) = map_option summary_figures (xr_end_to_end_latency s)"
  proof (cases "xr_end_to_end_latency r"; cases "xr_end_to_end_latency s")
    fix t u assume "xr_end_to_end_latency r = Some t" "xr_end_to_end_latency s = Some u"
    with tails show ?thesis by (simp add: append_latency_summary_eq [of t metadata "[]" u])
  qed (use tails in simp_all)
  with rows show ?thesis by simp
qed

lemma contains_text_iff: "contains_text s needle \<longleftrightarrow> (\<exists>before after. s = before @ needle @ after)"
proof (induction s)
  case Nil
  then show ?case by (auto simp: contains_text_def)
next
  case (Cons c s)
  have "contains_text (c # s) needle \<longleftrightarrow> take (length needle) (c # s) = needle \<or> contains_text s needle"
    by (simp add: contains_text_def)
  also have "take (length needle) (c # s) = needle \<longleftrightarrow> (\<exists>after. c # s = needle @ after)"
    by (metis append_eq_conv_conj)
  also have "(\<exists>after. c # s = needle @ after) \<or> contains_text s needle \<longleftrightarrow> (\<exists>before after. c # s = before @ needle @ after)"
    unfolding Cons.IH by (metis append_Cons append_Nil list.exhaust list.inject)
  finally show ?case .
qed

section \<open>Properties\<close>

text \<open>
  The benchmark reports lose nothing: two results with the same report have the same figures. From an execution
  report all counts, the time, the rate and the whole latency summary can be read back, and whether there was one;
  from a backend report, simulated or measured, the figures of every technology in order.\<close>

theorem reports_determine_figures:
  "(format_execution_benchmark_markdown r metadata = format_execution_benchmark_markdown r' metadata
      \<longrightarrow> execution_figures r = execution_figures r')
   \<and> (format_backend_benchmark_markdown bs metadata = format_backend_benchmark_markdown bs' metadata
      \<longrightarrow> map backend_figures bs = map backend_figures bs')
   \<and> (format_wall_clock_backend_benchmark_markdown ws metadata = format_wall_clock_backend_benchmark_markdown ws' metadata
      \<longrightarrow> map wall_clock_figures ws = map wall_clock_figures ws')"
  using execution_markdown_figures [of r metadata r'] backend_table.rows_determine [of bs bs']
    wall_clock_table.rows_determine [of ws ws'] backend_markdown_rows wall_clock_markdown_rows by blast

theorem reports_determine_figures_witness:
  "format_execution_benchmark_markdown
     \<lparr>xr_candidate_count = 10, xr_accepted_count = 10, xr_rejected_count = 0, xr_live_order_count = 10,
      xr_simulated_elapsed_ns = 1000, xr_candidates_per_second = 10000000, xr_end_to_end_latency = None\<rparr>
     \<lparr>rm_title = ''Run'', rm_backend_name = ''recording'', rm_notes = [], rm_latency_measurement_kind = LK_wall_clock_host,
      rm_warmup_count = 0\<rparr>
   \<noteq> format_execution_benchmark_markdown
     \<lparr>xr_candidate_count = 10, xr_accepted_count = 9, xr_rejected_count = 1, xr_live_order_count = 9,
      xr_simulated_elapsed_ns = 1000, xr_candidates_per_second = 10000000, xr_end_to_end_latency = None\<rparr>
     \<lparr>rm_title = ''Run'', rm_backend_name = ''recording'', rm_notes = [], rm_latency_measurement_kind = LK_wall_clock_host,
      rm_warmup_count = 0\<rparr>"
  using reports_determine_figures by (fastforce simp: execution_figures_def)

text \<open>
  \<^verbatim>\<open>cpu_model\<close> takes the text two characters behind the colon: a line \<^verbatim>\<open>model name\<close> that ends with its colon makes
  it throw, and the collection of the metadata with it.\<close>

theorem cpu_model_throws:
  assumes "list_all (\<lambda>l. \<not> starts_with ''model name'' l) before" "starts_with ''model name'' line"
    and "line = key @ '':''" "CHR '':'' \<notin> set key"
  shows "cpu_model (Some (before @ line # after)) = None
    \<and> (sye_cpuinfo env = Some (before @ line # after) \<longrightarrow> collect_system_metadata env = None)"
proof -
  have "find_char CHR '':'' line = Some (length key)" using assms(3,4) find_char_append [of "CHR '':''" key "[]"] by simp
  then have "cpu_model_from (line # after) = None" using assms(2,3) by (simp add: substr_from_def)
  moreover have "cpu_model_from (before @ line # after) = cpu_model_from (line # after)"
    using assms(1) by (induction before) simp_all
  ultimately show ?thesis by (auto simp: cpu_model_def collect_system_metadata_def Let_def split: prod.splits option.splits)
qed

theorem cpu_model_throws_witness:
  "cpu_model (Some [''vendor_id: X'', ''model name :'']) = None"
proof -
  have "cpu_model (Some ([''vendor_id: X''] @ ''model name :'' # [])) = None"
    by (rule conjunct1 [OF cpu_model_throws [where key = "''model name ''"]]) (simp_all add: starts_with_def)
  then show ?thesis by simp
qed

end
