(* ===== verification/Md_Generator.thy ===== *)
theory Md_Generator
  imports Generator Udp_Sockets
begin

text \<open>
  The feed program \<^verbatim>\<open>apps/fgep_md_generator.cpp\<close>: message builder, packet framer and UDP sender composed into a
  program that announces its symbols and then sends one event per datagram until it has sent the wanted number or is
  asked to stop.

  What the outside decides is an argument: the results of \<^verbatim>\<open>socket\<close> and of each \<^verbatim>\<open>sendto\<close>, the clock, and what the
  program sees when it looks at the stop flag, which a signal handler sets. The waits between datagrams and the text
  printed are left out; the figures printed are the result. The main loop need not end, so it is a partial function
  whose value is \<^const>\<open>None\<close> when it runs forever.
\<close>

section \<open>The program\<close>

record md_env =
  mde_pton :: pton
  mde_socket :: int
  mde_sendto :: "nat \<Rightarrow> bytes \<Rightarrow> int"
  mde_clock :: "nat \<Rightarrow> u64"
  mde_stop_requested :: "nat \<Rightarrow> bool"

definition session_from_text :: "string \<Rightarrow> session" where
  "session_from_text text0 =
     (let copied = take 10 (takeWhile (\<lambda>c. c \<noteq> CHR 0x00) text0)
      in map byte_of_char copied @ replicate (10 - length copied) 0x20)"

record md_config =
  mdc_destination_ipv4 :: string
  mdc_destination_port :: u16
  mdc_messages_per_second :: u64
  mdc_message_count :: u64

definition default_md_config :: md_config where
  "default_md_config = \<lparr>mdc_destination_ipv4 = ''127.0.0.1'', mdc_destination_port = 30001,
     mdc_messages_per_second = 1000, mdc_message_count = 10000\<rparr>"

definition md_builder_config :: builder_config where
  "md_builder_config = default_builder_config\<lparr>bc_symbols :=
     [\<lparr>isc_symbol = ''AAPL'', isc_base_price = 1000000, isc_price_step = 100\<rparr>,
      \<lparr>isc_symbol = ''MSFT'', isc_base_price = 2000000, isc_price_step = 100\<rparr>,
      \<lparr>isc_symbol = ''TSLA'', isc_base_price = 3000000, isc_price_step = 100\<rparr>],
     bc_hot_symbol_count := 1\<rparr>"

text \<open>The variables of \<^verbatim>\<open>main\<close> that its loops change, with the calls made so far. \<open>mds_sends\<close> counts the calls of
  \<^verbatim>\<open>UdpSender::send\<close>, \<open>mds_rounds\<close> the looks at the stop flag; they select the answers of the outside.\<close>

record md_state =
  mds_builder :: message_builder
  mds_framer :: packet_framer
  mds_open_messages_sent :: u64
  mds_messages_sent :: u64
  mds_send_failures :: u64
  mds_bytes_sent :: u64
  mds_sends :: nat
  mds_rounds :: nat
  mds_calls :: "syscall list"

definition md_send :: "md_env \<Rightarrow> udp_sender \<Rightarrow> bytes \<Rightarrow> md_state \<Rightarrow> udp_send_result \<times> md_state" where
  "md_send env sender framed st =
     (case ud_send (mde_pton env) (mde_clock env (mds_sends st)) (mde_sendto env (mds_sends st) framed) framed sender of
        (result, calls) \<Rightarrow> (result, st\<lparr>mds_sends := mds_sends st + 1, mds_calls := mds_calls st @ calls\<rparr>))"

definition md_open_step :: "md_env \<Rightarrow> udp_sender \<Rightarrow> message \<Rightarrow> md_state \<Rightarrow> md_state" where
  "md_open_step env sender m st =
     (case frame_data_packet (mds_framer st) [m] of (framed, framer) \<Rightarrow>
        let st1 = st\<lparr>mds_framer := framer\<rparr>
        in if framed = [] then st1
           else case md_send env sender framed st1 of (result, st2) \<Rightarrow>
             if us_sent result then st2\<lparr>mds_open_messages_sent := mds_open_messages_sent st2 + 1\<rparr> else st2)"

definition md_event_step :: "md_env \<Rightarrow> udp_sender \<Rightarrow> md_state \<Rightarrow> md_state" where
  "md_event_step env sender st =
     (case next_market_event (mds_builder st) of (event, builder) \<Rightarrow>
      case frame_data_packet (mds_framer st) [event] of (framed, framer) \<Rightarrow>
        let st1 = st\<lparr>mds_builder := builder, mds_framer := framer, mds_rounds := mds_rounds st + 1\<rparr>
        in if framed = [] then st1\<lparr>mds_send_failures := mds_send_failures st1 + 1\<rparr>
           else case md_send env sender framed st1 of (result, st2) \<Rightarrow>
             if us_sent result
             then st2\<lparr>mds_messages_sent := mds_messages_sent st2 + 1,
                      mds_bytes_sent := mds_bytes_sent st2 + of_nat (us_bytes_sent result)\<rparr>
             else st2\<lparr>mds_send_failures := mds_send_failures st2 + 1\<rparr>)"

partial_function (option) md_loop :: "md_env \<Rightarrow> udp_sender \<Rightarrow> u64 \<Rightarrow> md_state \<Rightarrow> md_state option" where
  "md_loop env sender message_count st =
     (if mde_stop_requested env (mds_rounds st) \<or> \<not> mds_messages_sent st < message_count then Some st
      else md_loop env sender message_count (md_event_step env sender st))"

definition md_start :: "syscall list \<Rightarrow> md_state" where
  "md_start calls = \<lparr>mds_builder = make_builder md_builder_config,
     mds_framer = make_framer (session_from_text ''FGEPGEN01'') 1, mds_open_messages_sent = 0, mds_messages_sent = 0,
     mds_send_failures = 0, mds_bytes_sent = 0, mds_sends = 0, mds_rounds = 0, mds_calls = calls\<rparr>"

definition md_opened :: "md_env \<Rightarrow> udp_sender \<Rightarrow> syscall list \<Rightarrow> md_state" where
  "md_opened env sender calls =
     fold (md_open_step env sender) (session_open_messages (make_builder md_builder_config)) (md_start calls)"

text \<open>The exit code with the final state; the state is absent when the socket could not be opened.\<close>

definition md_main :: "md_env \<Rightarrow> (int \<times> md_state option) option" where
  "md_main env =
     (case new_udp_sender (mde_pton env) (mde_socket env)
        \<lparr>uc_destination_ipv4 = mdc_destination_ipv4 default_md_config,
         uc_destination_port = mdc_destination_port default_md_config\<rparr> of
        (calls, sender) \<Rightarrow>
          if \<not> ud_open sender then Some (1, None)
          else map_option (\<lambda>st. (0, Some st))
            (md_loop env sender (mdc_message_count default_md_config) (md_opened env sender calls)))"

section \<open>What is sent\<close>

text \<open>The feed that a list of messages, one per datagram, is on the wire.\<close>

definition datagrams :: "packet_framer \<Rightarrow> message list \<Rightarrow> bytes list" where
  "datagrams pf ms = map (\<lambda>i. packet_image (framed_packet
     (pf\<lparr>pf_next_sequence_number := pf_next_sequence_number pf + of_nat i\<rparr>) [ms ! i])) [0..<length ms]"

fun payloads :: "syscall list \<Rightarrow> bytes list" where
  "payloads [] = []"
| "payloads (Sys_sendto fd payload destination sent # calls) = payload # payloads calls"
| "payloads (_ # calls) = payloads calls"

lemma payloads_append [simp]: "payloads (a @ b) = payloads a @ payloads b"
  by (induction a rule: payloads.induct) simp_all

lemma datagrams_snoc:
  "datagrams pf (ms @ [m]) = datagrams pf ms
     @ [packet_image (framed_packet (pf\<lparr>pf_next_sequence_number := pf_next_sequence_number pf + of_nat (length ms)\<rparr>) [m])]"
  by (simp add: datagrams_def nth_append)

lemma frame_one:
  assumes "length (pf_session pf) = 10" "typed_message m" "message_ok m"
  shows "frame_data_packet pf [m] = (packet_image (framed_packet pf [m]),
      pf\<lparr>pf_next_sequence_number := pf_next_sequence_number pf + 1\<rparr>)" "packet_image (framed_packet pf [m]) \<noteq> []"
proof -
  show "frame_data_packet pf [m] = (packet_image (framed_packet pf [m]),
      pf\<lparr>pf_next_sequence_number := pf_next_sequence_number pf + 1\<rparr>)"
    using frame_data_packet_cases [OF assms(1), of "[m]"] assms(2,3)
    by (simp del: message_ok.simps typed_message.simps)
  have "length (mold_header_image (framed_packet pf [m])) = 20"
    using length_mold_header_image [of "framed_packet pf [m]"] assms(1) by (simp add: framed_packet_def)
  then show "packet_image (framed_packet pf [m]) \<noteq> []" by (auto simp: packet_image_def)
qed

lemma ud_send_open:
  assumes "ud_open sd" "payload \<noteq> []"
  shows "ud_send pton now sent payload sd =
    (\<lparr>us_sent = (0 \<le> sent \<and> sent = int (length payload)), us_bytes_sent = (if sent < 0 then 0 else nat sent),
      us_send_timestamp_ns = now\<rparr>, [Sys_sendto (ud_socket_fd sd) payload (ud_make_destination pton (ud_config sd)) sent])"
  using assms by (auto simp: ud_send_def ud_open_def Let_def)

text \<open>
  The state after the messages \<open>ms\<close> have been framed and sent, of which the last \<open>k\<close> are events of the main loop.\<close>

definition md_inv :: "udp_sender \<Rightarrow> syscall list \<Rightarrow> message list \<Rightarrow> nat \<Rightarrow> md_state \<Rightarrow> bool" where
  "md_inv sender calls ms k st \<longleftrightarrow>
     mds_builder st = builder_after md_builder_config k
     \<and> mds_framer st = (mds_framer (md_start []))\<lparr>pf_next_sequence_number := 1 + of_nat (length ms)\<rparr>
     \<and> payloads (mds_calls st) = payloads calls @ datagrams (mds_framer (md_start [])) ms
     \<and> mds_rounds st = k \<and> mds_sends st = length ms
     \<and> mds_messages_sent st + mds_send_failures st = of_nat k"

lemma md_framer_session: "length (pf_session (mds_framer (md_start []))) = 10"
  "pf_next_sequence_number (mds_framer (md_start [])) = 1"
  by (simp_all add: md_start_def make_framer_def Let_def session_from_text_def)

lemma md_builder_config_ok: "builder_config_ok md_builder_config" "bc_first_order_reference_number md_builder_config = 1"
  by (simp_all add: builder_config_ok_def md_builder_config_def default_builder_config_def symbol_config_ok_def
    is_printable_ascii_or_space_def byte_of_char_def)

lemma md_event_step_inv:
  assumes inv: "md_inv sender calls ms k st" and k: "k + 2 < 2 ^ 64" and sender: "ud_open sender"
  shows "md_inv sender calls (ms @ [fst (next_market_event (builder_after md_builder_config k))]) (k + 1) (md_event_step env sender st)"
proof -
  let ?pf = "mds_framer st"
  obtain event builder where e: "next_market_event (builder_after md_builder_config k) = (event, builder)"
    by (cases "next_market_event (builder_after md_builder_config k)")
  have b: "builder = builder_after md_builder_config (Suc k)" using e by (simp add: builder_after_def)
  have "builder_inv (1 + k) (builder_after md_builder_config k)"
    using builder_after_inv [OF md_builder_config_ok(1), of k] k md_builder_config_ok(2) by simp
  from next_market_event_step(1) [OF this] have ev: "message_ok event" "typed_message event" using k e by simp_all
  have s: "length (pf_session ?pf) = 10" using inv md_framer_session by (simp add: md_inv_def)
  note f = frame_one [OF s ev(2,1)]
  note send = ud_send_open [OF sender f(2)]
  show ?thesis
    using inv e b f send
    by (auto simp: md_inv_def md_event_step_def md_send_def Let_def datagrams_snoc md_framer_session ac_simps
      split: prod.splits)
qed

lemma md_open_step_inv:
  assumes inv: "md_inv sender calls ms 0 st" and m: "typed_message m" "message_ok m" and sender: "ud_open sender"
  shows "md_inv sender calls (ms @ [m]) 0 (md_open_step env sender m st)"
proof -
  have s: "length (pf_session (mds_framer st)) = 10" using inv md_framer_session by (simp add: md_inv_def)
  note f = frame_one [OF s m]
  note send = ud_send_open [OF sender f(2)]
  show ?thesis
    using inv f send
    by (auto simp: md_inv_def md_open_step_def md_send_def Let_def datagrams_snoc md_framer_session ac_simps
      split: prod.splits)
qed

lemma md_open_fold_inv:
  "md_inv sender calls ms 0 st \<Longrightarrow> \<forall>m \<in> set opens. typed_message m \<and> message_ok m \<Longrightarrow> ud_open sender \<Longrightarrow>
     md_inv sender calls (ms @ opens) 0 (fold (md_open_step env sender) opens st)"
proof (induction opens arbitrary: ms st)
  case (Cons m opens)
  then show ?case
    using Cons.IH [OF md_open_step_inv [OF Cons.prems(1), of m env]] by simp
qed simp

definition md_opens :: "message list" where
  "md_opens = session_open_messages (make_builder md_builder_config)"

definition md_events :: "nat \<Rightarrow> message list" where
  "md_events k = map (\<lambda>i. fst (next_market_event (builder_after md_builder_config i))) [0..<k]"

lemma md_opens_ok: "\<forall>m \<in> set md_opens. typed_message m \<and> message_ok m" "length md_opens = 3"
proof -
  show "\<forall>m \<in> set md_opens. typed_message m \<and> message_ok m"
    using session_open_valid [OF md_builder_config_ok(1), of 0] md_builder_config_ok(2)
    by (simp add: md_opens_def builder_after_def del: message_ok.simps typed_message.simps)
  show "length md_opens = 3"
    by (simp add: md_opens_def session_open_messages_def make_builder_def Let_def normalize_config_def md_builder_config_def)
qed

lemma md_opened_inv:
  assumes "ud_open sender"
  shows "md_inv sender calls md_opens 0 (md_opened env sender calls)"
proof -
  have "md_inv sender calls [] 0 (md_start calls)"
    by (simp add: md_inv_def md_start_def builder_after_def datagrams_def make_framer_def)
  from md_open_fold_inv [OF this md_opens_ok(1) assms] show ?thesis by (simp add: md_opened_def md_opens_def)
qed

definition md_rounds_from :: "md_env \<Rightarrow> udp_sender \<Rightarrow> nat \<Rightarrow> md_state \<Rightarrow> md_state" where
  "md_rounds_from env sender k st = (md_event_step env sender ^^ k) st"

lemma md_rounds_inv:
  "ud_open sender \<Longrightarrow> k + 1 < 2 ^ 64 \<Longrightarrow>
     md_inv sender calls (md_opens @ md_events k) k (md_rounds_from env sender k (md_opened env sender calls))"
proof (induction k)
  case 0
  then show ?case using md_opened_inv by (simp add: md_rounds_from_def md_events_def)
next
  case (Suc k)
  then show ?case
    using md_event_step_inv [of sender calls "md_opens @ md_events k" k "md_rounds_from env sender k (md_opened env sender calls)" env]
    by (simp add: md_rounds_from_def md_events_def)
qed

lemma md_events_ok: "k < 2 ^ 63 \<Longrightarrow> \<forall>m \<in> set (md_opens @ md_events k). typed_message m \<and> message_ok m"
proof -
  assume k: "k < 2 ^ 63"
  have "typed_message (fst (next_market_event (builder_after md_builder_config i)))
      \<and> message_ok (fst (next_market_event (builder_after md_builder_config i)))" if "i < k" for i
    using next_market_event_step(1) [OF builder_after_inv [OF md_builder_config_ok(1), of i]] that k md_builder_config_ok(2)
    by (simp del: message_ok.simps typed_message.simps)
  then show ?thesis using md_opens_ok(1) by (auto simp: md_events_def simp del: message_ok.simps typed_message.simps)
qed

text \<open>A datagram of the feed as the replay decoder sees it.\<close>

definition single_packet :: "u64 \<Rightarrow> message \<Rightarrow> replay_packet" where
  "single_packet number m = \<lparr>rpk_session = session_from_text ''FGEPGEN01'', rpk_first_sequence_number = number,
     rpk_message_count = 1, rpk_kind = RPK_data, rpk_messages = [\<lparr>dm_sequence_number = number, dm_message = m\<rparr>]\<rparr>"

lemma datagrams_decode:
  assumes "\<forall>m \<in> set ms. typed_message m \<and> message_ok m" "length ms + 2 \<le> 2 ^ 64"
  shows "map decode_moldudp64_itch_packet (datagrams (mds_framer (md_start [])) ms) =
     map (\<lambda>i. Ok (single_packet (1 + of_nat i) (ms ! i))) [0..<length ms]"
proof -
  let ?pf = "mds_framer (md_start [])"
  have "decode_moldudp64_itch_packet (packet_image (framed_packet
      (?pf\<lparr>pf_next_sequence_number := pf_next_sequence_number ?pf + of_nat i\<rparr>) [ms ! i])) = Ok (single_packet (1 + of_nat i) (ms ! i))"
    if i: "i < length ms" for i
  proof -
    let ?pf' = "?pf\<lparr>pf_next_sequence_number := pf_next_sequence_number ?pf + of_nat i\<rparr>"
    have "unat (1 + of_nat i :: u64) = 1 + i" using i assms(2) by (simp add: unat_word_ariths unat_of_nat)
    then have "unat (pf_next_sequence_number ?pf') + length [ms ! i] \<le> 2 ^ 64"
      using i assms(2) md_framer_session by simp
    from decode_framed_packet [OF _ _ _ _ this] assms(1) i md_framer_session
    show ?thesis
      by (simp add: single_packet_def numbered_messages_def del: message_ok.simps typed_message.simps)
         (simp add: md_start_def make_framer_def)
  qed
  then show ?thesis by (simp add: datagrams_def)
qed

section \<open>When the loop ends\<close>

lemma md_loop_stop:
  "mde_stop_requested env (mds_rounds st) \<or> \<not> mds_messages_sent st < limit \<Longrightarrow> md_loop env sender limit st = Some st"
  by (subst md_loop.simps) simp

lemma md_loop_step:
  "\<not> mde_stop_requested env (mds_rounds st) \<Longrightarrow> mds_messages_sent st < limit \<Longrightarrow>
     md_loop env sender limit st = md_loop env sender limit (md_event_step env sender st)"
  by (subst md_loop.simps) simp

definition md_loop_left :: "md_env \<Rightarrow> u64 \<Rightarrow> md_state \<Rightarrow> bool" where
  "md_loop_left env limit st \<longleftrightarrow> mde_stop_requested env (mds_rounds st) \<or> \<not> mds_messages_sent st < limit"

lemma md_loop_Some:
  assumes "md_loop env sender limit st = Some st'"
  shows "(\<exists>k. st' = md_rounds_from env sender k st) \<and> md_loop_left env limit st'"
proof (rule md_loop.raw_induct [where P = "\<lambda>env sender limit st st'.
    (\<exists>k. st' = md_rounds_from env sender k st) \<and> md_loop_left env limit st'", OF _ assms])
  fix loop :: "md_env \<Rightarrow> udp_sender \<Rightarrow> u64 \<Rightarrow> md_state \<Rightarrow> md_state option" and env sender limit st st'
  assume IH: "\<And>env sender limit st st'. loop env sender limit st = Some st' \<Longrightarrow>
      (\<exists>k. st' = md_rounds_from env sender k st) \<and> md_loop_left env limit st'"
    and eq: "(if mde_stop_requested env (mds_rounds st) \<or> \<not> mds_messages_sent st < limit then Some st
       else loop env sender limit (md_event_step env sender st)) = Some st'"
  show "(\<exists>k. st' = md_rounds_from env sender k st) \<and> md_loop_left env limit st'"
  proof (cases "md_loop_left env limit st")
    case True
    with eq have "st' = st" by (simp add: md_loop_left_def)
    with True show ?thesis by (auto simp: md_rounds_from_def intro: exI [of _ 0])
  next
    case False
    with eq IH [of env sender limit "md_event_step env sender st" st'] obtain k
      where "st' = md_rounds_from env sender k (md_event_step env sender st)" "md_loop_left env limit st'"
      by (auto simp: md_loop_left_def)
    then have "st' = md_rounds_from env sender (Suc k) st" by (simp add: md_rounds_from_def funpow_swap1)
    with \<open>md_loop_left env limit st'\<close> show ?thesis by blast
  qed
qed

lemma md_loop_ends:
  "md_loop_left env limit (md_rounds_from env sender n st) \<Longrightarrow>
     \<exists>k \<le> n. md_loop env sender limit st = Some (md_rounds_from env sender k st)
       \<and> md_loop_left env limit (md_rounds_from env sender k st)"
proof (induction n arbitrary: st)
  case 0
  then show ?case using md_loop_stop [of env st limit sender] by (simp add: md_rounds_from_def md_loop_left_def)
next
  case (Suc n)
  have *: "md_rounds_from env sender (Suc k) st = md_rounds_from env sender k (md_event_step env sender st)" for k
    by (simp add: md_rounds_from_def funpow_swap1)
  show ?case
  proof (cases "md_loop_left env limit st")
    case True
    then show ?thesis using md_loop_stop [of env st limit sender]
      by (intro exI [of _ 0]) (simp add: md_rounds_from_def md_loop_left_def)
  next
    case False
    from Suc.IH [of "md_event_step env sender st"] Suc.prems * obtain k where "k \<le> n"
      "md_loop env sender limit (md_event_step env sender st) = Some (md_rounds_from env sender (Suc k) st)"
      "md_loop_left env limit (md_rounds_from env sender (Suc k) st)" by auto
    with md_loop_step [of env st limit sender] False show ?thesis
      by (intro exI [of _ "Suc k"]) (simp add: md_loop_left_def)
  qed
qed

text \<open>When \<^verbatim>\<open>sendto\<close> takes whole datagrams every round sends its event.\<close>

definition sends_all :: "md_env \<Rightarrow> bool" where
  "sends_all env \<longleftrightarrow> (\<forall>i p. mde_sendto env i p = int (length p))"

lemma md_event_step_sent:
  assumes inv: "md_inv sender calls ms k st" and k: "k + 2 < 2 ^ 64" and sender: "ud_open sender" and env: "sends_all env"
  shows "mds_messages_sent (md_event_step env sender st) = mds_messages_sent st + 1"
proof -
  obtain event builder where e: "next_market_event (builder_after md_builder_config k) = (event, builder)"
    by (cases "next_market_event (builder_after md_builder_config k)")
  have "builder_inv (1 + k) (builder_after md_builder_config k)"
    using builder_after_inv [OF md_builder_config_ok(1), of k] k md_builder_config_ok(2) by simp
  from next_market_event_step(1) [OF this] have ev: "message_ok event" "typed_message event" using k e by simp_all
  have s: "length (pf_session (mds_framer st)) = 10" using inv md_framer_session by (simp add: md_inv_def)
  note f = frame_one [OF s ev(2,1)]
  show ?thesis
    using inv e f ud_send_open [OF sender f(2)] env
    by (auto simp: md_inv_def md_event_step_def md_send_def Let_def sends_all_def split: prod.splits)
qed

lemma md_rounds_sent:
  "ud_open sender \<Longrightarrow> sends_all env \<Longrightarrow> k + 1 < 2 ^ 64 \<Longrightarrow>
     mds_messages_sent (md_rounds_from env sender k (md_opened env sender calls)) = of_nat k + mds_messages_sent (md_opened env sender calls)"
proof (induction k)
  case (Suc k)
  then show ?case
    using md_event_step_sent [OF md_rounds_inv [of sender k calls env]] by (simp add: md_rounds_from_def)
qed (simp add: md_rounds_from_def)

lemma md_event_step_rounds: "mds_rounds (md_event_step env sender st) = mds_rounds st + 1"
  by (auto simp: md_event_step_def md_send_def Let_def split: prod.splits)

lemma md_rounds_from_rounds: "mds_rounds (md_rounds_from env sender k st) = mds_rounds st + k"
  by (induction k) (simp_all add: md_rounds_from_def md_event_step_rounds)

lemma md_opened_counters:
  "mds_messages_sent (md_opened env sender calls) = 0 \<and> mds_send_failures (md_opened env sender calls) = 0
   \<and> mds_rounds (md_opened env sender calls) = 0"
proof -
  have "mds_messages_sent (fold (md_open_step env sender) ms st) = mds_messages_sent st
      \<and> mds_send_failures (fold (md_open_step env sender) ms st) = mds_send_failures st
      \<and> mds_rounds (fold (md_open_step env sender) ms st) = mds_rounds st" for ms st
    by (induction ms arbitrary: st) (auto simp: md_open_step_def md_send_def Let_def split: prod.splits)
  then show ?thesis by (simp add: md_opened_def md_start_def)
qed

lemma md_main_Some:
  assumes "md_main env = Some (code, Some st)"
  obtains sender calls where "code = 0" "ud_open sender" "payloads calls = []"
    "st = md_rounds_from env sender (mds_rounds st) (md_opened env sender calls)" "md_loop_left env 10000 st"
proof -
  obtain calls sender where n: "new_udp_sender (mde_pton env) (mde_socket env)
        \<lparr>uc_destination_ipv4 = mdc_destination_ipv4 default_md_config,
         uc_destination_port = mdc_destination_port default_md_config\<rparr> = (calls, sender)" by (cases "new_udp_sender (mde_pton env) (mde_socket env)
        \<lparr>uc_destination_ipv4 = mdc_destination_ipv4 default_md_config,
         uc_destination_port = mdc_destination_port default_md_config\<rparr>")
  then have p: "payloads calls = []" by (auto simp: new_udp_sender_def ud_open_socket_def split: if_splits)
  from assms n have o: "ud_open sender" and c: "code = 0"
    and l: "md_loop env sender 10000 (md_opened env sender calls) = Some st"
    by (auto simp: md_main_def default_md_config_def split: if_splits)
  from md_loop_Some [OF l] obtain k where k: "st = md_rounds_from env sender k (md_opened env sender calls)"
    and left: "md_loop_left env 10000 st" by blast
  have "mds_rounds (md_opened env sender calls) = 0" using md_opened_inv [OF o] by (simp add: md_inv_def)
  then have "mds_rounds st = k" using k md_rounds_from_rounds by simp
  then have "st = md_rounds_from env sender (mds_rounds st) (md_opened env sender calls)" using k by metis
  from that [OF c o p this left] show ?thesis .
qed

text \<open>
  When the socket opens and \<^verbatim>\<open>sendto\<close> takes every datagram, the program ends: after ten thousand events, or
  earlier at the first round that sees the stop flag, with no failure counted.\<close>

lemma md_main_completes:
  assumes "sends_all env" "0 \<le> mde_socket env" "mde_pton env ''127.0.0.1'' \<noteq> None"
  shows "\<exists>st. md_main env = Some (0, Some st) \<and> mds_send_failures st = 0
    \<and> mds_messages_sent st = of_nat (mds_rounds st) \<and> mds_rounds st \<le> 10000
    \<and> (mds_rounds st < 10000 \<longrightarrow> mde_stop_requested env (mds_rounds st))"
proof -
  define sender where "sender = \<lparr>ud_config = \<lparr>uc_destination_ipv4 = ''127.0.0.1'', uc_destination_port = 30001\<rparr>,
    ud_socket_fd = mde_socket env, ud_endpoint_valid = True, ud_manually_closed = False\<rparr>"
  have new: "new_udp_sender (mde_pton env) (mde_socket env) \<lparr>uc_destination_ipv4 = mdc_destination_ipv4 default_md_config,
      uc_destination_port = mdc_destination_port default_md_config\<rparr> = ([Sys_socket (mde_socket env)], sender)"
    using assms(3) by (simp add: new_udp_sender_def ud_open_socket_def ud_is_valid_endpoint_def ud_is_valid_ipv4_def
      default_md_config_def sender_def)
  have o: "ud_open sender" using assms(2) by (simp add: ud_open_def sender_def)
  let ?st = "\<lambda>k. md_rounds_from env sender k (md_opened env sender [Sys_socket (mde_socket env)])"
  have zero: "mds_messages_sent (?st 0) = 0 \<and> mds_send_failures (?st 0) = 0 \<and> mds_rounds (?st 0) = 0"
    using md_opened_counters by (simp add: md_rounds_from_def)
  have sent: "mds_messages_sent (?st k) = of_nat k" if "k \<le> 10000" for k
    using md_rounds_sent [OF o assms(1), of k] that zero by (simp add: md_rounds_from_def)
  have rounds: "mds_rounds (?st k) = k" for k using md_rounds_from_rounds zero by (simp add: md_rounds_from_def)
  have "md_loop_left env 10000 (?st 10000)" using sent [of 10000] by (simp add: md_loop_left_def)
  from md_loop_ends [OF this] obtain k where k: "k \<le> 10000"
    "md_loop env sender 10000 (?st 0) = Some (?st k)" "md_loop_left env 10000 (?st k)"
    by (auto simp: md_rounds_from_def)
  have "mds_messages_sent (?st k) + mds_send_failures (?st k) = of_nat k"
    using md_rounds_inv [OF o, of k] k(1) by (simp add: md_inv_def)
  then have "mds_send_failures (?st k) = 0" using sent [OF k(1)] by simp
  moreover have "k < 10000 \<longrightarrow> mde_stop_requested env k"
    using k sent [OF k(1)] rounds [of k] by (auto simp: md_loop_left_def word_less_nat_alt unat_of_nat)
  ultimately show ?thesis
    using k sent [OF k(1)] rounds [of k] new o
    by (intro exI [of _ "?st k"]) (simp add: md_main_def default_md_config_def md_rounds_from_def)
qed

text \<open>What is on the wire when the program returns.\<close>

lemma md_main_feed:
  assumes "md_main env = Some (code, Some st)" "mds_rounds st < 2 ^ 63"
  shows "code = 0
    \<and> map decode_moldudp64_itch_packet (payloads (mds_calls st))
      = map (\<lambda>i. Ok (single_packet (1 + of_nat i) ((md_opens @ md_events (mds_rounds st)) ! i))) [0..<3 + mds_rounds st]
    \<and> mds_messages_sent st + mds_send_failures st = of_nat (mds_rounds st)
    \<and> (mde_stop_requested env (mds_rounds st) \<or> 10000 \<le> mds_messages_sent st)"
proof -
  from md_main_Some [OF assms(1)] obtain sender calls where c: "code = 0" "ud_open sender" "payloads calls = []"
    and st: "st = md_rounds_from env sender (mds_rounds st) (md_opened env sender calls)" and left: "md_loop_left env 10000 st"
    by blast
  define k where "k = mds_rounds st"
  have "md_inv sender calls (md_opens @ md_events k) k (md_rounds_from env sender k (md_opened env sender calls))"
    using md_rounds_inv [OF c(2)] assms(2) by (simp add: k_def)
  then have inv: "md_inv sender calls (md_opens @ md_events k) k st" using st by (simp add: k_def)
  have len: "length (md_opens @ md_events k) = 3 + k" by (simp add: md_opens_ok(2) md_events_def)
  have "map decode_moldudp64_itch_packet (datagrams (mds_framer (md_start [])) (md_opens @ md_events k))
      = map (\<lambda>i. Ok (single_packet (1 + of_nat i) ((md_opens @ md_events k) ! i))) [0..<3 + k]"
    using datagrams_decode [OF md_events_ok [of k]] assms(2) len by (simp add: k_def)
  with c(1,3) inv left show ?thesis
    by (auto simp: md_inv_def md_loop_left_def k_def)
qed

section \<open>Properties\<close>

text \<open>
  C33: The feed program and the replay decoder understand each other. When the socket opens and \<^verbatim>\<open>sendto\<close> takes every
  datagram the program ends, after ten thousand events or at the first round that sees the stop flag, with no failure
  counted. And whatever the outside does, when the program returns, every datagram it handed to \<^verbatim>\<open>sendto\<close> decodes as a
  packet of one message; the packets are numbered 1, 2, 3 and so on without a gap, also across failed sends; the first
  three announce the symbols, and the others are the events of the builder in order. Events sent and failed sends add
  up to the rounds of the loop, and the program returns only because it was asked to stop or has sent the wanted number.\<close>

theorem md_feed_replays:
  "(sends_all env \<and> 0 \<le> mde_socket env \<and> mde_pton env ''127.0.0.1'' \<noteq> None \<longrightarrow>
      (\<exists>st. md_main env = Some (0, Some st) \<and> mds_send_failures st = 0
        \<and> mds_messages_sent st = of_nat (mds_rounds st) \<and> mds_rounds st \<le> 10000
        \<and> (mds_rounds st < 10000 \<longrightarrow> mde_stop_requested env (mds_rounds st))))
   \<and> (md_main env = Some (code, Some st) \<and> mds_rounds st < 2 ^ 63 \<longrightarrow> code = 0
      \<and> map decode_moldudp64_itch_packet (payloads (mds_calls st))
        = map (\<lambda>i. Ok (single_packet (1 + of_nat i) ((md_opens @ md_events (mds_rounds st)) ! i))) [0..<3 + mds_rounds st]
      \<and> mds_messages_sent st + mds_send_failures st = of_nat (mds_rounds st)
      \<and> (mde_stop_requested env (mds_rounds st) \<or> 10000 \<le> mds_messages_sent st))"
  using md_main_completes [of env] md_main_feed [of env code st] by blast

definition sample_md_env :: md_env where
  "sample_md_env = \<lparr>mde_pton = (\<lambda>_. Some 0), mde_socket = 3, mde_sendto = (\<lambda>_ p. int (length p)), mde_clock = (\<lambda>_. 0),
     mde_stop_requested = (\<lambda>_. False)\<rparr>"

theorem md_feed_replays_witness:
  "\<exists>st. md_main sample_md_env = Some (0, Some st) \<and> length (payloads (mds_calls st)) = 10003"
proof -
  have "sends_all sample_md_env \<and> 0 \<le> mde_socket sample_md_env \<and> mde_pton sample_md_env ''127.0.0.1'' \<noteq> None"
    by (simp add: sample_md_env_def sends_all_def)
  with md_feed_replays [of sample_md_env] obtain st where st: "md_main sample_md_env = Some (0, Some st)"
    "mds_rounds st \<le> 10000" "mds_rounds st < 10000 \<longrightarrow> mde_stop_requested sample_md_env (mds_rounds st)" by blast
  then have r: "mds_rounds st = 10000" by (simp add: sample_md_env_def)
  then have "map decode_moldudp64_itch_packet (payloads (mds_calls st))
      = map (\<lambda>i. Ok (single_packet (1 + of_nat i) ((md_opens @ md_events (mds_rounds st)) ! i))) [0..<3 + mds_rounds st]"
    using md_feed_replays [of sample_md_env 0 st] st(1) by simp
  from arg_cong [OF this, of length] show ?thesis using st(1) r by (intro exI [of _ st]) simp
qed

end
