(* ===== verification/Runtime_Guard.thy ===== *)
theory Runtime_Guard
  imports Prelude
begin

text \<open>
  The heap guard and the runtime phases: \<^verbatim>\<open>src/runtime/no_heap_guard.cpp\<close>, \<^verbatim>\<open>src/runtime/runtime_phase.cpp\<close>. The
  thread-local counters of one thread are a record; whether the guard was compiled in
  (\<^verbatim>\<open>FGEP_ENABLE_RUNTIME_NO_HEAP_TESTS\<close>) is the argument \<open>enabled\<close>. The allocation operators are modelled for the build
  that defines them; the pointer that \<^verbatim>\<open>malloc\<close> or \<^verbatim>\<open>posix_memalign\<close> returns is an argument (\<^const>\<open>None\<close> for a null pointer
  or an error code), and an exception is the failure \<open>Bad_alloc\<close>.
\<close>

section \<open>The counters and the guard\<close>

record heap_counters =
  hc_guard_depth :: u64
  hc_allocation_count :: u64
  hc_allocation_bytes :: u64

definition zero_heap_counters :: heap_counters where
  "zero_heap_counters = \<lparr>hc_guard_depth = 0, hc_allocation_count = 0, hc_allocation_bytes = 0\<rparr>"

definition no_heap_guard_enabled :: "bool \<Rightarrow> bool" where
  "no_heap_guard_enabled enabled = (if enabled then True else False)"

definition no_heap_guard_active :: "bool \<Rightarrow> heap_counters \<Rightarrow> bool" where
  "no_heap_guard_active enabled hc = (if enabled then hc_guard_depth hc \<noteq> 0 else False)"

definition no_heap_allocation_count :: "bool \<Rightarrow> heap_counters \<Rightarrow> u64" where
  "no_heap_allocation_count enabled hc = (if enabled then hc_allocation_count hc else 0)"

definition no_heap_allocation_bytes :: "bool \<Rightarrow> heap_counters \<Rightarrow> u64" where
  "no_heap_allocation_bytes enabled hc = (if enabled then hc_allocation_bytes hc else 0)"

definition enter_no_heap_guard :: "bool \<Rightarrow> heap_counters \<Rightarrow> heap_counters" where
  "enter_no_heap_guard enabled hc = (if enabled then hc\<lparr>hc_guard_depth := hc_guard_depth hc + 1\<rparr> else hc)"

definition leave_no_heap_guard :: "bool \<Rightarrow> heap_counters \<Rightarrow> heap_counters" where
  "leave_no_heap_guard enabled hc =
     (if enabled then if hc_guard_depth hc \<noteq> 0 then hc\<lparr>hc_guard_depth := hc_guard_depth hc - 1\<rparr> else hc else hc)"

definition record_heap_allocation :: "bool \<Rightarrow> u64 \<Rightarrow> heap_counters \<Rightarrow> heap_counters" where
  "record_heap_allocation enabled sz hc =
     (if enabled
      then if hc_guard_depth hc \<noteq> 0
        then hc\<lparr>hc_allocation_count := hc_allocation_count hc + 1, hc_allocation_bytes := hc_allocation_bytes hc + sz\<rparr>
        else hc
      else hc)"

record no_heap_guard =
  nhg_start_count :: u64
  nhg_start_bytes :: u64

definition new_no_heap_guard :: "bool \<Rightarrow> heap_counters \<Rightarrow> no_heap_guard \<times> heap_counters" where
  "new_no_heap_guard enabled hc =
     (\<lparr>nhg_start_count = no_heap_allocation_count enabled hc, nhg_start_bytes = no_heap_allocation_bytes enabled hc\<rparr>,
      enter_no_heap_guard enabled hc)"

definition destroy_no_heap_guard :: "bool \<Rightarrow> heap_counters \<Rightarrow> heap_counters" where
  "destroy_no_heap_guard enabled hc = leave_no_heap_guard enabled hc"

definition nhg_allocation_count :: "bool \<Rightarrow> no_heap_guard \<Rightarrow> heap_counters \<Rightarrow> u64" where
  "nhg_allocation_count enabled guard hc = no_heap_allocation_count enabled hc - nhg_start_count guard"

definition nhg_allocation_bytes :: "bool \<Rightarrow> no_heap_guard \<Rightarrow> heap_counters \<Rightarrow> u64" where
  "nhg_allocation_bytes enabled guard hc = no_heap_allocation_bytes enabled hc - nhg_start_bytes guard"

definition nhg_observed_allocation :: "bool \<Rightarrow> no_heap_guard \<Rightarrow> heap_counters \<Rightarrow> bool" where
  "nhg_observed_allocation enabled guard hc \<longleftrightarrow> nhg_allocation_count enabled guard hc \<noteq> 0"

section \<open>The allocation operators\<close>

type_synonym pointer = u64

datatype alloc_outcome = Allocated "pointer option" | Bad_alloc

definition normalized_allocation_size :: "u64 \<Rightarrow> u64" where
  "normalized_allocation_size sz = (if sz = 0 then 1 else sz)"

text \<open>The argument \<open>grant\<close> is what the allocator of the C library answers to a size (and an alignment).\<close>

definition allocate_heap :: "(u64 \<Rightarrow> pointer option) \<Rightarrow> u64 \<Rightarrow> heap_counters \<Rightarrow> alloc_outcome \<times> heap_counters" where
  "allocate_heap grant sz hc =
     (let normalized = normalized_allocation_size sz;
          hc1 = record_heap_allocation True normalized hc
      in case grant normalized of Some pointer \<Rightarrow> (Allocated (Some pointer), hc1) | None \<Rightarrow> (Bad_alloc, hc1))"

definition allocate_heap_nothrow :: "(u64 \<Rightarrow> pointer option) \<Rightarrow> u64 \<Rightarrow> heap_counters \<Rightarrow> alloc_outcome \<times> heap_counters" where
  "allocate_heap_nothrow grant sz hc =
     (let normalized = normalized_allocation_size sz
      in (Allocated (grant normalized), record_heap_allocation True normalized hc))"

definition allocate_aligned_heap ::
  "(u64 \<Rightarrow> u64 \<Rightarrow> pointer option) \<Rightarrow> u64 \<Rightarrow> u64 \<Rightarrow> heap_counters \<Rightarrow> alloc_outcome \<times> heap_counters" where
  "allocate_aligned_heap grant sz alignment hc =
     (let normalized = normalized_allocation_size sz;
          hc1 = record_heap_allocation True normalized hc
      in case grant alignment normalized of
           Some pointer \<Rightarrow> (Allocated (Some pointer), hc1)
         | None \<Rightarrow> (Bad_alloc, hc1))"

definition allocate_aligned_heap_nothrow ::
  "(u64 \<Rightarrow> u64 \<Rightarrow> pointer option) \<Rightarrow> u64 \<Rightarrow> u64 \<Rightarrow> heap_counters \<Rightarrow> alloc_outcome \<times> heap_counters" where
  "allocate_aligned_heap_nothrow grant sz alignment hc =
     (let normalized = normalized_allocation_size sz
      in (Allocated (grant alignment normalized), record_heap_allocation True normalized hc))"

text \<open>The overloads of \<^verbatim>\<open>operator new\<close>; the array forms are the same.\<close>

datatype new_form = New_plain | New_nothrow | New_aligned u64 | New_aligned_nothrow u64

fun operator_new ::
  "(u64 \<Rightarrow> pointer option) \<Rightarrow> (u64 \<Rightarrow> u64 \<Rightarrow> pointer option) \<Rightarrow> new_form \<Rightarrow> u64 \<Rightarrow> heap_counters
     \<Rightarrow> alloc_outcome \<times> heap_counters" where
  "operator_new malloc memalign New_plain sz hc = allocate_heap malloc sz hc"
| "operator_new malloc memalign New_nothrow sz hc = allocate_heap_nothrow malloc sz hc"
| "operator_new malloc memalign (New_aligned alignment) sz hc = allocate_aligned_heap memalign sz alignment hc"
| "operator_new malloc memalign (New_aligned_nothrow alignment) sz hc =
     allocate_aligned_heap_nothrow memalign sz alignment hc"

text \<open>\<^verbatim>\<open>operator delete\<close> in all its forms only frees: the counters stay.\<close>

definition operator_delete :: "pointer \<Rightarrow> heap_counters \<Rightarrow> heap_counters" where
  "operator_delete pointer hc = hc"

section \<open>The runtime phases\<close>

datatype runtime_phase = Phase_initialization | Phase_warmup | Phase_running | Phase_stopped

fun runtime_phase_name :: "runtime_phase \<Rightarrow> string" where
  "runtime_phase_name Phase_initialization = ''initialization''"
| "runtime_phase_name Phase_warmup = ''warmup''"
| "runtime_phase_name Phase_running = ''running''"
| "runtime_phase_name Phase_stopped = ''stopped''"

record phase_controller =
  pc_phase :: runtime_phase

definition new_phase_controller :: phase_controller where
  "new_phase_controller = \<lparr>pc_phase = Phase_initialization\<rparr>"

definition enter_initialization :: "phase_controller \<Rightarrow> phase_controller" where
  "enter_initialization pc = pc\<lparr>pc_phase := Phase_initialization\<rparr>"

definition enter_warmup :: "phase_controller \<Rightarrow> phase_controller" where
  "enter_warmup pc = pc\<lparr>pc_phase := Phase_warmup\<rparr>"

definition enter_running :: "phase_controller \<Rightarrow> phase_controller" where
  "enter_running pc = pc\<lparr>pc_phase := Phase_running\<rparr>"

definition enter_stopped :: "phase_controller \<Rightarrow> phase_controller" where
  "enter_stopped pc = pc\<lparr>pc_phase := Phase_stopped\<rparr>"

definition runtime_active :: "phase_controller \<Rightarrow> bool" where
  "runtime_active pc \<longleftrightarrow> pc_phase pc = Phase_running"

lemma runtime_phase_name_inject: "runtime_phase_name a = runtime_phase_name b \<longleftrightarrow> a = b"
  by (cases a; cases b) simp_all

section \<open>Programs under guards\<close>

text \<open>What a thread does: it opens and closes further guards, allocates and frees.\<close>

datatype heap_event = Guard_open | Guard_close | Alloc new_form u64 | Free pointer

fun heap_step ::
  "(u64 \<Rightarrow> pointer option) \<Rightarrow> (u64 \<Rightarrow> u64 \<Rightarrow> pointer option) \<Rightarrow> heap_event \<Rightarrow> heap_counters \<Rightarrow> heap_counters" where
  "heap_step malloc memalign Guard_open hc = snd (new_no_heap_guard True hc)"
| "heap_step malloc memalign Guard_close hc = destroy_no_heap_guard True hc"
| "heap_step malloc memalign (Alloc form sz) hc = snd (operator_new malloc memalign form sz hc)"
| "heap_step malloc memalign (Free pointer) hc = operator_delete pointer hc"

definition heap_run ::
  "(u64 \<Rightarrow> pointer option) \<Rightarrow> (u64 \<Rightarrow> u64 \<Rightarrow> pointer option) \<Rightarrow> heap_event list \<Rightarrow> heap_counters \<Rightarrow> heap_counters" where
  "heap_run malloc memalign es hc = fold (heap_step malloc memalign) es hc"

text \<open>
  \<open>guards_after n es\<close> is the number of live guards after the events when \<open>n\<close> were live before; a program closes
  only guards it opened, so that at least the guard we look at stays.\<close>

fun guards_after :: "nat \<Rightarrow> heap_event list \<Rightarrow> nat option" where
  "guards_after n [] = Some n"
| "guards_after n (Guard_open # es) = guards_after (n + 1) es"
| "guards_after n (Guard_close # es) = (if n = 0 then None else guards_after (n - 1) es)"
| "guards_after n (_ # es) = guards_after n es"

fun alloc_sizes :: "heap_event list \<Rightarrow> u64 list" where
  "alloc_sizes [] = []"
| "alloc_sizes (Alloc form sz # es) = normalized_allocation_size sz # alloc_sizes es"
| "alloc_sizes (_ # es) = alloc_sizes es"

text \<open>The sizes allocated while at least one guard is live, \<open>n\<close> being live at the start.\<close>

fun guarded_sizes :: "nat \<Rightarrow> heap_event list \<Rightarrow> u64 list" where
  "guarded_sizes n [] = []"
| "guarded_sizes n (Guard_open # es) = guarded_sizes (n + 1) es"
| "guarded_sizes n (Guard_close # es) = guarded_sizes (n - 1) es"
| "guarded_sizes n (Alloc form sz # es) =
     (if n = 0 then guarded_sizes n es else normalized_allocation_size sz # guarded_sizes n es)"
| "guarded_sizes n (Free pointer # es) = guarded_sizes n es"

lemma operator_new_counters: "snd (operator_new malloc memalign form sz hc) =
    record_heap_allocation True (normalized_allocation_size sz) hc"
  by (cases form) (simp_all add: allocate_heap_def allocate_heap_nothrow_def allocate_aligned_heap_def
    allocate_aligned_heap_nothrow_def Let_def split: option.splits)

lemmas heap_step_defs = new_no_heap_guard_def destroy_no_heap_guard_def enter_no_heap_guard_def leave_no_heap_guard_def
  operator_new_counters record_heap_allocation_def operator_delete_def

lemma heap_run_counters:
  assumes "guards_after n es = Some m" "unat (hc_guard_depth hc) = n" "n + length es < 2 ^ 64"
  shows "unat (hc_guard_depth (heap_run malloc memalign es hc)) = m
    \<and> hc_allocation_count (heap_run malloc memalign es hc) = hc_allocation_count hc + of_nat (length (guarded_sizes n es))
    \<and> hc_allocation_bytes (heap_run malloc memalign es hc) = hc_allocation_bytes hc + sum_list (guarded_sizes n es)"
  using assms
proof (induction es arbitrary: n hc)
  case Nil
  then show ?case by (simp add: heap_run_def)
next
  case (Cons e es)
  have run: "heap_run malloc memalign (x # es) hc = heap_run malloc memalign es (heap_step malloc memalign x hc)" for x
    by (simp add: heap_run_def)
  have zero: "hc_guard_depth hc = 0 \<longleftrightarrow> n = 0" using Cons.prems(2) by (auto simp: unat_eq_0)
  show ?case
  proof (cases e)
    case Guard_open
    have "unat (hc_guard_depth (heap_step malloc memalign e hc)) = n + 1"
      using Cons.prems(2,3) Guard_open by (simp add: heap_step_defs unat_word_ariths)
    with Cons.IH [of "n + 1" "heap_step malloc memalign e hc"] Cons.prems Guard_open show ?thesis
      by (simp add: run heap_step_defs)
  next
    case Guard_close
    then have n: "0 < n" "hc_guard_depth hc \<noteq> 0" using Cons.prems zero by (auto split: if_splits)
    have "unat (hc_guard_depth (heap_step malloc memalign e hc)) = n - 1"
      using Cons.prems(2) n Guard_close by (simp add: heap_step_defs unat_minus_one)
    with Cons.IH [of "n - 1" "heap_step malloc memalign e hc"] Cons.prems Guard_close n show ?thesis
      by (simp add: run heap_step_defs)
  next
    case (Alloc form sz)
    have "unat (hc_guard_depth (heap_step malloc memalign e hc)) = n" using Cons.prems(2) Alloc by (auto simp: heap_step_defs)
    with Cons.IH [of n "heap_step malloc memalign e hc"] Cons.prems Alloc zero show ?thesis
      by (simp add: run heap_step_defs)
  next
    case (Free pointer)
    with Cons.IH [of n "heap_step malloc memalign e hc"] Cons.prems show ?thesis by (simp add: run heap_step_defs)
  qed
qed

text \<open>Under a live guard every allocation is guarded.\<close>

lemma guarded_all: "guards_after n es \<noteq> None \<Longrightarrow> guarded_sizes (Suc n) es = alloc_sizes es"
  by (induction n es rule: guards_after.induct) (auto split: if_splits)

lemma guards_after_add: "guards_after n es = Some m \<Longrightarrow> guards_after (k + n) es = Some (k + m)"
  by (induction n es rule: guards_after.induct) (auto split: if_splits)

section \<open>Properties\<close>

text \<open>
  A guard sees exactly the allocations made while it is live. A thread with \<open>n\<close> live guards opens one more and
  then runs any program that opens and closes further guards, allocates through any form of \<^verbatim>\<open>operator new\<close>, whether the
  allocation succeeds or fails, and frees. Then the guard reports the number of those allocations and the sum of their
  sizes, where an empty request counts as one byte, modulo \<open>2^64\<close>; and an allocation is observed exactly when
  there was one. What happened before the guard does not matter.\<close>

theorem guard_counts_exactly:
  assumes "new_no_heap_guard True hc = (guard, hc1)" "guards_after 0 es \<noteq> None"
    and "unat (hc_guard_depth hc) + length es + 1 < 2 ^ 64"
    and "hc' = heap_run malloc memalign es hc1"
  shows "unat (nhg_allocation_count True guard hc') = length (alloc_sizes es)
    \<and> nhg_allocation_bytes True guard hc' = sum_list (alloc_sizes es)
    \<and> (nhg_observed_allocation True guard hc' \<longleftrightarrow> alloc_sizes es \<noteq> [])
    \<and> no_heap_guard_active True hc'"
proof -
  let ?n = "unat (hc_guard_depth hc)"
  obtain m where "guards_after 0 es = Some m" using assms(2) by blast
  from guards_after_add [OF this, of "?n + 1"] have g: "guards_after (?n + 1) es = Some (?n + 1 + m)" by simp
  have d: "unat (hc_guard_depth hc1) = ?n + 1" using assms(1,3) by (auto simp: heap_step_defs unat_word_ariths)
  have "guards_after ?n es \<noteq> None" using guards_after_add [of 0 es m ?n] \<open>guards_after 0 es = Some m\<close> by simp
  then have sizes: "guarded_sizes (?n + 1) es = alloc_sizes es" using guarded_all by simp
  have run: "unat (hc_guard_depth hc') = ?n + 1 + m"
    "hc_allocation_count hc' = hc_allocation_count hc1 + of_nat (length (alloc_sizes es))"
    "hc_allocation_bytes hc' = hc_allocation_bytes hc1 + sum_list (alloc_sizes es)"
    using heap_run_counters [OF g d, of malloc memalign] assms(3) sizes by (simp_all add: assms(4))
  have "length (alloc_sizes es) \<le> length es" by (induction es rule: alloc_sizes.induct) simp_all
  then have len: "unat (of_nat (length (alloc_sizes es)) :: u64) = length (alloc_sizes es)"
    using assms(3) by (simp add: unat_of_nat)
  have st: "nhg_start_count guard = hc_allocation_count hc1" "nhg_start_bytes guard = hc_allocation_bytes hc1"
    using assms(1) by (auto simp: new_no_heap_guard_def no_heap_allocation_count_def no_heap_allocation_bytes_def
      enter_no_heap_guard_def)
  have "hc_guard_depth hc' \<noteq> 0" using run(1) by (auto simp: unat_eq_0 [symmetric])
  moreover have c: "nhg_allocation_count True guard hc' = of_nat (length (alloc_sizes es))"
    by (simp add: nhg_allocation_count_def no_heap_allocation_count_def run st)
  moreover have "(of_nat (length (alloc_sizes es)) :: u64) \<noteq> 0 \<longleftrightarrow> alloc_sizes es \<noteq> []"
    unfolding unat_eq_0 [symmetric] len by simp
  ultimately show ?thesis
    using len by (simp add: nhg_observed_allocation_def nhg_allocation_bytes_def no_heap_allocation_bytes_def
      no_heap_guard_active_def run st)
qed

theorem guard_counts_exactly_witness:
  "unat (nhg_allocation_count True (fst (new_no_heap_guard True zero_heap_counters))
     (heap_run (\<lambda>_. None) (\<lambda>_ _. None) [Guard_open, Alloc New_plain 0, Guard_close, Free 8, Alloc (New_aligned 64) 100]
       (snd (new_no_heap_guard True zero_heap_counters)))) = 2"
  using guard_counts_exactly [of zero_heap_counters "fst (new_no_heap_guard True zero_heap_counters)"
    "snd (new_no_heap_guard True zero_heap_counters)"
    "[Guard_open, Alloc New_plain 0, Guard_close, Free 8, Alloc (New_aligned 64) 100]" _ "\<lambda>_. None" "\<lambda>_ _. None", OF _ _ _ refl]
  by (simp add: zero_heap_counters_def)

text \<open>In a build without the guard it counts nothing.\<close>

lemma guard_disabled:
  "nhg_allocation_count False guard hc = 0 - nhg_start_count guard" "fst (new_no_heap_guard False hc) = \<lparr>nhg_start_count = 0, nhg_start_bytes = 0\<rparr>"
  "record_heap_allocation False sz hc = hc" "\<not> no_heap_guard_active False hc"
  by (simp_all add: nhg_allocation_count_def no_heap_allocation_count_def no_heap_allocation_bytes_def new_no_heap_guard_def
    record_heap_allocation_def no_heap_guard_active_def)


end
