(* ===== verification/Byte_Io_Check.thy ===== *)
theory Byte_Io_Check
  imports Wire
begin

text \<open>
  The program \<^verbatim>\<open>src/wire/byte_io.cpp\<close>, whose \<^verbatim>\<open>main\<close> checks the wire layer by assertions. Each block of it is the list
  of the conditions it asserts, in order; a failed assertion aborts the program (\<^const>\<open>None\<close>).
\<close>

definition result_ok :: "'a result \<Rightarrow> bool" where
  "result_ok r = (case r of Ok _ \<Rightarrow> True | Fail _ \<Rightarrow> False)"

definition result_value_is :: "'a \<Rightarrow> 'a result \<Rightarrow> bool" where
  "result_value_is v r = (case r of Ok w \<Rightarrow> w = v | Fail _ \<Rightarrow> False)"

definition result_error_is :: "error_code \<Rightarrow> 'a result \<Rightarrow> bool" where
  "result_error_is e r = (case r of Ok _ \<Rightarrow> False | Fail f \<Rightarrow> f = e)"

definition check_ranges :: "bool list" where
  "check_ranges =
     (let small_const_buffer = [0x00, 0x01, 0x02, 0x03]
      in [has_range small_const_buffer 0 4, has_range small_const_buffer 2 2,
          \<not> has_range small_const_buffer 3 2, \<not> has_range small_const_buffer 5 1])"

definition check_read_u8 :: "bool list" where
  "check_read_u8 =
     (let bytes = [0xAB]; result = read_u8 bytes 0; bad_result = read_u8 bytes 1
      in [result_ok result, result_value_is 0xAB result,
          \<not> result_ok bad_result, result_error_is EC_parse_error bad_result])"

definition check_read_u16_be :: "bool list" where
  "check_read_u16_be =
     (let bytes = [0x12, 0x34]; result = read_u16_be bytes 0; bad_result = read_u16_be bytes 1
      in [result_ok result, result_value_is 0x1234 result,
          \<not> result_ok bad_result, result_error_is EC_parse_error bad_result])"

definition check_read_u32_be :: "bool list" where
  "check_read_u32_be =
     (let bytes = [0x12, 0x34, 0x56, 0x78]; result = read_u32_be bytes 0; bad_result = read_u32_be bytes 1
      in [result_ok result, result_value_is 0x12345678 result,
          \<not> result_ok bad_result, result_error_is EC_parse_error bad_result])"

definition check_read_u48_be :: "bool list" where
  "check_read_u48_be =
     (let bytes = [0x01, 0x23, 0x45, 0x67, 0x89, 0xAB]; result = read_u48_be bytes 0; bad_result = read_u48_be bytes 1
      in [result_ok result, result_value_is 0x0123456789AB result,
          \<not> result_ok bad_result, result_error_is EC_parse_error bad_result])"

definition check_read_u64_be :: "bool list" where
  "check_read_u64_be =
     (let bytes = [0x01, 0x23, 0x45, 0x67, 0x89, 0xAB, 0xCD, 0xEF]; result = read_u64_be bytes 0; bad_result = read_u64_be bytes 1
      in [result_ok result, result_value_is 0x0123456789ABCDEF result,
          \<not> result_ok bad_result, result_error_is EC_parse_error bad_result])"

definition check_write_u8 :: "bool list" where
  "check_write_u8 =
     (let (error, bytes) = write_u8 (replicate 1 0) 0 0xCD;
          (bad_error, bytes1) = write_u8 bytes 1 0xEF
      in [error = EC_ok, bytes ! 0 = 0xCD, bad_error = EC_parse_error])"

definition check_write_u16_be :: "bool list" where
  "check_write_u16_be =
     (let (error, bytes) = write_u16_be (replicate 2 0) 0 0x1234; round_trip = read_u16_be bytes 0;
          (bad_error, bytes1) = write_u16_be bytes 1 0x1234
      in [error = EC_ok, bytes ! 0 = 0x12, bytes ! 1 = 0x34, result_ok round_trip,
          result_value_is 0x1234 round_trip, bad_error = EC_parse_error])"

definition check_write_u32_be :: "bool list" where
  "check_write_u32_be =
     (let (error, bytes) = write_u32_be (replicate 4 0) 0 0x12345678; round_trip = read_u32_be bytes 0;
          (bad_error, bytes1) = write_u32_be bytes 1 0x12345678
      in [error = EC_ok, bytes ! 0 = 0x12, bytes ! 1 = 0x34, bytes ! 2 = 0x56, bytes ! 3 = 0x78,
          result_ok round_trip, result_value_is 0x12345678 round_trip, bad_error = EC_parse_error])"

definition check_write_u48_be :: "bool list" where
  "check_write_u48_be =
     (let (error, bytes) = write_u48_be (replicate 6 0) 0 0x0123456789AB; round_trip = read_u48_be bytes 0;
          (bad_error, bytes1) = write_u48_be bytes 1 0x0123456789AB;
          (overflow_error, bytes2) = write_u48_be bytes1 0 0x0001000000000000
      in [error = EC_ok, bytes ! 0 = 0x01, bytes ! 1 = 0x23, bytes ! 2 = 0x45, bytes ! 3 = 0x67,
          bytes ! 4 = 0x89, bytes ! 5 = 0xAB, result_ok round_trip,
          result_value_is 0x0123456789AB round_trip, bad_error = EC_parse_error,
          overflow_error = EC_invalid_argument])"

definition check_write_u64_be :: "bool list" where
  "check_write_u64_be =
     (let (error, bytes) = write_u64_be (replicate 8 0) 0 0x0123456789ABCDEF; round_trip = read_u64_be bytes 0;
          (bad_error, bytes1) = write_u64_be bytes 1 0x0123456789ABCDEF
      in [error = EC_ok, bytes ! 0 = 0x01, bytes ! 1 = 0x23, bytes ! 2 = 0x45, bytes ! 3 = 0x67,
          bytes ! 4 = 0x89, bytes ! 5 = 0xAB, bytes ! 6 = 0xCD, bytes ! 7 = 0xEF,
          result_ok round_trip, result_value_is 0x0123456789ABCDEF round_trip,
          bad_error = EC_parse_error])"

definition byte_io_main :: "int option" where
  "byte_io_main =
     (if list_all (list_all id) [check_ranges, check_read_u8, check_read_u16_be, check_read_u32_be,
          check_read_u48_be, check_read_u64_be, check_write_u8, check_write_u16_be,
          check_write_u32_be, check_write_u48_be, check_write_u64_be]
      then Some 0 else None)"

lemma check_ranges_holds: "list_all id check_ranges"
  by code_simp

lemma check_read_u8_holds: "list_all id check_read_u8"
  by code_simp

lemma check_read_u16_be_holds: "list_all id check_read_u16_be"
  by code_simp

lemma check_read_u32_be_holds: "list_all id check_read_u32_be"
  by code_simp

lemma check_read_u48_be_holds: "list_all id check_read_u48_be"
  by code_simp

lemma check_read_u64_be_holds: "list_all id check_read_u64_be"
  by code_simp

lemma check_write_u8_holds: "list_all id check_write_u8"
  by code_simp

lemma check_write_u16_be_holds: "list_all id check_write_u16_be"
  by code_simp

lemma check_write_u32_be_holds: "list_all id check_write_u32_be"
  by code_simp

lemma check_write_u48_be_holds: "list_all id check_write_u48_be"
  by code_simp

lemma check_write_u64_be_holds: "list_all id check_write_u64_be"
  by code_simp

text \<open>
  No assertion of the wire layer's own check program fails: it returns 0.\<close>

theorem byte_io_main_passes: "byte_io_main = Some 0"
  by (simp add: byte_io_main_def check_ranges_holds check_read_u8_holds check_read_u16_be_holds check_read_u32_be_holds check_read_u48_be_holds check_read_u64_be_holds check_write_u8_holds check_write_u16_be_holds check_write_u32_be_holds check_write_u48_be_holds check_write_u64_be_holds)

end
