(* ===== verification/Perf_Report.thy ===== *)
theory Perf_Report
  imports Reports
begin

text \<open>
  The program \<^verbatim>\<open>apps/fgep_spsc_perf_report.cpp\<close>: it reads a capture of \<^verbatim>\<open>perf stat\<close> followed by the output of the queue
  program, and writes a report. A file is the list of its lines; what the file system and the system answer is an
  argument. The arithmetic of \<^verbatim>\<open>double\<close> with \<^verbatim>\<open>std::stod\<close> and the fixed-precision output is the argument \<open>double_ops\<close>: nothing
  here depends on how binary floating point rounds. The program's \<^verbatim>\<open>contains\<close> is \<open>contains_text\<close> of theory \<open>Reports\<close>, whose
  body is the same. Text printed to the console is left out.
\<close>

section \<open>Data\<close>

record perf_event_counts =
  pec_cycles :: u64
  pec_instructions :: u64
  pec_branches :: u64
  pec_branch_misses :: u64
  pec_cache_references :: u64
  pec_cache_misses :: u64
  pec_l1_dcache_loads :: u64
  pec_l1_dcache_load_misses :: u64
  pec_dtlb_loads :: u64
  pec_dtlb_load_misses :: u64

definition no_perf_events :: perf_event_counts where
  "no_perf_events = \<lparr>pec_cycles = 0, pec_instructions = 0, pec_branches = 0, pec_branch_misses = 0,
     pec_cache_references = 0, pec_cache_misses = 0, pec_l1_dcache_loads = 0, pec_l1_dcache_load_misses = 0,
     pec_dtlb_loads = 0, pec_dtlb_load_misses = 0\<rparr>"

text \<open>\<^verbatim>\<open>std::size_t\<close> has 64 bits.\<close>

record queue_run_stats =
  qrs_produced :: u64
  qrs_consumed :: u64
  qrs_checksum :: u64
  qrs_submit_queued :: u64
  qrs_submit_rejected :: u64
  qrs_ring_full :: u64
  qrs_payload_size :: u64

definition no_queue_run :: queue_run_stats where
  "no_queue_run = \<lparr>qrs_produced = 0, qrs_consumed = 0, qrs_checksum = 0, qrs_submit_queued = 0,
     qrs_submit_rejected = 0, qrs_ring_full = 0, qrs_payload_size = 0\<rparr>"

record 'd perf_stat_report =
  psr_label :: string
  psr_input_path :: string
  psr_date_utc :: string
  psr_host :: string
  psr_kernel :: string
  psr_command :: string
  psr_elapsed_seconds :: 'd
  psr_events :: perf_event_counts
  psr_queue :: queue_run_stats

record perf_args =
  pa_input :: string
  pa_output :: string
  pa_label :: string

definition default_perf_args :: perf_args where
  "default_perf_args = \<lparr>pa_input = [], pa_output = [], pa_label = ''local''\<rparr>"

record 'd double_ops =
  dop_stod :: "string \<Rightarrow> 'd option"
  dop_of_u64 :: "u64 \<Rightarrow> 'd"
  dop_mul :: "'d \<Rightarrow> 'd \<Rightarrow> 'd"
  dop_div :: "'d \<Rightarrow> 'd \<Rightarrow> 'd"
  dop_is_zero :: "'d \<Rightarrow> bool"
  dop_zero :: 'd
  dop_hundred :: 'd
  dop_million :: 'd
  dop_fixed :: "'d \<Rightarrow> nat \<Rightarrow> string"

section \<open>Parsing\<close>

text \<open>\<^verbatim>\<open>std::isspace\<close> and \<^verbatim>\<open>std::isalnum\<close> in the C locale.\<close>

definition is_space :: "char \<Rightarrow> bool" where
  "is_space c \<longleftrightarrow> c = CHR '' '' \<or> 0x09 \<le> byte_of_char c \<and> byte_of_char c \<le> 0x0D"

definition is_alnum :: "char \<Rightarrow> bool" where
  "is_alnum c \<longleftrightarrow> is_digit c \<or> is_uppercase_alpha c
     \<or> byte_of_char CHR ''a'' \<le> byte_of_char c \<and> byte_of_char c \<le> byte_of_char CHR ''z''"

definition trim_spaces :: "string \<Rightarrow> string" where
  "trim_spaces s = rev (dropWhile is_space (rev (dropWhile is_space s)))"

fun token_digits :: "string \<Rightarrow> string \<Rightarrow> string" where
  "token_digits digits [] = digits"
| "token_digits digits (c # cs) =
     (if is_digit c then token_digits (digits @ [c]) cs
      else if c = CHR '','' then token_digits digits cs
      else if digits \<noteq> [] then digits
      else token_digits digits cs)"

text \<open>\<^verbatim>\<open>std::from_chars\<close> on digits only: it fails when the number does not fit.\<close>

definition from_chars_u64 :: "string \<Rightarrow> u64 option" where
  "from_chars_u64 digits = (if decimal 0 digits < 2 ^ 64 then Some (of_nat (decimal 0 digits)) else None)"

definition parse_u64_token :: "string \<Rightarrow> u64 option" where
  "parse_u64_token s =
     (let digits = token_digits [] s in if digits = [] then None else from_chars_u64 digits)"

fun token_numeric :: "string \<Rightarrow> string \<Rightarrow> string" where
  "token_numeric token [] = token"
| "token_numeric token (c # cs) =
     (if is_digit c \<or> c = CHR ''.'' then token_numeric (token @ [c]) cs
      else if token \<noteq> [] then token
      else token_numeric token cs)"

definition parse_first_double :: "'d double_ops \<Rightarrow> string \<Rightarrow> 'd option" where
  "parse_first_double ops s = (let token = token_numeric [] s in if token = [] then None else dop_stod ops token)"

definition parse_event_line :: "string \<Rightarrow> perf_event_counts \<Rightarrow> perf_event_counts" where
  "parse_event_line line events =
     (case parse_u64_token line of
        None \<Rightarrow> events
      | Some v \<Rightarrow>
          if contains_text line ''branch-misses'' then events\<lparr>pec_branch_misses := v\<rparr>
          else if contains_text line ''branches'' then events\<lparr>pec_branches := v\<rparr>
          else if contains_text line ''cache-references'' then events\<lparr>pec_cache_references := v\<rparr>
          else if contains_text line ''cache-misses'' then events\<lparr>pec_cache_misses := v\<rparr>
          else if contains_text line ''L1-dcache-load-misses'' then events\<lparr>pec_l1_dcache_load_misses := v\<rparr>
          else if contains_text line ''L1-dcache-loads'' then events\<lparr>pec_l1_dcache_loads := v\<rparr>
          else if contains_text line ''dTLB-load-misses'' then events\<lparr>pec_dtlb_load_misses := v\<rparr>
          else if contains_text line ''dTLB-loads'' then events\<lparr>pec_dtlb_loads := v\<rparr>
          else if contains_text line ''instructions'' then events\<lparr>pec_instructions := v\<rparr>
          else if contains_text line ''cycles'' then events\<lparr>pec_cycles := v\<rparr>
          else events)"

definition parse_key_value_u64 :: "string \<Rightarrow> string \<Rightarrow> u64 option" where
  "parse_key_value_u64 line key =
     (let prefix = key @ ''='' in if \<not> starts_with prefix line then None else parse_u64_token (drop (length prefix) line))"

text \<open>The conversion to \<^verbatim>\<open>std::size_t\<close> keeps the value, so that the check behind it never fails.\<close>

definition parse_key_value_size :: "string \<Rightarrow> string \<Rightarrow> u64 option" where
  "parse_key_value_size line key =
     (case parse_key_value_u64 line key of
        None \<Rightarrow> None
      | Some v \<Rightarrow> let converted = (ucast v :: u64) in if (ucast converted :: u64) \<noteq> v then None else Some converted)"

definition parse_queue_line :: "string \<Rightarrow> queue_run_stats \<Rightarrow> queue_run_stats" where
  "parse_queue_line line stats =
     (case parse_key_value_size line ''payload_size'' of Some v \<Rightarrow> stats\<lparr>qrs_payload_size := v\<rparr> | None \<Rightarrow>
      case parse_key_value_u64 line ''produced'' of Some v \<Rightarrow> stats\<lparr>qrs_produced := v\<rparr> | None \<Rightarrow>
      case parse_key_value_u64 line ''consumed'' of Some v \<Rightarrow> stats\<lparr>qrs_consumed := v\<rparr> | None \<Rightarrow>
      case parse_key_value_u64 line ''checksum'' of Some v \<Rightarrow> stats\<lparr>qrs_checksum := v\<rparr> | None \<Rightarrow>
      case parse_key_value_u64 line ''submit_queued'' of Some v \<Rightarrow> stats\<lparr>qrs_submit_queued := v\<rparr> | None \<Rightarrow>
      case parse_key_value_u64 line ''submit_rejected'' of Some v \<Rightarrow> stats\<lparr>qrs_submit_rejected := v\<rparr> | None \<Rightarrow>
      case parse_key_value_u64 line ''ring_full'' of Some v \<Rightarrow> stats\<lparr>qrs_ring_full := v\<rparr> | None \<Rightarrow> stats)"

definition parse_header_value :: "string \<Rightarrow> string \<Rightarrow> string" where
  "parse_header_value line key =
     (let prefix = ''# '' @ key @ '': ''
      in if \<not> starts_with prefix line then [] else trim_spaces (drop (length prefix) line))"

definition parse_perf_header :: "string \<Rightarrow> 'd perf_stat_report \<Rightarrow> 'd perf_stat_report" where
  "parse_perf_header line report =
     (if parse_header_value line ''date_utc'' \<noteq> [] then report\<lparr>psr_date_utc := parse_header_value line ''date_utc''\<rparr>
      else if parse_header_value line ''host'' \<noteq> [] then report\<lparr>psr_host := parse_header_value line ''host''\<rparr>
      else if parse_header_value line ''kernel'' \<noteq> [] then report\<lparr>psr_kernel := parse_header_value line ''kernel''\<rparr>
      else if parse_header_value line ''command'' \<noteq> [] then report\<lparr>psr_command := parse_header_value line ''command''\<rparr>
      else report)"

definition parse_perf_line :: "'d double_ops \<Rightarrow> string \<Rightarrow> 'd perf_stat_report \<Rightarrow> 'd perf_stat_report" where
  "parse_perf_line ops line report =
     (if starts_with ''# '' line then parse_perf_header line report
      else if contains_text line ''seconds time elapsed''
      then (case parse_first_double ops line of Some v \<Rightarrow> report\<lparr>psr_elapsed_seconds := v\<rparr> | None \<Rightarrow> report)
      else report\<lparr>psr_events := parse_event_line line (psr_events report),
                  psr_queue := parse_queue_line line (psr_queue report)\<rparr>)"

definition empty_perf_report :: "'d double_ops \<Rightarrow> string \<Rightarrow> string \<Rightarrow> 'd perf_stat_report" where
  "empty_perf_report ops input label = \<lparr>psr_label = label, psr_input_path = input, psr_date_utc = [], psr_host = [],
     psr_kernel = [], psr_command = [], psr_elapsed_seconds = dop_zero ops, psr_events = no_perf_events,
     psr_queue = no_queue_run\<rparr>"

text \<open>\<^const>\<open>None\<close> is the exception for a file that cannot be opened.\<close>

definition parse_perf_file ::
  "'d double_ops \<Rightarrow> string list option \<Rightarrow> string \<Rightarrow> string \<Rightarrow> 'd perf_stat_report option" where
  "parse_perf_file ops stream input label =
     map_option (\<lambda>file_lines. fold (parse_perf_line ops) file_lines (empty_perf_report ops input label)) stream"

section \<open>The report\<close>

definition safe_divide :: "'d double_ops \<Rightarrow> 'd \<Rightarrow> 'd \<Rightarrow> 'd" where
  "safe_divide ops numerator denominator =
     (if dop_is_zero ops denominator then dop_zero ops else dop_div ops numerator denominator)"

definition percentage :: "'d double_ops \<Rightarrow> u64 \<Rightarrow> u64 \<Rightarrow> 'd" where
  "percentage ops numerator denominator =
     dop_mul ops (dop_hundred ops) (safe_divide ops (dop_of_u64 ops numerator) (dop_of_u64 ops denominator))"

definition timestamp_from_date_utc :: "string \<Rightarrow> string" where
  "timestamp_from_date_utc date_utc =
     (if length date_utc \<ge> 19
      then substr date_utc 0 4 @ substr date_utc 5 2 @ substr date_utc 8 2 @ ''-''
           @ substr date_utc 11 2 @ substr date_utc 14 2 @ substr date_utc 17 2
      else ''unknown-time'')"

definition sanitize_filename_token :: "string \<Rightarrow> string" where
  "sanitize_filename_token v =
     (let output = map (\<lambda>c. if is_alnum c \<or> c = CHR ''-'' \<or> c = CHR ''_'' \<or> c = CHR ''.'' then c else CHR ''-'') v
      in if output = [] then ''local'' else output)"

definition default_report_output_path :: "'d perf_stat_report \<Rightarrow> string" where
  "default_report_output_path report = ''reports'' @ ''/'' @ ''perf'' @ ''/''
     @ (sanitize_filename_token (psr_label report) @ ''-spsc-queue-report-''
        @ timestamp_from_date_utc (psr_date_utc report) @ ''.md'')"

definition append_event_row :: "string \<Rightarrow> u64 \<Rightarrow> string" where
  "append_event_row name v = table_row name (show_u64 v)"

definition perf_queue_section :: "'d double_ops \<Rightarrow> 'd perf_stat_report \<Rightarrow> string" where
  "perf_queue_section ops report =
     (let queue = psr_queue report;
          handoffs_per_second = safe_divide ops (dop_of_u64 ops (qrs_consumed queue)) (psr_elapsed_seconds report);
          mhandoffs_per_second = dop_div ops handoffs_per_second (dop_million ops)
      in nl @ ''## Queue run summary'' @ nl @ nl @ ''| Metric | Value |'' @ nl @ ''|---|---:|'' @ nl
         @ table_row ''payload_size_bytes'' (show_u64 (qrs_payload_size queue))
         @ table_row ''produced'' (show_u64 (qrs_produced queue))
         @ table_row ''consumed'' (show_u64 (qrs_consumed queue))
         @ table_row ''submit_queued'' (show_u64 (qrs_submit_queued queue))
         @ table_row ''submit_rejected'' (show_u64 (qrs_submit_rejected queue))
         @ table_row ''ring_full'' (show_u64 (qrs_ring_full queue))
         @ table_row ''elapsed_seconds'' (dop_fixed ops (psr_elapsed_seconds report) 6)
         @ table_row ''throughput_handoffs_per_sec'' (dop_fixed ops handoffs_per_second 2)
         @ table_row ''throughput_mhandoffs_per_sec'' (dop_fixed ops mhandoffs_per_second 3))"

definition perf_counter_section :: "perf_event_counts \<Rightarrow> string" where
  "perf_counter_section events = nl @ ''## Perf counters'' @ nl @ nl @ ''| Counter | Value |'' @ nl @ ''|---|---:|'' @ nl
     @ append_event_row ''cycles'' (pec_cycles events)
     @ append_event_row ''instructions'' (pec_instructions events)
     @ append_event_row ''branches'' (pec_branches events)
     @ append_event_row ''branch_misses'' (pec_branch_misses events)
     @ append_event_row ''cache_references'' (pec_cache_references events)
     @ append_event_row ''cache_misses'' (pec_cache_misses events)
     @ append_event_row ''l1_dcache_loads'' (pec_l1_dcache_loads events)
     @ append_event_row ''l1_dcache_load_misses'' (pec_l1_dcache_load_misses events)
     @ append_event_row ''dtlb_loads'' (pec_dtlb_loads events)
     @ append_event_row ''dtlb_load_misses'' (pec_dtlb_load_misses events)"

definition perf_derived_section :: "'d double_ops \<Rightarrow> 'd perf_stat_report \<Rightarrow> string" where
  "perf_derived_section ops report =
     (let events = psr_events report; queue = psr_queue report;
          ipc = safe_divide ops (dop_of_u64 ops (pec_instructions events)) (dop_of_u64 ops (pec_cycles events));
          cycles_per_handoff = safe_divide ops (dop_of_u64 ops (pec_cycles events)) (dop_of_u64 ops (qrs_consumed queue));
          instructions_per_handoff =
            safe_divide ops (dop_of_u64 ops (pec_instructions events)) (dop_of_u64 ops (qrs_consumed queue))
      in nl @ ''## Derived metrics'' @ nl @ nl @ ''| Metric | Value |'' @ nl @ ''|---|---:|'' @ nl
         @ table_row ''ipc_instructions_per_cycle'' (dop_fixed ops ipc 3)
         @ table_row ''cycles_per_handoff'' (dop_fixed ops cycles_per_handoff 2)
         @ table_row ''instructions_per_handoff'' (dop_fixed ops instructions_per_handoff 2)
         @ table_row ''branch_miss_rate_percent''
             (dop_fixed ops (percentage ops (pec_branch_misses events) (pec_branches events)) 4)
         @ table_row ''l1d_miss_rate_percent''
             (dop_fixed ops (percentage ops (pec_l1_dcache_load_misses events) (pec_l1_dcache_loads events)) 4)
         @ table_row ''dtlb_miss_rate_percent''
             (dop_fixed ops (percentage ops (pec_dtlb_load_misses events) (pec_dtlb_loads events)) 6)
         @ table_row ''ring_full_rate_percent''
             (dop_fixed ops (percentage ops (qrs_ring_full queue) (qrs_submit_queued queue + qrs_submit_rejected queue)) 4))"

text \<open>The report throws when the collection of the system metadata does.\<close>

definition format_report :: "'d double_ops \<Rightarrow> system_env \<Rightarrow> 'd perf_stat_report \<Rightarrow> string option" where
  "format_report ops env report =
     map_option (\<lambda>metadata.
       ''# SPSC Queue Perf Report'' @ nl @ nl @ ''Label: `'' @ psr_label report @ ''`'' @ nl @ nl
       @ ''## Input'' @ nl @ nl @ ''| Field | Value |'' @ nl @ ''|---|---|'' @ nl
       @ table_row ''input_path'' (''`'' @ psr_input_path report @ ''`'')
       @ table_row ''date_utc'' (psr_date_utc report)
       @ table_row ''host'' (psr_host report)
       @ table_row ''kernel'' (psr_kernel report)
       @ table_row ''command'' (''`'' @ psr_command report @ ''`'')
       @ perf_queue_section ops report
       @ perf_counter_section (psr_events report)
       @ perf_derived_section ops report
       @ nl @ format_system_metadata_markdown metadata) (collect_system_metadata env)"

section \<open>The program\<close>

fun perf_parse_args :: "string list \<Rightarrow> perf_args \<Rightarrow> perf_args option" where
  "perf_parse_args [] args = (if pa_input args = [] then None else Some args)"
| "perf_parse_args [arg] args = None"
| "perf_parse_args (arg # v # rest) args =
     (if arg = ''--input'' then perf_parse_args rest (args\<lparr>pa_input := v\<rparr>)
      else if arg = ''--output'' then perf_parse_args rest (args\<lparr>pa_output := v\<rparr>)
      else if arg = ''--label'' then perf_parse_args rest (args\<lparr>pa_label := v\<rparr>)
      else None)"

text \<open>The directory part of a path, without its last separators.\<close>

definition parent_path :: "string \<Rightarrow> string" where
  "parent_path path =
     (let directory = dropWhile (\<lambda>c. c \<noteq> CHR ''/'') (rev path); parent = dropWhile (\<lambda>c. c = CHR ''/'') directory
      in if parent = [] then take 1 directory else rev parent)"

record perf_report_env =
  pre_read :: "string \<Rightarrow> string list option"
  pre_create_directories :: "string \<Rightarrow> bool"
  pre_open_output :: "string \<Rightarrow> bool"
  pre_system :: system_env

text \<open>
  The exit code, and the file written with its text. \<open>argv\<close> is without the program name; \<open>pre_create_directories\<close> is
  false when the call throws.\<close>

definition perf_report_main ::
  "'d double_ops \<Rightarrow> perf_report_env \<Rightarrow> string list \<Rightarrow> int \<times> (string \<times> string) option" where
  "perf_report_main ops env argv =
     (case perf_parse_args argv default_perf_args of
        None \<Rightarrow> (2, None)
      | Some args \<Rightarrow>
          (case parse_perf_file ops (pre_read env (pa_input args)) (pa_input args) (pa_label args) of
             None \<Rightarrow> (1, None)
           | Some report \<Rightarrow>
               (case format_report ops (pre_system env) report of
                  None \<Rightarrow> (1, None)
                | Some markdown \<Rightarrow>
                    let output = (if pa_output args = [] then default_report_output_path report else pa_output args);
                        parent = parent_path output
                    in if parent \<noteq> [] \<and> \<not> pre_create_directories env parent then (1, None)
                       else if \<not> pre_open_output env output then (1, None)
                       else (0, Some (output, markdown)))))"

section \<open>Lines of a capture\<close>

text \<open>The ten events, the names that \<^verbatim>\<open>perf\<close> prints for them, and the counter of each.\<close>

datatype perf_event = PE_cycles | PE_instructions | PE_branches | PE_branch_misses | PE_cache_references
  | PE_cache_misses | PE_l1_loads | PE_l1_load_misses | PE_dtlb_loads | PE_dtlb_load_misses

fun event_name :: "perf_event \<Rightarrow> string" where
  "event_name PE_cycles = ''cycles''"
| "event_name PE_instructions = ''instructions''"
| "event_name PE_branches = ''branches''"
| "event_name PE_branch_misses = ''branch-misses''"
| "event_name PE_cache_references = ''cache-references''"
| "event_name PE_cache_misses = ''cache-misses''"
| "event_name PE_l1_loads = ''L1-dcache-loads''"
| "event_name PE_l1_load_misses = ''L1-dcache-load-misses''"
| "event_name PE_dtlb_loads = ''dTLB-loads''"
| "event_name PE_dtlb_load_misses = ''dTLB-load-misses''"

fun set_event :: "perf_event \<Rightarrow> u64 \<Rightarrow> perf_event_counts \<Rightarrow> perf_event_counts" where
  "set_event PE_cycles v events = events\<lparr>pec_cycles := v\<rparr>"
| "set_event PE_instructions v events = events\<lparr>pec_instructions := v\<rparr>"
| "set_event PE_branches v events = events\<lparr>pec_branches := v\<rparr>"
| "set_event PE_branch_misses v events = events\<lparr>pec_branch_misses := v\<rparr>"
| "set_event PE_cache_references v events = events\<lparr>pec_cache_references := v\<rparr>"
| "set_event PE_cache_misses v events = events\<lparr>pec_cache_misses := v\<rparr>"
| "set_event PE_l1_loads v events = events\<lparr>pec_l1_dcache_loads := v\<rparr>"
| "set_event PE_l1_load_misses v events = events\<lparr>pec_l1_dcache_load_misses := v\<rparr>"
| "set_event PE_dtlb_loads v events = events\<lparr>pec_dtlb_loads := v\<rparr>"
| "set_event PE_dtlb_load_misses v events = events\<lparr>pec_dtlb_load_misses := v\<rparr>"

text \<open>What stands around the name of an event in its line: blanks, numbers, percentages.\<close>

definition line_noise :: "char \<Rightarrow> bool" where
  "line_noise c \<longleftrightarrow> is_digit c \<or> c \<in> set '' ,.()%''"

text \<open>A text between such characters is found only inside what they surround.\<close>

lemma contains_inside:
  assumes "list_all P pre" "list_all P post" "needle \<noteq> []" "\<not> P (hd needle)" "\<not> P (last needle)"
  shows "contains_text (pre @ name @ post) needle \<longleftrightarrow> contains_text name needle"
proof
  assume "contains_text name needle"
  then obtain b a where "name = b @ needle @ a" by (auto simp: contains_text_iff)
  then have "pre @ name @ post = (pre @ b) @ needle @ (a @ post)" by simp
  then show "contains_text (pre @ name @ post) needle" unfolding contains_text_iff by blast
next
  assume "contains_text (pre @ name @ post) needle"
  then obtain b a where eq: "pre @ name @ post = b @ needle @ a" by (auto simp: contains_text_iff)
  have "\<exists>us. name @ post = us @ needle @ a"
    using iffD1 [OF append_eq_append_conv2 eq]
  proof (elim exE disjE conjE)
    fix us assume "pre = b @ us" "us @ name @ post = needle @ a"
    moreover from this have "us = []" using assms(1,3,4) by (cases us; cases needle) auto
    ultimately show ?thesis by auto
  qed blast
  then obtain us where eq: "name @ post = (us @ needle) @ a" by auto
  have "\<exists>ws. name = us @ needle @ ws"
    using iffD1 [OF append_eq_append_conv2 eq]
  proof (elim exE disjE conjE)
    fix ws assume ws: "name @ ws = us @ needle" "post = ws @ a"
    have "ws = []"
    proof (rule ccontr)
      assume "ws \<noteq> []"
      then have "last needle = last ws" using ws(1) assms(3) by (metis last_appendR)
      moreover have "P (last ws)" using \<open>ws \<noteq> []\<close> ws(2) assms(2) by (auto simp: list_all_iff)
      ultimately show False using assms(5) by simp
    qed
    with ws(1) show ?thesis by auto
  qed auto
  then obtain ws where "name = us @ needle @ ws" by blast
  then show "contains_text name needle" unfolding contains_text_iff by blast
qed

lemma noise_letters:
  "\<not> line_noise CHR ''b''" "\<not> line_noise CHR ''c''" "\<not> line_noise CHR ''d''" "\<not> line_noise CHR ''i''" "\<not> line_noise CHR ''p''"
  "\<not> line_noise CHR ''r''" "\<not> line_noise CHR ''s''" "\<not> line_noise CHR ''L''" "\<not> line_noise CHR ''#''" "line_noise CHR '' ''"
  by (simp_all add: line_noise_def is_digit_def byte_of_char_def)

lemma blanks:
  assumes "list_all (\<lambda>c. c = CHR '' '') s"
  shows "list_all (\<lambda>c. \<not> is_digit c) s" "list_all line_noise s"
  using assms by (induction s) (simp_all add: line_noise_def is_digit_def byte_of_char_def)

lemma counts_noise: "list_all (\<lambda>c. is_digit c \<or> c = CHR '','') s \<Longrightarrow> list_all line_noise s"
  by (induction s) (auto simp: line_noise_def)

lemma event_name_ends: "event_name e \<noteq> []" "\<not> line_noise (hd (event_name e))" "\<not> line_noise (last (event_name e))"
  by (cases e; simp add: noise_letters)+

text \<open>No name of an event occurs in another one: the order of the checks does not matter.\<close>

definition all_events :: "perf_event list" where
  "all_events = [PE_branch_misses, PE_branches, PE_cache_references, PE_cache_misses, PE_l1_load_misses, PE_l1_loads,
     PE_dtlb_load_misses, PE_dtlb_loads, PE_instructions, PE_cycles]"

lemma all_events_complete: "e \<in> set all_events"
  by (cases e) (simp_all add: all_events_def)

lemma all_events_holds: "list_all P all_events \<Longrightarrow> P e"
  using all_events_complete [of e] by (simp add: list_all_iff)

lemma contains_event_name: "contains_text (event_name e) (event_name f) \<longleftrightarrow> e = f"
proof -
  have "list_all (\<lambda>e. list_all (\<lambda>f. contains_text (event_name e) (event_name f) \<longleftrightarrow> e = f) all_events) all_events"
    by code_simp
  from all_events_holds [OF all_events_holds [OF this]] show ?thesis .
qed

lemma contains_around:
  assumes "list_all line_noise pre" "list_all line_noise post"
  shows "contains_text (pre @ event_name e @ post) (event_name f) \<longleftrightarrow> e = f"
  using contains_inside [OF assms event_name_ends] contains_event_name by simp

lemma parse_event_line_names:
  "parse_event_line line events = (case parse_u64_token line of None \<Rightarrow> events | Some v \<Rightarrow>
     (case find (\<lambda>e. contains_text line (event_name e)) all_events of
        None \<Rightarrow> events | Some e \<Rightarrow> set_event e v events))"
  by (simp add: parse_event_line_def all_events_def split: option.split)

lemma parse_event_line_one:
  assumes "\<And>f. contains_text line (event_name f) \<longleftrightarrow> e = f" "parse_u64_token line = Some v"
  shows "parse_event_line line events = set_event e v events"
  unfolding parse_event_line_names assms by (cases e) (simp_all add: assms(2) all_events_def)

lemma parse_event_line_none:
  assumes "\<And>f. \<not> contains_text line (event_name f)"
  shows "parse_event_line line events = events"
  unfolding parse_event_line_names by (simp add: assms all_events_def split: option.split)

section \<open>Numbers in lines\<close>

lemma token_skip: "list_all (\<lambda>c. \<not> is_digit c) s \<Longrightarrow> token_digits [] (s @ t) = token_digits [] t"
  by (induction s) simp_all

lemma comma_no_digit: "\<not> is_digit CHR '',''"
  by (simp add: is_digit_def byte_of_char_def)

lemma token_count:
  "list_all (\<lambda>c. is_digit c \<or> c = CHR '','') s \<Longrightarrow> token_digits d (s @ t) = token_digits (d @ filter is_digit s) t"
  by (induction s arbitrary: d) (auto simp: comma_no_digit)

lemma from_chars_show: "from_chars_u64 (show_u64 n) = Some n"
proof -
  have "unat n < 2 ^ 64" using unsigned_less [of n, where 'a = nat] by simp
  then show ?thesis by (simp add: from_chars_u64_def show_u64_def decimal_show_nat)
qed

lemma show_u64_digits: "list_all is_digit (show_u64 n)" "show_u64 n \<noteq> []"
  using show_nat_digits [of "unat n"] by (simp_all add: show_u64_def)

lemma parse_count:
  assumes "list_all (\<lambda>c. \<not> is_digit c) pad" "list_all (\<lambda>c. is_digit c \<or> c = CHR '','') cnt" "filter is_digit cnt = show_u64 n"
    and "rest = [] \<or> \<not> is_digit (hd rest) \<and> hd rest \<noteq> CHR '',''"
  shows "parse_u64_token (pad @ cnt @ rest) = Some n"
proof -
  have "token_digits (show_u64 n) rest = show_u64 n" using assms(4) show_u64_digits(2) by (cases rest) auto
  then show ?thesis
    using assms(1-3) show_u64_digits(2) [of n]
    by (simp add: parse_u64_token_def token_skip token_count from_chars_show)
qed

lemma parse_shown: "parse_u64_token (show_u64 n) = Some n"
proof -
  have "list_all (\<lambda>c. is_digit c \<or> c = CHR '','') (show_u64 n)" "filter is_digit (show_u64 n) = show_u64 n"
    using show_u64_digits [of n] by (auto simp: list_all_iff filter_id_conv)
  from parse_count [of "[]", OF _ this, of "[]"] show ?thesis by simp
qed

lemma starts_with_hd: "starts_with (k # ks) line \<Longrightarrow> line \<noteq> [] \<and> hd line = k"
  by (cases line) (auto simp: starts_with_def)

lemma parse_queue_line_noise:
  assumes "line \<noteq> []" "line_noise (hd line)"
  shows "parse_queue_line line stats = stats"
proof -
  have "\<not> starts_with (k # ks) line" if "\<not> line_noise k" for k ks
    using starts_with_hd [of k ks line] that assms(2) by auto
  then show ?thesis
    by (simp add: parse_queue_line_def parse_key_value_size_def parse_key_value_u64_def noise_letters)
qed

lemma parse_perf_line_counter:
  assumes "line \<noteq> []" "line_noise (hd line)" "\<not> contains_text line ''seconds time elapsed''"
  shows "parse_perf_line ops line report = report\<lparr>psr_events := parse_event_line line (psr_events report)\<rparr>"
proof -
  have "\<not> starts_with ''# '' line" using starts_with_hd [of "CHR ''#''" "'' ''" line] assms(2) noise_letters by auto
  then show ?thesis using assms by (simp add: parse_perf_line_def parse_queue_line_noise)
qed

lemma elapsed_not_event: "\<not> contains_text (event_name e) ''seconds time elapsed''"
proof -
  have "list_all (\<lambda>e. \<not> contains_text (event_name e) ''seconds time elapsed'') all_events" by code_simp
  from all_events_holds [OF this] show ?thesis .
qed

lemma contains_uncounted: "contains_text (''<not counted>      '' @ event_name e) (event_name f) \<longleftrightarrow> e = f"
proof -
  have "list_all (\<lambda>e. list_all (\<lambda>f. contains_text (''<not counted>      '' @ event_name e) (event_name f) \<longleftrightarrow> e = f) all_events) all_events"
    by code_simp
  from all_events_holds [OF all_events_holds [OF this]] show ?thesis .
qed

section \<open>Properties\<close>

text \<open>
  A line that \<^verbatim>\<open>perf\<close> prints for an event sets the counter of that event to the number in the line, and
  changes nothing else of the report: the number may be grouped by commas, blanks may stand in front of it and between
  it and the name, and blanks, numbers and percentages may follow.\<close>

theorem perf_event_line_read:
  assumes "list_all (\<lambda>c. c = CHR '' '') pad" "list_all (\<lambda>c. c = CHR '' '') gap" "list_all line_noise tail"
    and "list_all (\<lambda>c. is_digit c \<or> c = CHR '','') digits" "filter is_digit digits = show_u64 n"
  shows "parse_perf_line ops (pad @ digits @ '' '' @ gap @ event_name e @ tail) report
    = report\<lparr>psr_events := set_event e n (psr_events report)\<rparr>"
proof -
  let ?pre = "pad @ digits @ '' '' @ gap" and ?line = "pad @ digits @ '' '' @ gap @ event_name e @ tail"
  have blank: "\<not> is_digit CHR '' ''" "CHR '' '' \<noteq> CHR '',''" by (simp_all add: is_digit_def byte_of_char_def)
  have noise: "list_all line_noise ?pre"
    using blanks(2) [OF assms(1)] blanks(2) [OF assms(2)] counts_noise [OF assms(4)] by (simp add: line_noise_def)
  have split: "?line = ?pre @ event_name e @ tail" by simp
  have "hd ?line = hd ?pre" by (cases pad; cases digits) simp_all
  moreover have "hd ?pre \<in> set ?pre" by (rule hd_in_set) simp
  ultimately have hd: "line_noise (hd ?line)" using noise by (simp only: list_all_iff)
  from parse_count [OF blanks(1) [OF assms(1)] assms(4,5), of "'' '' @ gap @ event_name e @ tail"] blank
  have token: "parse_u64_token ?line = Some n" by simp
  have one: "contains_text ?line (event_name f) \<longleftrightarrow> e = f" for f
    unfolding split by (rule contains_around [OF noise assms(3)])
  have no: "\<not> contains_text ?line ''seconds time elapsed''"
    unfolding split using contains_inside [OF noise assms(3), of "''seconds time elapsed''"] elapsed_not_event noise_letters
    by simp
  have ne: "?line \<noteq> []" by simp
  show ?thesis unfolding parse_perf_line_counter [OF ne hd no] parse_event_line_one [OF one token] ..
qed

text \<open>Whole numbers in the place of floating point.\<close>

definition whole_numbers :: "nat double_ops" where
  "whole_numbers = \<lparr>dop_stod = (\<lambda>s. Some (decimal 0 (takeWhile is_digit s))), dop_of_u64 = unat, dop_mul = (*), dop_div = (div),
     dop_is_zero = (\<lambda>x. x = 0), dop_zero = 0, dop_hundred = 100, dop_million = 1000000, dop_fixed = (\<lambda>x _. show_nat x)\<rparr>"

theorem perf_event_line_read_witness:
  "pec_dtlb_load_misses (psr_events (parse_perf_line whole_numbers
     ''      120,090      dTLB-load-misses      (90.00%)'' (empty_perf_report whole_numbers [] []))) = 120090"
proof -
  have "show_u64 120090 = ''120090''" by (simp add: show_u64_def show_nat.simps char_of_def bit_0)
  then have "filter is_digit ''120,090'' = show_u64 120090" by (simp add: is_digit_def byte_of_char_def)
  moreover have "list_all line_noise ''      (90.00%)''" "list_all (\<lambda>c. is_digit c \<or> c = CHR '','') ''120,090''"
    by code_simp+
  ultimately have "psr_events (parse_perf_line whole_numbers (''      '' @ ''120,090'' @ '' '' @ ''     ''
      @ event_name PE_dtlb_load_misses @ ''      (90.00%)'') (empty_perf_report whole_numbers [] []))
      = set_event PE_dtlb_load_misses 120090 no_perf_events"
    by (subst perf_event_line_read) (simp_all add: empty_perf_report_def)
  then show ?thesis by simp
qed

text \<open>
  C40: An event that was not counted is printed as \<^verbatim>\<open><not counted>\<close> in the place of its number. For the two events of the
  first-level cache the parser then takes the digit of their names for the count and reports 1, and so a miss rate of
  1 in 1; the other counters keep their values.\<close>

theorem not_counted_reads_one:
  assumes "list_all (\<lambda>c. c = CHR '' '') pad" "list_all (\<lambda>c. c = CHR '' '') tail"
  shows "parse_event_line (pad @ ''<not counted>      '' @ event_name e @ tail) events
    = (if e \<in> {PE_l1_loads, PE_l1_load_misses} then set_event e 1 events else events)"
proof -
  let ?line = "pad @ ''<not counted>      '' @ event_name e @ tail"
  have "contains_text ?line (event_name f) \<longleftrightarrow> contains_text (''<not counted>      '' @ event_name e) (event_name f)" for f
    using contains_inside [OF blanks(2) [OF assms(1)] blanks(2) [OF assms(2)] event_name_ends,
      of "''<not counted>      '' @ event_name e" f] by simp
  then have one: "contains_text ?line (event_name f) \<longleftrightarrow> e = f" for f using contains_uncounted by simp
  show ?thesis
  proof (cases "e \<in> {PE_l1_loads, PE_l1_load_misses}")
    case True
    then obtain rest where rest: "event_name e = ''L1-'' @ rest" by auto
    have "list_all (\<lambda>c. \<not> is_digit c) (pad @ ''<not counted>      L'')"
      using blanks(1) [OF assms(1)] by (simp add: is_digit_def byte_of_char_def)
    moreover have "list_all (\<lambda>c. is_digit c \<or> c = CHR '','') ''1''" by code_simp
    moreover have "show_u64 1 = ''1''" by (simp add: show_u64_def show_nat.simps char_of_def bit_0)
    then have "filter is_digit ''1'' = show_u64 1" by (simp add: is_digit_def byte_of_char_def)
    ultimately have "parse_u64_token ((pad @ ''<not counted>      L'') @ ''1'' @ (''-'' @ rest @ tail)) = Some 1"
      by (rule parse_count) (simp add: is_digit_def byte_of_char_def)
    then have "parse_u64_token ?line = Some 1" by (simp add: rest)
    from parse_event_line_one [OF one this] True show ?thesis by simp
  next
    case False
    have "list_all (\<lambda>c. \<not> is_digit c) (''<not counted>      '' @ event_name e)"
      using False by (cases e) (simp_all add: is_digit_def byte_of_char_def)
    then have "list_all (\<lambda>c. \<not> is_digit c) ?line" using blanks(1) [OF assms(1)] blanks(1) [OF assms(2)] by simp
    then have "parse_u64_token ?line = None" using token_skip [of ?line "[]"] by (simp add: parse_u64_token_def)
    with False show ?thesis by (simp add: parse_event_line_def)
  qed
qed

theorem not_counted_reads_one_witness:
  "percentage whole_numbers
     (pec_l1_dcache_load_misses (parse_event_line ''     <not counted>      L1-dcache-load-misses  '' no_perf_events))
     (pec_l1_dcache_loads (parse_event_line ''     <not counted>      L1-dcache-loads  '' no_perf_events)) = 100"
  using not_counted_reads_one [of "''     ''" "''  ''" PE_l1_loads no_perf_events]
    not_counted_reads_one [of "''     ''" "''  ''" PE_l1_load_misses no_perf_events]
  by (simp add: percentage_def safe_divide_def whole_numbers_def)

text \<open>
  The default path stays inside \<^verbatim>\<open>reports/perf\<close> whatever the label is, as long as the time stamp of the capture has no
  separator in the places that are taken from it.\<close>

lemma sanitized_no_separator: "CHR ''/'' \<notin> set (sanitize_filename_token v)" "sanitize_filename_token v \<noteq> []"
  by (auto simp: sanitize_filename_token_def Let_def is_alnum_def is_digit_def is_uppercase_alpha_def byte_of_char_def)

lemma default_path_parent:
  assumes "CHR ''/'' \<notin> set (timestamp_from_date_utc (psr_date_utc report))"
  shows "parent_path (default_report_output_path report) = ''reports/perf''"
proof -
  let ?name = "sanitize_filename_token (psr_label report) @ ''-spsc-queue-report-''
    @ timestamp_from_date_utc (psr_date_utc report) @ ''.md''"
  have "\<forall>c \<in> set (rev ?name). c \<noteq> CHR ''/''" using assms sanitized_no_separator(1) [of "psr_label report"] by auto
  then have "dropWhile (\<lambda>c. c \<noteq> CHR ''/'') (rev ?name @ ''/frep/stroper'')
      = dropWhile (\<lambda>c. c \<noteq> CHR ''/'') ''/frep/stroper''" by (intro dropWhile_append2) blast
  then have "dropWhile (\<lambda>c. c \<noteq> CHR ''/'') (rev ?name @ ''/frep/stroper'') = ''/frep/stroper''" by simp
  moreover have "rev (default_report_output_path report) = rev ?name @ ''/frep/stroper''" by (simp add: default_report_output_path_def)
  ultimately show ?thesis unfolding parent_path_def Let_def by simp
qed

text \<open>The program writes exactly when it returns 0.\<close>

lemma perf_report_main_writes: "snd (perf_report_main ops env argv) \<noteq> None \<longleftrightarrow> fst (perf_report_main ops env argv) = 0"
  by (auto simp: perf_report_main_def Let_def split: option.split)


end
