(* ===== verification/Queue_Perf.thy ===== *)
theory Queue_Perf
  imports Async_Worker Perf_Report
begin

text \<open>
  The program \<^verbatim>\<open>apps/fgep_spsc_queue_perf.cpp\<close>: a producer and a consumer thread on one submit queue. Each access to a
  shared flag or to the queue is a step of its own, and the threads are interleaved in any way; the operations of the
  queue are atomic, which theory \<open>Spsc_Ring\<close> justifies. What a look at the stop flag finds is part of the schedule.

  The theory shows that, whenever both threads have returned, everything produced has been consumed and the printed
  figures are exact; that the program ends after a stop signal under every schedule; and that the program of theory
  \<open>Perf_Report\<close> reads the printed figures back.
\<close>

section \<open>Configuration\<close>

record queue_perf_config =
  qpc_operations :: u64
  qpc_payload_size :: u64

definition default_queue_perf_config :: queue_perf_config where
  "default_queue_perf_config = \<lparr>qpc_operations = 0, qpc_payload_size = 64\<rparr>"

text \<open>The template arguments of \<^verbatim>\<open>Queue\<close>.\<close>

definition perf_queue_capacity :: nat where
  "perf_queue_capacity = 4096"

definition perf_queue_max_payload :: nat where
  "perf_queue_max_payload = 256"

text \<open>\<^const>\<open>None\<close> is the result \<^verbatim>\<open>false\<close>; \<^verbatim>\<open>std::from_chars\<close> wants a digit and has to reach the end of the text.\<close>

definition parse_u64 :: "string \<Rightarrow> u64 option" where
  "parse_u64 s = (if s = [] \<or> \<not> list_all is_digit s then None else from_chars_u64 s)"

definition parse_size :: "string \<Rightarrow> u64 option" where
  "parse_size s =
     (case parse_u64 s of
        None \<Rightarrow> None
      | Some parsed \<Rightarrow> let v = (ucast parsed :: u64) in if (ucast v :: u64) = parsed then Some v else None)"

text \<open>\<open>argv\<close> without the program name; a single argument is a request for help, unknown, or lacks its value.\<close>

fun queue_perf_parse_args :: "string list \<Rightarrow> queue_perf_config \<Rightarrow> queue_perf_config option" where
  "queue_perf_parse_args [] config =
     (if qpc_payload_size config > 0 \<and> unat (qpc_payload_size config) \<le> perf_queue_max_payload then Some config else None)"
| "queue_perf_parse_args [arg] config = None"
| "queue_perf_parse_args (arg # v # rest) config =
     (if arg = ''--help'' \<or> arg = ''-h'' then None
      else if arg = ''--operations''
      then (case parse_u64 v of None \<Rightarrow> None | Some n \<Rightarrow> queue_perf_parse_args rest (config\<lparr>qpc_operations := n\<rparr>))
      else if arg = ''--payload-size''
      then (case parse_size v of None \<Rightarrow> None | Some n \<Rightarrow> queue_perf_parse_args rest (config\<lparr>qpc_payload_size := n\<rparr>))
      else None)"

definition fill_payload :: "bytes \<Rightarrow> nat \<Rightarrow> bytes" where
  "fill_payload payload payload_size = map (\<lambda>index. of_nat (index mod 256)) [0..<payload_size] @ drop payload_size payload"

definition payload_view :: "queue_perf_config \<Rightarrow> bytes" where
  "payload_view config =
     take (unat (qpc_payload_size config))
       (fill_payload (replicate perf_queue_max_payload 0) (unat (qpc_payload_size config)))"

definition make_request :: "u32 \<Rightarrow> bytes \<Rightarrow> backend_submit_request" where
  "make_request user_ref_num payload = \<lparr>bsq_user_ref_num = user_ref_num, bsq_kind = BK_enter, bsq_payload = payload\<rparr>"

section \<open>The threads\<close>

text \<open>Where the producer is: at the start flag, at the outer and at the inner condition, before a push, before the last store.\<close>

datatype perf_producer = QP_spin | QP_outer | QP_inner | QP_push | QP_finish | QP_done

text \<open>Where the consumer is: at the start flag, at both halves of its condition, before a pop, before the last stores.\<close>

datatype perf_consumer = QC_spin | QC_check_done | QC_check_empty | QC_pop | QC_finish | QC_done

record queue_perf_state =
  qps_queue :: submit_queue
  qps_start :: bool
  qps_producer :: perf_producer
  qps_sequence :: u64
  qps_produced :: u64
  qps_producer_done :: bool
  qps_consumer :: perf_consumer
  qps_local_consumed :: u64
  qps_local_checksum :: u64
  qps_consumed :: u64
  qps_checksum :: u64

definition queue_perf_start :: queue_perf_state where
  "queue_perf_start =
     \<lparr>qps_queue = new_submit_queue perf_queue_capacity perf_queue_max_payload (Some cs_reset), qps_start = False,
      qps_producer = QP_spin, qps_sequence = 1, qps_produced = 0, qps_producer_done = False,
      qps_consumer = QC_spin, qps_local_consumed = 0, qps_local_checksum = 0, qps_consumed = 0, qps_checksum = 0\<rparr>"

text \<open>One step of the producer; \<open>stop\<close> is what a look at the stop flag finds.\<close>

definition perf_producer_step :: "queue_perf_config \<Rightarrow> bool \<Rightarrow> queue_perf_state \<Rightarrow> queue_perf_state" where
  "perf_producer_step config stop st =
     (case qps_producer st of
        QP_spin \<Rightarrow> if qps_start st then st\<lparr>qps_producer := QP_outer\<rparr> else st
      | QP_outer \<Rightarrow>
          if stop then st\<lparr>qps_producer := QP_finish\<rparr>
          else if qpc_operations config \<noteq> 0 \<and> qps_sequence st > qpc_operations config
          then st\<lparr>qps_producer := QP_finish\<rparr>
          else st\<lparr>qps_producer := QP_inner\<rparr>
      | QP_inner \<Rightarrow> if stop then st\<lparr>qps_producer := QP_outer\<rparr> else st\<lparr>qps_producer := QP_push\<rparr>
      | QP_push \<Rightarrow>
          (case queue_push (make_request (ucast (qps_sequence st)) (payload_view config)) (qps_queue st) of
             (status, queue) \<Rightarrow>
               if status = QS_queued
               then st\<lparr>qps_queue := queue, qps_produced := qps_produced st + 1, qps_sequence := qps_sequence st + 1,
                       qps_producer := QP_outer\<rparr>
               else st\<lparr>qps_queue := queue, qps_producer := QP_inner\<rparr>)
      | QP_finish \<Rightarrow> st\<lparr>qps_producer_done := True, qps_producer := QP_done\<rparr>
      | QP_done \<Rightarrow> st)"

definition checksum_step :: "backend_submit_request \<Rightarrow> u64 \<Rightarrow> u64" where
  "checksum_step request local_checksum =
     (let c1 = local_checksum XOR ucast (bsq_user_ref_num request);
          c2 = c1 XOR of_nat (length (bsq_payload request))
      in if bsq_payload request \<noteq> []
         then (c2 XOR ucast (hd (bsq_payload request))) XOR ucast (last (bsq_payload request))
         else c2)"

definition perf_consumer_step :: "queue_perf_state \<Rightarrow> queue_perf_state" where
  "perf_consumer_step st =
     (case qps_consumer st of
        QC_spin \<Rightarrow> if qps_start st then st\<lparr>qps_consumer := QC_check_done\<rparr> else st
      | QC_check_done \<Rightarrow> st\<lparr>qps_consumer := (if \<not> qps_producer_done st then QC_pop else QC_check_empty)\<rparr>
      | QC_check_empty \<Rightarrow> st\<lparr>qps_consumer := (if \<not> queue_empty (qps_queue st) then QC_pop else QC_finish)\<rparr>
      | QC_pop \<Rightarrow>
          (case queue_pop (qps_queue st) of
             (None, queue) \<Rightarrow> st\<lparr>qps_queue := queue, qps_consumer := QC_check_done\<rparr>
           | (Some item, queue) \<Rightarrow>
               st\<lparr>qps_queue := queue, qps_local_checksum := checksum_step (item_request item) (qps_local_checksum st),
                  qps_local_consumed := qps_local_consumed st + 1, qps_consumer := QC_check_done\<rparr>)
      | QC_finish \<Rightarrow> st\<lparr>qps_consumed := qps_local_consumed st, qps_checksum := qps_local_checksum st, qps_consumer := QC_done\<rparr>
      | QC_done \<Rightarrow> st)"

text \<open>A schedule: \<^verbatim>\<open>main\<close> opens the start flag, and the threads take their steps.\<close>

datatype perf_action = Main_start | Producer bool | Consumer

fun queue_perf_step :: "queue_perf_config \<Rightarrow> perf_action \<Rightarrow> queue_perf_state \<Rightarrow> queue_perf_state" where
  "queue_perf_step config Main_start st = st\<lparr>qps_start := True\<rparr>"
| "queue_perf_step config (Producer stop) st = perf_producer_step config stop st"
| "queue_perf_step config Consumer st = perf_consumer_step st"

definition queue_perf_run :: "queue_perf_config \<Rightarrow> perf_action list \<Rightarrow> queue_perf_state" where
  "queue_perf_run config actions = fold (queue_perf_step config) actions queue_perf_start"

text \<open>\<^verbatim>\<open>main\<close> goes on when both threads have been joined.\<close>

definition perf_joined :: "queue_perf_state \<Rightarrow> bool" where
  "perf_joined st \<longleftrightarrow> qps_producer st = QP_done \<and> qps_consumer st = QC_done"

definition queue_run_figures :: "queue_perf_config \<Rightarrow> queue_perf_state \<Rightarrow> queue_run_stats" where
  "queue_run_figures config st =
     (let snapshot = (case bq_stats (qps_queue st) of Some cs \<Rightarrow> cs | None \<Rightarrow> cs_reset)
      in \<lparr>qrs_produced = qps_produced st, qrs_consumed = qps_consumed st, qrs_checksum = qps_checksum st,
          qrs_submit_queued = snapshot CC_submit_queued, qrs_submit_rejected = snapshot CC_submit_rejected,
          qrs_ring_full = snapshot CC_ring_full, qrs_payload_size = qpc_payload_size config\<rparr>)"

definition queue_perf_output :: "queue_run_stats \<Rightarrow> string list" where
  "queue_perf_output figures =
     [''spsc_queue_perf_complete'',
      ''payload_size='' @ show_u64 (qrs_payload_size figures),
      ''produced='' @ show_u64 (qrs_produced figures),
      ''consumed='' @ show_u64 (qrs_consumed figures),
      ''checksum='' @ show_u64 (qrs_checksum figures),
      ''submit_queued='' @ show_u64 (qrs_submit_queued figures),
      ''submit_rejected='' @ show_u64 (qrs_submit_rejected figures),
      ''ring_full='' @ show_u64 (qrs_ring_full figures)]"

definition queue_perf_exit_code :: "queue_perf_state \<Rightarrow> int" where
  "queue_perf_exit_code st = (if qps_produced st = qps_consumed st then 0 else 1)"

section \<open>The invariant\<close>

text \<open>The first \<open>k\<close> requests of the producer.\<close>

definition perf_requests :: "queue_perf_config \<Rightarrow> nat \<Rightarrow> backend_submit_request list" where
  "perf_requests config k = map (\<lambda>i. make_request (of_nat (i + 1)) (payload_view config)) [0..<k]"

text \<open>What was popped, followed by what is queued, is what was pushed; the counters follow.\<close>

definition perf_flow :: "queue_perf_config \<Rightarrow> nat \<Rightarrow> queue_perf_state \<Rightarrow> bool" where
  "perf_flow config k st \<longleftrightarrow>
     queue_inv (qps_queue st) \<and> bq_max_payload_size (qps_queue st) = perf_queue_max_payload
   \<and> ring_capacity (bq_ring (qps_queue st)) = perf_queue_capacity
   \<and> (\<exists>taken. perf_requests config k = taken @ queue_requests (qps_queue st)
        \<and> qps_local_consumed st = of_nat (length taken) \<and> qps_local_checksum st = fold checksum_step taken 0)
   \<and> qps_produced st = of_nat k \<and> qps_sequence st = of_nat (k + 1)
   \<and> (\<exists>cs. bq_stats (qps_queue st) = Some cs \<and> cs CC_submit_queued = of_nat k \<and> cs CC_submit_rejected = cs CC_ring_full)"

text \<open>The places of the threads agree with the flags, and the consumer leaves its loop only behind the producer.\<close>

definition perf_control :: "queue_perf_state \<Rightarrow> bool" where
  "perf_control st \<longleftrightarrow>
     (qps_producer_done st \<longleftrightarrow> qps_producer st = QP_done)
   \<and> (qps_producer st \<noteq> QP_spin \<longrightarrow> qps_start st)
   \<and> (qps_consumer st \<in> {QC_check_empty, QC_finish, QC_done} \<longrightarrow> qps_producer_done st)
   \<and> (qps_consumer st \<in> {QC_finish, QC_done} \<longrightarrow> queue_requests (qps_queue st) = [])
   \<and> (qps_consumer st = QC_done \<longrightarrow> qps_consumed st = qps_local_consumed st \<and> qps_checksum st = qps_local_checksum st)"

text \<open>A limited run pushes at most the wanted number, and exactly that when it saw no stop signal.\<close>

definition perf_limit :: "queue_perf_config \<Rightarrow> bool \<Rightarrow> nat \<Rightarrow> queue_perf_state \<Rightarrow> bool" where
  "perf_limit config signalled k st \<longleftrightarrow> (qpc_operations config \<noteq> 0 \<longrightarrow>
     k \<le> unat (qpc_operations config)
   \<and> (qps_producer st \<in> {QP_inner, QP_push} \<longrightarrow> k < unat (qpc_operations config))
   \<and> (qps_producer st \<in> {QP_finish, QP_done} \<and> \<not> signalled \<longrightarrow> k = unat (qpc_operations config)))"

definition perf_inv :: "queue_perf_config \<Rightarrow> bool \<Rightarrow> nat \<Rightarrow> queue_perf_state \<Rightarrow> bool" where
  "perf_inv config signalled k st \<longleftrightarrow> perf_flow config k st \<and> perf_control st \<and> perf_limit config signalled k st"

definition perf_config_ok :: "queue_perf_config \<Rightarrow> bool" where
  "perf_config_ok config \<longleftrightarrow> 0 < unat (qpc_payload_size config) \<and> unat (qpc_payload_size config) \<le> perf_queue_max_payload"

lemma perf_requests_Suc: "perf_requests config (k + 1) = perf_requests config k @ [make_request (of_nat (k + 1)) (payload_view config)]"
  by (simp add: perf_requests_def)

lemma length_payload_view: "length (payload_view config) = unat (qpc_payload_size config)"
  by (simp add: payload_view_def fill_payload_def)

lemma ucast_sequence: "(ucast (of_nat n :: u64) :: u32) = of_nat n"
  by (simp add: unsigned_of_nat word_of_nat_eq_iff)

lemma queue_push_ring_full:
  assumes "queue_push request q = (status, q')" "bq_stats q = Some cs"
    and "bsq_payload request \<noteq> []" "length (bsq_payload request) \<le> bq_max_payload_size q"
  shows "\<exists>cs'. bq_stats q' = Some cs' \<and> cs' CC_submit_queued = cs CC_submit_queued + (if status = QS_queued then 1 else 0)
    \<and> cs' CC_submit_rejected = cs CC_submit_rejected + (if status = QS_queued then 0 else 1)
    \<and> cs' CC_ring_full = cs CC_ring_full + (if status = QS_queued then 0 else 1)"
  using assms by (auto simp: queue_push_def make_item_def bq_record_def cs_increment_def split: prod.splits if_splits)

section \<open>The steps keep the invariant\<close>

lemma perf_producer_flow:
  assumes "perf_flow config k st" "perf_config_ok config"
  shows "perf_flow config (if qps_produced (perf_producer_step config stop st) = qps_produced st then k else k + 1)
    (perf_producer_step config stop st)"
proof (cases "qps_producer st = QP_push")
  case False
  then show ?thesis using assms(1) by (cases "qps_producer st") (auto simp: perf_producer_step_def perf_flow_def)
next
  case True
  let ?request = "make_request (ucast (qps_sequence st)) (payload_view config)"
  obtain status queue where p: "queue_push ?request (qps_queue st) = (status, queue)"
    by (cases "queue_push ?request (qps_queue st)")
  from assms(1) obtain taken cs where f: "queue_inv (qps_queue st)" "bq_max_payload_size (qps_queue st) = perf_queue_max_payload"
    "perf_requests config k = taken @ queue_requests (qps_queue st)" "qps_local_consumed st = of_nat (length taken)"
    "qps_local_checksum st = fold checksum_step taken 0" "qps_produced st = of_nat k" "qps_sequence st = of_nat (k + 1)"
    "bq_stats (qps_queue st) = Some cs" "cs CC_submit_queued = of_nat k" "cs CC_submit_rejected = cs CC_ring_full"
    "ring_capacity (bq_ring (qps_queue st)) = perf_queue_capacity"
    by (auto simp: perf_flow_def)
  have r: "?request = make_request (of_nat (k + 1)) (payload_view config)"
    using f(7) ucast_sequence [of "k + 1"] by simp
  have payload: "bsq_payload ?request \<noteq> []" "length (bsq_payload ?request) \<le> bq_max_payload_size (qps_queue st)"
    using assms(2) f(2) length_payload_view [of config] by (auto simp: make_request_def perf_config_ok_def)
  note push = queue_push_spec [OF f(1) p]
  obtain cs' where cs': "bq_stats queue = Some cs'" "cs' CC_submit_queued = cs CC_submit_queued + (if status = QS_queued then 1 else 0)"
    "cs' CC_submit_rejected = cs CC_submit_rejected + (if status = QS_queued then 0 else 1)"
    "cs' CC_ring_full = cs CC_ring_full + (if status = QS_queued then 0 else 1)"
    using queue_push_ring_full [OF p f(8) payload] by blast
  show ?thesis
  proof (cases "status = QS_queued")
    case queued: True
    then have "perf_requests config (k + 1) = taken @ queue_requests queue"
      using push f(3) r perf_requests_Suc [of config k] by simp
    with queued True p push f cs' show ?thesis by (auto simp: perf_producer_step_def perf_flow_def)
  next
    case False
    with True p push f cs' show ?thesis by (auto simp: perf_producer_step_def perf_flow_def)
  qed
qed

lemma perf_consumer_flow:
  assumes "perf_flow config k st"
  shows "perf_flow config k (perf_consumer_step st)"
proof (cases "qps_consumer st = QC_pop")
  case False
  then show ?thesis using assms by (cases "qps_consumer st") (auto simp: perf_consumer_step_def perf_flow_def)
next
  case True
  obtain r queue where p: "queue_pop (qps_queue st) = (r, queue)" by (cases "queue_pop (qps_queue st)")
  from assms obtain taken where f: "queue_inv (qps_queue st)" "perf_requests config k = taken @ queue_requests (qps_queue st)"
    "qps_local_consumed st = of_nat (length taken)" "qps_local_checksum st = fold checksum_step taken 0"
    by (auto simp: perf_flow_def)
  note pop = queue_pop_spec [OF f(1) p]
  show ?thesis
  proof (cases r)
    case None
    then have "queue_requests queue = queue_requests (qps_queue st)" using pop by (cases "queue_requests (qps_queue st)") auto
    with None True p pop assms show ?thesis by (auto simp: perf_consumer_step_def perf_flow_def)
  next
    case (Some item)
    then have q: "queue_requests (qps_queue st) = item_request item # queue_requests queue"
      using pop by (cases "queue_requests (qps_queue st)") auto
    with Some True p pop assms f show ?thesis
      by (auto simp: perf_consumer_step_def perf_flow_def intro!: exI [of _ "taken @ [item_request item]"])
  qed
qed

lemma perf_producer_control:
  assumes "perf_control st" "perf_flow config k st"
  shows "perf_control (perf_producer_step config stop st)"
  using assms by (cases "qps_producer st") (auto simp: perf_producer_step_def perf_control_def split: prod.splits)

lemma perf_consumer_control:
  assumes "perf_control st" "perf_flow config k st"
  shows "perf_control (perf_consumer_step st)"
proof (cases "qps_consumer st = QC_pop")
  case True
  then show ?thesis using assms(1) by (auto simp: perf_consumer_step_def perf_control_def split: prod.splits option.splits)
next
  case False
  then show ?thesis using assms(1)
    by (cases "qps_consumer st") (auto simp: perf_consumer_step_def perf_control_def queue_empty_iff)
qed

lemma perf_producer_limit:
  assumes "perf_limit config signalled k st" "perf_flow config k st" "unat (qpc_operations config) + 1 < 2 ^ 64"
  shows "perf_limit config (stop \<or> signalled)
    (if qps_produced (perf_producer_step config stop st) = qps_produced st then k else k + 1) (perf_producer_step config stop st)"
proof (cases "qpc_operations config = 0")
  case False
  then have k: "k \<le> unat (qpc_operations config)" using assms(1) by (simp add: perf_limit_def)
  then have "unat (of_nat (k + 1) :: u64) = k + 1" using assms(3) by (simp add: unat_of_nat del: of_nat_add of_nat_Suc)
  moreover have "qps_sequence st = of_nat (k + 1)" using assms(2) by (simp add: perf_flow_def)
  ultimately have "qps_sequence st > qpc_operations config \<longleftrightarrow> k = unat (qpc_operations config)"
    using k by (auto simp: word_less_nat_alt)
  then show ?thesis using assms(1) False k
    by (cases "qps_producer st") (auto simp: perf_producer_step_def perf_limit_def split: prod.splits)
qed (simp add: perf_limit_def)

lemma perf_consumer_limit: "perf_limit config signalled k st \<Longrightarrow> perf_limit config signalled k (perf_consumer_step st)"
  by (cases "qps_consumer st")
     (auto simp: perf_consumer_step_def perf_limit_def split: prod.splits option.splits)

lemma queue_perf_step_inv:
  assumes "perf_inv config signalled k st" "perf_config_ok config" "unat (qpc_operations config) + 1 < 2 ^ 64"
  shows "\<exists>k'. perf_inv config (Producer True = action \<or> signalled) k' (queue_perf_step config action st)"
proof (cases action)
  case Main_start
  have "perf_inv config signalled k (st\<lparr>qps_start := True\<rparr>)"
    using assms(1) unfolding perf_inv_def
    by (intro conjI) (simp add: perf_flow_def, auto simp: perf_control_def perf_limit_def)
  with Main_start show ?thesis by (intro exI [of _ k]) simp
next
  case (Producer stop)
  have inv: "perf_flow config k st" "perf_control st" "perf_limit config signalled k st" using assms(1) by (simp_all add: perf_inv_def)
  have "perf_inv config (stop \<or> signalled) (if qps_produced (perf_producer_step config stop st) = qps_produced st then k else k + 1)
      (perf_producer_step config stop st)"
    unfolding perf_inv_def
    by (intro conjI perf_producer_flow [OF inv(1) assms(2)] perf_producer_control [OF inv(2,1)]
      perf_producer_limit [OF inv(3,1) assms(3)])
  moreover have "(Producer True = action) = stop" using Producer by auto
  ultimately show ?thesis using Producer by (simp only: queue_perf_step.simps) blast
next
  case Consumer
  with assms(1) perf_consumer_flow perf_consumer_control perf_consumer_limit show ?thesis
    unfolding perf_inv_def by (intro exI [of _ k]) auto
qed

lemma queue_perf_start_inv: "perf_inv config False 0 queue_perf_start"
proof -
  have "valid_ring_capacity perf_queue_capacity" "0 < perf_queue_max_payload" "perf_queue_max_payload \<le> 65535"
    by (simp_all add: perf_queue_capacity_def perf_queue_max_payload_def valid_ring_capacity_def)
  note q = new_submit_queue_inv [OF this, of "Some cs_reset"]
  have s: "bq_max_payload_size (new_submit_queue n m stats) = m" "bq_stats (new_submit_queue n m stats) = stats" for n m stats
    by (simp_all add: new_submit_queue_def)
  show ?thesis
    using q by (simp add: perf_inv_def perf_flow_def perf_control_def perf_limit_def queue_perf_start_def perf_requests_def s)
       (simp add: cs_reset_def)
qed

lemma queue_perf_run_inv:
  assumes "perf_config_ok config" "unat (qpc_operations config) + 1 < 2 ^ 64"
  shows "\<exists>k. perf_inv config (Producer True \<in> set actions) k (queue_perf_run config actions)"
proof (induction actions rule: rev_induct)
  case Nil
  then show ?case using queue_perf_start_inv [of config] by (auto simp: queue_perf_run_def)
next
  case (snoc action actions)
  then obtain k where "perf_inv config (Producer True \<in> set actions) k (queue_perf_run config actions)" by blast
  from queue_perf_step_inv [OF this assms, of action] show ?case by (simp add: queue_perf_run_def)
qed

section \<open>Stopping\<close>

text \<open>How many steps a thread is away from its end: the producer when it is told to stop, the consumer behind the producer.\<close>

definition producer_distance :: "queue_perf_state \<Rightarrow> nat" where
  "producer_distance st = (case qps_producer st of QP_push \<Rightarrow> 4 | QP_inner \<Rightarrow> 3 | QP_spin \<Rightarrow> 3 | QP_outer \<Rightarrow> 2 | QP_finish \<Rightarrow> 1 | QP_done \<Rightarrow> 0)"

definition consumer_distance :: "queue_perf_state \<Rightarrow> nat" where
  "consumer_distance st = 3 * length (queue_requests (qps_queue st))
     + (case qps_consumer st of
          QC_spin \<Rightarrow> 4
        | QC_check_done \<Rightarrow> 3
        | QC_check_empty \<Rightarrow> 2
        | QC_pop \<Rightarrow> (if queue_requests (qps_queue st) = [] then 4 else 1)
        | QC_finish \<Rightarrow> 1
        | QC_done \<Rightarrow> 0)"

lemma perf_producer_step_stops:
  "qps_start st \<Longrightarrow> producer_distance (perf_producer_step config True st) \<le> producer_distance st - 1"
  by (cases "qps_producer st") (auto simp: perf_producer_step_def producer_distance_def split: prod.splits)

lemma perf_consumer_step_fields:
  "qps_producer (perf_consumer_step st) = qps_producer st" "qps_start (perf_consumer_step st) = qps_start st"
  by (cases "qps_consumer st"; auto simp: perf_consumer_step_def split: prod.splits option.splits)+

lemma perf_producer_step_start: "qps_start (perf_producer_step config stop st) = qps_start st"
  by (cases "qps_producer st") (auto simp: perf_producer_step_def split: prod.splits)

lemma perf_consumer_step_ends:
  assumes "perf_flow config k st" "perf_control st" "qps_producer st = QP_done"
  shows "consumer_distance (perf_consumer_step st) \<le> consumer_distance st - 1"
proof (cases "qps_consumer st = QC_pop")
  case True
  obtain r queue where p: "queue_pop (qps_queue st) = (r, queue)" by (cases "queue_pop (qps_queue st)")
  have "queue_inv (qps_queue st)" using assms(1) by (simp add: perf_flow_def)
  from queue_pop_spec [OF this p] True p show ?thesis
    by (cases "queue_requests (qps_queue st)"; cases r) (auto simp: perf_consumer_step_def consumer_distance_def)
next
  case False
  have "qps_start st" "qps_producer_done st" using assms(2,3) by (auto simp: perf_control_def)
  with False assms(2) show ?thesis
    by (cases "qps_consumer st") (auto simp: perf_consumer_step_def consumer_distance_def queue_empty_iff perf_control_def)
qed

lemma queue_perf_step_start: "qps_start st \<Longrightarrow> qps_start (queue_perf_step config action st)"
  by (cases action) (simp_all add: perf_producer_step_start perf_consumer_step_fields)

lemma queue_perf_step_producer:
  assumes "qps_start st" "action \<noteq> Producer False"
  shows "producer_distance (queue_perf_step config action st)
    \<le> producer_distance st - (if action = Producer True then 1 else 0)"
proof (cases action)
  case (Producer stop)
  then have "action = Producer True" using assms(2) by (cases stop) simp_all
  then show ?thesis using perf_producer_step_stops [OF assms(1)] by simp
qed (simp_all add: producer_distance_def perf_consumer_step_fields)

lemma producer_stops:
  "qps_start st \<Longrightarrow> Producer False \<notin> set actions \<Longrightarrow>
     qps_start (fold (queue_perf_step config) actions st)
   \<and> producer_distance (fold (queue_perf_step config) actions st)
       \<le> producer_distance st - length (filter (\<lambda>a. a = Producer True) actions)"
proof (induction actions arbitrary: st)
  case (Cons action actions)
  have "qps_start (queue_perf_step config action st)" using Cons.prems(1) by (rule queue_perf_step_start)
  moreover have "action \<noteq> Producer False" "Producer False \<notin> set actions" using Cons.prems(2) by auto
  ultimately show ?case
    using Cons.IH [of "queue_perf_step config action st"] queue_perf_step_producer [OF Cons.prems(1), of action config]
    by (auto split: if_splits)
qed simp

lemma queue_perf_step_consumer:
  assumes "perf_flow config k st" "perf_control st" "qps_producer st = QP_done"
  shows "consumer_distance (queue_perf_step config action st) \<le> consumer_distance st - (if action = Consumer then 1 else 0)
    \<and> qps_producer (queue_perf_step config action st) = QP_done"
proof (cases action)
  case Consumer
  with perf_consumer_step_ends [OF assms] assms(3) show ?thesis by (simp add: perf_consumer_step_fields)
qed (use assms(3) in \<open>simp_all add: perf_producer_step_def consumer_distance_def\<close>)

lemma consumer_ends:
  assumes "perf_config_ok config" "unat (qpc_operations config) + 1 < 2 ^ 64"
  shows "perf_inv config signalled k st \<Longrightarrow> qps_producer st = QP_done \<Longrightarrow>
     qps_producer (fold (queue_perf_step config) actions st) = QP_done
   \<and> consumer_distance (fold (queue_perf_step config) actions st)
       \<le> consumer_distance st - length (filter (\<lambda>a. a = Consumer) actions)"
proof (induction actions arbitrary: signalled k st)
  case (Cons action actions)
  let ?st = "queue_perf_step config action st"
  obtain k' where inv: "perf_inv config (Producer True = action \<or> signalled) k' ?st"
    using queue_perf_step_inv [OF Cons.prems(1) assms] by blast
  have "perf_flow config k st" "perf_control st" using Cons.prems(1) by (simp_all add: perf_inv_def)
  note step = queue_perf_step_consumer [OF this Cons.prems(2), of action]
  from step have "qps_producer ?st = QP_done" by simp
  from step Cons.IH [OF inv this] show ?case by (cases "action = Consumer") auto
qed simp

lemma queue_requests_bounded: "queue_inv q \<Longrightarrow> length (queue_requests q) \<le> ring_capacity (bq_ring q)"
  using ring_items_bounded by (auto simp: queue_inv_def ring_inv_def queue_requests_def)

lemma consumer_distance_le: "perf_flow config k st \<Longrightarrow> consumer_distance st \<le> 3 * perf_queue_capacity + 4"
  using queue_requests_bounded [of "qps_queue st"]
  by (cases "qps_consumer st") (auto simp: perf_flow_def consumer_distance_def)

lemma perf_joined_distance: "perf_control st \<Longrightarrow> producer_distance st = 0 \<Longrightarrow> consumer_distance st = 0 \<Longrightarrow> perf_joined st"
  by (auto simp: perf_joined_def producer_distance_def consumer_distance_def
    split: perf_producer.splits perf_consumer.splits if_splits)

section \<open>Printing and reading back\<close>

lemma parse_key_value:
  "starts_with (key @ ''='') line \<Longrightarrow> parse_key_value_u64 line key = parse_u64_token (drop (length (key @ ''='')) line)"
  "\<not> starts_with (key @ ''='') line \<Longrightarrow> parse_key_value_u64 line key = None"
  by (simp_all add: parse_key_value_u64_def Let_def)

lemma queue_lines:
  "parse_queue_line ''spsc_queue_perf_complete'' stats = stats"
  "parse_queue_line (''payload_size='' @ show_u64 v) stats = stats\<lparr>qrs_payload_size := v\<rparr>"
  "parse_queue_line (''produced='' @ show_u64 v) stats = stats\<lparr>qrs_produced := v\<rparr>"
  "parse_queue_line (''consumed='' @ show_u64 v) stats = stats\<lparr>qrs_consumed := v\<rparr>"
  "parse_queue_line (''checksum='' @ show_u64 v) stats = stats\<lparr>qrs_checksum := v\<rparr>"
  "parse_queue_line (''submit_queued='' @ show_u64 v) stats = stats\<lparr>qrs_submit_queued := v\<rparr>"
  "parse_queue_line (''submit_rejected='' @ show_u64 v) stats = stats\<lparr>qrs_submit_rejected := v\<rparr>"
  "parse_queue_line (''ring_full='' @ show_u64 v) stats = stats\<lparr>qrs_ring_full := v\<rparr>"
  by (simp_all add: parse_queue_line_def parse_key_value_size_def parse_key_value_u64_def starts_with_def parse_shown)

definition queue_keys :: "string list" where
  "queue_keys = [''spsc_queue_perf_complete'', ''payload_size='', ''produced='', ''consumed='', ''checksum='', ''submit_queued='',
     ''submit_rejected='', ''ring_full='']"

lemma queue_keys_plain:
  "list_all (\<lambda>key. \<not> contains_text key ''seconds time elapsed'' \<and> \<not> starts_with ''# '' (key @ []) \<and> key \<noteq> [] \<and> hd key \<noteq> CHR ''#''
     \<and> list_all (\<lambda>e. \<not> contains_text key (event_name e)) all_events) queue_keys"
  by code_simp

text \<open>A line of the queue program changes only the queue figures.\<close>

lemma parse_perf_line_queue:
  assumes "key \<in> set queue_keys" "list_all is_digit digits"
  shows "parse_perf_line ops (key @ digits) report = report\<lparr>psr_queue := parse_queue_line (key @ digits) (psr_queue report)\<rparr>"
proof -
  have noise: "list_all line_noise digits" using assms(2) by (auto simp: list_all_iff line_noise_def)
  have key: "\<not> contains_text key ''seconds time elapsed''" "key \<noteq> []" "hd key \<noteq> CHR ''#''" "\<not> contains_text key (event_name e)" for e
    using queue_keys_plain assms(1) all_events_complete [of e] by (auto simp: list_all_iff)
  have "\<not> contains_text (key @ digits) (event_name e)" for e
    using contains_inside [of line_noise "[]" digits, OF _ noise event_name_ends] key(4) [of e] by simp
  then have "parse_event_line (key @ digits) events = events" for events by (rule parse_event_line_none)
  moreover have "\<not> contains_text (key @ digits) ''seconds time elapsed''"
    using contains_inside [of line_noise "[]" digits "''seconds time elapsed''" key] noise key(1) noise_letters by simp
  moreover have "\<not> starts_with ''# '' (key @ digits)" using starts_with_hd [of "CHR ''#''" "'' ''" "key @ digits"] key(2,3) by auto
  ultimately show ?thesis by (simp add: parse_perf_line_def)
qed

lemma parse_queue_output:
  "fold (parse_perf_line ops) (queue_perf_output figures) report = report\<lparr>psr_queue := figures\<rparr>"
proof -
  have line: "parse_perf_line ops (key @ show_u64 v) r = r\<lparr>psr_queue := parse_queue_line (key @ show_u64 v) (psr_queue r)\<rparr>"
    if "key \<in> set queue_keys" for key v r
    using parse_perf_line_queue [OF that show_u64_digits(1)] .
  have first: "parse_perf_line ops ''spsc_queue_perf_complete'' r = r" for r
    using parse_perf_line_queue [of "''spsc_queue_perf_complete''" "[]" ops r] by (simp add: queue_keys_def queue_lines)
  have "''payload_size='' \<in> set queue_keys" "''produced='' \<in> set queue_keys" "''consumed='' \<in> set queue_keys"
    "''checksum='' \<in> set queue_keys" "''submit_queued='' \<in> set queue_keys" "''submit_rejected='' \<in> set queue_keys"
    "''ring_full='' \<in> set queue_keys"
    by (simp_all add: queue_keys_def)
  note lines = this [THEN line]
  show ?thesis
    unfolding queue_perf_output_def fold_simps first lines queue_lines by (cases figures) simp
qed

lemma queue_perf_parse_args_ok: "queue_perf_parse_args argv c = Some config \<Longrightarrow> perf_config_ok config"
  by (induction argv c rule: queue_perf_parse_args.induct)
     (auto simp: perf_config_ok_def word_less_nat_alt split: if_splits option.splits)

lemma stop_schedule_joins:
  assumes "perf_config_ok config" "unat (qpc_operations config) + 1 < 2 ^ 64" "Main_start \<in> set before"
    and "Producer False \<notin> set winding_down" "Producer False \<notin> set draining"
    and "4 \<le> length (filter (\<lambda>a. a = Producer True) winding_down)"
    and "3 * perf_queue_capacity + 4 \<le> length (filter (\<lambda>a. a = Consumer) draining)"
  shows "perf_joined (queue_perf_run config (before @ winding_down @ draining))"
proof -
  let ?run = "queue_perf_run config" and ?fold = "fold (queue_perf_step config)"
  have start: "qps_start (?run before)"
    using assms(3) by (induction before rule: rev_induct) (auto simp: queue_perf_run_def queue_perf_step_start)
  have "producer_distance (?run before) \<le> 4" by (simp add: producer_distance_def split: perf_producer.split)
  with producer_stops [OF start assms(4), of config] assms(6)
  have "producer_distance (?run (before @ winding_down)) = 0" by (simp add: queue_perf_run_def)
  then have fin: "qps_producer (?run (before @ winding_down)) = QP_done"
    by (auto simp: producer_distance_def split: perf_producer.splits)
  obtain k where inv: "perf_inv config (Producer True \<in> set (before @ winding_down)) k (?run (before @ winding_down))"
    using queue_perf_run_inv [OF assms(1,2), of "before @ winding_down"] by blast
  then have "consumer_distance (?run (before @ winding_down)) \<le> 3 * perf_queue_capacity + 4"
    using consumer_distance_le by (auto simp: perf_inv_def)
  with consumer_ends [OF assms(1,2) inv fin, of draining] assms(7)
  have "qps_producer (?run (before @ winding_down @ draining)) = QP_done"
    "consumer_distance (?run (before @ winding_down @ draining)) = 0" by (simp_all add: queue_perf_run_def)
  moreover have "perf_control (?run (before @ winding_down @ draining))"
    using queue_perf_run_inv [OF assms(1,2), of "before @ winding_down @ draining"] by (auto simp: perf_inv_def)
  ultimately show ?thesis by (intro perf_joined_distance) (simp_all add: producer_distance_def)
qed

text \<open>A schedule of an unlimited run that is stopped while its first request is queued.\<close>

definition sample_schedule :: "perf_action list" where
  "sample_schedule = [Main_start, Producer False, Producer False, Producer False, Producer False]
     @ replicate 4 (Producer True) @ replicate 12292 Consumer"

lemma sample_schedule_joins: "perf_joined (queue_perf_run default_queue_perf_config sample_schedule)"
  unfolding sample_schedule_def
  by (rule stop_schedule_joins)
     (simp_all add: perf_config_ok_def default_queue_perf_config_def perf_queue_max_payload_def perf_queue_capacity_def)

section \<open>Properties\<close>

text \<open>
  C28: Whenever both threads have returned, under any schedule, everything that was produced has been consumed in
  order: the program returns 0, its counts of produced, consumed and queued requests agree, every rejected push was one
  into a full ring, and its checksum is that of the requests produced. A run with a limit produces exactly the wanted
  number of requests unless it was told to stop.\<close>

theorem queue_perf_exact:
  assumes "queue_perf_parse_args argv default_queue_perf_config = Some config" "unat (qpc_operations config) + 1 < 2 ^ 64"
    and "perf_joined (queue_perf_run config actions)"
  defines "st \<equiv> queue_perf_run config actions"
  defines "figures \<equiv> queue_run_figures config st"
  shows "queue_perf_exit_code st = 0
    \<and> (\<exists>k. qrs_produced figures = of_nat k \<and> qrs_consumed figures = of_nat k \<and> qrs_submit_queued figures = of_nat k
        \<and> qrs_submit_rejected figures = qrs_ring_full figures
        \<and> qrs_checksum figures = fold checksum_step (perf_requests config k) 0
        \<and> (qpc_operations config \<noteq> 0 \<and> Producer True \<notin> set actions \<longrightarrow> k = unat (qpc_operations config)))"
proof -
  have "perf_config_ok config" using queue_perf_parse_args_ok [OF assms(1)] .
  from queue_perf_run_inv [OF this assms(2), of actions] obtain k where
    inv: "perf_flow config k st" "perf_control st" "perf_limit config (Producer True \<in> set actions) k st"
    unfolding st_def perf_inv_def by blast
  have fin: "qps_producer st = QP_done" "qps_consumer st = QC_done" using assms(3) by (simp_all add: st_def perf_joined_def)
  have "queue_requests (qps_queue st) = []" "qps_consumed st = qps_local_consumed st" "qps_checksum st = qps_local_checksum st"
    using inv(2) fin(2) by (simp_all add: perf_control_def)
  moreover from this inv(1) have "qps_local_consumed st = of_nat k" "qps_local_checksum st = fold checksum_step (perf_requests config k) 0"
    by (auto simp: perf_flow_def perf_requests_def)
  moreover have "qpc_operations config \<noteq> 0 \<and> Producer True \<notin> set actions \<longrightarrow> k = unat (qpc_operations config)"
    using inv(3) fin(1) by (simp add: perf_limit_def)
  ultimately show ?thesis
    using inv(1) by (auto simp: queue_perf_exit_code_def figures_def queue_run_figures_def perf_flow_def intro!: exI [of _ k])
qed

theorem queue_perf_exact_witness:
  "queue_perf_exit_code (queue_perf_run default_queue_perf_config sample_schedule) = 0"
proof -
  have "queue_perf_parse_args [] default_queue_perf_config = Some default_queue_perf_config"
    "unat (qpc_operations default_queue_perf_config) + 1 < 2 ^ 64"
    by (simp_all add: default_queue_perf_config_def perf_queue_max_payload_def)
  from conjunct1 [OF queue_perf_exact [OF this sample_schedule_joins]] show ?thesis .
qed

text \<open>
  C29: A stop signal ends the program under every schedule: once the threads were started and every look at the stop
  flag finds it set, four steps of the producer followed by \<open>3 * 4096 + 4\<close> steps of the consumer, in any
  interleaving with other steps, are enough for both to return, whatever happened before.\<close>

theorem queue_perf_stops:
  assumes "perf_config_ok config" "unat (qpc_operations config) + 1 < 2 ^ 64" "Main_start \<in> set before"
    and "Producer False \<notin> set winding_down" "Producer False \<notin> set draining"
    and "4 \<le> length (filter (\<lambda>a. a = Producer True) winding_down)"
    and "3 * perf_queue_capacity + 4 \<le> length (filter (\<lambda>a. a = Consumer) draining)"
  shows "perf_joined (queue_perf_run config (before @ winding_down @ draining))"
  using assms by (rule stop_schedule_joins)

theorem queue_perf_stops_witness:
  "perf_joined (queue_perf_run default_queue_perf_config
     ([Main_start, Producer False, Producer False, Producer False, Producer False]
      @ replicate 4 (Producer True) @ replicate 12292 Consumer))"
  by (rule queue_perf_stops)
     (simp_all add: perf_config_ok_def default_queue_perf_config_def perf_queue_max_payload_def perf_queue_capacity_def)

text \<open>
  The report program reads back what the queue program printed: behind any other lines, the eight lines of its
  output give exactly the printed figures, and leave the counters, the header fields and the time as the lines before
  gave them.\<close>

theorem queue_report_roundtrip:
  "parse_perf_file ops (Some (captured @ queue_perf_output figures)) input label
   = map_option (\<lambda>report. report\<lparr>psr_queue := figures\<rparr>) (parse_perf_file ops (Some captured) input label)"
  by (simp add: parse_perf_file_def parse_queue_output)

end
