(* ===== verification/Benchmark_Report.thy ===== *)
theory Benchmark_Report
  imports Reports
begin

text \<open>
  The program \<^verbatim>\<open>apps/fgep_benchmark_report.cpp\<close>: it runs the four benchmarks with fixed configurations and writes their
  reports. What the file system, the system and the clock answer is an argument; the files written are the result,
  and \<^const>\<open>None\<close> stands for an exception or for undefined behaviour. Text printed to the console is left out.

  The theory shows which files the program writes, and computes the figures of the two reports that depend on nothing
  outside.
\<close>

section \<open>Configurations\<close>

definition report_symbol :: "string \<Rightarrow> ouch_symbol" where
  "report_symbol s = (case make_fixed_ascii 8 s of Ok v \<Rightarrow> v | Fail _ \<Rightarrow> replicate 8 (CHR 0x00))"

definition report_execution_config :: execution_benchmark_config where
  "report_execution_config =
     \<lparr>xb_candidate_count = 10000,
      xb_generator_config =
        \<lparr>cc_symbols = [report_symbol ''AAPL'', report_symbol ''MSFT'', report_symbol ''TSLA'', report_symbol ''NVDA''],
         cc_first_user_ref_num = 1, cc_min_quantity = 100, cc_max_quantity = 1000, cc_base_price = 100000,
         cc_price_step = 25, cc_hot_symbol_count = 2, cc_hot_symbol_percent = 80, cc_alternate_sides = True\<rparr>,
      xb_risk_limits = \<lparr>rl_max_order_quantity = 1000, rl_max_order_notional = 100000000\<rparr>,
      xb_stage_durations = default_stage_durations\<rparr>"

definition report_kernel_udp_config :: kernel_udp_config where
  "report_kernel_udp_config = \<lparr>kc_destination_ipv4 = ''127.0.0.1'', kc_destination_port = 49999\<rparr>"

definition report_afxdp_config :: "string \<Rightarrow> afxdp_config" where
  "report_afxdp_config interface_name = \<lparr>ac_interface_name = interface_name, ac_queue_id = 0, ac_umem_frame_count = 4096,
     ac_umem_frame_size = 2048, ac_tx_batch_size = 64\<rparr>"

definition default_dpdk_config :: dpdk_config where
  "default_dpdk_config = \<lparr>dc_eal_args = [''fgep-dpdk'', ''-l'', ''0-1'', ''-n'', ''4''], dc_port_id = 0, dc_queue_id = 0,
     dc_socket_id = - 1, dc_tx_desc_count = 1024, dc_burst_size = 32, dc_mbuf_pool_size = 8192, dc_mbuf_cache_size = 250,
     dc_destination_mac = [0xff, 0xff, 0xff, 0xff, 0xff, 0xff], dc_source_mac = [0x02, 0, 0, 0, 0, 0x01],
     dc_ether_type = 0x88B5\<rparr>"

definition report_backend_config :: backend_benchmark_config where
  "report_backend_config =
     \<lparr>bbc_technologies = [Tech_recording, Tech_kernel_udp, Tech_afxdp, Tech_dpdk], bbc_submission_count = 10000,
      bbc_payload_size = 64, bbc_base_submit_latency_ns = 1000, bbc_latency_jitter_step_ns = 25,
      bbc_latency_jitter_period = 11, bbc_kernel_udp = report_kernel_udp_config,
      bbc_afxdp = report_afxdp_config ''eth0'', bbc_dpdk = default_dpdk_config\<rparr>"

definition report_wall_clock_config :: wall_clock_config where
  "report_wall_clock_config =
     \<lparr>wcc_technologies = [Tech_recording, Tech_kernel_udp, Tech_afxdp, Tech_dpdk], wcc_submission_count = 100000,
      wcc_payload_size = 64, wcc_record_per_submit_latency = True, wcc_kernel_udp = report_kernel_udp_config,
      wcc_afxdp = report_afxdp_config ''enp39s0'', wcc_dpdk = default_dpdk_config\<rparr>"

definition report_guardrail_config :: guardrail_benchmark_config where
  "report_guardrail_config = \<lparr>gbc_update_count = 10000, gbc_base_update_latency_ns = 1000, gbc_latency_jitter_step_ns = 25,
     gbc_latency_jitter_period = 7\<rparr>"

section \<open>Reports\<close>

definition execution_report_metadata :: report_metadata where
  "execution_report_metadata = \<lparr>rm_title = ''Execution Benchmark'', rm_backend_name = ''simulated-execution'',
     rm_notes = ''Deterministic synthetic timestamps; not wall-clock performance.'',
     rm_latency_measurement_kind = LK_synthetic_deterministic, rm_warmup_count = 0\<rparr>"

definition backend_report_metadata :: report_metadata where
  "backend_report_metadata = \<lparr>rm_title = ''Backend Comparison Benchmark'',
     rm_backend_name = ''recording/kernel_udp/afxdp/dpdk'',
     rm_notes = ''Deterministic submit-latency model. Kernel UDP performs real sendto(), but latency values in this report ''
       @ ''are generated by the synthetic benchmark model; AF_XDP/DPDK may be unsupported unless implemented and available.'',
     rm_latency_measurement_kind = LK_synthetic_deterministic, rm_warmup_count = 0\<rparr>"

definition wall_clock_report_metadata :: report_metadata where
  "wall_clock_report_metadata = \<lparr>rm_title = ''Wall Clock Backend Benchmark'',
     rm_backend_name = ''recording/kernel_udp/afxdp/dpdk'',
     rm_notes = ''Measured with std::chrono::steady_clock on the host. Per-submit latency includes host clock-read overhead. ''
       @ ''Kernel UDP performs real sendto(); AF_XDP/DPDK may reject if unsupported or unavailable.'',
     rm_latency_measurement_kind = LK_wall_clock_host, rm_warmup_count = 0\<rparr>"

definition guardrail_summary_rows :: "guardrail_benchmark_result \<Rightarrow> string" where
  "guardrail_summary_rows result = ''## Summary'' @ nl @ nl @ ''| Metric | Value |'' @ nl @ ''|---|---:|'' @ nl
     @ table_row ''update_count'' (show_nat (gbr_update_count result))
     @ table_row ''applied_count'' (show_nat (gbr_applied_count result))
     @ table_row ''dropped_count'' (show_nat (gbr_dropped_count result))
     @ table_row ''simulated_elapsed_ns'' (show_u64 (gbr_simulated_elapsed_ns result))
     @ table_row ''latency_type'' ''synthetic deterministic latency''
     @ table_row ''warmup_count'' ''0''"

definition format_guardrail_update_report :: "guardrail_benchmark_result \<Rightarrow> string" where
  "format_guardrail_update_report result =
     (let report = ''# Guardrail Update Benchmark'' @ nl @ nl @ ''Backend: `simulated-control-path`'' @ nl @ nl
            @ ''These are deterministic simulated update-latency numbers. ''
            @ ''They are not wall-clock, network, exchange, or FPGA latency.'' @ nl @ nl
            @ guardrail_summary_rows result @ nl @ ''## Update latency'' @ nl @ nl
      in case gbr_update_latency result of
           None \<Rightarrow> report @ ''No latency samples recorded.'' @ nl
         | Some latency \<Rightarrow> report @ ''| Metric | Value |'' @ nl @ ''|---|---:|'' @ nl
             @ table_row ''count'' (show_nat (ls_count latency))
             @ table_row ''warmup_count'' ''0''
             @ table_row ''min_ns'' (show_u64 (ls_min_ns latency))
             @ table_row ''max_ns'' (show_u64 (ls_max_ns latency))
             @ table_row ''mean_ns'' (show_u64 (ls_mean_ns latency))
             @ table_row ''p50_ns'' (show_u64 (ls_p50_ns latency))
             @ table_row ''p90_ns'' (show_u64 (ls_p90_ns latency))
             @ table_row ''p99_ns'' (show_u64 (ls_p99_ns latency))
             @ table_row ''p999_ns'' (show_u64 (ls_p999_ns latency))
             @ table_row ''measurement_type'' ''synthetic deterministic latency''
             @ table_row ''measurement_notes''
                 (''Synthetic deterministic samples are generated by the benchmark model. They are useful for repeatability ''
                  @ ''and regression tests, but they are not real elapsed host, network, exchange, or FPGA latency.''))"

section \<open>The program\<close>

record benchmark_report_env =
  bre_local_time :: string
  bre_create_directories :: "string \<Rightarrow> bool"
  bre_open_output :: "string \<Rightarrow> bool"
  bre_system :: system_env
  bre_backend :: "nat \<Rightarrow> bench_env"
  bre_wall_clock :: "nat \<Rightarrow> bench_env"

text \<open>\<^verbatim>\<open>path / name\<close> for a relative name.\<close>

definition path_append :: "string \<Rightarrow> string \<Rightarrow> string" where
  "path_append path name = (if path = [] \<or> last path = CHR ''/'' then path @ name else path @ ''/'' @ name)"

definition timestamped_report_dir :: "string \<Rightarrow> string \<Rightarrow> string" where
  "timestamped_report_dir local_time root = path_append root local_time"

text \<open>The files written so far, with one more when it can be opened.\<close>

definition write_text_file ::
  "(string \<Rightarrow> bool) \<Rightarrow> string \<Rightarrow> string \<Rightarrow> (string \<times> string) list \<Rightarrow> (string \<times> string) list" where
  "write_text_file open_output path contents files = (if \<not> open_output path then files else files @ [(path, contents)])"

definition benchmark_report_main ::
  "benchmark_report_env \<Rightarrow> string list \<Rightarrow> (int \<times> (string \<times> string) list) option" where
  "benchmark_report_main env argv =
     (let report_root = (if argv \<noteq> [] then hd argv else ''reports'');
          output_dir = timestamped_report_dir (bre_local_time env) report_root;
          write = (\<lambda>name contents. write_text_file (bre_open_output env) (path_append output_dir name) contents)
      in if \<not> bre_create_directories env output_dir then None
         else case collect_system_metadata (bre_system env) of
           None \<Rightarrow> None
         | Some system_metadata \<Rightarrow>
             let system_metadata_report = format_system_metadata_markdown system_metadata;
                 execution_result = run_execution_benchmark report_execution_config;
                 files1 = write ''execution_benchmark.md''
                   (format_execution_benchmark_markdown execution_result execution_report_metadata @ nl @ system_metadata_report) []
             in case run_backend_benchmark (bre_backend env) report_backend_config of
                  None \<Rightarrow> None
                | Some backend_result \<Rightarrow>
                    let files2 = write ''backend_benchmark.md''
                      (format_backend_benchmark_markdown backend_result backend_report_metadata @ nl @ system_metadata_report) files1
                    in case run_wall_clock_backend_benchmark (bre_wall_clock env) report_wall_clock_config of
                         None \<Rightarrow> None
                       | Some wall_clock_backend_result \<Rightarrow>
                           let files3 = write ''wall_clock_backend_benchmark.md''
                                 (format_wall_clock_backend_benchmark_markdown wall_clock_backend_result wall_clock_report_metadata
                                  @ nl @ system_metadata_report) files2;
                               guardrail_result = run_guardrail_update_benchmark report_guardrail_config;
                               files4 = write ''guardrail_update_benchmark.md''
                                 (format_guardrail_update_report guardrail_result @ nl @ system_metadata_report) files3
                           in Some (0, files4))"

section \<open>The candidates of the execution benchmark\<close>

abbreviation "report_generator \<equiv> xb_generator_config report_execution_config"

lemma report_symbols_ok: "list_all (\<lambda>s. length s = 8 \<and> is_valid_fixed_ascii s) (cc_symbols report_generator)"
  by code_simp

lemma report_generator_fields:
  "cc_min_quantity (normalize_candidate_config report_generator) = 100"
  "cc_max_quantity (normalize_candidate_config report_generator) = 1000"
  "cc_base_price (normalize_candidate_config report_generator) = 100000"
  "cc_price_step (normalize_candidate_config report_generator) = 25"
  by (simp_all add: normalize_fields report_execution_config_def)

lemma report_config_ok: "candidate_config_ok 10000 report_generator"
  unfolding candidate_config_ok_def using report_symbols_ok by (simp add: report_execution_config_def)

text \<open>Quantity and price of the \<open>c\<close>-th candidate.\<close>

definition report_terms :: "nat \<Rightarrow> nat \<times> nat" where
  "report_terms c = (100 + c mod 901, 100000 + 25 * (c mod 11))"

lemma report_candidates:
  "cg_config cg = normalize_candidate_config report_generator \<Longrightarrow>
   map (\<lambda>m. (unat (eo_quantity m), unat (eo_price m))) (candidates n cg)
   = map report_terms [cg_generated_count cg + 1..<cg_generated_count cg + 1 + n]"
proof (induction n arbitrary: cg)
  case (Suc n)
  let ?c = "cg_generated_count cg + 1"
  obtain m cg' where m: "next_enter_order cg = (m, cg')" by (cases "next_enter_order cg")
  then have cg': "cg_config cg' = normalize_candidate_config report_generator" "cg_generated_count cg' = ?c"
    and q: "eo_quantity m = 100 + of_nat (?c mod 901)" and p: "eo_price m = 100000 + of_nat (?c mod 11) * 25"
    using Suc.prems by (auto simp: next_enter_order_def Let_def cg_choose_quantity_def cg_choose_price_def report_generator_fields)
  have "?c mod 901 < 901" "?c mod 11 < 11" by simp_all
  then have "unat (eo_quantity m) = 100 + ?c mod 901" "unat (eo_price m) = 100000 + 25 * (?c mod 11)"
    unfolding q p by (simp_all only: unat_word_ariths unat_of_nat) simp_all
  with Suc.IH [OF cg'(1)] show ?case
    by (simp add: m cg'(2) report_terms_def upt_conv_Cons del: upt_Suc)
qed simp

definition report_accepts :: "nat \<Rightarrow> bool" where
  "report_accepts c \<longleftrightarrow> (case report_terms c of (q, p) \<Rightarrow> q * p \<le> 100000000)"

lemma report_risk_passes:
  "length (filter (risk_passes (xb_risk_limits report_execution_config)) (candidates 10000 (make_candidate_generator report_generator)))
   = length (filter report_accepts [1..<10001])"
proof -
  let ?ms = "candidates 10000 (make_candidate_generator report_generator)" and ?t = "\<lambda>m. (unat (eo_quantity m), unat (eo_price m))"
  let ?ok = "\<lambda>(q, p). 0 < q \<and> q < 1000000 \<and> q \<le> 1000 \<and> 0 < p \<and> q * p \<le> (100000000 :: nat)"
  have "map ?t ?ms = map report_terms [1..<10001]"
    using report_candidates [of "make_candidate_generator report_generator" 10000]
    unfolding make_candidate_generator_def by (simp del: candidates.simps upt_Suc)
  moreover have "risk_passes (xb_risk_limits report_execution_config) = ?ok \<circ> ?t"
    by (rule ext) (simp add: risk_passes_def within_limits_def report_execution_config_def)
  ultimately have "map ?t (filter (risk_passes (xb_risk_limits report_execution_config)) ?ms) = map report_terms (filter (?ok \<circ> report_terms) [1..<10001])"
    by (simp only: filter_map [symmetric])
  from arg_cong [OF this, of length]
  have "length (filter (risk_passes (xb_risk_limits report_execution_config)) ?ms) = length (filter (?ok \<circ> report_terms) [1..<10001])"
    by (simp only: length_map)
  also have "?ok \<circ> report_terms = report_accepts"
  proof (rule ext)
    fix c :: nat
    have "c mod 901 < 901" by (rule mod_less_divisor) simp
    then have "c mod 901 \<le> 900" "c mod 901 < 999900" by linarith+
    then show "(?ok \<circ> report_terms) c = report_accepts c" by (simp add: report_terms_def report_accepts_def)
  qed
  finally show ?thesis .
qed

section \<open>Which candidates are rejected\<close>

text \<open>Only the three largest quantities can exceed the limit; each comes up eleven times, once with each price.\<close>

definition large_candidates :: "nat list" where
  "large_candidates = concat (map (\<lambda>a. [901 * a + 898, 901 * a + 899, 901 * a + 900]) [0..<11])"

lemma small_candidates_accepted: "c mod 901 < 898 \<Longrightarrow> report_accepts c"
proof -
  assume "c mod 901 < 898"
  then have "100 + c mod 901 \<le> 997" "100000 + 25 * (c mod 11) \<le> 100250" using mod_less_divisor [of 11 c] by simp_all
  then have "(100 + c mod 901) * (100000 + 25 * (c mod 11)) \<le> 997 * 100250" by (rule mult_le_mono)
  then show ?thesis by (simp add: report_accepts_def report_terms_def)
qed

lemma large_candidates_iff: "c \<in> set large_candidates \<longleftrightarrow> 1 \<le> c \<and> c < 10001 \<and> 898 \<le> c mod 901"
proof
  assume "c \<in> set large_candidates"
  then obtain a where "a < 11" "c \<in> {901 * a + 898, 901 * a + 899, 901 * a + 900}" by (auto simp: large_candidates_def)
  then show "1 \<le> c \<and> c < 10001 \<and> 898 \<le> c mod 901" by auto
next
  assume c: "1 \<le> c \<and> c < 10001 \<and> 898 \<le> c mod 901"
  have "c mod 901 < 901" by simp
  with c have r: "c mod 901 \<in> {898, 899, 900}" by auto
  have e: "c = 901 * (c div 901) + c mod 901" by simp
  with c have "c div 901 < 11" by linarith
  moreover from r e have "c \<in> set [901 * (c div 901) + 898, 901 * (c div 901) + 899, 901 * (c div 901) + 900]"
    unfolding list.set by (elim insertE) simp_all
  ultimately show "c \<in> set large_candidates" unfolding large_candidates_def set_concat set_map by fastforce
qed

lemma large_rejected: "distinct large_candidates" "length (filter (\<lambda>c. \<not> report_accepts c) large_candidates) = 18"
  by (simp_all add: large_candidates_def report_accepts_def report_terms_def upt_rec)

lemma report_rejected: "length (filter (\<lambda>c. \<not> report_accepts c) [1..<10001]) = 18"
proof -
  have "set (filter (\<lambda>c. \<not> report_accepts c) [1..<10001]) = set (filter (\<lambda>c. \<not> report_accepts c) large_candidates)"
    using small_candidates_accepted large_candidates_iff by (auto simp: not_less [symmetric])
  then have "card (set (filter (\<lambda>c. \<not> report_accepts c) [1..<10001])) = card (set (filter (\<lambda>c. \<not> report_accepts c) large_candidates))"
    by simp
  then show ?thesis using large_rejected distinct_card by (metis distinct_filter distinct_upt)
qed

lemma report_accepted: "length (filter report_accepts [1..<10001]) = 9982"
  using sum_length_filter_compl [of report_accepts "[1..<10001]"] report_rejected by simp

section \<open>The guardrail benchmark\<close>

lemma sum_list_of_nat: "sum_list (map (\<lambda>i. of_nat (f i) :: u64) xs) = of_nat (sum_list (map f xs))"
  by (induction xs) simp_all

lemma seven_mod: "k < 7 \<Longrightarrow> (7 * n + k) mod 7 = k" for k n :: nat
  by simp

lemma seven_upt: "[0..<7 * Suc n] = [0..<7 * n] @ map (\<lambda>k. 7 * n + k) [0..<7]"
proof -
  have "[0..<7 * n + 7] = [0..<7 * n] @ [7 * n..<7 * n + 7]" by (rule upt_add_eq_append) simp
  moreover have "[7 * n..<7 * n + 7] = map (\<lambda>k. 7 * n + k) [0..<7]" using map_add_upt [of "7 * n" 7] by (simp add: add.commute)
  ultimately show ?thesis by (simp add: add.commute)
qed

lemma report_update_sum: "sum_list (map (\<lambda>i. 1000 + 25 * (i mod 7)) [0..<7 * n]) = 7525 * n"
proof (induction n)
  case (Suc n)
  have "map (\<lambda>i. 1000 + 25 * (i mod 7)) (map (\<lambda>k. 7 * n + k) [0..<7]) = map (\<lambda>k. 1000 + 25 * k) [0..<7]"
    unfolding map_map by (rule map_cong) (simp_all add: seven_mod)
  moreover have "sum_list (map (\<lambda>k. 1000 + 25 * k) [0..<7]) = (7525 :: nat)" by (simp add: upt_rec)
  ultimately have "sum_list (map (\<lambda>i. 1000 + 25 * (i mod 7)) (map (\<lambda>k. 7 * n + k) [0..<7])) = 7525" by (simp only:)
  with Suc show ?case unfolding seven_upt map_append sum_list_append by simp
qed simp

lemma report_update_elapsed:
  "sum_list (map (\<lambda>i. simulated_update_latency i report_guardrail_config) [0..<10000]) = 10749850"
proof -
  have "[9996..<10000] = [9996, 9997, 9998, 9999 :: nat]" by simp
  then have "[0..<10000] = [0..<7 * 1428] @ [9996, 9997, 9998, 9999 :: nat]"
    using upt_add_eq_append [of 0 "7 * 1428" 4] by simp
  then have total: "sum_list (map (\<lambda>i. 1000 + 25 * (i mod 7)) [0..<10000]) = (10749850 :: nat)"
    by (simp only: map_append sum_list_append report_update_sum) simp
  have "simulated_update_latency i report_guardrail_config = of_nat (1000 + 25 * (i mod 7))" for i
    by (simp add: simulated_update_latency_def report_guardrail_config_def Let_def)
  then have "sum_list (map (\<lambda>i. simulated_update_latency i report_guardrail_config) [0..<10000])
      = of_nat (sum_list (map (\<lambda>i. 1000 + 25 * (i mod 7)) [0..<10000]))"
    by (simp only: sum_list_of_nat)
  also have "\<dots> = 10749850" unfolding total by simp
  finally show ?thesis .
qed

section \<open>The backends in a build without DPDK\<close>

lemma any_submit_defined: "\<not> ben_have_dpdk env \<Longrightarrow> \<exists>r backend1. any_submit env i request backend = Some (r, backend1)"
  by (cases backend) (auto simp: any_submit_def dp_submit_def split: prod.split)

lemma backend_benchmark_loop_defined:
  "\<not> ben_have_dpdk env \<Longrightarrow> backend_benchmark_loop env config payload indices st \<noteq> None"
proof (induction indices arbitrary: st)
  case (Cons i indices)
  then obtain r backend where "any_submit env i (bench_request i payload) (bls_backend st) = Some (r, backend)"
    using any_submit_defined by blast
  with Cons show ?case by (simp add: Let_def del: not_None_eq)
qed simp

lemma wall_clock_loop_defined: "\<not> ben_have_dpdk env \<Longrightarrow> wall_clock_loop env recording payload indices st \<noteq> None"
proof (induction indices arbitrary: st)
  case (Cons i indices)
  then obtain r backend where "any_submit env i (bench_request i payload) (bls_backend st) = Some (r, backend)"
    using any_submit_defined by blast
  with Cons show ?case by (simp add: Let_def del: not_None_eq)
qed simp

lemma run_backend_benchmarks_defined:
  "(\<And>i. \<not> ben_have_dpdk (envs i)) \<Longrightarrow> \<exists>rs. run_backend_benchmarks envs config i technologies = Some rs"
proof (induction technologies arbitrary: i)
  case (Cons technology technologies)
  have "run_backend_benchmark_for (envs i) config technology \<noteq> None"
    using backend_benchmark_loop_defined [OF Cons.prems, of i] by (auto simp: run_backend_benchmark_for_def Let_def split: option.split)
  moreover obtain rs where "run_backend_benchmarks envs config (Suc i) technologies = Some rs" using Cons by blast
  ultimately show ?case by auto
qed simp

lemma run_wall_clock_benchmarks_defined:
  "(\<And>i. \<not> ben_have_dpdk (envs i)) \<Longrightarrow> \<exists>rs. run_wall_clock_backend_benchmarks envs config i technologies = Some rs"
proof (induction technologies arbitrary: i)
  case (Cons technology technologies)
  have "run_wall_clock_backend_benchmark_for (envs i) config technology \<noteq> None"
    by (simp add: run_wall_clock_backend_benchmark_for_def Let_def wall_clock_loop_defined [OF Cons.prems] split: option.split
      del: not_None_eq)
  moreover obtain rs where "run_wall_clock_backend_benchmarks envs config (Suc i) technologies = Some rs" using Cons by blast
  ultimately show ?case by auto
qed simp

section \<open>Properties\<close>

text \<open>
  C34: The figures that the report program always prints. Of its ten thousand candidate orders the simulated exchange
  accepts 9982 and rejects 18 for their notional value; the run takes 9999130 simulated nanoseconds, at a rate of 1000087
  candidates per second, and every latency is 130 nanoseconds. Of the ten thousand guardrail updates all are applied, in
  10749850 simulated nanoseconds.\<close>

theorem report_program_figures:
  "(let x = run_execution_benchmark report_execution_config; g = run_guardrail_update_benchmark report_guardrail_config
    in xr_accepted_count x = 9982 \<and> xr_rejected_count x = 18 \<and> xr_live_order_count x = 9982
       \<and> xr_simulated_elapsed_ns x = 9999130 \<and> xr_candidates_per_second x = 1000087
       \<and> (\<exists>s. xr_end_to_end_latency x = Some s \<and> ls_count s = 10000 \<and> list_all (\<lambda>l. l = 130)
            [ls_min_ns s, ls_max_ns s, ls_mean_ns s, ls_p50_ns s, ls_p90_ns s, ls_p99_ns s, ls_p999_ns s])
       \<and> gbr_applied_count g = 10000 \<and> gbr_dropped_count g = 0 \<and> gbr_simulated_elapsed_ns g = 10749850)"
proof -
  have d: "unat (sdu_candidate_spacing_ns default_stage_durations) = 1000" "total_duration default_stage_durations = 130"
    by (simp_all add: default_stage_durations_def total_duration_def)
  have cfg: "xb_candidate_count report_execution_config = 10000" "default_stage_durations = xb_stage_durations report_execution_config"
    by (simp_all add: report_execution_config_def)
  note x = execution_benchmark_figures [OF report_config_ok cfg(1) _ cfg(2), unfolded d report_risk_passes report_accepted, simplified]
  have g: "gbc_update_count report_guardrail_config = 10000" by (simp add: report_guardrail_config_def)
  show ?thesis
    using x guardrail_benchmark_applies_all [OF g] report_update_elapsed
    by (auto simp: Let_def word_unat_eq_iff)
qed

text \<open>
  What the report program writes: in a build without DPDK, when the directory can be made, the files can be opened
  and the system metadata can be read, it returns 0 and has written four files, in order and into the directory named by
  the time, and each of them ends with the system metadata.\<close>

theorem benchmark_report_files:
  assumes "collect_system_metadata (bre_system env) = Some metadata"
    and "\<And>path. bre_create_directories env path" "\<And>path. bre_open_output env path"
    and "\<And>i. \<not> ben_have_dpdk (bre_backend env i)" "\<And>i. \<not> ben_have_dpdk (bre_wall_clock env i)"
  shows "\<exists>reports. benchmark_report_main env argv = Some (0, zip
      (map (path_append (timestamped_report_dir (bre_local_time env) (if argv = [] then ''reports'' else hd argv)))
        [''execution_benchmark.md'', ''backend_benchmark.md'', ''wall_clock_backend_benchmark.md'', ''guardrail_update_benchmark.md''])
      (map (\<lambda>report. report @ nl @ format_system_metadata_markdown metadata) reports))
    \<and> length reports = 4
    \<and> reports ! 0 = format_execution_benchmark_markdown (run_execution_benchmark report_execution_config) execution_report_metadata
    \<and> reports ! 3 = format_guardrail_update_report (run_guardrail_update_benchmark report_guardrail_config)"
proof -
  obtain bs where bs: "run_backend_benchmark (bre_backend env) report_backend_config = Some bs"
    using run_backend_benchmarks_defined [of "bre_backend env", OF assms(4)] unfolding run_backend_benchmark_def by blast
  obtain ws where ws: "run_wall_clock_backend_benchmark (bre_wall_clock env) report_wall_clock_config = Some ws"
    using run_wall_clock_benchmarks_defined [of "bre_wall_clock env", OF assms(5)] unfolding run_wall_clock_backend_benchmark_def by blast
  define reports where "reports =
    [format_execution_benchmark_markdown (run_execution_benchmark report_execution_config) execution_report_metadata,
     format_backend_benchmark_markdown bs backend_report_metadata,
     format_wall_clock_backend_benchmark_markdown ws wall_clock_report_metadata,
     format_guardrail_update_report (run_guardrail_update_benchmark report_guardrail_config)]"
  show ?thesis
    by (rule exI [of _ reports])
       (simp add: reports_def benchmark_report_main_def write_text_file_def Let_def assms bs ws)
qed

definition sample_report_env :: benchmark_report_env where
  "sample_report_env =
     (let bench = \<lparr>ben_pton = (\<lambda>_. Some 0), ben_socket = 3, ben_have_dpdk = False,
            ben_dpdk = \<lparr>de_eal_initialized = False, de_eal_init = - 1, de_available_ports = 0, de_pool_create = False,
              de_dev_socket_id = 0, de_current_socket = 0, de_dev_configure = 0, de_tx_queue_setup = 0, de_dev_start = 0\<rparr>,
            ben_sendto = (\<lambda>_. 64), ben_mbuf = (\<lambda>_. None), ben_append = (\<lambda>_. False), ben_tx_burst = (\<lambda>_. 0),
            ben_clock = (\<lambda>i. int i)\<rparr>
      in \<lparr>bre_local_time = ''2026-05-27_090559'', bre_create_directories = (\<lambda>_. True), bre_open_output = (\<lambda>_. True),
          bre_system = \<lparr>sye_local_timestamp = ''2026-05-27 09:05:59'', sye_gethostname = None, sye_uname = None,
            sye_os_release = None, sye_cpuinfo = None, sye_compiler = ''gcc'', sye_build_type = ''Release'',
            sye_default_backend = ''kernel_udp'', sye_git_commit = ''unknown'', sye_have_dpdk = False, sye_have_afxdp = False\<rparr>,
          bre_backend = (\<lambda>_. bench), bre_wall_clock = (\<lambda>_. bench)\<rparr>)"

theorem benchmark_report_files_witness:
  "\<exists>files. benchmark_report_main sample_report_env [] = Some (0, files)
     \<and> map fst files = [''reports/2026-05-27_090559/execution_benchmark.md'', ''reports/2026-05-27_090559/backend_benchmark.md'',
         ''reports/2026-05-27_090559/wall_clock_backend_benchmark.md'', ''reports/2026-05-27_090559/guardrail_update_benchmark.md'']"
proof -
  obtain metadata where m: "collect_system_metadata (bre_system sample_report_env) = Some metadata"
    by (simp add: sample_report_env_def collect_system_metadata_def cpu_model_def Let_def)
  have "bre_create_directories sample_report_env path" "bre_open_output sample_report_env path"
    "\<not> ben_have_dpdk (bre_backend sample_report_env i)" "\<not> ben_have_dpdk (bre_wall_clock sample_report_env i)" for path i
    by (simp_all add: sample_report_env_def Let_def)
  from benchmark_report_files [OF m this, of "[]"] obtain reports where
    r: "benchmark_report_main sample_report_env [] = Some (0, zip
      (map (path_append (timestamped_report_dir (bre_local_time sample_report_env) ''reports''))
        [''execution_benchmark.md'', ''backend_benchmark.md'', ''wall_clock_backend_benchmark.md'', ''guardrail_update_benchmark.md''])
      (map (\<lambda>report. report @ nl @ format_system_metadata_markdown metadata) reports))" "length reports = 4" by auto
  have "timestamped_report_dir (bre_local_time sample_report_env) ''reports'' = ''reports/2026-05-27_090559''"
    by (simp add: timestamped_report_dir_def path_append_def sample_report_env_def Let_def)
  with r show ?thesis by (simp add: path_append_def map_fst_zip_take)
qed

end
