(* ===== verification/Display_Names.thy ===== *)
theory Display_Names
  imports Market_Event Order_Event
begin

text \<open>
  The display names of the wire protocols' codes: the \<^verbatim>\<open>to_string\<close> overloads of
  \<^verbatim>\<open>include/fgep/core/errors.hpp\<close>, \<^verbatim>\<open>include/fgep/itch/itch_message_type.hpp\<close>,
  \<^verbatim>\<open>include/fgep/itch/itch_wire_messages.hpp\<close> and \<^verbatim>\<open>include/fgep/ouch/ouch_message_type.hpp\<close>. A
  \<^verbatim>\<open>switch\<close> over all enumerators is a \<open>fun\<close> with one equation each; the fallback \<^verbatim>\<open>"unknown"\<close>
  stands for a value outside the enumeration, which the datatypes do not have.

  The locale \<open>display_name\<close> is what a reader of a log relies on: a name identifies its value and is
  never the fallback. It holds for these overloads and for the message types of the event models
  (whose \<^verbatim>\<open>LiquidityFlag\<close> has an enumerator named like the fallback), and the wire and event models
  print the same name for the same code.
\<close>

section \<open>The names\<close>

definition unknown_name :: string where
  "unknown_name = ''unknown''"

fun error_code_to_string :: "error_code \<Rightarrow> string" where
  "error_code_to_string EC_ok = ''ok''"
| "error_code_to_string EC_invalid_argument = ''invalid_argument''"
| "error_code_to_string EC_invalid_state = ''invalid_state''"
| "error_code_to_string EC_not_found = ''not_found''"
| "error_code_to_string EC_duplicate = ''duplicate''"
| "error_code_to_string EC_parse_error = ''parse_error''"
| "error_code_to_string EC_io_error = ''io_error''"
| "error_code_to_string EC_timeout = ''timeout''"
| "error_code_to_string EC_unsupported = ''unsupported''"
| "error_code_to_string EC_internal_error = ''internal_error''"

fun message_type_to_string :: "message_type \<Rightarrow> string" where
  "message_type_to_string MT_system_event = ''system_event''"
| "message_type_to_string MT_stock_directory = ''stock_directory''"
| "message_type_to_string MT_stock_trading_action = ''stock_trading_action''"
| "message_type_to_string MT_reg_sho_restriction = ''reg_sho_restriction''"
| "message_type_to_string MT_market_participant_position = ''market_participant_position''"
| "message_type_to_string MT_mwcb_decline_level = ''mwcb_decline_level''"
| "message_type_to_string MT_mwcb_status = ''mwcb_status''"
| "message_type_to_string MT_ipo_quoting_period_update = ''ipo_quoting_period_update''"
| "message_type_to_string MT_luld_auction_collar = ''luld_auction_collar''"
| "message_type_to_string MT_operational_halt = ''operational_halt''"
| "message_type_to_string MT_add_order_no_mpid = ''add_order_no_mpid''"
| "message_type_to_string MT_add_order_with_mpid = ''add_order_with_mpid''"
| "message_type_to_string MT_order_executed = ''order_executed''"
| "message_type_to_string MT_order_executed_with_price = ''order_executed_with_price''"
| "message_type_to_string MT_order_cancel = ''order_cancel''"
| "message_type_to_string MT_order_delete = ''order_delete''"
| "message_type_to_string MT_order_replace = ''order_replace''"
| "message_type_to_string MT_trade_non_cross = ''trade_non_cross''"
| "message_type_to_string MT_cross_trade = ''cross_trade''"
| "message_type_to_string MT_broken_trade = ''broken_trade''"
| "message_type_to_string MT_noii = ''noii''"
| "message_type_to_string MT_retail_price_improvement_indicator = ''retail_price_improvement_indicator''"
| "message_type_to_string MT_direct_listing_with_capital_raise = ''direct_listing_with_capital_raise''"

fun system_event_code_to_string :: "system_event_code \<Rightarrow> string" where
  "system_event_code_to_string SEC_start_of_messages = ''start_of_messages''"
| "system_event_code_to_string SEC_start_of_system_hours = ''start_of_system_hours''"
| "system_event_code_to_string SEC_start_of_market_hours = ''start_of_market_hours''"
| "system_event_code_to_string SEC_end_of_market_hours = ''end_of_market_hours''"
| "system_event_code_to_string SEC_end_of_system_hours = ''end_of_system_hours''"
| "system_event_code_to_string SEC_end_of_messages = ''end_of_messages''"

fun side_to_string :: "side \<Rightarrow> string" where
  "side_to_string Buy = ''buy''"
| "side_to_string Sell = ''sell''"

fun printable_to_string :: "printable \<Rightarrow> string" where
  "printable_to_string Non_printable = ''non_printable''"
| "printable_to_string Printable = ''printable''"

fun cross_type_to_string :: "cross_type \<Rightarrow> string" where
  "cross_type_to_string CT_opening_cross = ''opening_cross''"
| "cross_type_to_string CT_closing_cross = ''closing_cross''"
| "cross_type_to_string CT_ipo_or_halted = ''ipo_or_halted''"

fun ouch_message_type_to_string :: "ouch_message_type \<Rightarrow> string" where
  "ouch_message_type_to_string OMT_enter_order = ''enter_order''"
| "ouch_message_type_to_string OMT_replace_order = ''replace_order''"
| "ouch_message_type_to_string OMT_cancel_order = ''cancel_order''"

section \<open>What a reader of a log relies on\<close>

locale display_name =
  fixes name :: "'a \<Rightarrow> string"
  assumes name_inj: "name x = name y \<Longrightarrow> x = y"
    and name_known: "name x \<noteq> unknown_name"
begin

lemma names_identify: "map name xs = map name ys \<longleftrightarrow> xs = ys"
  using name_inj by (auto simp: inj_on_def intro: list.inj_map_strong [of xs ys name name])

lemma unknown_not_printed: "unknown_name \<notin> set (map name xs)"
  using name_known by (auto dest: sym)

end

text \<open>The two laws, per overload; those of the event models are injective by their own theories.\<close>

lemma wire_names_injective:
  "inj error_code_to_string" "inj message_type_to_string" "inj system_event_code_to_string" "inj side_to_string"
  "inj printable_to_string" "inj cross_type_to_string" "inj ouch_message_type_to_string"
  by (rule injI; case_tac x; case_tac y; simp)+

lemma wire_names_known:
  "error_code_to_string e \<noteq> unknown_name"
  "message_type_to_string t \<noteq> unknown_name"
  "system_event_code_to_string c \<noteq> unknown_name"
  "side_to_string d \<noteq> unknown_name"
  "printable_to_string p \<noteq> unknown_name"
  "cross_type_to_string k \<noteq> unknown_name"
  "ouch_message_type_to_string q \<noteq> unknown_name"
  "core_itch_message_type_to_string v \<noteq> unknown_name"
  "core_ouch_inbound_message_type_to_string i \<noteq> unknown_name"
  by ((cases e; simp add: unknown_name_def),
    (cases t; simp add: unknown_name_def),
    (cases c; simp add: unknown_name_def),
    (cases d; simp add: unknown_name_def),
    (cases p; simp add: unknown_name_def),
    (cases k; simp add: unknown_name_def),
    (cases q; simp add: unknown_name_def),
    (cases v; simp add: unknown_name_def),
    (cases i; simp add: unknown_name_def))

lemma display_nameI: "inj f \<Longrightarrow> (\<And>x. f x \<noteq> unknown_name) \<Longrightarrow> display_name f"
  by unfold_locales (auto dest: injD)

interpretation error_names: display_name error_code_to_string
  by (rule display_nameI [OF wire_names_injective(1) wire_names_known(1)])

interpretation itch_names: display_name message_type_to_string
  by (rule display_nameI [OF wire_names_injective(2) wire_names_known(2)])

interpretation system_event_names: display_name system_event_code_to_string
  by (rule display_nameI [OF wire_names_injective(3) wire_names_known(3)])

interpretation side_names: display_name side_to_string
  by (rule display_nameI [OF wire_names_injective(4) wire_names_known(4)])

interpretation printable_names: display_name printable_to_string
  by (rule display_nameI [OF wire_names_injective(5) wire_names_known(5)])

interpretation cross_names: display_name cross_type_to_string
  by (rule display_nameI [OF wire_names_injective(6) wire_names_known(6)])

interpretation ouch_names: display_name ouch_message_type_to_string
  by (rule display_nameI [OF wire_names_injective(7) wire_names_known(7)])

interpretation event_names: display_name core_itch_message_type_to_string
  by (rule display_nameI [OF event_codes_injective(2) wire_names_known(8)])

interpretation inbound_names: display_name core_ouch_inbound_message_type_to_string
  by (rule display_nameI [OF order_event_names_injective(1) wire_names_known(9)])

section \<open>One name per wire code\<close>

text \<open>
  The event model and the wire model print a wire code alike: where a code of the event model is a message type of the
  wire, the two enumerators have the same name, and only then.\<close>

lemma itch_names_follow_codes:
  "core_itch_message_type_value e = message_type_to_char t \<longleftrightarrow>
   core_itch_message_type_to_string e = message_type_to_string t"
  by (cases e; cases t; simp)

lemma ouch_names_follow_codes:
  "core_ouch_inbound_message_type_value e = ouch_message_type_to_char t \<longleftrightarrow>
   core_ouch_inbound_message_type_to_string e = ouch_message_type_to_string t"
  by (cases e; cases t; simp)

text \<open>
  So the log of a decoded feed is the same through either model, message by message: the names of the event codes are
  those of the wire types exactly when the codes on the wire agree.\<close>

theorem itch_logs_agree:
  "map core_itch_message_type_to_string es = map message_type_to_string ts \<longleftrightarrow>
   map core_itch_message_type_value es = map message_type_to_char ts"
proof (induction es arbitrary: ts)
  case (Cons e es) then show ?case by (cases ts) (auto simp: itch_names_follow_codes)
qed auto

end
