(* ===== verification/Stats_Flow.thy ===== *)
theory Stats_Flow
  imports Async_Worker
begin

text \<open>
  When the counters are counted. \<^verbatim>\<open>BackendSubmitQueue::push\<close> puts a request into the ring first and counts it
  afterwards, and \<^verbatim>\<open>AsyncExecutionBackend::poll_once\<close> takes it out, submits it and counts the answer, on another
  thread. Theories \<open>Execution\<close> and \<open>Async_Worker\<close> take each of the two as one step; here they are cut at every access
  to shared memory: the ring, the backend behind and each counter.

  The theory shows that the finer interleavings settle to the coarse ones, and what the counters say at every moment in
  between: a request may be counted as answered before it is counted as queued, but never more than one.
\<close>

section \<open>The steps of the two threads\<close>

text \<open>Where the consumer is in \<^verbatim>\<open>poll_once\<close>.\<close>

datatype poll_pc = PO_idle | PO_popped queue_item | PO_answered backend_submit_result

text \<open>The list holds the counters that the producer's \<^verbatim>\<open>push\<close> is still to increment.\<close>

record 'b flow =
  fl_queue :: submit_queue
  fl_backend :: 'b
  fl_counting :: "core_counter list"
  fl_poll :: poll_pc

text \<open>\<^verbatim>\<open>push\<close> up to its access to the ring.\<close>

definition flow_push :: "backend_submit_request \<Rightarrow> 'b flow \<Rightarrow> 'b flow" where
  "flow_push request fl =
     (let q = fl_queue fl in
      case make_item (bq_max_payload_size q) request (default_item (bq_max_payload_size q)) of
        (status, item) \<Rightarrow>
          if status \<noteq> QS_queued then fl\<lparr>fl_counting := [CC_submit_rejected]\<rparr>
          else (case ring_push item (bq_ring q) of
            (ok, ring) \<Rightarrow> fl\<lparr>fl_queue := q\<lparr>bq_ring := ring\<rparr>,
              fl_counting := (if \<not> ok then [CC_ring_full, CC_submit_rejected] else [CC_submit_queued])\<rparr>))"

text \<open>The next of its counters, \<^verbatim>\<open>record_queued\<close>, \<^verbatim>\<open>record_rejected\<close> or \<^verbatim>\<open>record_ring_full\<close>.\<close>

definition flow_count :: "'b flow \<Rightarrow> 'b flow" where
  "flow_count fl = fl\<lparr>fl_queue := bq_record (hd (fl_counting fl)) (fl_queue fl), fl_counting := tl (fl_counting fl)\<rparr>"

text \<open>The three accesses of \<^verbatim>\<open>poll_once\<close>.\<close>

fun flow_poll :: "'b submitter \<Rightarrow> poll_pc \<Rightarrow> 'b flow \<Rightarrow> 'b flow" where
  "flow_poll submit PO_idle fl =
     (case queue_pop (fl_queue fl) of
        (None, q') \<Rightarrow> fl\<lparr>fl_queue := q'\<rparr>
      | (Some item, q') \<Rightarrow> fl\<lparr>fl_queue := q', fl_poll := PO_popped item\<rparr>)"
| "flow_poll submit (PO_popped item) fl =
     (case submit (item_request item) (fl_backend fl) of
        (r, b) \<Rightarrow> fl\<lparr>fl_backend := b, fl_poll := PO_answered r\<rparr>)"
| "flow_poll submit (PO_answered r) fl = fl\<lparr>fl_queue := record_backend_result r (fl_queue fl), fl_poll := PO_idle\<rparr>"

definition new_flow :: "nat \<Rightarrow> nat \<Rightarrow> 'b \<Rightarrow> 'b flow" where
  "new_flow n m b = \<lparr>fl_queue = new_submit_queue n m (Some cs_reset), fl_backend = b, fl_counting = [], fl_poll = PO_idle\<rparr>"

text \<open>Every interleaving of the two threads; the number counts the calls of \<^verbatim>\<open>push\<close>.\<close>

inductive flow_run :: "'b submitter \<Rightarrow> nat \<Rightarrow> nat \<Rightarrow> 'b \<Rightarrow> nat \<Rightarrow> 'b flow \<Rightarrow> bool" for submit n m b0 where
  flow_start: "flow_run submit n m b0 0 (new_flow n m b0)"
| flow_pushes: "flow_run submit n m b0 k fl \<Longrightarrow> fl_counting fl = [] \<Longrightarrow>
     flow_run submit n m b0 (k + 1) (flow_push request fl)"
| flow_counts: "flow_run submit n m b0 k fl \<Longrightarrow> fl_counting fl \<noteq> [] \<Longrightarrow> flow_run submit n m b0 k (flow_count fl)"
| flow_polls: "flow_run submit n m b0 k fl \<Longrightarrow> flow_run submit n m b0 k (flow_poll submit (fl_poll fl) fl)"

section \<open>Settling\<close>

text \<open>The queue and the backend once both threads have finished what they have begun.\<close>

fun settle_poll :: "'b submitter \<Rightarrow> poll_pc \<Rightarrow> submit_queue \<times> 'b \<Rightarrow> submit_queue \<times> 'b" where
  "settle_poll submit PO_idle (q, b) = (q, b)"
| "settle_poll submit (PO_popped item) (q, b) =
     (case submit (item_request item) b of (r, b') \<Rightarrow> (record_backend_result r q, b'))"
| "settle_poll submit (PO_answered r) (q, b) = (record_backend_result r q, b)"

definition settle :: "'b submitter \<Rightarrow> 'b flow \<Rightarrow> submit_queue \<times> 'b" where
  "settle submit fl = settle_poll submit (fl_poll fl) (fold bq_record (fl_counting fl) (fl_queue fl), fl_backend fl)"

text \<open>Increments commute with each other and with the ring.\<close>

lemma bq_record_commute: "bq_record c (bq_record d q) = bq_record d (bq_record c q)"
proof -
  have "cs_increment c 1 \<circ> cs_increment d 1 = cs_increment d 1 \<circ> cs_increment c 1"
    by (auto simp: fun_eq_iff cs_increment_def)
  then show ?thesis by (simp add: bq_record_def option.map_comp)
qed

lemma record_result_commute:
  "record_backend_result r (bq_record c q) = bq_record c (record_backend_result r q)"
  by (simp add: record_backend_result_def bq_record_commute)

lemma bq_record_ring: "(bq_record c q)\<lparr>bq_ring := ring\<rparr> = bq_record c (q\<lparr>bq_ring := ring\<rparr>)"
  by (simp add: bq_record_def)

lemma record_result_ring: "(record_backend_result r q)\<lparr>bq_ring := ring\<rparr> = record_backend_result r (q\<lparr>bq_ring := ring\<rparr>)"
  by (simp add: record_backend_result_def bq_record_ring)

lemma record_result_fold: "record_backend_result r (fold bq_record cs q) = fold bq_record cs (record_backend_result r q)"
  by (induction cs arbitrary: q) (simp_all add: record_result_commute)

lemma fold_record_ring: "(fold bq_record cs q)\<lparr>bq_ring := ring\<rparr> = fold bq_record cs (q\<lparr>bq_ring := ring\<rparr>)"
  by (induction cs arbitrary: q) (simp_all add: bq_record_ring)

lemma fold_record_fields [simp]:
  "bq_ring (fold bq_record cs q) = bq_ring q" "bq_max_payload_size (fold bq_record cs q) = bq_max_payload_size q"
  by (induction cs arbitrary: q) simp_all

lemma queue_push_result:
  "queue_push request (record_backend_result r q) = map_prod id (record_backend_result r) (queue_push request q)"
  by (auto simp: queue_push_def record_result_commute record_result_ring split: prod.splits)

lemma queue_pop_record: "queue_pop (fold bq_record cs q) = map_prod id (fold bq_record cs) (queue_pop q)"
  by (auto simp: queue_pop_def fold_record_ring split: prod.splits)

lemma snd_async_submit: "snd (async_submit request q) = snd (queue_push request q)"
  by (simp add: async_submit_def split: prod.splits)

text \<open>Beginning to push is the whole push, once settled.\<close>

lemma flow_push_coarse:
  assumes "fl_counting fl = []"
  shows "fold bq_record (fl_counting (flow_push request fl)) (fl_queue (flow_push request fl))
       = snd (queue_push request (fl_queue fl))"
    and "fl_poll (flow_push request fl) = fl_poll fl" "fl_backend (flow_push request fl) = fl_backend fl"
  using assms by (auto simp: flow_push_def queue_push_def Let_def split: prod.splits)

lemma settle_push:
  assumes "fl_counting fl = []" "settle submit fl = (q, b)"
  shows "settle submit (flow_push request fl) = (snd (queue_push request q), b)"
  using assms flow_push_coarse [OF assms(1), of request]
  by (cases "fl_poll fl") (auto simp: settle_def queue_push_result split: prod.splits)

lemma settle_count:
  assumes "fl_counting fl \<noteq> []" shows "settle submit (flow_count fl) = settle submit fl"
  using assms by (cases "fl_counting fl") (simp_all add: settle_def flow_count_def)

lemma settle_poll_begun:
  assumes "fl_poll fl \<noteq> PO_idle" shows "settle submit (flow_poll submit (fl_poll fl) fl) = settle submit fl"
  using assms by (cases "fl_poll fl") (auto simp: settle_def record_result_fold split: prod.splits)

lemma settle_poll_idle:
  assumes "fl_poll fl = PO_idle" "settle submit fl = (q, b)"
    and "poll_once submit q b = (ok, q', b')"
  shows "settle submit (flow_poll submit (fl_poll fl) fl) = (q', b')"
  using assms by (auto simp: settle_def poll_once_def queue_pop_record split: prod.splits option.splits)

text \<open>So a run of the threads settles to a run in which pushing and polling are single steps.\<close>

lemma flow_settles:
  assumes "flow_run submit n m b0 k fl"
  shows "async_run submit n m k (fst (settle submit fl)) (snd (settle submit fl))"
  using assms
proof induction
  case flow_start
  show ?case by (simp add: settle_def new_flow_def async_start)
next
  case (flow_pushes k fl request)
  obtain q b where s: "settle submit fl = (q, b)" by (cases "settle submit fl")
  have "async_submit request q = (fst (async_submit request q), snd (queue_push request q))"
    by (simp add: snd_async_submit [symmetric])
  from async_submitted [OF _ this] flow_pushes(3) s settle_push [OF flow_pushes(2) s, of request] show ?case
    by simp
next
  case (flow_counts k fl)
  then show ?case by (simp add: settle_count)
next
  case (flow_polls k fl)
  show ?case
  proof (cases "fl_poll fl = PO_idle")
    case True
    obtain q b where s: "settle submit fl = (q, b)" by (cases "settle submit fl")
    obtain ok q' b' where p: "poll_once submit q b = (ok, q', b')" by (cases "poll_once submit q b")
    from flow_polls(2) s settle_poll_idle [OF True s p] p show ?thesis by (auto intro: async_polled)
  next
    case False
    with flow_polls(2) settle_poll_begun [OF False] show ?thesis by simp
  qed
qed

section \<open>The counters at every moment\<close>

text \<open>What \<^verbatim>\<open>push\<close> has left to count is one of three things.\<close>

definition counting_shape :: "core_counter list \<Rightarrow> bool" where
  "counting_shape cs \<longleftrightarrow>
     cs \<in> {[], [CC_submit_queued], [CC_submit_rejected], [CC_ring_full, CC_submit_rejected]}"

lemma flow_counting_shape: "flow_run submit n m b0 k fl \<Longrightarrow> counting_shape (fl_counting fl)"
proof (induction rule: flow_run.induct)
  case (flow_polls k fl)
  then show ?case by (cases "fl_poll fl") (auto split: prod.splits option.splits)
qed (auto simp: counting_shape_def new_flow_def flow_push_def flow_count_def Let_def split: prod.splits)

text \<open>How the counters of the settled queue differ from those in memory.\<close>

definition polling :: "'b flow \<Rightarrow> u64" where
  "polling fl = (if fl_poll fl = PO_idle then 0 else 1)"

definition counting :: "core_counter \<Rightarrow> 'b flow \<Rightarrow> u64" where
  "counting c fl = (if c \<in> set (fl_counting fl) then 1 else 0)"

lemma fold_record_stats:
  assumes "counting_shape cs" "bq_stats q = Some st"
  shows "bq_stats (fold bq_record cs q) = Some (\<lambda>c. st c + (if c \<in> set cs then 1 else 0))"
  using assms by (auto simp: counting_shape_def bq_record_def cs_increment_def fun_eq_iff)

lemma settle_stats:
  assumes "counting_shape (fl_counting fl)" "bq_stats (fst (settle submit fl)) = Some st"
  shows "\<exists>cs. bq_stats (fl_queue fl) = Some cs
    \<and> st CC_submit_queued = cs CC_submit_queued + counting CC_submit_queued fl
    \<and> st CC_submit_rejected = cs CC_submit_rejected + counting CC_submit_rejected fl
    \<and> st CC_backend_accepted + st CC_backend_rejected = cs CC_backend_accepted + cs CC_backend_rejected + polling fl
    \<and> queue_requests (fst (settle submit fl)) = queue_requests (fl_queue fl)"
proof -
  let ?q = "fold bq_record (fl_counting fl) (fl_queue fl)"
  have some: "\<exists>cs. bq_stats (fl_queue fl) = Some cs"
  proof (rule ccontr)
    assume "\<nexists>cs. bq_stats (fl_queue fl) = Some cs"
    then have "bq_stats ?q = None"
      using assms(1) by (auto simp: counting_shape_def bq_record_def)
    with assms(2) show False
      by (cases "fl_poll fl") (auto simp: settle_def record_backend_result_def bq_record_def split: prod.splits if_splits)
  qed
  then obtain cs where cs: "bq_stats (fl_queue fl) = Some cs" by blast
  have no: "CC_backend_accepted \<notin> set (fl_counting fl)" "CC_backend_rejected \<notin> set (fl_counting fl)"
    using assms(1) by (auto simp: counting_shape_def)
  show ?thesis
    using assms(2) fold_record_stats [OF assms(1) cs] cs no
    by (cases "fl_poll fl")
       (auto simp: settle_def record_backend_result_def bq_record_def cs_increment_def polling_def counting_def
          queue_requests_def algebra_simps split: prod.splits if_splits)
qed

text \<open>
  C26: The counters of the asynchronous backend at every moment of every interleaving, of the accesses of the submitting
  thread with those of the worker. Submissions are counted as queued or rejected, up to the one that is being counted;
  and what is counted as answered, taken out or still in the ring is what was counted as queued and the request that
  \<^verbatim>\<open>push\<close> has put into the ring but not counted yet. In particular the counters can show one answer more than
  requests, never two; and they are exact when neither thread is inside an operation. The sums are those of 64-bit
  counters, which wrap.\<close>

theorem counters_at_every_moment:
  assumes "flow_run submit n m b0 k fl" "valid_ring_capacity n" "0 < m" "m \<le> 65535"
  shows "\<exists>cs. bq_stats (fl_queue fl) = Some cs
    \<and> cs CC_submit_queued + cs CC_submit_rejected + (if fl_counting fl = [] then 0 else 1) = of_nat k
    \<and> cs CC_backend_accepted + cs CC_backend_rejected + (if fl_poll fl = PO_idle then 0 else 1)
        + of_nat (length (queue_requests (fl_queue fl)))
      = cs CC_submit_queued + (if fl_counting fl = [CC_submit_queued] then 1 else 0)"
proof -
  have shape: "counting_shape (fl_counting fl)" using assms(1) by (rule flow_counting_shape)
  obtain st where st: "bq_stats (fst (settle submit fl)) = Some st"
    "st CC_submit_queued + st CC_submit_rejected = of_nat k"
    "st CC_submit_queued = st CC_backend_accepted + st CC_backend_rejected
       + of_nat (length (queue_requests (fst (settle submit fl))))"
    using async_counters_balance [OF flow_settles [OF assms(1)] assms(2-4)] by blast
  from settle_stats [OF shape st(1)] obtain cs where cs: "bq_stats (fl_queue fl) = Some cs"
    "st CC_submit_queued = cs CC_submit_queued + counting CC_submit_queued fl"
    "st CC_submit_rejected = cs CC_submit_rejected + counting CC_submit_rejected fl"
    "st CC_backend_accepted + st CC_backend_rejected = cs CC_backend_accepted + cs CC_backend_rejected + polling fl"
    "queue_requests (fst (settle submit fl)) = queue_requests (fl_queue fl)" by blast
  have "counting CC_submit_queued fl + counting CC_submit_rejected fl = (if fl_counting fl = [] then 0 else 1)"
    "counting CC_submit_queued fl = (if fl_counting fl = [CC_submit_queued] then 1 else 0)"
    using shape by (auto simp: counting_shape_def counting_def)
  with cs st(2,3) show ?thesis unfolding polling_def
    by (intro exI [of _ cs]) (simp add: algebra_simps)
qed

text \<open>
  An answer that is counted first: the worker takes the request out and counts the answer before the submitting thread
  counts it as queued.\<close>

definition early_answer :: "recording_backend flow" where
  "early_answer = (let step = (\<lambda>fl. flow_poll recording_submit (fl_poll fl) fl)
     in step (step (step (flow_push sample_request (new_flow 2 8 (new_recording_backend 0))))))"

lemma early_answer_run: "flow_run recording_submit 2 8 (new_recording_backend 0) (0 + 1) early_answer"
  unfolding early_answer_def Let_def
  by (intro flow_polls flow_pushes flow_start) (simp add: new_flow_def)

lemma flow_push_queued:
  assumes "fl_counting fl = []" "queue_push request (fl_queue fl) = (QS_queued, q)"
  shows "fl_counting (flow_push request fl) = [CC_submit_queued]" "bq_ring (fl_queue (flow_push request fl)) = bq_ring q"
    "bq_max_payload_size (fl_queue (flow_push request fl)) = bq_max_payload_size (fl_queue fl)"
  using assms by (auto simp: flow_push_def queue_push_def Let_def split: prod.splits if_splits)

lemma flow_poll_all:
  assumes "fl_poll fl = PO_idle" "queue_inv (fl_queue fl)" "queue_requests (fl_queue fl) = x # xs"
    and "step = (\<lambda>fl. flow_poll submit (fl_poll fl) fl)"
  shows "fl_poll (step (step (step fl))) = PO_idle" "fl_counting (step (step (step fl))) = fl_counting fl"
    "queue_requests (fl_queue (step (step (step fl)))) = xs"
proof -
  obtain r q where p: "queue_pop (fl_queue fl) = (r, q)" by (cases "queue_pop (fl_queue fl)")
  note s = queue_pop_spec [OF assms(2) p]
  obtain item where item: "r = Some item" using s assms(3) by auto
  have "queue_requests (record_backend_result res q) = xs" for res
    using s assms(3) by (simp add: queue_requests_def)
  then show "fl_poll (step (step (step fl))) = PO_idle" "fl_counting (step (step (step fl))) = fl_counting fl"
    "queue_requests (fl_queue (step (step (step fl)))) = xs"
    using assms(1,4) p item by (auto split: prod.splits)
qed

lemma early_answer_state:
  "fl_counting early_answer = [CC_submit_queued]" "fl_poll early_answer = PO_idle"
  "queue_requests (fl_queue early_answer) = []"
proof -
  let ?fl = "new_flow 2 8 (new_recording_backend 0)" and ?q0 = "new_submit_queue 2 8 (Some cs_reset)"
  note new = new_submit_queue_inv [OF sample_capacity, where stats = "Some cs_reset"]
  obtain status q where p: "queue_push sample_request ?q0 = (status, q)" by (cases "queue_push sample_request ?q0")
  have m: "bq_max_payload_size ?q0 = 8" by (simp add: new_submit_queue_def)
  from queue_push_spec [OF new(1) p] new m
  have q: "status = QS_queued" "queue_inv q" "queue_requests q = [sample_request]" "bq_max_payload_size q = 8"
    by (auto simp: sample_request_def)
  have f: "fl_queue ?fl = ?q0" "fl_counting ?fl = []" "fl_poll ?fl = PO_idle" by (simp_all add: new_flow_def)
  have "queue_push sample_request (fl_queue ?fl) = (QS_queued, q)" using p q(1) f(1) by simp
  note push = flow_push_queued [OF f(2) this]
  have "queue_inv (fl_queue (flow_push sample_request ?fl))"
    "queue_requests (fl_queue (flow_push sample_request ?fl)) = [sample_request]"
    using push q f m by (simp_all add: queue_inv_def queue_requests_def)
  from flow_poll_all [OF _ this refl, of recording_submit] f(3) push(1) flow_push_coarse(2) [OF f(2), of sample_request]
  show "fl_counting early_answer = [CC_submit_queued]" "fl_poll early_answer = PO_idle"
    "queue_requests (fl_queue early_answer) = []"
    by (simp_all add: early_answer_def Let_def)
qed

theorem counters_at_every_moment_witness:
  "\<exists>cs. bq_stats (fl_queue early_answer) = Some cs
     \<and> cs CC_backend_accepted + cs CC_backend_rejected = cs CC_submit_queued + 1"
  using counters_at_every_moment [OF early_answer_run sample_capacity] by (auto simp: early_answer_state)

end
