(* ===== verification/Hot_Loops.thy ===== *)
theory Hot_Loops
  imports Replay Lifecycle Execution Telemetry Reports
begin

text \<open>
  The standalone hot-path programs of \<^verbatim>\<open>benchmarks/\<close>: \<^verbatim>\<open>hotpath_benchmark.hpp\<close> with the loop
  \<^verbatim>\<open>run_hot_loop\<close>, and the mains of \<^verbatim>\<open>book_benchmark.cpp\<close>, \<^verbatim>\<open>lifecycle_benchmark.cpp\<close>,
  \<^verbatim>\<open>encoded_submit_hotpath_benchmark.cpp\<close>, \<^verbatim>\<open>replay_decode_benchmark.cpp\<close> and \<^verbatim>\<open>pipeline_benchmark.cpp\<close>.

  A loop body is a function of the index and of the variables its lambda captures by reference; what it hands to
  \<^verbatim>\<open>do_not_optimize\<close> is its result, so that the results of a loop are what the program measured. Readings of the steady
  clock are arguments, and so are the arithmetic and the output of \<^verbatim>\<open>double\<close>. The locale \<open>steady_loop\<close> is what a
  measurement relies on, that every round does the same kind of work: it is interpreted on each body, and gives that no
  measured call takes an error path.
\<close>

section \<open>The loop\<close>

text \<open>The helpers \<^verbatim>\<open>stock_symbol\<close>, \<^verbatim>\<open>symbol\<close>, \<^verbatim>\<open>cl_ord_id\<close> and their like: zero bytes when the text does not fit.\<close>

definition text_field :: "nat \<Rightarrow> string \<Rightarrow> string" where
  "text_field n s = (case make_fixed_ascii n s of Fail _ \<Rightarrow> replicate n (CHR 0x00) | Ok v \<Rightarrow> v)"

fun measured :: "(u64 \<Rightarrow> 's \<Rightarrow> 'r \<times> 's) \<Rightarrow> u64 list \<Rightarrow> 's \<Rightarrow> 'r list \<times> 's" where
  "measured body [] s = ([], s)"
| "measured body (index # rest) s =
     (case body index s of (r, s') \<Rightarrow> (case measured body rest s' of (rs, s'') \<Rightarrow> (r # rs, s'')))"

definition loop_indices :: "nat \<Rightarrow> u64 list" where
  "loop_indices n = map of_nat [0..<n]"

record 'd hot_path_result =
  hpr_name :: string
  hpr_iterations :: u64
  hpr_elapsed_ns :: u64
  hpr_operations_per_second :: 'd

text \<open>
  \<open>rate\<close> is the quotient in \<^verbatim>\<open>double\<close>, \<open>start\<close> and \<open>finish\<close> are the readings of the clock in nanoseconds. The
  second component is what the timed loop measured.\<close>

definition run_hot_loop ::
  "(u64 \<Rightarrow> u64 \<Rightarrow> 'd) \<Rightarrow> int \<Rightarrow> int \<Rightarrow> string \<Rightarrow> u64 \<Rightarrow> (u64 \<Rightarrow> 's \<Rightarrow> 'r \<times> 's) \<Rightarrow> 's
     \<Rightarrow> 'd hot_path_result \<times> 'r list \<times> 's" where
  "run_hot_loop rate start finish name iterations body s =
     (case measured body (loop_indices 1024) s of
        (_, s1) \<Rightarrow>
          (case measured body (loop_indices (unat iterations)) s1 of
             (rs, s2) \<Rightarrow>
               (let elapsed = finish - start;
                    elapsed_ns = (if elapsed > 0 then of_int elapsed else 1)
                in (\<lparr>hpr_name = name, hpr_iterations = iterations, hpr_elapsed_ns = elapsed_ns,
                     hpr_operations_per_second = rate iterations elapsed_ns\<rparr>, rs, s2))))"

definition print_result :: "('d \<Rightarrow> string) \<Rightarrow> 'd hot_path_result \<Rightarrow> string list" where
  "print_result show_double r =
     [hpr_name r, ''  iterations: '' @ show_u64 (hpr_iterations r), ''  elapsed_ns: '' @ show_u64 (hpr_elapsed_ns r),
      ''  ops_per_sec: '' @ show_double (hpr_operations_per_second r)]"

section \<open>The loop bodies\<close>

text \<open>\<^verbatim>\<open>book_benchmark.cpp\<close>: the captured variables are the book and the next reference.\<close>

definition bench_book :: symbol_order_book where
  "bench_book = new_symbol_order_book \<lparr>ik_venue_id = 1, ik_stock_locate = 1\<rparr> (text_field 8 ''AAPL'')"

definition book_bench_header :: "u64 \<Rightarrow> header" where
  "book_bench_header sequence =
     \<lparr>hdr_stock_locate = 1, hdr_tracking_number = ucast (sequence AND 0xFFFF), hdr_timestamp_ns = 1000 + sequence\<rparr>"

definition book_bench_add :: "u64 \<Rightarrow> side \<Rightarrow> u32 \<Rightarrow> u32 \<Rightarrow> add_order_no_mpid_message" where
  "book_bench_add ref side shares price =
     \<lparr>ao_header = book_bench_header ref, ao_order_reference_number = ref, ao_side = side, ao_shares = shares,
      ao_stock = text_field 8 ''AAPL'', ao_price = price\<rparr>"

definition book_bench_body :: "u64 \<Rightarrow> symbol_order_book \<times> u64 \<Rightarrow> error_code \<times> symbol_order_book \<times> u64" where
  "book_bench_body index = (\<lambda>(book, next_ref).
     let m = book_bench_add next_ref (if index AND 1 = 0 then Buy else Sell) 100 (ucast (1900000 + index mod 128))
     in case apply_message book (AddOrderNoMpid m) of
          (error, book') \<Rightarrow>
            (error, if order_count book' \<ge> 4096 then (bench_book, 1) else (book', next_ref + 1)))"

text \<open>\<^verbatim>\<open>lifecycle_benchmark.cpp\<close>; the order is also that of \<^verbatim>\<open>encoded_submit_hotpath_benchmark.cpp\<close>.\<close>

definition hot_enter_order :: "u32 \<Rightarrow> enter_order_message" where
  "hot_enter_order ref =
     \<lparr>eo_user_ref_num = ref, eo_side = OS_buy, eo_quantity = 100, eo_symbol = text_field 8 ''AAPL'',
      eo_price = 1902500, eo_time_in_force = TIF_day, eo_display = DSP_visible, eo_capacity = CAP_agency,
      eo_intermarket_sweep_eligibility = ISE_not_eligible, eo_cross_type = OCT_continuous_market,
      eo_cl_ord_id = text_field 14 ''HOTPATH'', eo_optional_appendage = []\<rparr>"

definition lifecycle_bench_body :: "u64 \<Rightarrow> lifecycle_engine \<times> u32 \<Rightarrow> lifecycle_result \<times> lifecycle_engine \<times> u32" where
  "lifecycle_bench_body index = (\<lambda>(engine, next_ref).
     case le_enter (hot_enter_order next_ref) engine of
       (r, engine') \<Rightarrow> (r, if live_order_count engine' \<ge> 4096 then (le_clear engine', 1) else (engine', next_ref + 1)))"

definition encoded_bench_body ::
  "u64 \<Rightarrow> recording_backend \<times> u32 \<Rightarrow> encoded_submit_result \<times> recording_backend \<times> u32" where
  "encoded_bench_body index = (\<lambda>(backend, next_ref).
     case submit_enter_order_to_backend recording_submit (hot_enter_order next_ref) (rb_clear backend) of
       (r, backend') \<Rightarrow> (r, (backend', if next_ref + 1 > 1000000 then 1 else next_ref + 1)))"

text \<open>\<^verbatim>\<open>replay_decode_benchmark.cpp\<close> writes its packet byte by byte.\<close>

definition append_char :: "char \<Rightarrow> bytes \<Rightarrow> bytes" where
  "append_char c bytes = bytes @ [byte_of_char c]"

definition append_u16_be :: "u16 \<Rightarrow> bytes \<Rightarrow> bytes" where
  "append_u16_be v bytes = bytes @ [ucast (drop_bit 8 v AND 0xFF), ucast (v AND 0xFF)]"

definition append_u32_be :: "u32 \<Rightarrow> bytes \<Rightarrow> bytes" where
  "append_u32_be v bytes = bytes @ [ucast (drop_bit 24 v AND 0xFF), ucast (drop_bit 16 v AND 0xFF),
     ucast (drop_bit 8 v AND 0xFF), ucast (v AND 0xFF)]"

definition append_u48_be :: "u64 \<Rightarrow> bytes \<Rightarrow> bytes" where
  "append_u48_be v bytes = bytes @ [ucast (drop_bit 40 v AND 0xFF), ucast (drop_bit 32 v AND 0xFF),
     ucast (drop_bit 24 v AND 0xFF), ucast (drop_bit 16 v AND 0xFF), ucast (drop_bit 8 v AND 0xFF), ucast (v AND 0xFF)]"

definition append_u64_be :: "u64 \<Rightarrow> bytes \<Rightarrow> bytes" where
  "append_u64_be v bytes = bytes @ [ucast (drop_bit 56 v AND 0xFF), ucast (drop_bit 48 v AND 0xFF),
     ucast (drop_bit 40 v AND 0xFF), ucast (drop_bit 32 v AND 0xFF), ucast (drop_bit 24 v AND 0xFF),
     ucast (drop_bit 16 v AND 0xFF), ucast (drop_bit 8 v AND 0xFF), ucast (v AND 0xFF)]"

definition append_fixed_ascii :: "string \<Rightarrow> nat \<Rightarrow> bytes \<Rightarrow> bytes" where
  "append_fixed_ascii s width bytes =
     fold (\<lambda>index. append_char (if index < length s then s ! index else CHR '' '')) [0..<width] bytes"

definition add_order_bytes :: bytes where
  "add_order_bytes = append_u32_be 1902500 (append_fixed_ascii ''AAPL'' 8 (append_u32_be 100 (append_char CHR ''B''
     (append_u64_be 1 (append_u48_be 1000 (append_u16_be 1 (append_u16_be 1 (append_char CHR ''A'' []))))))))"

definition bench_packet :: bytes where
  "bench_packet = append_u16_be (of_nat (length add_order_bytes)) (append_u16_be 1 (append_u64_be 1
     (append_fixed_ascii ''SESSION1'' 10 []))) @ add_order_bytes"

definition replay_bench_body :: "u64 \<Rightarrow> unit \<Rightarrow> replay_packet result \<times> unit" where
  "replay_bench_body index u = (decode_moldudp64_itch_packet bench_packet, u)"

text \<open>\<^verbatim>\<open>pipeline_benchmark.cpp\<close>\<close>

definition pipeline_bench_event :: "u64 \<Rightarrow> telemetry_event" where
  "pipeline_bench_event index =
     (let base = index * 100;
          event = new_telemetry_event\<lparr>te_user_ref_num := ucast (index mod 1000000 + 1)\<rparr>
      in te_mark PS_submit (base + 50) (te_mark PS_enqueue (base + 40) (te_mark PS_lifecycle_decision (base + 30)
           (te_mark PS_book_update (base + 20) (te_mark PS_decode (base + 10) (te_mark PS_ingest base event))))))"

definition pipeline_bench_body :: "u64 \<Rightarrow> latency_recorder \<Rightarrow> u64 option \<times> latency_recorder" where
  "pipeline_bench_body index recorder =
     (let latency = te_end_to_end_latency (pipeline_bench_event index);
          recorder1 = (case latency of Some l \<Rightarrow> lrec_record l recorder | None \<Rightarrow> recorder)
      in (latency, if lrec_size recorder1 \<ge> 4096 then lrec_clear recorder1 else recorder1))"

section \<open>The programs\<close>

text \<open>What each \<^verbatim>\<open>main\<close> measured, and what it prints.\<close>

definition book_bench_main :: "(u64 \<Rightarrow> u64 \<Rightarrow> 'd) \<Rightarrow> ('d \<Rightarrow> string) \<Rightarrow> int \<Rightarrow> int \<Rightarrow> error_code list \<times> string list" where
  "book_bench_main rate show_double start finish =
     (case run_hot_loop rate start finish ''hotpath_book_apply_add_order'' 5000000 book_bench_body (bench_book, 1) of
        (result, rs, _) \<Rightarrow> (rs, print_result show_double result))"

definition lifecycle_bench_main ::
  "(u64 \<Rightarrow> u64 \<Rightarrow> 'd) \<Rightarrow> ('d \<Rightarrow> string) \<Rightarrow> int \<Rightarrow> int \<Rightarrow> lifecycle_result list \<times> string list" where
  "lifecycle_bench_main rate show_double start finish =
     (case run_hot_loop rate start finish ''hotpath_lifecycle_enter'' 5000000 lifecycle_bench_body
        (new_lifecycle_engine, 1) of
        (result, rs, _) \<Rightarrow> (rs, print_result show_double result))"

definition encoded_bench_main ::
  "(u64 \<Rightarrow> u64 \<Rightarrow> 'd) \<Rightarrow> ('d \<Rightarrow> string) \<Rightarrow> int \<Rightarrow> int \<Rightarrow> encoded_submit_result list \<times> string list" where
  "encoded_bench_main rate show_double start finish =
     (case run_hot_loop rate start finish ''hotpath_encoded_submit_enter'' 5000000 encoded_bench_body
        (new_recording_backend 0, 1) of
        (result, rs, _) \<Rightarrow> (rs, print_result show_double result))"

definition replay_bench_main ::
  "(u64 \<Rightarrow> u64 \<Rightarrow> 'd) \<Rightarrow> ('d \<Rightarrow> string) \<Rightarrow> int \<Rightarrow> int \<Rightarrow> replay_packet result list \<times> string list" where
  "replay_bench_main rate show_double start finish =
     (case run_hot_loop rate start finish ''hotpath_replay_decode_moldudp64_itch'' 2000000 replay_bench_body () of
        (result, rs, _) \<Rightarrow> (rs, print_result show_double result))"

definition pipeline_bench_main ::
  "(u64 \<Rightarrow> u64 \<Rightarrow> 'd) \<Rightarrow> ('d \<Rightarrow> string) \<Rightarrow> int \<Rightarrow> int \<Rightarrow> u64 option list \<times> string list" where
  "pipeline_bench_main rate show_double start finish =
     (case run_hot_loop rate start finish ''hotpath_pipeline_telemetry_event'' 10000000 pipeline_bench_body
        \<lparr>lrec_samples = []\<rparr> of
        (result, rs, _) \<Rightarrow> (rs, print_result show_double result))"

section \<open>Steady loops\<close>

locale steady_loop =
  fixes inv :: "'s \<Rightarrow> bool" and fits :: "u64 \<Rightarrow> bool" and good :: "'r \<Rightarrow> bool"
    and body :: "u64 \<Rightarrow> 's \<Rightarrow> 'r \<times> 's"
  assumes round: "inv s \<Longrightarrow> fits index \<Longrightarrow> good (fst (body index s)) \<and> inv (snd (body index s))"
begin

lemma measured_steady:
  "inv s \<Longrightarrow> list_all fits indices \<Longrightarrow> list_all good (fst (measured body indices s))
     \<and> length (fst (measured body indices s)) = length indices \<and> inv (snd (measured body indices s))"
proof (induction indices arbitrary: s)
  case (Cons index indices)
  have "good (fst (body index s))" "inv (snd (body index s))" using Cons.prems round [of s index] by simp_all
  with Cons.IH [of "snd (body index s)"] Cons.prems show ?case by (auto split: prod.splits)
qed simp

lemma run_hot_loop_steady:
  assumes "inv s" "list_all fits (loop_indices (max 1024 (unat iterations)))"
  shows "length (fst (snd (run_hot_loop rate start finish name iterations body s))) = unat iterations"
    and "list_all good (fst (snd (run_hot_loop rate start finish name iterations body s)))"
proof -
  have f: "list_all fits (loop_indices k)" if "k \<le> max 1024 (unat iterations)" for k
    using assms(2) that by (auto simp: loop_indices_def list_all_iff)
  have "inv (snd (measured body (loop_indices 1024) s))" using measured_steady [OF assms(1) f] by simp
  from measured_steady [OF this f [of "unat iterations"]]
  show "length (fst (snd (run_hot_loop rate start finish name iterations body s))) = unat iterations"
    "list_all good (fst (snd (run_hot_loop rate start finish name iterations body s)))"
    by (auto simp: run_hot_loop_def Let_def loop_indices_def split: prod.splits)
qed

end

section \<open>Every round succeeds\<close>

lemma text_field_eval:
  "text_field 8 ''AAPL'' = ''AAPL    ''" "text_field 14 ''HOTPATH'' = ''HOTPATH       ''"
  by (simp_all add: text_field_def make_fixed_ascii_def is_printable_ascii_or_space_def byte_of_char_def)
     (simp_all add: numeral_eq_Suc)

lemma ascii_valid:
  "is_valid_fixed_ascii ''AAPL    ''" "is_valid_fixed_ascii ''HOTPATH       ''"
  by (simp_all add: is_valid_fixed_ascii_def is_printable_ascii_or_space_def byte_of_char_def)

text \<open>The references in use are those below the next one.\<close>

definition refs_below :: "'a::len word \<Rightarrow> 'a word set" where
  "refs_below r = {w. 0 < w \<and> w < r}"

lemma refs_below_Suc:
  assumes "0 < r" "unat (r + 1) = unat r + 1"
  shows "insert r (refs_below r) = refs_below (r + 1)"
  using assms by (auto simp: refs_below_def word_less_nat_alt less_Suc_eq word_unat_eq_iff)

lemma refs_below_1: "refs_below 1 = {}"
  by (auto simp: refs_below_def word_less_nat_alt)

lemma card_refs_below: "card (refs_below r) = unat r - 1"
proof -
  have "unat ` refs_below r = {1..<unat r}"
  proof (intro set_eqI iffI)
    fix k assume k: "k \<in> {1..<unat r}"
    then have "k < 2 ^ LENGTH('a)" by (auto intro: order.strict_trans [OF _ unsigned_less])
    then have "unat (of_nat k :: 'a word) = k" by (simp add: unat_of_nat)
    with k show "k \<in> unat ` refs_below r"
      by (intro image_eqI [of _ _ "of_nat k"]) (auto simp: refs_below_def word_less_nat_alt)
  qed (auto simp: refs_below_def word_less_nat_alt)
  moreover have "card (unat ` refs_below r) = card (refs_below r)" by (intro card_image inj_onI) (simp add: word_unat_eq_iff)
  ultimately show ?thesis by simp
qed


text \<open>\<^verbatim>\<open>book_benchmark.cpp\<close>\<close>

definition book_bench_inv :: "symbol_order_book \<times> u64 \<Rightarrow> bool" where
  "book_bench_inv = (\<lambda>(book, next_ref). sob_key book = sob_key bench_book \<and> sob_stock book = sob_stock bench_book
     \<and> dom (sob_orders book) = refs_below next_ref \<and> 0 < next_ref \<and> next_ref \<le> 4096)"

lemma bench_book_fields:
  "sob_key bench_book = \<lparr>ik_venue_id = 1, ik_stock_locate = 1\<rparr>" "sob_stock bench_book = text_field 8 ''AAPL''"
  "sob_orders bench_book = Map.empty"
  by (simp_all add: bench_book_def new_symbol_order_book_def)

lemma bench_book_inv: "book_bench_inv (bench_book, 1)"
  by (simp add: book_bench_inv_def bench_book_fields refs_below_1)

text \<open>A fresh reference is added to a book of the benchmark.\<close>

lemma bench_add_accepted:
  assumes "sob_key book = sob_key bench_book" "sob_stock book = sob_stock bench_book"
    and "ao_stock m = text_field 8 ''AAPL''" "hdr_stock_locate (ao_header m) = 1"
    and "is_valid_timestamp_ns (hdr_timestamp_ns (ao_header m))"
    and "0 < ao_order_reference_number m" "0 < ao_shares m" "is_valid_price4 (ao_price m)"
    and "ao_order_reference_number m \<notin> dom (sob_orders book)"
  shows "fst (apply_message book (AddOrderNoMpid m)) = EC_ok"
    and "dom (sob_orders (snd (apply_message book (AddOrderNoMpid m))))
       = insert (ao_order_reference_number m) (dom (sob_orders book))"
    and "sob_key (snd (apply_message book (AddOrderNoMpid m))) = sob_key book"
    and "sob_stock (snd (apply_message book (AddOrderNoMpid m))) = sob_stock book"
  using assms
  by (auto simp: with_header_def require_matching_header_def require_matching_stock_def add_order_def Let_def
    bench_book_fields is_valid_instrument_key_def is_valid_venue_id_def invalid_venue_id_def is_valid_stock_locate_def
    is_valid_order_reference_number_def is_valid_shares_def contains_order_def)

lemma bench_price_valid: "is_valid_price4 (ucast (1900000 + index mod 128 :: u64))"
proof -
  have "unat (index mod 128) < 128" by (simp add: unat_mod_distrib)
  then have "unat (1900000 + index mod 128) = 1900000 + unat (index mod 128)" by (simp add: unat_word_ariths)
  with \<open>unat (index mod 128) < 128\<close> have "unat (ucast (1900000 + index mod 128) :: u32) \<noteq> 0"
    by (simp add: unsigned_ucast_eq take_bit_nat_eq_self)
  then show ?thesis by (simp add: is_valid_price4_def word_neq_0_conv [symmetric] unat_eq_0)
qed

text \<open>A round: the order is added, and the book is replaced when it is full.\<close>

lemma book_round:
  assumes "book_bench_inv (book, ref)" "apply_message book (AddOrderNoMpid m) = (error, book')"
    and "ao_order_reference_number m = ref" "ao_stock m = text_field 8 ''AAPL''" "hdr_stock_locate (ao_header m) = 1"
    and "is_valid_timestamp_ns (hdr_timestamp_ns (ao_header m))" "0 < ao_shares m" "is_valid_price4 (ao_price m)"
  shows "error = EC_ok \<and> book_bench_inv (if order_count book' \<ge> 4096 then (bench_book, 1) else (book', ref + 1))"
proof -
  have ref: "0 < ref" "unat ref \<le> 4096" "dom (sob_orders book) = refs_below ref"
    "sob_key book = sob_key bench_book" "sob_stock book = sob_stock bench_book"
    using assms(1) by (auto simp: book_bench_inv_def word_le_nat_alt)
  have u: "unat (ref + 1) = unat ref + 1" using ref(2) by (simp add: unat_word_ariths)
  have "ref \<notin> dom (sob_orders book)" using ref(3) by (simp add: refs_below_def)
  then have a: "error = EC_ok" "dom (sob_orders book') = insert ref (dom (sob_orders book))"
    "sob_key book' = sob_key book" "sob_stock book' = sob_stock book"
    using bench_add_accepted [of book m] assms ref by (simp_all del: apply_message.simps)
  have d: "dom (sob_orders book') = refs_below (ref + 1)" using a(2) ref(1,3) u by (simp add: refs_below_Suc)
  then have c: "order_count book' = unat ref" using u by (simp add: order_count_def card_refs_below)
  show ?thesis
  proof (cases "order_count book' \<ge> 4096")
    case True
    with a(1) bench_book_inv show ?thesis by simp
  next
    case False
    with a d c ref u show ?thesis by (simp add: book_bench_inv_def word_le_nat_alt word_less_nat_alt)
  qed
qed

interpretation book_bench: steady_loop book_bench_inv "\<lambda>_. True" "\<lambda>error. error = EC_ok" book_bench_body
proof
  fix s :: "symbol_order_book \<times> u64" and index :: u64 assume inv: "book_bench_inv s"
  obtain book ref where s: "s = (book, ref)" by (cases s)
  define m where "m = book_bench_add ref (if index AND 1 = 0 then Buy else Sell) 100 (ucast (1900000 + index mod 128))"
  obtain error book' where e: "apply_message book (AddOrderNoMpid m) = (error, book')"
    by (cases "apply_message book (AddOrderNoMpid m)")
  have "unat ref \<le> 4096" using inv s by (simp add: book_bench_inv_def word_le_nat_alt)
  then have "is_valid_timestamp_ns (1000 + ref)"
    by (simp add: is_valid_timestamp_ns_def word_less_nat_alt word_le_nat_alt unat_word_ariths)
  with book_round [OF inv [unfolded s] e] bench_price_valid [of index] e
  show "fst (book_bench_body index s) = EC_ok \<and> book_bench_inv (snd (book_bench_body index s))"
    by (simp add: book_bench_body_def s m_def book_bench_add_def book_bench_header_def del: apply_message.simps)
qed

text \<open>\<^verbatim>\<open>lifecycle_benchmark.cpp\<close>\<close>

definition lifecycle_bench_inv :: "lifecycle_engine \<times> u32 \<Rightarrow> bool" where
  "lifecycle_bench_inv = (\<lambda>(engine, next_ref). dom (le_live_orders engine) = refs_below next_ref
     \<and> le_highest_user_ref_num engine < next_ref \<and> next_ref \<le> 4096)"

lemma hot_enter_order_valid: "0 < ref \<Longrightarrow> is_valid_enter_order_message (hot_enter_order ref)"
  by (simp add: is_valid_enter_order_message_def hot_enter_order_def is_valid_user_ref_num_def text_field_eval
    is_valid_enter_or_replace_quantity_def ouch_is_valid_price4_def ascii_valid appendage_length_fits_def)

text \<open>A fresh reference above all earlier ones is accepted.\<close>

lemma enter_accepted:
  assumes "is_valid_enter_order_message m" "eo_user_ref_num m \<notin> dom (le_live_orders engine)"
    and "le_highest_user_ref_num engine < eo_user_ref_num m"
  shows "lr_status (fst (le_enter m engine)) = LS_accepted"
    and "le_live_orders (snd (le_enter m engine)) = (le_live_orders engine)(eo_user_ref_num m \<mapsto> make_live_order m)"
    and "le_highest_user_ref_num (snd (le_enter m engine)) = eo_user_ref_num m"
  using assms by (auto simp: le_enter_def le_contains_def is_stale_user_ref_def remember_user_ref_def)

lemma lifecycle_round:
  assumes "lifecycle_bench_inv (engine, ref)" "le_enter m engine = (r, engine')"
    and "eo_user_ref_num m = ref" "0 < ref \<Longrightarrow> is_valid_enter_order_message m"
  shows "lr_status r = LS_accepted
    \<and> lifecycle_bench_inv (if live_order_count engine' \<ge> 4096 then (le_clear engine', 1) else (engine', ref + 1))"
proof -
  have ref: "unat ref \<le> 4096" "dom (le_live_orders engine) = refs_below ref" "le_highest_user_ref_num engine < ref"
    using assms(1) by (auto simp: lifecycle_bench_inv_def word_le_nat_alt)
  then have pos: "0 < ref" by (metis word_coorder.not_eq_extremum word_not_simps(1))
  have u: "unat (ref + 1) = unat ref + 1" using ref(1) by (simp add: unat_word_ariths)
  from enter_accepted [OF assms(4) [OF pos], of engine] ref assms(2,3)
  have a: "lr_status r = LS_accepted" "dom (le_live_orders engine') = insert ref (dom (le_live_orders engine))"
    "le_highest_user_ref_num engine' = ref" by (auto simp: refs_below_def)
  have d: "dom (le_live_orders engine') = refs_below (ref + 1)" using a(2) pos ref(2) u by (simp add: refs_below_Suc)
  then have c: "live_order_count engine' = unat ref" using u by (simp add: live_order_count_def card_refs_below)
  show ?thesis
  proof (cases "live_order_count engine' \<ge> 4096")
    case True
    with a(1) show ?thesis by (simp add: lifecycle_bench_inv_def le_clear_def refs_below_1)
  next
    case False
    with a d c u show ?thesis by (simp add: lifecycle_bench_inv_def word_le_nat_alt word_less_nat_alt)
  qed
qed

lemma new_engine_inv: "lifecycle_bench_inv (new_lifecycle_engine, 1)"
  by (simp add: lifecycle_bench_inv_def new_lifecycle_engine_def refs_below_1)

interpretation lifecycle_bench: steady_loop lifecycle_bench_inv "\<lambda>_. True" "\<lambda>r. lr_status r = LS_accepted"
  lifecycle_bench_body
proof
  fix s :: "lifecycle_engine \<times> u32" and index :: u64 assume inv: "lifecycle_bench_inv s"
  obtain engine ref where s: "s = (engine, ref)" by (cases s)
  obtain r engine' where e: "le_enter (hot_enter_order ref) engine = (r, engine')"
    by (cases "le_enter (hot_enter_order ref) engine")
  have "eo_user_ref_num (hot_enter_order ref) = ref" by (simp add: hot_enter_order_def)
  from lifecycle_round [OF inv [unfolded s] e this] e hot_enter_order_valid
  show "lr_status (fst (lifecycle_bench_body index s)) = LS_accepted
      \<and> lifecycle_bench_inv (snd (lifecycle_bench_body index s))"
    by (simp add: lifecycle_bench_body_def s)
qed

text \<open>\<^verbatim>\<open>encoded_submit_hotpath_benchmark.cpp\<close>: an open recording backend without a limit accepts every valid order.\<close>

definition unlimited :: "recording_backend \<Rightarrow> bool" where
  "unlimited b \<longleftrightarrow> rb_open b \<and> rb_max_submissions b = 0"

lemma unlimited_clear: "unlimited b \<Longrightarrow> unlimited (rb_clear b)"
  by (simp add: unlimited_def rb_clear_def)

lemma submit_order_accepted:
  assumes "ouch_ok m" "ouch_typed m" "unlimited b"
  shows "esr_decision (fst (submit_order_to_backend recording_submit m b)) = ESD_accepted"
    and "unlimited (snd (submit_order_to_backend recording_submit m b))"
proof -
  have e: "ouch_encode_message (replicate (encoded_length m) 0) m = (EC_ok, ouch_image m)"
    using assms by (simp add: ouch_encode_valid)
  have ne: "ouch_image m \<noteq> []" by (cases m) simp_all
  have s: "esr_decision (fst (submit_encoded_payload recording_submit ref kind (ouch_image m) b)) = ESD_accepted
      \<and> unlimited (snd (submit_encoded_payload recording_submit ref kind (ouch_image m) b))" for ref kind
    using assms(3) ne
    by (simp add: submit_encoded_payload_def recording_submit_def unlimited_def rb_at_capacity_def
      make_backend_result_def make_backend_accept_def)
  show "esr_decision (fst (submit_order_to_backend recording_submit m b)) = ESD_accepted"
    "unlimited (snd (submit_order_to_backend recording_submit m b))"
    using e s by (cases m; simp add: submit_enter_order_to_backend_def submit_replace_order_to_backend_def
      submit_cancel_order_to_backend_def del: encoded_length.simps ouch_image.simps)+
qed

definition encoded_bench_inv :: "recording_backend \<times> u32 \<Rightarrow> bool" where
  "encoded_bench_inv = (\<lambda>(backend, next_ref). unlimited backend \<and> 0 < next_ref \<and> next_ref \<le> 1000000)"

lemma hot_enter_order_typed: "ouch_typed (EnterOrder (hot_enter_order ref))"
  by (simp add: hot_enter_order_def text_field_eval)

interpretation encoded_bench: steady_loop encoded_bench_inv "\<lambda>_. True" "\<lambda>r. esr_decision r = ESD_accepted"
  encoded_bench_body
proof
  fix s :: "recording_backend \<times> u32" and index :: u64 assume inv: "encoded_bench_inv s"
  obtain backend ref where s: "s = (backend, ref)" by (cases s)
  have ref: "0 < ref" "unat ref \<le> 1000000" and b: "unlimited (rb_clear backend)"
    using inv s by (auto simp: encoded_bench_inv_def word_le_nat_alt unlimited_clear)
  have "unat (ref + 1) = unat ref + 1" using ref(2) by (simp add: unat_word_ariths)
  then have n: "0 < ref + 1" by (simp add: word_less_nat_alt)
  have "ouch_ok (EnterOrder (hot_enter_order ref))" using hot_enter_order_valid [OF ref(1)] by simp
  from submit_order_accepted [OF this hot_enter_order_typed b] n s
  show "esr_decision (fst (encoded_bench_body index s)) = ESD_accepted
      \<and> encoded_bench_inv (snd (encoded_bench_body index s))"
    by (auto simp: encoded_bench_body_def encoded_bench_inv_def split: prod.splits)
qed

text \<open>\<^verbatim>\<open>replay_decode_benchmark.cpp\<close>: the bytes are those of one add order in a packet.\<close>

lemma low_byte: "(ucast (v AND 0xFF) :: u8) = ucast v"
proof -
  have "v AND 0xFF = take_bit 8 v" by (simp add: take_bit_eq_mask mask_eq_exp_minus_1)
  then show ?thesis by (auto intro!: bit_word_eqI simp: bit_simps dest: bit_imp_le_length)
qed

lemma append_be:
  "append_u16_be v2 bs = bs @ be_bytes 2 v2" "append_u32_be v4 bs = bs @ be_bytes 4 v4"
  "append_u48_be v6 bs = bs @ be_bytes 6 v6" "append_u64_be v8 bs = bs @ be_bytes 8 v8"
  by (simp_all add: append_u16_be_def append_u32_be_def append_u48_be_def append_u64_be_def be_bytes_unfold low_byte)

lemma append_fixed_ascii_eq:
  "append_fixed_ascii s width bs = bs @ map (\<lambda>i. byte_of_char (if i < length s then s ! i else CHR '' '')) [0..<width]"
  by (induction width) (simp_all add: append_fixed_ascii_def append_char_def)

definition bench_message :: message where
  "bench_message = AddOrderNoMpid \<lparr>ao_header = \<lparr>hdr_stock_locate = 1, hdr_tracking_number = 1, hdr_timestamp_ns = 1000\<rparr>,
     ao_order_reference_number = 1, ao_side = Buy, ao_shares = 100, ao_stock = ''AAPL    '', ao_price = 1902500\<rparr>"

definition bench_decoded :: replay_packet where
  "bench_decoded = \<lparr>rpk_session = map byte_of_char ''SESSION1  '', rpk_first_sequence_number = 1, rpk_message_count = 1,
     rpk_kind = RPK_data, rpk_messages = [\<lparr>dm_sequence_number = 1, dm_message = bench_message\<rparr>]\<rparr>"

lemma bench_message_ok: "message_ok bench_message" "typed_message bench_message"
  by (simp_all add: bench_message_def is_valid_add_order_no_mpid_message_def is_valid_header_for_stock_message_def
    is_valid_stock_locate_def is_valid_timestamp_ns_def is_valid_order_reference_number_def is_valid_shares_def
    is_valid_price4_def ascii_valid)

lemma append_fixed_ascii_eval:
  "append_fixed_ascii ''AAPL'' 8 bs = bs @ map byte_of_char ''AAPL    ''"
  "append_fixed_ascii ''SESSION1'' 10 bs = bs @ map byte_of_char ''SESSION1  ''"
  by (simp_all add: append_fixed_ascii_eq upt_rec)

lemma add_order_bytes_image: "add_order_bytes = message_image bench_message"
  by (simp add: add_order_bytes_def bench_message_def header_image_def append_be append_char_def append_fixed_ascii_eval)

definition bench_mold :: downstream_packet where
  "bench_mold = \<lparr>dp_session = map byte_of_char ''SESSION1  '', dp_first_sequence_number = 1, dp_message_count = 1,
     dp_kind = PK_data, dp_messages = [block_of \<lparr>dm_sequence_number = 1, dm_message = bench_message\<rparr>]\<rparr>"

lemma bench_packet_image: "bench_packet = packet_image bench_mold"
  by (simp add: bench_packet_def bench_mold_def packet_image_def mold_header_image_def block_image_def block_of_def
    append_be append_fixed_ascii_eval add_order_bytes_image del: message_image.simps)

lemma bench_packet_decodes: "decode_moldudp64_itch_packet bench_packet = Ok bench_decoded"
proof -
  have "length (message_image bench_message) \<le> 65535"
    using length_message_image [OF bench_message_ok(2)] by (simp add: bench_message_def del: message_image.simps)
  then have "decodable bench_mold"
    by (simp add: bench_mold_def block_of_def decodable_def encodable_def is_special_message_count_def
      heartbeat_message_count_def end_of_session_message_count_def del: message_image.simps)
  then have "decode_downstream_packet bench_packet = Ok bench_mold"
    by (simp add: decode_downstream_packet_iff bench_packet_image)
  moreover have "decode_itch_blocks (dp_messages bench_mold) = Ok (rpk_messages bench_decoded)"
    unfolding decode_itch_blocks_iff using bench_message_ok by (simp add: bench_mold_def bench_decoded_def)
  ultimately show ?thesis
    by (simp add: decode_moldudp64_itch_packet_def Let_def) (simp add: bench_mold_def bench_decoded_def)
qed

interpretation replay_bench: steady_loop "\<lambda>_. True" "\<lambda>_. True" "\<lambda>r. r = Ok bench_decoded" replay_bench_body
  by unfold_locales (simp add: replay_bench_body_def bench_packet_decodes)

text \<open>\<^verbatim>\<open>pipeline_benchmark.cpp\<close>\<close>

lemma pipeline_bench_latency:
  assumes "unat index < 2 ^ 50" shows "te_end_to_end_latency (pipeline_bench_event index) = Some 50"
proof -
  have "unat (index * 100) = unat index * 100" using assms by (simp add: unat_word_ariths)
  then have "unat (index * 100 + 50) = unat (index * 100) + 50" using assms by (simp add: unat_word_ariths)
  then have "\<not> index * 100 + 50 < index * 100" by (simp add: word_less_nat_alt)
  then show ?thesis
    by (simp add: te_end_to_end_latency_def te_latency_def te_timestamp_def te_has_def pipeline_bench_event_def Let_def
      te_mark_def new_telemetry_event_def pipeline_stage_count_def numeral_eq_Suc)
qed

interpretation pipeline_bench: steady_loop "\<lambda>_. True" "\<lambda>index. unat index < 2 ^ 50" "\<lambda>r. r = Some 50"
  pipeline_bench_body
  by unfold_locales (simp add: pipeline_bench_body_def pipeline_bench_latency Let_def)

section \<open>Property\<close>

lemma any_index: "list_all (\<lambda>_. True) indices"
  by (simp add: list_all_iff)

text \<open>
  The five hot-path programs measure what their names say. Whatever the clock reads, every one of the timed calls
  takes its successful path: each add order is applied to the book, each order is accepted by the lifecycle engine and,
  encoded, by the backend, each packet decodes to the add order it was written from, and each event has an end-to-end
  latency of 50 nanoseconds; and the number of timed calls is the one that is printed.\<close>

theorem hot_loops_measure_success:
  "length (fst (book_bench_main rate show_double start finish)) = 5000000
   \<and> list_all (\<lambda>error. error = EC_ok) (fst (book_bench_main rate show_double start finish))
   \<and> length (fst (lifecycle_bench_main rate show_double start finish)) = 5000000
   \<and> list_all (\<lambda>r. lr_status r = LS_accepted) (fst (lifecycle_bench_main rate show_double start finish))
   \<and> length (fst (encoded_bench_main rate show_double start finish)) = 5000000
   \<and> list_all (\<lambda>r. esr_decision r = ESD_accepted) (fst (encoded_bench_main rate show_double start finish))
   \<and> length (fst (replay_bench_main rate show_double start finish)) = 2000000
   \<and> list_all (\<lambda>r. r = Ok bench_decoded) (fst (replay_bench_main rate show_double start finish))
   \<and> length (fst (pipeline_bench_main rate show_double start finish)) = 10000000
   \<and> list_all (\<lambda>r. r = Some 50) (fst (pipeline_bench_main rate show_double start finish))"
proof -
  have e: "encoded_bench_inv (new_recording_backend 0, 1)"
    by (simp add: encoded_bench_inv_def new_recording_backend_def unlimited_def)
  have p: "list_all (\<lambda>index. unat index < 2 ^ 50) (loop_indices (max 1024 (unat (10000000 :: u64))))"
    by (auto simp: loop_indices_def list_all_iff unat_of_nat)
  note steady = book_bench.run_hot_loop_steady [OF bench_book_inv any_index]
    lifecycle_bench.run_hot_loop_steady [OF new_engine_inv any_index]
    encoded_bench.run_hot_loop_steady [OF e any_index] replay_bench.run_hot_loop_steady [OF TrueI any_index]
    pipeline_bench.run_hot_loop_steady [OF TrueI p]
  show ?thesis
    unfolding book_bench_main_def lifecycle_bench_main_def encoded_bench_main_def replay_bench_main_def
      pipeline_bench_main_def case_prod_beta fst_conv
    by (simp add: steady)
qed

end
