(* ===== verification/Micro_Benchmarks.thy ===== *)
theory Micro_Benchmarks
  imports Hot_Loops Candidates
begin

text \<open>
  The benchmarks of \<^verbatim>\<open>benchmarks/\<close> that run under Google Benchmark: \<^verbatim>\<open>order_lifecycle_benchmark.cpp\<close>,
  \<^verbatim>\<open>symbol_order_book_benchmark.cpp\<close>, \<^verbatim>\<open>encoded_submit_benchmark.cpp\<close> and
  \<^verbatim>\<open>instrument_directory_benchmark.cpp\<close>. The library chooses how often the body of \<^verbatim>\<open>for (auto _ : state)\<close> runs, so
  the number of rounds is arbitrary; its \<^verbatim>\<open>PauseTiming\<close> and \<^verbatim>\<open>ResumeTiming\<close> change nothing in the program. As in
  theory \<open>Hot_Loops\<close> a body gives what it hands to \<^verbatim>\<open>DoNotOptimize\<close> last, and the variables declared in front of the
  loop; bodies do not use the index.

  Counters that are not reset wrap in the end. The locale \<open>counted_loop\<close> is the contract of a loop that does the same
  kind of work up to a number of rounds.
\<close>

section \<open>Messages\<close>

definition micro_enter_order :: "u32 \<Rightarrow> u32 \<Rightarrow> u64 \<Rightarrow> enter_order_message" where
  "micro_enter_order ref quantity price =
     \<lparr>eo_user_ref_num = ref, eo_side = OS_buy, eo_quantity = quantity, eo_symbol = text_field 8 ''AAPL'',
      eo_price = price, eo_time_in_force = TIF_day, eo_display = DSP_visible, eo_capacity = CAP_agency,
      eo_intermarket_sweep_eligibility = ISE_not_eligible, eo_cross_type = OCT_continuous_market,
      eo_cl_ord_id = text_field 14 ''ORDER1'', eo_optional_appendage = []\<rparr>"

definition micro_replace_order :: "u32 \<Rightarrow> u32 \<Rightarrow> replace_order_message" where
  "micro_replace_order original_ref replacement_ref =
     \<lparr>rpo_orig_user_ref_num = original_ref, rpo_user_ref_num = replacement_ref, rpo_quantity = 150, rpo_price = 1903000,
      rpo_time_in_force = TIF_day, rpo_display = DSP_visible, rpo_intermarket_sweep_eligibility = ISE_not_eligible,
      rpo_cl_ord_id = text_field 14 ''REPLACE1'', rpo_optional_appendage = []\<rparr>"

definition micro_cancel_order :: "u32 \<Rightarrow> cancel_order_message" where
  "micro_cancel_order ref = \<lparr>co_user_ref_num = ref, co_quantity = 0, co_optional_appendage = []\<rparr>"

definition micro_header :: header where
  "micro_header = \<lparr>hdr_stock_locate = 1, hdr_tracking_number = 1, hdr_timestamp_ns = 100\<rparr>"

definition micro_add :: "u64 \<Rightarrow> side \<Rightarrow> u32 \<Rightarrow> u32 \<Rightarrow> add_order_no_mpid_message" where
  "micro_add ref side shares price =
     \<lparr>ao_header = micro_header, ao_order_reference_number = ref, ao_side = side, ao_shares = shares,
      ao_stock = text_field 8 ''AAPL'', ao_price = price\<rparr>"

definition micro_cancel :: "u64 \<Rightarrow> u32 \<Rightarrow> order_cancel_message" where
  "micro_cancel ref shares = \<lparr>oc_header = micro_header, oc_order_reference_number = ref, oc_cancelled_shares = shares\<rparr>"

definition micro_delete :: "u64 \<Rightarrow> order_delete_message" where
  "micro_delete ref = \<lparr>od_header = micro_header, od_order_reference_number = ref\<rparr>"

definition micro_stock_directory :: "u16 \<Rightarrow> string \<Rightarrow> stock_directory_message" where
  "micro_stock_directory locate symbol =
     \<lparr>sd_header = \<lparr>hdr_stock_locate = locate, hdr_tracking_number = 1, hdr_timestamp_ns = 100\<rparr>,
      sd_stock = text_field 8 symbol, sd_market_category = CHR ''Q'', sd_financial_status_indicator = CHR ''N'',
      sd_round_lot_size = 100, sd_round_lots_only = CHR ''N'', sd_issue_classification = CHR ''C'',
      sd_issue_sub_type = text_field 2 ''  '', sd_authenticity = CHR ''P'',
      sd_short_sale_threshold_indicator = CHR ''N'', sd_ipo_flag = CHR ''N'', sd_luld_reference_price_tier = CHR ''1'',
      sd_etp_flag = CHR ''N'', sd_etp_leverage_factor = 0, sd_inverse_indicator = CHR ''N''\<rparr>"

definition micro_trading_action :: "u16 \<Rightarrow> string \<Rightarrow> trading_state \<Rightarrow> stock_trading_action_message" where
  "micro_trading_action locate symbol state =
     \<lparr>ta_header = \<lparr>hdr_stock_locate = locate, hdr_tracking_number = 2, hdr_timestamp_ns = 200\<rparr>,
      ta_stock = text_field 8 symbol, ta_trading_state = state, ta_reserved = CHR '' '', ta_reason = text_field 4 ''    ''\<rparr>"

section \<open>The bodies\<close>

text \<open>\<^verbatim>\<open>order_lifecycle_benchmark.cpp\<close>\<close>

definition micro_candidates :: candidate_config where
  "micro_candidates = \<lparr>cc_symbols = map (text_field 8) [''AAPL'', ''MSFT'', ''TSLA'', ''NVDA''], cc_first_user_ref_num = 1,
     cc_min_quantity = 100, cc_max_quantity = 1000, cc_base_price = 100000, cc_price_step = 25,
     cc_hot_symbol_count = 2, cc_hot_symbol_percent = 80, cc_alternate_sides = True\<rparr>"

definition BM_OrderCandidateGeneratorNextEnterOrder ::
  "u64 \<Rightarrow> candidate_generator \<Rightarrow> enter_order_message \<times> candidate_generator" where
  "BM_OrderCandidateGeneratorNextEnterOrder index generator = next_enter_order generator"

definition BM_OrderLifecycleEnter :: "u64 \<Rightarrow> lifecycle_engine \<times> u32 \<Rightarrow> lifecycle_result \<times> lifecycle_engine \<times> u32" where
  "BM_OrderLifecycleEnter index = (\<lambda>(engine, ref).
     case le_enter (micro_enter_order ref 100 1902500) engine of
       (r, engine') \<Rightarrow> (r, if live_order_count engine' \<ge> 4096 then (le_clear engine', 1) else (engine', ref + 1)))"

definition BM_OrderLifecycleReplace :: "u64 \<Rightarrow> u32 \<Rightarrow> lifecycle_result \<times> u32" where
  "BM_OrderLifecycleReplace index ref =
     (let original_ref = ref; replacement_ref = ref + 1;
          engine = snd (le_enter (micro_enter_order original_ref 100 1902500) new_lifecycle_engine)
      in (fst (le_replace (micro_replace_order original_ref replacement_ref) engine), ref + 1 + 1))"

definition BM_OrderLifecycleCancel :: "u64 \<Rightarrow> u32 \<Rightarrow> lifecycle_result \<times> u32" where
  "BM_OrderLifecycleCancel index ref =
     (let engine = snd (le_enter (micro_enter_order ref 100 1902500) new_lifecycle_engine)
      in (fst (le_cancel (micro_cancel_order ref) engine), ref + 1))"

text \<open>\<^verbatim>\<open>symbol_order_book_benchmark.cpp\<close>\<close>

definition BM_SymbolOrderBookApplyAddOrder ::
  "u64 \<Rightarrow> symbol_order_book \<times> u64 \<Rightarrow> error_code \<times> symbol_order_book \<times> u64" where
  "BM_SymbolOrderBookApplyAddOrder index = (\<lambda>(book, ref).
     case apply_message book (AddOrderNoMpid (micro_add ref Buy 100 1902500)) of
       (error, book') \<Rightarrow> (error, if order_count book' \<ge> 4096 then (bench_book, 1) else (book', ref + 1)))"

definition BM_SymbolOrderBookApplyCancelOrder :: "u64 \<Rightarrow> u64 \<Rightarrow> error_code \<times> u64" where
  "BM_SymbolOrderBookApplyCancelOrder index ref =
     (let book = snd (apply_message bench_book (AddOrderNoMpid (micro_add ref Buy 100 1902500)))
      in (fst (apply_message book (OrderCancel (micro_cancel ref 50))), ref + 1))"

definition BM_SymbolOrderBookApplyDeleteOrder :: "u64 \<Rightarrow> u64 \<Rightarrow> error_code \<times> u64" where
  "BM_SymbolOrderBookApplyDeleteOrder index ref =
     (let book = snd (apply_message bench_book (AddOrderNoMpid (micro_add ref Sell 100 1903000)))
      in (fst (apply_message book (OrderDelete (micro_delete ref))), ref + 1))"

definition two_sided_book :: symbol_order_book where
  "two_sided_book = snd (apply_message (snd (apply_message bench_book (AddOrderNoMpid (micro_add 1 Buy 100 1902500))))
     (AddOrderNoMpid (micro_add 2 Sell 100 1903000)))"

definition BM_SymbolOrderBookBestBidAsk ::
  "u64 \<Rightarrow> symbol_order_book \<Rightarrow> (level option \<times> level option) \<times> symbol_order_book" where
  "BM_SymbolOrderBookBestBidAsk index book = ((best_bid book, best_ask book), book)"

text \<open>\<^verbatim>\<open>encoded_submit_benchmark.cpp\<close>\<close>

definition encoded_enter_order :: bytes where
  "encoded_enter_order = snd (encode_enter_order_message (replicate 47 0) (micro_enter_order 1 100 1902500))"

definition heartbeat_packet :: bytes where
  "heartbeat_packet =
     (let bytes0 = map (\<lambda>index. of_nat (of_char CHR ''A'' + index)) [0..<10] @ replicate 10 0;
          bytes1 = snd (write_u64_be bytes0 10 1)
      in snd (write_u16_be bytes1 18 heartbeat_message_count))"

definition BM_OuchEncodeEnterOrder :: "u64 \<Rightarrow> bytes \<times> u32 \<Rightarrow> error_code \<times> bytes \<times> u32" where
  "BM_OuchEncodeEnterOrder index = (\<lambda>(bytes, ref).
     case encode_enter_order_message bytes (micro_enter_order ref 100 1902500) of
       (error, bytes') \<Rightarrow> (error, bytes', ref + 1))"

definition BM_OuchDecodeEnterOrder :: "u64 \<Rightarrow> unit \<Rightarrow> enter_order_message result \<times> unit" where
  "BM_OuchDecodeEnterOrder index u = (decode_enter_order_message encoded_enter_order, u)"

definition BM_MoldUdp64DecodeHeartbeat :: "u64 \<Rightarrow> unit \<Rightarrow> downstream_packet result \<times> unit" where
  "BM_MoldUdp64DecodeHeartbeat index u = (decode_downstream_packet heartbeat_packet, u)"

definition BM_EncodedBackendSubmitEnter ::
  "u64 \<Rightarrow> recording_backend \<times> u32 \<Rightarrow> encoded_submit_result \<times> recording_backend \<times> u32" where
  "BM_EncodedBackendSubmitEnter index = (\<lambda>(backend, ref).
     case submit_enter_order_to_backend recording_submit (micro_enter_order ref 100 1902500) (rb_clear backend) of
       (r, backend') \<Rightarrow> (r, backend', ref + 1))"

definition BM_EncodedBackendSubmitReplace ::
  "u64 \<Rightarrow> recording_backend \<times> u32 \<Rightarrow> encoded_submit_result \<times> recording_backend \<times> u32" where
  "BM_EncodedBackendSubmitReplace index = (\<lambda>(backend, ref).
     case submit_replace_order_to_backend recording_submit (micro_replace_order ref (ref + 1)) (rb_clear backend) of
       (r, backend') \<Rightarrow> (r, backend', ref + 1 + 1))"

definition BM_EncodedBackendSubmitCancel ::
  "u64 \<Rightarrow> recording_backend \<times> u32 \<Rightarrow> encoded_submit_result \<times> recording_backend \<times> u32" where
  "BM_EncodedBackendSubmitCancel index = (\<lambda>(backend, ref).
     case submit_cancel_order_to_backend recording_submit (micro_cancel_order ref) (rb_clear backend) of
       (r, backend') \<Rightarrow> (r, backend', ref + 1))"

text \<open>\<^verbatim>\<open>instrument_directory_benchmark.cpp\<close>\<close>

definition BM_InstrumentDirectoryApplyStockDirectory ::
  "u64 \<Rightarrow> instrument_directory \<times> u16 \<Rightarrow> error_code \<times> instrument_directory \<times> u16" where
  "BM_InstrumentDirectoryApplyStockDirectory index = (\<lambda>(dir, locate).
     case apply_stock_directory dir 1 (micro_stock_directory locate ''AAPL'') of
       (error, dir') \<Rightarrow> (error, if directory_size dir' \<ge> 4096 then (empty_directory, 1) else (dir', locate + 1)))"

definition BM_InstrumentDirectoryApplyTradingAction :: "u64 \<Rightarrow> u16 \<Rightarrow> error_code \<times> u16" where
  "BM_InstrumentDirectoryApplyTradingAction index locate =
     (let dir = snd (apply_stock_directory empty_directory 1 (micro_stock_directory locate ''AAPL''))
      in (fst (apply_stock_trading_action dir 1 (micro_trading_action locate ''AAPL'' TS_trading)), locate + 1))"

definition lookup_directory :: instrument_directory where
  "lookup_directory = fold (\<lambda>locate dir. snd (apply_stock_directory dir 1 (micro_stock_directory locate ''AAPL'')))
     (map of_nat [1..<1025]) empty_directory"

definition BM_InstrumentDirectoryFindByStockLocate ::
  "u64 \<Rightarrow> instrument_directory \<times> u16 \<Rightarrow> instrument_metadata option \<times> instrument_directory \<times> u16" where
  "BM_InstrumentDirectoryFindByStockLocate index = (\<lambda>(dir, lookup).
     (find_instrument_at dir 1 lookup, dir, if lookup + 1 > 1024 then 1 else lookup + 1))"

section \<open>Loops with a bounded number of rounds\<close>

locale counted_loop =
  fixes bound :: nat and inv :: "nat \<Rightarrow> 's \<Rightarrow> bool" and good :: "'r \<Rightarrow> bool" and body :: "u64 \<Rightarrow> 's \<Rightarrow> 'r \<times> 's"
  assumes round: "k < bound \<Longrightarrow> inv k s \<Longrightarrow> good (fst (body index s)) \<and> inv (Suc k) (snd (body index s))"
begin

lemma measured_counted:
  "inv k s \<Longrightarrow> k + length indices \<le> bound \<Longrightarrow> list_all good (fst (measured body indices s))
     \<and> inv (k + length indices) (snd (measured body indices s))"
proof (induction indices arbitrary: k s)
  case (Cons index indices)
  have "good (fst (body index s))" "inv (Suc k) (snd (body index s))" using Cons.prems round [of k s index] by simp_all
  with Cons.IH [of "Suc k" "snd (body index s)"] Cons.prems show ?case by (auto split: prod.splits)
qed simp

lemma rounds_good: "inv 0 s \<Longrightarrow> n \<le> bound \<Longrightarrow> list_all good (fst (measured body (loop_indices n) s))"
  using measured_counted [of 0 s "loop_indices n"] by (simp add: loop_indices_def)

end

section \<open>Every round succeeds\<close>

lemma text_field_ok:
  assumes "length s \<le> n" "list_all is_printable_ascii_or_space s"
  shows "length (text_field n s) = n" "is_valid_fixed_ascii (text_field n s)"
proof -
  have "text_field n s = s @ replicate (n - length s) CHR '' ''" using assms by (simp add: text_field_def make_fixed_ascii_def)
  then show "length (text_field n s) = n" "is_valid_fixed_ascii (text_field n s)"
    using assms by (auto simp: is_valid_fixed_ascii_def list_all_iff is_printable_ascii_or_space_def byte_of_char_def)
qed

lemma printable_chars:
  "list_all is_printable_ascii_or_space ''AAPL''" "list_all is_printable_ascii_or_space ''MSFT''"
  "list_all is_printable_ascii_or_space ''TSLA''" "list_all is_printable_ascii_or_space ''NVDA''"
  "list_all is_printable_ascii_or_space ''ORDER1''" "list_all is_printable_ascii_or_space ''REPLACE1''"
  "list_all is_printable_ascii_or_space ''  ''" "list_all is_printable_ascii_or_space ''    ''"
  "is_printable_ascii_or_space CHR '' ''" "is_printable_ascii_or_space CHR ''Q''" "is_printable_ascii_or_space CHR ''N''"
  "is_printable_ascii_or_space CHR ''C''" "is_printable_ascii_or_space CHR ''P''" "is_printable_ascii_or_space CHR ''1''"
  by (simp_all add: is_printable_ascii_or_space_def byte_of_char_def)

lemmas micro_texts =
  text_field_ok [where n = 8, OF _ printable_chars(1), simplified]
  text_field_ok [where n = 8, OF _ printable_chars(2), simplified]
  text_field_ok [where n = 8, OF _ printable_chars(3), simplified]
  text_field_ok [where n = 8, OF _ printable_chars(4), simplified]
  text_field_ok [where n = 14, OF _ printable_chars(5), simplified]
  text_field_ok [where n = 14, OF _ printable_chars(6), simplified]
  text_field_ok [where n = 2, OF _ printable_chars(7), simplified]
  text_field_ok [where n = 4, OF _ printable_chars(8), simplified]

lemma micro_fields [simp]:
  "eo_user_ref_num (micro_enter_order ref quantity price) = ref" "rpo_user_ref_num (micro_replace_order r1 r2) = r2"
  "rpo_orig_user_ref_num (micro_replace_order r1 r2) = r1" "co_user_ref_num (micro_cancel_order ref) = ref"
  "co_quantity (micro_cancel_order ref) = 0"
  by (simp_all add: micro_enter_order_def micro_replace_order_def micro_cancel_order_def)

lemma micro_orders_ok:
  "0 < ref \<Longrightarrow> ouch_ok (EnterOrder (micro_enter_order ref 100 1902500))"
  "ouch_typed (EnterOrder (micro_enter_order ref quantity price))"
  "0 < r1 \<Longrightarrow> 0 < r2 \<Longrightarrow> r1 \<noteq> r2 \<Longrightarrow> ouch_ok (ReplaceOrder (micro_replace_order r1 r2))"
  "ouch_typed (ReplaceOrder (micro_replace_order r1 r2))" "0 < ref \<Longrightarrow> ouch_ok (CancelOrder (micro_cancel_order ref))"
  by (simp_all add: is_valid_enter_order_message_def is_valid_replace_order_message_def is_valid_cancel_order_message_def
    micro_enter_order_def micro_replace_order_def micro_cancel_order_def is_valid_user_ref_num_def
    is_valid_enter_or_replace_quantity_def is_valid_cancel_quantity_def ouch_is_valid_price4_def appendage_length_fits_def
    micro_texts)

text \<open>A reference that counts rounds in strides.\<close>

definition strides :: "nat \<Rightarrow> nat \<Rightarrow> 'a::len word \<Rightarrow> bool" where
  "strides d k ref \<longleftrightarrow> unat ref = d * k + 1"

lemma strides_1: "strides d 0 1"
  by (simp add: strides_def)

lemma strides_step:
  assumes "strides d k ref" "d * Suc k + 1 < 2 ^ LENGTH('a)"
  shows "0 < ref" "strides d (Suc k) (ref + of_nat d :: 'a::len word)"
proof -
  show "0 < ref" using assms(1) by (simp add: strides_def word_less_nat_alt)
  have "unat (of_nat d :: 'a word) = d" using assms(2) by (simp add: unat_of_nat)
  then show "strides d (Suc k) (ref + of_nat d)" using assms by (simp add: strides_def unat_word_ariths)
qed

text \<open>The lifecycle benchmarks.\<close>

interpretation bm_lifecycle_enter: steady_loop lifecycle_bench_inv "\<lambda>_. True" "\<lambda>r. lr_status r = LS_accepted"
  BM_OrderLifecycleEnter
proof
  fix s :: "lifecycle_engine \<times> u32" and index :: u64 assume inv: "lifecycle_bench_inv s"
  obtain engine ref where s: "s = (engine, ref)" by (cases s)
  obtain r engine' where e: "le_enter (micro_enter_order ref 100 1902500) engine = (r, engine')"
    by (cases "le_enter (micro_enter_order ref 100 1902500) engine")
  from lifecycle_round [OF inv [unfolded s] e micro_fields(1)] e micro_orders_ok(1) [of ref]
  show "lr_status (fst (BM_OrderLifecycleEnter index s)) = LS_accepted
      \<and> lifecycle_bench_inv (snd (BM_OrderLifecycleEnter index s))"
    by (simp add: BM_OrderLifecycleEnter_def s)
qed

lemma entered:
  assumes "0 < ref"
  defines "engine \<equiv> snd (le_enter (micro_enter_order ref 100 1902500) new_lifecycle_engine)"
  shows "le_live_orders engine = [ref \<mapsto> make_live_order (micro_enter_order ref 100 1902500)]"
    "le_highest_user_ref_num engine = ref"
  using enter_accepted [of "micro_enter_order ref 100 1902500" new_lifecycle_engine] micro_orders_ok(1) [OF assms(1)] assms(1)
  by (auto simp: engine_def new_lifecycle_engine_def)

interpretation bm_lifecycle_replace: counted_loop "2 ^ 31 - 1" "strides 2" "\<lambda>r. lr_status r = LS_replaced"
  BM_OrderLifecycleReplace
proof
  fix k and ref :: u32 and index assume k: "k < 2 ^ 31 - 1" and s: "strides 2 k ref"
  have n: "strides 2 (Suc k) (ref + 2)" and pos: "0 < ref" using strides_step [OF s] k by simp_all
  have "unat (ref + 1) = unat ref + 1" using s k by (simp add: strides_def unat_word_ariths)
  then have lt: "\<not> ref + 1 \<le> ref" by (simp add: word_le_nat_alt)
  then have "0 < ref + 1" "ref \<noteq> ref + 1" using pos by (auto simp: not_le)
  with micro_orders_ok(3) [OF pos this] entered [OF pos] lt n
  show "lr_status (fst (BM_OrderLifecycleReplace index ref)) = LS_replaced
      \<and> strides 2 (Suc k) (snd (BM_OrderLifecycleReplace index ref))"
    by (simp add: BM_OrderLifecycleReplace_def Let_def le_replace_def le_contains_def is_stale_user_ref_def add.assoc)
qed

interpretation bm_lifecycle_cancel: counted_loop "2 ^ 32 - 2" "strides 1" "\<lambda>r. lr_status r = LS_canceled"
  BM_OrderLifecycleCancel
proof
  fix k and ref :: u32 and index assume k: "k < 2 ^ 32 - 2" and s: "strides 1 k ref"
  have n: "strides 1 (Suc k) (ref + 1)" and pos: "0 < ref" using strides_step [OF s] k by simp_all
  with micro_orders_ok(5) [OF pos] entered [OF pos]
  show "lr_status (fst (BM_OrderLifecycleCancel index ref)) = LS_canceled
      \<and> strides 1 (Suc k) (snd (BM_OrderLifecycleCancel index ref))"
    by (simp add: BM_OrderLifecycleCancel_def Let_def le_cancel_def)
qed

text \<open>The candidate generator produces valid orders.\<close>

lemma measured_candidates:
  "fst (measured BM_OrderCandidateGeneratorNextEnterOrder indices g) = candidates (length indices) g"
  by (induction indices arbitrary: g) (simp_all add: BM_OrderCandidateGeneratorNextEnterOrder_def case_prod_beta)

lemma micro_candidates_ok: "n < 2 ^ 32 \<Longrightarrow> candidate_config_ok n micro_candidates"
  by (simp add: candidate_config_ok_def micro_candidates_def micro_texts)

lemma candidate_rounds_valid:
  assumes "n < 2 ^ 32"
  shows "list_all (\<lambda>m. ouch_ok (EnterOrder m)) (fst (measured BM_OrderCandidateGeneratorNextEnterOrder (loop_indices n)
    (make_candidate_generator micro_candidates)))"
  using candidates_valid [OF micro_candidates_ok [OF assms]]
  by (auto simp: measured_candidates loop_indices_def list_all_iff ouch_decode_message_iff
    simp del: ouch_ok.simps ouch_image.simps ouch_typed.simps)

text \<open>The order book benchmarks.\<close>

lemma micro_add_fields:
  "ao_order_reference_number (micro_add ref side shares price) = ref" "ao_stock (micro_add ref side shares price) = text_field 8 ''AAPL''"
  "hdr_stock_locate (ao_header (micro_add ref side shares price)) = 1" "ao_shares (micro_add ref side shares price) = shares"
  "is_valid_timestamp_ns (hdr_timestamp_ns (ao_header (micro_add ref side shares price)))"
  "ao_price (micro_add ref side shares price) = price"
  by (simp_all add: micro_add_def micro_header_def is_valid_timestamp_ns_def)

interpretation bm_book_add: steady_loop book_bench_inv "\<lambda>_. True" "\<lambda>error. error = EC_ok"
  BM_SymbolOrderBookApplyAddOrder
proof
  fix s :: "symbol_order_book \<times> u64" and index :: u64 assume inv: "book_bench_inv s"
  obtain book ref where s: "s = (book, ref)" by (cases s)
  obtain error book' where e: "apply_message book (AddOrderNoMpid (micro_add ref Buy 100 1902500)) = (error, book')"
    by (cases "apply_message book (AddOrderNoMpid (micro_add ref Buy 100 1902500))")
  from book_round [OF inv [unfolded s] e] e
  show "fst (BM_SymbolOrderBookApplyAddOrder index s) = EC_ok
      \<and> book_bench_inv (snd (BM_SymbolOrderBookApplyAddOrder index s))"
    by (simp add: BM_SymbolOrderBookApplyAddOrder_def s micro_add_fields is_valid_price4_def del: apply_message.simps)
qed

text \<open>The single order of a fresh book can be cancelled in part and deleted.\<close>

lemma fresh_order:
  fixes ref :: u64 and side :: side and shares price :: u32
  assumes "0 < ref" "0 < shares" "0 < price"
  defines "book \<equiv> snd (apply_message bench_book (AddOrderNoMpid (micro_add ref side shares price)))"
  shows "sob_orders book ref = Some \<lparr>ro_order_reference_number = ref, ro_side = side, ro_shares = shares, ro_price = price\<rparr>"
    and "require_matching_header book micro_header = EC_ok"
  using assms
  by (auto simp: with_header_def require_matching_header_def require_matching_stock_def add_order_def Let_def micro_add_def
    micro_header_def bench_book_fields is_valid_instrument_key_def is_valid_venue_id_def invalid_venue_id_def
    is_valid_stock_locate_def is_valid_timestamp_ns_def is_valid_order_reference_number_def is_valid_shares_def
    is_valid_price4_def contains_order_def add_to_level_def)

interpretation bm_book_cancel: counted_loop "2 ^ 64 - 2" "strides 1" "\<lambda>error. error = EC_ok"
  BM_SymbolOrderBookApplyCancelOrder
proof
  fix k and ref :: u64 and index assume k: "k < 2 ^ 64 - 2" and s: "strides 1 k ref"
  have n: "strides 1 (Suc k) (ref + 1)" and pos: "0 < ref" using strides_step [OF s] k by simp_all
  with fresh_order [OF pos, of 100 1902500 Buy]
  show "fst (BM_SymbolOrderBookApplyCancelOrder index ref) = EC_ok
      \<and> strides 1 (Suc k) (snd (BM_SymbolOrderBookApplyCancelOrder index ref))"
    by (simp add: BM_SymbolOrderBookApplyCancelOrder_def Let_def micro_cancel_def with_header_def reduce_order_def
      is_valid_shares_def del: apply_message.simps(4))
qed

interpretation bm_book_delete: counted_loop "2 ^ 64 - 2" "strides 1" "\<lambda>error. error = EC_ok"
  BM_SymbolOrderBookApplyDeleteOrder
proof
  fix k and ref :: u64 and index assume k: "k < 2 ^ 64 - 2" and s: "strides 1 k ref"
  have n: "strides 1 (Suc k) (ref + 1)" and pos: "0 < ref" using strides_step [OF s] k by simp_all
  with fresh_order [OF pos, of 100 1903000 Sell]
  show "fst (BM_SymbolOrderBookApplyDeleteOrder index ref) = EC_ok
      \<and> strides 1 (Suc k) (snd (BM_SymbolOrderBookApplyDeleteOrder index ref))"
    by (simp add: BM_SymbolOrderBookApplyDeleteOrder_def Let_def micro_delete_def with_header_def delete_order_def
      del: apply_message.simps(4))
qed

definition two_sided :: "symbol_order_book \<Rightarrow> bool" where
  "two_sided book \<longleftrightarrow> best_bid book = Some \<lparr>lv_price = 1902500, lv_quantity = 100, lv_order_count = 1\<rparr>
     \<and> best_ask book = Some \<lparr>lv_price = 1903000, lv_quantity = 100, lv_order_count = 1\<rparr>"

lemma two_sided_book_quotes: "two_sided two_sided_book"
  by (simp add: two_sided_def two_sided_book_def with_header_def require_matching_header_def require_matching_stock_def
    add_order_def Let_def micro_add_def micro_header_def bench_book_def new_symbol_order_book_def
    is_valid_instrument_key_def is_valid_venue_id_def invalid_venue_id_def is_valid_stock_locate_def
    is_valid_timestamp_ns_def is_valid_order_reference_number_def is_valid_shares_def is_valid_price4_def
    contains_order_def add_to_level_def add_to_side_def best_bid_def best_ask_def om_begin_def om_find_def make_level_def)

interpretation bm_best: steady_loop two_sided "\<lambda>_. True" "\<lambda>(bid, ask). bid \<noteq> None \<and> ask \<noteq> None"
  BM_SymbolOrderBookBestBidAsk
  by unfold_locales (simp add: BM_SymbolOrderBookBestBidAsk_def two_sided_def)

text \<open>The codecs.\<close>

lemma encode_micro_enter:
  "length bytes = 47 \<Longrightarrow> 0 < ref \<Longrightarrow> encode_enter_order_message bytes (micro_enter_order ref 100 1902500)
     = (EC_ok, ouch_image (EnterOrder (micro_enter_order ref 100 1902500)))"
  "length (ouch_image (EnterOrder (micro_enter_order ref 100 1902500))) = 47"
proof -
  have l: "encoded_length (EnterOrder (micro_enter_order ref 100 1902500)) = 47" by (simp add: micro_enter_order_def)
  show "length bytes = 47 \<Longrightarrow> 0 < ref \<Longrightarrow> encode_enter_order_message bytes (micro_enter_order ref 100 1902500)
     = (EC_ok, ouch_image (EnterOrder (micro_enter_order ref 100 1902500)))"
    using ouch_encode_valid [of bytes "EnterOrder (micro_enter_order ref 100 1902500)"] micro_orders_ok(1,2) l
    by (simp del: ouch_ok.simps ouch_typed.simps encoded_length.simps ouch_image.simps)
  show "length (ouch_image (EnterOrder (micro_enter_order ref 100 1902500))) = 47"
    using length_ouch_image [OF micro_orders_ok(2) [of ref 100 1902500]] l by (simp only:)
qed

interpretation bm_encode: counted_loop "2 ^ 32 - 2" "\<lambda>k (bytes, ref). length bytes = 47 \<and> strides 1 k ref"
  "\<lambda>error. error = EC_ok" BM_OuchEncodeEnterOrder
proof
  fix k and s :: "bytes \<times> u32" and index
  assume k: "k < 2 ^ 32 - 2" and s: "case s of (bytes, ref) \<Rightarrow> length bytes = 47 \<and> strides 1 k ref"
  obtain bytes ref where p: "s = (bytes, ref)" "length bytes = 47" "strides 1 k ref" using s by (cases s) auto
  have "strides 1 (Suc k) (ref + 1)" "0 < ref" using strides_step [OF p(3)] k by simp_all
  with p encode_micro_enter(1) [of bytes ref] encode_micro_enter(2) [of ref]
  show "fst (BM_OuchEncodeEnterOrder index s) = EC_ok
      \<and> (case snd (BM_OuchEncodeEnterOrder index s) of (bytes, ref) \<Rightarrow> length bytes = 47 \<and> strides 1 (Suc k) ref)"
    by (simp add: BM_OuchEncodeEnterOrder_def del: ouch_image.simps)
qed

lemma encoded_enter_decodes:
  "decode_enter_order_message encoded_enter_order = Ok (micro_enter_order 1 100 1902500)"
proof -
  have "encoded_enter_order = ouch_image (EnterOrder (micro_enter_order 1 100 1902500))"
    using encode_micro_enter(1) [of "replicate 47 0" 1] by (simp add: encoded_enter_order_def del: ouch_image.simps)
  then show ?thesis
    unfolding decode_enter_order_iff using micro_orders_ok(1) [of 1] micro_orders_ok(2) by simp
qed

interpretation bm_decode: steady_loop "\<lambda>_. True" "\<lambda>_. True" "\<lambda>r. r = Ok (micro_enter_order 1 100 1902500)"
  BM_OuchDecodeEnterOrder
  by unfold_locales (simp add: BM_OuchDecodeEnterOrder_def encoded_enter_decodes)

definition heartbeat :: downstream_packet where
  "heartbeat = \<lparr>dp_session = map byte_of_char ''ABCDEFGHIJ'', dp_first_sequence_number = 1, dp_message_count = 0,
     dp_kind = PK_heartbeat, dp_messages = []\<rparr>"

lemma heartbeat_decodes: "decode_downstream_packet heartbeat_packet = Ok heartbeat"
proof -
  have "heartbeat_packet = packet_image heartbeat"
    by (simp add: heartbeat_packet_def heartbeat_def packet_image_def mold_header_image_def Let_def write_u64_be_alt
      write_u16_be_alt has_range_def heartbeat_message_count_def upt_rec)
       (simp add: be_bytes_unfold byte_of_char_def put_def numeral_eq_Suc)
  then show ?thesis unfolding decode_downstream_packet_iff
    by (simp add: decodable_def encodable_def heartbeat_def heartbeat_message_count_def)
qed

interpretation bm_heartbeat: steady_loop "\<lambda>_. True" "\<lambda>_. True" "\<lambda>r. r = Ok heartbeat" BM_MoldUdp64DecodeHeartbeat
  by unfold_locales (simp add: BM_MoldUdp64DecodeHeartbeat_def heartbeat_decodes)

text \<open>Encoding into a backend.\<close>

definition submitting :: "nat \<Rightarrow> nat \<Rightarrow> recording_backend \<times> u32 \<Rightarrow> bool" where
  "submitting d k = (\<lambda>(backend, ref). unlimited backend \<and> strides d k ref)"

interpretation bm_submit_enter: counted_loop "2 ^ 32 - 2" "submitting 1" "\<lambda>r. esr_decision r = ESD_accepted"
  BM_EncodedBackendSubmitEnter
proof
  fix k and s :: "recording_backend \<times> u32" and index assume k: "k < 2 ^ 32 - 2" and inv: "submitting 1 k s"
  obtain b ref where s: "s = (b, ref)" "unlimited b" "strides 1 k ref" using inv by (cases s) (auto simp: submitting_def)
  have "strides 1 (Suc k) (ref + 1)" and pos: "0 < ref" using strides_step [OF s(3)] k by simp_all
  with submit_order_accepted [OF micro_orders_ok(1) [OF pos] micro_orders_ok(2) unlimited_clear [OF s(2)]] s(1)
  show "esr_decision (fst (BM_EncodedBackendSubmitEnter index s)) = ESD_accepted
      \<and> submitting 1 (Suc k) (snd (BM_EncodedBackendSubmitEnter index s))"
    by (simp add: BM_EncodedBackendSubmitEnter_def submitting_def case_prod_beta)
qed

interpretation bm_submit_replace: counted_loop "2 ^ 31 - 1" "submitting 2" "\<lambda>r. esr_decision r = ESD_accepted"
  BM_EncodedBackendSubmitReplace
proof
  fix k and s :: "recording_backend \<times> u32" and index assume k: "k < 2 ^ 31 - 1" and inv: "submitting 2 k s"
  obtain b ref where s: "s = (b, ref)" "unlimited b" "strides 2 k ref" using inv by (cases s) (auto simp: submitting_def)
  have n: "strides 2 (Suc k) (ref + 2)" and pos: "0 < ref" using strides_step [OF s(3)] k by simp_all
  have "unat (ref + 1) = unat ref + 1" using s(3) k by (simp add: strides_def unat_word_ariths)
  then have "0 < ref + 1" "ref \<noteq> ref + 1" by (auto simp: word_less_nat_alt)
  from submit_order_accepted [OF micro_orders_ok(3) [OF pos this] micro_orders_ok(4) unlimited_clear [OF s(2)]] s(1) n
  show "esr_decision (fst (BM_EncodedBackendSubmitReplace index s)) = ESD_accepted
      \<and> submitting 2 (Suc k) (snd (BM_EncodedBackendSubmitReplace index s))"
    by (simp add: BM_EncodedBackendSubmitReplace_def submitting_def case_prod_beta add.assoc)
qed

interpretation bm_submit_cancel: counted_loop "2 ^ 32 - 2" "submitting 1" "\<lambda>r. esr_decision r = ESD_accepted"
  BM_EncodedBackendSubmitCancel
proof
  fix k and s :: "recording_backend \<times> u32" and index assume k: "k < 2 ^ 32 - 2" and inv: "submitting 1 k s"
  obtain b ref where s: "s = (b, ref)" "unlimited b" "strides 1 k ref" using inv by (cases s) (auto simp: submitting_def)
  have "strides 1 (Suc k) (ref + 1)" and pos: "0 < ref" using strides_step [OF s(3)] k by simp_all
  with submit_order_accepted [OF micro_orders_ok(5) [OF pos] ouch_typed.simps(3) [THEN iffD2, OF TrueI]
      unlimited_clear [OF s(2)]] s(1)
  show "esr_decision (fst (BM_EncodedBackendSubmitCancel index s)) = ESD_accepted
      \<and> submitting 1 (Suc k) (snd (BM_EncodedBackendSubmitCancel index s))"
    by (simp add: BM_EncodedBackendSubmitCancel_def submitting_def case_prod_beta)
qed

text \<open>The directory. All instruments are those of venue 1 and carry the same symbol.\<close>

lemma micro_directory_valid: "is_valid_stock_directory_message (micro_stock_directory locate ''AAPL'') \<longleftrightarrow> 0 < locate"
  by (simp add: is_valid_stock_directory_message_def micro_stock_directory_def is_valid_header_for_stock_message_def
    is_valid_stock_locate_def is_valid_timestamp_ns_def is_valid_protocol_char_or_space_def printable_chars micro_texts)

lemma micro_action_valid:
  "is_valid_stock_trading_action_message (micro_trading_action locate ''AAPL'' state) \<longleftrightarrow> 0 < locate"
  by (simp add: is_valid_stock_trading_action_message_def micro_trading_action_def is_valid_header_for_stock_message_def
    is_valid_stock_locate_def is_valid_timestamp_ns_def is_valid_protocol_char_or_space_def printable_chars micro_texts)

abbreviation micro_key :: "u16 \<Rightarrow> instrument_key" where
  "micro_key locate \<equiv> \<lparr>ik_venue_id = 1, ik_stock_locate = locate\<rparr>"

definition listed_below :: "instrument_directory \<Rightarrow> u16 \<Rightarrow> bool" where
  "listed_below dir locate \<longleftrightarrow> dom (dir_instruments dir) = micro_key ` refs_below locate"

lemma listed_below_empty: "listed_below empty_directory 1"
  by (simp add: listed_below_def empty_directory_def refs_below_1)

lemma directory_added:
  assumes "listed_below dir locate" "0 < locate" "unat (locate + 1) = unat locate + 1"
    and "apply_stock_directory dir 1 (micro_stock_directory locate ''AAPL'') = (error, dir')"
  shows "error = EC_ok" "listed_below dir' (locate + 1)"
proof -
  have "micro_key locate \<notin> dom (dir_instruments dir)" using assms(1) by (auto simp: listed_below_def refs_below_def)
  then have "dir_instruments dir (micro_key locate) = None" by blast
  then have "error = EC_ok \<and> dom (dir_instruments dir') = insert (micro_key locate) (dom (dir_instruments dir))"
    using assms(4) micro_directory_valid [of locate] assms(2)
    by (auto simp: apply_stock_directory_def is_valid_venue_id_def invalid_venue_id_def Let_def
      micro_stock_directory_def split: if_splits)
  with assms(1-3) show "error = EC_ok" "listed_below dir' (locate + 1)"
    by (simp_all add: listed_below_def refs_below_Suc [symmetric])
qed

lemma directory_size_below: "listed_below dir locate \<Longrightarrow> directory_size dir = unat locate - 1"
  by (simp add: directory_size_def listed_below_def card_image inj_on_def card_refs_below)

interpretation bm_directory: steady_loop "\<lambda>(dir, locate). listed_below dir locate \<and> 0 < locate \<and> locate \<le> 4096"
  "\<lambda>_. True" "\<lambda>error. error = EC_ok" BM_InstrumentDirectoryApplyStockDirectory
proof
  fix s :: "instrument_directory \<times> u16" and index :: u64
  assume inv: "case s of (dir, locate) \<Rightarrow> listed_below dir locate \<and> 0 < locate \<and> locate \<le> 4096"
  obtain dir locate where s: "s = (dir, locate)" "listed_below dir locate" "0 < locate" "unat locate \<le> 4096"
    using inv by (cases s) (auto simp: word_le_nat_alt)
  have u: "unat (locate + 1) = unat locate + 1" using s(4) by (simp add: unat_word_ariths)
  obtain error dir' where e: "apply_stock_directory dir 1 (micro_stock_directory locate ''AAPL'') = (error, dir')"
    by (cases "apply_stock_directory dir 1 (micro_stock_directory locate ''AAPL'')")
  note a = directory_added [OF s(2,3) u e]
  from directory_size_below [OF a(2)] u a listed_below_empty s e
  show "fst (BM_InstrumentDirectoryApplyStockDirectory index s) = EC_ok
      \<and> (case snd (BM_InstrumentDirectoryApplyStockDirectory index s) of
           (dir, locate) \<Rightarrow> listed_below dir locate \<and> 0 < locate \<and> locate \<le> 4096)"
    by (simp add: BM_InstrumentDirectoryApplyStockDirectory_def word_le_nat_alt word_less_nat_alt)
qed

text \<open>A trading action is applied to the instrument that was just listed, unless the locate code has wrapped to 0.\<close>

lemma trading_action_round:
  "fst (BM_InstrumentDirectoryApplyTradingAction index locate) = (if 0 < locate then EC_ok else EC_invalid_argument)"
  "snd (BM_InstrumentDirectoryApplyTradingAction index locate) = locate + 1"
  using micro_directory_valid [of locate] micro_action_valid [of locate TS_trading]
  by (auto simp: BM_InstrumentDirectoryApplyTradingAction_def Let_def apply_stock_directory_def
    apply_stock_trading_action_def is_valid_venue_id_def invalid_venue_id_def empty_directory_def
    micro_stock_directory_def micro_trading_action_def)

interpretation bm_action: counted_loop 65535 "\<lambda>k locate. locate = of_nat (k + 1)" "\<lambda>error. error = EC_ok"
  BM_InstrumentDirectoryApplyTradingAction
proof
  fix k and locate :: u16 and index assume k: "k < 65535" and l: "locate = of_nat (k + 1)"
  have "0 < locate" using k l by (simp add: word_less_nat_alt unat_of_nat del: of_nat_add of_nat_Suc)
  with l show "fst (BM_InstrumentDirectoryApplyTradingAction index locate) = EC_ok
      \<and> snd (BM_InstrumentDirectoryApplyTradingAction index locate) = of_nat (Suc k + 1)"
    by (simp add: trading_action_round)
qed

lemma lookup_directory_fold:
  "k < 65535 \<Longrightarrow> listed_below (fold (\<lambda>locate dir. snd (apply_stock_directory dir 1 (micro_stock_directory locate ''AAPL'')))
     (map of_nat [1..<Suc k]) empty_directory) (of_nat (Suc k))"
proof (induction k)
  case 0 show ?case by (simp add: listed_below_empty)
next
  case (Suc k)
  let ?step = "\<lambda>locate dir. snd (apply_stock_directory dir 1 (micro_stock_directory locate ''AAPL''))"
  let ?dir = "fold ?step (map of_nat [1..<Suc k]) empty_directory" and ?l = "of_nat (Suc k) :: u16"
  have "listed_below ?dir ?l" "0 < ?l" "unat (?l + 1) = unat ?l + 1"
    using Suc by (simp_all add: word_less_nat_alt unat_of_nat unat_word_ariths del: upt_Suc)
  from directory_added(2) [OF this, of "fst (apply_stock_directory ?dir 1 (micro_stock_directory ?l ''AAPL''))"]
  have "listed_below (?step ?l ?dir) (?l + 1)" by simp
  moreover have "fold ?step (map of_nat [1..<Suc (Suc k)]) empty_directory = ?step ?l ?dir" by simp
  ultimately show ?case by (simp add: add.commute del: upt_Suc fold_append map_append)
qed

lemma lookup_directory_listed: "listed_below lookup_directory 1025"
  using lookup_directory_fold [of 1024] by (simp add: lookup_directory_def del: upt_Suc)

interpretation bm_find: steady_loop "\<lambda>(dir, lookup). listed_below dir 1025 \<and> 0 < lookup \<and> lookup \<le> 1024" "\<lambda>_. True"
  "\<lambda>r. r \<noteq> None" BM_InstrumentDirectoryFindByStockLocate
proof
  fix s :: "instrument_directory \<times> u16" and index :: u64
  assume inv: "case s of (dir, lookup) \<Rightarrow> listed_below dir 1025 \<and> 0 < lookup \<and> lookup \<le> 1024"
  obtain dir l where s: "s = (dir, l)" "listed_below dir 1025" "0 < l" "unat l \<le> 1024"
    using inv by (cases s) (auto simp: word_le_nat_alt)
  have u: "unat (l + 1) = unat l + 1" using s(4) by (simp add: unat_word_ariths)
  have "l \<in> refs_below 1025" using s(3,4) by (simp add: refs_below_def word_less_nat_alt)
  then have "micro_key l \<in> dom (dir_instruments dir)" using s(2) by (simp add: listed_below_def)
  then have "find_instrument_at dir 1 l \<noteq> None" by (simp add: find_instrument_at_def find_instrument_def dom_def)
  with s u show "fst (BM_InstrumentDirectoryFindByStockLocate index s) \<noteq> None
      \<and> (case snd (BM_InstrumentDirectoryFindByStockLocate index s) of
           (dir, lookup) \<Rightarrow> listed_below dir 1025 \<and> 0 < lookup \<and> lookup \<le> 1024)"
    by (auto simp: BM_InstrumentDirectoryFindByStockLocate_def word_le_nat_alt word_less_nat_alt)
qed

section \<open>Properties\<close>

lemma new_backend_unlimited: "unlimited (new_recording_backend 0)"
  by (simp add: new_recording_backend_def unlimited_def)

lemmas micro_steady =
  bm_lifecycle_enter.measured_steady [OF new_engine_inv any_index]
  bm_book_add.measured_steady [OF bench_book_inv any_index]
  bm_best.measured_steady [OF two_sided_book_quotes any_index]
  bm_decode.measured_steady [OF TrueI any_index]
  bm_heartbeat.measured_steady [OF TrueI any_index]
  bm_directory.measured_steady [OF _ any_index, of "(empty_directory, 1)"]
  bm_find.measured_steady [OF _ any_index, of "(lookup_directory, 1)"]

lemmas micro_counted = bm_lifecycle_replace.rounds_good bm_lifecycle_cancel.rounds_good bm_book_cancel.rounds_good
  bm_book_delete.rounds_good bm_encode.rounds_good bm_submit_enter.rounds_good bm_submit_replace.rounds_good
  bm_submit_cancel.rounds_good

text \<open>
  The benchmarks measure successful calls: for every number of rounds below \<open>2\<^sup>3\<^sup>1\<close>, and for any number where the
  state is reset, no result is a rejection or an error. The one exception is the trading action benchmark, whose locate
  code has 16 bits.\<close>

theorem micro_benchmarks_measure_success:
  assumes "n < 2 ^ 31"
  shows "list_all (\<lambda>m. ouch_ok (EnterOrder m)) (fst (measured BM_OrderCandidateGeneratorNextEnterOrder (loop_indices n)
      (make_candidate_generator micro_candidates)))"
    "list_all (\<lambda>r. lr_status r = LS_accepted) (fst (measured BM_OrderLifecycleEnter (loop_indices n) (new_lifecycle_engine, 1)))"
    "list_all (\<lambda>r. lr_status r = LS_replaced) (fst (measured BM_OrderLifecycleReplace (loop_indices n) 1))"
    "list_all (\<lambda>r. lr_status r = LS_canceled) (fst (measured BM_OrderLifecycleCancel (loop_indices n) 1))"
    "list_all (\<lambda>error. error = EC_ok) (fst (measured BM_SymbolOrderBookApplyAddOrder (loop_indices n) (bench_book, 1)))"
    "list_all (\<lambda>error. error = EC_ok) (fst (measured BM_SymbolOrderBookApplyCancelOrder (loop_indices n) 1))"
    "list_all (\<lambda>error. error = EC_ok) (fst (measured BM_SymbolOrderBookApplyDeleteOrder (loop_indices n) 1))"
    "list_all (\<lambda>(bid, ask). bid \<noteq> None \<and> ask \<noteq> None)
       (fst (measured BM_SymbolOrderBookBestBidAsk (loop_indices n) two_sided_book))"
    "list_all (\<lambda>error. error = EC_ok) (fst (measured BM_OuchEncodeEnterOrder (loop_indices n) (replicate 47 0, 1)))"
    "list_all (\<lambda>r. r = Ok (micro_enter_order 1 100 1902500)) (fst (measured BM_OuchDecodeEnterOrder (loop_indices n) ()))"
    "list_all (\<lambda>r. r = Ok heartbeat) (fst (measured BM_MoldUdp64DecodeHeartbeat (loop_indices n) ()))"
    "list_all (\<lambda>r. esr_decision r = ESD_accepted)
       (fst (measured BM_EncodedBackendSubmitEnter (loop_indices n) (new_recording_backend 0, 1)))"
    "list_all (\<lambda>r. esr_decision r = ESD_accepted)
       (fst (measured BM_EncodedBackendSubmitReplace (loop_indices n) (new_recording_backend 0, 1)))"
    "list_all (\<lambda>r. esr_decision r = ESD_accepted)
       (fst (measured BM_EncodedBackendSubmitCancel (loop_indices n) (new_recording_backend 0, 1)))"
    "list_all (\<lambda>error. error = EC_ok)
       (fst (measured BM_InstrumentDirectoryApplyStockDirectory (loop_indices n) (empty_directory, 1)))"
    "list_all (\<lambda>r. r \<noteq> None)
       (fst (measured BM_InstrumentDirectoryFindByStockLocate (loop_indices n) (lookup_directory, 1)))"
  using assms new_backend_unlimited listed_below_empty lookup_directory_listed
  by (simp_all add: micro_steady micro_counted candidate_rounds_valid strides_1 submitting_def
    del: One_nat_def not_None_eq ouch_ok.simps)

text \<open>
  The trading action benchmark measures the refusal of an invalid message in every 65536th round: its locate code wraps
  to 0 and is not reset.\<close>

theorem trading_action_rounds:
  assumes "i < n"
  shows "fst (measured BM_InstrumentDirectoryApplyTradingAction (loop_indices n) 1) ! i
    = (if 65536 dvd i + 1 then EC_invalid_argument else EC_ok)"
proof -
  have "fst (measured BM_InstrumentDirectoryApplyTradingAction indices locate) ! i
      = (if 0 < locate + of_nat i then EC_ok else EC_invalid_argument)" if "i < length indices" for indices locate
    using that
  proof (induction indices arbitrary: locate i)
    case (Cons index indices)
    then show ?case by (cases i) (simp_all add: trading_action_round case_prod_beta add.assoc)
  qed simp
  moreover have "0 < 1 + (of_nat i :: u16) \<longleftrightarrow> \<not> 65536 dvd i + 1"
  proof -
    have "unat (of_nat (i + 1) :: u16) = (i + 1) mod 65536"
      by (simp add: unat_of_nat take_bit_eq_mod del: of_nat_add of_nat_Suc)
    then have "unat (1 + of_nat i :: u16) = (i + 1) mod 65536" by simp
    then show ?thesis by (simp add: word_less_nat_alt dvd_eq_mod_eq_0)
  qed
  ultimately show ?thesis using assms by (simp add: loop_indices_def)
qed

end
