(* ===== verification/Wire_Layout.thy ===== *)
theory Wire_Layout
  imports Ouch Moldudp64
begin

text \<open>
  The published layouts of the wire formats: the offset and length constants of
  \<^verbatim>\<open>include/fgep/ouch/ouch_types.hpp\<close> and \<^verbatim>\<open>include/fgep/moldudp64/moldudp64_types.hpp\<close>. The codecs of
  theories \<open>Ouch\<close> and \<open>Moldudp64\<close> have the numbers in place; here they have their names, and the locale
  \<open>field_layout\<close> says what a table of offsets promises: in the bytes of any message the field with that name stands
  exactly there, and the fields cover the message without gap or overlap.
\<close>

section \<open>The tables\<close>

text \<open>A constructor stands for the constant whose name ends like it.\<close>

datatype enter_order_field =
    EF_type | EF_user_ref_num | EF_side | EF_quantity | EF_symbol | EF_price | EF_time_in_force | EF_display
  | EF_capacity | EF_intermarket_sweep_eligibility | EF_cross_type | EF_cl_ord_id | EF_appendage_length
  | EF_optional_appendage

fun enter_order_offset :: "enter_order_field \<Rightarrow> nat" where
  "enter_order_offset EF_type = 0"
| "enter_order_offset EF_user_ref_num = 1"
| "enter_order_offset EF_side = 5"
| "enter_order_offset EF_quantity = 6"
| "enter_order_offset EF_symbol = 10"
| "enter_order_offset EF_price = 18"
| "enter_order_offset EF_time_in_force = 26"
| "enter_order_offset EF_display = 27"
| "enter_order_offset EF_capacity = 28"
| "enter_order_offset EF_intermarket_sweep_eligibility = 29"
| "enter_order_offset EF_cross_type = 30"
| "enter_order_offset EF_cl_ord_id = 31"
| "enter_order_offset EF_appendage_length = 45"
| "enter_order_offset EF_optional_appendage = 47"

definition length_enter_order_base :: nat where
  "length_enter_order_base = 47"

datatype replace_order_field =
    RF_type | RF_orig_user_ref_num | RF_user_ref_num | RF_quantity | RF_price | RF_time_in_force | RF_display
  | RF_intermarket_sweep_eligibility | RF_cl_ord_id | RF_appendage_length | RF_optional_appendage

fun replace_order_offset :: "replace_order_field \<Rightarrow> nat" where
  "replace_order_offset RF_type = 0"
| "replace_order_offset RF_orig_user_ref_num = 1"
| "replace_order_offset RF_user_ref_num = 5"
| "replace_order_offset RF_quantity = 9"
| "replace_order_offset RF_price = 13"
| "replace_order_offset RF_time_in_force = 21"
| "replace_order_offset RF_display = 22"
| "replace_order_offset RF_intermarket_sweep_eligibility = 23"
| "replace_order_offset RF_cl_ord_id = 24"
| "replace_order_offset RF_appendage_length = 38"
| "replace_order_offset RF_optional_appendage = 40"

definition length_replace_order_base :: nat where
  "length_replace_order_base = 40"

datatype cancel_order_field = CF_type | CF_user_ref_num | CF_quantity | CF_appendage_length | CF_optional_appendage

fun cancel_order_offset :: "cancel_order_field \<Rightarrow> nat" where
  "cancel_order_offset CF_type = 0"
| "cancel_order_offset CF_user_ref_num = 1"
| "cancel_order_offset CF_quantity = 5"
| "cancel_order_offset CF_appendage_length = 9"
| "cancel_order_offset CF_optional_appendage = 11"

definition length_cancel_order_base :: nat where
  "length_cancel_order_base = 11"

datatype downstream_field = DF_session | DF_sequence_number | DF_message_count

fun downstream_offset :: "downstream_field \<Rightarrow> nat" where
  "downstream_offset DF_session = 0"
| "downstream_offset DF_sequence_number = 10"
| "downstream_offset DF_message_count = 18"

definition length_session :: nat where
  "length_session = 10"

definition length_downstream_header :: nat where
  "length_downstream_header = 20"

datatype request_field = QF_session | QF_sequence_number | QF_requested_message_count

fun request_offset :: "request_field \<Rightarrow> nat" where
  "request_offset QF_session = 0"
| "request_offset QF_sequence_number = 10"
| "request_offset QF_requested_message_count = 18"

definition length_request_packet :: nat where
  "length_request_packet = 20"

section \<open>What a table promises\<close>

locale field_layout =
  fixes fields :: "'f list" and offset :: "'f \<Rightarrow> nat" and part :: "'m \<Rightarrow> 'f \<Rightarrow> bytes"
    and image :: "'m \<Rightarrow> bytes" and typed :: "'m \<Rightarrow> bool"
  assumes image_parts: "typed m \<Longrightarrow> image m = concat (map (part m) fields)"
    and offsets: "typed m \<Longrightarrow> i < length fields \<Longrightarrow>
      offset (fields ! i) = length (concat (map (part m) (take i fields)))"
begin

lemma field_at:
  assumes "typed m" "f \<in> set fields"
  shows "seg (image m) (offset f) (length (part m f)) = part m f"
proof -
  obtain i where i: "i < length fields" "fields ! i = f" using assms(2) by (auto simp: in_set_conv_nth)
  have "image m = concat (map (part m) (take i fields)) @ part m f @ concat (map (part m) (drop (Suc i) fields))"
    using image_parts [OF assms(1)] id_take_nth_drop [OF i(1)] i(2) by (metis concat.simps(2) concat_append list.simps(9) map_append)
  with offsets [OF assms(1) i(1)] i(2) show ?thesis by (simp add: seg_append_skip seg_append_take)
qed

text \<open>So two messages agree on a field when their bytes do.\<close>

lemma field_determined:
  assumes "typed m" "typed m'" "f \<in> set fields" "length (part m f) = length (part m' f)"
    and "seg (image m) (offset f) (length (part m f)) = seg (image m') (offset f) (length (part m f))"
  shows "part m f = part m' f"
  using field_at [OF assms(1,3)] field_at [OF assms(2,3)] assms(4,5) by simp

end

section \<open>The layouts of the messages\<close>

fun enter_order_part :: "enter_order_message \<Rightarrow> enter_order_field \<Rightarrow> bytes" where
  "enter_order_part m EF_type = [byte_of_char CHR ''O'']"
| "enter_order_part m EF_user_ref_num = be_bytes 4 (eo_user_ref_num m)"
| "enter_order_part m EF_side = [byte_of_char (ouch_side_to_char (eo_side m))]"
| "enter_order_part m EF_quantity = be_bytes 4 (eo_quantity m)"
| "enter_order_part m EF_symbol = map byte_of_char (eo_symbol m)"
| "enter_order_part m EF_price = be_bytes 8 (eo_price m)"
| "enter_order_part m EF_time_in_force = [byte_of_char (time_in_force_to_char (eo_time_in_force m))]"
| "enter_order_part m EF_display = [byte_of_char (display_to_char (eo_display m))]"
| "enter_order_part m EF_capacity = [byte_of_char (capacity_to_char (eo_capacity m))]"
| "enter_order_part m EF_intermarket_sweep_eligibility =
     [byte_of_char (intermarket_sweep_eligibility_to_char (eo_intermarket_sweep_eligibility m))]"
| "enter_order_part m EF_cross_type = [byte_of_char (ouch_cross_type_to_char (eo_cross_type m))]"
| "enter_order_part m EF_cl_ord_id = map byte_of_char (eo_cl_ord_id m)"
| "enter_order_part m EF_appendage_length = be_bytes 2 (of_nat (length (eo_optional_appendage m)) :: u16)"
| "enter_order_part m EF_optional_appendage = eo_optional_appendage m"

definition enter_order_fields :: "enter_order_field list" where
  "enter_order_fields = [EF_type, EF_user_ref_num, EF_side, EF_quantity, EF_symbol, EF_price, EF_time_in_force, EF_display,
     EF_capacity, EF_intermarket_sweep_eligibility, EF_cross_type, EF_cl_ord_id, EF_appendage_length,
     EF_optional_appendage]"

fun replace_order_part :: "replace_order_message \<Rightarrow> replace_order_field \<Rightarrow> bytes" where
  "replace_order_part m RF_type = [byte_of_char CHR ''U'']"
| "replace_order_part m RF_orig_user_ref_num = be_bytes 4 (rpo_orig_user_ref_num m)"
| "replace_order_part m RF_user_ref_num = be_bytes 4 (rpo_user_ref_num m)"
| "replace_order_part m RF_quantity = be_bytes 4 (rpo_quantity m)"
| "replace_order_part m RF_price = be_bytes 8 (rpo_price m)"
| "replace_order_part m RF_time_in_force = [byte_of_char (time_in_force_to_char (rpo_time_in_force m))]"
| "replace_order_part m RF_display = [byte_of_char (display_to_char (rpo_display m))]"
| "replace_order_part m RF_intermarket_sweep_eligibility =
     [byte_of_char (intermarket_sweep_eligibility_to_char (rpo_intermarket_sweep_eligibility m))]"
| "replace_order_part m RF_cl_ord_id = map byte_of_char (rpo_cl_ord_id m)"
| "replace_order_part m RF_appendage_length = be_bytes 2 (of_nat (length (rpo_optional_appendage m)) :: u16)"
| "replace_order_part m RF_optional_appendage = rpo_optional_appendage m"

definition replace_order_fields :: "replace_order_field list" where
  "replace_order_fields = [RF_type, RF_orig_user_ref_num, RF_user_ref_num, RF_quantity, RF_price, RF_time_in_force,
     RF_display, RF_intermarket_sweep_eligibility, RF_cl_ord_id, RF_appendage_length, RF_optional_appendage]"

fun cancel_order_part :: "cancel_order_message \<Rightarrow> cancel_order_field \<Rightarrow> bytes" where
  "cancel_order_part m CF_type = [byte_of_char CHR ''X'']"
| "cancel_order_part m CF_user_ref_num = be_bytes 4 (co_user_ref_num m)"
| "cancel_order_part m CF_quantity = be_bytes 4 (co_quantity m)"
| "cancel_order_part m CF_appendage_length = be_bytes 2 (of_nat (length (co_optional_appendage m)) :: u16)"
| "cancel_order_part m CF_optional_appendage = co_optional_appendage m"

definition cancel_order_fields :: "cancel_order_field list" where
  "cancel_order_fields = [CF_type, CF_user_ref_num, CF_quantity, CF_appendage_length, CF_optional_appendage]"

fun downstream_part :: "downstream_packet \<Rightarrow> downstream_field \<Rightarrow> bytes" where
  "downstream_part p DF_session = dp_session p"
| "downstream_part p DF_sequence_number = be_bytes 8 (dp_first_sequence_number p)"
| "downstream_part p DF_message_count = be_bytes 2 (dp_message_count p)"

fun request_part :: "request_packet \<Rightarrow> request_field \<Rightarrow> bytes" where
  "request_part p QF_session = rp_session p"
| "request_part p QF_sequence_number = be_bytes 8 (rp_sequence_number p)"
| "request_part p QF_requested_message_count = be_bytes 2 (rp_requested_message_count p)"

interpretation enter_layout: field_layout enter_order_fields enter_order_offset enter_order_part
  "\<lambda>m. ouch_image (EnterOrder m)" "\<lambda>m. ouch_typed (EnterOrder m)"
  by unfold_locales
     (auto simp: enter_order_fields_def appendage_image_def less_Suc_eq numeral_eq_Suc simp del: be_bytes.simps)

interpretation replace_layout: field_layout replace_order_fields replace_order_offset replace_order_part
  "\<lambda>m. ouch_image (ReplaceOrder m)" "\<lambda>m. ouch_typed (ReplaceOrder m)"
  by unfold_locales
     (auto simp: replace_order_fields_def appendage_image_def less_Suc_eq numeral_eq_Suc simp del: be_bytes.simps)

interpretation cancel_layout: field_layout cancel_order_fields cancel_order_offset cancel_order_part
  "\<lambda>m. ouch_image (CancelOrder m)" "\<lambda>m. ouch_typed (CancelOrder m)"
  by unfold_locales
     (auto simp: cancel_order_fields_def appendage_image_def less_Suc_eq numeral_eq_Suc simp del: be_bytes.simps)

interpretation downstream_layout: field_layout "[DF_session, DF_sequence_number, DF_message_count]" downstream_offset
  downstream_part mold_header_image "\<lambda>p. length (dp_session p) = length_session"
  by unfold_locales (auto simp: mold_header_image_def less_Suc_eq length_session_def numeral_eq_Suc)

interpretation request_layout: field_layout "[QF_session, QF_sequence_number, QF_requested_message_count]" request_offset
  request_part request_image "\<lambda>p. length (rp_session p) = length_session"
  by unfold_locales (auto simp: request_image_def less_Suc_eq length_session_def numeral_eq_Suc)

lemma all_fields:
  "e \<in> set enter_order_fields" "r \<in> set replace_order_fields" "c \<in> set cancel_order_fields"
  "d \<in> set [DF_session, DF_sequence_number, DF_message_count]"
  "q \<in> set [QF_session, QF_sequence_number, QF_requested_message_count]"
  by ((cases e; simp add: enter_order_fields_def), (cases r; simp add: replace_order_fields_def),
    (cases c; simp add: cancel_order_fields_def), (cases d; simp), (cases q; simp))

text \<open>
  In the bytes of an order that decodes, every field stands at its published offset, and the length is the base length
  and that of the appendage.\<close>

theorem ouch_fields_in_place:
  "ouch_decode_message bs = Ok (EnterOrder m) \<Longrightarrow>
     seg bs (enter_order_offset e) (length (enter_order_part m e)) = enter_order_part m e
   \<and> length bs = length_enter_order_base + length (eo_optional_appendage m)"
  "ouch_decode_message bs = Ok (ReplaceOrder n) \<Longrightarrow>
     seg bs (replace_order_offset r) (length (replace_order_part n r)) = replace_order_part n r
   \<and> length bs = length_replace_order_base + length (rpo_optional_appendage n)"
  "ouch_decode_message bs = Ok (CancelOrder k) \<Longrightarrow>
     seg bs (cancel_order_offset c) (length (cancel_order_part k c)) = cancel_order_part k c
   \<and> length bs = length_cancel_order_base + length (co_optional_appendage k)"
  unfolding ouch_decode_message_iff length_enter_order_base_def length_replace_order_base_def
    length_cancel_order_base_def
  using enter_layout.field_at [OF _ all_fields(1), of m e] replace_layout.field_at [OF _ all_fields(2), of n r]
    cancel_layout.field_at [OF _ all_fields(3), of k c] length_ouch_image
  by (auto simp del: ouch_image.simps ouch_typed.simps ouch_ok.simps)

text \<open>The same for the header of a packet and for a request.\<close>

theorem mold_fields_in_place:
  "decode_downstream_packet bs = Ok p \<Longrightarrow>
     seg bs (downstream_offset d) (length (downstream_part p d)) = downstream_part p d
   \<and> length_downstream_header \<le> length bs"
  "decode_request_packet bs = Ok u \<Longrightarrow>
     seg bs (request_offset q) (length (request_part u q)) = request_part u q \<and> length bs = length_request_packet"
proof -
  assume "decode_downstream_packet bs = Ok p"
  then have b: "bs = mold_header_image p @ blocks_image (dp_messages p)" "length (dp_session p) = 10"
    by (simp_all add: decode_downstream_packet_iff decodable_def packet_image_def)
  then have l: "length (mold_header_image p) = 20" by (simp add: length_mold_header_image)
  have "downstream_offset d + length (downstream_part p d) \<le> 20" using b(2) by (cases d) simp_all
  then have "seg bs (downstream_offset d) (length (downstream_part p d))
      = seg (mold_header_image p) (downstream_offset d) (length (downstream_part p d))"
    using b(1) l by (simp add: seg_def)
  with downstream_layout.field_at [OF _ all_fields(4), of p d] b l
  show "seg bs (downstream_offset d) (length (downstream_part p d)) = downstream_part p d
    \<and> length_downstream_header \<le> length bs"
    by (simp add: length_session_def length_downstream_header_def)
next
  assume "decode_request_packet bs = Ok u"
  with request_layout.field_at [OF _ all_fields(5), of u q]
  show "seg bs (request_offset q) (length (request_part u q)) = request_part u q \<and> length bs = length_request_packet"
    by (auto simp: decode_request_packet_iff length_session_def length_request_packet_def)
qed

end
