(* ===== verification/Spec2Isabelle.thy ===== *)
theory Spec2Isabelle
  imports Generator Lifecycle Execution Fpga_Gate Telemetry Async_Worker Market_Event Order_Event Fixtures Backend_Factory
    Candidates Backend_Bench Reports Md_Generator Runtime_Guard Byte_Io_Check Perf_Report Queue_Perf Benchmark_Report
    Display_Names Stats_Flow Micro_Benchmarks Wire_Layout
begin

text \<open>
  \<^bold>\<open>FGEP, a gated execution platform: a verification development.\<close>

  The program is the C++ core of a trading platform. Market data comes in as MoldUDP64 packets that carry NASDAQ
  ITCH messages; they are decoded, numbered and applied to a directory of instruments and to one order book per
  instrument and venue; a normalised best bid and offer is read off all venues of a symbol. Orders go out as OUCH
  messages: a risk supervisor and the gate's guardrails decide on them, a lifecycle engine tracks them, and an
  execution backend, possibly behind a lock-free queue, takes their bytes. A reference model of the hardware gate and a
  generator of synthetic feeds complete it. Paths below are relative to \<^verbatim>\<open>include/fgep/\<close> (headers) and
  \<^verbatim>\<open>src/\<close> (sources) of the repository.

  \<^bold>\<open>How the code is modelled.\<close> Machine integers are words of their width, so that \<open>+\<close> wraps as in C++;
  \<^verbatim>\<open>std::size_t\<close> that only counts elements of a container is a natural number. Byte spans are lists of bytes; a
  routine that writes into a span takes the old buffer and returns its error code with the buffer as it leaves it, also
  when it stops half-way. \<^verbatim>\<open>Result<T>\<close> is the type \<open>result\<close>; a bare \<^verbatim>\<open>ErrorCode\<close> is a value of
  \<open>error_code\<close>. Hash maps are partial functions, \<^verbatim>\<open>std::map\<close> is a sorted association list, hash sets are sets.
  Classes are records, and a method takes the object last or first and returns it updated. Objects that are passed by
  reference (a directory, a backend) are arguments and results. A virtual interface is a function argument.

  \<^bold>\<open>Theories and the code they model.\<close>

  \<^item> \<open>Prelude\<close>: \<^verbatim>\<open>core/errors.hpp\<close>; the algebra of reading (\<open>seg\<close>) and writing (\<open>put\<close>) a part of a buffer.
  \<^item> \<open>Wire\<close>: \<^verbatim>\<open>wire/byte_io.hpp\<close>, \<^verbatim>\<open>wire/fixed_ascii.hpp\<close>. The locale \<open>wire_field\<close> is the contract of a
    fixed-width field (what a write leaves, when a read succeeds); every integer width, fixed text and character
    field is an interpretation of it, and the codec proofs use nothing else.
  \<^item> \<open>Itch_Types\<close>, \<open>Itch_Codec\<close>: \<^verbatim>\<open>itch/*.hpp\<close>, \<^verbatim>\<open>itch/itch_decode.cpp\<close>, \<^verbatim>\<open>itch/itch_encode.cpp\<close>, all message
    types. Each message has an image in bytes; decoding succeeds exactly on images of valid messages, and encoding
    writes exactly the image, which gives both round trips.
  \<^item> \<open>Instrument\<close>: \<^verbatim>\<open>venue/*.hpp\<close>, \<^verbatim>\<open>instrument/*.hpp\<close>, \<^verbatim>\<open>instrument/instrument_directory.cpp\<close>, with the
    invariant that links the directory to its index by symbol (locale \<open>instrument_source\<close>).
  \<^item> \<open>Ordered_Map\<close>, \<open>Order_Book\<close>: \<^verbatim>\<open>book/symbol_order_book.cpp\<close>. The price levels are a redundant view of the
    resting orders; the invariant says that they are exact, the refinement that the book implements a plain map of
    orders, down to the error code of every refusal. The two sides are two interpretations of the locales \<open>comparator\<close> and \<open>price_order\<close>.
  \<^item> \<open>Venue_Book\<close>: \<^verbatim>\<open>book/venue_book.cpp\<close>, \<^verbatim>\<open>book/multi_venue_book.cpp\<close>, \<^verbatim>\<open>bbo/normalized_bbo.cpp\<close>. The
    locales \<open>quote_ranking\<close> and \<open>bbo_side\<close> prove the selection of the best quote once for both sides; \<open>spec_market\<close>
    is the order-map specification of all venues, which the books refine.
  \<^item> \<open>Moldudp64\<close>: \<^verbatim>\<open>moldudp64/*\<close>, packet framing with its sequence numbers.
  \<^item> \<open>Replay\<close>: \<^verbatim>\<open>replay/*\<close>, from bytes to books: exactly which datagrams decode, exactly what a message does to
    directory, books and statistics, and the properties of the market that any feed builds.
  \<^item> \<open>Generator\<close>: \<^verbatim>\<open>gen/*\<close>, the synthetic feed, that the replay side understands it, and which reference
    numbers its messages carry.
  \<^item> \<open>Ouch\<close>: \<^verbatim>\<open>ouch/*\<close>, the order messages and their codec; locale \<open>char_code\<close> for the one-letter enumerations.
  \<^item> \<open>Risk\<close>: \<^verbatim>\<open>risk/risk_supervisor.cpp\<close>; locales \<open>notional_check\<close> (the overflow-guarded product is exact) and
    \<open>symbol_switch\<close> (the last override wins), interpreted again by the guardrails.
  \<^item> \<open>Guardrail\<close>: \<^verbatim>\<open>gate/guardrail_state.cpp\<close>, \<^verbatim>\<open>gate/guardrail_control.cpp\<close>; the control path is a simulation of
    running the commands in the order they were pushed.
  \<^item> \<open>Lifecycle\<close>: \<^verbatim>\<open>execution/order_lifecycle.cpp\<close>, \<^verbatim>\<open>execution/simulated_execution_engine.cpp\<close>; the contract of a
    step (\<open>lifecycle_effect\<close>), histories and their conservation laws, and the risk check in front.
  \<^item> \<open>Spsc_Ring\<close>: \<^verbatim>\<open>core/spsc_ring.hpp\<close>, sequentially (locale \<open>bounded_queue\<close>) and as interleavings of single
    accesses to shared memory.
  \<^item> \<open>Core_Stats\<close>: \<^verbatim>\<open>telemetry/core_stats.hpp\<close>, sequentially and with a snapshot that is taken while other threads
    count.
  \<^item> \<open>Execution\<close>: \<^verbatim>\<open>execution/execution_backend.cpp\<close>, \<^verbatim>\<open>encoded_backend_submit.cpp\<close>, \<^verbatim>\<open>backend_submit_queue.hpp\<close>,
    \<^verbatim>\<open>queued_execution_backend.hpp\<close>, the sequential part of \<^verbatim>\<open>async_execution_backend.hpp\<close>,
    \<^verbatim>\<open>gate/permissive_gate.cpp\<close>. The locale \<open>order_sink\<close> is the contract of
    \<^verbatim>\<open>ExecutionBackend\<close>; the recording and the queued backend are its interpretations.
  \<^item> \<open>Async_Worker\<close>: \<^verbatim>\<open>execution/async_execution_backend.hpp\<close> with its thread. Caller and worker are interleaved at
    the accesses to the stop flag, the queue and the backend; the invariant gives delivery in order, and a distance
    that every step of a waiting \<^verbatim>\<open>stop\<close> decreases gives that it returns.
  \<^item> \<open>Stats_Flow\<close>: \<^verbatim>\<open>push\<close> of \<^verbatim>\<open>backend_submit_queue.hpp\<close> and \<^verbatim>\<open>poll_once\<close> of the asynchronous backend cut at
    every access to the ring, the backend and the counters. What both threads have begun can be settled to a run of whole
    operations, a refinement that justifies taking them as single steps, and gives the counters at every moment.
  \<^item> \<open>Udp_Sockets\<close>: \<^verbatim>\<open>execution/kernel_udp_backend.cpp\<close>, \<^verbatim>\<open>net/udp_sender.cpp\<close>, \<^verbatim>\<open>net/udp_receiver.cpp\<close>. The
    results of system calls are arguments, the calls made are part of the results; the locale \<open>socket_owner\<close> is the
    life cycle of a class that owns a descriptor, its move operations included, interpreted by all three.
  \<^item> \<open>Backend_Factory\<close>: \<^verbatim>\<open>execution/afxdp_backend.cpp\<close>, \<^verbatim>\<open>dpdk_backend.cpp\<close>, \<^verbatim>\<open>backend_factory.cpp\<close>, with the DPDK
    library as arguments in the same way.
  \<^item> \<open>Fpga_Gate\<close>: \<^verbatim>\<open>hardware/*\<close>; locale \<open>counting_gate\<close> for both implementations of the interface; the decisions
    of the reference gate against a list of requirements.
  \<^item> \<open>Telemetry\<close>: \<^verbatim>\<open>telemetry/pipeline_telemetry.cpp\<close>, \<^verbatim>\<open>telemetry/latency_summary.cpp\<close>; a percentile is
    specified by counting samples, independently of sorting and ranks.
  \<^item> \<open>Fixtures\<close>: \<^verbatim>\<open>reference/*\<close>, the parsers of symbol and venue lists, against a splitting of the text into lines.
  \<^item> \<open>Core_Types\<close>, \<open>Market_Event\<close>, \<open>Order_Event\<close>: \<^verbatim>\<open>core/types.hpp\<close>, \<^verbatim>\<open>core/time.hpp\<close>,
    \<^verbatim>\<open>core/market_event.hpp\<close>, \<^verbatim>\<open>core/order_event.hpp\<close>; how these models of ITCH and OUCH relate to the codecs.
  \<^item> \<open>Candidates\<close>: \<^verbatim>\<open>bench/order_candidate_generator.cpp\<close>, \<^verbatim>\<open>bench/execution_benchmark.cpp\<close>; the generated orders
    are valid, and the benchmark of the simulated exchange reports what happened.
  \<^item> \<open>Backend_Bench\<close>: \<^verbatim>\<open>bench/backend_benchmark.cpp\<close>, \<^verbatim>\<open>bench/wall_clock_backend_benchmark.cpp\<close>,
    \<^verbatim>\<open>gate/guardrail_update_benchmark.cpp\<close>; counts, times and summaries are those of the submissions and updates.
  \<^item> \<open>Reports\<close>: \<^verbatim>\<open>bench/benchmark_report.cpp\<close>, \<^verbatim>\<open>bench/system_metadata.cpp\<close>; a report determines the figures it
    was made from. The locale \<open>comparison_table\<close> holds this for the tables of both backend benchmarks.
  \<^item> \<open>Md_Generator\<close>: the feed program \<^verbatim>\<open>apps/fgep_md_generator.cpp\<close>; it ends when the outside cooperates, and the
    replay side decodes all it sends.
  \<^item> \<open>Runtime_Guard\<close>: \<^verbatim>\<open>runtime/*\<close>; a heap guard counts exactly the allocations made while it is live.
  \<^item> \<open>Byte_Io_Check\<close>: \<^verbatim>\<open>wire/byte_io.cpp\<close>, a program that checks the wire layer by assertions; none fails.
  \<^item> \<open>Queue_Perf\<close>: \<^verbatim>\<open>apps/fgep_spsc_queue_perf.cpp\<close>. Its two threads are interleaved at their accesses to the flags and
    the queue; the invariant gives exact figures when both have returned, and a distance that every step decreases
    gives that a stop signal ends them.
  \<^item> \<open>Perf_Report\<close>: \<^verbatim>\<open>apps/fgep_spsc_perf_report.cpp\<close>, which parses a capture of \<^verbatim>\<open>perf stat\<close> with the output of the
    queue program; counters and figures are read back as they were printed, but for events that were not counted.
  \<^item> \<open>Benchmark_Report\<close>: \<^verbatim>\<open>apps/fgep_benchmark_report.cpp\<close>; the files it writes, and the figures its deterministic
    reports have, which are those of the reports in \<^verbatim>\<open>reports/\<close>.
  \<^item> \<open>Display_Names\<close>: the \<^verbatim>\<open>to_string\<close> functions of error codes, ITCH and OUCH. The locale \<open>display_name\<close>
    says that a name identifies its value; the event and the wire models name the same wire code alike.
  \<^item> \<open>Wire_Layout\<close>: the offset tables of \<^verbatim>\<open>ouch/ouch_types.hpp\<close> and \<^verbatim>\<open>moldudp64/moldudp64_types.hpp\<close>. The locale
    \<open>field_layout\<close> says that the fields stand where the table puts them, in the bytes of every message that decodes.
  \<^item> \<open>Hot_Loops\<close>, \<open>Micro_Benchmarks\<close>: \<^verbatim>\<open>benchmarks/\<close>. The locales \<open>steady_loop\<close> and \<open>counted_loop\<close> say that every
    round of a measurement does the same kind of work, and are interpreted on each loop body: the benchmarks time
    successful calls, with one exception.

  This theory holds the properties that span the order path.

  \<^bold>\<open>Bounds.\<close> No definition uses fuel. Every loop of the library is a total function (\<open>drain\<close> of the asynchronous
  backend by a measure on the ring's counters); the loop of the feed program, which goes on as long as sends fail, is a
  partial function whose value \<^const>\<open>None\<close> is not returning, and that it returns is proved under the conditions that
  make it. Histories carry the bounds under which the code's own counters stay exact: a book holds fewer than \<open>2^32\<close>
  orders (a market has applied at most \<open>2^32\<close> messages), so that the 64-bit sum of its 32-bit quantities does not
  wrap, and a control path has pushed fewer than \<open>2^64\<close> commands.

  \<^bold>\<open>Not modelled.\<close> What most programs print to the console, and functions that only return a member of their object.
  What system calls, the memory allocator, the clock, the file system and the DPDK
  library do is outside the program: their results are arguments. So is the arithmetic of \<^verbatim>\<open>double\<close>, which only the
  report programs and benchmarks use for derived figures. Google Benchmark decides how often a benchmark body runs: any
  number is covered. An enumeration is a datatype of its enumerators: other values of its underlying type, which C++
  allows by a cast, are not modelled. Interleavings are those of single accesses to memory in some order; the further reorderings
  that relaxed accesses to different counters allow an observer are not modelled.
\<close>

section \<open>The order path\<close>

lemma encoded_payload:
  assumes "ouch_ok m" "ouch_typed m"
  shows "ouch_encode_message (replicate (encoded_length m) 0) m = (EC_ok, ouch_image m)"
    "ouch_decode_message (ouch_image m) = Ok m" "ouch_image m \<noteq> []"
proof -
  show "ouch_encode_message (replicate (encoded_length m) 0) m = (EC_ok, ouch_image m)"
    using assms by (simp add: ouch_encode_valid)
  show "ouch_decode_message (ouch_image m) = Ok m" using assms by (simp add: ouch_decode_message_iff)
  have "0 < encoded_length m" by (cases m) simp_all
  then show "ouch_image m \<noteq> []" using length_ouch_image [OF assms(2)] by auto
qed

text \<open>
  C20: An order the simulated exchange accepts goes all the way: when the gate is configured like the exchange's risk
  supervisor and its backend is open and unlimited, the order encodes without error, the gate lets it through, the
  backend holds exactly one request more, and the bytes it holds decode to that order.\<close>

theorem accepted_order_reaches_backend:
  assumes "submit_enter m xe = (r, xe')" "er_decision r = ED_accepted"
    and "same_rules (xe_risk xe) gs" "ouch_typed (EnterOrder m)"
    and "rb_open rb" "rb_max_submissions rb = 0"
    and "encode_enter_order_message (replicate (encoded_length (EnterOrder m)) 0) m = (error, payload)"
    and "request = \<lparr>bsq_user_ref_num = eo_user_ref_num m, bsq_kind = BK_enter, bsq_payload = payload\<rparr>"
    and "gate_submit recording_submit gs (make_enter_guardrail_order m) request rb = (g, rb')"
  shows "error = EC_ok \<and> gsr_decision g = GSD_accepted \<and> rb_submissions rb' = rb_submissions rb @ [request]
    \<and> ouch_decode_message payload = Ok (EnterOrder m)"
proof -
  have risk: "rr_decision (check_enter (xe_risk xe) m) = RD_accepted"
    using assms(1,2) by (auto simp: submit_enter_def from_risk_reject_def Let_def risk_decision_not_rejected split: if_splits)
  then have allowed: "gres_decision (guardrail_check gs (make_enter_guardrail_order m)) = GD_allowed"
    using same_rules_decisions [OF assms(3)] by simp
  have "is_valid_enter_order_message m"
    using assms(1,2) risk by (auto simp: submit_enter_def le_enter_def from_lifecycle_def lr_accepted_def lifecycle_reject_def
      Let_def split: if_splits)
  then have "ouch_ok (EnterOrder m)" by simp
  note p = encoded_payload [OF this assms(4)]
  then have "error = EC_ok" "payload = ouch_image (EnterOrder m)" using assms(7) by simp_all
  then show ?thesis
    using p(2,3) allowed assms(5,6,8,9)
    by (auto simp: gate_submit_def from_backend_def recording_submit_def rb_at_capacity_def make_backend_accept_def Let_def
      simp del: ouch_image.simps)
qed

theorem accepted_order_reaches_backend_witness:
  "\<exists>request. rb_submissions (snd (gate_submit recording_submit (gs_disable_symbol ''MSFT    '' sample_guardrail)
      (make_enter_guardrail_order sample_enter) request (new_recording_backend 0))) = [request]
    \<and> ouch_decode_message (bsq_payload request) = Ok (EnterOrder sample_enter)"
proof -
  obtain error payload where e: "encode_enter_order_message (replicate (encoded_length (EnterOrder sample_enter)) 0) sample_enter
      = (error, payload)"
    by (cases "encode_enter_order_message (replicate (encoded_length (EnterOrder sample_enter)) 0) sample_enter")
  define request where "request = \<lparr>bsq_user_ref_num = eo_user_ref_num sample_enter, bsq_kind = BK_enter, bsq_payload = payload\<rparr>"
  obtain g rb' where g: "gate_submit recording_submit (gs_disable_symbol ''MSFT    '' sample_guardrail)
      (make_enter_guardrail_order sample_enter) request (new_recording_backend 0) = (g, rb')"
    by (cases "gate_submit recording_submit (gs_disable_symbol ''MSFT    '' sample_guardrail)
      (make_enter_guardrail_order sample_enter) request (new_recording_backend 0)")
  obtain r xe' where r: "submit_enter sample_enter (make_execution_engine sample_risk) = (r, xe')"
    by (cases "submit_enter sample_enter (make_execution_engine sample_risk)")
  have "er_decision r = ED_accepted"
    using r sample_risk_accepts sample_enter_valid
    by (auto simp: submit_enter_def make_execution_engine_def le_enter_def new_lifecycle_engine_def le_contains_def
      is_stale_user_ref_def from_lifecycle_def lr_accepted_def sample_enter_def split: if_splits)
  moreover have "same_rules (xe_risk (make_execution_engine sample_risk)) (gs_disable_symbol ''MSFT    '' sample_guardrail)"
    by (simp add: make_execution_engine_def same_rules_def sample_risk_def sample_guardrail_def make_guardrail_state_def
      make_risk_supervisor_def gs_disable_symbol_def rs_disable_symbol_def default_risk_limits_def default_guardrail_limits_def)
  moreover have "rb_open (new_recording_backend 0)" "rb_max_submissions (new_recording_backend 0) = 0"
    by (simp_all add: new_recording_backend_def)
  ultimately have "rb_submissions rb' = rb_submissions (new_recording_backend 0) @ [request]
      \<and> ouch_decode_message payload = Ok (EnterOrder sample_enter)"
    using accepted_order_reaches_backend [OF r _ _ sample_enter_ok(2) _ _ e request_def g] by simp
  with g show ?thesis by (intro exI [of _ request]) (simp add: request_def new_recording_backend_def)
qed

end
